(* ===== verification/Prelude.thy ===== *)
theory Prelude
  imports Complex_Main "HOL-Library.Product_Lexorder"
begin

text \<open>
  Shared vocabulary of the development: lemma collections, a result type for
  code that may throw, lists updated by key (JavaScript objects and maps in
  insertion order), removal of the first matching element (findIndex and
  splice), and the first minimal element (sort and take the head).
\<close>

named_theorems live_simps \<open>equations that compute a component's operations\<close>
named_theorems keeps \<open>an operation keeps a component's invariant\<close>

section \<open>Results that may be thrown errors\<close>

text \<open>
  A JavaScript call either returns or throws; \<open>Inl\<close> holds what is thrown.
\<close>

definition bindE :: "'e + 'a \<Rightarrow> ('a \<Rightarrow> 'e + 'b) \<Rightarrow> 'e + 'b" where
  "bindE m f = (case m of Inl e \<Rightarrow> Inl e | Inr x \<Rightarrow> f x)"

lemma bindE_simps [simp]: "bindE (Inl e) f = Inl e" "bindE (Inr x) f = f x"
  by (simp_all add: bindE_def)

lemma bindE_Inr_iff: "bindE m f = Inr y \<longleftrightarrow> (\<exists>x. m = Inr x \<and> f x = Inr y)"
  by (cases m) auto

lemma bindE_Inl_iff: "bindE m f = Inl e \<longleftrightarrow> m = Inl e \<or> (\<exists>x. m = Inr x \<and> f x = Inl e)"
  by (cases m) auto

section \<open>Association lists in insertion order\<close>

text \<open>
  Setting a key keeps its position when it is there and appends it otherwise,
  which is how a JavaScript object, a Map and a Set keep their order.
\<close>

fun alset :: "'k \<Rightarrow> 'v \<Rightarrow> ('k \<times> 'v) list \<Rightarrow> ('k \<times> 'v) list" where
  "alset k v [] = [(k, v)]"
| "alset k v ((k', v') # kvs) = (if k = k' then (k, v) # kvs else (k', v') # alset k v kvs)"

fun aldel :: "'k \<Rightarrow> ('k \<times> 'v) list \<Rightarrow> ('k \<times> 'v) list" where
  "aldel k [] = []"
| "aldel k ((k', v') # kvs) = (if k = k' then aldel k kvs else (k', v') # aldel k kvs)"

lemma keys_alset:
  "map fst (alset k v kvs) = (if k \<in> set (map fst kvs) then map fst kvs else map fst kvs @ [k])"
  by (induction k v kvs rule: alset.induct) auto

lemma aldel_filter: "aldel k kvs = filter (\<lambda>kv. fst kv \<noteq> k) kvs"
  by (induction k kvs rule: aldel.induct) auto

lemma map_of_alset [simp]: "map_of (alset k v kvs) = (map_of kvs)(k \<mapsto> v)"
  by (induction kvs) (auto simp: fun_eq_iff)

lemma map_of_aldel [simp]: "map_of (aldel k kvs) = (map_of kvs)(k := None)"
  by (induction kvs) (auto simp: fun_eq_iff)

lemma distinct_alset [simp]: "distinct (map fst kvs) \<Longrightarrow> distinct (map fst (alset k v kvs))"
  by (simp add: keys_alset)

lemma distinct_aldel [simp]: "distinct (map fst kvs) \<Longrightarrow> distinct (map fst (aldel k kvs))"
  by (simp add: aldel_filter distinct_map_filter)

lemma length_alset:
  "length (alset k v kvs) = (if k \<in> set (map fst kvs) then length kvs else Suc (length kvs))"
  using arg_cong [OF keys_alset, of length k v kvs] by (simp split: if_splits)

lemma set_alset_subset: "set (alset k v kvs) \<subseteq> insert (k, v) (set kvs)"
  by (induction k v kvs rule: alset.induct) auto

lemma set_aldel_subset: "set (aldel k kvs) \<subseteq> set kvs"
  by (auto simp: aldel_filter)

lemma aldel_absent [simp]: "k \<notin> set (map fst kvs) \<Longrightarrow> aldel k kvs = kvs"
  by (auto simp: aldel_filter intro!: filter_True)

section \<open>Removing the first match\<close>

fun remove_first :: "('a \<Rightarrow> bool) \<Rightarrow> 'a list \<Rightarrow> 'a list" where
  "remove_first P [] = []"
| "remove_first P (x # xs) = (if P x then xs else x # remove_first P xs)"

lemma remove_first_none: "List.find P xs = None \<Longrightarrow> remove_first P xs = xs"
  by (induction xs) (auto split: if_splits)

lemma remove_first_some:
  "List.find P xs = Some x \<Longrightarrow> \<exists>us vs. xs = us @ x # vs \<and> remove_first P xs = us @ vs \<and> P x \<and> (\<forall>u \<in> set us. \<not> P u)"
proof (induction xs)
  case (Cons a xs)
  show ?case
  proof (cases "P a")
    case True
    with Cons.prems show ?thesis by (intro exI [of _ "[]"] exI [of _ xs]) auto
  next
    case False
    with Cons obtain us vs where
      "xs = us @ x # vs" "remove_first P xs = us @ vs" "P x" "\<forall>u \<in> set us. \<not> P u" by auto
    with False show ?thesis
      by (intro exI [of _ "a # us"] exI [of _ vs]) auto
  qed
qed simp

lemma distinct_map_iff_sorted_wrt: "distinct (map f xs) \<longleftrightarrow> sorted_wrt (\<lambda>a b. f a \<noteq> f b) xs"
  by (induction xs) auto

lemma remove_first_subset: "set (remove_first P xs) \<subseteq> set xs"
  by (induction xs) auto

lemma sorted_wrt_remove_first: "sorted_wrt R xs \<Longrightarrow> sorted_wrt R (remove_first P xs)"
  by (induction xs) (use remove_first_subset [of P] in auto)

lemma distinct_map_remove_first: "distinct (map f xs) \<Longrightarrow> distinct (map f (remove_first P xs))"
  using sorted_wrt_remove_first [of "\<lambda>a b. f a \<noteq> f b"]
  by (simp add: distinct_map_iff_sorted_wrt)

lemma find_Some_props: "List.find P xs = Some x \<Longrightarrow> x \<in> set xs \<and> P x"
  by (auto simp: find_Some_iff)

section \<open>The first minimal element\<close>

definition first_min :: "('a \<Rightarrow> 'b::linorder) \<Rightarrow> 'a list \<Rightarrow> 'a option" where
  "first_min f xs = (case sort_key f xs of [] \<Rightarrow> None | x # _ \<Rightarrow> Some x)"

lemma first_min_None: "first_min f xs = None \<longleftrightarrow> xs = []"
  by (auto simp: first_min_def split: list.splits dest: arg_cong [of _ _ set])

lemma first_min_Some:
  assumes "first_min f xs = Some x"
  shows "x \<in> set xs" and "y \<in> set xs \<Longrightarrow> f x \<le> f y"
proof -
  from assms obtain ys where ys: "sort_key f xs = x # ys"
    by (auto simp: first_min_def split: list.splits)
  then have s: "set xs = set (x # ys)" by (metis set_sort)
  then show "x \<in> set xs" by simp
  assume "y \<in> set xs"
  with s have "y \<in> set (x # ys)" by simp
  moreover have "sorted (map f (x # ys))" using ys by (metis sorted_sort_key)
  ultimately show "f x \<le> f y" by auto
qed

end
