(* ===== verification/Js_Value.thy ===== *)
theory Js_Value
  imports Prelude "HOL-Library.Char_ord" "HOL-Library.List_Lexorder"
begin

text \<open>
  JavaScript values as the live-mode modules use them: JSON messages, journal
  entries and protocol replies. Objects keep their properties in insertion
  order with distinct keys. Finite numbers are rationals (every finite double
  is one); \<open>JNaN\<close> and \<open>JInf\<close> are the other doubles (\<open>JInf True\<close> is
  positive). Negative zero is not distinguished from zero. A string is a list
  of characters; code units above 255 do not occur in the model.
\<close>

datatype jsval =
    JUndef
  | JNull
  | JBool bool
  | JNum rat
  | JNaN
  | JInf bool
  | JStr string
  | JArr "jsval list"
  | JObj "(string \<times> jsval) list"

datatype js_error = TypeError string | Thrown string

type_synonym props = "(string \<times> jsval) list"

section \<open>Truth, absence and property access\<close>

fun truthy :: "jsval \<Rightarrow> bool" where
  "truthy JUndef = False"
| "truthy JNull = False"
| "truthy (JBool b) = b"
| "truthy (JNum q) = (q \<noteq> 0)"
| "truthy JNaN = False"
| "truthy (JInf _) = True"
| "truthy (JStr s) = (s \<noteq> [])"
| "truthy (JArr _) = True"
| "truthy (JObj _) = True"

fun nullish :: "jsval \<Rightarrow> bool" where
  "nullish JUndef = True"
| "nullish JNull = True"
| "nullish _ = False"

definition js_or :: "jsval \<Rightarrow> jsval \<Rightarrow> jsval" where
  \<comment> \<open>\<open>a || b\<close>\<close>
  "js_or a b = (if truthy a then a else b)"

definition js_coalesce :: "jsval \<Rightarrow> jsval \<Rightarrow> jsval" where
  \<comment> \<open>\<open>a ?? b\<close>\<close>
  "js_coalesce a b = (if nullish a then b else a)"

definition field :: "props \<Rightarrow> string \<Rightarrow> jsval" where
  "field ps k = (case map_of ps k of None \<Rightarrow> JUndef | Some v \<Rightarrow> v)"

text \<open>
  \<open>get v k\<close> is \<open>v?.k\<close>, and \<open>v.k\<close> wherever \<open>v\<close> cannot be null or undefined;
  \<open>getE\<close> is \<open>v.k\<close> where it can be, and throws as the language does.
\<close>

fun get :: "jsval \<Rightarrow> string \<Rightarrow> jsval" where
  "get (JObj ps) k = field ps k"
| "get _ k = JUndef"

definition getE :: "jsval \<Rightarrow> string \<Rightarrow> js_error + jsval" where
  "getE v k = (if nullish v then Inl (TypeError k) else Inr (get v k))"

fun has_key :: "jsval \<Rightarrow> string \<Rightarrow> bool" where
  \<comment> \<open>\<open>k in v\<close> on an object\<close>
  "has_key (JObj ps) k = (map_of ps k \<noteq> None)"
| "has_key _ k = False"

definition spread :: "props \<Rightarrow> props \<Rightarrow> props" where
  \<comment> \<open>\<open>{ ...a, ...b }\<close>\<close>
  "spread a b = fold (\<lambda>(k, v). alset k v) b a"

lemma field_alset [simp]: "field (alset k v ps) k' = (if k = k' then v else field ps k')"
  by (simp add: field_def)

lemma field_aldel [simp]: "field (aldel k ps) k' = (if k = k' then JUndef else field ps k')"
  by (simp add: field_def)

lemma field_Nil [simp]: "field [] k = JUndef"
  by (simp add: field_def)

lemma field_Cons [simp]: "field ((k, v) # ps) k' = (if k = k' then v else field ps k')"
  by (simp add: field_def)

lemma js_or_simps [simp]:
  "truthy a \<Longrightarrow> js_or a b = a" "\<not> truthy a \<Longrightarrow> js_or a b = b"
  by (simp_all add: js_or_def)

lemma js_coalesce_simps [simp]:
  "nullish a \<Longrightarrow> js_coalesce a b = b" "\<not> nullish a \<Longrightarrow> js_coalesce a b = a"
  by (simp_all add: js_coalesce_def)

lemma truthy_not_nullish: "truthy v \<Longrightarrow> \<not> nullish v"
  by (cases v) auto

section \<open>Type tests\<close>

fun is_str :: "jsval \<Rightarrow> bool" where
  "is_str (JStr _) = True" | "is_str _ = False"

fun is_arr :: "jsval \<Rightarrow> bool" where
  \<comment> \<open>\<open>Array.isArray\<close>\<close>
  "is_arr (JArr _) = True" | "is_arr _ = False"

fun is_objty :: "jsval \<Rightarrow> bool" where
  \<comment> \<open>\<open>typeof v === 'object'\<close>: null and arrays included\<close>
  "is_objty JNull = True"
| "is_objty (JArr _) = True"
| "is_objty (JObj _) = True"
| "is_objty _ = False"

fun is_finite :: "jsval \<Rightarrow> bool" where
  \<comment> \<open>\<open>Number.isFinite\<close>\<close>
  "is_finite (JNum _) = True" | "is_finite _ = False"

fun is_integer :: "jsval \<Rightarrow> bool" where
  \<comment> \<open>\<open>Number.isInteger\<close>\<close>
  "is_integer (JNum q) = (of_int \<lfloor>q\<rfloor> = q)" | "is_integer _ = False"

fun str_of :: "jsval \<Rightarrow> string" where
  "str_of (JStr s) = s" | "str_of _ = []"

fun elems :: "jsval \<Rightarrow> jsval list" where
  "elems (JArr xs) = xs" | "elems _ = []"

fun int_of :: "jsval \<Rightarrow> int" where
  "int_of (JNum q) = \<lfloor>q\<rfloor>" | "int_of _ = 0"

abbreviation jint :: "int \<Rightarrow> jsval" where
  "jint n \<equiv> JNum (of_int n)"

lemma is_integer_jint [simp]: "is_integer (jint n)"
  by simp

lemma is_integer_cases: "is_integer v \<Longrightarrow> v = jint (int_of v)"
  by (cases v) auto

lemma is_integer_numeral [simp]:
  "is_integer (JNum 0)" "is_integer (JNum 1)" "is_integer (JNum (numeral w))"
  by simp_all

definition strict_eq :: "jsval \<Rightarrow> jsval \<Rightarrow> bool" where
  \<comment> \<open>\<open>a === b\<close>; two objects or arrays read from different places are never identical\<close>
  "strict_eq a b = (case a of JArr _ \<Rightarrow> False | JObj _ \<Rightarrow> False | JNaN \<Rightarrow> False | _ \<Rightarrow> a = b)"

lemma strict_eq_JStr [simp]:
  "strict_eq (JStr s) v \<longleftrightarrow> v = JStr s" "strict_eq v (JStr s) \<longleftrightarrow> v = JStr s"
  by (auto simp: strict_eq_def split: jsval.splits)


section \<open>Strings\<close>

definition is_ws :: "char \<Rightarrow> bool" where
  \<comment> \<open>the white space and line terminators \<open>trim\<close> and \<open>\s\<close> know below code unit 256\<close>
  "is_ws c = (of_char c \<in> {9, 10, 11, 12, 13, 32, 160 :: nat})"

definition js_trim :: "string \<Rightarrow> string" where
  "js_trim s = rev (dropWhile is_ws (rev (dropWhile is_ws s)))"

definition starts_with :: "string \<Rightarrow> string \<Rightarrow> bool" where
  "starts_with s p = (take (length p) s = p)"

definition ends_with :: "string \<Rightarrow> string \<Rightarrow> bool" where
  "ends_with s p = (drop (length s - length p) s = p)"

fun has_sub :: "string \<Rightarrow> string \<Rightarrow> bool" where
  "has_sub [] p = (p = [])"
| "has_sub (c # s) p = (starts_with (c # s) p \<or> has_sub s p)"

fun split_on :: "char \<Rightarrow> string \<Rightarrow> string list" where
  \<comment> \<open>\<open>s.split(c)\<close>\<close>
  "split_on d [] = [[]]"
| "split_on d (c # s) =
     (if c = d then [] # split_on d s
      else (case split_on d s of [] \<Rightarrow> [[c]] | w # ws \<Rightarrow> (c # w) # ws))"

definition lower_char :: "char \<Rightarrow> char" where
  "lower_char c = (let n = of_char c :: nat in
     if 65 \<le> n \<and> n \<le> 90 \<or> 192 \<le> n \<and> n \<le> 222 \<and> n \<noteq> 215 then char_of (n + 32) else c)"

fun join :: "string \<Rightarrow> string list \<Rightarrow> string" where
  "join sep [] = []"
| "join sep [w] = w"
| "join sep (w # v # ws) = w @ sep @ join sep (v # ws)"

lemma split_on_not_Nil [simp]: "split_on d s \<noteq> []"
  by (induction s) (auto split: list.splits)

lemma join_Cons_char: "join sep ((c # w) # ws) = c # join sep (w # ws)"
  by (cases ws) auto

lemma join_split_on: "join [d] (split_on d s) = s"
proof (induction s)
  case (Cons c s)
  then show ?case
    by (cases "split_on d s") (auto simp: join_Cons_char)
qed simp

section \<open>Numbers\<close>

definition is_digit :: "char \<Rightarrow> bool" where
  "is_digit c = (48 \<le> (of_char c :: nat) \<and> (of_char c :: nat) \<le> 57)"

definition digits_val :: "string \<Rightarrow> nat" where
  "digits_val ds = foldl (\<lambda>n c. 10 * n + (of_char c - 48)) 0 ds"

definition hex_val :: "char \<Rightarrow> nat option" where
  "hex_val c = (let n = of_char c in
     if 48 \<le> n \<and> n \<le> 57 then Some (n - 48)
     else if 97 \<le> n \<and> n \<le> 102 then Some (n - 87)
     else if 65 \<le> n \<and> n \<le> 70 then Some (n - 55) else None)"

definition based_val :: "nat \<Rightarrow> string \<Rightarrow> jsval" where
  "based_val b ds = (if ds = [] \<or> (\<exists>c \<in> set ds. hex_val c = None \<or> the (hex_val c) \<ge> b) then JNaN
     else JNum (of_nat (foldl (\<lambda>n c. b * n + the (hex_val c)) 0 ds)))"

definition unsigned_decimal :: "string \<Rightarrow> jsval" where
  "unsigned_decimal s =
    (if s = ''Infinity'' then JInf True
     else let i = takeWhile is_digit s; r = dropWhile is_digit s;
              (f, r2) = (case r of [] \<Rightarrow> ([], [])
                 | c # t \<Rightarrow> if c = CHR ''.'' then (takeWhile is_digit t, dropWhile is_digit t) else ([], r));
              m = of_nat (digits_val (i @ f)) / 10 ^ length f :: rat
          in if i = [] \<and> f = [] then JNaN
             else (case r2 of [] \<Rightarrow> JNum m
               | c # t \<Rightarrow>
                   if c \<noteq> CHR ''e'' \<and> c \<noteq> CHR ''E'' then JNaN
                   else let neg = (t \<noteq> [] \<and> hd t = CHR ''-'');
                            ds = (if t \<noteq> [] \<and> hd t \<in> {CHR ''-'', CHR ''+''} then tl t else t)
                        in if ds = [] \<or> \<not> list_all is_digit ds then JNaN
                           else if neg then JNum (m / 10 ^ digits_val ds)
                           else JNum (m * 10 ^ digits_val ds)))"

fun js_neg :: "jsval \<Rightarrow> jsval" where
  "js_neg (JNum q) = JNum (- q)" | "js_neg (JInf b) = JInf (\<not> b)" | "js_neg v = JNaN"

definition str_number :: "string \<Rightarrow> jsval" where
  \<comment> \<open>\<open>Number(s)\<close> on a string\<close>
  "str_number s0 = (case js_trim s0 of
       [] \<Rightarrow> JNum 0
     | c # s \<Rightarrow>
        if c = CHR ''-'' then js_neg (unsigned_decimal s)
        else if c = CHR ''+'' then unsigned_decimal s
        else if c = CHR ''0'' \<and> s \<noteq> [] \<and> hd s \<in> {CHR ''x'', CHR ''X''} then based_val 16 (tl s)
        else if c = CHR ''0'' \<and> s \<noteq> [] \<and> hd s \<in> {CHR ''o'', CHR ''O''} then based_val 8 (tl s)
        else if c = CHR ''0'' \<and> s \<noteq> [] \<and> hd s \<in> {CHR ''b'', CHR ''B''} then based_val 2 (tl s)
        else unsigned_decimal (c # s))"

fun to_number :: "jsval \<Rightarrow> jsval" and elem_number :: "jsval \<Rightarrow> jsval" where
  \<comment> \<open>\<open>Number(v)\<close>; an array goes through its string form\<close>
  "to_number JUndef = JNaN"
| "to_number JNull = JNum 0"
| "to_number (JBool b) = JNum (if b then 1 else 0)"
| "to_number (JNum q) = JNum q"
| "to_number JNaN = JNaN"
| "to_number (JInf b) = JInf b"
| "to_number (JStr s) = str_number s"
| "to_number (JArr xs) = (case xs of [] \<Rightarrow> JNum 0 | [x] \<Rightarrow> elem_number x | _ \<Rightarrow> JNaN)"
| "to_number (JObj _) = JNaN"
| "elem_number JUndef = JNum 0"
| "elem_number JNull = JNum 0"
| "elem_number (JBool _) = JNaN"
| "elem_number (JNum q) = JNum q"
| "elem_number JNaN = JNaN"
| "elem_number (JInf b) = JInf b"
| "elem_number (JStr s) = str_number s"
| "elem_number (JArr xs) = (case xs of [] \<Rightarrow> JNum 0 | [x] \<Rightarrow> elem_number x | _ \<Rightarrow> JNaN)"
| "elem_number (JObj _) = JNaN"

fun num_le :: "jsval \<Rightarrow> jsval \<Rightarrow> bool" where
  "num_le (JNum a) (JNum b) = (a \<le> b)"
| "num_le (JInf False) (JNum _) = True"
| "num_le (JNum _) (JInf True) = True"
| "num_le (JInf a) (JInf b) = (a \<longrightarrow> b)"
| "num_le _ _ = False"

definition js_ge :: "jsval \<Rightarrow> jsval \<Rightarrow> bool" where
  \<comment> \<open>\<open>a >= b\<close>: two strings compare as strings, everything else as numbers\<close>
  "js_ge a b = (if is_str a \<and> is_str b then str_of b \<le> str_of a
                else num_le (to_number b) (to_number a))"

definition js_gt :: "jsval \<Rightarrow> jsval \<Rightarrow> bool" where
  "js_gt a b = (if is_str a \<and> is_str b then str_of b \<le> str_of a \<and> a \<noteq> b
                else num_le (to_number b) (to_number a) \<and> to_number a \<noteq> to_number b)"

lemma js_ge_jint [simp]: "js_ge (jint a) (jint b) \<longleftrightarrow> b \<le> a"
  by (simp add: js_ge_def)

section \<open>Text of a value\<close>

text \<open>
  \<open>String(v)\<close>. Integers print in full (the exponent form from 1e21 on is not
  modelled), other finite numbers with at most 20 decimals.
\<close>

fun nat_str :: "nat \<Rightarrow> string" where
  "nat_str n = (if n < 10 then [char_of (48 + n)] else nat_str (n div 10) @ [char_of (48 + n mod 10)])"

declare nat_str.simps [simp del]

definition int_str :: "int \<Rightarrow> string" where
  "int_str n = (if n < 0 then CHR ''-'' # nat_str (nat (- n)) else nat_str (nat n))"

fun frac_digits :: "nat \<Rightarrow> rat \<Rightarrow> string" where
  "frac_digits 0 q = []"
| "frac_digits (Suc n) q = (if q = 0 then [] else
     char_of (48 + nat \<lfloor>10 * q\<rfloor>) # frac_digits n (10 * q - of_int \<lfloor>10 * q\<rfloor>))"

definition num_str :: "rat \<Rightarrow> string" where
  "num_str q = (if q = of_int \<lfloor>q\<rfloor> then int_str \<lfloor>q\<rfloor>
     else (if q < 0 then ''-'' else []) @ nat_str (nat \<lfloor>\<bar>q\<bar>\<rfloor>) @ CHR ''.'' #
          frac_digits 20 (\<bar>q\<bar> - of_int \<lfloor>\<bar>q\<bar>\<rfloor>))"

fun js_string :: "jsval \<Rightarrow> string" and elem_strings :: "jsval list \<Rightarrow> string list" where
  "js_string JUndef = ''undefined''"
| "js_string JNull = ''null''"
| "js_string (JBool b) = (if b then ''true'' else ''false'')"
| "js_string (JNum q) = num_str q"
| "js_string JNaN = ''NaN''"
| "js_string (JInf b) = (if b then ''Infinity'' else ''-Infinity'')"
| "js_string (JStr s) = s"
| "js_string (JArr xs) = join '','' (elem_strings xs)"
| "js_string (JObj _) = ''[object Object]''"
| "elem_strings [] = []"
| "elem_strings (x # xs) = (if nullish x then [] else js_string x) # elem_strings xs"

fun props_of :: "jsval \<Rightarrow> props" where
  \<comment> \<open>the own properties \<open>...v\<close> spreads into an object\<close>
  "props_of (JObj ps) = ps"
| "props_of (JArr xs) = zip (map (\<lambda>n. nat_str n) [0..<length xs]) xs"
| "props_of (JStr s) = zip (map (\<lambda>n. nat_str n) [0..<length s]) (map (\<lambda>c. JStr [c]) s)"
| "props_of _ = []"

definition with_props :: "jsval \<Rightarrow> props \<Rightarrow> jsval" where
  \<comment> \<open>\<open>{ ...v, k1: v1, ... }\<close>\<close>
  "with_props v b = JObj (spread (props_of v) b)"

section \<open>What survives being written as JSON and read back\<close>

text \<open>
  \<open>json_norm v\<close> is \<open>JSON.parse(JSON.stringify(v))\<close>: properties that are undefined
  disappear, numbers that are not finite become null.
\<close>

fun json_norm :: "jsval \<Rightarrow> jsval" and json_elems :: "jsval list \<Rightarrow> jsval list"
  and json_props :: "props \<Rightarrow> props" where
  "json_norm JUndef = JNull"
| "json_norm JNull = JNull"
| "json_norm (JBool b) = JBool b"
| "json_norm (JNum q) = JNum q"
| "json_norm JNaN = JNull"
| "json_norm (JInf _) = JNull"
| "json_norm (JStr s) = JStr s"
| "json_norm (JArr xs) = JArr (json_elems xs)"
| "json_norm (JObj ps) = JObj (json_props ps)"
| "json_elems [] = []"
| "json_elems (x # xs) = json_norm x # json_elems xs"
| "json_props [] = []"
| "json_props ((k, v) # ps) = (if v = JUndef then json_props ps else (k, json_norm v) # json_props ps)"

text \<open>A value that JSON text can denote: what \<open>JSON.parse\<close> returns (overflow to infinity aside).\<close>

fun json_clean :: "jsval \<Rightarrow> bool" where
  "json_clean JUndef = False"
| "json_clean JNaN = False"
| "json_clean (JInf _) = False"
| "json_clean (JArr xs) = (\<forall>x \<in> set xs. json_clean x)"
| "json_clean (JObj ps) = (\<forall>kv \<in> set ps. json_clean (snd kv))"
| "json_clean _ = True"

lemma json_norm_clean:
  "json_clean v \<Longrightarrow> json_norm v = v"
  "(\<forall>x \<in> set xs. json_clean x) \<Longrightarrow> json_elems xs = xs"
  "(\<forall>kv \<in> set ps. json_clean (snd kv)) \<Longrightarrow> json_props ps = ps"
  by (induction v and xs and ps rule: json_norm_json_elems_json_props.induct) auto

lemma json_clean_norm:
  "json_clean (json_norm v)"
  "\<forall>x \<in> set (json_elems xs). json_clean x"
  "\<forall>kv \<in> set (json_props ps). json_clean (snd kv)"
  by (induction v and xs and ps rule: json_norm_json_elems_json_props.induct) auto

lemma json_norm_idem [simp]: "json_norm (json_norm v) = json_norm v"
  by (simp add: json_norm_clean json_clean_norm)

lemma json_clean_field: "json_clean (JObj ps) \<Longrightarrow> field ps k = JUndef \<or> json_clean (field ps k)"
  by (auto simp: field_def split: option.splits dest!: map_of_SomeD)

lemma json_clean_get: "json_clean v \<Longrightarrow> get v k = JUndef \<or> json_clean (get v k)"
  by (cases v) (auto simp del: json_clean.simps dest: json_clean_field)

end
