(* ===== verification/Vocabulary.thy ===== *)
theory Vocabulary
  imports Js_Value
begin

text \<open>
  The protocol vocabulary of \<open>live/vocabulary.mjs\<close>: the values that the browser
  overlay, the live server and the session journal exchange. The icons of the
  commands are markup and are left out.
\<close>

definition live_commands :: "(string \<times> string) list" where
  "live_commands = [
     (''impeccable'', ''Freeform''),
     (''bolder'', ''Bolder''),
     (''quieter'', ''Quieter''),
     (''distill'', ''Distill''),
     (''polish'', ''Polish''),
     (''typeset'', ''Typeset''),
     (''colorize'', ''Colorize''),
     (''layout'', ''Layout''),
     (''adapt'', ''Adapt''),
     (''animate'', ''Animate''),
     (''delight'', ''Delight''),
     (''overdrive'', ''Overdrive'')]"

definition visual_actions :: "string list" where
  "visual_actions = map fst live_commands"

definition agent_phases :: "string list" where
  "agent_phases = [
     ''picked_up'',
     ''scaffolding'',
     ''source_ready'',
     ''scaffold_fallback'',
     ''generation_ready'',
     ''first_reviewable'',
     ''second_reviewable'',
     ''all_variants_ready'']"

definition client_event_types :: "string list" where
  "client_event_types = [
     ''generate'',
     ''accept'',
     ''discard'',
     ''checkpoint'',
     ''agent_phase'',
     ''variant_mounted'',
     ''variant_mount_failed'',
     ''exit'',
     ''prefetch'',
     ''manual_edits'',
     ''steer'',
     ''carbonize_cleanup'']"

definition journal_event_types :: "string list" where
  "journal_event_types = [
     ''generate'',
     ''variant_plan'',
     ''detector_waivers'',
     ''agent_phase'',
     ''variants_ready'',
     ''agent_done'',
     ''variant_mounted'',
     ''variant_mount_failed'',
     ''checkpoint'',
     ''accept'',
     ''accept_intent'',
     ''manual_edit_apply'',
     ''steer'',
     ''steer_done'',
     ''carbonize_cleanup'',
     ''discard'',
     ''discarded'',
     ''complete'',
     ''agent_error'']"

definition session_phases :: "string list" where
  "session_phases = [
     ''new'',
     ''generate_requested'',
     ''variants_ready'',
     ''carbonize_required'',
     ''carbonize_cleanup_requested'',
     ''manual_edit_apply_requested'',
     ''steer_requested'',
     ''steer_done'',
     ''accept_requested'',
     ''discard_requested'',
     ''discarded'',
     ''completed'',
     ''agent_error'']"

definition completed_session_phases :: "string list" where
  "completed_session_phases = [''completed'', ''discarded'']"

definition generation_fenced_session_phases :: "string list" where
  "generation_fenced_session_phases = [
     ''accept_requested'',
     ''discard_requested'',
     ''carbonize_required'',
     ''completed'',
     ''discarded'']"

definition variant_progress_checkpoint_reasons :: "string list" where
  "variant_progress_checkpoint_reasons = [''variants_progress'', ''variants_ready'']"

definition in_vocab :: "jsval \<Rightarrow> string list \<Rightarrow> bool" where
  \<comment> \<open>\<open>new Set(words).has(v)\<close>\<close>
  "in_vocab v ws = (case v of JStr s \<Rightarrow> s \<in> set ws | _ \<Rightarrow> False)"

lemma in_vocab_JStr [simp]: "in_vocab (JStr s) ws \<longleftrightarrow> s \<in> set ws"
  by (simp add: in_vocab_def)

lemma in_vocabE: "in_vocab v ws \<Longrightarrow> \<exists>s. v = JStr s \<and> s \<in> set ws"
  by (auto simp: in_vocab_def split: jsval.splits)

lemma completed_fenced:
  "set completed_session_phases \<subseteq> set generation_fenced_session_phases"
  by (simp add: completed_session_phases_def generation_fenced_session_phases_def)

end
