(* ===== verification/Poll_Lanes.thy ===== *)
theory Poll_Lanes
  imports Vocabulary
begin

text \<open>
  \<open>live/poll-lanes.mjs\<close>: which queued event a poll receives, and
  \<open>live/completion.mjs\<close>: how the poller reports an accept or discard it handled.
\<close>

section \<open>Lanes\<close>

record pending_entry =
  pe_event :: jsval
  pe_lease :: int
  pe_seq :: nat

definition ty_is :: "jsval \<Rightarrow> string \<Rightarrow> bool" where
  "ty_is ev t = (get ev ''type'' = JStr t)"

definition event_priority :: "jsval \<Rightarrow> nat" where
  "event_priority ev =
    (if ty_is ev ''accept'' \<or> ty_is ev ''discard'' \<or> ty_is ev ''exit'' then 0
     else if ty_is ev ''manual_edit_apply'' \<or> ty_is ev ''steer'' \<or> ty_is ev ''carbonize_cleanup'' then 1
     else if ty_is ev ''generate'' then 2
     else 3)"

definition entry_leased :: "int \<Rightarrow> pending_entry \<Rightarrow> bool" where
  "entry_leased now e = (pe_lease e \<noteq> 0 \<and> pe_lease e > now)"

definition type_allowed :: "string list option \<Rightarrow> jsval \<Rightarrow> bool" where
  "type_allowed types ev = (case types of None \<Rightarrow> True | Some ts \<Rightarrow> in_vocab (get ev ''type'') ts)"

definition lane_key :: "pending_entry \<Rightarrow> nat \<times> nat" where
  "lane_key e = (event_priority (pe_event e), pe_seq e)"

definition available :: "int \<Rightarrow> string list option \<Rightarrow> pending_entry \<Rightarrow> bool" where
  "available now types e = (\<not> entry_leased now e \<and> type_allowed types (pe_event e))"

definition select_available :: "pending_entry list \<Rightarrow> int \<Rightarrow> string list option \<Rightarrow> pending_entry option" where
  "select_available entries now types = first_min lane_key (filter (available now types) entries)"

lemma select_available_Some:
  assumes "select_available es now types = Some e"
  shows "e \<in> set es" "available now types e"
    "\<And>e'. e' \<in> set es \<Longrightarrow> available now types e' \<Longrightarrow> lane_key e \<le> lane_key e'"
  using first_min_Some [OF assms [unfolded select_available_def]] by auto

lemma select_available_None:
  "select_available es now types = None \<longleftrightarrow> (\<forall>e \<in> set es. \<not> available now types e)"
  by (auto simp: select_available_def first_min_None filter_empty_conv)

lemma select_available_unique:
  assumes "distinct (map pe_seq es)" "e \<in> set es" "available now types e"
    "\<And>e'. e' \<in> set es \<Longrightarrow> available now types e' \<Longrightarrow> lane_key e \<le> lane_key e'"
  shows "select_available es now types = Some e"
proof (cases "select_available es now types")
  case None
  with assms(2,3) show ?thesis by (auto simp: select_available_None)
next
  case (Some e')
  note e' = select_available_Some [OF Some]
  have "lane_key e = lane_key e'"
    using e'(3) [OF assms(2,3)] assms(4) [OF e'(1,2)] by (rule antisym [rotated])
  then have "pe_seq e = pe_seq e'" by (simp add: lane_key_def)
  with assms(1,2) e'(1) have "e = e'" by (auto simp: distinct_map dest: inj_onD)
  with Some show ?thesis by simp
qed

section \<open>Completion of an accept or a discard\<close>

definition preview_modes_without_source_markers :: "string list" where
  "preview_modes_without_source_markers = [''svelte-component'']"

definition is_true :: "jsval \<Rightarrow> bool" where
  \<comment> \<open>\<open>v === true\<close>\<close>
  "is_true v = (v = JBool True)"

definition completion_type :: "jsval \<Rightarrow> jsval \<Rightarrow> string" where
  "completion_type eventType acceptResult =
    (if eventType = JStr ''discard''
     then (if is_true (get acceptResult ''handled'') then ''discarded'' else ''error'')
     else if is_true (get acceptResult ''handled'') \<and> is_true (get acceptResult ''carbonize'') then ''agent_done''
     else if is_true (get acceptResult ''handled'') then ''complete''
     else if get acceptResult ''mode'' = JStr ''error'' then ''error''
     else if eventType = JStr ''accept''
        \<and> in_vocab (get acceptResult ''previewMode'') preview_modes_without_source_markers then ''error''
     else ''agent_done'')"

definition completion_ack :: "string \<Rightarrow> string \<Rightarrow> jsval \<Rightarrow> jsval" where
  "completion_ack eventId completionType acceptResult =
    (let ack = [(''ok'', JBool True), (''type'', JStr completionType)]
     in if is_true (get acceptResult ''handled'') \<and> is_true (get acceptResult ''carbonize'')
        then JObj (spread ack
          [(''final'', JBool False),
           (''requiresComplete'', JBool True),
           (''nextCommand'', JStr (''live-complete.mjs --id '' @ eventId)),
           (''message'', JStr ''Carbonize cleanup must be verified, then the session must be completed explicitly before polling again.'')])
        else JObj ack)"

lemma completion_type_range:
  "completion_type t r \<in> {''discarded'', ''error'', ''agent_done'', ''complete''}"
  by (simp add: completion_type_def)

lemma completion_type_unhandled:
  "\<not> is_true (get r ''handled'') \<Longrightarrow> completion_type t r \<in> {''error'', ''agent_done''}"
  by (auto simp: completion_type_def)

lemma lane_key_le:
  "lane_key e \<le> lane_key e' \<longleftrightarrow>
     event_priority (pe_event e) < event_priority (pe_event e') \<or>
     event_priority (pe_event e) = event_priority (pe_event e') \<and> pe_seq e \<le> pe_seq e'"
  by (auto simp: lane_key_def)

section \<open>Properties\<close>

text \<open>
  The event a poll receives is in the queue, is not leased and is of a
  wanted type, and no other such event goes before it: a lower lane (accept,
  discard and exit, then edits and steering, then generation, then the rest)
  wins, and within a lane the earlier sequence number. A poll gets nothing
  exactly when no such event is queued.
\<close>

theorem select_available_correct:
  "case select_available es now types of
     None \<Rightarrow> \<forall>e \<in> set es. entry_leased now e \<or> \<not> type_allowed types (pe_event e)
   | Some e \<Rightarrow> e \<in> set es \<and> \<not> entry_leased now e \<and> type_allowed types (pe_event e) \<and>
       (\<forall>e' \<in> set es. \<not> entry_leased now e' \<and> type_allowed types (pe_event e') \<longrightarrow>
          event_priority (pe_event e) < event_priority (pe_event e') \<or>
          event_priority (pe_event e) = event_priority (pe_event e') \<and> pe_seq e \<le> pe_seq e')"
proof (cases "select_available es now types")
  case None
  have "\<forall>e \<in> set es. \<not> available now types e"
    using None by (rule select_available_None [THEN iffD1])
  with None show ?thesis by (simp add: available_def)
next
  case (Some e)
  from select_available_Some [OF Some] Some show ?thesis
    by (auto simp: available_def lane_key_le)
qed

text \<open>An accept queued after a generate goes first; a leased steer is passed over.\<close>

definition sample_lanes :: "pending_entry list" where
  "sample_lanes =
    [\<lparr>pe_event = JObj [(''type'', JStr ''generate'')], pe_lease = 0, pe_seq = 1\<rparr>,
     \<lparr>pe_event = JObj [(''type'', JStr ''steer'')], pe_lease = 900, pe_seq = 2\<rparr>,
     \<lparr>pe_event = JObj [(''type'', JStr ''accept'')], pe_lease = 0, pe_seq = 3\<rparr>]"

theorem select_available_correct_witness:
  "\<exists>e. select_available sample_lanes 500 None = Some e \<and> pe_seq e = 3 \<and>
     (\<forall>e' \<in> set sample_lanes. entry_leased 500 e' \<or> event_priority (pe_event e) \<le> event_priority (pe_event e'))"
proof -
  have s: "select_available sample_lanes 500 None = Some (sample_lanes ! 2)" by code_simp
  have p: "pe_seq (sample_lanes ! 2) = 3" by code_simp
  from select_available_correct [of sample_lanes 500 None] s p show ?thesis
    by (force simp: type_allowed_def)
qed

end
