(* ===== verification/Event_Validation.thy ===== *)
theory Event_Validation
  imports Poll_Lanes
begin

text \<open>
  \<open>live/event-validation.mjs\<close>: which messages the server accepts from the
  browser, with \<open>canCreateInsert\<close> of \<open>live/insert-ui.mjs\<close>. A validator returns
  null (\<open>None\<close>) or the text of the first problem; reading a property of null
  throws, which \<open>Inl\<close> records.
\<close>

type_synonym verdict = "string option"

section \<open>Field tests\<close>

definition is_hex_lower :: "char \<Rightarrow> bool" where
  "is_hex_lower c = (let n = of_char c :: nat in 48 \<le> n \<and> n \<le> 57 \<or> 97 \<le> n \<and> n \<le> 102)"

definition id_pattern :: "string \<Rightarrow> bool" where
  \<comment> \<open>\<open>/^[0-9a-f]{8}$/\<close>\<close>
  "id_pattern s = (length s = 8 \<and> list_all is_hex_lower s)"

definition variant_id_pattern :: "string \<Rightarrow> bool" where
  \<comment> \<open>\<open>/^[0-9]{1,3}$/\<close>\<close>
  "variant_id_pattern s = (1 \<le> length s \<and> length s \<le> 3 \<and> list_all is_digit s)"

definition insert_positions :: "string list" where
  "insert_positions = [''before'', ''after'']"

definition forbidden_manual_edit_text_chars :: "string list" where
  "forbidden_manual_edit_text_chars = [''<'', ''{'', ''}'', [CHR 0x60]]"

definition mount_url_max_length :: nat where
  "mount_url_max_length = 2000"

definition mount_error_max_length :: nat where
  "mount_error_max_length = 1000"

definition is_valid_id :: "jsval \<Rightarrow> bool" where
  "is_valid_id v = (is_str v \<and> id_pattern (str_of v))"

definition is_valid_variant_id :: "jsval \<Rightarrow> bool" where
  "is_valid_variant_id v = (is_str v \<and> variant_id_pattern (str_of v))"

definition validate_manual_edit_text :: "jsval \<Rightarrow> string list option" where
  "validate_manual_edit_text newText =
    (if \<not> is_str newText then None
     else let hits = filter (has_sub (str_of newText)) forbidden_manual_edit_text_chars
          in if hits \<noteq> [] then Some hits else None)"

definition validate_annotation_fields :: "jsval \<Rightarrow> verdict" where
  "validate_annotation_fields msg =
    (if get msg ''screenshotPath'' \<noteq> JUndef \<and> \<not> is_str (get msg ''screenshotPath'')
     then Some ''generate: screenshotPath must be string''
     else if get msg ''comments'' \<noteq> JUndef \<and> \<not> is_arr (get msg ''comments'')
     then Some ''generate: comments must be array''
     else if get msg ''strokes'' \<noteq> JUndef \<and> \<not> is_arr (get msg ''strokes'')
     then Some ''generate: strokes must be array''
     else None)"

definition can_create_insert :: "jsval \<Rightarrow> jsval \<Rightarrow> jsval \<Rightarrow> bool" where
  "can_create_insert prompt comments strokes =
    (let hasPrompt = is_str prompt \<and> length (js_trim (str_of prompt)) > 0;
         hasComments = is_arr comments \<and> length (elems comments) > 0;
         hasStrokes = is_arr strokes \<and>
           (\<exists>s \<in> set (elems strokes). is_arr (get s ''points'') \<and> length (elems (get s ''points'')) \<ge> 2)
     in hasPrompt \<or> hasComments \<or> hasStrokes)"

section \<open>Generation requests\<close>

definition validate_insert_generate :: "jsval \<Rightarrow> verdict" where
  "validate_insert_generate msg =
    (let ins = get msg ''insert''; anchor = get ins ''anchor''; ph = get msg ''placeholder'' in
     if \<not> truthy ins \<or> \<not> is_objty ins then Some ''generate: insert mode requires insert object''
     else if \<not> in_vocab (get ins ''position'') insert_positions
     then Some ''generate: insert.position must be before or after''
     else if \<not> truthy anchor \<or> \<not> is_objty anchor then Some ''generate: insert.anchor required''
     else if \<not> truthy (get anchor ''tagName'') \<and> \<not> truthy (get anchor ''outerHTML'')
        \<and> \<not> (is_arr (get anchor ''classes'') \<and> elems (get anchor ''classes'') \<noteq> [])
     then Some ''generate: insert.anchor needs tagName, classes, or outerHTML''
     else if \<not> truthy ph \<or> \<not> is_objty ph
     then Some ''generate: insert mode requires placeholder dimensions''
     else if \<not> is_finite (get ph ''width'') \<or> \<not> is_finite (get ph ''height'')
     then Some ''generate: placeholder width and height must be numbers''
     else if \<not> can_create_insert (get msg ''freeformPrompt'') (get msg ''comments'') (get msg ''strokes'')
     then Some ''generate: insert requires freeformPrompt or annotations''
     else validate_annotation_fields msg)"

definition validate_replace_generate :: "jsval \<Rightarrow> verdict" where
  "validate_replace_generate msg =
    (if \<not> truthy (get msg ''action'') \<or> \<not> in_vocab (get msg ''action'') visual_actions
     then Some ''generate: invalid action''
     else if \<not> truthy (get msg ''element'') \<or> \<not> truthy (get (get msg ''element'') ''outerHTML'')
     then Some ''generate: missing element context''
     else validate_annotation_fields msg)"

section \<open>Manual edits\<close>

definition validate_manual_op :: "string \<Rightarrow> jsval \<Rightarrow> js_error + verdict" where
  "validate_manual_op label op =
    (if nullish op then Inl (TypeError ''ref'')
     else if \<not> is_str (get op ''ref'') then Inr (Some (label @ '': op.ref required''))
     else if \<not> is_str (get op ''tag'') then Inr (Some (label @ '': op.tag required''))
     else if \<not> is_str (get op ''originalText'') then Inr (Some (label @ '': op.originalText required''))
     else if \<not> is_true (get op ''deleted'') \<and> \<not> is_str (get op ''newText'')
     then Inr (Some (label @ '': text op requires newText''))
     else if is_str (get op ''newText'') then
       (if \<not> is_true (get op ''deleted'') \<and> js_trim (str_of (get op ''newText'')) = []
        then Inr (Some (label @ '': newText cannot be empty''))
        else case validate_manual_edit_text (get op ''newText'') of
            Some hits \<Rightarrow> Inr (Some (label @ '': newText cannot contain '' @ join '' '' hits
              @ '' (plain text only; ask the AI to insert markup)''))
          | None \<Rightarrow> Inr None)
     else Inr None)"

fun validate_manual_ops :: "string \<Rightarrow> jsval list \<Rightarrow> js_error + verdict" where
  "validate_manual_ops label [] = Inr None"
| "validate_manual_ops label (op # ops) =
    bindE (validate_manual_op label op)
      (\<lambda>v. case v of Some e \<Rightarrow> Inr (Some e) | None \<Rightarrow> validate_manual_ops label ops)"

definition validate_manual_edit_event :: "jsval \<Rightarrow> string \<Rightarrow> js_error + verdict" where
  "validate_manual_edit_event msg label =
    (if \<not> is_valid_id (get msg ''id'') then Inr (Some (label @ '': missing or malformed id''))
     else if \<not> truthy (get msg ''pageUrl'') \<or> \<not> is_str (get msg ''pageUrl'')
     then Inr (Some (label @ '': missing pageUrl''))
     else if \<not> truthy (get msg ''element'') \<or> \<not> is_objty (get msg ''element'')
     then Inr (Some (label @ '': missing element''))
     else if \<not> is_arr (get msg ''ops'') \<or> elems (get msg ''ops'') = []
     then Inr (Some (label @ '': ops must be non-empty array''))
     else if length (elems (get msg ''ops'')) > 100 then Inr (Some (label @ '': too many ops (max 100)''))
     else validate_manual_ops label (elems (get msg ''ops'')))"

section \<open>Mount acknowledgements\<close>

definition is_valid_mount_variant :: "jsval \<Rightarrow> bool" where
  "is_valid_mount_variant v = (is_integer v \<and> int_of v \<ge> 1 \<and> int_of v \<le> 999)"

definition validate_mount_ack :: "jsval \<Rightarrow> verdict" where
  "validate_mount_ack msg =
    (if \<not> is_valid_id (get msg ''id'') then Some ''variant_mounted: missing or malformed id''
     else if \<not> is_valid_mount_variant (get msg ''variant'')
     then Some ''variant_mounted: variant must be an integer 1-999''
     else if get msg ''url'' \<noteq> JUndef then
       (if \<not> is_str (get msg ''url'') then Some ''variant_mounted: url must be string''
        else if length (str_of (get msg ''url'')) > mount_url_max_length then Some ''variant_mounted: url too long''
        else None)
     else None)"

definition validate_mount_failure :: "jsval \<Rightarrow> verdict" where
  "validate_mount_failure msg =
    (let url = get msg ''url''; err = get msg ''error'' in
     if \<not> is_valid_id (get msg ''id'') then Some ''variant_mount_failed: missing or malformed id''
     else if \<not> is_valid_mount_variant (get msg ''variant'')
     then Some ''variant_mount_failed: variant must be an integer 1-999''
     else if \<not> is_str url \<or> js_trim (str_of url) = [] then Some ''variant_mount_failed: url required''
     else if length (str_of url) > mount_url_max_length then Some ''variant_mount_failed: url too long''
     else if \<not> is_str err \<or> js_trim (str_of err) = [] then Some ''variant_mount_failed: error required''
     else if length (str_of err) > mount_error_max_length then Some ''variant_mount_failed: error too long''
     else None)"


section \<open>The dispatch\<close>

definition validate_generate :: "jsval \<Rightarrow> verdict" where
  "validate_generate msg =
    (if \<not> is_valid_id (get msg ''id'') then Some ''generate: missing or malformed id''
     else if \<not> is_integer (get msg ''count'') \<or> int_of (get msg ''count'') < 1 \<or> int_of (get msg ''count'') > 8
     then Some ''generate: count must be 1-8''
     else if get msg ''mode'' = JStr ''insert'' then validate_insert_generate msg
     else validate_replace_generate msg)"

definition bad_param_values :: "jsval \<Rightarrow> bool" where
  "bad_param_values v = (v \<noteq> JUndef \<and> (\<not> is_objty v \<or> v = JNull \<or> is_arr v))"

definition validate_accept :: "jsval \<Rightarrow> verdict" where
  "validate_accept msg =
    (if \<not> is_valid_id (get msg ''id'') then Some ''accept: missing or malformed id''
     else if \<not> is_valid_variant_id (get msg ''variantId'') then Some ''accept: missing or malformed variantId''
     else if bad_param_values (get msg ''paramValues'') then Some ''accept: paramValues must be an object''
     else None)"

definition validate_checkpoint :: "jsval \<Rightarrow> verdict" where
  "validate_checkpoint msg =
    (if \<not> is_valid_id (get msg ''id'') then Some ''checkpoint: missing or malformed id''
     else if \<not> is_integer (get msg ''revision'') \<or> int_of (get msg ''revision'') < 0
     then Some ''checkpoint: revision must be a non-negative integer''
     else if bad_param_values (get msg ''paramValues'') then Some ''checkpoint: paramValues must be an object''
     else None)"

definition negative_num :: "jsval \<Rightarrow> bool" where
  "negative_num v = (case v of JNum q \<Rightarrow> q < 0 | _ \<Rightarrow> False)"

definition validate_agent_phase :: "jsval \<Rightarrow> verdict" where
  "validate_agent_phase msg =
    (if \<not> is_valid_id (get msg ''id'') then Some ''agent_phase: missing or malformed id''
     else if \<not> is_str (get msg ''phase'') \<or> \<not> truthy (get msg ''phase'') then Some ''agent_phase: missing phase''
     else if \<not> in_vocab (get msg ''phase'') agent_phases
     then Some (''agent_phase: unknown phase '' @ js_string (get msg ''phase'')
            @ '' (expected one of '' @ join '', '' agent_phases @ '')'')
     else if get msg ''durationMs'' \<noteq> JUndef
        \<and> (\<not> is_finite (get msg ''durationMs'') \<or> negative_num (get msg ''durationMs''))
     then Some ''agent_phase: durationMs must be a non-negative number''
     else None)"

definition validate_steer :: "jsval \<Rightarrow> verdict" where
  "validate_steer msg =
    (let m = get msg ''message'' in
     if \<not> is_valid_id (get msg ''id'') then Some ''steer: missing or malformed id''
     else if \<not> is_str m \<or> js_trim (str_of m) = [] then Some ''steer: message required''
     else if length (str_of m) > 4000 then Some ''steer: message too long''
     else if get msg ''pageUrl'' \<noteq> JUndef \<and> \<not> is_str (get msg ''pageUrl'') then Some ''steer: pageUrl must be string''
     else None)"

definition validate_carbonize_cleanup :: "jsval \<Rightarrow> verdict" where
  "validate_carbonize_cleanup msg =
    (if \<not> is_valid_id (get msg ''id'') then Some ''carbonize_cleanup: missing or malformed id''
     else if \<not> is_valid_id (get msg ''sessionId'') then Some ''carbonize_cleanup: missing or malformed sessionId''
     else if \<not> truthy (get msg ''file'') \<or> \<not> is_str (get msg ''file'') then Some ''carbonize_cleanup: missing file''
     else if \<not> variant_id_pattern (js_string (get msg ''variantId''))
     then Some ''carbonize_cleanup: missing or malformed variantId''
     else None)"

definition validate_event :: "jsval \<Rightarrow> js_error + verdict" where
  "validate_event msg =
    (let ty = get msg ''type'' in
     if \<not> truthy msg \<or> \<not> is_objty msg \<or> \<not> truthy ty then Inr (Some ''Missing or invalid message'')
     else if ty = JStr ''generate'' then Inr (validate_generate msg)
     else if ty = JStr ''accept'' then Inr (validate_accept msg)
     else if ty = JStr ''discard'' then
       Inr (if is_valid_id (get msg ''id'') then None else Some ''discard: missing or malformed id'')
     else if ty = JStr ''checkpoint'' then Inr (validate_checkpoint msg)
     else if ty = JStr ''agent_phase'' then Inr (validate_agent_phase msg)
     else if ty = JStr ''variant_mounted'' then Inr (validate_mount_ack msg)
     else if ty = JStr ''variant_mount_failed'' then Inr (validate_mount_failure msg)
     else if ty = JStr ''exit'' then Inr None
     else if ty = JStr ''prefetch'' then
       Inr (if \<not> truthy (get msg ''pageUrl'') \<or> \<not> is_str (get msg ''pageUrl'')
            then Some ''prefetch: missing pageUrl'' else None)
     else if ty = JStr ''manual_edits'' then validate_manual_edit_event msg ''manual_edits''
     else if ty = JStr ''steer'' then Inr (validate_steer msg)
     else if ty = JStr ''carbonize_cleanup'' then Inr (validate_carbonize_cleanup msg)
     else Inr (Some (''Unknown event type: '' @ js_string ty)))"

section \<open>Lemmas\<close>

lemma valid_id_JStr: "is_valid_id v \<Longrightarrow> \<exists>s. v = JStr s \<and> length s = 8 \<and> list_all is_hex_lower s"
  by (cases v) (auto simp: is_valid_id_def id_pattern_def)

lemma validate_manual_op_throws: "validate_manual_op l op = Inl e \<longleftrightarrow> nullish op \<and> e = TypeError ''ref''"
  by (auto simp: validate_manual_op_def Let_def split: option.splits)

lemma validate_manual_ops_throws:
  "validate_manual_ops l ops = Inl e \<Longrightarrow> (\<exists>op \<in> set ops. nullish op) \<and> e = TypeError ''ref''"
  by (induction ops) (auto simp: bindE_Inl_iff validate_manual_op_throws split: option.splits)

lemma validate_manual_ops_ok:
  "validate_manual_ops l ops = Inr None \<Longrightarrow> op \<in> set ops \<Longrightarrow> validate_manual_op l op = Inr None"
  by (induction ops) (auto simp: bindE_Inr_iff split: option.splits)

lemma accepted_types:
  assumes "validate_event msg = Inr None"
  shows "in_vocab (get msg ''type'') client_event_types"
  using assms by (auto simp: validate_event_def client_event_types_def Let_def split: if_splits)

end
