(* ===== verification/Session_Snapshot.thy ===== *)
theory Session_Snapshot
  imports Event_Validation
begin

text \<open>
  The snapshot of a live session and how one journal entry changes it:
  \<open>baseSnapshot\<close>, \<open>deriveRenderState\<close>, \<open>applyEvent\<close> with its helpers, of
  \<open>live/session-store.mjs\<close>. A field whose value comes from an event unchecked
  is a \<open>jsval\<close>. The two fields an event may add (\<open>detectorWaivers\<close> and
  \<open>message\<close>) start undefined. Wall-clock reads and \<open>Date.parse\<close> come from the
  host and are the \<open>clock\<close> argument.
\<close>

record clock =
  now_ms :: rat
  now_iso :: string
  date_parse :: "jsval \<Rightarrow> rat option"

record mount_failure =
  mf_variant :: int
  mf_url :: "string option"
  mf_error :: "string option"
  mf_at :: jsval

record snapshot =
  sn_id :: string
  phase :: jsval
  pageUrl :: jsval
  sourceFile :: jsval
  previewFile :: jsval
  previewMode :: jsval
  expectedVariants :: jsval
  arrivedVariants :: jsval
  visibleVariant :: jsval
  paramValues :: props
  pendingEventSeq :: jsval
  pendingEvent :: jsval
  deliveryLease :: jsval
  checkpointRevision :: jsval
  browserCheckpointRevision :: jsval
  publicationCheckpointRevision :: jsval
  activeOwner :: jsval
  sourceMarkers :: props
  fallbackMode :: jsval
  generationPhase :: jsval
  generationCompletedAt :: jsval
  generationTimings :: props
  variantPlan :: jsval
  generationCanceled :: bool
  generationCanceledAt :: jsval
  cancelReason :: jsval
  annotationArtifacts :: "jsval list"
  mountedVariants :: "int list"
  mountFailures :: "mount_failure list"
  renderState :: "string option"
  diagnostics :: "jsval list"
  updatedAt :: jsval
  detectorWaivers :: "jsval list option"
  message :: jsval

definition base_snapshot :: "string \<Rightarrow> snapshot" where
  "base_snapshot i = \<lparr>
     sn_id = i,
     phase = JStr ''new'',
     pageUrl = JNull,
     sourceFile = JNull,
     previewFile = JNull,
     previewMode = JNull,
     expectedVariants = JNum 0,
     arrivedVariants = JNum 0,
     visibleVariant = JNull,
     paramValues = [],
     pendingEventSeq = JNull,
     pendingEvent = JNull,
     deliveryLease = JNull,
     checkpointRevision = JNum 0,
     browserCheckpointRevision = JNum 0,
     publicationCheckpointRevision = JNum 0,
     activeOwner = JNull,
     sourceMarkers = [],
     fallbackMode = JNull,
     generationPhase = JNull,
     generationCompletedAt = JNull,
     generationTimings = [],
     variantPlan = JNull,
     generationCanceled = False,
     generationCanceledAt = JNull,
     cancelReason = JNull,
     annotationArtifacts = [],
     mountedVariants = [],
     mountFailures = [],
     renderState = None,
     diagnostics = [],
     updatedAt = JNull,
     detectorWaivers = None,
     message = JUndef\<rparr>"

definition mount_failure_history :: nat where
  "mount_failure_history = 5"

definition derive_render_state :: "snapshot \<Rightarrow> string option" where
  "derive_render_state s =
    (if length (mountedVariants s) > 0 then Some ''mounted''
     else if length (mountFailures s) > 0 then Some ''failed''
     else if truthy (generationCompletedAt s) then Some ''pending''
     else None)"

section \<open>Helpers\<close>

definition to_pending_event :: "jsval \<Rightarrow> jsval" where
  "to_pending_event event = JObj (aldel ''token'' (props_of event))"

definition upsert_artifact :: "jsval list \<Rightarrow> jsval \<Rightarrow> jsval list" where
  "upsert_artifact artifacts artifact =
    (if \<exists>existing \<in> set artifacts.
          strict_eq (get existing ''path'') (get artifact ''path'')
          \<and> strict_eq (get existing ''type'') (get artifact ''type'')
     then artifacts else artifacts @ [artifact])"

definition generation_fenced_phase :: "jsval \<Rightarrow> bool" where
  "generation_fenced_phase p = in_vocab p generation_fenced_session_phases"

definition fenced :: "snapshot \<Rightarrow> bool" where
  \<comment> \<open>\<open>next.generationCanceled || GENERATION_FENCED_PHASES.has(next.phase)\<close>\<close>
  "fenced s = (generationCanceled s \<or> generation_fenced_phase (phase s))"

definition diagnose :: "props \<Rightarrow> snapshot \<Rightarrow> snapshot" where
  "diagnose d s = s\<lparr>diagnostics := diagnostics s @ [JObj d]\<rparr>"

definition parsed_ts :: "clock \<Rightarrow> jsval \<Rightarrow> jsval" where
  \<comment> \<open>\<open>Date.parse(entry.ts || '')\<close>\<close>
  "parsed_ts clk entry =
    (case date_parse clk (js_or (get entry ''ts'') (JStr [])) of None \<Rightarrow> JNaN | Some q \<Rightarrow> JNum q)"

definition entry_time :: "clock \<Rightarrow> jsval \<Rightarrow> jsval" where
  \<comment> \<open>\<open>Date.parse(entry.ts || '') || Date.now()\<close>\<close>
  "entry_time clk entry = js_or (parsed_ts clk entry) (JNum (now_ms clk))"

definition opt_str :: "jsval \<Rightarrow> string option" where
  \<comment> \<open>\<open>typeof v === 'string' ? v : null\<close>\<close>
  "opt_str v = (case v of JStr s \<Rightarrow> Some s | _ \<Rightarrow> None)"

definition take_last :: "nat \<Rightarrow> 'a list \<Rightarrow> 'a list" where
  \<comment> \<open>\<open>xs.slice(-n)\<close> for positive \<open>n\<close>\<close>
  "take_last n xs = drop (length xs - n) xs"

section \<open>One journal entry\<close>

definition entry_event :: "jsval \<Rightarrow> jsval" where
  \<comment> \<open>\<open>entry.event || entry\<close>\<close>
  "entry_event entry = js_or (get entry ''event'') entry"

definition carry_forward :: "clock \<Rightarrow> jsval \<Rightarrow> snapshot \<Rightarrow> snapshot" where
  "carry_forward clk entry s = s\<lparr>
     variantPlan := js_or (variantPlan s) JNull,
     updatedAt := js_or (get entry ''ts'') (JStr (now_iso clk))\<rparr>"

definition apply_generate :: "jsval \<Rightarrow> jsval \<Rightarrow> snapshot \<Rightarrow> snapshot" where
  "apply_generate entry event s = s\<lparr>
     phase := JStr ''generate_requested'',
     pageUrl := js_coalesce (get event ''pageUrl'') (pageUrl s),
     expectedVariants := js_coalesce (get event ''count'') (expectedVariants s),
     pendingEventSeq := js_coalesce (get entry ''seq'') (pendingEventSeq s),
     pendingEvent := to_pending_event event,
     variantPlan := JNull,
     mountedVariants := [],
     mountFailures := [],
     renderState := None,
     annotationArtifacts :=
       (if truthy (get event ''screenshotPath'')
        then upsert_artifact (annotationArtifacts s)
               (JObj [(''type'', JStr ''screenshot''), (''path'', get event ''screenshotPath'')])
        else annotationArtifacts s)\<rparr>"

definition apply_variant_plan :: "jsval \<Rightarrow> snapshot \<Rightarrow> snapshot" where
  "apply_variant_plan event s =
    (if \<not> fenced s then s\<lparr>variantPlan := js_coalesce (get event ''plan'') (variantPlan s)\<rparr> else s)"

definition apply_detector_waivers :: "jsval \<Rightarrow> snapshot \<Rightarrow> snapshot" where
  "apply_detector_waivers event s =
    (if \<not> fenced s then s\<lparr>detectorWaivers := Some
        ((case detectorWaivers s of None \<Rightarrow> [] | Some ws \<Rightarrow> ws) @ elems (get event ''waivers''))\<rparr>
     else s)"

definition apply_agent_phase :: "clock \<Rightarrow> jsval \<Rightarrow> jsval \<Rightarrow> snapshot \<Rightarrow> snapshot" where
  "apply_agent_phase clk entry event s =
    s\<lparr>generationPhase := js_coalesce (get event ''phase'') (generationPhase s),
      generationTimings := (if truthy (get event ''phase'') then alset (js_string (get event ''phase''))
          (JObj [(''at'', js_coalesce (get event ''at'')
                    (js_or (parsed_ts clk entry) JNull)),
                 (''durationMs'', js_coalesce (get event ''durationMs'') JNull)])
          (generationTimings s)
        else generationTimings s)\<rparr>"

definition late_generation_event :: "jsval \<Rightarrow> snapshot \<Rightarrow> snapshot" where
  "late_generation_event event s =
    diagnose [(''error'', JStr ''late_generation_event_ignored''),
              (''type'', get event ''type''), (''phase'', phase s)] s"

definition with_render :: "snapshot \<Rightarrow> snapshot" where
  \<comment> \<open>\<open>next.renderState = deriveRenderState(next)\<close>\<close>
  "with_render s = s\<lparr>renderState := derive_render_state s\<rparr>"

definition finish_generation :: "clock \<Rightarrow> jsval \<Rightarrow> jsval \<Rightarrow> snapshot \<Rightarrow> snapshot" where
  "finish_generation clk entry event s = s\<lparr>
     phase := JStr (if is_true (get event ''carbonize'') then ''carbonize_required'' else ''variants_ready''),
     generationCompletedAt := js_coalesce (get event ''at'') (entry_time clk entry),
     sourceFile := js_coalesce (get event ''sourceFile'') (js_coalesce (get event ''file'') (sourceFile s)),
     previewFile := js_coalesce (get event ''previewFile'') (previewFile s),
     previewMode := js_coalesce (get event ''previewMode'') (previewMode s),
     arrivedVariants := js_coalesce (get event ''arrivedVariants'')
       (js_or (expectedVariants s) (js_or (arrivedVariants s) (JNum 0))),
     pendingEventSeq := JNull,
     pendingEvent := JNull\<rparr>"

definition apply_generation_done :: "clock \<Rightarrow> jsval \<Rightarrow> jsval \<Rightarrow> snapshot \<Rightarrow> snapshot" where
  "apply_generation_done clk entry event s =
    (if fenced s
        \<and> \<not> (ty_is event ''agent_done'' \<and> is_true (get event ''carbonize'')
             \<and> phase s = JStr ''accept_requested'')
     then late_generation_event event s
     else with_render
       (if is_true (get event ''carbonize'') then
          diagnose [(''error'', JStr ''carbonize_cleanup_required''),
            (''file'', js_or (get event ''file'') JNull),
            (''message'', JStr ''Accepted variant still has carbonize markers that must be folded into source CSS.'')]
            (finish_generation clk entry event s)
        else finish_generation clk entry event s))"

definition malformed_mount_ack :: "jsval \<Rightarrow> snapshot \<Rightarrow> snapshot" where
  "malformed_mount_ack event s =
    diagnose [(''error'', JStr ''malformed_mount_ack''), (''type'', get event ''type''),
              (''variant'', js_coalesce (get event ''variant'') JNull)] s"

definition mount_variant :: "jsval \<Rightarrow> int option" where
  \<comment> \<open>\<open>Number(event.variant)\<close> when it is an integer of at least one\<close>
  "mount_variant event = (let v = to_number (get event ''variant'') in
     if \<not> is_integer v \<or> int_of v < 1 then None else Some (int_of v))"

definition add_mounted :: "int \<Rightarrow> snapshot \<Rightarrow> snapshot" where
  "add_mounted variant s =
    (if variant \<notin> set (mountedVariants s)
     then s\<lparr>mountedVariants := sort (mountedVariants s @ [variant])\<rparr> else s)"

definition apply_variant_mounted :: "jsval \<Rightarrow> snapshot \<Rightarrow> snapshot" where
  "apply_variant_mounted event s =
    (case mount_variant event of
       None \<Rightarrow> malformed_mount_ack event s
     | Some variant \<Rightarrow> with_render (add_mounted variant s))"

definition add_failure :: "clock \<Rightarrow> jsval \<Rightarrow> jsval \<Rightarrow> int \<Rightarrow> snapshot \<Rightarrow> snapshot" where
  "add_failure clk entry event variant s =
    s\<lparr>mountFailures := take_last mount_failure_history (mountFailures s @
       [\<lparr>mf_variant = variant, mf_url = opt_str (get event ''url''),
         mf_error = opt_str (get event ''error''),
         mf_at = js_coalesce (get event ''at'') (entry_time clk entry)\<rparr>])\<rparr>"

definition keep_pending :: "jsval \<Rightarrow> snapshot \<Rightarrow> snapshot" where
  "keep_pending event s = s\<lparr>pendingEvent :=
    (if truthy (pendingEvent s) then pendingEvent s else to_pending_event event)\<rparr>"

definition apply_variant_mount_failed :: "clock \<Rightarrow> jsval \<Rightarrow> jsval \<Rightarrow> snapshot \<Rightarrow> snapshot" where
  "apply_variant_mount_failed clk entry event s =
    (case mount_variant event of
       None \<Rightarrow> malformed_mount_ack event s
     | Some variant \<Rightarrow> keep_pending event (with_render (add_failure clk entry event variant s)))"

definition revision_domain_publication :: "jsval \<Rightarrow> bool" where
  "revision_domain_publication event =
    (get event ''revisionDomain'' = JStr ''publication''
     \<or> get event ''reason'' = JStr ''variants_progress'' \<and> \<not> truthy (get event ''owner''))"

definition current_revision :: "bool \<Rightarrow> snapshot \<Rightarrow> jsval" where
  "current_revision pub s =
    js_coalesce (js_coalesce (if pub then publicationCheckpointRevision s else browserCheckpointRevision s)
                   (if pub then JNum 0 else checkpointRevision s)) (JNum 0)"

definition take_checkpoint :: "bool \<Rightarrow> jsval \<Rightarrow> snapshot \<Rightarrow> snapshot" where
  "take_checkpoint pub event s = s\<lparr>
     phase := js_coalesce (get event ''phase'') (phase s),
     publicationCheckpointRevision := (if pub
       then js_coalesce (get event ''revision'') (current_revision pub s) else publicationCheckpointRevision s),
     browserCheckpointRevision := (if pub then browserCheckpointRevision s
       else js_coalesce (get event ''revision'') (current_revision pub s)),
     checkpointRevision := (if pub then checkpointRevision s
       else js_coalesce (get event ''revision'') (checkpointRevision s)),
     activeOwner := (if pub then activeOwner s else js_coalesce (get event ''owner'') (activeOwner s)),
     arrivedVariants := js_coalesce (get event ''arrivedVariants'') (arrivedVariants s),
     visibleVariant := (if pub then visibleVariant s
       else js_coalesce (get event ''visibleVariant'') (visibleVariant s)),
     sourceFile := js_coalesce (get event ''sourceFile'') (sourceFile s),
     previewFile := js_coalesce (get event ''previewFile'') (previewFile s),
     previewMode := js_coalesce (get event ''previewMode'') (previewMode s),
     paramValues := (if \<not> pub \<and> truthy (get event ''paramValues'')
       then props_of (get event ''paramValues'') else paramValues s)\<rparr>"

definition apply_checkpoint :: "jsval \<Rightarrow> snapshot \<Rightarrow> snapshot" where
  "apply_checkpoint event s =
    (if fenced s then
       diagnose [(''error'', JStr ''checkpoint_after_terminal_ignored''),
         (''phase'', js_coalesce (get event ''phase'') JNull),
         (''revision'', js_coalesce (get event ''revision'') JNull)] s
     else if js_ge (js_coalesce (get event ''revision'') (JNum 0))
               (current_revision (revision_domain_publication event) s)
     then take_checkpoint (revision_domain_publication event) event s
     else diagnose [(''error'', JStr ''stale_checkpoint_ignored''),
            (''revision'', get event ''revision''),
            (''revisionDomain'',
               JStr (if revision_domain_publication event then ''publication'' else ''browser''))] s)"

definition apply_accept :: "clock \<Rightarrow> jsval \<Rightarrow> jsval \<Rightarrow> snapshot \<Rightarrow> snapshot" where
  "apply_accept clk entry event s = s\<lparr>
     phase := JStr ''accept_requested'',
     generationCanceled := True,
     generationCanceledAt := js_coalesce (get event ''at'') (entry_time clk entry),
     cancelReason := JStr ''accept'',
     visibleVariant := to_number (js_coalesce (get event ''variantId'') (visibleVariant s)),
     paramValues := (if truthy (get event ''paramValues'')
        then props_of (get event ''paramValues'') else paramValues s),
     pendingEventSeq := js_coalesce (get entry ''seq'') (pendingEventSeq s),
     pendingEvent := to_pending_event event\<rparr>"

definition apply_request :: "string \<Rightarrow> jsval \<Rightarrow> jsval \<Rightarrow> snapshot \<Rightarrow> snapshot" where
  \<comment> \<open>\<open>manual_edit_apply\<close> and \<open>steer\<close>\<close>
  "apply_request ph entry event s = s\<lparr>
     phase := JStr ph,
     pageUrl := js_coalesce (get event ''pageUrl'') (pageUrl s),
     pendingEventSeq := js_coalesce (get entry ''seq'') (pendingEventSeq s),
     pendingEvent := to_pending_event event\<rparr>"

definition apply_carbonize_cleanup :: "jsval \<Rightarrow> jsval \<Rightarrow> snapshot \<Rightarrow> snapshot" where
  "apply_carbonize_cleanup entry event s = s\<lparr>
     phase := JStr ''carbonize_cleanup_requested'',
     sourceFile := js_coalesce (get event ''file'') (sourceFile s),
     pendingEventSeq := js_coalesce (get entry ''seq'') (pendingEventSeq s),
     pendingEvent := to_pending_event event\<rparr>"

definition take_files :: "jsval \<Rightarrow> snapshot \<Rightarrow> snapshot" where
  "take_files event s = s\<lparr>
     sourceFile := js_coalesce (get event ''sourceFile'') (js_coalesce (get event ''file'') (sourceFile s)),
     previewFile := js_coalesce (get event ''previewFile'') (previewFile s),
     previewMode := js_coalesce (get event ''previewMode'') (previewMode s)\<rparr>"

definition clear_pending :: "snapshot \<Rightarrow> snapshot" where
  "clear_pending s = s\<lparr>pendingEventSeq := JNull, pendingEvent := JNull\<rparr>"

definition apply_steer_done :: "jsval \<Rightarrow> snapshot \<Rightarrow> snapshot" where
  "apply_steer_done event s =
    clear_pending (take_files event
      (s\<lparr>phase := JStr ''steer_done'', message := js_coalesce (get event ''message'') (message s)\<rparr>))"

definition apply_discard :: "clock \<Rightarrow> jsval \<Rightarrow> jsval \<Rightarrow> snapshot \<Rightarrow> snapshot" where
  "apply_discard clk entry event s = s\<lparr>
     phase := JStr ''discard_requested'',
     generationCanceled := True,
     generationCanceledAt := js_coalesce (get event ''at'') (entry_time clk entry),
     cancelReason := JStr ''discard'',
     pendingEventSeq := js_coalesce (get entry ''seq'') (pendingEventSeq s),
     pendingEvent := to_pending_event event\<rparr>"

definition apply_discarded :: "snapshot \<Rightarrow> snapshot" where
  "apply_discarded s = clear_pending (s\<lparr>phase := JStr ''discarded''\<rparr>)"

definition apply_complete :: "jsval \<Rightarrow> snapshot \<Rightarrow> snapshot" where
  "apply_complete event s = clear_pending (take_files event (s\<lparr>phase := JStr ''completed''\<rparr>))"

definition apply_agent_error :: "jsval \<Rightarrow> snapshot \<Rightarrow> snapshot" where
  "apply_agent_error event s =
    (if generationCanceled s \<and> get event ''sourceEventType'' = JStr ''generate''
     then late_generation_event event s
     else diagnose [(''error'', JStr ''agent_error''),
            (''message'', js_or (get event ''message'') (JStr ''unknown agent error''))]
            (clear_pending (s\<lparr>phase := JStr ''agent_error''\<rparr>)))"

definition apply_unknown :: "jsval \<Rightarrow> snapshot \<Rightarrow> snapshot" where
  "apply_unknown event s =
    diagnose [(''error'', JStr ''unknown_event_type''), (''type'', get event ''type'')] s"

definition apply_event :: "clock \<Rightarrow> snapshot \<Rightarrow> jsval \<Rightarrow> snapshot" where
  "apply_event clk snap entry =
    (let event = entry_event entry;
         next = carry_forward clk entry snap
     in if ty_is event ''generate'' then apply_generate entry event next
        else if ty_is event ''variant_plan'' then apply_variant_plan event next
        else if ty_is event ''detector_waivers'' then apply_detector_waivers event next
        else if ty_is event ''agent_phase'' then apply_agent_phase clk entry event next
        else if ty_is event ''variants_ready'' \<or> ty_is event ''agent_done''
          then apply_generation_done clk entry event next
        else if ty_is event ''variant_mounted'' then apply_variant_mounted event next
        else if ty_is event ''variant_mount_failed'' then apply_variant_mount_failed clk entry event next
        else if ty_is event ''checkpoint'' then apply_checkpoint event next
        else if ty_is event ''accept'' \<or> ty_is event ''accept_intent'' then apply_accept clk entry event next
        else if ty_is event ''manual_edit_apply''
          then apply_request ''manual_edit_apply_requested'' entry event next
        else if ty_is event ''steer'' then apply_request ''steer_requested'' entry event next
        else if ty_is event ''carbonize_cleanup'' then apply_carbonize_cleanup entry event next
        else if ty_is event ''steer_done'' then apply_steer_done event next
        else if ty_is event ''discard'' then apply_discard clk entry event next
        else if ty_is event ''discarded'' then apply_discarded next
        else if ty_is event ''complete'' then apply_complete event next
        else if ty_is event ''agent_error'' then apply_agent_error event next
        else apply_unknown event next)"

lemmas apply_defs =
  apply_generate_def apply_variant_plan_def apply_detector_waivers_def apply_agent_phase_def
  apply_generation_done_def finish_generation_def apply_variant_mounted_def add_mounted_def
  apply_variant_mount_failed_def add_failure_def keep_pending_def
  apply_checkpoint_def take_checkpoint_def apply_accept_def apply_request_def
  apply_carbonize_cleanup_def apply_steer_done_def apply_discard_def apply_discarded_def
  apply_complete_def apply_agent_error_def apply_unknown_def late_generation_event_def
  malformed_mount_ack_def diagnose_def take_files_def clear_pending_def with_render_def
  carry_forward_def

text \<open>
  A step predicate over one entry holds of \<open>apply_event\<close> when it holds of every
  event's case; the cases get the snapshot after the fields every event carries
  forward.
\<close>

lemma apply_event_cases:
  assumes "P (apply_generate entry (entry_event entry) (carry_forward clk entry s))"
    and "P (apply_variant_plan (entry_event entry) (carry_forward clk entry s))"
    and "P (apply_detector_waivers (entry_event entry) (carry_forward clk entry s))"
    and "P (apply_agent_phase clk entry (entry_event entry) (carry_forward clk entry s))"
    and "P (apply_generation_done clk entry (entry_event entry) (carry_forward clk entry s))"
    and "P (apply_variant_mounted (entry_event entry) (carry_forward clk entry s))"
    and "P (apply_variant_mount_failed clk entry (entry_event entry) (carry_forward clk entry s))"
    and "P (apply_checkpoint (entry_event entry) (carry_forward clk entry s))"
    and "P (apply_accept clk entry (entry_event entry) (carry_forward clk entry s))"
    and "\<And>ph. P (apply_request ph entry (entry_event entry) (carry_forward clk entry s))"
    and "P (apply_carbonize_cleanup entry (entry_event entry) (carry_forward clk entry s))"
    and "P (apply_steer_done (entry_event entry) (carry_forward clk entry s))"
    and "P (apply_discard clk entry (entry_event entry) (carry_forward clk entry s))"
    and "P (apply_discarded (carry_forward clk entry s))"
    and "P (apply_complete (entry_event entry) (carry_forward clk entry s))"
    and "P (apply_agent_error (entry_event entry) (carry_forward clk entry s))"
    and "P (apply_unknown (entry_event entry) (carry_forward clk entry s))"
  shows "P (apply_event clk s entry)"
  using assms by (simp add: apply_event_def Let_def)

section \<open>Invariants of a snapshot\<close>

text \<open>
  Render truth: mounted variants are positive, sorted and without duplicates, at
  most five mount failures are kept, and \<open>renderState\<close> says \<open>mounted\<close> exactly when
  something is on screen and \<open>failed\<close> exactly when only failures were reported.
\<close>

definition render_truth :: "snapshot \<Rightarrow> bool" where
  "render_truth s \<longleftrightarrow>
     sorted (mountedVariants s) \<and> distinct (mountedVariants s) \<and> (\<forall>v \<in> set (mountedVariants s). 1 \<le> v) \<and>
     length (mountFailures s) \<le> mount_failure_history \<and>
     (renderState s = Some ''mounted'' \<longleftrightarrow> mountedVariants s \<noteq> []) \<and>
     (renderState s = Some ''failed'' \<longleftrightarrow> mountedVariants s = [] \<and> mountFailures s \<noteq> [])"

lemma render_truth_base: "render_truth (base_snapshot i)"
  by (simp add: render_truth_def base_snapshot_def)

lemma length_take_last [simp]: "length (take_last n xs) = min n (length xs)"
  by (simp add: take_last_def)

lemma derive_render_state_iff [simp]:
  "derive_render_state s = Some ''mounted'' \<longleftrightarrow> mountedVariants s \<noteq> []"
  "derive_render_state s = Some ''failed'' \<longleftrightarrow> mountedVariants s = [] \<and> mountFailures s \<noteq> []"
  by (auto simp: derive_render_state_def)

lemma mount_variant_pos: "mount_variant event = Some v \<Longrightarrow> 1 \<le> v"
  by (auto simp: mount_variant_def Let_def split: if_splits)

text \<open>The fields render truth is about; most events leave them alone.\<close>

definition render_part :: "snapshot \<Rightarrow> int list \<times> mount_failure list \<times> string option" where
  "render_part s = (mountedVariants s, mountFailures s, renderState s)"

lemma render_truth_keep [intro]: "render_truth s \<Longrightarrow> render_part s' = render_part s \<Longrightarrow> render_truth s'"
  by (simp add: render_truth_def render_part_def)

lemma render_part_frame [simp]:
  "render_part (diagnose d s) = render_part s"
  "render_part (carry_forward clk entry s) = render_part s"
  "render_part (apply_variant_plan event s) = render_part s"
  "render_part (apply_detector_waivers event s) = render_part s"
  "render_part (apply_agent_phase clk entry event s) = render_part s"
  "render_part (apply_checkpoint event s) = render_part s"
  "render_part (apply_accept clk entry event s) = render_part s"
  "render_part (apply_request ph entry event s) = render_part s"
  "render_part (apply_carbonize_cleanup entry event s) = render_part s"
  "render_part (apply_steer_done event s) = render_part s"
  "render_part (apply_discard clk entry event s) = render_part s"
  "render_part (apply_discarded s) = render_part s"
  "render_part (apply_complete event s) = render_part s"
  "render_part (apply_agent_error event s) = render_part s"
  "render_part (apply_unknown event s) = render_part s"
  by (simp_all add: render_part_def apply_defs)

lemma render_truth_with_render:
  "render_truth (with_render s) \<longleftrightarrow>
     sorted (mountedVariants s) \<and> distinct (mountedVariants s) \<and> (\<forall>v \<in> set (mountedVariants s). 1 \<le> v) \<and>
     length (mountFailures s) \<le> mount_failure_history"
  by (auto simp: render_truth_def with_render_def)

lemma render_truth_generation_done:
  assumes "render_truth s"
  shows "render_truth (apply_generation_done clk entry event s)"
proof -
  have part: "render_part (finish_generation clk entry event s) = render_part s"
    by (simp add: render_part_def finish_generation_def)
  have "render_truth (with_render s')" if "render_part s' = render_part s" for s'
    using assms that by (simp add: render_truth_with_render) (simp add: render_truth_def render_part_def)
  then show ?thesis
    using assms part by (auto simp: apply_generation_done_def late_generation_event_def)
qed

lemma render_truth_variant_mounted:
  assumes "render_truth s"
  shows "render_truth (apply_variant_mounted event s)"
proof (cases "mount_variant event")
  case None
  with assms show ?thesis by (auto simp: apply_variant_mounted_def malformed_mount_ack_def)
next
  case (Some v)
  have "1 \<le> v" using Some by (rule mount_variant_pos)
  with assms Some show ?thesis
    by (auto simp: apply_variant_mounted_def render_truth_with_render add_mounted_def)
      (auto simp: render_truth_def)
qed

lemma render_truth_mount_failed:
  assumes "render_truth s"
  shows "render_truth (apply_variant_mount_failed clk entry event s)"
proof (cases "mount_variant event")
  case None
  with assms show ?thesis by (auto simp: apply_variant_mount_failed_def malformed_mount_ack_def)
next
  case (Some v)
  have "render_truth (with_render (add_failure clk entry event v s))"
    using assms by (simp add: render_truth_with_render add_failure_def) (simp add: render_truth_def)
  moreover have "render_part (keep_pending event t) = render_part t" for t
    by (simp add: keep_pending_def render_part_def)
  ultimately show ?thesis using Some by (auto simp: apply_variant_mount_failed_def)
qed

lemma render_truth_generate: "render_truth (apply_generate entry event s)"
  by (simp add: render_truth_def apply_generate_def)

lemma render_truth_apply_event:
  assumes "render_truth s"
  shows "render_truth (apply_event clk s entry)"
proof -
  have c: "render_truth (carry_forward clk entry s)"
    using assms by (rule render_truth_keep) simp
  note keep = render_truth_keep [OF c]
  show ?thesis
    by (rule apply_event_cases [where P = render_truth])
      (rule render_truth_generate render_truth_generation_done [OF c] render_truth_variant_mounted [OF c]
        render_truth_mount_failed [OF c] keep; simp?)+
qed

end
