(* ===== verification/Session_Replay.thy ===== *)
theory Session_Replay
  imports Session_Snapshot "HOL-Library.Multiset"
begin

text \<open>
  Replaying a journal: \<open>rebuildSnapshotFromJournal\<close> of \<open>live/session-store.mjs\<close>,
  and what every replay keeps: cancellation and completion never undone,
  revisions that never go back, no token in the pending event.
\<close>

section \<open>A journal and its replay\<close>

text \<open>
  A line of the journal is blank, does not parse (with the parser's message) or
  holds a JSON value.
\<close>

datatype journal_line = Blank | Garbled string | Line jsval

record replay =
  rp_snapshot :: snapshot
  rp_diagnostics :: "jsval list"
  rp_next :: int

definition parse_diagnostic :: "nat \<Rightarrow> string \<Rightarrow> jsval" where
  "parse_diagnostic i msg = JObj
     [(''error'', JStr ''journal_parse_failed''), (''line'', jint (int i + 1)), (''message'', JStr msg)]"

definition replay_line :: "clock \<Rightarrow> nat \<Rightarrow> journal_line \<Rightarrow> replay \<Rightarrow> replay" where
  "replay_line clk i line r =
    (case line of
       Blank \<Rightarrow> r
     | Garbled msg \<Rightarrow> r\<lparr>rp_diagnostics := rp_diagnostics r @ [parse_diagnostic i msg]\<rparr>
     | Line entry \<Rightarrow>
        if \<not> truthy entry \<or> \<not> is_objty entry
        then r\<lparr>rp_diagnostics := rp_diagnostics r @ [parse_diagnostic i ''entry is not object'']\<rparr>
        else r\<lparr>rp_next := (if is_integer (get entry ''seq'')
                  then max (rp_next r) (int_of (get entry ''seq'') + 1) else rp_next r),
               rp_snapshot := apply_event clk (rp_snapshot r) entry\<rparr>)"

fun replay_lines :: "clock \<Rightarrow> nat \<Rightarrow> journal_line list \<Rightarrow> replay \<Rightarrow> replay" where
  "replay_lines clk i [] r = r"
| "replay_lines clk i (l # ls) r = replay_lines clk (Suc i) ls (replay_line clk i l r)"

definition rebuild :: "clock \<Rightarrow> string \<Rightarrow> journal_line list option \<Rightarrow> replay" where
  "rebuild clk i journal =
    (let r0 = \<lparr>rp_snapshot = base_snapshot i, rp_diagnostics = [], rp_next = 1\<rparr> in
     case journal of
       None \<Rightarrow> r0
     | Some ls \<Rightarrow>
        let r = replay_lines clk 0 ls r0;
            s = rp_snapshot r
        in r\<lparr>rp_snapshot := s\<lparr>diagnostics := diagnostics s @ rp_diagnostics r\<rparr>\<rparr>)"

lemma replay_lines_append:
  "replay_lines clk i (xs @ ys) r = replay_lines clk (i + length xs) ys (replay_lines clk i xs r)"
  by (induction xs arbitrary: i r) auto

text \<open>An invariant of \<open>apply_event\<close> that ignores diagnostics holds of every replay.\<close>

lemma replay_lines_invariant:
  assumes "\<And>s entry. P s \<Longrightarrow> P (apply_event clk s entry)"
  shows "P (rp_snapshot r) \<Longrightarrow> P (rp_snapshot (replay_lines clk i ls r))"
  by (induction ls arbitrary: i r) (auto simp: replay_line_def assms split: journal_line.splits)

lemma rebuild_invariant:
  assumes step: "\<And>s entry. P s \<Longrightarrow> P (apply_event clk s entry)"
    and base: "P (base_snapshot i)"
    and diag: "\<And>s d. P s \<Longrightarrow> P (s\<lparr>diagnostics := d\<rparr>)"
  shows "P (rp_snapshot (rebuild clk i journal))"
  using replay_lines_invariant [where P = P, OF step] base
  by (auto simp: rebuild_def Let_def diag split: option.splits)

section \<open>Cancellation and completion\<close>

definition cancel_part :: "snapshot \<Rightarrow> bool \<times> jsval" where
  "cancel_part s = (generationCanceled s, generationCompletedAt s)"

lemma cancel_part_frame [simp]:
  "cancel_part (diagnose d s) = cancel_part s"
  "cancel_part (carry_forward clk entry s) = cancel_part s"
  "cancel_part (apply_generate entry event s) = cancel_part s"
  "cancel_part (apply_variant_plan event s) = cancel_part s"
  "cancel_part (apply_detector_waivers event s) = cancel_part s"
  "cancel_part (apply_agent_phase clk entry event s) = cancel_part s"
  "cancel_part (apply_checkpoint event s) = cancel_part s"
  "cancel_part (apply_request ph entry event s) = cancel_part s"
  "cancel_part (apply_carbonize_cleanup entry event s) = cancel_part s"
  "cancel_part (apply_steer_done event s) = cancel_part s"
  "cancel_part (apply_discarded s) = cancel_part s"
  "cancel_part (apply_complete event s) = cancel_part s"
  "cancel_part (apply_agent_error event s) = cancel_part s"
  "cancel_part (apply_unknown event s) = cancel_part s"
  "cancel_part (apply_variant_mounted event s) = cancel_part s"
  "cancel_part (apply_variant_mount_failed clk entry event s) = cancel_part s"
  by (simp_all add: cancel_part_def apply_defs split: option.split)

lemma not_nullish_entry_time [simp]: "\<not> nullish (entry_time clk entry)"
  by (simp add: entry_time_def js_or_def truthy_not_nullish)

lemma not_nullish_coalesce [simp]: "\<not> nullish b \<Longrightarrow> \<not> nullish (js_coalesce a b)"
  by (simp add: js_coalesce_def)

definition progress_le :: "snapshot \<Rightarrow> snapshot \<Rightarrow> bool" where
  \<comment> \<open>what has been canceled or completed stays so\<close>
  "progress_le s t \<longleftrightarrow>
     (generationCanceled s \<longrightarrow> generationCanceled t) \<and>
     (\<not> nullish (generationCompletedAt s) \<longrightarrow> \<not> nullish (generationCompletedAt t))"

lemma progress_le_part: "cancel_part t = cancel_part s \<Longrightarrow> progress_le s t"
  by (simp add: progress_le_def cancel_part_def)

lemma progress_le_refl: "progress_le s s"
  by (simp add: progress_le_def)

lemma progress_le_trans: "progress_le s t \<Longrightarrow> progress_le t u \<Longrightarrow> progress_le s u"
  by (simp add: progress_le_def)

lemma progress_apply_event: "progress_le s (apply_event clk s entry)"
proof -
  have eq: "progress_le s t" if "cancel_part t = cancel_part (carry_forward clk entry s)" for t
    using that by (simp add: progress_le_part)
  show ?thesis
    by (rule apply_event_cases [where P = "progress_le s"])
      ((rule eq, simp; fail) | simp add: progress_le_def apply_accept_def apply_discard_def
        apply_generation_done_def finish_generation_def late_generation_event_def diagnose_def
        with_render_def carry_forward_def)+
qed

section \<open>Checkpoint revisions\<close>

definition int_revs :: "snapshot \<Rightarrow> bool" where
  "int_revs s \<longleftrightarrow> is_integer (browserCheckpointRevision s) \<and> is_integer (publicationCheckpointRevision s)
     \<and> is_integer (checkpointRevision s)"

definition browser_rev :: "snapshot \<Rightarrow> int" where
  "browser_rev s = int_of (browserCheckpointRevision s)"

definition publication_rev :: "snapshot \<Rightarrow> int" where
  "publication_rev s = int_of (publicationCheckpointRevision s)"

definition revision_ok :: "jsval \<Rightarrow> bool" where
  "revision_ok entry \<longleftrightarrow> nullish (get (entry_event entry) ''revision'')
     \<or> is_integer (get (entry_event entry) ''revision'')"

definition rev_part :: "snapshot \<Rightarrow> jsval \<times> jsval \<times> jsval" where
  "rev_part s = (browserCheckpointRevision s, publicationCheckpointRevision s, checkpointRevision s)"

definition revs_le :: "snapshot \<Rightarrow> snapshot \<Rightarrow> bool" where
  "revs_le s t \<longleftrightarrow> int_revs t \<and> browser_rev s \<le> browser_rev t \<and> publication_rev s \<le> publication_rev t"

lemma rev_part_frame [simp]:
  "rev_part (diagnose d s) = rev_part s"
  "rev_part (carry_forward clk entry s) = rev_part s"
  "rev_part (apply_generate entry event s) = rev_part s"
  "rev_part (apply_variant_plan event s) = rev_part s"
  "rev_part (apply_detector_waivers event s) = rev_part s"
  "rev_part (apply_agent_phase clk entry event s) = rev_part s"
  "rev_part (apply_generation_done clk entry event s) = rev_part s"
  "rev_part (apply_variant_mounted event s) = rev_part s"
  "rev_part (apply_variant_mount_failed clk entry event s) = rev_part s"
  "rev_part (apply_accept clk entry event s) = rev_part s"
  "rev_part (apply_request ph entry event s) = rev_part s"
  "rev_part (apply_carbonize_cleanup entry event s) = rev_part s"
  "rev_part (apply_steer_done event s) = rev_part s"
  "rev_part (apply_discard clk entry event s) = rev_part s"
  "rev_part (apply_discarded s) = rev_part s"
  "rev_part (apply_complete event s) = rev_part s"
  "rev_part (apply_agent_error event s) = rev_part s"
  "rev_part (apply_unknown event s) = rev_part s"
  by (simp_all add: rev_part_def apply_defs split: option.split)

lemma revs_le_part: "int_revs s \<Longrightarrow> rev_part t = rev_part s \<Longrightarrow> revs_le s t"
  by (simp add: revs_le_def int_revs_def browser_rev_def publication_rev_def rev_part_def)

lemma integer_not_nullish: "is_integer v \<Longrightarrow> \<not> nullish v"
  by (cases v) auto

lemma revs_le_checkpoint:
  assumes s: "int_revs s" and r: "nullish (get event ''revision'') \<or> is_integer (get event ''revision'')"
  shows "revs_le s (apply_checkpoint event s)"
proof -
  obtain b p c where rev: "browserCheckpointRevision s = jint b" "publicationCheckpointRevision s = jint p"
    "checkpointRevision s = jint c"
    using s is_integer_cases unfolding int_revs_def by metis
  obtain n where n: "js_coalesce (get event ''revision'') (JNum 0) = jint n"
  proof (cases "nullish (get event ''revision'')")
    case True
    then show thesis using that [of 0] by simp
  next
    case False
    with r have "get event ''revision'' = jint (int_of (get event ''revision''))" by (metis is_integer_cases)
    with False show thesis using that by (metis js_coalesce_simps(2))
  qed
  have co: "js_coalesce (get event ''revision'') (jint m) = (if nullish (get event ''revision'') then jint m else jint n)" for m
    using n by (cases "nullish (get event ''revision'')") (simp_all add: js_coalesce_def)
  have diag: "revs_le s (diagnose d s)" for d
    using s by (rule revs_le_part) simp
  have z: "n = 0" if "nullish (get event ''revision'')" using n that by simp
  let ?pub = "revision_domain_publication event"
  show ?thesis
  proof (cases "fenced s \<or> \<not> js_ge (jint n) (current_revision ?pub s)")
    case True
    then show ?thesis by (auto simp: apply_checkpoint_def n diag)
  next
    case False
    have cur: "current_revision ?pub s = jint (if ?pub then p else b)"
      by (simp add: current_revision_def rev)
    with False have le: "(if ?pub then p else b) \<le> n" by simp
    obtain m where m: "js_coalesce (get event ''revision'') (current_revision ?pub s) = jint m"
      "(if ?pub then p else b) \<le> m"
      using le z cur co by (cases "nullish (get event ''revision'')") (auto simp del: js_coalesce_simps)
    have "js_coalesce (get event ''revision'') (checkpointRevision s) = jint (if nullish (get event ''revision'') then c else n)"
      using co [of c] rev(3) by simp
    then have "revs_le s (take_checkpoint ?pub event s)"
      using m by (cases ?pub) (simp_all add: revs_le_def int_revs_def browser_rev_def publication_rev_def
          take_checkpoint_def rev)
    with False show ?thesis by (simp add: apply_checkpoint_def n)
  qed
qed

lemma revs_apply_event:
  assumes "int_revs s" and "revision_ok entry"
  shows "revs_le s (apply_event clk s entry)"
proof -
  let ?c = "carry_forward clk entry s"
  let ?e = "entry_event entry"
  have eq: "revs_le s t" if "rev_part t = rev_part s" for t
    using assms(1) that by (rule revs_le_part)
  have "int_revs ?c" using assms(1) by (simp add: int_revs_def carry_forward_def)
  then have "revs_le ?c (apply_checkpoint ?e ?c)"
    using assms(2) by (intro revs_le_checkpoint) (simp_all add: revision_ok_def)
  then have cp: "revs_le s (apply_checkpoint ?e ?c)"
    by (simp add: revs_le_def browser_rev_def publication_rev_def carry_forward_def)
  show ?thesis
    by (rule apply_event_cases [where P = "revs_le s"]) ((rule cp; fail) | (rule eq, simp))+
qed

section \<open>The pending event\<close>

definition no_token :: "snapshot \<Rightarrow> bool" where
  "no_token s \<longleftrightarrow> get (pendingEvent s) ''token'' = JUndef"

lemma get_to_pending_event [simp]: "get (to_pending_event event) ''token'' = JUndef"
  by (simp add: to_pending_event_def)

lemma no_token_frame [simp]:
  "no_token (diagnose d s) = no_token s"
  "no_token (carry_forward clk entry s) = no_token s"
  "no_token (apply_variant_plan event s) = no_token s"
  "no_token (apply_detector_waivers event s) = no_token s"
  "no_token (apply_agent_phase clk entry event s) = no_token s"
  "no_token (apply_variant_mounted event s) = no_token s"
  "no_token (apply_checkpoint event s) = no_token s"
  "no_token (apply_unknown event s) = no_token s"
  by (simp_all add: no_token_def apply_defs split: option.split)

lemma no_token_pending [simp]:
  "no_token (apply_generate entry event s)"
  "no_token (apply_accept clk entry event s)"
  "no_token (apply_request ph entry event s)"
  "no_token (apply_carbonize_cleanup entry event s)"
  "no_token (apply_steer_done event s)"
  "no_token (apply_discard clk entry event s)"
  "no_token (apply_discarded s)"
  "no_token (apply_complete event s)"
  by (simp_all add: no_token_def apply_defs)

lemma no_token_other:
  assumes "no_token s"
  shows "no_token (apply_generation_done clk entry event s)"
    "no_token (apply_variant_mount_failed clk entry event s)"
    "no_token (apply_agent_error event s)"
  using assms by (auto simp: no_token_def apply_defs split: option.split)

lemma no_token_apply_event:
  assumes "no_token s"
  shows "no_token (apply_event clk s entry)"
  by (rule apply_event_cases [where P = no_token]) (simp_all add: assms no_token_other)

section \<open>Fenced generation events\<close>

definition late_write :: "snapshot \<Rightarrow> jsval \<Rightarrow> bool" where
  \<comment> \<open>an event of a generation that this snapshot no longer takes\<close>
  "late_write s event \<longleftrightarrow>
     ty_is event ''variant_plan'' \<or> ty_is event ''detector_waivers'' \<or> ty_is event ''variants_ready'' \<or>
     ty_is event ''checkpoint'' \<or>
     ty_is event ''agent_done'' \<and> \<not> (is_true (get event ''carbonize'') \<and> phase s = JStr ''accept_requested'') \<or>
     ty_is event ''agent_error'' \<and> generationCanceled s \<and> get event ''sourceEventType'' = JStr ''generate''"

lemma ty_is_unique: "ty_is e a \<Longrightarrow> ty_is e b \<longleftrightarrow> a = b"
  by (auto simp: ty_is_def)

lemma late_write_ignored:
  assumes "fenced s" and "late_write s (entry_event entry)"
  shows "\<exists>d. length d \<le> Suc 0 \<and>
    apply_event clk s entry = (carry_forward clk entry s)\<lparr>diagnostics := diagnostics s @ d\<rparr>"
proof -
  let ?c = "carry_forward clk entry s"
  let ?e = "entry_event entry"
  have f: "fenced ?c" using assms(1) by (simp add: fenced_def carry_forward_def)
  have p: "phase ?c = phase s" "generationCanceled ?c = generationCanceled s" "diagnostics ?c = diagnostics s"
    by (simp_all add: carry_forward_def)
  have none: "\<exists>d. length d \<le> Suc 0 \<and> ?c = ?c\<lparr>diagnostics := diagnostics s @ d\<rparr>"
    by (rule exI [of _ "[]"]) (simp add: p(3) [symmetric])
  have one: "\<exists>d. length d \<le> Suc 0 \<and> diagnose x ?c = ?c\<lparr>diagnostics := diagnostics s @ d\<rparr>" for x
    by (rule exI [of _ "[JObj x]"]) (simp add: diagnose_def p)
  from assms(2) consider "ty_is ?e ''variant_plan''" | "ty_is ?e ''detector_waivers''"
    | "ty_is ?e ''variants_ready''" | "ty_is ?e ''checkpoint''"
    | "ty_is ?e ''agent_done''" "\<not> (is_true (get ?e ''carbonize'') \<and> phase s = JStr ''accept_requested'')"
    | "ty_is ?e ''agent_error''" "generationCanceled s" "get ?e ''sourceEventType'' = JStr ''generate''"
    by (auto simp: late_write_def)
  then show ?thesis
    by cases (simp_all add: apply_event_def Let_def ty_is_unique f p one none late_generation_event_def
        apply_variant_plan_def apply_detector_waivers_def apply_generation_done_def apply_checkpoint_def
        apply_agent_error_def flip: entry_event_def)
qed

section \<open>Replays do not depend on when they run\<close>

text \<open>
  An entry that carries a readable time stamp, as every entry \<open>appendEvent\<close>
  writes does, is applied the same way at any later time.
\<close>

definition dated :: "clock \<Rightarrow> jsval \<Rightarrow> bool" where
  "dated clk entry \<longleftrightarrow> truthy (get entry ''ts'') \<and>
     (\<exists>q. date_parse clk (get entry ''ts'') = Some q \<and> q \<noteq> 0)"

lemma apply_event_clock:
  assumes "dated clk entry" and "date_parse clk' = date_parse clk"
  shows "apply_event clk' s entry = apply_event clk s entry"
proof -
  have ts: "parsed_ts clk' entry = parsed_ts clk entry" "truthy (parsed_ts clk entry)"
    using assms by (auto simp: dated_def parsed_ts_def)
  have "entry_time clk' entry = entry_time clk entry"
    using ts by (simp add: entry_time_def)
  moreover have "carry_forward clk' entry s = carry_forward clk entry s"
    using assms(1) by (simp add: carry_forward_def dated_def)
  ultimately show ?thesis
    using ts by (simp add: apply_event_def apply_agent_phase_def apply_generation_done_def finish_generation_def
        apply_variant_mount_failed_def add_failure_def apply_accept_def apply_discard_def Let_def
        cong: if_cong option.case_cong)
qed

section \<open>Snapshots that survive being written and read back\<close>

definition maybe_clean :: "jsval \<Rightarrow> bool" where
  "maybe_clean v \<longleftrightarrow> v = JUndef \<or> json_clean v"

definition clean_props :: "props \<Rightarrow> bool" where
  "clean_props ps \<longleftrightarrow> (\<forall>kv \<in> set ps. json_clean (snd kv))"

definition clean_snapshot :: "snapshot \<Rightarrow> bool" where
  "clean_snapshot s \<longleftrightarrow>
     json_clean (phase s) \<and> json_clean (pageUrl s) \<and> json_clean (sourceFile s) \<and> json_clean (previewFile s) \<and>
     json_clean (previewMode s) \<and> json_clean (expectedVariants s) \<and> json_clean (arrivedVariants s) \<and>
     json_clean (visibleVariant s) \<and> clean_props (paramValues s) \<and> json_clean (pendingEventSeq s) \<and>
     json_clean (pendingEvent s) \<and> json_clean (deliveryLease s) \<and> json_clean (checkpointRevision s) \<and>
     json_clean (browserCheckpointRevision s) \<and> json_clean (publicationCheckpointRevision s) \<and>
     json_clean (activeOwner s) \<and> clean_props (sourceMarkers s) \<and> json_clean (fallbackMode s) \<and>
     json_clean (generationPhase s) \<and> json_clean (generationCompletedAt s) \<and>
     clean_props (generationTimings s) \<and> json_clean (variantPlan s) \<and> json_clean (generationCanceledAt s) \<and>
     json_clean (cancelReason s) \<and> list_all json_clean (annotationArtifacts s) \<and>
     list_all (\<lambda>f. json_clean (mf_at f)) (mountFailures s) \<and> list_all json_clean (diagnostics s) \<and>
     json_clean (updatedAt s) \<and> pred_option (list_all json_clean) (detectorWaivers s) \<and> maybe_clean (message s)"

text \<open>
  \<open>norm_snapshot s\<close> is what reading the snapshot file gives after \<open>s\<close> was written:
  every field as JSON returns it, and the value of \<open>baseSnapshot\<close> for a field that
  was undefined, which the text leaves out.
\<close>

definition reread :: "jsval \<Rightarrow> jsval \<Rightarrow> jsval" where
  "reread d v = (if v = JUndef then d else json_norm v)"

definition norm_snapshot :: "snapshot \<Rightarrow> snapshot" where
  "norm_snapshot s = s\<lparr>
     phase := reread (JStr ''new'') (phase s), pageUrl := reread JNull (pageUrl s), sourceFile := reread JNull (sourceFile s),
     previewFile := reread JNull (previewFile s), previewMode := reread JNull (previewMode s),
     expectedVariants := reread (JNum 0) (expectedVariants s), arrivedVariants := reread (JNum 0) (arrivedVariants s),
     visibleVariant := reread JNull (visibleVariant s), paramValues := json_props (paramValues s),
     pendingEventSeq := reread JNull (pendingEventSeq s), pendingEvent := reread JNull (pendingEvent s),
     deliveryLease := reread JNull (deliveryLease s), checkpointRevision := reread (JNum 0) (checkpointRevision s),
     browserCheckpointRevision := reread (JNum 0) (browserCheckpointRevision s),
     publicationCheckpointRevision := reread (JNum 0) (publicationCheckpointRevision s),
     activeOwner := reread JNull (activeOwner s), sourceMarkers := json_props (sourceMarkers s),
     fallbackMode := reread JNull (fallbackMode s), generationPhase := reread JNull (generationPhase s),
     generationCompletedAt := reread JNull (generationCompletedAt s),
     generationTimings := json_props (generationTimings s), variantPlan := reread JNull (variantPlan s),
     generationCanceledAt := reread JNull (generationCanceledAt s), cancelReason := reread JNull (cancelReason s),
     annotationArtifacts := json_elems (annotationArtifacts s),
     mountFailures := map (\<lambda>f. f\<lparr>mf_at := json_norm (mf_at f)\<rparr>) (mountFailures s),
     diagnostics := json_elems (diagnostics s), updatedAt := reread JNull (updatedAt s),
     detectorWaivers := map_option json_elems (detectorWaivers s),
     message := reread JUndef (message s)\<rparr>"

lemma reread_clean [simp]: "json_clean v \<Longrightarrow> reread d v = v"
  by (auto simp: reread_def json_norm_clean)

lemma norm_clean_snapshot:
  assumes "clean_snapshot s"
  shows "norm_snapshot s = s"
proof -
  have "map (\<lambda>f. f\<lparr>mf_at := json_norm (mf_at f)\<rparr>) (mountFailures s) = mountFailures s"
    using assms by (intro map_idI) (auto simp: clean_snapshot_def json_norm_clean list_all_iff)
  moreover have "map_option json_elems (detectorWaivers s) = detectorWaivers s"
    using assms by (cases "detectorWaivers s") (auto simp: clean_snapshot_def json_norm_clean list_all_iff)
  ultimately show ?thesis
    using assms by (simp add: norm_snapshot_def clean_snapshot_def clean_props_def json_norm_clean list_all_iff
        maybe_clean_def) (auto simp: reread_def json_norm_clean)
qed

lemma clean_base_snapshot: "clean_snapshot (base_snapshot i)"
  by (simp add: clean_snapshot_def base_snapshot_def clean_props_def maybe_clean_def)

lemma maybe_clean_get [simp, intro]: "json_clean v \<Longrightarrow> maybe_clean (get v k)"
  using json_clean_get by (auto simp: maybe_clean_def)

lemma maybe_cleanI [simp]: "json_clean v \<Longrightarrow> maybe_clean v"
  by (simp add: maybe_clean_def)

lemma clean_coalesce [simp]: "maybe_clean a \<Longrightarrow> json_clean b \<Longrightarrow> json_clean (js_coalesce a b)"
  by (auto simp: maybe_clean_def js_coalesce_def)

lemma maybe_clean_coalesce [simp]: "maybe_clean a \<Longrightarrow> maybe_clean b \<Longrightarrow> maybe_clean (js_coalesce a b)"
  by (auto simp: js_coalesce_def)

lemma clean_or [simp]: "maybe_clean a \<Longrightarrow> json_clean b \<Longrightarrow> json_clean (js_or a b)"
  by (auto simp: maybe_clean_def js_or_def)

lemma maybe_clean_or [simp]: "maybe_clean a \<Longrightarrow> maybe_clean b \<Longrightarrow> maybe_clean (js_or a b)"
  by (auto simp: js_or_def)

lemma clean_get_not_undef [simp]: "json_clean v \<Longrightarrow> get v k \<noteq> JUndef \<Longrightarrow> json_clean (get v k)"
  using json_clean_get by blast

lemma clean_props_alset [simp]: "clean_props ps \<Longrightarrow> json_clean v \<Longrightarrow> clean_props (alset k v ps)"
  using set_alset_subset [of k v ps] by (auto simp: clean_props_def)

lemma clean_props_of [simp]: "json_clean v \<Longrightarrow> clean_props (props_of v)"
  by (cases v) (auto simp: clean_props_def dest!: set_zip_rightD)

lemma clean_props_of_get [simp]: "json_clean v \<Longrightarrow> clean_props (props_of (get v k))"
proof (cases "get v k = JUndef")
  case True
  then show "clean_props (props_of (get v k))" by (simp add: clean_props_def)
qed (auto intro: clean_props_of clean_get_not_undef)

lemma clean_to_pending_event [simp]: "json_clean v \<Longrightarrow> json_clean (to_pending_event v)"
  using clean_props_of [of v] set_aldel_subset [of "''token''" "props_of v"]
  by (auto simp: to_pending_event_def clean_props_def)

lemma clean_entry_time [simp]: "json_clean (entry_time clk entry)"
  by (simp add: entry_time_def parsed_ts_def js_or_def split: option.split)

lemma clean_parsed_or_null [simp]: "json_clean (js_or (parsed_ts clk entry) JNull)"
  by (simp add: parsed_ts_def js_or_def split: option.split)

lemma clean_finite: "is_finite v \<Longrightarrow> json_clean v"
  by (cases v) auto

lemma clean_diagnose [simp]:
  "clean_snapshot s \<Longrightarrow> (\<forall>kv \<in> set d. json_clean (snd kv)) \<Longrightarrow> clean_snapshot (diagnose d s)"
  by (simp add: clean_snapshot_def diagnose_def)

lemma clean_with_render [simp]: "clean_snapshot (with_render s) = clean_snapshot s"
  by (simp add: clean_snapshot_def with_render_def)

lemma list_all_take_last [simp]: "list_all P xs \<Longrightarrow> list_all P (take_last n xs)"
  by (auto simp: take_last_def list_all_iff dest: in_set_dropD)

text \<open>
  The events whose effect JSON text can carry: clean values, a type, a revision
  on a checkpoint, a numeric variant on an accept.
\<close>

definition good_event :: "jsval \<Rightarrow> bool" where
  "good_event event \<longleftrightarrow> json_clean event \<and> is_str (get event ''type'') \<and>
     (ty_is event ''checkpoint'' \<longrightarrow> get event ''revision'' \<noteq> JUndef) \<and>
     (ty_is event ''accept'' \<or> ty_is event ''accept_intent'' \<longrightarrow>
        \<not> nullish (get event ''variantId'') \<and> is_finite (to_number (get event ''variantId'')))"

definition good_entry :: "clock \<Rightarrow> jsval \<Rightarrow> bool" where
  "good_entry clk entry \<longleftrightarrow> json_clean entry \<and> dated clk entry \<and> good_event (entry_event entry)"

lemma clean_carry_forward:
  "clean_snapshot s \<Longrightarrow> json_clean entry \<Longrightarrow> clean_snapshot (carry_forward clk entry s)"
  by (simp add: clean_snapshot_def carry_forward_def)

lemma clean_generate:
  "clean_snapshot s \<Longrightarrow> json_clean entry \<Longrightarrow> json_clean event \<Longrightarrow> clean_snapshot (apply_generate entry event s)"
  by (auto simp: clean_snapshot_def apply_generate_def upsert_artifact_def dest: truthy_not_nullish
      intro!: clean_get_not_undef)

lemma clean_variant_plan:
  "clean_snapshot s \<Longrightarrow> json_clean event \<Longrightarrow> clean_snapshot (apply_variant_plan event s)"
  by (simp add: clean_snapshot_def apply_variant_plan_def)

lemma clean_elems: "json_clean v \<Longrightarrow> list_all json_clean (elems (get v k))"
  using json_clean_get [of v k] by (cases "get v k") (auto simp: list_all_iff)

lemma clean_detector_waivers:
  "clean_snapshot s \<Longrightarrow> json_clean event \<Longrightarrow> clean_snapshot (apply_detector_waivers event s)"
  by (cases "detectorWaivers s") (simp_all add: clean_snapshot_def apply_detector_waivers_def clean_elems)

lemma clean_agent_phase:
  "clean_snapshot s \<Longrightarrow> json_clean event \<Longrightarrow> clean_snapshot (apply_agent_phase clk entry event s)"
  by (simp add: clean_snapshot_def apply_agent_phase_def)

lemma clean_late: "clean_snapshot s \<Longrightarrow> good_event event \<Longrightarrow> clean_snapshot (late_generation_event event s)"
  by (cases "get event ''type''")
    (auto simp: late_generation_event_def good_event_def clean_snapshot_def [of s] intro!: clean_diagnose)

lemma clean_generation_done:
  "clean_snapshot s \<Longrightarrow> good_event event \<Longrightarrow> clean_snapshot (apply_generation_done clk entry event s)"
proof -
  assume s: "clean_snapshot s" and e: "good_event event"
  then have "clean_snapshot (finish_generation clk entry event s)"
    by (simp add: clean_snapshot_def finish_generation_def good_event_def)
  with s e show ?thesis
    by (auto simp: apply_generation_done_def clean_late good_event_def intro!: clean_diagnose)
qed

lemma clean_malformed: "clean_snapshot s \<Longrightarrow> good_event event \<Longrightarrow> clean_snapshot (malformed_mount_ack event s)"
  by (cases "get event ''type''") (auto simp: malformed_mount_ack_def good_event_def intro!: clean_diagnose)

lemma clean_variant_mounted:
  "clean_snapshot s \<Longrightarrow> good_event event \<Longrightarrow> clean_snapshot (apply_variant_mounted event s)"
  by (auto simp: apply_variant_mounted_def clean_malformed add_mounted_def split: option.split)
    (simp add: clean_snapshot_def)

lemma clean_mount_failed:
  "clean_snapshot s \<Longrightarrow> good_event event \<Longrightarrow> clean_snapshot (apply_variant_mount_failed clk entry event s)"
proof -
  assume s: "clean_snapshot s" and e: "good_event event"
  then have "clean_snapshot (add_failure clk entry event v s)" for v
    by (simp add: clean_snapshot_def add_failure_def good_event_def)
  moreover have "clean_snapshot (keep_pending event t)" if "clean_snapshot t" for t
    using that e by (simp add: clean_snapshot_def keep_pending_def good_event_def)
  ultimately show ?thesis
    using s e by (auto simp: apply_variant_mount_failed_def clean_malformed split: option.split)
qed

lemma clean_checkpoint:
  assumes "clean_snapshot s" "good_event event" "ty_is event ''checkpoint''"
  shows "clean_snapshot (apply_checkpoint event s)"
proof -
  have r: "json_clean (get event ''revision'')" and e: "json_clean event"
    using assms(2,3) by (auto simp: good_event_def)
  have "json_clean (current_revision pub s)" for pub
    using assms(1) by (simp add: current_revision_def clean_snapshot_def)
  then have "clean_snapshot (take_checkpoint pub event s)" for pub
    using assms(1) e by (simp add: clean_snapshot_def take_checkpoint_def)
  then show ?thesis
    using assms(1) r e by (auto simp: apply_checkpoint_def intro!: clean_diagnose)
qed

lemma clean_accept:
  assumes "clean_snapshot s" "json_clean entry" "good_event event"
    "ty_is event ''accept'' \<or> ty_is event ''accept_intent''"
  shows "clean_snapshot (apply_accept clk entry event s)"
proof -
  have "json_clean (to_number (js_coalesce (get event ''variantId'') v))" for v
    using assms(3,4) by (auto simp: good_event_def intro: clean_finite)
  then show ?thesis
    using assms(1-3) by (simp add: clean_snapshot_def apply_accept_def good_event_def)
qed

lemma clean_others:
  assumes "clean_snapshot s" "json_clean entry" "json_clean event"
  shows "clean_snapshot (apply_request ph entry event s)"
    "clean_snapshot (apply_carbonize_cleanup entry event s)"
    "clean_snapshot (apply_steer_done event s)"
    "clean_snapshot (apply_discard clk entry event s)"
    "clean_snapshot (apply_discarded s)"
    "clean_snapshot (apply_complete event s)"
  using assms
  by (simp_all add: clean_snapshot_def apply_request_def apply_carbonize_cleanup_def apply_steer_done_def
      apply_discard_def apply_discarded_def apply_complete_def clear_pending_def take_files_def)

lemma clean_agent_error: "clean_snapshot s \<Longrightarrow> good_event event \<Longrightarrow> clean_snapshot (apply_agent_error event s)"
proof -
  assume s: "clean_snapshot s" and e: "good_event event"
  then have "clean_snapshot (clear_pending (s\<lparr>phase := JStr ''agent_error''\<rparr>))"
    by (simp add: clean_snapshot_def clear_pending_def)
  then show ?thesis using s e
    by (auto simp: apply_agent_error_def clean_late good_event_def intro!: clean_diagnose)
qed

lemma clean_unknown: "clean_snapshot s \<Longrightarrow> good_event event \<Longrightarrow> clean_snapshot (apply_unknown event s)"
  by (cases "get event ''type''") (auto simp: apply_unknown_def good_event_def intro!: clean_diagnose)

lemma clean_apply_event:
  assumes "clean_snapshot s" and "good_entry clk entry"
  shows "clean_snapshot (apply_event clk' s entry)"
proof -
  have e: "json_clean entry" "good_event (entry_event entry)" and e': "json_clean (entry_event entry)"
    using assms(2) by (simp_all add: good_entry_def good_event_def)
  have c: "clean_snapshot (carry_forward clk' entry s)"
    using assms(1) e(1) by (rule clean_carry_forward)
  show ?thesis
    unfolding apply_event_def Let_def
    using c e e' by (simp add: clean_generate clean_variant_plan clean_detector_waivers clean_agent_phase
      clean_generation_done clean_variant_mounted clean_mount_failed clean_checkpoint clean_accept clean_others
      clean_agent_error clean_unknown)
qed

end
