(* ===== verification/Session_Log.thy ===== *)
theory Session_Log
  imports Session_Replay
begin

text \<open>
  A journal read incrementally and a journal replayed: no event reads the
  diagnostics, so applying one more entry to a replay and replaying one more
  line give snapshots that differ at most in the order of their diagnostics.
  Replays of well-formed journals do not depend on the clock and survive being
  written to the snapshot file.
\<close>

section \<open>Diagnostics are only a log\<close>

text \<open>
  No event reads the diagnostics, and each only appends to them: an operation
  \<open>f\<close> commutes with a change of the diagnostics already there.
\<close>

definition relog :: "jsval list \<Rightarrow> snapshot \<Rightarrow> snapshot" where
  "relog d s = s\<lparr>diagnostics := d\<rparr>"

lemma relog_simps [simp]:
  "diagnostics (relog d s) = d"
  "relog d (relog d' s) = relog d s"
  "relog (diagnostics s) s = s"
  by (simp_all add: relog_def)

definition logs :: "(snapshot \<Rightarrow> snapshot) \<Rightarrow> bool" where
  "logs f \<longleftrightarrow> (\<forall>s d. f (relog d s) = relog (d @ diagnostics (f (relog [] s))) (f (relog [] s)))"

lemma logsD: "logs f \<Longrightarrow> f (relog d s) = relog (d @ diagnostics (f (relog [] s))) (f (relog [] s))"
  unfolding logs_def by blast

lemma logs_self:
  "logs f \<Longrightarrow> f s = relog (diagnostics s @ diagnostics (f (relog [] s))) (f (relog [] s))"
  using logsD [of f "diagnostics s" s] by (simp only: relog_simps)

lemma logs_if:
  assumes f: "logs f" and g: "logs g" and b: "\<And>s d. b (relog d s) = b s"
  shows "logs (\<lambda>s. if b s then f s else g s)"
  unfolding logs_def
proof (intro allI)
  fix s d
  show "(if b (relog d s) then f (relog d s) else g (relog d s)) =
    relog (d @ diagnostics (if b (relog [] s) then f (relog [] s) else g (relog [] s)))
      (if b (relog [] s) then f (relog [] s) else g (relog [] s))"
    unfolding b using logsD [OF f, of d s] logsD [OF g, of d s] by (cases "b s") simp_all
qed

lemma logs_comp:
  assumes f: "logs f" and g: "logs g"
  shows "logs (\<lambda>s. f (g s))"
  unfolding logs_def
proof (intro allI)
  fix s d
  let ?u = "g (relog [] s)"
  let ?v = "f (relog [] ?u)"
  have "f (g (relog d s)) = f (relog (d @ diagnostics ?u) ?u)"
    using logsD [OF g] by (rule arg_cong)
  also have "\<dots> = relog ((d @ diagnostics ?u) @ diagnostics ?v) ?v"
    using f by (rule logsD)
  also have "\<dots> = relog (d @ diagnostics (f ?u)) (f ?u)"
    by (subst (2 3) logs_self [OF f]) simp
  finally show "f (g (relog d s)) = relog (d @ diagnostics (f ?u)) (f ?u)" .
qed

lemma logs_carry: "logs f \<Longrightarrow> logs (\<lambda>s. f (carry_forward clk entry s))"
  by (rule logs_comp, assumption) (simp add: logs_def relog_def carry_forward_def)

lemma derive_render_state_log [simp]: "derive_render_state (relog d s) = derive_render_state s"
  by (simp add: derive_render_state_def relog_def)

lemma fenced_log [simp]: "fenced (relog d s) = fenced s"
  by (simp add: fenced_def relog_def)

lemma current_revision_log [simp]: "current_revision pub (relog d s) = current_revision pub s"
  by (simp add: current_revision_def relog_def)

lemma phase_log [simp]: "phase (relog d s) = phase s" "generationCanceled (relog d s) = generationCanceled s"
  by (simp_all add: relog_def)

lemma logs_diagnose [simp]: "logs (diagnose x)" "logs (late_generation_event event)"
  "logs (malformed_mount_ack event)" "logs (apply_unknown event)" "logs (\<lambda>s. s)"
  by (simp_all add: logs_def relog_def diagnose_def late_generation_event_def malformed_mount_ack_def apply_unknown_def)

lemma logs_checkpoint: "logs (apply_checkpoint event)"
proof -
  have "logs (take_checkpoint pub event)" for pub
    by (simp add: logs_def relog_def take_checkpoint_def current_revision_def)
  then show ?thesis
    unfolding apply_checkpoint_def by (intro logs_if) simp_all
qed

lemma logs_agent_error: "logs (apply_agent_error event)"
proof -
  have "logs (\<lambda>s. clear_pending (s\<lparr>phase := JStr ''agent_error''\<rparr>))"
    by (simp add: logs_def relog_def clear_pending_def)
  then show ?thesis
    unfolding apply_agent_error_def by (intro logs_if) (simp_all add: logs_comp [OF logs_diagnose(1)])
qed

lemma logs_plan:
  "logs (apply_variant_plan event)"
  "logs (apply_detector_waivers event)"
proof -
  have "logs (\<lambda>s. s\<lparr>variantPlan := js_coalesce x (variantPlan s)\<rparr>)"
    "logs (\<lambda>s. s\<lparr>detectorWaivers := Some ((case detectorWaivers s of None \<Rightarrow> [] | Some ws \<Rightarrow> ws) @ y)\<rparr>)" for x y
    by (simp_all add: logs_def relog_def)
  then show "logs (apply_variant_plan event)" "logs (apply_detector_waivers event)"
    unfolding apply_variant_plan_def apply_detector_waivers_def by (intro logs_if; simp)+
qed

lemma logs_events:
  "logs (apply_generate entry event)"
  "logs (apply_agent_phase clk entry event)"
  "logs (apply_accept clk entry event)"
  "logs (apply_request ph entry event)"
  "logs (apply_carbonize_cleanup entry event)"
  "logs (apply_steer_done event)"
  "logs (apply_discard clk entry event)"
  "logs apply_discarded"
  "logs (apply_complete event)"
  by (simp_all add: logs_def relog_def apply_defs)

lemma logs_generation_done: "logs (apply_generation_done clk entry event)"
proof -
  have f: "logs (finish_generation clk entry event)" and r: "logs with_render"
    by (simp_all add: logs_def relog_def finish_generation_def with_render_def derive_render_state_def)
  have "logs (\<lambda>s. with_render (if b then diagnose x (finish_generation clk entry event s)
      else finish_generation clk entry event s))" for b x
    by (cases b) (simp_all add: logs_comp [OF r f] logs_comp [OF r logs_comp [OF logs_diagnose(1) f]])
  then show ?thesis
    unfolding apply_generation_done_def by (intro logs_if) simp_all
qed

lemma logs_mounts:
  "logs (apply_variant_mounted event)"
  "logs (apply_variant_mount_failed clk entry event)"
proof -
  have r: "logs with_render"
    by (simp add: logs_def relog_def with_render_def derive_render_state_def)
  have k: "logs (keep_pending event)" "logs (add_failure clk entry event v)" for v
    by (simp_all add: logs_def relog_def keep_pending_def add_failure_def)
  have m: "logs (\<lambda>s. s\<lparr>mountedVariants := sort (mountedVariants s @ [v])\<rparr>)" for v
    by (simp add: logs_def relog_def)
  have a: "logs (add_mounted v)" for v
    unfolding add_mounted_def by (intro logs_if m) (simp_all add: relog_def)
  show "logs (apply_variant_mounted event)" "logs (apply_variant_mount_failed clk entry event)"
    unfolding apply_variant_mounted_def apply_variant_mount_failed_def
    by (cases "mount_variant event"; simp add: logs_comp [OF r a]
        logs_comp [OF k(1) logs_comp [OF r k(2)]])+
qed

lemma logs_apply_event: "logs (\<lambda>s. apply_event clk s entry)"
  unfolding apply_event_def Let_def
  by (intro logs_if logs_carry refl logs_events logs_plan logs_checkpoint logs_agent_error logs_diagnose
      logs_generation_done logs_mounts)

text \<open>Two snapshots agree when they differ at most in the order of their diagnostics.\<close>

definition agree :: "snapshot \<Rightarrow> snapshot \<Rightarrow> bool" where
  "agree s t \<longleftrightarrow> relog [] s = relog [] t \<and> mset (diagnostics s) = mset (diagnostics t)"

lemma agree_refl [simp]: "agree s s"
  by (simp add: agree_def)

lemma agree_trans: "agree s t \<Longrightarrow> agree t u \<Longrightarrow> agree s u"
  by (simp add: agree_def)

lemma agree_sym: "agree s t \<Longrightarrow> agree t s"
  by (simp add: agree_def)

lemma agree_relog: "mset d = mset d' \<Longrightarrow> agree (relog d s) (relog d' s)"
  by (simp add: agree_def)

lemma agree_logs:
  assumes "logs f" and "agree s t"
  shows "agree (f s) (f t)"
proof -
  have e: "f s = relog (diagnostics s @ diagnostics (f (relog [] s))) (f (relog [] s))"
    "f t = relog (diagnostics t @ diagnostics (f (relog [] t))) (f (relog [] t))"
    using assms(1) by (rule logs_self)+
  from assms(2) have "relog [] s = relog [] t" "mset (diagnostics s) = mset (diagnostics t)"
    by (simp_all add: agree_def)
  then show ?thesis
    by (subst e(1), subst e(2)) (auto intro: agree_relog)
qed

lemma agree_apply_event: "agree s t \<Longrightarrow> agree (apply_event clk s entry) (apply_event clk t entry)"
  using logs_apply_event by (rule agree_logs)

section \<open>One more line\<close>

definition start :: "string \<Rightarrow> replay" where
  "start i = \<lparr>rp_snapshot = base_snapshot i, rp_diagnostics = [], rp_next = 1\<rparr>"

lemma rebuild_None: "rebuild clk i None = start i"
  by (simp add: rebuild_def start_def)

lemma rebuild_Some:
  "rp_snapshot (rebuild clk i (Some ls)) =
     relog (diagnostics (rp_snapshot (replay_lines clk 0 ls (start i))) @
            rp_diagnostics (replay_lines clk 0 ls (start i)))
       (rp_snapshot (replay_lines clk 0 ls (start i)))"
  "rp_next (rebuild clk i (Some ls)) = rp_next (replay_lines clk 0 ls (start i))"
  by (simp_all add: rebuild_def start_def relog_def Let_def)

definition lines_of :: "journal_line list option \<Rightarrow> journal_line list" where
  "lines_of j = (case j of None \<Rightarrow> [] | Some ls \<Rightarrow> ls)"

lemma lines_of_simps [simp]: "lines_of None = []" "lines_of (Some ls) = ls"
  by (simp_all add: lines_of_def)

lemma rebuild_absent_empty [simp]:
  "rp_snapshot (rebuild clk i (Some [])) = rp_snapshot (rebuild clk i None)"
  "rp_next (rebuild clk i (Some [])) = rp_next (rebuild clk i None)"
  by (simp_all add: rebuild_def Let_def base_snapshot_def)

lemma agree_relog_self: "mset d = mset (diagnostics s) \<Longrightarrow> agree (relog d s) s"
  using agree_relog [of d "diagnostics s" s] by simp

lemma rebuild_line:
  assumes e: "truthy entry" "is_objty entry"
  shows "agree (rp_snapshot (rebuild clk i (Some (ls @ [Line entry]))))
           (apply_event clk (rp_snapshot (rebuild clk i (Some ls))) entry)"
    and "rp_next (rebuild clk i (Some (ls @ [Line entry]))) =
      (if is_integer (get entry ''seq'')
       then max (rp_next (rebuild clk i (Some ls))) (int_of (get entry ''seq'') + 1)
       else rp_next (rebuild clk i (Some ls)))"
proof -
  let ?r = "replay_lines clk 0 ls (start i)"
  let ?s = "rp_snapshot ?r"
  let ?f = "\<lambda>s. apply_event clk s entry"
  let ?x = "diagnostics (?f (relog [] ?s))"
  have l: "replay_lines clk 0 (ls @ [Line entry]) (start i) = replay_line clk (length ls) (Line entry) ?r"
    by (simp add: replay_lines_append)
  have s: "rp_snapshot (replay_lines clk 0 (ls @ [Line entry]) (start i)) = ?f ?s"
    "rp_diagnostics (replay_lines clk 0 (ls @ [Line entry]) (start i)) = rp_diagnostics ?r"
    unfolding l using e by (simp_all add: replay_line_def)
  have "?f (relog (diagnostics ?s @ rp_diagnostics ?r) ?s) =
      relog ((diagnostics ?s @ rp_diagnostics ?r) @ ?x) (?f (relog [] ?s))"
    by (rule logsD [OF logs_apply_event])
  moreover have "?f ?s = relog (diagnostics ?s @ ?x) (?f (relog [] ?s))"
    by (rule logs_self [OF logs_apply_event])
  ultimately show "agree (rp_snapshot (rebuild clk i (Some (ls @ [Line entry]))))
      (?f (rp_snapshot (rebuild clk i (Some ls))))"
    unfolding rebuild_Some s by (auto intro: agree_relog)
  show "rp_next (rebuild clk i (Some (ls @ [Line entry]))) =
      (if is_integer (get entry ''seq'')
       then max (rp_next (rebuild clk i (Some ls))) (int_of (get entry ''seq'') + 1)
       else rp_next (rebuild clk i (Some ls)))"
    unfolding rebuild_Some l using e by (simp add: replay_line_def)
qed

section \<open>Well-formed journals\<close>

fun good_line :: "clock \<Rightarrow> journal_line \<Rightarrow> bool" where
  "good_line clk (Line entry) = (truthy entry \<and> is_objty entry \<longrightarrow> good_entry clk entry)"
| "good_line clk _ = True"

definition good_journal :: "clock \<Rightarrow> journal_line list option \<Rightarrow> bool" where
  "good_journal clk j = list_all (good_line clk) (lines_of j)"

lemma good_entry_clock: "date_parse clk' = date_parse clk \<Longrightarrow> good_entry clk' entry = good_entry clk entry"
  by (simp add: good_entry_def dated_def)

lemma good_line_clock: "date_parse clk' = date_parse clk \<Longrightarrow> good_line clk' l = good_line clk l"
  using good_entry_clock [of clk' clk] by (cases l) simp_all

lemma replay_lines_clock:
  assumes "date_parse clk' = date_parse clk"
  shows "list_all (good_line clk) ls \<Longrightarrow> replay_lines clk' k ls r = replay_lines clk k ls r"
proof (induction ls arbitrary: k r)
  case (Cons l ls)
  have "replay_line clk' k l r = replay_line clk k l r"
    using Cons.prems apply_event_clock [OF _ assms]
    by (auto simp: replay_line_def good_entry_def split: journal_line.split)
  with Cons show ?case by simp
qed simp

lemma rebuild_clock:
  "date_parse clk' = date_parse clk \<Longrightarrow> good_journal clk j \<Longrightarrow> rebuild clk' i j = rebuild clk i j"
  using replay_lines_clock [of clk' clk]
  by (cases j) (simp_all add: rebuild_def Let_def good_journal_def)

lemma replay_lines_clean:
  "list_all (good_line clk) ls \<Longrightarrow> clean_snapshot (rp_snapshot r) \<Longrightarrow> list_all json_clean (rp_diagnostics r) \<Longrightarrow>
   clean_snapshot (rp_snapshot (replay_lines clk' k ls r)) \<and>
   list_all json_clean (rp_diagnostics (replay_lines clk' k ls r))"
proof (induction ls arbitrary: k r)
  case (Cons l ls)
  have "clean_snapshot (rp_snapshot (replay_line clk' k l r)) \<and>
      list_all json_clean (rp_diagnostics (replay_line clk' k l r))"
    using Cons.prems clean_apply_event [of "rp_snapshot r" clk]
    by (cases l) (auto simp: replay_line_def parse_diagnostic_def)
  with Cons show ?case by simp
qed simp

lemma clean_relog: "clean_snapshot s \<Longrightarrow> list_all json_clean d \<Longrightarrow> clean_snapshot (relog d s)"
  by (simp add: clean_snapshot_def relog_def)

lemma clean_diagnostics: "clean_snapshot s \<Longrightarrow> list_all json_clean (diagnostics s)"
  by (simp add: clean_snapshot_def)

lemma rebuild_clean:
  assumes "good_journal clk j"
  shows "clean_snapshot (rp_snapshot (rebuild clk' i j))"
proof (cases j)
  case None
  then show ?thesis by (simp add: rebuild_None start_def clean_base_snapshot)
next
  case (Some ls)
  then have "clean_snapshot (rp_snapshot (replay_lines clk' 0 ls (start i))) \<and>
      list_all json_clean (rp_diagnostics (replay_lines clk' 0 ls (start i)))"
    using assms by (intro replay_lines_clean) (simp_all add: good_journal_def start_def clean_base_snapshot)
  then show ?thesis
    unfolding Some rebuild_Some by (auto intro!: clean_relog dest: clean_diagnostics)
qed

lemma agree_clean: "agree s t \<Longrightarrow> clean_snapshot s \<Longrightarrow> clean_snapshot t"
proof -
  assume a: "agree s t" and s: "clean_snapshot s"
  have "set (diagnostics t) = set (diagnostics s)" using a by (metis agree_def mset_eq_setD)
  then have "list_all json_clean (diagnostics t)" using clean_diagnostics [OF s] by (simp add: list_all_iff)
  then have "clean_snapshot (relog (diagnostics t) (relog [] s))" using s by (simp add: clean_relog)
  moreover have "relog [] s = relog [] t" using a by (simp add: agree_def)
  then have "relog (diagnostics t) (relog [] s) = t" by (metis relog_simps(2,3))
  ultimately show ?thesis by simp
qed

section \<open>Properties\<close>

text \<open>
  Render truth of every replay, whatever the journal holds: the mounted
  variants are positive, sorted and without duplicates, at most five mount
  failures are kept, the render state says mounted exactly when some variant
  mounted and failed exactly when only failures were reported.
\<close>

theorem replay_render_truth: "render_truth (rp_snapshot (rebuild clk i journal))"
  by (rule rebuild_invariant) (auto simp: render_truth_apply_event render_truth_base, simp add: render_truth_def)

text \<open>
  No replay keeps a token: the pending event a snapshot holds has no
  \<open>token\<close> property, whatever events the journal holds.
\<close>

theorem replay_keeps_no_token: "no_token (rp_snapshot (rebuild clk i journal))"
  by (rule rebuild_invariant) (auto simp: no_token_apply_event, simp_all add: no_token_def base_snapshot_def)

text \<open>
  A longer journal never takes back a cancellation or a completed
  generation, whatever lines it adds, unreadable ones included.
\<close>

theorem longer_journal_keeps_progress:
  "progress_le (rp_snapshot (rebuild clk i (Some xs))) (rp_snapshot (rebuild clk i (Some (xs @ ys))))"
proof -
  let ?r = "replay_lines clk 0 xs (start i)"
  have "progress_le (rp_snapshot ?r) (rp_snapshot (replay_lines clk (length xs) ys ?r))"
    by (rule replay_lines_invariant [where P = "progress_le (rp_snapshot ?r)"])
      (auto intro: progress_le_trans progress_apply_event progress_le_refl)
  then show ?thesis
    unfolding rebuild_Some replay_lines_append by (simp add: progress_le_def relog_def)
qed

text \<open>
  Checkpoint revisions only go up: replaying a longer journal whose entries
  carry integer revisions (or none) never lowers the browser's revision or the
  publication revision, and keeps them integers.
\<close>

definition revision_line :: "journal_line \<Rightarrow> bool" where
  "revision_line l = (case l of Line entry \<Rightarrow> revision_ok entry | _ \<Rightarrow> True)"

lemma replay_lines_revs:
  "list_all revision_line ls \<Longrightarrow> int_revs (rp_snapshot r) \<Longrightarrow>
   revs_le (rp_snapshot r) (rp_snapshot (replay_lines clk k ls r))"
proof (induction ls arbitrary: k r)
  case Nil
  then show ?case by (simp add: revs_le_def)
next
  case (Cons l ls)
  have "revs_le (rp_snapshot r) (rp_snapshot (replay_line clk k l r))"
    using Cons.prems revs_apply_event
    by (cases l) (auto simp: replay_line_def revision_line_def revs_le_part)
  moreover from this have "revs_le (rp_snapshot (replay_line clk k l r))
      (rp_snapshot (replay_lines clk (Suc k) ls (replay_line clk k l r)))"
    using Cons by (simp add: revs_le_def)
  ultimately show ?case by (auto simp: revs_le_def)
qed

theorem longer_journal_raises_revisions:
  assumes "list_all revision_line (xs @ ys)"
  shows "revs_le (rp_snapshot (rebuild clk i (Some xs))) (rp_snapshot (rebuild clk i (Some (xs @ ys))))"
proof -
  let ?r = "replay_lines clk 0 xs (start i)"
  have "int_revs (rp_snapshot (start i))" by (simp add: start_def base_snapshot_def int_revs_def)
  then have "revs_le (rp_snapshot (start i)) (rp_snapshot ?r)"
    using assms by (intro replay_lines_revs) simp_all
  then have "revs_le (rp_snapshot ?r) (rp_snapshot (replay_lines clk (length xs) ys ?r))"
    using assms by (intro replay_lines_revs) (simp_all add: revs_le_def)
  then show ?thesis
    unfolding rebuild_Some replay_lines_append
    by (simp add: revs_le_def int_revs_def browser_rev_def publication_rev_def relog_def)
qed

theorem longer_journal_raises_revisions_witness:
  "revs_le (rp_snapshot (rebuild \<lparr>now_ms = 1, now_iso = ''t'', date_parse = \<lambda>v. Some 5\<rparr> ''a1'' (Some [Line (JObj [(''type'', JStr ''checkpoint''), (''revision'', JNum 3)])])))
    (rp_snapshot (rebuild \<lparr>now_ms = 1, now_iso = ''t'', date_parse = \<lambda>v. Some 5\<rparr> ''a1'' (Some ([Line (JObj [(''type'', JStr ''checkpoint''), (''revision'', JNum 3)])] @
      [Line (JObj [(''type'', JStr ''checkpoint''), (''revision'', JNum 2)])]))))"
  by (rule longer_journal_raises_revisions) (simp add: revision_line_def revision_ok_def entry_event_def)

text \<open>
  C34. A snapshot survives the snapshot file: what is read back after writing
  the replay of a well-formed journal is that replay, field by field.
\<close>

theorem snapshot_file_round_trip:
  assumes "good_journal clk j"
  shows "norm_snapshot (rp_snapshot (rebuild clk' i j)) = rp_snapshot (rebuild clk' i j)"
  using rebuild_clean [OF assms] by (rule norm_clean_snapshot)

theorem snapshot_file_round_trip_witness:
  "norm_snapshot (rp_snapshot (rebuild
      \<lparr>now_ms = 1, now_iso = ''t'', date_parse = \<lambda>v. Some 5\<rparr> ''a1''
      (Some [Line (JObj [(''type'', JStr ''steer''), (''ts'', JStr ''t'')]), Garbled ''x'']))) =
    rp_snapshot (rebuild \<lparr>now_ms = 1, now_iso = ''t'', date_parse = \<lambda>v. Some 5\<rparr> ''a1''
      (Some [Line (JObj [(''type'', JStr ''steer''), (''ts'', JStr ''t'')]), Garbled ''x'']))"
  by (rule snapshot_file_round_trip [of "\<lparr>now_ms = 1, now_iso = ''t'', date_parse = \<lambda>v. Some 5\<rparr>"])
    (simp add: good_journal_def good_entry_def dated_def good_event_def entry_event_def ty_is_def)

text \<open>
  A generate entry is not fenced: after an accept or a discard, a further
  generate entry makes generation the requested phase and the pending event
  again, while the session stays canceled.
\<close>

theorem generate_after_cancel:
  assumes "ty_is (entry_event entry) ''generate''" and "generationCanceled s"
  shows "phase (apply_event clk s entry) = JStr ''generate_requested'' \<and>
    pendingEvent (apply_event clk s entry) = to_pending_event (entry_event entry) \<and>
    generationCanceled (apply_event clk s entry)"
proof -
  have "apply_event clk s entry = apply_generate entry (entry_event entry) (carry_forward clk entry s)"
    using assms(1) by (simp add: apply_event_def Let_def)
  then show ?thesis
    using assms(2) by (simp_all add: apply_generate_def carry_forward_def)
qed

theorem generate_after_cancel_witness:
  "phase (apply_event \<lparr>now_ms = 1, now_iso = ''t'', date_parse = \<lambda>v. Some 5\<rparr> ((base_snapshot ''a1'')\<lparr>generationCanceled := True\<rparr>)
     (JObj [(''type'', JStr ''generate'')])) = JStr ''generate_requested''"
  by (rule generate_after_cancel [THEN conjunct1]) (simp_all add: entry_event_def ty_is_def)

end
