(* ===== verification/Store_Interface.thy ===== *)
theory Store_Interface
  imports Session_Log
begin

text \<open>
  What the live server needs of a session store, as a locale: an append applies
  the event to what a reader sees of that session and leaves the other sessions
  alone. The lemmas inside hold of every such store: after any sequence of
  appends, what was canceled or completed stays so, revisions do not go back,
  render truth and the absence of tokens are kept, and a late generation event
  changes nothing a reader sees but the log and the time stamp.
\<close>

section \<open>What agreeing snapshots share\<close>

lemma relog_sel:
  "generationCanceled (relog d s) = generationCanceled s"
  "generationCompletedAt (relog d s) = generationCompletedAt s"
  "browserCheckpointRevision (relog d s) = browserCheckpointRevision s"
  "publicationCheckpointRevision (relog d s) = publicationCheckpointRevision s"
  "checkpointRevision (relog d s) = checkpointRevision s"
  "pendingEvent (relog d s) = pendingEvent s"
  "mountedVariants (relog d s) = mountedVariants s"
  "mountFailures (relog d s) = mountFailures s"
  "renderState (relog d s) = renderState s"
  "phase (relog d s) = phase s"
  by (simp_all add: relog_def)

lemma agree_sel:
  assumes "agree s t"
  shows "cancel_part s = cancel_part t" "rev_part s = rev_part t" "pendingEvent s = pendingEvent t"
    "render_part s = render_part t" "phase s = phase t" "generationCanceled s = generationCanceled t"
proof -
  have "relog [] s = relog [] t" using assms by (simp add: agree_def)
  then have "f s = f t" if "\<And>s. f (relog [] s) = f s" for f :: "snapshot \<Rightarrow> 'b" using that by metis
  note eq = this
  show "cancel_part s = cancel_part t" by (rule eq) (simp add: cancel_part_def relog_sel)
  show "rev_part s = rev_part t" by (rule eq) (simp add: rev_part_def relog_sel)
  show "render_part s = render_part t" by (rule eq) (simp add: render_part_def relog_sel)
  show "pendingEvent s = pendingEvent t" by (rule eq) (simp add: relog_sel)
  show "phase s = phase t" by (rule eq) (simp add: relog_sel)
  show "generationCanceled s = generationCanceled t" by (rule eq) (simp add: relog_sel)
qed

lemma agree_fenced: "agree s t \<Longrightarrow> fenced s = fenced t"
  by (auto simp: fenced_def dest: agree_sel(5,6))

lemma agree_late_write: "agree s t \<Longrightarrow> late_write s ev = late_write t ev"
  by (auto simp: late_write_def dest: agree_sel(5,6))

lemma agree_no_token: "agree s t \<Longrightarrow> no_token s = no_token t"
  by (auto simp: no_token_def dest: agree_sel(3))

lemma agree_render_truth: "agree s t \<Longrightarrow> render_truth s = render_truth t"
  using agree_sel(4) render_truth_keep by metis

lemma agree_progress: "agree s t \<Longrightarrow> progress_le s t"
  by (auto dest: agree_sel(1) simp: progress_le_part)

lemma revs_le_trans: "revs_le s t \<Longrightarrow> revs_le t u \<Longrightarrow> revs_le s u"
  by (auto simp: revs_le_def)

lemma agree_revs: "agree s t \<Longrightarrow> int_revs s \<Longrightarrow> revs_le s t"
  by (auto dest: agree_sel(2) simp: revs_le_part)

section \<open>The interface\<close>

locale journal_store =
  fixes view :: "'w \<Rightarrow> string \<Rightarrow> snapshot"
    and append :: "'h \<Rightarrow> string \<Rightarrow> jsval \<Rightarrow> 'w \<Rightarrow> 'w"
    and clk :: "'h \<Rightarrow> clock"
    and entry_of :: "'h \<Rightarrow> string \<Rightarrow> jsval \<Rightarrow> 'w \<Rightarrow> jsval"
    and ok :: "'w \<Rightarrow> bool"
    and takes :: "'h \<Rightarrow> jsval \<Rightarrow> bool"
  assumes append_ok: "ok w \<Longrightarrow> takes h ev \<Longrightarrow> ok (append h i ev w)"
    and entry_of: "takes h ev \<Longrightarrow> entry_event (entry_of h i ev w) = ev"
    and view_append: "ok w \<Longrightarrow> takes h ev \<Longrightarrow>
      agree (view (append h i ev w) i) (apply_event (clk h) (view w i) (entry_of h i ev w))"
    and view_other: "ok w \<Longrightarrow> takes h ev \<Longrightarrow> i' \<noteq> i \<Longrightarrow> agree (view (append h i ev w) i') (view w i')"
begin

abbreviation run :: "('h \<times> string \<times> jsval) list \<Rightarrow> 'w \<Rightarrow> 'w" where
  "run es w \<equiv> fold (\<lambda>(h, i, ev). append h i ev) es w"

abbreviation all_taken :: "('h \<times> string \<times> jsval) list \<Rightarrow> bool" where
  "all_taken es \<equiv> list_all (\<lambda>(h, i, ev). takes h ev) es"

lemma run_ok: "ok w \<Longrightarrow> all_taken es \<Longrightarrow> ok (run es w)"
  by (induction es arbitrary: w) (auto simp: append_ok)

text \<open>A relation every event respects holds between what is seen before and after.\<close>

lemma run_invariant:
  assumes step: "\<And>c s entry. P s \<Longrightarrow> P (apply_event c s entry)"
    and log: "\<And>s t. agree s t \<Longrightarrow> P s \<Longrightarrow> P t"
  shows "ok w \<Longrightarrow> all_taken es \<Longrightarrow> P (view w i) \<Longrightarrow> P (view (run es w) i)"
proof (induction es arbitrary: w)
  case (Cons e es)
  obtain h i' ev where e: "e = (h, i', ev)" by (cases e)
  have "P (view (append h i' ev w) i)"
  proof (cases "i' = i")
    case True
    with Cons.prems e show ?thesis
      using agree_sym [OF view_append [of w h ev i]] step log by auto
  next
    case False
    with Cons.prems e show ?thesis
      using agree_sym [OF view_other [of w h ev i i']] log by auto
  qed
  with Cons e show ?case by (simp add: append_ok)
qed simp

lemma run_progress:
  assumes "ok w" "all_taken es"
  shows "progress_le (view w i) (view (run es w) i)"
proof (rule run_invariant [where P = "progress_le (view w i)"])
  show "progress_le (view w i) (apply_event c s entry)" if "progress_le (view w i) s" for c s entry
    using that progress_apply_event by (rule progress_le_trans)
  show "progress_le (view w i) t" if "agree s t" "progress_le (view w i) s" for s t
    using that(2) agree_progress [OF that(1)] by (rule progress_le_trans)
qed (use assms in \<open>simp_all add: progress_le_refl\<close>)

lemma run_no_token: "ok w \<Longrightarrow> all_taken es \<Longrightarrow> no_token (view w i) \<Longrightarrow> no_token (view (run es w) i)"
  by (rule run_invariant [where P = no_token]) (auto simp: no_token_apply_event agree_no_token)

lemma run_render_truth:
  "ok w \<Longrightarrow> all_taken es \<Longrightarrow> render_truth (view w i) \<Longrightarrow> render_truth (view (run es w) i)"
  by (rule run_invariant [where P = render_truth]) (auto simp: render_truth_apply_event agree_render_truth)

lemma append_late:
  assumes w: "ok w" and ev: "takes h ev" and f: "fenced (view w i)" and l: "late_write (view w i) ev"
  shows "relog [] (view (append h i ev w) i) =
    relog [] (carry_forward (clk h) (entry_of h i ev w) (view w i))"
proof -
  let ?c = "carry_forward (clk h) (entry_of h i ev w) (view w i)"
  have "late_write (view w i) (entry_event (entry_of h i ev w))" using l entry_of [OF ev] by simp
  then obtain d where "apply_event (clk h) (view w i) (entry_of h i ev w) = ?c\<lparr>diagnostics := d\<rparr>"
    using late_write_ignored [OF f] by blast
  then have "relog [] (apply_event (clk h) (view w i) (entry_of h i ev w)) = relog [] ?c"
    by (simp add: relog_def)
  with view_append [OF w ev, of i] show ?thesis by (simp add: agree_def)
qed

end

end
