(* ===== verification/Session_Store.thy ===== *)
theory Session_Store
  imports Store_Interface
begin

text \<open>
  The session store of \<open>live/session-store.mjs\<close>: journals in two directories,
  snapshot files, and each process's in-memory cache of derived state. A
  directory is an association list from session ids to files, a journal is its
  lines (each ends with a newline, so a line of \<open>n\<close> bytes of text adds
  \<open>n + 1\<close> to the size), and the wall clock, the number of bytes of a line's
  text and the modification time of a file written are the \<open>host\<close>. A snapshot
  file that \<open>writeSnapshot\<close> did not write is treated as absent. Safe session
  ids are those of \<open>lib/impeccable-paths.mjs\<close>.
\<close>

section \<open>State\<close>

datatype root = Primary | Legacy

record jfile =
  jf_lines :: "journal_line list"
  jf_mtime :: int

record snapfile =
  sf_snapshot :: snapshot
  sf_bytes :: int
  sf_next :: int

record disk =
  dk_primary :: "(string \<times> jfile) list"
  dk_legacy :: "(string \<times> jfile) list"
  dk_snaps :: "(string \<times> snapfile) list"

record cache_entry =
  ce_snapshot :: snapshot
  ce_next :: int
  ce_root :: root
  ce_size :: int
  ce_mtime :: int

record store =
  st_disk :: disk
  st_derived :: "(string \<times> cache_entry) list"

record host =
  h_clock :: clock
  h_bytes :: "journal_line \<Rightarrow> nat"
  h_mtime :: int

section \<open>Paths and sizes\<close>

definition safe_char :: "char \<Rightarrow> bool" where
  "safe_char c = (let n = of_char c :: nat in
     48 \<le> n \<and> n \<le> 57 \<or> 65 \<le> n \<and> n \<le> 90 \<or> 97 \<le> n \<and> n \<le> 122 \<or> n = 95 \<or> n = 45)"

definition safe_id :: "string \<Rightarrow> bool" where
  "safe_id s = (1 \<le> length s \<and> length s \<le> 128 \<and> list_all safe_char s)"

definition safe_session_id :: "jsval \<Rightarrow> js_error + string" where
  "safe_session_id v = (if is_str v \<and> safe_id (str_of v) then Inr (str_of v)
     else Inl (Thrown (''invalid session id: '' @ js_string v)))"

fun files :: "disk \<Rightarrow> root \<Rightarrow> (string \<times> jfile) list" where
  "files d Primary = dk_primary d"
| "files d Legacy = dk_legacy d"

definition exists_in :: "disk \<Rightarrow> root \<Rightarrow> string \<Rightarrow> bool" where
  "exists_in d r i = (map_of (files d r) i \<noteq> None)"

definition readable_root :: "disk \<Rightarrow> string \<Rightarrow> root" where
  "readable_root d i = (if exists_in d Primary i then Primary
     else if exists_in d Legacy i then Legacy else Primary)"

definition content :: "disk \<Rightarrow> root \<Rightarrow> string \<Rightarrow> journal_line list option" where
  "content d r i = map_option jf_lines (map_of (files d r) i)"

definition journal_size :: "host \<Rightarrow> journal_line list option \<Rightarrow> int" where
  "journal_size h j = (case j of None \<Rightarrow> -1 | Some ls \<Rightarrow> int (sum_list (map (\<lambda>l. Suc (h_bytes h l)) ls)))"

definition journal_mtime :: "disk \<Rightarrow> root \<Rightarrow> string \<Rightarrow> int" where
  "journal_mtime d r i = (case map_of (files d r) i of None \<Rightarrow> -1 | Some f \<Rightarrow> jf_mtime f)"

section \<open>Reading\<close>

definition read_snapshot_file :: "snapfile option \<Rightarrow> string \<Rightarrow> int \<Rightarrow> (snapshot \<times> int) option" where
  "read_snapshot_file f i journalBytes =
    (case f of None \<Rightarrow> None
     | Some f \<Rightarrow> if sf_bytes f \<noteq> journalBytes then None
         else if sn_id (sf_snapshot f) \<noteq> i then None
         else Some (norm_snapshot (sf_snapshot f), sf_next f))"

definition state_now :: "host \<Rightarrow> string \<Rightarrow> disk \<Rightarrow> snapshot \<Rightarrow> int \<Rightarrow> cache_entry" where
  \<comment> \<open>derived state keyed by the journal's path, size and modification time\<close>
  "state_now h i d s n = \<lparr>ce_snapshot = s, ce_next = n, ce_root = readable_root d i,
     ce_size = journal_size h (content d (readable_root d i) i),
     ce_mtime = journal_mtime d (readable_root d i) i\<rparr>"

definition hydrate :: "host \<Rightarrow> bool \<Rightarrow> string \<Rightarrow> disk \<Rightarrow> (snapshot \<times> int) option" where
  "hydrate h allowSnapshotFile i d =
    (let j = content d (readable_root d i) i in
     if allowSnapshotFile \<and> j \<noteq> None
     then read_snapshot_file (map_of (dk_snaps d) i) i (journal_size h j) else None)"

definition derive_now :: "host \<Rightarrow> bool \<Rightarrow> string \<Rightarrow> disk \<Rightarrow> cache_entry" where
  "derive_now h allowSnapshotFile i d =
    (case hydrate h allowSnapshotFile i d of
       Some (s, n) \<Rightarrow> state_now h i d s n
     | None \<Rightarrow> let rebuilt = rebuild (h_clock h) i (content d (readable_root d i) i)
               in state_now h i d (rp_snapshot rebuilt) (rp_next rebuilt))"

definition derive_state :: "host \<Rightarrow> bool \<Rightarrow> string \<Rightarrow> store \<Rightarrow> cache_entry \<times> store" where
  \<comment> \<open>\<open>readState\<close> on an id that names a path\<close>
  "derive_state h allowSnapshotFile i st =
    (let d = st_disk st;
         r = readable_root d i;
         entry = derive_now h allowSnapshotFile i d
     in case map_of (st_derived st) i of
          Some cached \<Rightarrow>
            if ce_root cached = r \<and> ce_size cached = journal_size h (content d r i)
               \<and> ce_mtime cached = journal_mtime d r i
            then (cached, st) else (entry, st\<lparr>st_derived := alset i entry (st_derived st)\<rparr>)
        | None \<Rightarrow> (entry, st\<lparr>st_derived := alset i entry (st_derived st)\<rparr>))"

definition read_state :: "host \<Rightarrow> bool \<Rightarrow> jsval \<Rightarrow> store \<Rightarrow> js_error + (cache_entry \<times> store)" where
  "read_state h allowSnapshotFile v st =
    bindE (safe_session_id v) (\<lambda>i. Inr (derive_state h allowSnapshotFile i st))"

section \<open>Writing\<close>

definition write_snapshot :: "string \<Rightarrow> snapfile \<Rightarrow> disk \<Rightarrow> disk" where
  "write_snapshot i f d = d\<lparr>dk_snaps := alset i f (dk_snaps d)\<rparr>"

definition persist :: "host \<Rightarrow> string \<Rightarrow> snapshot \<Rightarrow> int \<Rightarrow> store \<Rightarrow> store" where
  "persist h i s n st =
    (let d = st_disk st;
         r = readable_root d i;
         size = journal_size h (content d r i)
     in st\<lparr>st_disk := write_snapshot i \<lparr>sf_snapshot = s, sf_bytes = size, sf_next = n\<rparr> d,
           st_derived := alset i (state_now h i d s n) (st_derived st)\<rparr>)"

definition normalize_event :: "jsval \<Rightarrow> jsval \<Rightarrow> js_error + (string \<times> jsval)" where
  "normalize_event event fallbackId =
    (if \<not> truthy event \<or> \<not> is_objty event then Inl (Thrown ''event object required'')
     else let i = js_or (get event ''id'') fallbackId in
       if \<not> truthy i \<or> \<not> is_str i then Inl (Thrown ''event id required'')
       else if \<not> truthy (get event ''type'') \<or> \<not> is_str (get event ''type'')
         then Inl (Thrown ''event type required'')
       else Inr (str_of i, with_props event [(''id'', i)]))"

definition adopt_legacy :: "host \<Rightarrow> string \<Rightarrow> store \<Rightarrow> store" where
  \<comment> \<open>the first append to a session that only the legacy directory has copies its journal\<close>
  "adopt_legacy h i st =
    (case map_of (dk_legacy (st_disk st)) i of
       Some f \<Rightarrow>
         if exists_in (st_disk st) Primary i then st
         else st\<lparr>st_disk := (st_disk st)\<lparr>dk_primary := alset i (f\<lparr>jf_mtime := h_mtime h\<rparr>) (dk_primary (st_disk st))\<rparr>,
                 st_derived := aldel i (st_derived st)\<rparr>
     | None \<Rightarrow> st)"

definition journal_entry :: "host \<Rightarrow> int \<Rightarrow> string \<Rightarrow> jsval \<Rightarrow> jsval" where
  "journal_entry h n i event = JObj
     [(''seq'', jint n), (''id'', JStr i), (''type'', get event ''type''),
      (''ts'', JStr (now_iso (h_clock h))), (''event'', event)]"

definition append_line :: "host \<Rightarrow> string \<Rightarrow> journal_line \<Rightarrow> disk \<Rightarrow> disk" where
  "append_line h i l d = d\<lparr>dk_primary := alset i
     \<lparr>jf_lines = lines_of (content d Primary i) @ [l], jf_mtime = h_mtime h\<rparr> (dk_primary d)\<rparr>"

definition append_begin :: "host \<Rightarrow> string \<Rightarrow> jsval \<Rightarrow> store \<Rightarrow> cache_entry \<times> jsval \<times> store" where
  \<comment> \<open>up to and including \<open>appendFileSync\<close>\<close>
  "append_begin h i event st =
    (let (prior, st') = derive_state h True i (adopt_legacy h i st);
         entry = journal_entry h (ce_next prior) i event
     in (prior, entry, st'\<lparr>st_disk := append_line h i (Line (json_norm entry)) (st_disk st')\<rparr>))"

definition append_end :: "host \<Rightarrow> string \<Rightarrow> cache_entry \<Rightarrow> jsval \<Rightarrow> store \<Rightarrow> snapshot \<times> store" where
  \<comment> \<open>\<open>applyEvent\<close> and \<open>persist\<close>\<close>
  "append_end h i prior entry st =
    (let next = apply_event (h_clock h) (ce_snapshot prior) entry
     in (next, persist h i next (ce_next prior + 1) st))"

definition append_safe :: "host \<Rightarrow> string \<Rightarrow> jsval \<Rightarrow> store \<Rightarrow> snapshot \<times> store" where
  "append_safe h i event st =
    (let (prior, entry, st') = append_begin h i event st in append_end h i prior entry st')"

definition append_event :: "host \<Rightarrow> jsval \<Rightarrow> jsval \<Rightarrow> store \<Rightarrow> js_error + (snapshot \<times> store)" where
  "append_event h sessionId event st =
    bindE (normalize_event event sessionId) (\<lambda>(v, normalized).
    bindE (safe_session_id (JStr v)) (\<lambda>i. Inr (append_safe h i normalized st)))"

section \<open>The other operations\<close>

definition has_session :: "jsval \<Rightarrow> store \<Rightarrow> js_error + bool" where
  \<comment> \<open>\<open>has\<close>\<close>
  "has_session v st =
    (if \<not> truthy v \<or> \<not> is_str v then Inr False
     else bindE (safe_session_id v) (\<lambda>i.
       Inr (exists_in (st_disk st) Primary i \<or> exists_in (st_disk st) Legacy i)))"

definition default_id :: "jsval \<Rightarrow> jsval \<Rightarrow> jsval" where
  \<comment> \<open>the default parameter \<open>id = sessionId\<close>\<close>
  "default_id v sessionId = (if v = JUndef then sessionId else v)"

definition get_snapshot ::
  "host \<Rightarrow> jsval \<Rightarrow> jsval \<Rightarrow> bool \<Rightarrow> store \<Rightarrow> js_error + (snapshot option \<times> store)" where
  "get_snapshot h sessionId v includeCompleted st =
    (if \<not> truthy (default_id v sessionId) then Inl (Thrown ''session id required'')
     else bindE (read_state h True (default_id v sessionId) st) (\<lambda>(c, st').
       Inr (if \<not> includeCompleted \<and> in_vocab (phase (ce_snapshot c)) completed_session_phases
            then None else Some (ce_snapshot c), st')))"

definition flush :: "host \<Rightarrow> jsval \<Rightarrow> jsval \<Rightarrow> store \<Rightarrow> js_error + (snapshot \<times> store)" where
  "flush h sessionId v st =
    (if \<not> truthy (default_id v sessionId) then Inl (Thrown ''session id required'')
     else bindE (safe_session_id (default_id v sessionId)) (\<lambda>i.
       let (c, st') = derive_state h False i st
       in Inr (ce_snapshot c, persist h i (ce_snapshot c) (ce_next c) st')))"

definition session_ids :: "disk \<Rightarrow> string list" where
  "session_ids d = sort (remdups (map fst (dk_legacy d) @ map fst (dk_primary d)))"

fun snapshots_of :: "host \<Rightarrow> jsval \<Rightarrow> string list \<Rightarrow> store \<Rightarrow> js_error + (snapshot list \<times> store)" where
  "snapshots_of h sessionId [] st = Inr ([], st)"
| "snapshots_of h sessionId (i # is) st =
    bindE (get_snapshot h sessionId (JStr i) False st) (\<lambda>(s, st').
    bindE (snapshots_of h sessionId is st') (\<lambda>(ss, st'').
      Inr ((case s of None \<Rightarrow> ss | Some s \<Rightarrow> s # ss), st'')))"

definition list_active_sessions :: "host \<Rightarrow> jsval \<Rightarrow> store \<Rightarrow> js_error + (snapshot list \<times> store)" where
  "list_active_sessions h sessionId st = snapshots_of h sessionId (session_ids (st_disk st)) st"

section \<open>The cache always describes the journal\<close>

text \<open>
  \<open>older j j'\<close>: a journal's contents at an earlier and at a later time. What a
  cache entry or a snapshot file holds describes some older contents of the
  same journal; equal sizes then mean equal contents.
\<close>

definition older :: "journal_line list option \<Rightarrow> journal_line list option \<Rightarrow> bool" where
  "older j j' \<longleftrightarrow> j = None \<or> (\<exists>ls rest. j = Some ls \<and> j' = Some (ls @ rest))"

lemma older_refl [simp, intro]: "older j j"
  by (cases j) (auto simp: older_def)

lemma older_trans: "older j k \<Longrightarrow> older k l \<Longrightarrow> older j l"
  by (auto simp: older_def)

lemma older_append: "older j (Some (lines_of j @ rest))"
  by (cases j) (auto simp: older_def)

lemma journal_size_Some: "0 \<le> journal_size h (Some ls)"
  by (simp add: journal_size_def)

lemma older_same_size:
  assumes "older j j'" and "journal_size h j = journal_size h j'"
  shows "j = j'"
proof (cases "j = None \<or> j' = None")
  case True
  with assms journal_size_Some [of h] show ?thesis
    by (auto simp: older_def) (cases j'; simp add: journal_size_def)
next
  case False
  with assms(1) obtain ls rest where m: "j = Some ls" "j' = Some (ls @ rest)" by (auto simp: older_def)
  with assms(2) have "sum_list (map (\<lambda>l. Suc (h_bytes h l)) rest) = 0" by (simp add: journal_size_def)
  then have "rest = []" by (cases rest) auto
  with m show ?thesis by simp
qed

definition same_host :: "host \<Rightarrow> host \<Rightarrow> bool" where
  "same_host h h' \<longleftrightarrow> h_bytes h' = h_bytes h \<and> date_parse (h_clock h') = date_parse (h_clock h)"

lemma same_host_refl [simp]: "same_host h h"
  by (simp add: same_host_def)

lemma same_host_size: "same_host h h' \<Longrightarrow> journal_size h' j = journal_size h j"
  by (cases j) (simp_all add: same_host_def journal_size_def)

definition describes :: "host \<Rightarrow> string \<Rightarrow> journal_line list option \<Rightarrow> snapshot \<Rightarrow> int \<Rightarrow> bool" where
  "describes h i j s n \<longleftrightarrow> agree s (rp_snapshot (rebuild (h_clock h) i j)) \<and> n = rp_next (rebuild (h_clock h) i j)"

definition good_disk :: "host \<Rightarrow> disk \<Rightarrow> bool" where
  "good_disk h d \<longleftrightarrow> (\<forall>r i. good_journal (h_clock h) (content d r i))"

definition cache_ok :: "host \<Rightarrow> disk \<Rightarrow> string \<Rightarrow> cache_entry \<Rightarrow> bool" where
  "cache_ok h d i c \<longleftrightarrow> (\<exists>j. older j (content d (ce_root c) i) \<and> ce_size c = journal_size h j \<and>
     describes h i j (ce_snapshot c) (ce_next c))"

definition file_ok :: "host \<Rightarrow> disk \<Rightarrow> string \<Rightarrow> snapfile \<Rightarrow> bool" where
  "file_ok h d i f \<longleftrightarrow> (\<exists>j. older j (content d (readable_root d i) i) \<and> sf_bytes f = journal_size h j \<and>
     describes h i j (sf_snapshot f) (sf_next f))"

definition disk_ok :: "host \<Rightarrow> disk \<Rightarrow> bool" where
  "disk_ok h d \<longleftrightarrow> good_disk h d \<and> (\<forall>i f. map_of (dk_snaps d) i = Some f \<longrightarrow> file_ok h d i f)"

definition derived_ok :: "host \<Rightarrow> disk \<Rightarrow> (string \<times> cache_entry) list \<Rightarrow> bool" where
  "derived_ok h d cs \<longleftrightarrow> (\<forall>i c. map_of cs i = Some c \<longrightarrow> cache_ok h d i c)"

definition store_ok :: "host \<Rightarrow> store \<Rightarrow> bool" where
  "store_ok h st \<longleftrightarrow> disk_ok h (st_disk st) \<and> derived_ok h (st_disk st) (st_derived st)"

lemma rebuild_host:
  "same_host h h' \<Longrightarrow> good_disk h d \<Longrightarrow> rebuild (h_clock h') i (content d r i) = rebuild (h_clock h) i (content d r i)"
  by (rule rebuild_clock) (simp_all add: same_host_def good_disk_def)

text \<open>What a journal held before is as well-formed as what it holds now.\<close>

lemma good_older: "older j j' \<Longrightarrow> good_journal clk j' \<Longrightarrow> good_journal clk j"
  by (auto simp: older_def good_journal_def)

lemma describes_clean:
  assumes "describes h i j s n" and "good_journal (h_clock h) j"
  shows "clean_snapshot s"
  using assms rebuild_clean agree_clean agree_sym unfolding describes_def by blast

text \<open>The three ways to answer: from the cache, from the snapshot file, by a replay.\<close>

lemma derive_state_step:
  assumes "derive_state h allow i st = (c, st')"
  obtains (cached) "map_of (st_derived st) i = Some c" "st' = st"
      "ce_root c = readable_root (st_disk st) i"
      "ce_size c = journal_size h (content (st_disk st) (readable_root (st_disk st) i) i)"
    | (snapfile) f where "map_of (dk_snaps (st_disk st)) i = Some f"
      "sf_bytes f = journal_size h (content (st_disk st) (readable_root (st_disk st) i) i)"
      "ce_snapshot c = norm_snapshot (sf_snapshot f)" "ce_next c = sf_next f"
      "ce_root c = readable_root (st_disk st) i"
      "ce_size c = journal_size h (content (st_disk st) (readable_root (st_disk st) i) i)"
      "st' = st\<lparr>st_derived := alset i c (st_derived st)\<rparr>"
    | (replay) "ce_snapshot c = rp_snapshot (rebuild (h_clock h) i (content (st_disk st) (readable_root (st_disk st) i) i))"
      "ce_next c = rp_next (rebuild (h_clock h) i (content (st_disk st) (readable_root (st_disk st) i) i))"
      "ce_root c = readable_root (st_disk st) i"
      "ce_size c = journal_size h (content (st_disk st) (readable_root (st_disk st) i) i)"
      "st' = st\<lparr>st_derived := alset i c (st_derived st)\<rparr>"
proof -
  let ?n = "derive_now h allow i (st_disk st)"
  have root: "ce_root ?n = readable_root (st_disk st) i"
    "ce_size ?n = journal_size h (content (st_disk st) (readable_root (st_disk st) i) i)"
    by (simp_all add: derive_now_def state_now_def Let_def split: option.split)
  define hit where "hit x \<longleftrightarrow> ce_root x = readable_root (st_disk st) i
    \<and> ce_size x = journal_size h (content (st_disk st) (readable_root (st_disk st) i) i)
    \<and> ce_mtime x = journal_mtime (st_disk st) (readable_root (st_disk st) i) i" for x :: cache_entry
  have res: "(case map_of (st_derived st) i of
      Some x \<Rightarrow> if hit x then (x, st) else (?n, st\<lparr>st_derived := alset i ?n (st_derived st)\<rparr>)
    | None \<Rightarrow> (?n, st\<lparr>st_derived := alset i ?n (st_derived st)\<rparr>)) = (c, st')"
    using assms unfolding derive_state_def Let_def hit_def .
  show thesis
  proof (cases "\<exists>x. map_of (st_derived st) i = Some x \<and> hit x")
    case True
    then obtain x where x: "map_of (st_derived st) i = Some x" "hit x" by blast
    with res have "x = c" "st = st'" by simp_all
    with x show thesis by (intro cached) (simp_all add: hit_def)
  next
    case False
    with res have 2: "c = ?n" "st' = st\<lparr>st_derived := alset i c (st_derived st)\<rparr>"
      by (cases "map_of (st_derived st) i"; simp)+
    show thesis
    proof (cases "hydrate h allow i (st_disk st)")
      case None
      with 2 root show thesis by (intro replay) (simp_all add: derive_now_def state_now_def Let_def)
    next
      case (Some p)
      then obtain f where "map_of (dk_snaps (st_disk st)) i = Some f"
        "sf_bytes f = journal_size h (content (st_disk st) (readable_root (st_disk st) i) i)"
        "p = (norm_snapshot (sf_snapshot f), sf_next f)"
        by (auto simp: hydrate_def Let_def read_snapshot_file_def split: option.splits if_splits)
      with 2 Some root show thesis by (intro snapfile [of f]) (simp_all add: derive_now_def state_now_def)
    qed
  qed
qed

text \<open>Reading answers for the journal as it is, and caches that answer.\<close>

lemma derive_state_correct:
  assumes ok: "store_ok h st" and h: "same_host h h'" and res: "derive_state h' allow i st = (c, st')"
  shows "st_disk st' = st_disk st"
    and "ce_root c = readable_root (st_disk st) i"
    and "ce_size c = journal_size h (content (st_disk st) (readable_root (st_disk st) i) i)"
    and "describes h i (content (st_disk st) (readable_root (st_disk st) i) i) (ce_snapshot c) (ce_next c)"
    and "map_of (st_derived st') = (map_of (st_derived st))(i \<mapsto> c)"
proof -
  let ?d = "st_disk st"
  let ?r = "readable_root ?d i"
  let ?j = "content ?d ?r i"
  let ?size = "journal_size h' ?j"
  have size: "?size = journal_size h ?j" using h by (rule same_host_size)
  have good: "good_disk h ?d" using ok by (simp add: store_ok_def disk_ok_def)
  consider (cached) "map_of (st_derived st) i = Some c" "st' = st" "ce_root c = ?r" "ce_size c = ?size"
    | (snapfile) f where "map_of (dk_snaps ?d) i = Some f" "sf_bytes f = ?size"
        "ce_snapshot c = norm_snapshot (sf_snapshot f)" "ce_next c = sf_next f"
        "ce_root c = ?r" "ce_size c = ?size" "st' = st\<lparr>st_derived := alset i c (st_derived st)\<rparr>"
    | (replay) "ce_snapshot c = rp_snapshot (rebuild (h_clock h') i ?j)"
        "ce_next c = rp_next (rebuild (h_clock h') i ?j)"
        "ce_root c = ?r" "ce_size c = ?size" "st' = st\<lparr>st_derived := alset i c (st_derived st)\<rparr>"
    using res by (rule derive_state_step)
  note step = this
  have desc: "describes h i ?j (ce_snapshot c) (ce_next c)"
    using step
  proof cases
    case cached
    then have "cache_ok h ?d i c" using ok by (simp add: store_ok_def derived_ok_def)
    then obtain j where "older j (content ?d (ce_root c) i)" "ce_size c = journal_size h j"
      "describes h i j (ce_snapshot c) (ce_next c)"
      unfolding cache_ok_def by blast
    with cached size older_same_size [of j ?j h] show ?thesis by simp
  next
    case snapfile
    then have "file_ok h ?d i f" using ok by (simp add: store_ok_def disk_ok_def)
    then obtain j where j: "older j ?j" "sf_bytes f = journal_size h j"
      "describes h i j (sf_snapshot f) (sf_next f)"
      unfolding file_ok_def by blast
    with snapfile size have "j = ?j" by (intro older_same_size [of j ?j h]) simp_all
    moreover have "clean_snapshot (sf_snapshot f)"
      using j good by (auto simp: good_disk_def intro: describes_clean good_older)
    ultimately show ?thesis using snapfile j by (simp add: norm_clean_snapshot)
  next
    case replay
    then show ?thesis using rebuild_host [OF h good] by (simp add: describes_def)
  qed
  show "st_disk st' = ?d" "ce_root c = ?r" "ce_size c = journal_size h ?j"
    using step size by (cases; simp)+
  show "describes h i ?j (ce_snapshot c) (ce_next c)" by (rule desc)
  show "map_of (st_derived st') = (map_of (st_derived st))(i \<mapsto> c)"
    using step by cases (simp_all add: fun_upd_idem)
qed

section \<open>Every operation keeps the store correct\<close>

definition journal_of :: "disk \<Rightarrow> string \<Rightarrow> journal_line list option" where
  "journal_of d i = content d (readable_root d i) i"

definition grows :: "disk \<Rightarrow> disk \<Rightarrow> bool" where
  "grows d d' \<longleftrightarrow> (\<forall>r i. older (content d r i) (content d' r i))"

lemma grows_refl [simp]: "grows d d"
  by (simp add: grows_def)

lemma grows_trans: "grows d d' \<Longrightarrow> grows d' d'' \<Longrightarrow> grows d d''"
  unfolding grows_def using older_trans by blast

lemma cache_ok_grows: "grows d d' \<Longrightarrow> cache_ok h d i c \<Longrightarrow> cache_ok h d' i c"
  unfolding grows_def cache_ok_def using older_trans by blast

lemma derived_ok_grows: "grows d d' \<Longrightarrow> derived_ok h d cs \<Longrightarrow> derived_ok h d' cs"
  unfolding derived_ok_def using cache_ok_grows by blast

lemma write_snapshot_simps [simp]:
  "content (write_snapshot i f d) r i' = content d r i'"
  "readable_root (write_snapshot i f d) i' = readable_root d i'"
  "exists_in (write_snapshot i f d) r i' = exists_in d r i'"
  "journal_of (write_snapshot i f d) i' = journal_of d i'"
  by (cases r; simp add: content_def readable_root_def exists_in_def write_snapshot_def journal_of_def)+

lemma grows_write_snapshot [simp]: "grows d (write_snapshot i f d)"
  by (simp add: grows_def)

lemma cache_ok_now:
  "describes h i (journal_of d i) s n \<Longrightarrow> same_host h h' \<Longrightarrow> cache_ok h d i (state_now h' i d s n)"
  unfolding cache_ok_def state_now_def journal_of_def using same_host_size by auto

lemma derive_state_ok:
  assumes "store_ok h st" "same_host h h'" "derive_state h' allow i st = (c, st')"
  shows "store_ok h st'"
proof -
  note d = derive_state_correct [OF assms]
  have "cache_ok h (st_disk st) i c"
    using d(2-4) unfolding cache_ok_def by auto
  then show ?thesis
    using assms(1) d(1,5) by (auto simp: store_ok_def derived_ok_def)
qed

lemma persist_ok:
  assumes ok: "store_ok h st" and h: "same_host h h'" and desc: "describes h i (journal_of (st_disk st) i) s n"
  shows "store_ok h (persist h' i s n st)" "journal_of (st_disk (persist h' i s n st)) i' = journal_of (st_disk st) i'"
    "grows (st_disk st) (st_disk (persist h' i s n st))"
proof -
  let ?d = "st_disk st"
  let ?f = "\<lparr>sf_snapshot = s, sf_bytes = journal_size h' (journal_of ?d i), sf_next = n\<rparr>"
  let ?c = "state_now h' i ?d s n"
  have p: "persist h' i s n st = st\<lparr>st_disk := write_snapshot i ?f ?d, st_derived := alset i ?c (st_derived st)\<rparr>"
    by (simp add: persist_def Let_def journal_of_def)
  have keep: "file_ok h (write_snapshot i ?f ?d) i' f = file_ok h ?d i' f"
    "cache_ok h (write_snapshot i ?f ?d) i' c = cache_ok h ?d i' c" for i' f c
    by (simp_all add: file_ok_def cache_ok_def)
  have "file_ok h ?d i ?f"
    using desc same_host_size [OF h] by (auto simp: file_ok_def journal_of_def)
  moreover have "map_of (dk_snaps (write_snapshot i ?f ?d)) = (map_of (dk_snaps ?d))(i \<mapsto> ?f)"
    by (simp add: write_snapshot_def)
  moreover have "good_disk h (write_snapshot i ?f ?d) = good_disk h ?d"
    by (simp add: good_disk_def)
  ultimately have "disk_ok h (write_snapshot i ?f ?d)"
    using ok unfolding store_ok_def disk_ok_def keep by simp
  moreover have "cache_ok h ?d i ?c" using desc h by (rule cache_ok_now)
  then have "derived_ok h (write_snapshot i ?f ?d) (alset i ?c (st_derived st))"
    using ok unfolding store_ok_def derived_ok_def keep by auto
  ultimately show "store_ok h (persist h' i s n st)" by (simp add: p store_ok_def)
  show "journal_of (st_disk (persist h' i s n st)) i' = journal_of ?d i'"
    "grows ?d (st_disk (persist h' i s n st))" by (simp_all add: p)
qed

text \<open>
  A change of the primary directory that only extends the readable journals keeps
  the store correct.
\<close>

lemma disk_ok_extend:
  assumes ok: "disk_ok h d" and snaps: "dk_snaps d' = dk_snaps d" and good: "good_disk h d'"
    and ext: "\<And>i. older (journal_of d i) (journal_of d' i)"
  shows "disk_ok h d'"
proof -
  have "file_ok h d' i f" if "file_ok h d i f" for i f
    using that ext [of i] older_trans unfolding file_ok_def journal_of_def by blast
  then show ?thesis using ok good snaps by (simp add: disk_ok_def)
qed

lemma content_primary: "content d Primary i = map_option jf_lines (map_of (dk_primary d) i)"
  "content d Legacy i = map_option jf_lines (map_of (dk_legacy d) i)"
  by (simp_all add: content_def)

lemma exists_content: "exists_in d r i \<longleftrightarrow> content d r i \<noteq> None"
  by (simp add: exists_in_def content_def)

lemma journal_of_cases: "journal_of d i =
    (if content d Primary i \<noteq> None then content d Primary i
     else content d Legacy i)"
  by (simp add: journal_of_def readable_root_def exists_content)

definition put_primary :: "string \<Rightarrow> jfile \<Rightarrow> disk \<Rightarrow> disk" where
  "put_primary i f d = d\<lparr>dk_primary := alset i f (dk_primary d)\<rparr>"

lemma put_primary_simps [simp]:
  "content (put_primary i f d) Primary i' = (if i = i' then Some (jf_lines f) else content d Primary i')"
  "content (put_primary i f d) Legacy i' = content d Legacy i'"
  "dk_snaps (put_primary i f d) = dk_snaps d"
  "journal_of (put_primary i f d) i' = (if i = i' then Some (jf_lines f) else journal_of d i')"
  by (simp_all add: put_primary_def content_primary journal_of_cases)

lemma put_primary_ok:
  assumes ok: "disk_ok h d" and ext: "older (journal_of d i) (Some (jf_lines f))"
    and good: "good_journal (h_clock h) (Some (jf_lines f))"
    and prim: "older (content d Primary i) (Some (jf_lines f))"
  shows "disk_ok h (put_primary i f d)" "grows d (put_primary i f d)"
proof -
  have "good_journal (h_clock h) (content (put_primary i f d) r i')" for r i'
    using ok good by (cases r) (auto simp: disk_ok_def good_disk_def)
  then have "good_disk h (put_primary i f d)" unfolding good_disk_def by blast
  then show "disk_ok h (put_primary i f d)"
    using ext by (intro disk_ok_extend [OF ok]) auto
  have "older (content d r i') (content (put_primary i f d) r i')" for r i'
    using prim by (cases r) auto
  then show "grows d (put_primary i f d)" by (simp add: grows_def)
qed

lemma adopt_legacy_ok:
  assumes ok: "store_ok h st" and res: "st' = adopt_legacy h' i st"
  shows "store_ok h st'" "grows (st_disk st) (st_disk st')"
    "journal_of (st_disk st') i' = journal_of (st_disk st) i'"
    "readable_root (st_disk st') i = Primary"
proof -
  let ?d = "st_disk st"
  have disk: "disk_ok h ?d" using ok by (simp add: store_ok_def)
  have "store_ok h st' \<and> grows ?d (st_disk st') \<and> (\<forall>i'. journal_of (st_disk st') i' = journal_of ?d i') \<and>
    readable_root (st_disk st') i = Primary"
  proof (cases "map_of (dk_legacy ?d) i")
    case None
    then have "st' = st" using res by (simp add: adopt_legacy_def)
    moreover have "readable_root ?d i = Primary"
      using None by (simp add: readable_root_def exists_in_def)
    ultimately show ?thesis using ok by simp
  next
    case (Some f)
    show ?thesis
    proof (cases "exists_in ?d Primary i")
      case True
      with Some res ok show ?thesis by (simp add: adopt_legacy_def readable_root_def)
    next
      case False
      let ?f = "f\<lparr>jf_mtime := h_mtime h'\<rparr>"
      have st': "st' = st\<lparr>st_disk := put_primary i ?f ?d, st_derived := aldel i (st_derived st)\<rparr>"
        using False Some res by (simp add: adopt_legacy_def put_primary_def)
      have c: "content ?d Primary i = None" "content ?d Legacy i = Some (jf_lines f)"
        using False Some by (simp_all add: exists_content content_primary)
      then have j: "journal_of ?d i = Some (jf_lines f)" by (simp add: journal_of_cases)
      have good: "good_journal (h_clock h) (content ?d Legacy i)"
        using disk by (simp add: disk_ok_def good_disk_def)
      have p: "disk_ok h (put_primary i ?f ?d)" "grows ?d (put_primary i ?f ?d)"
        using put_primary_ok [OF disk, of i ?f] good c j by (simp_all add: older_def)
      have "derived_ok h (put_primary i ?f ?d) (st_derived st)"
        using derived_ok_grows [OF p(2)] ok by (simp add: store_ok_def)
      then have "derived_ok h (put_primary i ?f ?d) (aldel i (st_derived st))"
        by (simp add: derived_ok_def)
      moreover have "readable_root (put_primary i ?f ?d) i = Primary"
        by (simp add: readable_root_def exists_content)
      moreover have "journal_of (put_primary i ?f ?d) i' = journal_of ?d i'" for i'
        using j by auto
      ultimately show ?thesis using p by (simp add: st' store_ok_def)
    qed
  qed
  then show "store_ok h st'" "grows ?d (st_disk st')"
    "journal_of (st_disk st') i' = journal_of ?d i'" "readable_root (st_disk st') i = Primary"
    by blast+
qed

text \<open>The events and clocks a journal entry can be made of.\<close>

definition good_clock :: "clock \<Rightarrow> bool" where
  \<comment> \<open>\<open>Date.parse\<close> reads what \<open>toISOString\<close> prints, and the time is not the epoch\<close>
  "good_clock clk \<longleftrightarrow> now_iso clk \<noteq> [] \<and> (\<exists>q. date_parse clk (JStr (now_iso clk)) = Some q \<and> q \<noteq> 0)"

definition sound_event :: "jsval \<Rightarrow> bool" where
  "sound_event event \<longleftrightarrow> good_event event \<and> truthy event \<and> is_objty event"

lemma journal_entry_simps [simp]:
  "truthy (journal_entry h n i event)" "is_objty (journal_entry h n i event)"
  "get (journal_entry h n i event) ''seq'' = jint n"
  "truthy event \<Longrightarrow> entry_event (journal_entry h n i event) = event"
  by (simp_all add: journal_entry_def entry_event_def)

lemma journal_entry_good:
  assumes "same_host h h'" "good_clock (h_clock h')" "sound_event event"
  shows "good_entry (h_clock h) (journal_entry h' n i event)" "json_clean (journal_entry h' n i event)"
proof -
  have "json_clean event" "is_str (get event ''type'')"
    using assms(3) by (simp_all add: sound_event_def good_event_def)
  then show c: "json_clean (journal_entry h' n i event)"
    by (cases "get event ''type''") (auto simp: journal_entry_def)
  have ts: "get (journal_entry h' n i event) ''ts'' = JStr (now_iso (h_clock h'))"
    by (simp add: journal_entry_def)
  have "dated (h_clock h) (journal_entry h' n i event)"
    using assms(1,2) by (simp add: dated_def ts good_clock_def same_host_def)
  with c assms(3) show "good_entry (h_clock h) (journal_entry h' n i event)"
    by (simp add: good_entry_def sound_event_def)
qed

text \<open>Appending an event to a session.\<close>

lemma describes_line:
  assumes desc: "describes h i j s n" and h: "same_host h h'" and clk: "good_clock (h_clock h')"
    and ev: "sound_event event" and entry: "entry = journal_entry h' n i event"
  shows "describes h i (Some (lines_of j @ [Line entry])) (apply_event (h_clock h') s entry) (n + 1)"
proof -
  let ?clk = "h_clock h"
  let ?b = "rebuild ?clk i (Some (lines_of j))"
  have b: "rp_snapshot ?b = rp_snapshot (rebuild ?clk i j)" "rp_next ?b = rp_next (rebuild ?clk i j)"
    by (cases j; simp)+
  have e: "truthy entry" "is_objty entry" "get entry ''seq'' = jint n" by (simp_all add: entry)
  have "dated ?clk entry"
    using journal_entry_good(1) [OF h clk ev] by (simp add: entry good_entry_def)
  then have "apply_event (h_clock h') s entry = apply_event ?clk s entry"
    using h by (intro apply_event_clock) (simp_all add: same_host_def)
  moreover have "agree s (rp_snapshot ?b)" using desc by (simp add: describes_def b)
  then have "agree (apply_event ?clk s entry)
      (rp_snapshot (rebuild ?clk i (Some (lines_of j @ [Line entry]))))"
    by (rule agree_trans [OF agree_apply_event agree_sym [OF rebuild_line(1) [OF e(1,2)]]])
  moreover have "rp_next (rebuild ?clk i (Some (lines_of j @ [Line entry]))) = n + 1"
    using rebuild_line(2) [OF e(1,2), of ?clk i "lines_of j"] desc by (simp add: e b describes_def)
  ultimately show ?thesis by (simp add: describes_def)
qed

lemma append_safe_ok:
  assumes ok: "store_ok h st" and h: "same_host h h'" and clk: "good_clock (h_clock h')"
    and ev: "sound_event event" and res: "append_safe h' i event st = (s, st')"
  shows "store_ok h st'" and "grows (st_disk st) (st_disk st')"
    and "journal_of (st_disk st') i = Some (lines_of (journal_of (st_disk st) i) @
      [Line (journal_entry h' (rp_next (rebuild (h_clock h) i (journal_of (st_disk st) i))) i event)])"
    and "describes h i (journal_of (st_disk st') i) s
      (rp_next (rebuild (h_clock h) i (journal_of (st_disk st) i)) + 1)"
    and "i' \<noteq> i \<Longrightarrow> journal_of (st_disk st') i' = journal_of (st_disk st) i'"
proof -
  let ?st1 = "adopt_legacy h' i st"
  obtain prior st2 where d: "derive_state h' True i ?st1 = (prior, st2)" by (cases "derive_state h' True i ?st1")
  note a = adopt_legacy_ok [OF ok refl, of h' i]
  note c = derive_state_correct [OF a(1) h d]
  let ?j = "journal_of (st_disk st) i"
  have j2: "journal_of (st_disk st2) x = journal_of (st_disk st) x" for x using a(3) c(1) by simp
  have desc: "describes h i ?j (ce_snapshot prior) (ce_next prior)"
    using c(4) a(3) [of i] by (simp add: journal_of_def)
  define n where "n = rp_next (rebuild (h_clock h) i ?j)"
  have n: "ce_next prior = n" using desc by (simp add: describes_def n_def)
  define entry where "entry = journal_entry h' n i event"
  have clean: "json_norm entry = entry"
    using journal_entry_good(2) [OF h clk ev] by (simp add: entry_def json_norm_clean)
  let ?ls = "lines_of ?j @ [Line entry]"
  have prim: "content (st_disk st2) Primary i = ?j"
    using a(3) [of i] a(4) c(1) by (simp add: journal_of_def)
  define f where "f = \<lparr>jf_lines = ?ls, jf_mtime = h_mtime h'\<rparr>"
  have app: "append_line h' i (Line entry) (st_disk st2) = put_primary i f (st_disk st2)"
    by (simp add: append_line_def put_primary_def f_def prim)
  let ?st3 = "st2\<lparr>st_disk := put_primary i f (st_disk st2)\<rparr>"
  let ?s = "apply_event (h_clock h') (ce_snapshot prior) entry"
  have "append_safe h' i event st = (?s, persist h' i ?s (n + 1) ?st3)"
    by (simp add: append_safe_def append_begin_def append_end_def d n entry_def [symmetric] clean app Let_def)
  then have res': "s = ?s" "st' = persist h' i ?s (n + 1) ?st3" using res by (metis prod.inject)+
  have ok2: "store_ok h st2" using derive_state_ok [OF a(1) h d] .
  have g: "good_journal (h_clock h) (Some ?ls)"
  proof -
    have "good_journal (h_clock h) ?j"
      using ok by (simp add: store_ok_def disk_ok_def good_disk_def journal_of_def)
    then show ?thesis using journal_entry_good(1) [OF h clk ev, of n i]
      by (simp add: good_journal_def entry_def)
  qed
  have put: "disk_ok h (put_primary i f (st_disk st2))" "grows (st_disk st2) (put_primary i f (st_disk st2))"
    using put_primary_ok [of h "st_disk st2" i f] ok2 g older_append [of ?j "[Line entry]"]
    by (simp_all add: store_ok_def f_def j2 prim)
  have ok3: "store_ok h ?st3"
    using put ok2 derived_ok_grows [OF put(2)] by (simp add: store_ok_def)
  have j3: "journal_of (st_disk ?st3) i = Some ?ls" by (simp add: f_def)
  have desc3: "describes h i (journal_of (st_disk ?st3) i) ?s (n + 1)"
    unfolding j3 using describes_line [OF desc h clk ev] n by (simp add: entry_def)
  note p = persist_ok [OF ok3 h desc3]
  show "store_ok h st'" using p(1) res' by simp
  show "grows (st_disk st) (st_disk st')"
    using grows_trans [OF a(2) grows_trans [of "st_disk ?st1" "st_disk ?st3"]] put(2) p(3) res' c(1) by simp
  show "journal_of (st_disk st') i = Some (lines_of ?j @ [Line (journal_entry h' n i event)])"
    using p(2) [of i] res' by (simp add: f_def entry_def)
  show "describes h i (journal_of (st_disk st') i) s (n + 1)"
    using p(2) [of i] res' desc3 by simp
  show "i' \<noteq> i \<Longrightarrow> journal_of (st_disk st') i' = journal_of (st_disk st) i'"
    using p(2) [of i'] res' j2 [of i'] by simp
qed

section \<open>What a reader sees\<close>

definition stored_view :: "host \<Rightarrow> store \<Rightarrow> string \<Rightarrow> snapshot" where
  "stored_view h st i = ce_snapshot (fst (derive_state h True i st))"

definition stored_next :: "host \<Rightarrow> store \<Rightarrow> string \<Rightarrow> int" where
  "stored_next h st i = rp_next (rebuild (h_clock h) i (journal_of (st_disk st) i))"

definition takes_event :: "host \<Rightarrow> host \<Rightarrow> jsval \<Rightarrow> bool" where
  "takes_event h h' event \<longleftrightarrow> same_host h h' \<and> good_clock (h_clock h') \<and> sound_event event"

lemma stored_view_replay:
  assumes "store_ok h st"
  shows "agree (stored_view h st i) (rp_snapshot (rebuild (h_clock h) i (journal_of (st_disk st) i)))"
proof -
  obtain c st' where d: "derive_state h True i st = (c, st')" by (cases "derive_state h True i st")
  show ?thesis
    using derive_state_correct(4) [OF assms same_host_refl d] d
    by (simp add: stored_view_def describes_def journal_of_def)
qed

interpretation live_store: journal_store "stored_view h" "\<lambda>h' i ev st. snd (append_safe h' i ev st)" h_clock
  "\<lambda>h' i ev st. journal_entry h' (stored_next h st i) i ev" "store_ok h" "takes_event h"
  for h :: host
proof
  fix st h' ev i i'
  assume ok: "store_ok h st" and t: "takes_event h h' ev"
  obtain s st' where a: "append_safe h' i ev st = (s, st')" by (cases "append_safe h' i ev st")
  from t have h: "same_host h h'" "good_clock (h_clock h')" "sound_event ev" by (simp_all add: takes_event_def)
  note app = append_safe_ok [OF ok h a]
  show ok': "store_ok h (snd (append_safe h' i ev st))" using app(1) a by simp
  let ?e = "journal_entry h' (stored_next h st i) i ev"
  have "describes h i (Some (lines_of (journal_of (st_disk st) i) @ [Line ?e]))
      (apply_event (h_clock h') (stored_view h st i) ?e) (stored_next h st i + 1)"
    using stored_view_replay [OF ok, of i] h
    by (intro describes_line) (simp_all add: describes_def stored_next_def)
  then have "agree (apply_event (h_clock h') (stored_view h st i) ?e)
      (rp_snapshot (rebuild (h_clock h) i (journal_of (st_disk st') i)))"
    using app(3) by (simp add: describes_def stored_next_def)
  moreover have "agree (stored_view h st' i') (rp_snapshot (rebuild (h_clock h) i' (journal_of (st_disk st') i')))" for i'
    using app(1) by (rule stored_view_replay)
  ultimately show "agree (stored_view h (snd (append_safe h' i ev st)) i)
      (apply_event (h_clock h') (stored_view h st i) ?e)"
    using a agree_trans agree_sym by (metis snd_conv)
  show "i' \<noteq> i \<Longrightarrow> agree (stored_view h (snd (append_safe h' i ev st)) i') (stored_view h st i')"
    using stored_view_replay [OF ok, of i'] stored_view_replay [OF app(1), of i'] app(5) [of i'] a
      agree_trans agree_sym by (metis snd_conv)
qed (simp add: takes_event_def sound_event_def)

section \<open>Several processes\<close>

text \<open>
  The server, the poller, the publish and complete helpers each hold a store of
  their own over the same directories; \<open>cs p\<close> is the cache of process \<open>p\<close>. Each
  operation runs to its end before another starts.
\<close>

definition sound_append :: "jsval \<Rightarrow> jsval \<Rightarrow> bool" where
  "sound_append event sessionId =
    (case normalize_event event sessionId of Inl _ \<Rightarrow> True | Inr (i, normalized) \<Rightarrow> sound_event normalized)"

inductive store_run :: "host \<Rightarrow> disk \<Rightarrow> (nat \<Rightarrow> (string \<times> cache_entry) list) \<Rightarrow> bool" for h where
  start_up: "good_disk h d \<Longrightarrow> dk_snaps d = [] \<Longrightarrow> store_run h d (\<lambda>p. [])"
| append: "store_run h d cs \<Longrightarrow> same_host h h' \<Longrightarrow> good_clock (h_clock h') \<Longrightarrow> sound_append event sid \<Longrightarrow>
    append_event h' sid event \<lparr>st_disk = d, st_derived = cs p\<rparr> = Inr (s, st') \<Longrightarrow>
    store_run h (st_disk st') (cs(p := st_derived st'))"
| read: "store_run h d cs \<Longrightarrow> same_host h h' \<Longrightarrow>
    get_snapshot h' sid v inc \<lparr>st_disk = d, st_derived = cs p\<rparr> = Inr (r, st') \<Longrightarrow>
    store_run h (st_disk st') (cs(p := st_derived st'))"
| flush_file: "store_run h d cs \<Longrightarrow> same_host h h' \<Longrightarrow>
    flush h' sid v \<lparr>st_disk = d, st_derived = cs p\<rparr> = Inr (s, st') \<Longrightarrow>
    store_run h (st_disk st') (cs(p := st_derived st'))"
| restart: "store_run h d cs \<Longrightarrow> store_run h d (cs(p := []))"
| lose_snapshot: "store_run h d cs \<Longrightarrow> store_run h (d\<lparr>dk_snaps := aldel i (dk_snaps d)\<rparr>) cs"

definition system_ok :: "host \<Rightarrow> disk \<Rightarrow> (nat \<Rightarrow> (string \<times> cache_entry) list) \<Rightarrow> bool" where
  "system_ok h d cs \<longleftrightarrow> (\<forall>p. store_ok h \<lparr>st_disk = d, st_derived = cs p\<rparr>)"

lemma system_ok_step:
  assumes "system_ok h d cs" "store_ok h st'" "grows d (st_disk st')"
  shows "system_ok h (st_disk st') (cs(p := st_derived st'))"
  using assms derived_ok_grows [OF assms(3)] by (auto simp: system_ok_def store_ok_def)

lemma append_event_Inr:
  assumes "append_event h sid event st = Inr (s, st')"
  obtains i normalized where "normalize_event event sid = Inr (i, normalized)" "append_safe h i normalized st = (s, st')"
    "safe_id i"
  using assms by (auto simp: append_event_def bindE_Inr_iff safe_session_id_def split: if_splits)

lemma read_state_Inr:
  "read_state h allow v st = Inr (c, st') \<longleftrightarrow>
     (\<exists>i. v = JStr i \<and> safe_id i \<and> derive_state h allow i st = (c, st'))"
  by (cases v) (auto simp: read_state_def bindE_Inr_iff safe_session_id_def)

lemma flush_Inr:
  assumes "flush h sid v st = Inr (s, st')"
  obtains i c st2 where "derive_state h False i st = (c, st2)" "st' = persist h i (ce_snapshot c) (ce_next c) st2"
proof -
  from assms obtain i where i: "(let (c, st') = derive_state h False i st
      in Inr (ce_snapshot c, persist h i (ce_snapshot c) (ce_next c) st')) = (Inr (s, st') :: js_error + _)"
    by (auto simp: flush_def bindE_Inr_iff split: if_splits)
  obtain c st2 where d: "derive_state h False i st = (c, st2)" by (cases "derive_state h False i st")
  with i have "st' = persist h i (ce_snapshot c) (ce_next c) st2" by auto
  with d show thesis by (rule that)
qed

lemma system_ok_run: "store_run h d cs \<Longrightarrow> system_ok h d cs"
proof (induction rule: store_run.induct)
  case (start_up d)
  then show ?case by (simp add: system_ok_def store_ok_def disk_ok_def derived_ok_def)
next
  case (append d cs h' event sid p s st')
  from append.hyps(5) obtain i ev where e: "normalize_event event sid = Inr (i, ev)"
    "append_safe h' i ev \<lparr>st_disk = d, st_derived = cs p\<rparr> = (s, st')" by (rule append_event_Inr)
  with append have "sound_event ev" by (simp add: sound_append_def)
  with append e have "store_ok h st'" "grows d (st_disk st')"
    using append_safe_ok(1,2) [of h "\<lparr>st_disk = d, st_derived = cs p\<rparr>" h' ev i s st'] by (auto simp: system_ok_def)
  with append.IH show ?case by (rule system_ok_step)
next
  case (read d cs h' sid v inc p r st')
  then obtain c i where c: "derive_state h' True i \<lparr>st_disk = d, st_derived = cs p\<rparr> = (c, st')"
    by (auto simp: get_snapshot_def bindE_Inr_iff read_state_Inr split: if_splits)
  have ok: "store_ok h \<lparr>st_disk = d, st_derived = cs p\<rparr>" using read.IH by (simp add: system_ok_def)
  have "store_ok h st'" "grows d (st_disk st')"
    using derive_state_ok [OF ok read.hyps(2) c] derive_state_correct(1) [OF ok read.hyps(2) c] by simp_all
  with read.IH show ?case by (rule system_ok_step)
next
  case (flush_file d cs h' sid v p s st')
  from flush_file.hyps(3) obtain i c st2 where d: "derive_state h' False i \<lparr>st_disk = d, st_derived = cs p\<rparr> = (c, st2)"
    "st' = persist h' i (ce_snapshot c) (ce_next c) st2" by (rule flush_Inr)
  have ok: "store_ok h \<lparr>st_disk = d, st_derived = cs p\<rparr>" using flush_file.IH by (simp add: system_ok_def)
  note c = derive_state_correct [OF ok flush_file.hyps(2) d(1)]
  have "store_ok h st2" using ok flush_file.hyps(2) d(1) by (rule derive_state_ok)
  moreover have "describes h i (journal_of (st_disk st2) i) (ce_snapshot c) (ce_next c)"
    using c(1,4) by (simp add: journal_of_def)
  ultimately have "store_ok h st'" "grows d (st_disk st')"
    using persist_ok [of h st2 h'] flush_file.hyps(2) c(1) d(2) by simp_all
  with flush_file.IH show ?case by (rule system_ok_step)
next
  case (restart d cs p)
  then show ?case by (simp add: system_ok_def store_ok_def derived_ok_def)
next
  case (lose_snapshot d cs i)
  let ?d = "d\<lparr>dk_snaps := aldel i (dk_snaps d)\<rparr>"
  have c: "content ?d r i' = content d r i'" for r i' by (cases r) (simp_all add: content_def)
  then have r: "readable_root ?d i' = readable_root d i'" for i' by (simp add: readable_root_def exists_content)
  have "cache_ok h ?d i' e = cache_ok h d i' e" "file_ok h ?d i' f = file_ok h d i' f" "good_disk h ?d = good_disk h d" for i' e f
    by (simp_all add: cache_ok_def file_ok_def good_disk_def c r)
  with lose_snapshot show ?case by (simp add: system_ok_def store_ok_def disk_ok_def derived_ok_def)
qed

section \<open>Properties\<close>

definition sample_clock :: clock where
  "sample_clock = \<lparr>now_ms = 1000, now_iso = ''2026-01-01T00:00:00.000Z'', date_parse = (\<lambda>v. Some 1)\<rparr>"

definition sample_host :: host where
  "sample_host = \<lparr>h_clock = sample_clock, h_bytes = (\<lambda>l. 40), h_mtime = 7\<rparr>"

definition sample_event :: "string \<Rightarrow> props \<Rightarrow> jsval" where
  "sample_event t ps = JObj ((''type'', JStr t) # (''id'', JStr ''a1b2c3d4'') # ps)"

definition sample_store :: store where
  "sample_store = \<lparr>st_disk = \<lparr>dk_primary = [], dk_legacy = [], dk_snaps = []\<rparr>, st_derived = []\<rparr>"

lemma sample_store_ok: "store_ok sample_host sample_store"
  by (simp add: sample_store_def store_ok_def disk_ok_def good_disk_def derived_ok_def good_journal_def)
    (intro allI, rename_tac r i, case_tac r, simp_all add: content_def)



text \<open>
  C13. An append applies exactly one event: the session's journal is what it was
  plus one line, whose sequence number is the next one after the journal's; what
  \<open>appendEvent\<close> returns is the replay of the extended journal; no other
  session's journal changes; and the store stays correct for later reads.
\<close>

theorem append_extends_the_journal:
  assumes "store_ok h st" and "takes_event h h' event" and "safe_id i"
    and "normalize_event event sid = Inr (i, normalized)" and "normalized = event"
  shows "\<exists>s st'. append_event h' sid event st = Inr (s, st') \<and> store_ok h st'
    \<and> journal_of (st_disk st') i = Some (lines_of (journal_of (st_disk st) i) @
         [Line (journal_entry h' (stored_next h st i) i event)])
    \<and> agree s (rp_snapshot (rebuild (h_clock h) i (journal_of (st_disk st') i)))
    \<and> (\<forall>i'. i' \<noteq> i \<longrightarrow> journal_of (st_disk st') i' = journal_of (st_disk st) i')"
proof -
  obtain s st' where a: "append_safe h' i event st = (s, st')" by (cases "append_safe h' i event st")
  from assms(2) have h: "same_host h h'" "good_clock (h_clock h')" "sound_event event"
    by (simp_all add: takes_event_def)
  have "append_event h' sid event st = Inr (s, st')"
    using assms(3-5) a by (simp add: append_event_def safe_session_id_def)
  with append_safe_ok [OF assms(1) h a] show ?thesis
    by (simp add: describes_def stored_next_def)
qed

theorem append_extends_the_journal_witness:
  "\<exists>s st'. append_event sample_host JUndef (sample_event ''discard'' []) sample_store = Inr (s, st')
    \<and> store_ok sample_host st'"
proof -
  have "normalize_event (sample_event ''discard'' []) JUndef = Inr (''a1b2c3d4'', sample_event ''discard'' [])"
    by code_simp
  moreover have "safe_id ''a1b2c3d4''" by code_simp
  moreover have "takes_event sample_host sample_host (sample_event ''discard'' [])"
    by (simp add: takes_event_def good_clock_def sample_host_def sample_clock_def sound_event_def sample_event_def
        good_event_def ty_is_def)
  ultimately show ?thesis
    using append_extends_the_journal [OF sample_store_ok, of sample_host "sample_event ''discard'' []" "''a1b2c3d4''"]
    by blast
qed

text \<open>
  Sequence numbers are fresh: the number the next entry of a session gets is
  greater than every sequence number its journal holds.
\<close>

theorem next_sequence_is_fresh:
  "\<forall>entry. Line entry \<in> set (lines_of (journal_of d i)) \<and> truthy entry \<and> is_objty entry
     \<and> is_integer (get entry ''seq'') \<longrightarrow>
     int_of (get entry ''seq'') < rp_next (rebuild clk i (journal_of d i))"
proof (intro allI impI)
  fix entry
  assume e: "Line entry \<in> set (lines_of (journal_of d i)) \<and> truthy entry \<and> is_objty entry
    \<and> is_integer (get entry ''seq'')"
  have mono: "rp_next r \<le> rp_next (replay_lines clk k ls r)" for r :: replay and k ls
  proof (induction ls arbitrary: k r)
    case (Cons l ls)
    have "rp_next r \<le> rp_next (replay_line clk k l r)" by (cases l) (simp_all add: replay_line_def)
    with Cons [of "replay_line clk k l r" "Suc k"] show ?case by simp
  qed simp
  have "Line entry \<in> set ls \<Longrightarrow> int_of (get entry ''seq'') < rp_next (replay_lines clk k ls r)" for k ls r
  proof (induction ls arbitrary: k r)
    case (Cons l ls)
    have "int_of (get entry ''seq'') < rp_next (replay_line clk k (Line entry) r)"
      using e by (simp add: replay_line_def)
    with mono [of "replay_line clk k (Line entry) r" "Suc k" ls] Cons show ?case by auto
  qed simp
  with e show "int_of (get entry ''seq'') < rp_next (rebuild clk i (journal_of d i))"
    by (cases "journal_of d i") (auto simp: rebuild_Some)
qed

theorem next_sequence_is_fresh_witness:
  "int_of (get (sample_event ''steer'' [(''seq'', JNum 4)]) ''seq'') <
     rp_next (rebuild sample_clock ''a1b2c3d4'' (journal_of
       \<lparr>dk_primary = [(''a1b2c3d4'', \<lparr>jf_lines = [Line (sample_event ''steer'' [(''seq'', JNum 4)])], jf_mtime = 0\<rparr>)],
        dk_legacy = [], dk_snaps = []\<rparr> ''a1b2c3d4''))"
  by (rule next_sequence_is_fresh [rule_format])
    (simp add: journal_of_cases content_primary sample_event_def)



text \<open>
  Late generation writes: once a session is canceled or its phase is fenced,
  appending a variant plan, detector waivers, a checkpoint, a completion of
  generation or its error leaves every field a reader sees unchanged but the
  diagnostics and the time of the update.
\<close>

theorem late_appends_change_nothing:
  assumes "store_ok h st" and "takes_event h h' event" and "fenced (stored_view h st i)"
    and "late_write (stored_view h st i) event"
  shows "relog [] (stored_view h (snd (append_safe h' i event st)) i) =
    relog [] (carry_forward (h_clock h') (journal_entry h' (stored_next h st i) i event) (stored_view h st i))"
  using live_store.append_late [OF assms] .

definition canceled_lines :: "journal_line list" where
  "canceled_lines = [Line (JObj [(''seq'', JNum 1), (''ts'', JStr ''2026''), (''event'', sample_event ''discard'' [])])]"

definition canceled_store :: store where
  "canceled_store = \<lparr>st_disk = \<lparr>dk_primary = [(''a1b2c3d4'', \<lparr>jf_lines = canceled_lines, jf_mtime = 0\<rparr>)],
     dk_legacy = [], dk_snaps = []\<rparr>, st_derived = []\<rparr>"

lemma canceled_store_ok: "store_ok sample_host canceled_store"
proof -
  have "good_disk sample_host (st_disk canceled_store)"
    unfolding good_disk_def
    by (intro allI, rename_tac r i, case_tac r)
      (simp_all add: content_def canceled_store_def canceled_lines_def good_journal_def good_entry_def dated_def
        sample_host_def sample_clock_def entry_event_def good_event_def sample_event_def ty_is_def)
  then show ?thesis
    by (simp add: store_ok_def disk_ok_def derived_ok_def canceled_store_def)
qed

lemma canceled_store_fenced: "fenced (stored_view sample_host canceled_store ''a1b2c3d4'')"
proof -
  have "generationCanceled (rp_snapshot (rebuild (h_clock sample_host) ''a1b2c3d4''
      (journal_of (st_disk canceled_store) ''a1b2c3d4'')))"
    by (simp add: canceled_store_def journal_of_cases content_primary rebuild_Some relog_sel canceled_lines_def
        replay_line_def start_def apply_event_def entry_event_def sample_event_def ty_is_def apply_discard_def Let_def)
  then show ?thesis
    using stored_view_replay [OF canceled_store_ok, of "''a1b2c3d4''"] agree_sel(6)
    by (simp add: fenced_def)
qed

theorem late_appends_change_nothing_witness:
  "relog [] (stored_view sample_host (snd (append_safe sample_host ''a1b2c3d4'' (sample_event ''variants_ready'' [])
       canceled_store)) ''a1b2c3d4'') =
    relog [] (carry_forward sample_clock (journal_entry sample_host (stored_next sample_host canceled_store ''a1b2c3d4'')
       ''a1b2c3d4'' (sample_event ''variants_ready'' [])) (stored_view sample_host canceled_store ''a1b2c3d4''))"
proof -
  have "takes_event sample_host sample_host (sample_event ''variants_ready'' [])"
    by (simp add: takes_event_def good_clock_def sample_host_def sample_clock_def sound_event_def sample_event_def
        good_event_def ty_is_def)
  moreover have "late_write (stored_view sample_host canceled_store ''a1b2c3d4'') (sample_event ''variants_ready'' [])"
    by (simp add: late_write_def ty_is_def sample_event_def)
  ultimately show ?thesis
    using late_appends_change_nothing [OF canceled_store_ok _ canceled_store_fenced, of sample_host
        "sample_event ''variants_ready'' []"]
    by (simp add: sample_host_def)
qed

section \<open>Interleaved appends\<close>

text \<open>
  Between a process's \<open>appendFileSync\<close> and the \<open>stat\<close> in its \<open>persist\<close> another
  process may append. The first process then stamps its snapshot, which lacks
  the other's event, with the size of the longer journal.
\<close>

definition interleaved :: "host \<Rightarrow> string \<Rightarrow> jsval \<Rightarrow> jsval \<Rightarrow> disk \<Rightarrow> disk" where
  \<comment> \<open>process one appends \<open>ev1\<close> and is overtaken by process two's append of \<open>ev2\<close>\<close>
  "interleaved h i ev1 ev2 d =
    (let (prior, entry, st1) = append_begin h i ev1 \<lparr>st_disk = d, st_derived = []\<rparr>;
         st2 = snd (append_safe h i ev2 \<lparr>st_disk = st_disk st1, st_derived = []\<rparr>)
     in st_disk (snd (append_end h i prior entry (st1\<lparr>st_disk := st_disk st2\<rparr>))))"

text \<open>
  Two overlapping appends can hide one of the two events for good: when a
  process's append of a steer is overtaken by another process's discard, a
  process that starts afterwards reads the session as not canceled, although the
  journal it reads holds the discard.
\<close>

theorem overlapping_appends_hide_an_event:
  "let d = interleaved sample_host ''a1b2c3d4'' (sample_event ''steer'' []) (sample_event ''discard'' [])
             (st_disk sample_store)
   in \<not> generationCanceled (stored_view sample_host \<lparr>st_disk = d, st_derived = []\<rparr> ''a1b2c3d4'')
      \<and> generationCanceled (rp_snapshot (rebuild sample_clock ''a1b2c3d4'' (journal_of d ''a1b2c3d4'')))"
  by code_simp

end
