(* ===== verification/Source_Lock.thy ===== *)
theory Source_Lock
  imports Prelude
begin

text \<open>
  The advisory lock on a source file, \<open>live/source-lock.mjs\<close>. A lock file holds
  the token and the process id of an acquisition, or cannot be read (a crash
  while it was written). Whether a process id is reachable
  (\<open>isLiveServerPidReachable\<close> of \<open>lib/impeccable-paths.mjs\<close>, which asks the
  operating system) and the time are arguments. Acquisitions are numbered: the
  number is the token, \<open>randomUUID\<close> giving no token twice. Times are
  milliseconds.
\<close>

section \<open>The lock file\<close>

datatype lockfile = Unreadable int | Held nat "int option"

definition unreadable_lock_stale_ms :: int where
  "unreadable_lock_stale_ms = 60000"

definition is_stale :: "(int \<Rightarrow> bool) \<Rightarrow> int \<Rightarrow> lockfile option \<Rightarrow> bool" where
  \<comment> \<open>the decision of \<open>clearStaleLock\<close> about what it read\<close>
  "is_stale reachable now f =
    (case f of None \<Rightarrow> False
     | Some (Unreadable mtime) \<Rightarrow> now - mtime > unreadable_lock_stale_ms
     | Some (Held token pid) \<Rightarrow> (case pid of None \<Rightarrow> True | Some p \<Rightarrow> \<not> reachable p))"

definition clear_stale_lock :: "(int \<Rightarrow> bool) \<Rightarrow> int \<Rightarrow> lockfile option \<Rightarrow> lockfile option" where
  "clear_stale_lock reachable now f = (if is_stale reachable now f then None else f)"

definition releases :: "nat \<Rightarrow> lockfile option \<Rightarrow> bool" where
  \<comment> \<open>\<open>releaseOwnLock\<close> unlinks unless it reads a lock of another token\<close>
  "releases token f = (case f of Some (Held t _) \<Rightarrow> t = token | _ \<Rightarrow> True)"

definition release_own_lock :: "nat \<Rightarrow> lockfile option \<Rightarrow> lockfile option" where
  "release_own_lock token f = (if releases token f then None else f)"

definition open_exclusive :: "nat \<Rightarrow> int \<Rightarrow> lockfile option \<Rightarrow> lockfile option" where
  \<comment> \<open>\<open>openSync(lockPath, 'wx')\<close> and the write; \<open>None\<close> is \<open>EEXIST\<close>\<close>
  "open_exclusive token pid f = (case f of None \<Rightarrow> Some (Held token (Some pid)) | Some _ \<Rightarrow> None)"

section \<open>Waiting for the lock\<close>

text \<open>
  One round of the acquisition loop sees the lock file, the reachable processes
  and the time. \<open>acquire\<close> runs the loop over the rounds the outside world
  presents; it ends with the lock, with \<open>SOURCE_LOCKED\<close>, or still waiting when
  the rounds given are used up.
\<close>

record round =
  rd_file :: "lockfile option"
  rd_reachable :: "int \<Rightarrow> bool"
  rd_now :: int

datatype outcome = Acquired lockfile | Source_locked | Waiting

fun acquire :: "nat \<Rightarrow> int \<Rightarrow> int \<Rightarrow> round list \<Rightarrow> outcome" where
  "acquire token pid deadline [] = Waiting"
| "acquire token pid deadline (r # rs) =
    (case open_exclusive token pid (clear_stale_lock (rd_reachable r) (rd_now r) (rd_file r)) of
       Some f \<Rightarrow> Acquired f
     | None \<Rightarrow> if rd_now r \<ge> deadline then Source_locked else acquire token pid deadline rs)"

definition deadline_of :: "int \<Rightarrow> int \<Rightarrow> int" where
  \<comment> \<open>\<open>Date.now() + Math.max(0, Number(waitMs) || 0)\<close>\<close>
  "deadline_of now waitMs = now + max 0 waitMs"

definition blocks :: "round \<Rightarrow> bool" where
  \<comment> \<open>a lock that is there and not stale\<close>
  "blocks r = (rd_file r \<noteq> None \<and> \<not> is_stale (rd_reachable r) (rd_now r) (rd_file r))"

lemma open_after_clear:
  "open_exclusive token pid (clear_stale_lock (rd_reachable r) (rd_now r) (rd_file r)) =
     (if blocks r then None else Some (Held token (Some pid)))"
  by (auto simp: open_exclusive_def clear_stale_lock_def blocks_def split: option.split)

section \<open>Processes and their steps\<close>

text \<open>
  Each acquisition takes its file operations one by one, interleaved with the
  others': read the lock and decide whether it is stale, unlink it if so, create
  it, run the critical section, read the lock, unlink it if it is its own. A
  process may also die.
\<close>

datatype step_pc = At_start | Saw_stale | At_open | Critical | At_unlink | Finished | Failed

record lock_sys =
  lk :: "lockfile option"
  pc :: "nat \<Rightarrow> step_pc"
  dead :: "nat list"

definition pid_of :: "nat \<Rightarrow> int" where
  "pid_of n = int n + 1"

definition running :: "lock_sys \<Rightarrow> int \<Rightarrow> bool" where
  "running s p = (\<not> (\<exists>n \<in> set (dead s). pid_of n = p))"

definition at_pc :: "nat \<Rightarrow> step_pc \<Rightarrow> lock_sys \<Rightarrow> lock_sys" where
  "at_pc n k s = s\<lparr>pc := (pc s)(n := k)\<rparr>"

definition advance :: "int \<Rightarrow> nat \<Rightarrow> lock_sys \<Rightarrow> lock_sys" where
  \<comment> \<open>the next file operation of acquisition \<open>n\<close> at time \<open>now\<close>; a loser retries\<close>
  "advance now n s =
    (if n \<in> set (dead s) then s else case pc s n of
       At_start \<Rightarrow> at_pc n (if is_stale (running s) now (lk s) then Saw_stale else At_open) s
     | Saw_stale \<Rightarrow> at_pc n At_open (s\<lparr>lk := None\<rparr>)
     | At_open \<Rightarrow> (case open_exclusive n (pid_of n) (lk s) of
           None \<Rightarrow> at_pc n At_start s
         | Some f \<Rightarrow> at_pc n Critical (s\<lparr>lk := Some f\<rparr>))
     | Critical \<Rightarrow> at_pc n (if releases n (lk s) then At_unlink else Finished) s
     | At_unlink \<Rightarrow> at_pc n Finished (s\<lparr>lk := None\<rparr>)
     | _ \<Rightarrow> s)"

definition crash :: "nat \<Rightarrow> lock_sys \<Rightarrow> lock_sys" where
  "crash n s = s\<lparr>dead := n # dead s, pc := (pc s)(n := Failed)\<rparr>"

definition initial :: lock_sys where
  "initial = \<lparr>lk = None, pc = (\<lambda>n. At_start), dead = []\<rparr>"

inductive lock_run :: "lock_sys \<Rightarrow> bool" where
  "lock_run initial"
| "lock_run s \<Longrightarrow> lock_run (advance now n s)"

text \<open>
  Without crashes no lock is ever stale, and the lock file always belongs to the
  acquisition in its critical section.
\<close>

definition holds :: "step_pc \<Rightarrow> bool" where
  "holds k = (k = Critical \<or> k = At_unlink)"

definition owns :: "lock_sys \<Rightarrow> nat \<Rightarrow> bool" where
  "owns s n \<longleftrightarrow> lk s = Some (Held n (Some (pid_of n)))"

definition lock_inv :: "lock_sys \<Rightarrow> bool" where
  "lock_inv s \<longleftrightarrow> dead s = [] \<and> (\<forall>n. pc s n \<noteq> Saw_stale) \<and> (\<forall>n. holds (pc s n) \<longrightarrow> owns s n) \<and>
     (lk s = None \<or> (\<exists>n. owns s n))"

lemma owns_unique: "owns s n \<Longrightarrow> owns s m \<Longrightarrow> n = m"
  by (simp add: owns_def)

lemma owns_not_stale: "owns s n \<Longrightarrow> dead s = [] \<Longrightarrow> \<not> is_stale (running s) now (lk s)"
  by (simp add: owns_def is_stale_def running_def)

lemma lock_inv_not_stale: "lock_inv s \<Longrightarrow> \<not> is_stale (running s) now (lk s)"
  by (auto simp: lock_inv_def dest: owns_not_stale) (simp add: is_stale_def)

lemma lock_inv_unique: "lock_inv s \<Longrightarrow> holds (pc s n) \<Longrightarrow> holds (pc s m) \<Longrightarrow> n = m"
  unfolding lock_inv_def using owns_unique by blast

lemma at_pc_simps [simp]: "lk (at_pc n k s) = lk s" "owns (at_pc n k s) = owns s" "dead (at_pc n k s) = dead s"
  "pc (at_pc n k s) m = (if m = n then k else pc s m)"
  by (auto simp: at_pc_def owns_def fun_eq_iff)

lemma lock_inv_at_pc:
  assumes "lock_inv s" "holds k \<Longrightarrow> holds (pc s n)" "k \<noteq> Saw_stale"
  shows "lock_inv (at_pc n k s)"
  using assms unfolding lock_inv_def by simp

lemma lock_inv_advance:
  assumes inv: "lock_inv s"
  shows "lock_inv (advance now n s)"
proof -
  have alive: "n \<notin> set (dead s)" using inv by (simp add: lock_inv_def)
  note keep = lock_inv_at_pc [OF inv, of _ n]
  show ?thesis
  proof (cases "pc s n")
    case At_start
    then have "advance now n s = at_pc n At_open s"
      using alive lock_inv_not_stale [OF inv] by (simp add: advance_def)
    then show ?thesis using keep [of At_open] by (simp add: holds_def)
  next
    case Saw_stale
    then show ?thesis using inv by (simp add: lock_inv_def)
  next
    case At_open
    show ?thesis
    proof (cases "lk s")
      case None
      then have "\<not> holds (pc s m)" for m using inv by (auto simp: lock_inv_def owns_def)
      moreover have "owns (s\<lparr>lk := Some (Held n (Some (pid_of n)))\<rparr>) n" by (simp add: owns_def)
      ultimately show ?thesis using None At_open alive inv
        by (auto simp: advance_def open_exclusive_def lock_inv_def)
    next
      case (Some f)
      with At_open alive have "advance now n s = at_pc n At_start s"
        by (simp add: advance_def open_exclusive_def)
      then show ?thesis using keep [of At_start] by (simp add: holds_def)
    qed
  next
    case Critical
    then have "owns s n" using inv by (simp add: lock_inv_def holds_def)
    with Critical alive have "advance now n s = at_pc n At_unlink s"
      by (simp add: advance_def releases_def owns_def)
    then show ?thesis using keep [of At_unlink] Critical by (simp add: holds_def)
  next
    case At_unlink
    have "\<not> holds (pc s m)" if "m \<noteq> n" for m
      using lock_inv_unique [OF inv, of m n] At_unlink that by (auto simp: holds_def)
    moreover have "\<not> holds Finished" by (simp add: holds_def)
    ultimately show ?thesis using At_unlink alive inv
      by (auto simp: advance_def lock_inv_def)
  qed (use alive inv in \<open>simp_all add: advance_def\<close>)
qed

lemma lock_inv_run: "lock_run s \<Longrightarrow> lock_inv s"
  by (induction rule: lock_run.induct) (simp_all add: lock_inv_advance, simp add: initial_def lock_inv_def holds_def)

section \<open>Properties\<close>



text \<open>
  The wait is what the caller asked for: acquisition fails with
  \<open>SOURCE_LOCKED\<close> exactly when a live lock was there in every round up to one
  that began at or after the deadline; a stale or missing lock is taken at once,
  with the caller's own token and process id.
\<close>

theorem acquire_outcomes:
  "acquire token pid deadline rs =
    (case dropWhile (\<lambda>r. blocks r \<and> rd_now r < deadline) rs of
       [] \<Rightarrow> Waiting
     | r # _ \<Rightarrow> if blocks r then Source_locked else Acquired (Held token (Some pid)))"
  by (induction rs) (auto simp: open_after_clear)

text \<open>
  A holder that crashed lets two acquisitions in: both read its lock as
  stale, one removes it and enters, and the other then removes the lock of the
  first and enters too.
\<close>

theorem stale_lock_race:
  "let s = (advance 0 2 \<circ> advance 0 2 \<circ> advance 0 1 \<circ> advance 0 1 \<circ> advance 0 2 \<circ> advance 0 1
            \<circ> crash 0 \<circ> advance 0 0 \<circ> advance 0 0) initial
   in pc s 1 = Critical \<and> pc s 2 = Critical"
  by code_simp

text \<open>
  Release is safe: giving up a lock never removes a lock file that carries
  another acquisition's token, and it removes one's own.
\<close>

theorem release_only_own:
  "release_own_lock token f = (case f of Some (Held t p) \<Rightarrow> if t = token then None else f | _ \<Rightarrow> None)"
  by (auto simp: release_own_lock_def releases_def split: option.split lockfile.split)

end
