(* ===== verification/Event_Queue.thy ===== *)
theory Event_Queue
  imports Session_Store
begin

text \<open>
  The live server's queue between the browser and the agents, from
  \<open>live-server.mjs\<close>: queued events, parked polls, leases, the phases recorded
  while a generate event is prepared, and what is pushed to the connected
  browsers. A lease is taken when an event is claimed and settles in a later
  step, when the scaffolding outside this module has answered; until then it is
  a \<open>flight\<close>, which keeps the event it was claimed with even when the entry has
  left the queue. Requests are numbered; \<open>bs_answers\<close> is what polls received.
\<close>

section \<open>State\<close>

record poll =
  pl_id :: nat
  pl_lease_ms :: int
  pl_types :: "string list option"

record flight =
  fl_seq :: nat
  fl_event :: jsval
  fl_lease_ms :: int
  fl_to :: nat
  fl_parked :: bool

record bus =
  bs_clients :: "(nat \<times> jsval list) list"
  bs_events :: "pending_entry list"
  bs_polls :: "poll list"
  bs_next_seq :: nat
  bs_polling_told :: "bool option"
  bs_timer :: "int option"
  bs_flights :: "flight list"
  bs_answers :: "(nat \<times> jsval) list"
  bs_last_poll :: int
  bs_store :: store

definition now_of :: "host \<Rightarrow> int" where
  \<comment> \<open>\<open>Date.now()\<close>\<close>
  "now_of h = \<lfloor>now_ms (h_clock h)\<rfloor>"

definition poll_lease_expiry_timer_grace_ms :: int where
  "poll_lease_expiry_timer_grace_ms = 2"

definition chat_poll_freshness_ms :: int where
  "chat_poll_freshness_ms = 60000"

section \<open>Browsers and timers\<close>

definition broadcast :: "jsval \<Rightarrow> bus \<Rightarrow> bus" where
  "broadcast msg b = b\<lparr>bs_clients := map (\<lambda>(c, sent). (c, sent @ [json_norm msg])) (bs_clients b)\<rparr>"

definition agent_polling_connected :: "bus \<Rightarrow> bool" where
  "agent_polling_connected b = (length (bs_polls b) > 0)"

definition broadcast_agent_polling_if_changed :: "bus \<Rightarrow> bus" where
  "broadcast_agent_polling_if_changed b =
    (let connected = agent_polling_connected b in
     if bs_polling_told b = Some connected then b
     else broadcast (JObj [(''type'', JStr ''agent_polling''), (''connected'', JBool connected)])
       (b\<lparr>bs_polling_told := Some connected\<rparr>))"

definition chat_agent_likely_active :: "host \<Rightarrow> bus \<Rightarrow> bool" where
  "chat_agent_likely_active h b =
    (if length (bs_polls b) > 0 then True
     else if bs_last_poll b = 0 then False
     else now_of h - bs_last_poll b < chat_poll_freshness_ms)"

definition schedule_lease_flush :: "host \<Rightarrow> bus \<Rightarrow> bus" where
  "schedule_lease_flush h b = b\<lparr>bs_timer :=
    (case sort (filter (\<lambda>t. t > now_of h) (map pe_lease (bs_events b))) of
       [] \<Rightarrow> None
     | t # _ \<Rightarrow> Some (now_of h + max 0 (t - now_of h + poll_lease_expiry_timer_grace_ms)))\<rparr>"

definition is_leased :: "host \<Rightarrow> pending_entry \<Rightarrow> bool" where
  "is_leased h e = entry_leased (now_of h) e"

definition answer :: "nat \<Rightarrow> jsval \<Rightarrow> bus \<Rightarrow> bus" where
  "answer n v b = b\<lparr>bs_answers := bs_answers b @ [(n, json_norm v)]\<rparr>"

definition timeout_reply :: jsval where
  "timeout_reply = JObj [(''type'', JStr ''timeout'')]"

definition answer_poll :: "host \<Rightarrow> bool \<Rightarrow> nat \<Rightarrow> jsval \<Rightarrow> bus \<Rightarrow> bus" where
  \<comment> \<open>a parked poll's \<open>resolve\<close> also notes the time\<close>
  "answer_poll h parked n v b =
    (let b = answer n v b in if parked then b\<lparr>bs_last_poll := now_of h\<rparr> else b)"

section \<open>Phases of a generation\<close>

definition append_to_store :: "host \<Rightarrow> jsval \<Rightarrow> bus \<Rightarrow> js_error + bus" where
  "append_to_store h event b =
    bindE (append_event h JUndef event (bs_store b)) (\<lambda>(s, st). Inr (b\<lparr>bs_store := st\<rparr>))"

definition record_agent_phase :: "host \<Rightarrow> jsval \<Rightarrow> jsval \<Rightarrow> props \<Rightarrow> bus \<Rightarrow> js_error + bus" where
  "record_agent_phase h i ph details b =
    (if \<not> truthy i then Inr b
     else let event = JObj (spread
            [(''type'', JStr ''agent_phase''), (''id'', i), (''phase'', ph), (''at'', jint (now_of h))] details)
       in bindE (append_to_store h event b) (\<lambda>b. Inr (broadcast event b)))"

section \<open>Leases\<close>

definition set_entry :: "nat \<Rightarrow> (pending_entry \<Rightarrow> pending_entry) \<Rightarrow> bus \<Rightarrow> bus" where
  \<comment> \<open>an assignment to the entry object, seen in the queue while it is there\<close>
  "set_entry n f b = b\<lparr>bs_events := map (\<lambda>e. if pe_seq e = n then f e else e) (bs_events b)\<rparr>"

definition needs_scaffold :: "jsval \<Rightarrow> bool" where
  "needs_scaffold event = (ty_is event ''generate'' \<and> \<not> truthy (get event ''scaffoldAttempted''))"

definition lease_claim :: "host \<Rightarrow> int \<Rightarrow> bool \<Rightarrow> nat \<Rightarrow> pending_entry \<Rightarrow> bus \<Rightarrow> bus" where
  \<comment> \<open>\<open>leaseEvent\<close> and \<open>prepareGenerateEventForLease\<close> up to the first wait\<close>
  "lease_claim h leaseMs parked to e b =
    (let event = pe_event e;
         claimed = set_entry (pe_seq e) (\<lambda>e. e\<lparr>pe_lease := now_of h + leaseMs\<rparr>) b;
         fly = (\<lambda>b. b\<lparr>bs_flights := bs_flights b @
           [\<lparr>fl_seq = pe_seq e, fl_event = event, fl_lease_ms = leaseMs, fl_to = to,
             fl_parked = parked\<rparr>]\<rparr>)
     in if needs_scaffold event
        then (case bindE (record_agent_phase h (get event ''id'') (JStr ''picked_up'') [] claimed)
                (record_agent_phase h (get event ''id'') (JStr ''scaffolding'') []) of
                Inl err \<Rightarrow> answer_poll h parked to timeout_reply claimed
              | Inr b' \<Rightarrow> fly b')
        else fly claimed)"

definition scaffolded :: "jsval \<Rightarrow> jsval \<Rightarrow> jsval" where
  "scaffolded event result = with_props event
    ([(''scaffoldAttempted'', JBool True),
      (''scaffoldDurationMs'', js_coalesce (get result ''durationMs'') JNull)] @
     (if truthy (get result ''ok'') then [(''scaffold'', get result ''scaffold'')]
      else [(''scaffoldError'', js_or (get result ''error'') (get result ''reason''))]))"

definition finish_prepare :: "host \<Rightarrow> jsval \<Rightarrow> flight \<Rightarrow> bus \<Rightarrow> js_error + (jsval \<times> bus)" where
  \<comment> \<open>\<open>prepareGenerateEventForLease\<close> after \<open>runGenerationPreflight\<close> answered \<open>result\<close>\<close>
  "finish_prepare h result f b =
    (let event = fl_event f in
     if \<not> needs_scaffold event then Inr (event, b)
     else let event' = scaffolded event result in
       bindE (append_to_store h event' (set_entry (fl_seq f) (\<lambda>e. e\<lparr>pe_event := event'\<rparr>) b)) (\<lambda>b.
       bindE (record_agent_phase h (get event ''id'')
           (JStr (if truthy (get result ''ok'') then ''source_ready'' else ''scaffold_fallback''))
           [(''durationMs'', js_coalesce (get result ''durationMs'') JNull),
            (''previewMode'', js_or (get (get result ''scaffold'') ''previewMode'') (JStr ''source''))] b)
         (\<lambda>b. Inr (event', b))))"

definition record_generate_delivery :: "host \<Rightarrow> nat \<Rightarrow> jsval \<Rightarrow> bus \<Rightarrow> js_error + (jsval \<times> bus)" where
  "record_generate_delivery h n event b =
    (if \<not> truthy event \<or> \<not> ty_is event ''generate'' \<or> truthy (get event ''generationReadyAt'')
     then Inr (event, b)
     else let event' = with_props event [(''generationReadyAt'', jint (now_of h))] in
       bindE (append_to_store h event' (set_entry n (\<lambda>e. e\<lparr>pe_event := event'\<rparr>) b)) (\<lambda>b.
       bindE (record_agent_phase h (get event ''id'') (JStr ''generation_ready'')
           [(''at'', jint (now_of h))] b) (\<lambda>b. Inr (event', b))))"

definition finish_lease :: "host \<Rightarrow> flight \<Rightarrow> jsval \<Rightarrow> bus \<Rightarrow> js_error + (jsval \<times> bus)" where
  \<comment> \<open>the rest of \<open>leaseEvent\<close>\<close>
  "finish_lease h f event b =
    (if \<not> truthy (get event ''id'')
     then Inr (event, b\<lparr>bs_events := remove_first (\<lambda>e. pe_seq e = fl_seq f) (bs_events b)\<rparr>)
     else bindE (record_generate_delivery h (fl_seq f) event
         (set_entry (fl_seq f) (\<lambda>e. e\<lparr>pe_lease := now_of h + fl_lease_ms f\<rparr>) b)) (\<lambda>(event', b).
       Inr (event', broadcast_agent_polling_if_changed (schedule_lease_flush h b))))"

definition lease_settle :: "host \<Rightarrow> jsval \<Rightarrow> nat \<Rightarrow> bus \<Rightarrow> bus" where
  \<comment> \<open>the answer to the poll once its lease settles; an error answers \<open>timeout\<close>\<close>
  "lease_settle h result k b =
    (if k \<ge> length (bs_flights b) then b
     else let f = bs_flights b ! k;
              b = b\<lparr>bs_flights := take k (bs_flights b) @ drop (Suc k) (bs_flights b)\<rparr>
       in case bindE (finish_prepare h result f b) (\<lambda>(event, b). finish_lease h f event b) of
            Inl err \<Rightarrow> answer_poll h (fl_parked f) (fl_to f) timeout_reply b
          | Inr (event, b) \<Rightarrow> answer_poll h (fl_parked f) (fl_to f) event b)"

section \<open>Matching polls and events\<close>

definition find_available_pending_event ::
  "host \<Rightarrow> string list option \<Rightarrow> bus \<Rightarrow> pending_entry option" where
  "find_available_pending_event h types b = select_available (bs_events b) (now_of h) types"

fun first_served :: "host \<Rightarrow> bus \<Rightarrow> poll list \<Rightarrow> (poll \<times> pending_entry) option" where
  \<comment> \<open>the first parked poll an event is available for, with the event\<close>
  "first_served h b [] = None"
| "first_served h b (p # ps) =
    (case find_available_pending_event h (pl_types p) b of
       Some e \<Rightarrow> Some (p, e)
     | None \<Rightarrow> first_served h b ps)"

definition serve_poll :: "host \<Rightarrow> poll \<Rightarrow> pending_entry \<Rightarrow> bus \<Rightarrow> bus" where
  "serve_poll h p e b =
    lease_claim h (pl_lease_ms p) True (pl_id p) e
      (b\<lparr>bs_polls := remove_first (\<lambda>q. pl_id q = pl_id p) (bs_polls b)\<rparr>)"

fun flush_loop :: "nat \<Rightarrow> host \<Rightarrow> bool \<Rightarrow> bus \<Rightarrow> bus" where
  \<comment> \<open>each round serves one poll, so as many rounds as there are polls are enough\<close>
  "flush_loop 0 h changed b =
    (let b = schedule_lease_flush h b in if changed then broadcast_agent_polling_if_changed b else b)"
| "flush_loop (Suc n) h changed b =
    (case first_served h b (bs_polls b) of
       None \<Rightarrow> if bs_polls b = []
         then (let b = schedule_lease_flush h b in if changed then broadcast_agent_polling_if_changed b else b)
         else broadcast_agent_polling_if_changed (schedule_lease_flush h b)
     | Some (p, e) \<Rightarrow> flush_loop n h True (serve_poll h p e b))"

definition flush_pending_polls :: "host \<Rightarrow> bus \<Rightarrow> bus" where
  "flush_pending_polls h b = flush_loop (Suc (length (bs_polls b))) h False b"

section \<open>Queue operations\<close>

definition same_event :: "jsval \<Rightarrow> jsval \<Rightarrow> bool" where
  \<comment> \<open>\<open>event\<close> is a duplicate of the queued \<open>queued\<close>\<close>
  "same_event queued event \<longleftrightarrow>
     strict_eq (get queued ''id'') (get event ''id'') \<and> strict_eq (get queued ''type'') (get event ''type'') \<and>
     (\<not> ty_is event ''variant_mount_failed'' \<or> strict_eq (get queued ''variant'') (get event ''variant''))"

definition enqueue_event :: "host \<Rightarrow> jsval \<Rightarrow> bus \<Rightarrow> bus" where
  "enqueue_event h event b =
    (if \<not> truthy event then b
     else if truthy (get event ''id'') \<and> (\<exists>e \<in> set (bs_events b). same_event (pe_event e) event) then b
     else flush_pending_polls h (b\<lparr>bs_events := bs_events b @
            [\<lparr>pe_event = event, pe_lease = 0, pe_seq = bs_next_seq b\<rparr>],
          bs_next_seq := Suc (bs_next_seq b)\<rparr>))"

definition event_for :: "jsval \<Rightarrow> jsval \<Rightarrow> pending_entry \<Rightarrow> bool" where
  "event_for i sourceEventType e \<longleftrightarrow>
     strict_eq (get (pe_event e) ''id'') i \<and>
     (\<not> truthy sourceEventType \<or> strict_eq (get (pe_event e) ''type'') sourceEventType)"

definition acknowledge_pending_event :: "host \<Rightarrow> jsval \<Rightarrow> jsval \<Rightarrow> bus \<Rightarrow> jsval option \<times> bus" where
  "acknowledge_pending_event h i sourceEventType b =
    (if \<not> truthy i then (None, b)
     else case List.find (event_for i sourceEventType) (bs_events b) of
       None \<Rightarrow> (None, b)
     | Some e \<Rightarrow> (Some (pe_event e), broadcast_agent_polling_if_changed (schedule_lease_flush h
          (b\<lparr>bs_events := remove_first (event_for i sourceEventType) (bs_events b)\<rparr>))))"

definition release_pending_event :: "host \<Rightarrow> jsval \<Rightarrow> jsval \<Rightarrow> bus \<Rightarrow> jsval option \<times> bus" where
  "release_pending_event h i sourceEventType b =
    (case List.find (event_for i sourceEventType) (bs_events b) of
       None \<Rightarrow> (None, b)
     | Some e \<Rightarrow> (Some (pe_event e), schedule_lease_flush h
          (set_entry (pe_seq e) (\<lambda>e. e\<lparr>pe_lease := 0\<rparr>) b)))"

definition find_pending_event_by_id :: "jsval \<Rightarrow> jsval \<Rightarrow> bus \<Rightarrow> jsval option" where
  "find_pending_event_by_id i sourceEventType b =
    (if \<not> truthy i then None
     else map_option pe_event (List.find (event_for i sourceEventType) (bs_events b)))"

definition drop_events :: "host \<Rightarrow> (pending_entry \<Rightarrow> bool) \<Rightarrow> bus \<Rightarrow> nat \<times> bus" where
  \<comment> \<open>the shared body: remove every match, then reschedule when there was one\<close>
  "drop_events h P b =
    (let removed = length (filter P (bs_events b));
         b' = b\<lparr>bs_events := filter (\<lambda>e. \<not> P e) (bs_events b)\<rparr>
     in (removed, if removed > 0 then broadcast_agent_polling_if_changed (schedule_lease_flush h b') else b'))"

lemma drop_events_events: "bs_events (snd (drop_events h P b)) = filter (\<lambda>e. \<not> P e) (bs_events b)"
  by (simp add: drop_events_def Let_def broadcast_agent_polling_if_changed_def broadcast_def schedule_lease_flush_def)

lemma drop_events_count: "length (bs_events b) = fst (drop_events h P b) + length (filter (\<lambda>e. \<not> P e) (bs_events b))"
  using sum_length_filter_compl [of P "bs_events b"] by (simp add: drop_events_def Let_def)

definition retire_pending_generation :: "host \<Rightarrow> jsval \<Rightarrow> bus \<Rightarrow> nat \<times> bus" where
  "retire_pending_generation h i b =
    (if \<not> truthy i then (0, b)
     else drop_events h (\<lambda>e. strict_eq (get (pe_event e) ''id'') i \<and> ty_is (pe_event e) ''generate'') b)"

definition cancel_queued_anonymous_exit_events :: "host \<Rightarrow> bus \<Rightarrow> nat \<times> bus" where
  "cancel_queued_anonymous_exit_events h b =
    drop_events h (\<lambda>e. ty_is (pe_event e) ''exit'' \<and> \<not> truthy (get (pe_event e) ''id'')) b"

definition restore_pending_events_from_store :: "host \<Rightarrow> bus \<Rightarrow> js_error + bus" where
  "restore_pending_events_from_store h b =
    bindE (list_active_sessions h JUndef (bs_store b)) (\<lambda>(snaps, st).
      Inr (fold (\<lambda>s b. if truthy (pendingEvent s) then enqueue_event h (pendingEvent s) b else b)
        snaps (b\<lparr>bs_store := st\<rparr>)))"

section \<open>Which queued event a reply answers\<close>

definition infer_source_event_type :: "host \<Rightarrow> jsval \<Rightarrow> pending_entry list \<Rightarrow> jsval" where
  "infer_source_event_type h msg entries =
    (let mine = filter (\<lambda>e. strict_eq (get (pe_event e) ''id'') (get msg ''id'')) entries;
         has = (\<lambda>t. \<exists>e \<in> set mine. ty_is (pe_event e) t)
     in if ty_is msg ''discarded'' \<or> ty_is msg ''discard'' then JStr ''discard''
        else if ty_is msg ''complete'' then
          (if has ''carbonize_cleanup'' then JStr ''carbonize_cleanup''
           else if has ''accept'' then JStr ''accept''
           else if has ''generate'' then JStr ''generate'' else JUndef)
        else if ty_is msg ''steer_done'' then JStr ''steer''
        else if ty_is msg ''agent_done'' \<or> ty_is msg ''done'' then
          (if \<not> has ''generate'' \<and> has ''variant_mount_failed'' then JStr ''variant_mount_failed''
           else JStr ''generate'')
        else if ty_is msg ''error'' then
          (case List.find (is_leased h) mine of
             None \<Rightarrow> JStr ''generate''
           | Some e \<Rightarrow> js_or (get (pe_event e) ''type'') (JStr ''generate''))
        else JUndef)"

section \<open>What the operations leave alone\<close>

text \<open>
  \<open>queue_keys b\<close> is what identifies the queued events: sequence number, id, type
  and variant. Broadcasts, timers, leases and the store do not change it.
\<close>

definition key_of :: "pending_entry \<Rightarrow> nat \<times> jsval \<times> jsval \<times> jsval" where
  "key_of e = (pe_seq e, get (pe_event e) ''id'', get (pe_event e) ''type'', get (pe_event e) ''variant'')"

definition queue_keys :: "bus \<Rightarrow> (nat \<times> jsval \<times> jsval \<times> jsval) list" where
  "queue_keys b = map key_of (bs_events b)"

lemma broadcast_frame [simp]:
  "bs_events (broadcast m b) = bs_events b" "bs_polls (broadcast m b) = bs_polls b"
  "bs_next_seq (broadcast m b) = bs_next_seq b" "bs_flights (broadcast m b) = bs_flights b"
  "bs_answers (broadcast m b) = bs_answers b" "bs_store (broadcast m b) = bs_store b"
  by (simp_all add: broadcast_def)

lemma told_frame [simp]:
  "bs_events (broadcast_agent_polling_if_changed b) = bs_events b"
  "bs_polls (broadcast_agent_polling_if_changed b) = bs_polls b"
  "bs_next_seq (broadcast_agent_polling_if_changed b) = bs_next_seq b"
  "bs_flights (broadcast_agent_polling_if_changed b) = bs_flights b"
  "bs_answers (broadcast_agent_polling_if_changed b) = bs_answers b"
  "bs_store (broadcast_agent_polling_if_changed b) = bs_store b"
  by (simp_all add: broadcast_agent_polling_if_changed_def Let_def)

lemma schedule_frame [simp]:
  "bs_events (schedule_lease_flush h b) = bs_events b"
  "bs_polls (schedule_lease_flush h b) = bs_polls b"
  "bs_next_seq (schedule_lease_flush h b) = bs_next_seq b"
  "bs_flights (schedule_lease_flush h b) = bs_flights b"
  "bs_answers (schedule_lease_flush h b) = bs_answers b"
  "bs_store (schedule_lease_flush h b) = bs_store b"
  by (simp_all add: schedule_lease_flush_def)

lemma answer_frame [simp]:
  "bs_events (answer_poll h pk n v b) = bs_events b" "bs_polls (answer_poll h pk n v b) = bs_polls b"
  "bs_next_seq (answer_poll h pk n v b) = bs_next_seq b" "bs_flights (answer_poll h pk n v b) = bs_flights b"
  "bs_store (answer_poll h pk n v b) = bs_store b"
  by (simp_all add: answer_poll_def answer_def Let_def)

lemma set_entry_frame [simp]:
  "bs_polls (set_entry n f b) = bs_polls b" "bs_next_seq (set_entry n f b) = bs_next_seq b"
  "bs_flights (set_entry n f b) = bs_flights b" "bs_store (set_entry n f b) = bs_store b"
  by (simp_all add: set_entry_def)

lemma append_to_store_frame:
  assumes "append_to_store h ev b = Inr b'"
  shows "bs_events b' = bs_events b" "bs_polls b' = bs_polls b" "bs_next_seq b' = bs_next_seq b"
    "bs_flights b' = bs_flights b"
  using assms by (auto simp: append_to_store_def bindE_Inr_iff)

lemma record_agent_phase_frame:
  assumes "record_agent_phase h i ph details b = Inr b'"
  shows "bs_events b' = bs_events b" "bs_polls b' = bs_polls b" "bs_next_seq b' = bs_next_seq b"
    "bs_flights b' = bs_flights b"
  using assms append_to_store_frame
  by (auto simp: record_agent_phase_def Let_def bindE_Inr_iff split: if_splits)

lemma set_lease_keys [simp]: "queue_keys (set_entry n (\<lambda>e. e\<lparr>pe_lease := t\<rparr>) b) = queue_keys b"
  by (simp add: queue_keys_def set_entry_def key_of_def)

lemma queue_keys_events: "bs_events b' = bs_events b \<Longrightarrow> queue_keys b' = queue_keys b"
  by (simp add: queue_keys_def)

lemma map_keys_set_entry:
  assumes "\<And>e. pe_seq (f e) = pe_seq e"
  shows "map pe_seq (bs_events (set_entry n f b)) = map pe_seq (bs_events b)"
  using assms by (simp add: set_entry_def o_def)

section \<open>The queue's invariant\<close>

text \<open>
  Sequence numbers are distinct and below the next one, and no two queued events
  with an id are the same event for \<open>enqueueEvent\<close>.
\<close>

definition seqs_ok :: "bus \<Rightarrow> bool" where
  "seqs_ok b \<longleftrightarrow> distinct (map pe_seq (bs_events b)) \<and> (\<forall>e \<in> set (bs_events b). pe_seq e < bs_next_seq b)"

definition clash :: "pending_entry \<Rightarrow> pending_entry \<Rightarrow> bool" where
  "clash a b \<longleftrightarrow> truthy (get (pe_event b) ''id'') \<and> same_event (pe_event a) (pe_event b)"

definition no_duplicates :: "pending_entry list \<Rightarrow> bool" where
  "no_duplicates es \<longleftrightarrow> sorted_wrt (\<lambda>a b. \<not> clash a b) es"

definition queue_ok :: "bus \<Rightarrow> bool" where
  "queue_ok b \<longleftrightarrow> seqs_ok b \<and> no_duplicates (bs_events b)"

definition clash_keys :: "nat \<times> jsval \<times> jsval \<times> jsval \<Rightarrow> nat \<times> jsval \<times> jsval \<times> jsval \<Rightarrow> bool" where
  "clash_keys = (\<lambda>(_, i, t, v) (_, i', t', v'). truthy i' \<and> strict_eq i i' \<and> strict_eq t t' \<and>
     (t' \<noteq> JStr ''variant_mount_failed'' \<or> strict_eq v v'))"

definition keys_ok :: "nat \<Rightarrow> (nat \<times> jsval \<times> jsval \<times> jsval) list \<Rightarrow> bool" where
  "keys_ok n ks \<longleftrightarrow> distinct (map fst ks) \<and> (\<forall>k \<in> set ks. fst k < n) \<and> sorted_wrt (\<lambda>a b. \<not> clash_keys a b) ks"

lemma clash_key_of: "clash a b = clash_keys (key_of a) (key_of b)"
  by (simp add: clash_def same_event_def clash_keys_def key_of_def ty_is_def)

lemma queue_ok_keys: "queue_ok b \<longleftrightarrow> keys_ok (bs_next_seq b) (queue_keys b)"
proof -
  have "map fst (queue_keys b) = map pe_seq (bs_events b)" by (simp add: queue_keys_def key_of_def)
  moreover have "(\<forall>k \<in> set (queue_keys b). fst k < bs_next_seq b) \<longleftrightarrow> (\<forall>e \<in> set (bs_events b). pe_seq e < bs_next_seq b)"
    by (simp add: queue_keys_def key_of_def)
  moreover have "sorted_wrt (\<lambda>a b. \<not> clash_keys a b) (queue_keys b) \<longleftrightarrow> no_duplicates (bs_events b)"
    by (simp add: queue_keys_def no_duplicates_def sorted_wrt_map clash_key_of)
  ultimately show ?thesis by (auto simp: queue_ok_def seqs_ok_def keys_ok_def)
qed

lemma queue_ok_same: "queue_keys b' = queue_keys b \<Longrightarrow> bs_next_seq b' = bs_next_seq b \<Longrightarrow> queue_ok b \<Longrightarrow> queue_ok b'"
  by (simp add: queue_ok_keys)

lemma queue_ok_frame [simp]:
  "queue_ok (broadcast m b) = queue_ok b"
  "queue_ok (broadcast_agent_polling_if_changed b) = queue_ok b"
  "queue_ok (schedule_lease_flush h b) = queue_ok b"
  "queue_ok (answer_poll h pk n v b) = queue_ok b"
  "queue_ok (set_entry k (\<lambda>e. e\<lparr>pe_lease := t\<rparr>) b) = queue_ok b"
  by (simp_all add: queue_ok_keys) (simp_all add: queue_keys_def)

lemma queue_ok_subset:
  assumes ok: "queue_ok b" and ev: "bs_events b' = remove_first P (bs_events b) \<or> bs_events b' = filter P (bs_events b)"
    and n: "bs_next_seq b' = bs_next_seq b"
  shows "queue_ok b'"
proof -
  have "distinct (map pe_seq (bs_events b'))" "no_duplicates (bs_events b')"
    "set (bs_events b') \<subseteq> set (bs_events b)"
    using ok ev remove_first_subset [of P "bs_events b"]
    by (auto simp: queue_ok_def seqs_ok_def no_duplicates_def distinct_map_remove_first sorted_wrt_remove_first
        distinct_map_filter sorted_wrt_filter)
  then show ?thesis using ok n by (auto simp: queue_ok_def seqs_ok_def)
qed

text \<open>Claiming an event changes one lease and nothing else about the queue.\<close>

lemma lease_claim_frame:
  "bs_events (lease_claim h ms pk to e b) = bs_events (set_entry (pe_seq e) (\<lambda>e. e\<lparr>pe_lease := now_of h + ms\<rparr>) b)"
  "bs_polls (lease_claim h ms pk to e b) = bs_polls b"
  "bs_next_seq (lease_claim h ms pk to e b) = bs_next_seq b"
proof -
  let ?c = "set_entry (pe_seq e) (\<lambda>e. e\<lparr>pe_lease := now_of h + ms\<rparr>) b"
  let ?i = "get (pe_event e) ''id''"
  have "bs_events (lease_claim h ms pk to e b) = bs_events ?c \<and> bs_polls (lease_claim h ms pk to e b) = bs_polls b \<and>
    bs_next_seq (lease_claim h ms pk to e b) = bs_next_seq b"
  proof (cases "needs_scaffold (pe_event e)")
    case False
    then show ?thesis by (simp add: lease_claim_def Let_def)
  next
    case True
    show ?thesis
    proof (cases "bindE (record_agent_phase h ?i (JStr ''picked_up'') [] ?c)
        (record_agent_phase h ?i (JStr ''scaffolding'') [])")
      case (Inl err)
      with True show ?thesis by (simp add: lease_claim_def Let_def)
    next
      case (Inr b2)
      then obtain b1 where b1: "record_agent_phase h ?i (JStr ''picked_up'') [] ?c = Inr b1"
        "record_agent_phase h ?i (JStr ''scaffolding'') [] b1 = Inr b2"
        by (auto simp: bindE_Inr_iff)
      show ?thesis
        using True Inr record_agent_phase_frame [OF b1(1)] record_agent_phase_frame [OF b1(2)]
        by (simp add: lease_claim_def Let_def)
    qed
  qed
  then show "bs_events (lease_claim h ms pk to e b) = bs_events ?c"
    "bs_polls (lease_claim h ms pk to e b) = bs_polls b" "bs_next_seq (lease_claim h ms pk to e b) = bs_next_seq b"
    by blast+
qed

lemma lease_claim_flights:
  "set (bs_flights (lease_claim h ms pk to e b)) \<subseteq>
     insert \<lparr>fl_seq = pe_seq e, fl_event = pe_event e, fl_lease_ms = ms, fl_to = to, fl_parked = pk\<rparr>
       (set (bs_flights b))"
proof -
  let ?c = "set_entry (pe_seq e) (\<lambda>e. e\<lparr>pe_lease := now_of h + ms\<rparr>) b"
  let ?i = "get (pe_event e) ''id''"
  have "bs_flights b2 = bs_flights b"
    if "bindE (record_agent_phase h ?i (JStr ''picked_up'') [] ?c)
        (record_agent_phase h ?i (JStr ''scaffolding'') []) = Inr b2" for b2
  proof -
    from that obtain b1 where b1: "record_agent_phase h ?i (JStr ''picked_up'') [] ?c = Inr b1"
      "record_agent_phase h ?i (JStr ''scaffolding'') [] b1 = Inr b2"
      by (auto simp: bindE_Inr_iff)
    from record_agent_phase_frame(4) [OF b1(1)] record_agent_phase_frame(4) [OF b1(2)] show ?thesis by simp
  qed
  then show ?thesis
    by (auto simp: lease_claim_def Let_def split: sum.splits if_splits)
qed

lemma queue_ok_claim: "queue_ok b \<Longrightarrow> queue_ok (lease_claim h ms pk to e b)"
proof (rule queue_ok_same [of _ b])
  show "queue_keys (lease_claim h ms pk to e b) = queue_keys b"
    using lease_claim_frame(1) set_lease_keys queue_keys_events by metis
qed (simp_all add: lease_claim_frame)

lemma queue_ok_serve: "queue_ok b \<Longrightarrow> queue_ok (serve_poll h p e b)"
  unfolding serve_poll_def by (rule queue_ok_claim) (auto intro: queue_ok_same simp: queue_keys_def)

lemma length_serve: "bs_polls (serve_poll h p e b) = remove_first (\<lambda>q. pl_id q = pl_id p) (bs_polls b)"
  by (simp add: serve_poll_def lease_claim_frame)

lemma first_served_Some:
  "first_served h b ps = Some (p, e) \<Longrightarrow> p \<in> set ps \<and> find_available_pending_event h (pl_types p) b = Some e"
  by (induction ps) (auto split: option.splits)

lemma first_served_None:
  "first_served h b ps = None \<longleftrightarrow> (\<forall>p \<in> set ps. find_available_pending_event h (pl_types p) b = None)"
  by (induction ps) (auto split: option.splits)

lemma remove_first_shorter: "\<exists>x \<in> set xs. P x \<Longrightarrow> length xs = Suc (length (remove_first P xs))"
  by (induction xs) auto

lemma find_available_events:
  "bs_events b = bs_events b' \<Longrightarrow> find_available_pending_event h ts b = find_available_pending_event h ts b'"
  by (simp add: find_available_pending_event_def)

lemma queue_ok_flush: "queue_ok b \<Longrightarrow> queue_ok (flush_loop n h changed b)"
  by (induction n arbitrary: changed b) (auto simp: Let_def queue_ok_serve split: option.split)

lemma queue_ok_flush_polls: "queue_ok b \<Longrightarrow> queue_ok (flush_pending_polls h b)"
  unfolding flush_pending_polls_def by (rule queue_ok_flush)

lemma flush_loop_done:
  assumes "length (bs_polls b) < n"
  shows "\<forall>p \<in> set (bs_polls (flush_loop n h changed b)).
    find_available_pending_event h (pl_types p) (flush_loop n h changed b) = None"
  using assms
proof (induction n arbitrary: changed b)
  case (Suc n)
  show ?case
  proof (cases "first_served h b (bs_polls b)")
    case None
    then have none: "\<forall>p \<in> set (bs_polls b). find_available_pending_event h (pl_types p) b = None"
      by (simp add: first_served_None)
    have "find_available_pending_event h ts (broadcast_agent_polling_if_changed (schedule_lease_flush h b)) =
        find_available_pending_event h ts b" for ts
      by (rule find_available_events) simp
    with None none show ?thesis by (cases "bs_polls b = []") (simp_all add: Let_def)
  next
    case (Some pe)
    obtain p e where pe: "pe = (p, e)" by (cases pe)
    with Some have "p \<in> set (bs_polls b)" using first_served_Some by blast
    then have "length (bs_polls b) = Suc (length (bs_polls (serve_poll h p e b)))"
      unfolding length_serve by (intro remove_first_shorter) auto
    with Suc Some pe show ?thesis by simp
  qed
qed simp

lemma queue_ok_enqueue:
  assumes ok: "queue_ok b"
  shows "queue_ok (enqueue_event h event b)"
proof (cases "\<not> truthy event \<or> truthy (get event ''id'') \<and> (\<exists>e \<in> set (bs_events b). same_event (pe_event e) event)")
  case True
  with ok show ?thesis by (auto simp: enqueue_event_def)
next
  case False
  let ?e = "\<lparr>pe_event = event, pe_lease = 0, pe_seq = bs_next_seq b\<rparr>"
  let ?b = "b\<lparr>bs_events := bs_events b @ [?e], bs_next_seq := Suc (bs_next_seq b)\<rparr>"
  have "\<not> clash e ?e" if "e \<in> set (bs_events b)" for e
    using False that by (auto simp: clash_def)
  then have "queue_ok ?b"
    using ok by (auto simp: queue_ok_def seqs_ok_def no_duplicates_def sorted_wrt_append less_Suc_eq)
  then have "queue_ok (flush_pending_polls h ?b)" by (rule queue_ok_flush_polls)
  moreover have "enqueue_event h event b = flush_pending_polls h ?b"
    using False unfolding enqueue_event_def by auto
  ultimately show ?thesis by simp
qed

lemma queue_ok_ack: "queue_ok b \<Longrightarrow> queue_ok (snd (acknowledge_pending_event h i t b))"
  by (auto simp: acknowledge_pending_event_def intro: queue_ok_subset split: option.split)

lemma queue_ok_release: "queue_ok b \<Longrightarrow> queue_ok (snd (release_pending_event h i t b))"
  by (auto simp: release_pending_event_def split: option.split)

lemma queue_ok_drop: "queue_ok b \<Longrightarrow> queue_ok (snd (drop_events h P b))"
  by (auto simp: drop_events_def Let_def intro: queue_ok_subset)

lemma queue_ok_retire: "queue_ok b \<Longrightarrow> queue_ok (snd (retire_pending_generation h i b))"
  by (simp add: retire_pending_generation_def queue_ok_drop)

section \<open>Leases that settle\<close>

text \<open>
  A flight knows its entry: while the entry is queued, both name the same id,
  type and variant.
\<close>

definition flight_key :: "flight \<Rightarrow> nat \<times> jsval \<times> jsval \<times> jsval" where
  "flight_key f = (fl_seq f, get (fl_event f) ''id'', get (fl_event f) ''type'', get (fl_event f) ''variant'')"

definition flights_ok :: "bus \<Rightarrow> bool" where
  "flights_ok b \<longleftrightarrow> (\<forall>f \<in> set (bs_flights b). fl_seq f < bs_next_seq b \<and>
     (\<forall>k \<in> set (queue_keys b). fst k = fl_seq f \<longrightarrow> k = flight_key f))"

definition bus_ok :: "bus \<Rightarrow> bool" where
  "bus_ok b \<longleftrightarrow> queue_ok b \<and> flights_ok b"

lemma field_spread: "k \<notin> set (map fst ps) \<Longrightarrow> field (spread qs ps) k = field qs k"
proof (induction ps arbitrary: qs)
  case (Cons p ps)
  then show ?case by (cases p) (auto simp: spread_def)
qed (simp add: spread_def)

lemma get_with_props: "is_objty v \<Longrightarrow> \<not> is_arr v \<Longrightarrow> v \<noteq> JNull \<Longrightarrow> k \<notin> set (map fst ps) \<Longrightarrow> get (with_props v ps) k = get v k"
  by (cases v) (simp_all add: with_props_def field_spread)

lemma ty_is_obj: "ty_is v t \<Longrightarrow> is_objty v \<and> \<not> is_arr v \<and> v \<noteq> JNull"
  by (cases v) (simp_all add: ty_is_def)

lemma scaffolded_keys:
  assumes "needs_scaffold event"
  shows "get (scaffolded event r) ''id'' = get event ''id''" "get (scaffolded event r) ''type'' = get event ''type''"
    "get (scaffolded event r) ''variant'' = get event ''variant''"
  using assms ty_is_obj [of event "''generate''"] by (auto simp: needs_scaffold_def scaffolded_def get_with_props)

lemma delivered_keys:
  assumes "ty_is event ''generate''"
  shows "get (with_props event [(''generationReadyAt'', x)]) ''id'' = get event ''id''"
    "get (with_props event [(''generationReadyAt'', x)]) ''type'' = get event ''type''"
    "get (with_props event [(''generationReadyAt'', x)]) ''variant'' = get event ''variant''"
  using ty_is_obj [OF assms] by (auto simp: get_with_props)

lemma set_event_keys:
  assumes "\<forall>k \<in> set (queue_keys b). fst k = n \<longrightarrow> k = (n, get v ''id'', get v ''type'', get v ''variant'')"
  shows "queue_keys (set_entry n (\<lambda>e. e\<lparr>pe_event := v\<rparr>) b) = queue_keys b"
  using assms by (auto simp: queue_keys_def set_entry_def key_of_def)

lemma finish_prepare_frame:
  assumes "finish_prepare h r f b = Inr (ev, b')"
    and "\<forall>k \<in> set (queue_keys b). fst k = fl_seq f \<longrightarrow> k = flight_key f"
  shows "queue_keys b' = queue_keys b \<and> bs_next_seq b' = bs_next_seq b \<and> bs_flights b' = bs_flights b \<and>
    bs_polls b' = bs_polls b \<and> get ev ''id'' = get (fl_event f) ''id'' \<and> get ev ''type'' = get (fl_event f) ''type'' \<and>
    get ev ''variant'' = get (fl_event f) ''variant''"
proof (cases "needs_scaffold (fl_event f)")
  case False
  with assms(1) show ?thesis by (auto simp: finish_prepare_def Let_def)
next
  case True
  note keys = scaffolded_keys [OF True, of r]
  let ?v = "scaffolded (fl_event f) r"
  let ?b = "set_entry (fl_seq f) (\<lambda>e. e\<lparr>pe_event := ?v\<rparr>) b"
  have "finish_prepare h r f b = bindE (append_to_store h ?v ?b) (\<lambda>b.
       bindE (record_agent_phase h (get (fl_event f) ''id'')
           (JStr (if truthy (get r ''ok'') then ''source_ready'' else ''scaffold_fallback''))
           [(''durationMs'', js_coalesce (get r ''durationMs'') JNull),
            (''previewMode'', js_or (get (get r ''scaffold'') ''previewMode'') (JStr ''source''))] b)
         (\<lambda>b. Inr (?v, b)))"
    using True by (simp add: finish_prepare_def Let_def)
  from trans [OF this [symmetric] assms(1)] obtain b1 ph ds where "append_to_store h ?v ?b = Inr b1"
    "record_agent_phase h (get (fl_event f) ''id'') ph ds b1 = Inr b'" and ev: "ev = ?v"
    by (auto simp: bindE_Inr_iff)
  then have "bs_events b' = bs_events ?b" "bs_next_seq b' = bs_next_seq ?b" "bs_flights b' = bs_flights ?b"
    "bs_polls b' = bs_polls ?b"
    using append_to_store_frame [of h ?v ?b b1] record_agent_phase_frame [of h _ ph ds b1 b'] by simp_all
  moreover have "queue_keys ?b = queue_keys b"
    using assms(2) keys by (intro set_event_keys) (simp add: flight_key_def)
  ultimately show ?thesis using keys ev queue_keys_events [of b' ?b] by simp
qed

lemma record_generate_delivery_frame:
  assumes "record_generate_delivery h n event b = Inr (ev, b')"
    and "\<forall>k \<in> set (queue_keys b). fst k = n \<longrightarrow> k = (n, get event ''id'', get event ''type'', get event ''variant'')"
  shows "queue_keys b' = queue_keys b \<and> bs_next_seq b' = bs_next_seq b \<and> bs_flights b' = bs_flights b \<and>
    bs_polls b' = bs_polls b"
proof (cases "\<not> truthy event \<or> \<not> ty_is event ''generate'' \<or> truthy (get event ''generationReadyAt'')")
  case True
  with assms(1) show ?thesis by (auto simp: record_generate_delivery_def)
next
  case False
  let ?v = "with_props event [(''generationReadyAt'', jint (now_of h))]"
  let ?b = "set_entry n (\<lambda>e. e\<lparr>pe_event := ?v\<rparr>) b"
  have "record_generate_delivery h n event b = bindE (append_to_store h ?v ?b) (\<lambda>b.
       bindE (record_agent_phase h (get event ''id'') (JStr ''generation_ready'')
           [(''at'', jint (now_of h))] b) (\<lambda>b. Inr (?v, b)))"
    using False by (simp add: record_generate_delivery_def Let_def)
  from trans [OF this [symmetric] assms(1)] obtain b1 ph ds where "append_to_store h ?v ?b = Inr b1"
    "record_agent_phase h (get event ''id'') ph ds b1 = Inr b'"
    by (auto simp: bindE_Inr_iff)
  then have "bs_events b' = bs_events ?b" "bs_next_seq b' = bs_next_seq ?b" "bs_flights b' = bs_flights ?b"
    "bs_polls b' = bs_polls ?b"
    using append_to_store_frame [of h ?v ?b b1] record_agent_phase_frame [of h _ ph ds b1 b'] by simp_all
  moreover have "queue_keys ?b = queue_keys b"
    using assms(2) delivered_keys [of event] False by (intro set_event_keys) simp
  ultimately show ?thesis using queue_keys_events [of b' ?b] by simp
qed

definition frame_eq :: "bus \<Rightarrow> bus \<Rightarrow> bool" where
  "frame_eq b b' \<longleftrightarrow> queue_keys b' = queue_keys b \<and> bs_next_seq b' = bs_next_seq b \<and> bs_flights b' = bs_flights b"

lemma bus_ok_frame: "frame_eq b b' \<Longrightarrow> bus_ok b \<Longrightarrow> bus_ok b'"
  by (auto simp: frame_eq_def bus_ok_def queue_ok_keys flights_ok_def)

lemma flights_ok_subset:
  assumes "flights_ok b" "set (bs_flights b') \<subseteq> set (bs_flights b)" "set (queue_keys b') \<subseteq> set (queue_keys b)"
    "bs_next_seq b' = bs_next_seq b"
  shows "flights_ok b'"
  using assms by (auto simp: flights_ok_def)

lemma bus_ok_frame_iff: "frame_eq b b' \<Longrightarrow> bus_ok b' = bus_ok b"
  by (simp add: frame_eq_def bus_ok_def queue_ok_keys flights_ok_def)

lemma bus_ok_same: "bs_events b' = bs_events b \<Longrightarrow> bs_next_seq b' = bs_next_seq b \<Longrightarrow> bs_flights b' = bs_flights b
  \<Longrightarrow> bus_ok b' = bus_ok b"
  by (rule bus_ok_frame_iff) (simp add: frame_eq_def queue_keys_def)

lemma bus_ok_frame_simps [simp]:
  "bus_ok (broadcast m b) = bus_ok b"
  "bus_ok (broadcast_agent_polling_if_changed b) = bus_ok b"
  "bus_ok (schedule_lease_flush h b) = bus_ok b"
  "bus_ok (answer_poll h pk n v b) = bus_ok b"
  by (rule bus_ok_same; simp)+

lemma bus_ok_set_lease [simp]: "bus_ok (set_entry k (\<lambda>e. e\<lparr>pe_lease := t\<rparr>) b) = bus_ok b"
  by (rule bus_ok_frame_iff) (simp add: frame_eq_def)

lemma bus_ok_subset:
  assumes "bus_ok b" "bs_events b' = remove_first P (bs_events b) \<or> bs_events b' = filter P (bs_events b)"
    "bs_next_seq b' = bs_next_seq b" "bs_flights b' = bs_flights b"
  shows "bus_ok b'"
proof -
  have "set (bs_events b') \<subseteq> set (bs_events b)" using assms(2) remove_first_subset [of P "bs_events b"] by auto
  then have "set (queue_keys b') \<subseteq> set (queue_keys b)" by (auto simp: queue_keys_def)
  then have "flights_ok b'"
    using assms(1,3,4) flights_ok_subset [of b b'] by (simp add: bus_ok_def)
  then show ?thesis using assms queue_ok_subset [of b b' P] by (simp add: bus_ok_def)
qed

lemma bus_ok_claim:
  assumes ok: "bus_ok b" and e: "e \<in> set (bs_events b)"
  shows "bus_ok (lease_claim h ms pk to e b)"
proof -
  let ?b = "lease_claim h ms pk to e b"
  let ?f = "\<lparr>fl_seq = pe_seq e, fl_event = pe_event e, fl_lease_ms = ms, fl_to = to, fl_parked = pk\<rparr>"
  have keys: "queue_keys ?b = queue_keys b"
    using lease_claim_frame(1) set_lease_keys queue_keys_events by metis
  have "queue_ok b" using ok by (simp add: bus_ok_def)
  then have d: "distinct (map pe_seq (bs_events b))" "pe_seq e < bs_next_seq b"
    using e by (auto simp: queue_ok_def seqs_ok_def)
  have "k = flight_key ?f" if k: "k \<in> set (queue_keys b)" "fst k = pe_seq e" for k
  proof -
    obtain e' where e': "e' \<in> set (bs_events b)" "k = key_of e'" using k(1) by (auto simp: queue_keys_def)
    with k(2) have "pe_seq e' = pe_seq e" by (simp add: key_of_def)
    with d(1) e e' have "e' = e" by (auto simp: distinct_map dest: inj_onD)
    with e' show ?thesis by (simp add: key_of_def flight_key_def)
  qed
  moreover have "flights_ok b" using ok by (simp add: bus_ok_def)
  ultimately have "flights_ok ?b"
    using lease_claim_flights [of h ms pk to e b] d(2)
    unfolding flights_ok_def keys lease_claim_frame(3) by auto
  then show ?thesis using ok queue_ok_claim by (simp add: bus_ok_def)
qed

lemma find_available_in: "find_available_pending_event h ts b = Some e \<Longrightarrow> e \<in> set (bs_events b)"
  unfolding find_available_pending_event_def by (rule select_available_Some)

lemma bus_ok_fields [simp]: "bus_ok (b\<lparr>bs_polls := ps\<rparr>) = bus_ok b"
  "bus_ok (b\<lparr>bs_store := st\<rparr>) = bus_ok b" "bus_ok (b\<lparr>bs_last_poll := t\<rparr>) = bus_ok b"
  "bus_ok (b\<lparr>bs_clients := cl\<rparr>) = bus_ok b" "bus_ok (b\<lparr>bs_timer := tm\<rparr>) = bus_ok b"
  by (rule bus_ok_same; simp)+

lemma bus_ok_serve: "bus_ok b \<Longrightarrow> e \<in> set (bs_events b) \<Longrightarrow> bus_ok (serve_poll h p e b)"
  unfolding serve_poll_def by (rule bus_ok_claim) simp_all

lemma bus_ok_flush_loop: "bus_ok b \<Longrightarrow> bus_ok (flush_loop n h changed b)"
proof (induction n arbitrary: changed b)
  case (Suc n)
  have "bus_ok (serve_poll h p e b)" if "first_served h b (bs_polls b) = Some (p, e)" for p e
    using Suc.prems first_served_Some [OF that] find_available_in by (blast intro: bus_ok_serve)
  with Suc show ?case by (auto simp: Let_def split: option.split)
qed (simp add: Let_def)

lemma bus_ok_flush: "bus_ok b \<Longrightarrow> bus_ok (flush_pending_polls h b)"
  unfolding flush_pending_polls_def by (rule bus_ok_flush_loop)

lemma bus_ok_enqueue:
  assumes ok: "bus_ok b"
  shows "bus_ok (enqueue_event h event b)"
proof (cases "\<not> truthy event \<or> truthy (get event ''id'') \<and> (\<exists>e \<in> set (bs_events b). same_event (pe_event e) event)")
  case True
  with ok show ?thesis by (auto simp: enqueue_event_def)
next
  case False
  let ?e = "\<lparr>pe_event = event, pe_lease = 0, pe_seq = bs_next_seq b\<rparr>"
  let ?b = "b\<lparr>bs_events := bs_events b @ [?e], bs_next_seq := Suc (bs_next_seq b)\<rparr>"
  have "\<not> clash e ?e" if "e \<in> set (bs_events b)" for e
    using False that by (auto simp: clash_def)
  then have "queue_ok ?b"
    using ok by (auto simp: bus_ok_def queue_ok_def seqs_ok_def no_duplicates_def sorted_wrt_append less_Suc_eq)
  moreover have "queue_keys ?b = queue_keys b @ [key_of ?e]" by (simp add: queue_keys_def)
  then have "flights_ok ?b"
    using ok by (auto simp: bus_ok_def flights_ok_def less_Suc_eq key_of_def)
  ultimately have "bus_ok ?b" by (simp add: bus_ok_def)
  then have "bus_ok (flush_pending_polls h ?b)" by (rule bus_ok_flush)
  moreover have "enqueue_event h event b = flush_pending_polls h ?b"
    using False unfolding enqueue_event_def by auto
  ultimately show ?thesis by simp
qed

lemma bus_ok_ack: "bus_ok b \<Longrightarrow> bus_ok (snd (acknowledge_pending_event h i t b))"
  by (auto simp: acknowledge_pending_event_def intro: bus_ok_subset split: option.split)

lemma bus_ok_release: "bus_ok b \<Longrightarrow> bus_ok (snd (release_pending_event h i t b))"
  by (auto simp: release_pending_event_def split: option.split)

lemma bus_ok_drop: "bus_ok b \<Longrightarrow> bus_ok (snd (drop_events h P b))"
  by (auto simp: drop_events_def Let_def intro: bus_ok_subset)

lemma bus_ok_retire: "bus_ok b \<Longrightarrow> bus_ok (snd (retire_pending_generation h i b))"
  by (simp add: retire_pending_generation_def bus_ok_drop)

lemma bus_ok_cancel: "bus_ok b \<Longrightarrow> bus_ok (snd (cancel_queued_anonymous_exit_events h b))"
  by (simp add: cancel_queued_anonymous_exit_events_def bus_ok_drop)

lemma bus_ok_finish_lease:
  assumes ok: "bus_ok b" and res: "finish_lease h f event b = Inr (ev, b')"
    and key: "\<forall>k \<in> set (queue_keys b). fst k = fl_seq f \<longrightarrow>
      k = (fl_seq f, get event ''id'', get event ''type'', get event ''variant'')"
  shows "bus_ok b'"
proof (cases "truthy (get event ''id'')")
  case False
  with res ok show ?thesis by (auto simp: finish_lease_def intro: bus_ok_subset)
next
  case True
  let ?b = "set_entry (fl_seq f) (\<lambda>e. e\<lparr>pe_lease := now_of h + fl_lease_ms f\<rparr>) b"
  from True res obtain b1 where b1: "record_generate_delivery h (fl_seq f) event ?b = Inr (ev, b1)"
    "b' = broadcast_agent_polling_if_changed (schedule_lease_flush h b1)"
    by (auto simp: finish_lease_def bindE_Inr_iff)
  from record_generate_delivery_frame [OF b1(1)] key have "frame_eq ?b b1" by (simp add: frame_eq_def)
  moreover have "bus_ok ?b" using ok by simp
  ultimately have "bus_ok b1" by (rule bus_ok_frame)
  then show ?thesis using b1(2) by simp
qed

lemma bus_ok_settle:
  assumes ok: "bus_ok b"
  shows "bus_ok (lease_settle h result k b)"
proof (cases "k \<ge> length (bs_flights b)")
  case True
  with ok show ?thesis by (simp add: lease_settle_def)
next
  case False
  define f where "f = bs_flights b ! k"
  define b0 where "b0 = b\<lparr>bs_flights := take k (bs_flights b) @ drop (Suc k) (bs_flights b)\<rparr>"
  have f: "f \<in> set (bs_flights b)" using False by (simp add: f_def)
  have sub: "set (bs_flights b0) \<subseteq> set (bs_flights b)"
    using set_take_subset [of k "bs_flights b"] set_drop_subset [of "Suc k" "bs_flights b"] by (auto simp: b0_def)
  have keys: "queue_keys b0 = queue_keys b" "bs_next_seq b0 = bs_next_seq b" by (simp_all add: b0_def queue_keys_def)
  have ok0: "bus_ok b0"
    using ok sub keys flights_ok_subset [of b b0] by (simp add: bus_ok_def queue_ok_keys)
  have kf: "\<forall>k \<in> set (queue_keys b0). fst k = fl_seq f \<longrightarrow> k = flight_key f"
    using ok f keys by (simp add: bus_ok_def flights_ok_def)
  have "bus_ok b2" if res: "bindE (finish_prepare h result f b0) (\<lambda>(event, b). finish_lease h f event b) = Inr (ev, b2)"
    for ev b2
  proof -
    from res obtain ev1 b1 where p: "finish_prepare h result f b0 = Inr (ev1, b1)"
      "finish_lease h f ev1 b1 = Inr (ev, b2)"
      by (auto simp: bindE_Inr_iff)
    note fr = finish_prepare_frame [OF p(1) kf]
    have "bus_ok b1" using fr ok0 bus_ok_frame [of b0 b1] by (simp add: frame_eq_def)
    have e: "(fl_seq f, get ev1 ''id'', get ev1 ''type'', get ev1 ''variant'') = flight_key f"
      using fr by (simp add: flight_key_def)
    have "\<forall>k \<in> set (queue_keys b1). fst k = fl_seq f \<longrightarrow>
        k = (fl_seq f, get ev1 ''id'', get ev1 ''type'', get ev1 ''variant'')"
      unfolding e using fr kf by simp
    with \<open>bus_ok b1\<close> p(2) show ?thesis by (rule bus_ok_finish_lease)
  qed
  moreover have "lease_settle h result k b =
     (case bindE (finish_prepare h result f b0) (\<lambda>(event, b). finish_lease h f event b) of
            Inl err \<Rightarrow> answer_poll h (fl_parked f) (fl_to f) timeout_reply b0
          | Inr (event, b) \<Rightarrow> answer_poll h (fl_parked f) (fl_to f) event b)"
    unfolding lease_settle_def f_def b0_def Let_def using False by simp
  ultimately show ?thesis using ok0 by (auto split: sum.split)
qed

section \<open>Every history of the queue\<close>

definition park_poll :: "host \<Rightarrow> poll \<Rightarrow> bus \<Rightarrow> bus" where
  \<comment> \<open>the part of \<open>handlePollGet\<close> after the parameters are read\<close>
  "park_poll h p b =
    (case find_available_pending_event h (pl_types p) b of
       Some e \<Rightarrow> lease_claim h (pl_lease_ms p) False (pl_id p) e b
     | None \<Rightarrow> schedule_lease_flush h (broadcast_agent_polling_if_changed (b\<lparr>bs_polls := bs_polls b @ [p]\<rparr>)))"

definition drop_poll :: "nat \<Rightarrow> bus \<Rightarrow> bus" where
  \<comment> \<open>the connection of a parked poll closed\<close>
  "drop_poll n b = broadcast_agent_polling_if_changed
    (b\<lparr>bs_polls := remove_first (\<lambda>q. pl_id q = n) (bs_polls b)\<rparr>)"

definition time_out_poll :: "nat \<Rightarrow> bus \<Rightarrow> bus" where
  "time_out_poll n b = answer n timeout_reply (drop_poll n b)"

definition lease_timer_fires :: "host \<Rightarrow> bus \<Rightarrow> bus" where
  "lease_timer_fires h b = broadcast_agent_polling_if_changed (flush_pending_polls h (b\<lparr>bs_timer := None\<rparr>))"

definition empty_bus :: "store \<Rightarrow> bus" where
  "empty_bus st = \<lparr>bs_clients = [], bs_events = [], bs_polls = [], bs_next_seq = 1, bs_polling_told = None,
     bs_timer = None, bs_flights = [], bs_answers = [], bs_last_poll = 0, bs_store = st\<rparr>"

inductive bus_run :: "bus \<Rightarrow> bool" where
  boot: "bus_run (empty_bus st)"
| enqueue: "bus_run b \<Longrightarrow> bus_run (enqueue_event h ev b)"
| poll: "bus_run b \<Longrightarrow> bus_run (park_poll h p b)"
| hang_up: "bus_run b \<Longrightarrow> bus_run (drop_poll n b)"
| wait_over: "bus_run b \<Longrightarrow> bus_run (time_out_poll n b)"
| timer: "bus_run b \<Longrightarrow> bus_run (lease_timer_fires h b)"
| settle: "bus_run b \<Longrightarrow> bus_run (lease_settle h result k b)"
| ack: "bus_run b \<Longrightarrow> bus_run (snd (acknowledge_pending_event h i t b))"
| release: "bus_run b \<Longrightarrow> bus_run (snd (release_pending_event h i t b))"
| retire: "bus_run b \<Longrightarrow> bus_run (snd (retire_pending_generation h i b))"
| cancel_exit: "bus_run b \<Longrightarrow> bus_run (snd (cancel_queued_anonymous_exit_events h b))"
| flush_polls: "bus_run b \<Longrightarrow> bus_run (flush_pending_polls h b)"
| journal: "bus_run b \<Longrightarrow> append_to_store h ev b = Inr b' \<Longrightarrow> bus_run b'"
| say: "bus_run b \<Longrightarrow> bus_run (broadcast m b)"

lemma bus_ok_park: "bus_ok b \<Longrightarrow> bus_ok (park_poll h p b)"
  by (auto simp: park_poll_def intro: bus_ok_claim dest: find_available_in split: option.split)

lemma bus_ok_answer [simp]: "bus_ok (answer n v b) = bus_ok b"
  by (rule bus_ok_same) (simp_all add: answer_def)

lemma bus_ok_drop_poll: "bus_ok b \<Longrightarrow> bus_ok (drop_poll n b)"
  by (simp add: drop_poll_def)

lemma bus_ok_append: "append_to_store h ev b = Inr b' \<Longrightarrow> bus_ok b' = bus_ok b"
  by (rule bus_ok_same) (simp_all add: append_to_store_frame)

lemma bus_ok_timer: "bus_ok b \<Longrightarrow> bus_ok (lease_timer_fires h b)"
  by (simp add: lease_timer_fires_def bus_ok_flush)

lemma bus_ok_run: "bus_run b \<Longrightarrow> bus_ok b"
proof (induction rule: bus_run.induct)
  case (boot st)
  show ?case by (simp add: empty_bus_def bus_ok_def queue_ok_def seqs_ok_def no_duplicates_def flights_ok_def)
qed (simp_all add: bus_ok_enqueue bus_ok_park bus_ok_drop_poll time_out_poll_def bus_ok_timer bus_ok_settle bus_ok_ack
    bus_ok_release bus_ok_retire bus_ok_cancel bus_ok_flush bus_ok_append)

section \<open>Properties\<close>

text \<open>
  C15. The queue holds no event twice: in every state the server can reach, the
  queued events have distinct sequence numbers, and an event with an id has no
  earlier queued event of the same id and type (and, for a mount failure, of the
  same variant).
\<close>

theorem queue_has_no_duplicates:
  assumes "bus_run b"
  shows "distinct (map pe_seq (bs_events b)) \<and>
    sorted_wrt (\<lambda>earlier e. \<not> (truthy (get (pe_event e) ''id'') \<and> same_event (pe_event earlier) (pe_event e)))
      (bs_events b)"
  using bus_ok_run [OF assms] by (simp add: bus_ok_def queue_ok_def seqs_ok_def no_duplicates_def clash_def)

theorem queue_has_no_duplicates_witness:
  "distinct (map pe_seq (bs_events (enqueue_event sample_host (sample_event ''accept'' [])
     (enqueue_event sample_host (sample_event ''accept'' []) (empty_bus sample_store)))))"
  using queue_has_no_duplicates [OF bus_run.enqueue [OF bus_run.enqueue [OF bus_run.boot]]] by blast

text \<open>
  C16. No poll starves: after the parked polls were flushed, no poll still waits
  for which the queue has an event of a wanted type that is not leased.
\<close>

theorem flush_serves_every_poll:
  "\<not> (\<exists>p \<in> set (bs_polls (flush_pending_polls h b)).
       find_available_pending_event h (pl_types p) (flush_pending_polls h b) \<noteq> None)"
  using flush_loop_done [of b "Suc (length (bs_polls b))" h False] by (auto simp: flush_pending_polls_def)


definition two_events :: bus where
  "two_events = (empty_bus sample_store)\<lparr>bs_events :=
     [\<lparr>pe_event = sample_event ''accept'' [], pe_lease = 0, pe_seq = 1\<rparr>,
      \<lparr>pe_event = sample_event ''steer'' [], pe_lease = 0, pe_seq = 2\<rparr>], bs_next_seq := 3\<rparr>"


text \<open>
  An acknowledgement takes the first queued event of the id and type it
  names, and only that one: it reports the event it took, and every other event
  stays queued in order.
\<close>

theorem acknowledge_takes_one:
  "case acknowledge_pending_event h i t b of
     (None, b') \<Rightarrow> b' = b \<and> (truthy i \<longrightarrow> \<not> (\<exists>e \<in> set (bs_events b). event_for i t e))
   | (Some ev, b') \<Rightarrow> \<exists>us e vs. bs_events b = us @ e # vs \<and> bs_events b' = us @ vs \<and> pe_event e = ev
       \<and> event_for i t e \<and> \<not> (\<exists>u \<in> set us. event_for i t u)"
proof (cases "truthy i \<and> List.find (event_for i t) (bs_events b) \<noteq> None")
  case True
  then obtain e where e: "List.find (event_for i t) (bs_events b) = Some e" by blast
  with True remove_first_some [OF e] show ?thesis
    by (auto simp: acknowledge_pending_event_def)
next
  case False
  then have "acknowledge_pending_event h i t b = (None, b)"
    by (auto simp: acknowledge_pending_event_def)
  with False show ?thesis by (auto simp: find_None_iff)
qed

theorem acknowledge_takes_one_witness:
  "case acknowledge_pending_event sample_host (JStr ''a1b2c3d4'') (JStr ''steer'') two_events of
     (None, b') \<Rightarrow> b' = two_events \<and> (truthy (JStr ''a1b2c3d4'') \<longrightarrow>
        \<not> (\<exists>e \<in> set (bs_events two_events). event_for (JStr ''a1b2c3d4'') (JStr ''steer'') e))
   | (Some ev, b') \<Rightarrow> \<exists>us e vs. bs_events two_events = us @ e # vs \<and> bs_events b' = us @ vs \<and> pe_event e = ev
       \<and> event_for (JStr ''a1b2c3d4'') (JStr ''steer'') e
       \<and> \<not> (\<exists>u \<in> set us. event_for (JStr ''a1b2c3d4'') (JStr ''steer'') u)"
  by (rule acknowledge_takes_one)

text \<open>
  A stale worker cannot consume an accept: a reply \<open>done\<close>, \<open>agent_done\<close> or
  \<open>error\<close> for an id none of whose queued events is leased, acknowledged under the
  source type the server infers, leaves every queued accept where it is.
\<close>

theorem stale_reply_keeps_accepts:
  assumes "ty_is msg ''done'' \<or> ty_is msg ''agent_done'' \<or> ty_is msg ''error''"
    and "\<not> (\<exists>e \<in> set (bs_events b). strict_eq (get (pe_event e) ''id'') (get msg ''id'') \<and> is_leased h e)"
    and "e \<in> set (bs_events b)" and "ty_is (pe_event e) ''accept''"
  shows "e \<in> set (bs_events (snd (acknowledge_pending_event h (get msg ''id'')
    (infer_source_event_type h msg (bs_events b)) b)))"
proof -
  let ?t = "infer_source_event_type h msg (bs_events b)"
  have "List.find (is_leased h) (filter (\<lambda>e. strict_eq (get (pe_event e) ''id'') (get msg ''id'')) (bs_events b)) = None"
    using assms(2) by (auto simp: find_None_iff)
  then have "?t = JStr ''generate'' \<or> ?t = JStr ''variant_mount_failed''"
    using assms(1) by (auto simp: infer_source_event_type_def Let_def ty_is_def)
  then have not_mine: "\<not> event_for (get msg ''id'') ?t e"
    using assms(4) by (auto simp: event_for_def ty_is_def)
  show ?thesis
  proof (cases "List.find (event_for (get msg ''id'') ?t) (bs_events b)")
    case None
    with assms(3) show ?thesis by (simp add: acknowledge_pending_event_def)
  next
    case (Some e')
    obtain us vs where "bs_events b = us @ e' # vs"
      "remove_first (event_for (get msg ''id'') ?t) (bs_events b) = us @ vs" "event_for (get msg ''id'') ?t e'"
      using remove_first_some [OF Some] by blast
    with Some assms(3) not_mine show ?thesis
      by (auto simp: acknowledge_pending_event_def)
  qed
qed

theorem stale_reply_keeps_accepts_witness:
  "\<lparr>pe_event = sample_event ''accept'' [], pe_lease = 0, pe_seq = 1\<rparr> \<in>
     set (bs_events (snd (acknowledge_pending_event sample_host (get (sample_event ''error'' []) ''id'')
       (infer_source_event_type sample_host (sample_event ''error'' []) (bs_events two_events)) two_events)))"
  by (rule stale_reply_keeps_accepts) (simp_all add: two_events_def ty_is_def sample_event_def is_leased_def entry_leased_def)

text \<open>
  Retiring a generation removes exactly the queued generate events of that
  session and counts them.
\<close>

theorem retire_removes_generates:
  "bs_events (snd (retire_pending_generation h (JStr i) b)) =
     filter (\<lambda>e. \<not> (i \<noteq> [] \<and> get (pe_event e) ''id'' = JStr i \<and> ty_is (pe_event e) ''generate'')) (bs_events b) \<and>
   length (bs_events b) = fst (retire_pending_generation h (JStr i) b) +
     length (bs_events (snd (retire_pending_generation h (JStr i) b)))"
  by (simp add: retire_pending_generation_def drop_events_events drop_events_count del: de_Morgan_conj)

end
