(* ===== verification/Queue_Sessions.thy ===== *)
theory Queue_Sessions
  imports Event_Queue
begin

text \<open>
  Which sessions the live server's queue can bring into being. Leasing a generate
  event writes to that event's journal, and an append makes the journal it is
  handed; \<open>adds b b'\<close> says that an operation made no session but those of the
  generate events queued or in flight, and queued no new one.
\<close>

section \<open>Sessions and generate events\<close>

definition stored :: "store \<Rightarrow> string set" where
  "stored st = fst ` set (dk_primary (st_disk st)) \<union> fst ` set (dk_legacy (st_disk st))"

definition generate_id :: "nat \<times> jsval \<times> jsval \<times> jsval \<Rightarrow> string set" where
  "generate_id = (\<lambda>(_, i, t, _). if t = JStr ''generate'' \<and> is_str i \<and> safe_id (str_of i) then {str_of i} else {})"

definition generates :: "bus \<Rightarrow> string set" where
  "generates b = \<Union> (generate_id ` (set (queue_keys b) \<union> flight_key ` set (bs_flights b)))"

definition adds :: "bus \<Rightarrow> bus \<Rightarrow> bool" where
  "adds b b' \<longleftrightarrow> stored (bs_store b) \<subseteq> stored (bs_store b') \<and>
     stored (bs_store b') \<subseteq> stored (bs_store b) \<union> generates b \<and> generates b' \<subseteq> generates b"

lemma adds_refl [simp, intro]: "adds b b"
  by (simp add: adds_def)

lemma adds_trans [trans]: "adds a b \<Longrightarrow> adds b c \<Longrightarrow> adds a c"
  unfolding adds_def by blast

lemma adds_same:
  "queue_keys b' = queue_keys b \<Longrightarrow> bs_flights b' = bs_flights b \<Longrightarrow> bs_store b' = bs_store b \<Longrightarrow> adds b b'"
  by (simp add: adds_def generates_def)

lemma adds_fewer:
  "set (bs_events b') \<subseteq> set (bs_events b) \<Longrightarrow> set (bs_flights b') \<subseteq> set (bs_flights b) \<Longrightarrow> bs_store b' = bs_store b \<Longrightarrow> adds b b'"
  unfolding adds_def generates_def queue_keys_def by (simp add: image_mono UN_mono) blast

lemma generates_events:
  "e \<in> set (bs_events b) \<Longrightarrow> ty_is (pe_event e) ''generate'' \<Longrightarrow> get (pe_event e) ''id'' = JStr i \<Longrightarrow> safe_id i \<Longrightarrow> i \<in> generates b"
  by (force simp: generates_def queue_keys_def generate_id_def key_of_def ty_is_def)

lemma generates_flights:
  "f \<in> set (bs_flights b) \<Longrightarrow> ty_is (fl_event f) ''generate'' \<Longrightarrow> get (fl_event f) ''id'' = JStr i \<Longrightarrow> safe_id i \<Longrightarrow> i \<in> generates b"
  by (force simp: generates_def generate_id_def flight_key_def ty_is_def)

section \<open>Appends\<close>

lemma stored_derive [simp]: "st_disk (snd (derive_state h a i st)) = st_disk st"
  by (simp add: derive_state_def Let_def split: option.split)

lemma set_keys_alset [simp]: "fst ` set (alset k v kvs) = insert k (fst ` set kvs)"
  using arg_cong [OF keys_alset [of k v kvs], of set] by auto

lemma stored_adopt: "insert i (stored (adopt_legacy h i st)) = insert i (stored st)"
proof (cases "map_of (dk_legacy (st_disk st)) i")
  case None
  then show ?thesis by (simp add: adopt_legacy_def)
next
  case (Some f)
  then show ?thesis by (simp add: adopt_legacy_def stored_def)
qed

lemma stored_append_safe: "stored (snd (append_safe h i ev st)) = insert i (stored st)"
proof -
  obtain prior entry st' where b: "append_begin h i ev st = (prior, entry, st')"
    by (cases "append_begin h i ev st")
  then have "st_disk st' = append_line h i (Line (json_norm entry)) (st_disk (adopt_legacy h i st))"
    by (auto simp: append_begin_def Let_def split: prod.splits dest: arg_cong [of _ _ snd] arg_cong [of _ _ "\<lambda>x. st_disk (snd x)"])
  then have "stored st' = insert i (stored (adopt_legacy h i st))"
    by (simp add: stored_def append_line_def)
  also have "\<dots> = insert i (stored st)" by (rule stored_adopt)
  finally show ?thesis
    using b by (simp add: append_safe_def append_end_def persist_def write_snapshot_def stored_def Let_def)
qed

lemma append_event_stored:
  assumes "append_event h JUndef ev st = Inr (s, st')"
  shows "\<exists>i. get ev ''id'' = JStr i \<and> safe_id i \<and> stored st' = insert i (stored st)"
proof -
  from assms obtain v n where n: "normalize_event ev JUndef = Inr (v, n)" "safe_id v"
      "append_safe h v n st = (s, st')"
    by (auto simp: append_event_def bindE_Inr_iff safe_session_id_def split: if_splits)
  then have "get ev ''id'' = JStr v"
    by (auto simp: normalize_event_def Let_def js_or_def split: if_splits elim: is_str.elims)
  then show ?thesis using n stored_append_safe [of h v n st] by simp
qed

lemma append_to_store_stored:
  assumes "append_to_store h ev b = Inr b'"
  shows "\<exists>i. get ev ''id'' = JStr i \<and> safe_id i \<and> stored (bs_store b') = insert i (stored (bs_store b))"
  using assms append_event_stored by (fastforce simp: append_to_store_def bindE_Inr_iff)

lemma record_agent_phase_stored:
  assumes "record_agent_phase h i ph ds b = Inr b'" and "''id'' \<notin> set (map fst ds)" and "truthy i"
  shows "\<exists>j. i = JStr j \<and> safe_id j \<and> stored (bs_store b') = insert j (stored (bs_store b))"
proof -
  let ?ev = "JObj (spread [(''type'', JStr ''agent_phase''), (''id'', i), (''phase'', ph), (''at'', jint (now_of h))] ds)"
  from assms(1,3) obtain c where "append_to_store h ?ev b = Inr c" "b' = broadcast ?ev c"
    by (auto simp: record_agent_phase_def Let_def bindE_Inr_iff)
  moreover have "get ?ev ''id'' = i" using field_spread [OF assms(2)] by simp
  ultimately show ?thesis using append_to_store_stored [of h ?ev b c] by auto
qed

lemma append_adds:
  assumes "append_to_store h ev b = Inr b'" and "\<And>i. get ev ''id'' = JStr i \<Longrightarrow> safe_id i \<Longrightarrow> i \<in> generates b"
  shows "adds b b'"
proof -
  obtain i where "get ev ''id'' = JStr i" "safe_id i" "stored (bs_store b') = insert i (stored (bs_store b))"
    using append_to_store_stored [OF assms(1)] by blast
  moreover have "generates b' = generates b"
    using append_to_store_frame [OF assms(1)] by (simp add: generates_def queue_keys_def)
  ultimately show ?thesis using assms(2) by (auto simp: adds_def)
qed

lemma phase_adds:
  assumes "record_agent_phase h i ph ds b = Inr b'" and "''id'' \<notin> set (map fst ds)"
    and "\<And>j. i = JStr j \<Longrightarrow> safe_id j \<Longrightarrow> j \<in> generates b"
  shows "adds b b'"
proof (cases "truthy i")
  case True
  obtain j where "i = JStr j" "safe_id j" "stored (bs_store b') = insert j (stored (bs_store b))"
    using record_agent_phase_stored [OF assms(1,2) True] by blast
  moreover have "generates b' = generates b"
    using record_agent_phase_frame [OF assms(1)] by (simp add: generates_def queue_keys_def)
  ultimately show ?thesis using assms(3) by (auto simp: adds_def)
next
  case False
  with assms(1) show ?thesis by (simp add: record_agent_phase_def)
qed

section \<open>The operations of the queue\<close>

lemma adds_frame [simp]:
  "adds b (broadcast m b') = adds b b'"
  "adds b (broadcast_agent_polling_if_changed b') = adds b b'"
  "adds b (schedule_lease_flush h b') = adds b b'"
  "adds b (answer_poll h pk n v b') = adds b b'"
  "adds b (answer n v b') = adds b b'"
  "adds b (set_entry k (\<lambda>e. e\<lparr>pe_lease := t\<rparr>) b') = adds b b'"
  by (simp_all add: adds_def generates_def answer_def) (simp_all add: queue_keys_def)

lemma adds_fields [simp]:
  "adds b (b'\<lparr>bs_polls := ps\<rparr>) = adds b b'" "adds b (b'\<lparr>bs_timer := tm\<rparr>) = adds b b'"
  "adds b (b'\<lparr>bs_last_poll := t\<rparr>) = adds b b'" "adds b (b'\<lparr>bs_clients := cl\<rparr>) = adds b b'"
  by (simp_all add: adds_def generates_def queue_keys_def)

lemma ready_event_flight:
  assumes "adds b b'" and "e \<in> set (bs_events b)"
  shows "adds b (b'\<lparr>bs_flights := bs_flights b' @ [\<lparr>fl_seq = n, fl_event = pe_event e, fl_lease_ms = ms, fl_to = to, fl_parked = pk\<rparr>]\<rparr>)"
proof -
  let ?f = "\<lparr>fl_seq = n, fl_event = pe_event e, fl_lease_ms = ms, fl_to = to, fl_parked = pk\<rparr>"
  have "generate_id (flight_key ?f) = generate_id (key_of e)"
    by (simp add: generate_id_def flight_key_def key_of_def)
  also have "\<dots> \<subseteq> generates b" using assms(2) by (auto simp: generates_def queue_keys_def)
  finally show ?thesis using assms(1) by (auto simp: adds_def generates_def queue_keys_def)
qed

lemma adds_claim:
  assumes e: "e \<in> set (bs_events b)"
  shows "adds b (lease_claim h ms pk to e b)"
proof -
  let ?c = "set_entry (pe_seq e) (\<lambda>e. e\<lparr>pe_lease := now_of h + ms\<rparr>) b"
  let ?i = "get (pe_event e) ''id''"
  have c: "adds b ?c" by simp
  show ?thesis
  proof (cases "needs_scaffold (pe_event e)")
    case False
    then show ?thesis using ready_event_flight [OF c e] by (simp add: lease_claim_def Let_def)
  next
    case True
    then have gen: "j \<in> generates b" if "?i = JStr j" "safe_id j" for j
      using generates_events [OF e] that by (simp add: needs_scaffold_def)
    show ?thesis
    proof (cases "bindE (record_agent_phase h ?i (JStr ''picked_up'') [] ?c)
        (record_agent_phase h ?i (JStr ''scaffolding'') [])")
      case (Inl err)
      with True show ?thesis by (simp add: lease_claim_def Let_def)
    next
      case (Inr b2)
      then obtain b1 where b1: "record_agent_phase h ?i (JStr ''picked_up'') [] ?c = Inr b1"
        "record_agent_phase h ?i (JStr ''scaffolding'') [] b1 = Inr b2"
        by (auto simp: bindE_Inr_iff)
      have c': "generates ?c = generates b" by (simp add: generates_def)
      have "generates b1 = generates b"
        using record_agent_phase_frame [OF b1(1)] c' by (simp add: generates_def queue_keys_def)
      then have "adds ?c b1" "adds b1 b2"
        using phase_adds [OF b1(1)] phase_adds [OF b1(2)] gen c' by auto
      with c have "adds b b2" by (blast intro: adds_trans)
      with True Inr show ?thesis using ready_event_flight [OF _ e] by (simp add: lease_claim_def Let_def)
    qed
  qed
qed

lemma adds_serve: "e \<in> set (bs_events b) \<Longrightarrow> adds b (serve_poll h p e b)"
proof -
  assume e: "e \<in> set (bs_events b)"
  have "adds b (b\<lparr>bs_polls := ps\<rparr>)" for ps by simp
  moreover have "adds (b\<lparr>bs_polls := ps\<rparr>) (serve_poll h p e b)"
    if "ps = remove_first (\<lambda>q. pl_id q = pl_id p) (bs_polls b)" for ps
    unfolding serve_poll_def that by (rule adds_claim) (simp add: e)
  ultimately show ?thesis by (blast intro: adds_trans)
qed

lemma adds_flush_loop: "adds b (flush_loop n h changed b)"
proof (induction n arbitrary: changed b)
  case (Suc n)
  show ?case
  proof (cases "first_served h b (bs_polls b)")
    case (Some pe)
    obtain p e where pe: "pe = (p, e)" by (cases pe)
    with Some have "e \<in> set (bs_events b)" using first_served_Some find_available_in by blast
    then have "adds b (serve_poll h p e b)" by (rule adds_serve)
    also have "adds (serve_poll h p e b) (flush_loop n h True (serve_poll h p e b))" by (rule Suc)
    finally show ?thesis using Some pe by simp
  qed (simp add: Let_def)
qed (simp add: Let_def)

lemma adds_flush: "adds b (flush_pending_polls h b)"
  unfolding flush_pending_polls_def by (rule adds_flush_loop)

lemma adds_park: "adds b (park_poll h p b)"
  by (auto simp: park_poll_def intro: adds_claim dest: find_available_in split: option.split)

lemma adds_ack: "adds b (snd (acknowledge_pending_event h i t b))"
  by (auto simp: acknowledge_pending_event_def intro!: adds_fewer dest: subsetD [OF remove_first_subset] split: option.split)

lemma adds_release: "adds b (snd (release_pending_event h i t b))"
  by (auto simp: release_pending_event_def split: option.split)

lemma adds_drop: "adds b (snd (drop_events h P b))"
  by (auto simp: drop_events_def Let_def intro!: adds_fewer)

lemma adds_retire: "adds b (snd (retire_pending_generation h i b))"
  by (simp add: retire_pending_generation_def adds_drop)

lemma adds_cancel_exit: "adds b (snd (cancel_queued_anonymous_exit_events h b))"
  by (simp add: cancel_queued_anonymous_exit_events_def adds_drop)

lemma adds_drop_poll: "adds b (drop_poll n b)"
  by (simp add: drop_poll_def)

lemma adds_timer: "adds b (lease_timer_fires h b)"
proof -
  have "adds b (b\<lparr>bs_timer := None\<rparr>)" by simp
  also have "adds (b\<lparr>bs_timer := None\<rparr>) (lease_timer_fires h b)" by (simp add: lease_timer_fires_def adds_flush)
  finally show ?thesis .
qed

section \<open>Leases that settle\<close>

definition writes :: "string set \<Rightarrow> bus \<Rightarrow> bus \<Rightarrow> bool" where
  \<comment> \<open>no session is lost and none is new but those of the set\<close>
  "writes I b b' \<longleftrightarrow> stored (bs_store b) \<subseteq> stored (bs_store b') \<and>
     stored (bs_store b') \<subseteq> stored (bs_store b) \<union> I"

lemma writes_trans [trans]: "writes I a b \<Longrightarrow> writes I b c \<Longrightarrow> writes I a c"
  unfolding writes_def by blast

lemma writes_store [simp]: "bs_store b' = bs_store b \<Longrightarrow> writes I b b'"
  by (simp add: writes_def)

lemma append_writes:
  "append_to_store h ev b = Inr b' \<Longrightarrow> (\<And>i. get ev ''id'' = JStr i \<Longrightarrow> safe_id i \<Longrightarrow> i \<in> I) \<Longrightarrow> writes I b b'"
  using append_to_store_stored by (fastforce simp: writes_def)

lemma phase_writes:
  assumes "record_agent_phase h i ph ds b = Inr b'" and "''id'' \<notin> set (map fst ds)"
    and "\<And>j. i = JStr j \<Longrightarrow> safe_id j \<Longrightarrow> j \<in> I"
  shows "writes I b b'"
  using assms record_agent_phase_stored [OF assms(1,2)]
  by (cases "truthy i") (auto simp: writes_def record_agent_phase_def)

definition event_ids :: "jsval \<Rightarrow> string set" where
  "event_ids event = (if ty_is event ''generate'' \<and> is_str (get event ''id'') \<and> safe_id (str_of (get event ''id''))
     then {str_of (get event ''id'')} else {})"

lemma finish_prepare_writes:
  assumes "finish_prepare h r f b = Inr (ev, b')"
  shows "writes (event_ids (fl_event f)) b b'"
proof (cases "needs_scaffold (fl_event f)")
  case False
  with assms show ?thesis by (auto simp: finish_prepare_def Let_def)
next
  case True
  let ?v = "scaffolded (fl_event f) r"
  let ?b = "set_entry (fl_seq f) (\<lambda>e. e\<lparr>pe_event := ?v\<rparr>) b"
  have ids: "j \<in> event_ids (fl_event f)" if "get (fl_event f) ''id'' = JStr j" "safe_id j" for j
    using True that by (simp add: event_ids_def needs_scaffold_def)
  from True assms obtain b1 where b1: "append_to_store h ?v ?b = Inr b1"
    "record_agent_phase h (get (fl_event f) ''id'')
       (JStr (if truthy (get r ''ok'') then ''source_ready'' else ''scaffold_fallback''))
       [(''durationMs'', js_coalesce (get r ''durationMs'') JNull),
        (''previewMode'', js_or (get (get r ''scaffold'') ''previewMode'') (JStr ''source''))] b1 = Inr b'"
    by (auto simp: finish_prepare_def Let_def bindE_Inr_iff)
  have "writes (event_ids (fl_event f)) b ?b" by simp
  also have "writes (event_ids (fl_event f)) ?b b1"
    using b1(1) by (rule append_writes) (simp add: scaffolded_keys [OF True] ids)
  also have "writes (event_ids (fl_event f)) b1 b'"
    using b1(2) by (rule phase_writes) (simp_all add: ids)
  finally show ?thesis .
qed

lemma delivery_writes:
  assumes "record_generate_delivery h n event b = Inr (ev, b')"
  shows "writes (event_ids event) b b'"
proof (cases "\<not> truthy event \<or> \<not> ty_is event ''generate'' \<or> truthy (get event ''generationReadyAt'')")
  case True
  with assms show ?thesis by (auto simp: record_generate_delivery_def)
next
  case False
  let ?v = "with_props event [(''generationReadyAt'', jint (now_of h))]"
  let ?b = "set_entry n (\<lambda>e. e\<lparr>pe_event := ?v\<rparr>) b"
  have ids: "j \<in> event_ids event" if "get event ''id'' = JStr j" "safe_id j" for j
    using False that by (simp add: event_ids_def)
  from False assms obtain b1 where b1: "append_to_store h ?v ?b = Inr b1"
    "record_agent_phase h (get event ''id'') (JStr ''generation_ready'') [(''at'', jint (now_of h))] b1 = Inr b'"
    by (auto simp: record_generate_delivery_def Let_def bindE_Inr_iff)
  have "writes (event_ids event) b ?b" by simp
  also have "writes (event_ids event) ?b b1"
    using b1(1) by (rule append_writes) (use False delivered_keys [of event] ids in auto)
  also have "writes (event_ids event) b1 b'"
    using b1(2) by (rule phase_writes) (simp_all add: ids)
  finally show ?thesis .
qed

lemma finish_lease_writes:
  assumes "finish_lease h f event b = Inr (ev, b')"
  shows "writes (event_ids event) b b'"
proof (cases "truthy (get event ''id'')")
  case False
  with assms show ?thesis by (auto simp: finish_lease_def)
next
  case True
  let ?b = "set_entry (fl_seq f) (\<lambda>e. e\<lparr>pe_lease := now_of h + fl_lease_ms f\<rparr>) b"
  from True assms obtain ev' b1 where b1: "record_generate_delivery h (fl_seq f) event ?b = Inr (ev', b1)"
    "b' = broadcast_agent_polling_if_changed (schedule_lease_flush h b1)"
    by (auto simp: finish_lease_def bindE_Inr_iff)
  have "writes (event_ids event) b ?b" by simp
  also have "writes (event_ids event) ?b b1" using b1(1) by (rule delivery_writes)
  also have "writes (event_ids event) b1 b'" using b1(2) by simp
  finally show ?thesis .
qed

lemma finish_lease_keys:
  assumes "finish_lease h f event b = Inr (ev, b')"
    and key: "\<forall>k \<in> set (queue_keys b). fst k = fl_seq f \<longrightarrow>
      k = (fl_seq f, get event ''id'', get event ''type'', get event ''variant'')"
  shows "set (queue_keys b') \<subseteq> set (queue_keys b) \<and> bs_flights b' = bs_flights b"
proof (cases "truthy (get event ''id'')")
  case False
  with assms(1) have "b' = b\<lparr>bs_events := remove_first (\<lambda>e. pe_seq e = fl_seq f) (bs_events b)\<rparr>"
    by (simp add: finish_lease_def)
  then show ?thesis by (simp add: queue_keys_def image_mono remove_first_subset)
next
  case True
  let ?b = "set_entry (fl_seq f) (\<lambda>e. e\<lparr>pe_lease := now_of h + fl_lease_ms f\<rparr>) b"
  from True assms(1) obtain ev' b1 where b1: "record_generate_delivery h (fl_seq f) event ?b = Inr (ev', b1)"
    "b' = broadcast_agent_polling_if_changed (schedule_lease_flush h b1)"
    by (auto simp: finish_lease_def bindE_Inr_iff)
  from record_generate_delivery_frame [OF b1(1)] key
  have "queue_keys b1 = queue_keys b" "bs_flights b1 = bs_flights b" by simp_all
  with b1(2) show ?thesis by (simp add: queue_keys_def)
qed

lemma adds_settle:
  assumes ok: "bus_ok b"
  shows "adds b (lease_settle h result k b)"
proof (cases "k \<ge> length (bs_flights b)")
  case True
  then show ?thesis by (simp add: lease_settle_def)
next
  case False
  define f where "f = bs_flights b ! k"
  define b0 where "b0 = b\<lparr>bs_flights := take k (bs_flights b) @ drop (Suc k) (bs_flights b)\<rparr>"
  have f: "f \<in> set (bs_flights b)" using False by (simp add: f_def)
  have sub: "set (bs_flights b0) \<subseteq> set (bs_flights b)"
    using set_take_subset [of k "bs_flights b"] set_drop_subset [of "Suc k" "bs_flights b"] by (auto simp: b0_def)
  have keys: "queue_keys b0 = queue_keys b" "bs_store b0 = bs_store b" by (simp_all add: b0_def queue_keys_def)
  have gen: "event_ids (fl_event f) \<subseteq> generates b"
    using generates_flights [OF f] by (cases "get (fl_event f) ''id''") (auto simp: event_ids_def)
  have kf: "\<forall>k \<in> set (queue_keys b0). fst k = fl_seq f \<longrightarrow> k = flight_key f"
    using ok f keys by (simp add: bus_ok_def flights_ok_def)
  have "adds b b2" if res: "bindE (finish_prepare h result f b0) (\<lambda>(event, b). finish_lease h f event b) = Inr (ev, b2)"
    for ev b2
  proof -
    from res obtain ev1 b1 where p: "finish_prepare h result f b0 = Inr (ev1, b1)"
      "finish_lease h f ev1 b1 = Inr (ev, b2)"
      by (auto simp: bindE_Inr_iff)
    note fr = finish_prepare_frame [OF p(1) kf]
    have e: "(fl_seq f, get ev1 ''id'', get ev1 ''type'', get ev1 ''variant'') = flight_key f"
      using fr by (simp add: flight_key_def)
    have kf1: "\<forall>k \<in> set (queue_keys b1). fst k = fl_seq f \<longrightarrow>
        k = (fl_seq f, get ev1 ''id'', get ev1 ''type'', get ev1 ''variant'')"
      unfolding e using fr kf by simp
    have ids: "event_ids ev1 = event_ids (fl_event f)" using fr by (simp add: event_ids_def ty_is_def)
    have "writes (event_ids (fl_event f)) b0 b1" using p(1) by (rule finish_prepare_writes)
    also have "writes (event_ids (fl_event f)) b1 b2" using finish_lease_writes [OF p(2)] ids by simp
    finally have "writes (event_ids (fl_event f)) b0 b2" .
    moreover have "generates b2 \<subseteq> generates b"
      using finish_lease_keys [OF p(2) kf1] fr sub keys by (auto simp: generates_def)
    ultimately show ?thesis using gen keys by (auto simp: adds_def writes_def)
  qed
  moreover have "adds b b0" using sub keys by (auto simp: adds_def generates_def)
  moreover have "lease_settle h result k b =
     (case bindE (finish_prepare h result f b0) (\<lambda>(event, b). finish_lease h f event b) of
            Inl err \<Rightarrow> answer_poll h (fl_parked f) (fl_to f) timeout_reply b0
          | Inr (event, b) \<Rightarrow> answer_poll h (fl_parked f) (fl_to f) event b)"
    unfolding lease_settle_def f_def b0_def Let_def using False by simp
  ultimately show ?thesis by (auto split: sum.split)
qed

section \<open>New events\<close>

lemma generates_queued:
  "generates (b\<lparr>bs_events := bs_events b @ [\<lparr>pe_event = event, pe_lease = l, pe_seq = n\<rparr>], bs_next_seq := m\<rparr>) =
     generates b \<union> event_ids event"
  by (auto simp: generates_def queue_keys_def event_ids_def generate_id_def key_of_def ty_is_def)

lemma enqueue_sessions:
  "stored (bs_store b) \<subseteq> stored (bs_store (enqueue_event h event b)) \<and>
   stored (bs_store (enqueue_event h event b)) \<subseteq> stored (bs_store b) \<union> generates b \<union> event_ids event \<and>
   generates (enqueue_event h event b) \<subseteq> generates b \<union> event_ids event"
proof (cases "\<not> truthy event \<or> truthy (get event ''id'') \<and> (\<exists>e \<in> set (bs_events b). same_event (pe_event e) event)")
  case True
  then have "enqueue_event h event b = b" by (auto simp: enqueue_event_def)
  then show ?thesis by auto
next
  case False
  let ?b = "b\<lparr>bs_events := bs_events b @ [\<lparr>pe_event = event, pe_lease = 0, pe_seq = bs_next_seq b\<rparr>],
    bs_next_seq := Suc (bs_next_seq b)\<rparr>"
  have "enqueue_event h event b = flush_pending_polls h ?b"
    using False unfolding enqueue_event_def by auto
  with adds_flush [of ?b h] show ?thesis by (auto simp: adds_def generates_queued)
qed

definition known :: "bus \<Rightarrow> bool" where
  \<comment> \<open>every generate event queued or in flight has its session\<close>
  "known b \<longleftrightarrow> generates b \<subseteq> stored (bs_store b)"

lemma known_adds: "adds b b' \<Longrightarrow> known b \<Longrightarrow> known b' \<and> stored (bs_store b') = stored (bs_store b)"
  unfolding adds_def known_def by blast

lemma known_enqueue:
  assumes "known b" and "event_ids event \<subseteq> stored (bs_store b)"
  shows "known (enqueue_event h event b) \<and> stored (bs_store (enqueue_event h event b)) = stored (bs_store b)"
  using assms enqueue_sessions [of b h event] unfolding known_def by blast

section \<open>Both invariants\<close>

text \<open>
  \<open>keeps I b b'\<close>: an operation that keeps the queue's invariant and the sessions of
  its generate events, and makes no session but those of \<open>I\<close>.
\<close>

definition keeps :: "string set \<Rightarrow> bus \<Rightarrow> bus \<Rightarrow> bool" where
  "keeps I b b' \<longleftrightarrow> (bus_ok b \<and> known b \<longrightarrow> bus_ok b' \<and> known b' \<and> writes I b b')"

lemma keeps_refl [simp, intro]: "keeps I b b"
  by (simp add: keeps_def)

lemma keeps_trans [trans]: "keeps I a b \<Longrightarrow> keeps I b c \<Longrightarrow> keeps I a c"
  unfolding keeps_def using writes_trans by blast

lemma keeps_more: "keeps I a b \<Longrightarrow> I \<subseteq> J \<Longrightarrow> keeps J a b"
  unfolding keeps_def writes_def by blast

lemma keeps_adds: "adds b b' \<Longrightarrow> (bus_ok b \<Longrightarrow> bus_ok b') \<Longrightarrow> keeps I b b'"
  unfolding keeps_def writes_def using known_adds by blast

lemma keeps_frame [simp]:
  "keeps I b (broadcast m b') = keeps I b b'"
  "keeps I b (b'\<lparr>bs_clients := cl\<rparr>) = keeps I b b'"
  "keeps I b (b'\<lparr>bs_timer := tm\<rparr>) = keeps I b b'"
  "keeps I b (b'\<lparr>bs_last_poll := t\<rparr>) = keeps I b b'"
  "keeps I b (b'\<lparr>bs_polls := ps\<rparr>) = keeps I b b'"
  by (simp_all add: keeps_def known_def generates_def writes_def) (simp_all add: queue_keys_def)

lemma keeps_ops [intro]:
  "keeps I b (flush_pending_polls h b)"
  "keeps I b (park_poll h p b)"
  "keeps I b (snd (acknowledge_pending_event h i t b))"
  "keeps I b (snd (release_pending_event h i t b))"
  "keeps I b (snd (retire_pending_generation h i b))"
  "keeps I b (snd (cancel_queued_anonymous_exit_events h b))"
  "keeps I b (drop_poll n b)"
  "keeps I b (time_out_poll n b)"
  "keeps I b (lease_timer_fires h b)"
  by (rule keeps_adds; simp add: adds_flush adds_park adds_ack adds_release adds_retire adds_cancel_exit
      adds_drop_poll adds_timer bus_ok_flush bus_ok_park bus_ok_ack bus_ok_release bus_ok_retire bus_ok_cancel
      bus_ok_drop_poll bus_ok_timer time_out_poll_def)+

lemma keeps_settle [intro]: "keeps I b (lease_settle h result k b)"
  unfolding keeps_def writes_def using adds_settle bus_ok_settle known_adds by blast

lemma keeps_enqueue: "event_ids event \<subseteq> stored (bs_store b) \<Longrightarrow> keeps I b (enqueue_event h event b)"
  unfolding keeps_def writes_def using known_enqueue bus_ok_enqueue by blast

lemma keeps_fewer:
  assumes "bs_events b' = filter P (bs_events b)" "bs_next_seq b' = bs_next_seq b" "bs_flights b' = bs_flights b"
    "bs_store b' = bs_store b"
  shows "keeps I b b'"
  by (rule keeps_adds) (use assms in \<open>auto intro: adds_fewer bus_ok_subset\<close>)

lemma keeps_store:
  assumes "stored (bs_store b) \<subseteq> stored st" "stored st \<subseteq> stored (bs_store b) \<union> I"
  shows "keeps I b (b\<lparr>bs_store := st\<rparr>)"
  using assms by (auto simp: keeps_def known_def generates_def writes_def queue_keys_def)

lemma keeps_append:
  assumes "append_to_store h ev b = Inr b'" and "\<And>i. get ev ''id'' = JStr i \<Longrightarrow> safe_id i \<Longrightarrow> i \<in> I"
  shows "keeps I b b'"
proof -
  have "generates b' = generates b" using append_to_store_frame [OF assms(1)] by (simp add: generates_def queue_keys_def)
  with append_writes [OF assms] show ?thesis
    using bus_ok_append [OF assms(1)] by (auto simp: keeps_def known_def writes_def)
qed

lemma keeps_phase:
  assumes "record_agent_phase h i ph ds b = Inr b'" and "''id'' \<notin> set (map fst ds)"
    and "\<And>j. i = JStr j \<Longrightarrow> safe_id j \<Longrightarrow> j \<in> I"
  shows "keeps I b b'"
proof -
  note fr = record_agent_phase_frame [OF assms(1)]
  have "generates b' = generates b" using fr by (simp add: generates_def queue_keys_def)
  moreover have "bus_ok b' = bus_ok b" by (rule bus_ok_same) (simp_all add: fr)
  ultimately show ?thesis using phase_writes [OF assms] by (auto simp: keeps_def known_def writes_def)
qed

end
