(* ===== verification/Manual_Buffer.thy ===== *)
theory Manual_Buffer
  imports Session_Store
begin

text \<open>
  The buffer of staged copy edits, \<open>live/manual-edits-buffer.mjs\<close>: one JSON file
  that holds the entries of every Save not yet applied, each with its text
  operations. The file is missing, unreadable, of another shape, or holds
  entries; \<open>JSON.parse\<close> gives the entries' fields. The pure merge is separated
  from the file it is read from and written to.
\<close>

section \<open>State\<close>

record buf_entry =
  be_id :: jsval
  be_page :: jsval
  be_element :: jsval
  be_ops :: "jsval list"
  be_staged :: jsval

datatype buffer_file = No_file | Unreadable_file string | Wrong_schema | Buffer "buf_entry list"

section \<open>Reading and writing\<close>

definition read_buffer :: "buffer_file \<Rightarrow> buf_entry list" where
  "read_buffer f = (case f of Buffer es \<Rightarrow> es | _ \<Rightarrow> [])"

definition read_buffer_strict :: "buffer_file \<Rightarrow> js_error + buf_entry list" where
  "read_buffer_strict f =
    (case f of
       No_file \<Rightarrow> Inr []
     | Unreadable_file m \<Rightarrow> Inl (Thrown (''manual_edit_buffer_unreadable: '' @ m))
     | Wrong_schema \<Rightarrow> Inl (Thrown ''manual_edit_buffer_unreadable: manual_edit_buffer_invalid_schema'')
     | Buffer es \<Rightarrow> Inr es)"

definition written_entry :: "buf_entry \<Rightarrow> buf_entry" where
  \<comment> \<open>an entry after \<open>JSON.stringify\<close> and \<open>JSON.parse\<close>\<close>
  "written_entry e = \<lparr>be_id = reread JUndef (be_id e), be_page = reread JUndef (be_page e),
     be_element = reread JUndef (be_element e), be_ops = json_elems (be_ops e),
     be_staged = reread JUndef (be_staged e)\<rparr>"

definition write_buffer :: "buf_entry list \<Rightarrow> buffer_file" where
  "write_buffer es = Buffer (map written_entry es)"

section \<open>Staging\<close>

definition same_ref :: "jsval \<Rightarrow> jsval \<Rightarrow> bool" where
  "same_ref newOp op = strict_eq (get op ''ref'') (get newOp ''ref'')"

definition merged_op :: "jsval \<Rightarrow> jsval \<Rightarrow> jsval" where
  \<comment> \<open>the new operation with the original text of the one it replaces\<close>
  "merged_op newOp old = with_props newOp
     [(''originalText'', get old ''originalText''), (''newText'', get newOp ''newText''),
      (''deleted'', js_or (get newOp ''deleted'') (JBool False))]"

fun replace_first :: "('a \<Rightarrow> bool) \<Rightarrow> ('a \<Rightarrow> 'a) \<Rightarrow> 'a list \<Rightarrow> 'a list" where
  "replace_first P f [] = []"
| "replace_first P f (x # xs) = (if P x then f x # xs else x # replace_first P f xs)"

definition merges :: "jsval \<Rightarrow> jsval \<Rightarrow> buf_entry \<Rightarrow> bool" where
  "merges page newOp e = (strict_eq (be_page e) page \<and> (\<exists>op \<in> set (be_ops e). same_ref newOp op))"

definition merge_into :: "string \<Rightarrow> jsval \<Rightarrow> jsval \<Rightarrow> buf_entry \<Rightarrow> buf_entry" where
  "merge_into stamp element newOp e = e\<lparr>
     be_ops := replace_first (same_ref newOp) (merged_op newOp) (be_ops e),
     be_element := (if truthy element then element else be_element e),
     be_staged := JStr stamp\<rparr>"

definition holds_entry :: "jsval \<Rightarrow> jsval \<Rightarrow> buf_entry \<Rightarrow> bool" where
  "holds_entry page i e = (strict_eq (be_page e) page \<and> strict_eq (be_id e) i)"

definition stage_op :: "string \<Rightarrow> buf_entry \<Rightarrow> jsval \<Rightarrow> buf_entry list \<Rightarrow> buf_entry list" where
  "stage_op stamp new newOp es =
    (if \<exists>e \<in> set es. merges (be_page new) newOp e
     then replace_first (merges (be_page new) newOp) (merge_into stamp (be_element new) newOp) es
     else if \<exists>e \<in> set es. holds_entry (be_page new) (be_id new) e
     then replace_first (holds_entry (be_page new) (be_id new))
            (\<lambda>e. e\<lparr>be_ops := be_ops e @ [newOp], be_staged := JStr stamp\<rparr>) es
     else es @ [new\<lparr>be_ops := [newOp], be_staged := JStr stamp\<rparr>])"

definition stage_ops :: "string \<Rightarrow> buf_entry \<Rightarrow> buf_entry list \<Rightarrow> buf_entry list" where
  "stage_ops stamp new es = fold (stage_op stamp new) (be_ops new) es"

definition stage_entry :: "string \<Rightarrow> buf_entry \<Rightarrow> buffer_file \<Rightarrow> js_error + (buf_entry list \<times> buffer_file)" where
  "stage_entry stamp new f =
    bindE (read_buffer_strict f) (\<lambda>es.
      let es' = stage_ops stamp new es in Inr (es', write_buffer es'))"

section \<open>Removing and counting\<close>

definition remove_entries :: "(buf_entry \<Rightarrow> bool) \<Rightarrow> buffer_file \<Rightarrow> nat \<times> buffer_file" where
  "remove_entries P f =
    (let es = read_buffer f in
     (sum_list (map (\<lambda>e. length (be_ops e)) (filter P es)),
      write_buffer (filter (\<lambda>e. \<not> P e \<and> length (be_ops e) > 0) es)))"

definition count_entry :: "buf_entry \<Rightarrow> nat \<times> (string \<times> nat) list \<Rightarrow> nat \<times> (string \<times> nat) list" where
  "count_entry e c = (let n = length (be_ops e); k = js_string (be_page e) in
     (fst c + n, alset k ((case map_of (snd c) k of None \<Rightarrow> 0 | Some m \<Rightarrow> m) + n) (snd c)))"

definition count_by_page :: "buffer_file \<Rightarrow> nat \<times> (string \<times> nat) list" where
  \<comment> \<open>\<open>totalCount\<close> and \<open>perPage\<close>\<close>
  "count_by_page f = fold count_entry (read_buffer f) (0, [])"

definition truncate_buffer :: "buffer_file \<Rightarrow> nat \<times> buffer_file" where
  "truncate_buffer f = (sum_list (map (\<lambda>e. length (be_ops e)) (read_buffer f)), write_buffer [])"

section \<open>The buffer as a map\<close>

text \<open>
  Abstractly the buffer is a map from page and element reference to the text the
  source had and the text wanted; staging an operation updates one key and keeps
  the original text it had.
\<close>

type_synonym edit_key = "jsval \<times> jsval"

definition op_keys :: "buf_entry \<Rightarrow> (edit_key \<times> jsval) list" where
  "op_keys e = map (\<lambda>op. ((be_page e, get op ''ref''), op)) (be_ops e)"

definition keyed :: "buf_entry list \<Rightarrow> (edit_key \<times> jsval) list" where
  "keyed es = concat (map op_keys es)"

definition abs_buffer :: "buf_entry list \<Rightarrow> edit_key \<rightharpoonup> jsval \<times> jsval" where
  "abs_buffer es k = map_option (\<lambda>op. (get op ''originalText'', get op ''newText'')) (map_of (keyed es) k)"

definition stage_spec :: "edit_key \<Rightarrow> jsval \<Rightarrow> (edit_key \<rightharpoonup> jsval \<times> jsval) \<Rightarrow> edit_key \<rightharpoonup> jsval \<times> jsval" where
  "stage_spec k newOp m = m(k \<mapsto>
     (case m k of None \<Rightarrow> get newOp ''originalText'' | Some (orig, _) \<Rightarrow> orig, get newOp ''newText''))"

text \<open>Operations and entries as the stash route lets them in: text in the key fields.\<close>

definition good_op :: "jsval \<Rightarrow> bool" where
  "good_op op \<longleftrightarrow> (\<exists>ps. op = JObj ps) \<and> is_str (get op ''ref'')"

definition good_entry_form :: "buf_entry \<Rightarrow> bool" where
  "good_entry_form e \<longleftrightarrow> is_str (be_page e) \<and> is_str (be_id e) \<and> (\<forall>op \<in> set (be_ops e). good_op op)"

definition buffer_ok :: "buf_entry list \<Rightarrow> bool" where
  "buffer_ok es \<longleftrightarrow> (\<forall>e \<in> set es. good_entry_form e) \<and> distinct (map fst (keyed es))"

lemma strict_eq_str: "is_str b \<Longrightarrow> strict_eq a b \<longleftrightarrow> a = b"
  by (cases b) auto

lemma same_ref_iff: "good_op op \<Longrightarrow> same_ref op op' \<longleftrightarrow> get op' ''ref'' = get op ''ref''"
  by (simp add: same_ref_def good_op_def strict_eq_str)

lemma replace_first_split:
  "\<exists>x \<in> set xs. P x \<Longrightarrow> \<exists>us x vs. xs = us @ x # vs \<and> replace_first P f xs = us @ f x # vs \<and> P x \<and> (\<forall>u \<in> set us. \<not> P u)"
proof (induction xs)
  case (Cons a xs)
  show ?case
  proof (cases "P a")
    case True
    then show ?thesis by (intro exI [of _ "[]"] exI [of _ a] exI [of _ xs]) simp
  next
    case False
    with Cons obtain us x vs where "xs = us @ x # vs" "replace_first P f xs = us @ f x # vs" "P x" "\<forall>u \<in> set us. \<not> P u"
      by auto
    with False show ?thesis by (intro exI [of _ "a # us"] exI [of _ x] exI [of _ vs]) simp
  qed
qed simp

lemma keyed_append [simp]: "keyed (xs @ ys) = keyed xs @ keyed ys"
  by (simp add: keyed_def)

lemma keyed_Cons [simp]: "keyed (e # es) = op_keys e @ keyed es" "keyed [] = []"
  by (simp_all add: keyed_def)

lemma get_merged_op [simp]:
  assumes "good_op op"
  shows "get (merged_op op old) ''ref'' = get op ''ref''" "get (merged_op op old) ''newText'' = get op ''newText''"
    "get (merged_op op old) ''originalText'' = get old ''originalText''" "good_op (merged_op op old)"
  using assms by (auto simp: merged_op_def good_op_def with_props_def spread_def)

lemma merges_iff:
  "is_str p \<Longrightarrow> good_op op \<Longrightarrow> merges p op e \<longleftrightarrow> (p, get op ''ref'') \<in> set (map fst (op_keys e))"
  by (auto simp: merges_def strict_eq_str same_ref_iff op_keys_def image_iff) metis

lemma has_key_iff:
  "is_str p \<Longrightarrow> good_op op \<Longrightarrow>
   (\<exists>e \<in> set es. merges p op e) \<longleftrightarrow> (p, get op ''ref'') \<in> set (map fst (keyed es))"
  by (simp add: merges_iff keyed_def) blast

text \<open>Replacing one operation of the first entry that has its key.\<close>

lemma map_of_split_key:
  "k \<notin> set (map fst xs) \<Longrightarrow> map_of (xs @ (k, v) # ys) = (map_of (xs @ ys))(k \<mapsto> v)"
proof (rule ext)
  fix k'
  assume "k \<notin> set (map fst xs)"
  then show "map_of (xs @ (k, v) # ys) k' = ((map_of (xs @ ys))(k \<mapsto> v)) k'"
    by (induction xs) auto
qed

lemma keyed_merge:
  assumes p: "is_str p" and op: "good_op op" and ex: "\<exists>e \<in> set es. merges p op e"
  shows "\<exists>xs old ys. keyed es = xs @ ((p, get op ''ref''), old) # ys \<and>
    keyed (replace_first (merges p op) (merge_into stamp el op) es) = xs @ ((p, get op ''ref''), merged_op op old) # ys \<and>
    (p, get op ''ref'') \<notin> set (map fst xs)"
proof -
  let ?k = "(p, get op ''ref'')"
  obtain us e vs where e: "es = us @ e # vs" "replace_first (merges p op) (merge_into stamp el op) es = us @ merge_into stamp el op e # vs"
    "merges p op e" "\<forall>u \<in> set us. \<not> merges p op u"
    using replace_first_split [OF ex] by blast
  have page: "be_page e = p" using e(3) p by (simp add: merges_def strict_eq_str)
  obtain as old bs where ops: "be_ops e = as @ old # bs"
    "replace_first (same_ref op) (merged_op op) (be_ops e) = as @ merged_op op old # bs" "same_ref op old"
    "\<forall>u \<in> set as. \<not> same_ref op u"
    using e(3) replace_first_split [of "be_ops e" "same_ref op" "merged_op op"] by (auto simp: merges_def)
  let ?f = "\<lambda>o1. ((p, get o1 ''ref''), o1)"
  have "keyed es = (keyed us @ map ?f as) @ (?k, old) # (map ?f bs @ keyed vs)"
    using e ops page same_ref_iff [OF op] by (simp add: op_keys_def)
  moreover have "keyed (replace_first (merges p op) (merge_into stamp el op) es) =
      (keyed us @ map ?f as) @ (?k, merged_op op old) # (map ?f bs @ keyed vs)"
    using e(2) ops page op by (simp add: op_keys_def merge_into_def)
  moreover have "?k \<notin> set (map fst (keyed us))"
    using e(4) merges_iff [OF p op] by (auto simp: keyed_def)
  moreover have "?k \<notin> set (map fst (map ?f as))"
    using ops(4) same_ref_iff [OF op] by auto
  ultimately have "keyed es = (keyed us @ map ?f as) @ (?k, old) # (map ?f bs @ keyed vs) \<and>
      keyed (replace_first (merges p op) (merge_into stamp el op) es) =
        (keyed us @ map ?f as) @ (?k, merged_op op old) # (map ?f bs @ keyed vs) \<and>
      ?k \<notin> set (map fst (keyed us @ map ?f as))"
    by (simp only: map_append set_append) blast
  then show ?thesis by blast
qed

lemma keyed_add:
  assumes "is_str p" "\<exists>e \<in> set es. holds_entry p i e"
  shows "\<exists>xs ys. keyed es = xs @ ys \<and>
    keyed (replace_first (holds_entry p i) (\<lambda>e. e\<lparr>be_ops := be_ops e @ [op], be_staged := JStr stamp\<rparr>) es) =
      xs @ ((p, get op ''ref''), op) # ys"
proof -
  obtain us e vs where e: "es = us @ e # vs"
    "replace_first (holds_entry p i) (\<lambda>e. e\<lparr>be_ops := be_ops e @ [op], be_staged := JStr stamp\<rparr>) es =
      us @ e\<lparr>be_ops := be_ops e @ [op], be_staged := JStr stamp\<rparr> # vs" "holds_entry p i e"
    using replace_first_split [OF assms(2)] by blast
  with assms(1) show ?thesis
    by (intro exI [of _ "keyed us @ op_keys e"] exI [of _ "keyed vs"])
      (simp add: op_keys_def holds_entry_def strict_eq_str)
qed

lemma good_entries_replace:
  "(\<forall>e \<in> set es. good_entry_form e) \<Longrightarrow> (\<And>e. good_entry_form e \<Longrightarrow> good_entry_form (f e)) \<Longrightarrow>
   \<forall>e \<in> set (replace_first P f es). good_entry_form e"
  by (induction es) auto

lemma set_replace_first: "set (replace_first P f xs) \<subseteq> set xs \<union> f ` set xs"
  by (induction xs) auto

text \<open>One operation staged is one update of the abstract map, and keys stay unique.\<close>

lemma stage_op_correct:
  assumes ok: "buffer_ok es" and new: "is_str (be_page new)" "is_str (be_id new)" and op: "good_op op"
  shows "buffer_ok (stage_op stamp new op es)"
    and "abs_buffer (stage_op stamp new op es) = stage_spec (be_page new, get op ''ref'') op (abs_buffer es)"
proof -
  let ?p = "be_page new"
  let ?k = "(?p, get op ''ref'')"
  let ?es = "stage_op stamp new op es"
  have d: "distinct (map fst (keyed es))" and g: "\<forall>e \<in> set es. good_entry_form e"
    using ok by (simp_all add: buffer_ok_def)
  have "buffer_ok ?es \<and> abs_buffer ?es = stage_spec ?k op (abs_buffer es)"
  proof (cases "\<exists>e \<in> set es. merges ?p op e")
    case True
    then obtain xs old ys where x: "keyed es = xs @ (?k, old) # ys" "keyed ?es = xs @ (?k, merged_op op old) # ys"
      "?k \<notin> set (map fst xs)"
      using keyed_merge [OF new(1) op True, of stamp "be_element new"] by (auto simp: stage_op_def)
    have "good_entry_form (merge_into stamp (be_element new) op e)" if "good_entry_form e" for e
      using that op set_replace_first [of "same_ref op" "merged_op op" "be_ops e"] get_merged_op(4) [OF op]
      by (auto simp: good_entry_form_def merge_into_def)
    note form = this
    have "\<forall>e \<in> set ?es. good_entry_form e"
      unfolding stage_op_def using True by (simp add: good_entries_replace [OF g form])
    moreover have "map fst (keyed ?es) = map fst (keyed es)" unfolding x(1,2) by simp
    ultimately have "buffer_ok ?es" unfolding buffer_ok_def using d by simp
    moreover have "abs_buffer ?es k' = stage_spec ?k op (abs_buffer es) k'" for k'
      unfolding abs_buffer_def stage_spec_def x(1,2) map_of_split_key [OF x(3)]
      using op by (cases "k' = ?k") simp_all
    then have "abs_buffer ?es = stage_spec ?k op (abs_buffer es)" by blast
    ultimately show ?thesis by blast
  next
    case False
    then have k: "?k \<notin> set (map fst (keyed es))" using has_key_iff [OF new(1) op] by blast
    then have none: "map_of (keyed es) ?k = None" by (simp add: map_of_eq_None_iff)
    obtain xs ys where x: "keyed es = xs @ ys" "keyed ?es = xs @ (?k, op) # ys" "\<forall>e \<in> set ?es. good_entry_form e"
    proof (cases "\<exists>e \<in> set es. holds_entry ?p (be_id new) e")
      case True
      from keyed_add [OF new(1) True, of stamp op] obtain xs ys where "keyed es = xs @ ys" "keyed ?es = xs @ (?k, op) # ys"
        using False True by (auto simp: stage_op_def)
      moreover have "good_entry_form (e\<lparr>be_ops := be_ops e @ [op], be_staged := JStr stamp\<rparr>)"
        if "good_entry_form e" for e
        using that op by (auto simp: good_entry_form_def)
      note good_entries_replace [OF g this]
      then have "\<forall>e \<in> set ?es. good_entry_form e"
        using False True unfolding stage_op_def by simp
      ultimately show thesis by (rule that)
    next
      case none: False
      have "keyed es = keyed es @ []" "keyed ?es = keyed es @ (?k, op) # []"
        using False none by (simp_all add: stage_op_def op_keys_def)
      moreover have "\<forall>e \<in> set ?es. good_entry_form e"
        using False none g op new by (auto simp: stage_op_def good_entry_form_def)
      ultimately show thesis by (rule that)
    qed
    have "?k \<notin> set (map fst xs)" using k x(1) by simp
    note m = map_of_split_key [OF this, of op ys]
    have "distinct (map fst (keyed ?es))" using d k unfolding x(1,2) by auto
    then have "buffer_ok ?es" unfolding buffer_ok_def using x(3) by blast
    moreover have "abs_buffer ?es k' = stage_spec ?k op (abs_buffer es) k'" for k'
      using none unfolding abs_buffer_def stage_spec_def x(2) m x(1) [symmetric] by (cases "k' = ?k") simp_all
    then have "abs_buffer ?es = stage_spec ?k op (abs_buffer es)" by blast
    ultimately show ?thesis by blast
  qed
  then show "buffer_ok ?es" "abs_buffer ?es = stage_spec ?k op (abs_buffer es)" by blast+
qed

lemma stage_ops_correct:
  assumes "is_str (be_page new)" "is_str (be_id new)"
  shows "buffer_ok es \<Longrightarrow> (\<forall>op \<in> set ops. good_op op) \<Longrightarrow>
    buffer_ok (fold (stage_op stamp new) ops es) \<and>
    abs_buffer (fold (stage_op stamp new) ops es) =
      fold (\<lambda>op. stage_spec (be_page new, get op ''ref'') op) ops (abs_buffer es)"
proof (induction ops arbitrary: es)
  case (Cons op ops)
  then show ?case using stage_op_correct [OF Cons.prems(1) assms, of op stamp] by simp
qed simp

section \<open>Counting\<close>

definition total_ops :: "buf_entry list \<Rightarrow> nat" where
  "total_ops es = sum_list (map (\<lambda>e. length (be_ops e)) es)"

lemma length_keyed: "length (keyed es) = total_ops es"
  by (induction es) (simp_all add: total_ops_def op_keys_def)

lemma count_fold: "fst (fold count_entry es (n, m)) = n + total_ops es"
proof (induction es arbitrary: n m)
  case (Cons e es)
  obtain n' m' where "count_entry e (n, m) = (n', m')" by (cases "count_entry e (n, m)")
  moreover from this have "n' = n + length (be_ops e)" by (simp add: count_entry_def Let_def)
  ultimately show ?case using Cons [of n' m'] by (simp add: total_ops_def)
qed (simp add: total_ops_def)

lemma count_pages_step:
  "sum_list (map snd (alset k ((case map_of m k of None \<Rightarrow> 0 | Some c \<Rightarrow> c) + n) m)) = sum_list (map snd m) + (n::nat)"
  by (induction m) auto

lemma count_pages_fold:
  "sum_list (map snd (snd (fold count_entry es (n, m)))) = sum_list (map snd m) + total_ops es"
proof (induction es arbitrary: n m)
  case (Cons e es)
  have "count_entry e (n, m) = (n + length (be_ops e), alset (js_string (be_page e))
      ((case map_of m (js_string (be_page e)) of None \<Rightarrow> 0 | Some c \<Rightarrow> c) + length (be_ops e)) m)"
    by (simp add: count_entry_def Let_def)
  with Cons show ?case by (simp add: total_ops_def count_pages_step del: map_map)
qed (simp add: total_ops_def)

lemma total_ops_filter:
  "total_ops es = total_ops (filter P es) + total_ops (filter (\<lambda>e. \<not> P e \<and> length (be_ops e) > 0) es)"
  by (induction es) (auto simp: total_ops_def)

lemma total_ops_written [simp]: "total_ops (map written_entry es) = total_ops es"
proof -
  have "length (json_elems xs) = length xs" for xs by (induction xs) auto
  then show ?thesis by (simp add: total_ops_def written_entry_def o_def)
qed

lemma read_write_buffer: "read_buffer (write_buffer es) = map written_entry es"
  by (simp add: read_buffer_def write_buffer_def)

section \<open>Properties\<close>

text \<open>
  C23. Staging refines an update of the map from (page, element reference) to
  (text in the source, text wanted): every operation of a Save sets the wanted
  text of its key, the source text of a key already staged is the one it had, no
  key is ever staged twice, and what comes back is what the file holds.
\<close>

theorem stage_entry_refines:
  assumes "read_buffer_strict f = Inr es" and "buffer_ok es" and "good_entry_form new"
  shows "\<exists>es'. stage_entry stamp new f = Inr (es', write_buffer es') \<and> buffer_ok es' \<and>
    abs_buffer es' = fold (\<lambda>op. stage_spec (be_page new, get op ''ref'') op) (be_ops new) (abs_buffer es)"
proof -
  have "buffer_ok (stage_ops stamp new es) \<and> abs_buffer (stage_ops stamp new es) =
      fold (\<lambda>op. stage_spec (be_page new, get op ''ref'') op) (be_ops new) (abs_buffer es)"
    unfolding stage_ops_def using assms(2,3) by (intro stage_ops_correct) (simp_all add: good_entry_form_def)
  then show ?thesis using assms(1) by (simp add: stage_entry_def Let_def)
qed

definition sample_save :: buf_entry where
  "sample_save = \<lparr>be_id = JStr ''e1'', be_page = JStr ''/'', be_element = JNull,
     be_ops = [JObj [(''ref'', JStr ''h1''), (''originalText'', JStr ''Old''), (''newText'', JStr ''New'')],
               JObj [(''ref'', JStr ''h1''), (''originalText'', JStr ''New''), (''newText'', JStr ''Newer'')]],
     be_staged = JUndef\<rparr>"

theorem stage_entry_refines_witness:
  "\<exists>es'. stage_entry ''t'' sample_save No_file = Inr (es', write_buffer es') \<and> buffer_ok es' \<and>
    abs_buffer es' = fold (\<lambda>op. stage_spec (JStr ''/'', get op ''ref'') op) (be_ops sample_save) (abs_buffer [])"
proof -
  have "good_entry_form sample_save" by (simp add: good_entry_form_def sample_save_def good_op_def)
  then show ?thesis
    using stage_entry_refines [of No_file "[]" sample_save "''t''"]
    by (simp add: read_buffer_strict_def buffer_ok_def) (simp add: sample_save_def)
qed

text \<open>
  The counts agree: the total of the counter is the number of staged
  operations and the sum over its pages, removing entries reports the operations
  it took and leaves the others, and truncating reports all of them.
\<close>

theorem counts_agree:
  "fst (count_by_page f) = total_ops (read_buffer f) \<and>
   sum_list (map snd (snd (count_by_page f))) = fst (count_by_page f) \<and>
   fst (remove_entries P f) + total_ops (read_buffer (snd (remove_entries P f))) = total_ops (read_buffer f) \<and>
   fst (truncate_buffer f) = total_ops (read_buffer f) \<and> read_buffer (snd (truncate_buffer f)) = []"
  using count_fold [of "read_buffer f" 0 "[]"] count_pages_fold [of "read_buffer f" 0 "[]"]
    total_ops_filter [of "read_buffer f" P]
  by (simp add: count_by_page_def remove_entries_def truncate_buffer_def Let_def read_write_buffer
      flip: total_ops_def)

end
