(* ===== verification/Js_Path.thy ===== *)
theory Js_Path
  imports Js_Value
begin

text \<open>
  The part of \<open>node:path\<close> (POSIX) the modules use: absolute paths are lists of
  segments without empty, \<open>.\<close> and \<open>..\<close> ones; \<open>resolve\<close> and \<open>relative\<close> work on
  those. \<open>project_file\<close> is the confinement test that the manual-edit and the
  source routes share.
\<close>

section \<open>Segments\<close>

definition is_absolute :: "string \<Rightarrow> bool" where
  "is_absolute s = (s \<noteq> [] \<and> hd s = CHR ''/'')"

fun norm_segs :: "string list \<Rightarrow> string list \<Rightarrow> string list" where
  \<comment> \<open>the segments read so far, last first, and those to come\<close>
  "norm_segs done [] = rev done"
| "norm_segs done (s # ss) =
    (if s = [] \<or> s = ''.'' then norm_segs done ss
     else if s = ''..'' then norm_segs (tl done) ss
     else norm_segs (s # done) ss)"

definition segs :: "string \<Rightarrow> string list" where
  "segs s = split_on CHR ''/'' s"

definition resolve_segs :: "string \<Rightarrow> string \<Rightarrow> string list" where
  \<comment> \<open>the segments of \<open>path.resolve(cwd, file)\<close>, \<open>cwd\<close> absolute\<close>
  "resolve_segs cwd file =
    norm_segs [] (if is_absolute file then segs file else segs cwd @ segs file)"

definition path_of :: "string list \<Rightarrow> string" where
  "path_of ss = CHR ''/'' # join ''/'' ss"

definition resolve :: "string \<Rightarrow> string \<Rightarrow> string" where
  "resolve cwd file = path_of (resolve_segs cwd file)"

fun strip_common :: "string list \<Rightarrow> string list \<Rightarrow> string list \<times> string list" where
  "strip_common (a # as) (b # bs) = (if a = b then strip_common as bs else (a # as, b # bs))"
| "strip_common as bs = (as, bs)"

definition relative :: "string \<Rightarrow> string \<Rightarrow> string" where
  \<comment> \<open>\<open>path.relative(from, to)\<close> of two absolute paths\<close>
  "relative from_path to_path =
    (let (up, down) = strip_common (resolve_segs from_path from_path) (resolve_segs to_path to_path)
     in join ''/'' (replicate (length up) ''..'' @ down))"

definition extname_is :: "string \<Rightarrow> string \<Rightarrow> bool" where
  \<comment> \<open>\<open>path.extname(file) === ext\<close> for an extension \<open>ext\<close> that begins with its only dot\<close>
  "extname_is file ext = (let base = last (segs file) in ends_with base ext \<and> length ext < length base)"

definition project_file :: "string \<Rightarrow> string \<Rightarrow> string option" where
  \<comment> \<open>\<open>path.relative(cwd, ...)\<close> unless it is empty, leaves the root or is absolute\<close>
  "project_file cwd file =
    (let rel = relative cwd (resolve cwd file)
     in if rel = [] \<or> starts_with rel ''..'' \<or> is_absolute rel then None else Some rel)"

section \<open>Facts\<close>

definition plain_seg :: "string \<Rightarrow> bool" where
  "plain_seg s \<longleftrightarrow> s \<noteq> [] \<and> s \<noteq> ''.'' \<and> s \<noteq> ''..'' \<and> CHR ''/'' \<notin> set s"

lemma split_on_no_sep: "s \<in> set (split_on d t) \<Longrightarrow> d \<notin> set s"
  by (induction t arbitrary: s) (auto split: if_splits list.splits)

lemma norm_segs_plain:
  "(\<forall>s \<in> set done. plain_seg s) \<Longrightarrow> (\<forall>s \<in> set ss. CHR ''/'' \<notin> set s) \<Longrightarrow>
   \<forall>s \<in> set (norm_segs done ss). plain_seg s"
proof (induction ss arbitrary: "done")
  case (Cons s ss)
  have slash: "CHR ''/'' \<notin> set s" "\<forall>s \<in> set ss. CHR ''/'' \<notin> set s" using Cons.prems(2) by simp_all
  note IH = Cons.IH [OF _ slash(2)]
  have t: "\<forall>s \<in> set (tl done). plain_seg s" using Cons.prems(1) by (cases "done") auto
  show ?case
  proof (cases "s = [] \<or> s = ''.''")
    case True
    with IH [OF Cons.prems(1)] show ?thesis by auto
  next
    case False
    show ?thesis
    proof (cases "s = ''..''")
      case True
      with IH [OF t] show ?thesis by simp
    next
      case neq: False
      with False slash have "plain_seg s" by (simp add: plain_seg_def)
      with IH [of "s # done"] Cons.prems(1) False neq show ?thesis by simp
    qed
  qed
qed simp

lemma resolve_segs_plain: "\<forall>s \<in> set (resolve_segs cwd file). plain_seg s"
  unfolding resolve_segs_def segs_def
  by (rule norm_segs_plain) (auto dest: split_on_no_sep)

lemma norm_segs_id: "(\<forall>s \<in> set ss. plain_seg s) \<Longrightarrow> norm_segs done ss = rev done @ ss"
  by (induction ss arbitrary: "done") (auto simp: plain_seg_def)

lemma split_on_append: "d \<notin> set s \<Longrightarrow> split_on d (s @ d # t) = s # split_on d t"
  by (induction s) auto

lemma split_on_plain: "d \<notin> set s \<Longrightarrow> split_on d s = [s]"
  by (induction s) auto

lemma split_on_join:
  "ss \<noteq> [] \<Longrightarrow> (\<forall>s \<in> set ss. d \<notin> set s) \<Longrightarrow> split_on d (join [d] ss) = ss"
proof (induction "[d]" ss rule: join.induct)
  case (3 w v ws)
  then show ?case by (simp add: split_on_append)
qed (simp_all add: split_on_plain)

lemma resolve_segs_path_of:
  assumes "\<forall>s \<in> set ss. plain_seg s"
  shows "resolve_segs cwd (path_of ss) = ss"
proof (cases ss)
  case Nil
  then show ?thesis by (simp add: resolve_segs_def path_of_def is_absolute_def segs_def)
next
  case (Cons s ts)
  have "split_on CHR ''/'' (join [CHR ''/''] ss) = ss"
    using assms Cons by (intro split_on_join) (auto simp: plain_seg_def)
  with norm_segs_id [OF assms, of "[]"] show ?thesis
    by (simp add: resolve_segs_def path_of_def is_absolute_def segs_def)
qed

lemma strip_common_spec:
  "strip_common as bs = (us, vs) \<Longrightarrow> \<exists>cs. as = cs @ us \<and> bs = cs @ vs"
proof (induction "as" bs arbitrary: us vs rule: strip_common.induct)
  case (1 a "as" b bs)
  show ?case
  proof (cases "a = b")
    case True
    with 1 obtain cs where "as = cs @ us" "bs = cs @ vs" by auto
    with True show ?thesis by (intro exI [of _ "a # cs"]) simp
  qed (use 1 in auto)
qed auto

lemma join_dotdot: "starts_with (join ''/'' (''..'' # ss)) ''..''"
  by (cases ss) (simp_all add: starts_with_def)

text \<open>
  A file the test lets through lies below the root: its resolved path extends
  the root's, and the name reported is the rest.
\<close>

lemma project_file_below:
  assumes "project_file cwd file = Some rel"
  shows "\<exists>down. down \<noteq> [] \<and> resolve_segs cwd file = resolve_segs cwd cwd @ down \<and> rel = join ''/'' down"
proof -
  let ?c = "resolve_segs cwd cwd"
  let ?f = "resolve_segs cwd file"
  have f: "resolve_segs (resolve cwd file) (resolve cwd file) = ?f"
    unfolding resolve_def using resolve_segs_plain by (rule resolve_segs_path_of)
  obtain up down where s: "strip_common ?c ?f = (up, down)" by (cases "strip_common ?c ?f")
  have rel: "relative cwd (resolve cwd file) = join ''/'' (replicate (length up) ''..'' @ down)"
    by (simp add: relative_def f s)
  with assms have r: "rel = join ''/'' (replicate (length up) ''..'' @ down)" "rel \<noteq> []" "\<not> starts_with rel ''..''"
    by (auto simp: project_file_def Let_def split: if_splits)
  then have "up = []" using join_dotdot by (cases up) auto
  moreover obtain cs where "?c = cs @ up" "?f = cs @ down" using strip_common_spec [OF s] by blast
  ultimately show ?thesis using r by (intro exI [of _ down]) auto
qed

lemma norm_segs_append: "norm_segs done (as @ bs) = norm_segs (rev (norm_segs done as)) bs"
  by (induction "done" "as" rule: norm_segs.induct) auto

lemma project_file_resolves:
  \<comment> \<open>the name reported leads back to the file\<close>
  assumes "is_absolute cwd" "project_file cwd file = Some rel"
  shows "resolve cwd rel = resolve cwd file"
proof -
  obtain down where d: "down \<noteq> []" "resolve_segs cwd file = resolve_segs cwd cwd @ down" "rel = join ''/'' down"
    using project_file_below [OF assms(2)] by blast
  have pl: "\<forall>s \<in> set down. plain_seg s" using resolve_segs_plain [of cwd "file"] d by auto
  then have sr: "segs rel = down" unfolding segs_def d using d(1) by (intro split_on_join) (auto simp: plain_seg_def)
  have rel: "\<not> is_absolute rel" using assms(2) by (auto simp: project_file_def Let_def split: if_splits)
  have "resolve_segs cwd rel = norm_segs (rev (resolve_segs cwd cwd)) down"
    using assms(1) rel by (simp add: resolve_segs_def sr norm_segs_append)
  also have "\<dots> = resolve_segs cwd file" using norm_segs_id [OF pl] d by simp
  finally show ?thesis by (simp add: resolve_def)
qed

lemma project_file_confined:
  assumes "is_absolute cwd" "project_file cwd file = Some rel"
  shows "\<exists>down. down \<noteq> [] \<and> resolve cwd rel = path_of (resolve_segs cwd cwd @ down)"
  using project_file_below [OF assms(2)] project_file_resolves [OF assms] by (auto simp: resolve_def)

end
