(* ===== verification/Manual_Apply.thy ===== *)
theory Manual_Apply
  imports Manual_Buffer Js_Path
begin

text \<open>
  Applying staged copy edits through an agent, \<open>live/manual-apply.mjs\<close>: splitting
  a batch into chunks, checking and merging the agent's results, the events
  waiting for one, timeouts, and restoring source files. Entries, operations and
  candidates are the objects the collection step built (\<open>null\<close> does not occur
  among them); the ids used as map keys are strings. The working directory is
  an argument, the source tree is an association list from path to text, and
  the fresh event id and the agent's replies are arguments.
\<close>

section \<open>Sizes\<close>

definition default_chunk_size :: int where "default_chunk_size = 3"
definition min_chunk_size :: int where "min_chunk_size = 1"
definition max_chunk_size :: int where "max_chunk_size = 20"
definition compact_text_limit :: nat where "compact_text_limit = 240"
definition compact_nearby_limit :: nat where "compact_nearby_limit = 4"

definition js_trunc :: "rat \<Rightarrow> int" where
  "js_trunc q = (if 0 \<le> q then \<lfloor>q\<rfloor> else \<lceil>q\<rceil>)"

definition manual_edit_apply_chunk_size :: "jsval \<Rightarrow> int" where
  "manual_edit_apply_chunk_size env =
    (case to_number env of
       JNum raw \<Rightarrow> max min_chunk_size (min max_chunk_size (js_trunc raw))
     | _ \<Rightarrow> default_chunk_size)"

definition ops_of :: "jsval \<Rightarrow> jsval list" where
  \<comment> \<open>\<open>entry.ops\<close> where it is an array\<close>
  "ops_of entry = elems (get entry ''ops'')"

definition entries_of :: "jsval \<Rightarrow> jsval list" where
  \<comment> \<open>\<open>batch?.entries || []\<close>\<close>
  "entries_of batch = elems (get batch ''entries'')"

definition count_manual_apply_ops :: "jsval \<Rightarrow> nat" where
  "count_manual_apply_ops entriesOrBatch =
    (let entries = (if is_arr entriesOrBatch then elems entriesOrBatch else entries_of entriesOrBatch)
     in sum_list (map (\<lambda>entry. length (ops_of entry)) entries))"

section \<open>Files of a batch\<close>

definition normalize_project_file :: "string \<Rightarrow> jsval \<Rightarrow> string option" where
  "normalize_project_file cwd file =
    (if \<not> truthy file \<or> \<not> is_str file then None else project_file cwd (str_of file))"

definition batch_files :: "jsval \<Rightarrow> jsval list" where
  "batch_files batch =
    concat (map (\<lambda>entry. map (\<lambda>op. get (get op ''sourceHint'') ''file'') (ops_of entry)) (entries_of batch)) @
    concat (map (\<lambda>c. [get (get c ''sourceHint'') ''relativeFile'', get (get c ''sourceHint'') ''file''] @
      concat (map (\<lambda>k. map (\<lambda>m. get m ''file'') (elems (get c k)))
        [''textMatches'', ''objectKeyMatches'', ''locatorMatches'', ''contextTextMatches'']))
      (elems (get batch ''candidates'')))"

definition set_of :: "'a list \<Rightarrow> 'a list" where
  \<comment> \<open>\<open>[...new Set(xs)]\<close>: the first of equal elements stays\<close>
  "set_of xs = rev (remdups (rev xs))"

definition collect_manual_apply_files :: "string \<Rightarrow> jsval \<Rightarrow> jsval list \<Rightarrow> string list" where
  "collect_manual_apply_files cwd batch extraFiles =
    List.map_filter (normalize_project_file cwd) (set_of (batch_files batch @ extraFiles))"

section \<open>What an event carries\<close>

definition truncate_manual_apply_text :: "jsval \<Rightarrow> nat \<Rightarrow> jsval" where
  "truncate_manual_apply_text v n =
    (if \<not> is_str v then js_or v JNull
     else if length (str_of v) > n then JStr (take n (str_of v)) else v)"

definition arr_or_empty :: "jsval \<Rightarrow> jsval" where
  "arr_or_empty v = (if is_arr v then v else JArr [])"

definition compact_context :: "jsval \<Rightarrow> jsval" where
  "compact_context v =
    (if \<not> truthy v \<or> \<not> is_objty v then JNull
     else JObj [(''ref'', get v ''ref''),
       (''tagName'', js_or (get v ''tagName'') (js_or (get v ''tag'') JNull)),
       (''id'', js_or (get v ''id'') JNull),
       (''classes'', arr_or_empty (get v ''classes'')),
       (''textContent'', truncate_manual_apply_text (get v ''textContent'') compact_text_limit)])"

definition compact_nearby :: "jsval \<Rightarrow> jsval" where
  "compact_nearby items = JArr (map (\<lambda>item.
     if is_str item then JObj [(''text'', truncate_manual_apply_text item compact_text_limit)]
     else JObj [(''ref'', get item ''ref''), (''tag'', get item ''tag''),
       (''classes'', arr_or_empty (get item ''classes'')),
       (''text'', truncate_manual_apply_text (get item ''text'') compact_text_limit)])
     (take compact_nearby_limit (elems items)))"

definition true_or_undef :: "jsval \<Rightarrow> jsval" where
  "true_or_undef v = (if is_true v then JBool True else JUndef)"

definition compact_op :: "jsval \<Rightarrow> jsval" where
  "compact_op op = JObj [
     (''entryId'', get op ''entryId''), (''ref'', get op ''ref''), (''contextRef'', get op ''contextRef''),
     (''tag'', get op ''tag''), (''elementId'', get op ''elementId''),
     (''classes'', arr_or_empty (get op ''classes'')),
     (''originalText'', get op ''originalText''), (''newText'', get op ''newText''),
     (''deleted'', true_or_undef (get op ''deleted'')),
     (''sourceHint'', js_or (get op ''sourceHint'') JNull),
     (''leaf'', compact_context (get op ''leaf'')),
     (''nearbyEditableTexts'', compact_nearby (get op ''nearbyEditableTexts'')),
     (''container'', compact_context (get op ''container'')),
     (''contextHints'', if is_arr (get op ''contextHints'')
        then JArr (take 8 (elems (get op ''contextHints''))) else JUndef)]"

definition compact_entry :: "jsval \<Rightarrow> jsval" where
  "compact_entry entry = JObj [
     (''id'', get entry ''id''), (''pageUrl'', get entry ''pageUrl''),
     (''stagedAt'', js_or (get entry ''stagedAt'') JNull),
     (''element'', compact_context (get entry ''element'')),
     (''ops'', JArr (map compact_op (ops_of entry)))]"

definition summarize_log_file :: "string \<Rightarrow> jsval \<Rightarrow> jsval" where
  "summarize_log_file cwd file =
    (if \<not> truthy file \<or> \<not> is_str file then JUndef
     else if \<not> is_absolute (str_of file) then file
     else case project_file cwd (str_of file) of None \<Rightarrow> file | Some rel \<Rightarrow> JStr rel)"

definition or_undef :: "jsval \<Rightarrow> jsval" where
  "or_undef v = js_or v JUndef"

definition compact_source_match :: "string \<Rightarrow> jsval \<Rightarrow> jsval" where
  "compact_source_match cwd m =
    (if \<not> truthy m \<or> \<not> is_objty m then JNull
     else let file = js_or (get m ''relativeFile'') (get m ''file'') in
       if \<not> truthy file \<and> \<not> truthy (get m ''line'') then JNull
       else JObj [(''file'', summarize_log_file cwd file),
         (''line'', js_or (get m ''line'') JNull), (''column'', js_or (get m ''column'') JNull),
         (''reason'', js_or (get m ''reason'') (or_undef (get m ''kind''))),
         (''status'', or_undef (get m ''status''))])"

definition compact_source_matches :: "string \<Rightarrow> nat \<Rightarrow> jsval \<Rightarrow> jsval" where
  "compact_source_matches cwd limit ms =
    JArr (filter truthy (map (compact_source_match cwd) (take limit (elems ms))))"

definition compact_candidates :: "string \<Rightarrow> jsval \<Rightarrow> jsval list" where
  "compact_candidates cwd candidates = map (\<lambda>c. JObj [
     (''entryId'', get c ''entryId''), (''ref'', get c ''ref''),
     (''sourceHint'', compact_source_match cwd (get c ''sourceHint'')),
     (''textMatches'', compact_source_matches cwd 8 (get c ''textMatches'')),
     (''objectKeyMatches'', compact_source_matches cwd 8 (get c ''objectKeyMatches'')),
     (''contextTextMatches'', compact_source_matches cwd 8 (get c ''contextTextMatches'')),
     (''locatorMatches'', compact_source_matches cwd 6 (get c ''locatorMatches''))])
     (take 24 (elems candidates))"

definition compact_batch :: "string \<Rightarrow> jsval \<Rightarrow> jsval" where
  "compact_batch cwd batch =
    (let entries = map compact_entry (entries_of batch);
         candidates = compact_candidates cwd (get batch ''candidates'');
         ctx = get batch ''context''
     in JObj [(''version'', get batch ''version''), (''pageUrl'', js_or (get batch ''pageUrl'') JNull),
        (''count'', get batch ''count''), (''entries'', JArr entries),
        (''ops'', JArr (concat (map (\<lambda>entry. map (\<lambda>op. with_props op [(''entryId'', get entry ''id'')])
            (ops_of entry)) entries))),
        (''candidates'', if length candidates > 0 then JArr candidates else JUndef),
        (''context'', if truthy ctx then JObj (map (\<lambda>k. (k, get ctx k))
            [''bufferPath'', ''totalEntries'', ''totalOps'', ''chunkIndex'', ''chunkTotal'', ''totalApplyOps''])
          else JUndef)])"

section \<open>Chunks\<close>

record chunk_builder =
  cb_entries :: "jsval list"
  cb_ops :: "jsval list"
  cb_refs :: "(jsval \<times> jsval list) list"
  cb_counts :: "(jsval \<times> nat) list"
  cb_count :: nat

record chunk =
  ck_batch :: jsval
  ck_meta :: jsval
  ck_ids :: "jsval list"
  ck_counts :: "(jsval \<times> nat) list"

definition new_chunk :: chunk_builder where
  "new_chunk = \<lparr>cb_entries = [], cb_ops = [], cb_refs = [], cb_counts = [], cb_count = 0\<rparr>"

definition count_at :: "(jsval \<times> nat) list \<Rightarrow> jsval \<Rightarrow> nat" where
  \<comment> \<open>\<open>counts.get(id) || 0\<close>\<close>
  "count_at m i = (case map_of m i of None \<Rightarrow> 0 | Some n \<Rightarrow> n)"

definition push_op :: "jsval \<Rightarrow> jsval \<Rightarrow> jsval" where
  "push_op op entry = with_props entry [(''ops'', JArr (ops_of entry @ [op]))]"

definition tagged_op :: "jsval \<Rightarrow> jsval \<Rightarrow> jsval" where
  "tagged_op entry op = with_props op [(''entryId'', js_or (get op ''entryId'') (get entry ''id''))]"

definition add_ref :: "jsval \<Rightarrow> jsval list \<Rightarrow> jsval list" where
  "add_ref ref refs = (if truthy ref \<and> ref \<notin> set refs then refs @ [ref] else refs)"

definition add_op :: "jsval \<Rightarrow> jsval \<Rightarrow> chunk_builder \<Rightarrow> chunk_builder" where
  \<comment> \<open>\<open>addOpToManualApplyChunk\<close>\<close>
  "add_op entry op cb =
    (let i = get entry ''id'';
         entries = (if \<exists>e \<in> set (cb_entries cb). get e ''id'' = i then cb_entries cb
                    else cb_entries cb @ [with_props entry [(''ops'', JArr [])]])
     in cb\<lparr>cb_entries := replace_first (\<lambda>e. get e ''id'' = i) (push_op op) entries,
           cb_ops := cb_ops cb @ [tagged_op entry op],
           cb_refs := alset i (add_ref (get op ''ref'')
             (case map_of (cb_refs cb) i of None \<Rightarrow> [] | Some refs \<Rightarrow> refs)) (cb_refs cb),
           cb_counts := alset i (count_at (cb_counts cb) i + 1) (cb_counts cb),
           cb_count := cb_count cb + 1\<rparr>)"

type_synonym split_state = "chunk_builder list \<times> chunk_builder"

definition flush_chunk :: "bool \<Rightarrow> split_state \<Rightarrow> split_state" where
  "flush_chunk b s = (if b then (fst s @ [snd s], new_chunk) else s)"

definition split_op :: "nat \<Rightarrow> jsval \<Rightarrow> jsval \<Rightarrow> split_state \<Rightarrow> split_state" where
  \<comment> \<open>one operation of an entry too large for a chunk\<close>
  "split_op maxOps entry op s =
    (let s = flush_chunk (cb_count (snd s) \<ge> maxOps) s in (fst s, add_op entry op (snd s)))"

definition split_entry :: "nat \<Rightarrow> jsval \<Rightarrow> split_state \<Rightarrow> split_state" where
  "split_entry maxOps entry s =
    (let ops = ops_of entry in
     if length ops \<le> maxOps
     then let s = flush_chunk (cb_count (snd s) > 0 \<and> cb_count (snd s) + length ops > maxOps) s
          in (fst s, fold (add_op entry) ops (snd s))
     else fold (split_op maxOps entry) ops (flush_chunk (cb_count (snd s) > 0) s))"

definition raw_chunks :: "nat \<Rightarrow> jsval list \<Rightarrow> chunk_builder list" where
  "raw_chunks maxOps entries =
    (let s = fold (split_entry maxOps) entries ([], new_chunk)
     in fst (flush_chunk (cb_count (snd s) > 0) s))"

definition filter_chunk_candidates :: "jsval \<Rightarrow> (jsval \<times> jsval list) list \<Rightarrow> jsval list" where
  "filter_chunk_candidates batch refsByEntry = filter (\<lambda>c.
     case map_of refsByEntry (get c ''entryId'') of
       None \<Rightarrow> False
     | Some refs \<Rightarrow> \<not> truthy (get c ''ref'') \<or> get c ''ref'' \<in> set refs) (elems (get batch ''candidates''))"

definition finish_chunk :: "jsval \<Rightarrow> nat \<Rightarrow> nat \<Rightarrow> nat \<Rightarrow> chunk_builder \<Rightarrow> chunk" where
  "finish_chunk batch chunkTotal totalOpCount index cb = \<lparr>
     ck_batch = with_props batch
       [(''count'', jint (int (cb_count cb))), (''entries'', JArr (cb_entries cb)), (''ops'', JArr (cb_ops cb)),
        (''candidates'', JArr (filter_chunk_candidates batch (cb_refs cb))),
        (''context'', with_props (get batch ''context'')
          [(''totalEntries'', jint (int (length (cb_entries cb)))), (''totalOps'', jint (int (cb_count cb))),
           (''chunkIndex'', jint (int index + 1)), (''chunkTotal'', jint (int chunkTotal)),
           (''totalApplyOps'', jint (int totalOpCount))])],
     ck_meta = JObj [(''index'', jint (int index + 1)), (''total'', jint (int chunkTotal)),
       (''opCount'', jint (int (cb_count cb))), (''totalOpCount'', jint (int totalOpCount))],
     ck_ids = set_of (filter truthy (map (\<lambda>e. get e ''id'') (cb_entries cb))),
     ck_counts = cb_counts cb\<rparr>"

definition split_manual_apply_batch :: "jsval \<Rightarrow> nat \<Rightarrow> chunk list" where
  "split_manual_apply_batch batch maxOps =
    (let totalOpCount = count_manual_apply_ops batch; entries = entries_of batch in
     if totalOpCount \<le> maxOps
     then [\<lparr>ck_batch = batch, ck_meta = JNull,
            ck_ids = set_of (filter truthy (map (\<lambda>e. get e ''id'') entries)),
            ck_counts = fold (\<lambda>e. alset (get e ''id'') (length (ops_of e))) entries []\<rparr>]
     else let raw = raw_chunks maxOps entries
          in map (\<lambda>(index, cb). finish_chunk batch (length raw) totalOpCount index cb)
               (zip [0..<length raw] raw))"

section \<open>Results\<close>

datatype apply_status = Done | Partial | Error

record apply_result =
  ar_status :: apply_status
  ar_message :: "string option"
  ar_applied :: "jsval list"
  ar_failed :: "jsval list"
  ar_files :: "jsval list"
  ar_notes :: "jsval list"

definition strings_in :: "jsval \<Rightarrow> jsval list" where
  "strings_in v = filter is_str (elems v)"

definition normalize_apply_chunk_result :: "jsval \<Rightarrow> apply_result" where
  "normalize_apply_chunk_result r = \<lparr>
     ar_status = (if get r ''status'' = JStr ''partial'' then Partial
                  else if get r ''status'' = JStr ''error'' then Error else Done),
     ar_message = (if is_str (get r ''message'') then Some (str_of (get r ''message'')) else None),
     ar_applied = strings_in (get r ''appliedEntryIds''),
     ar_failed = filter truthy (elems (get r ''failed'')),
     ar_files = strings_in (get r ''files''),
     ar_notes = strings_in (get r ''notes'')\<rparr>"

definition first_failure_reason :: "apply_result \<Rightarrow> jsval" where
  "first_failure_reason r = (case List.find truthy (ar_failed r) of
     None \<Rightarrow> JNull
   | Some f \<Rightarrow> js_or (get f ''reason'') (js_or (get f ''message'') JNull))"

record failure =
  fa_reason :: jsval
  fa_candidates :: "jsval list"

type_synonym failures = "(jsval \<times> failure) list"

definition add_failed :: "jsval \<Rightarrow> jsval \<Rightarrow> jsval list \<Rightarrow> failures \<Rightarrow> failures" where
  \<comment> \<open>the first failure of an entry is the one reported\<close>
  "add_failed i reason candidates fs =
    (if i \<in> set (map fst fs) then fs
     else alset i \<lparr>fa_reason = reason, fa_candidates = candidates\<rparr> fs)"

definition mark_chunk_entries_failed :: "chunk \<Rightarrow> jsval \<Rightarrow> failures \<Rightarrow> failures" where
  "mark_chunk_entries_failed ck reason fs = fold (\<lambda>i. add_failed i reason []) (ck_ids ck) fs"

record chunk_run =
  cr_applied :: "(jsval \<times> nat) list"
  cr_failed :: failures
  cr_files :: "jsval list"
  cr_notes :: "jsval list"
  cr_aborted :: bool

definition failed_id :: "jsval \<Rightarrow> jsval" where
  "failed_id item = js_or (get item ''entryId'') (get item ''id'')"

definition add_reported_failure :: "jsval \<Rightarrow> failures \<Rightarrow> failures" where
  "add_reported_failure item fs =
    (if \<not> truthy (failed_id item) then fs
     else add_failed (failed_id item)
       (js_or (get item ''reason'') (js_or (get item ''message'') (JStr ''failed'')))
       (elems (get item ''candidates'')) fs)"

definition chunk_failed_ids :: "apply_result \<Rightarrow> jsval list" where
  "chunk_failed_ids r = filter truthy (map failed_id (ar_failed r))"

definition add_applied :: "chunk \<Rightarrow> jsval \<Rightarrow> (jsval \<times> nat) list \<Rightarrow> (jsval \<times> nat) list" where
  "add_applied ck i m = alset i (count_at m i + count_at (ck_counts ck) i) m"

definition take_result :: "chunk \<Rightarrow> apply_result \<Rightarrow> chunk_run \<Rightarrow> chunk_run" where
  "take_result ck r run =
    (let failedIds = chunk_failed_ids r;
         reported = set_of (ar_applied r);
         run = run\<lparr>cr_files := set_of (cr_files run @ ar_files r), cr_notes := cr_notes run @ ar_notes r,
           cr_failed := fold add_reported_failure (ar_failed r) (cr_failed run)\<rparr>
     in if ar_status r = Error
        then run\<lparr>cr_failed := mark_chunk_entries_failed ck
            (js_or (case ar_message r of None \<Rightarrow> JNull | Some m \<Rightarrow> JStr m)
              (js_or (first_failure_reason r) (JStr ''chat_agent_error''))) (cr_failed run),
          cr_aborted := True\<rparr>
        else run\<lparr>cr_applied := fold (add_applied ck)
            (filter (\<lambda>i. i \<in> set (ck_ids ck) \<and> i \<notin> set failedIds) reported) (cr_applied run),
          cr_failed := fold (\<lambda>i. add_failed i (JStr ''not_reported_applied'') [])
            (filter (\<lambda>i. i \<notin> set reported \<and> i \<notin> set failedIds) (ck_ids ck)) (cr_failed run)\<rparr>)"

definition run_chunk :: "(string + jsval) \<Rightarrow> chunk \<Rightarrow> chunk_run \<Rightarrow> chunk_run" where
  \<comment> \<open>one round of the loop; the reply is an error's message or the result the agent sent\<close>
  "run_chunk reply ck run =
    (if cr_aborted run
     then run\<lparr>cr_failed := mark_chunk_entries_failed ck (JStr ''manual_edit_chunk_aborted'') (cr_failed run)\<rparr>
     else case reply of
       Inl m \<Rightarrow> run\<lparr>cr_failed := mark_chunk_entries_failed ck (js_or (JStr m) (JStr ''chat_agent_error'')) (cr_failed run),
                   cr_aborted := True\<rparr>
     | Inr v \<Rightarrow> take_result ck (normalize_apply_chunk_result v) run)"

fun run_chunks :: "(nat \<Rightarrow> string + jsval) \<Rightarrow> nat \<Rightarrow> chunk list \<Rightarrow> chunk_run \<Rightarrow> chunk_run" where
  "run_chunks replies n [] run = run"
| "run_chunks replies n (ck # cks) run = run_chunks replies (Suc n) cks (run_chunk (replies n) ck run)"

definition empty_run :: chunk_run where
  "empty_run = \<lparr>cr_applied = [], cr_failed = [], cr_files = [], cr_notes = [], cr_aborted = False\<rparr>"

definition expected_ops :: "jsval \<Rightarrow> (jsval \<times> nat) list" where
  "expected_ops batch = fold (\<lambda>e. alset (get e ''id'') (length (ops_of e))) (entries_of batch) []"

definition settle_entry :: "(jsval \<times> nat) list \<Rightarrow> jsval \<times> nat \<Rightarrow> jsval list \<times> failures \<Rightarrow> jsval list \<times> failures" where
  "settle_entry applied e s =
    (if fst e \<in> set (map fst (snd s)) then s
     else if count_at applied (fst e) = snd e \<and> snd e > 0 then (fst s @ [fst e], snd s)
     else (fst s, add_failed (fst e) (JStr ''not_reported_applied'') [] (snd s)))"

definition failure_obj :: "jsval \<times> failure \<Rightarrow> jsval" where
  "failure_obj f = JObj [(''entryId'', fst f), (''reason'', fa_reason (snd f)), (''candidates'', JArr (fa_candidates (snd f)))]"

definition merge_chunk_results :: "jsval \<Rightarrow> chunk list \<Rightarrow> (nat \<Rightarrow> string + jsval) \<Rightarrow> apply_result \<times> failures" where
  \<comment> \<open>\<open>pushBatchInChunksAndWait\<close> once it has more than one chunk; the failures by entry are kept beside the result\<close>
  "merge_chunk_results batch chunks replies =
    (let run = run_chunks replies 0 chunks empty_run;
         (applied, failed) = fold (settle_entry (cr_applied run)) (expected_ops batch) ([], cr_failed run)
     in (\<lparr>ar_status = (if length failed = 0 then Done else if length applied > 0 then Partial else Error),
          ar_message = None, ar_applied = applied, ar_failed = map failure_obj failed,
          ar_files = cr_files run, ar_notes = cr_notes run\<rparr>, failed))"

section \<open>Checking a result\<close>

definition result_shape_hint :: "jsval \<Rightarrow> string" where
  "result_shape_hint eventId = ''Use live-poll.mjs --reply '' @ js_string eventId @
     '' done --data '' @ [CHR 0x27] @ ''{\"status\":\"done\",\"appliedEntryIds\":[\"ENTRY_ID\"],\"failed\":[],\"files\":[\"src/page.html\"],\"notes\":[]}'' @ [CHR 0x27]"

definition invalid_result :: "string \<Rightarrow> jsval \<Rightarrow> props \<Rightarrow> jsval" where
  "invalid_result reason eventId extra = JObj (spread
     [(''error'', JStr ''invalid_manual_apply_result''), (''reason'', JStr reason),
      (''hint'', JStr (result_shape_hint eventId))] extra)"

fun first_index :: "('a \<Rightarrow> bool) \<Rightarrow> nat \<Rightarrow> 'a list \<Rightarrow> nat option" where
  "first_index P n [] = None"
| "first_index P n (x # xs) = (if P x then Some n else first_index P (Suc n) xs)"

definition bad_string :: "jsval \<Rightarrow> bool" where
  "bad_string v = (\<not> is_str v \<or> \<not> truthy v)"

definition bad_failed_item :: "jsval \<Rightarrow> string option" where
  "bad_failed_item item =
    (if \<not> truthy item \<or> \<not> is_objty item \<or> is_arr item then Some ''failed_must_contain_objects''
     else if bad_string (get item ''entryId'') then Some ''failed_entryId_required''
     else if bad_string (get item ''reason'') then Some ''failed_reason_required''
     else None)"

fun first_failed_problem :: "nat \<Rightarrow> jsval list \<Rightarrow> (string \<times> nat) option" where
  "first_failed_problem n [] = None"
| "first_failed_problem n (x # xs) =
    (case bad_failed_item x of Some r \<Rightarrow> Some (r, n) | None \<Rightarrow> first_failed_problem (Suc n) xs)"

definition index_prop :: "nat \<Rightarrow> props" where
  "index_prop n = [(''index'', jint (int n))]"

definition check_lists :: "jsval \<Rightarrow> (string \<times> props) option" where
  \<comment> \<open>the checks of the four lists, in order\<close>
  "check_lists data =
    (case List.find (\<lambda>k. \<not> is_arr (get data k)) [''appliedEntryIds'', ''failed'', ''files'', ''notes''] of
       Some k \<Rightarrow> Some (k @ ''_must_be_array'', [])
     | None \<Rightarrow>
     (case first_index bad_string 0 (elems (get data ''appliedEntryIds'')) of
       Some n \<Rightarrow> Some (''appliedEntryIds_must_contain_strings'', index_prop n)
     | None \<Rightarrow>
     (case first_index bad_string 0 (elems (get data ''files'')) of
       Some n \<Rightarrow> Some (''files_must_contain_strings'', index_prop n)
     | None \<Rightarrow>
     (case first_index (\<lambda>v. \<not> is_str v) 0 (elems (get data ''notes'')) of
       Some n \<Rightarrow> Some (''notes_must_contain_strings'', index_prop n)
     | None \<Rightarrow>
     (case first_failed_problem 0 (elems (get data ''failed'')) of
       Some (r, n) \<Rightarrow> Some (r, index_prop n)
     | None \<Rightarrow> None)))))"

definition check_ids :: "jsval list \<Rightarrow> jsval \<Rightarrow> (string \<times> props) option" where
  \<comment> \<open>every id reported is one of the event's\<close>
  "check_ids eventIds data =
    (let unknown = (\<lambda>i. length eventIds > 0 \<and> i \<notin> set eventIds) in
     case List.find unknown (elems (get data ''appliedEntryIds'')) of
       Some i \<Rightarrow> Some (''applied_entry_id_not_in_event'', [(''entryId'', i)])
     | None \<Rightarrow>
     (case List.find (\<lambda>item. unknown (get item ''entryId'')) (elems (get data ''failed'')) of
       Some item \<Rightarrow> Some (''failed_entry_id_not_in_event'', [(''entryId'', get item ''entryId'')])
     | None \<Rightarrow> None))"

definition check_status :: "jsval \<Rightarrow> jsval \<Rightarrow> string option" where
  "check_status batch data =
    (let applied = elems (get data ''appliedEntryIds''); failed = elems (get data ''failed'') in
     if get data ''status'' = JStr ''done'' \<and> length failed > 0 then Some ''done_result_has_failed_entries''
     else if get data ''status'' = JStr ''done'' \<and> count_manual_apply_ops batch > 0 \<and> length applied = 0
       then Some ''done_result_missing_applied_entry_ids''
     else if get data ''status'' = JStr ''partial'' \<and> length applied = 0 \<and> length failed = 0
       then Some ''partial_result_has_no_entries''
     else if get data ''status'' = JStr ''error'' \<and> length applied > 0 then Some ''error_result_has_applied_entries''
     else None)"

definition validate_result_message :: "jsval \<Rightarrow> jsval \<Rightarrow> jsval \<Rightarrow> jsval + jsval" where
  \<comment> \<open>\<open>Inl\<close> the body of a refusal, \<open>Inr\<close> the result; \<open>batch\<close> and \<open>event\<close> are the deferred's\<close>
  "validate_result_message msg event batch =
    (let data = get msg ''data'';
         eventId = js_or (get msg ''id'') (js_or (get event ''id'') (JStr ''EVENT_ID''));
         eventIds = set_of (filter truthy (map (\<lambda>e. get e ''id'') (entries_of batch)));
         bad = (\<lambda>reason extra. Inl (invalid_result reason eventId extra))
     in if \<not> truthy data \<or> \<not> is_objty data \<or> is_arr data then bad ''missing_result_data'' []
        else if has_key data ''entries'' \<or> has_key data ''ops'' then bad ''summary_result_not_allowed'' []
        else if \<not> in_vocab (get data ''status'') [''done'', ''partial'', ''error'']
          then bad ''invalid_status'' [(''status'', js_coalesce (get data ''status'') JNull)]
        else case check_lists data of Some (r, x) \<Rightarrow> bad r x
        | None \<Rightarrow> (case check_ids eventIds data of Some (r, x) \<Rightarrow> bad r x
        | None \<Rightarrow> (case check_status batch data of Some r \<Rightarrow> bad r []
        | None \<Rightarrow> Inr (JObj [(''status'', get data ''status''),
            (''message'', if is_str (get data ''message'') then get data ''message'' else JUndef),
            (''appliedEntryIds'', get data ''appliedEntryIds''), (''failed'', get data ''failed''),
            (''files'', get data ''files''), (''notes'', get data ''notes'')]))))"

section \<open>Splitting keeps every operation\<close>

definition all_tagged :: "jsval list \<Rightarrow> jsval list" where
  "all_tagged entries = concat (map (\<lambda>e. map (tagged_op e) (ops_of e)) entries)"

definition split_ops :: "split_state \<Rightarrow> jsval list" where
  "split_ops s = concat (map cb_ops (fst s)) @ cb_ops (snd s)"

definition split_count :: "jsval \<Rightarrow> split_state \<Rightarrow> nat" where
  "split_count i s = sum_list (map (\<lambda>cb. count_at (cb_counts cb) i) (fst s)) + count_at (cb_counts (snd s)) i"

definition chunk_fits :: "nat \<Rightarrow> chunk_builder \<Rightarrow> bool" where
  "chunk_fits m cb \<longleftrightarrow> cb_count cb = length (cb_ops cb) \<and> 0 < cb_count cb \<and> cb_count cb \<le> m"

definition split_ok :: "nat \<Rightarrow> split_state \<Rightarrow> bool" where
  "split_ok m s \<longleftrightarrow> (\<forall>cb \<in> set (fst s). chunk_fits m cb) \<and>
     cb_count (snd s) = length (cb_ops (snd s)) \<and> cb_count (snd s) \<le> m \<and>
     (cb_count (snd s) = 0 \<longrightarrow> (\<forall>i. count_at (cb_counts (snd s)) i = 0))"

lemma count_at_alset: "count_at (alset k n m) i = (if k = i then n else count_at m i)"
  by (simp add: count_at_def)

lemma add_op_simps:
  "cb_ops (add_op e op cb) = cb_ops cb @ [tagged_op e op]"
  "cb_count (add_op e op cb) = cb_count cb + 1"
  "count_at (cb_counts (add_op e op cb)) i = count_at (cb_counts cb) i + (if get e ''id'' = i then 1 else 0)"
  by (simp_all add: add_op_def Let_def count_at_alset)

lemma new_chunk_simps [simp]: "cb_ops new_chunk = []" "cb_count new_chunk = 0" "count_at (cb_counts new_chunk) i = 0"
  by (simp_all add: new_chunk_def count_at_def)

lemma fold_add_op:
  "cb_ops (fold (add_op e) ops cb) = cb_ops cb @ map (tagged_op e) ops"
  "cb_count (fold (add_op e) ops cb) = cb_count cb + length ops"
  "count_at (cb_counts (fold (add_op e) ops cb)) i = count_at (cb_counts cb) i + (if get e ''id'' = i then length ops else 0)"
  by (induction ops arbitrary: cb) (simp_all add: add_op_simps)

lemma flush_chunk_simps [simp]:
  "split_ops (flush_chunk b s) = split_ops s" "split_count i (flush_chunk b s) = split_count i s"
  by (simp_all add: flush_chunk_def split_ops_def split_count_def)

lemma flush_chunk_ok: "split_ok m s \<Longrightarrow> (b \<Longrightarrow> cb_count (snd s) > 0) \<Longrightarrow> split_ok m (flush_chunk b s)"
  by (auto simp: flush_chunk_def split_ok_def chunk_fits_def)

lemma split_op_step:
  assumes "0 < m"
  shows "split_ops (split_op m e op s) = split_ops s @ [tagged_op e op]"
    "split_count i (split_op m e op s) = split_count i s + (if get e ''id'' = i then 1 else 0)"
    "split_ok m s \<Longrightarrow> split_ok m (split_op m e op s)"
proof -
  let ?s = "flush_chunk (cb_count (snd s) \<ge> m) s"
  have e: "split_op m e op s = (fst ?s, add_op e op (snd ?s))" by (simp add: split_op_def Let_def)
  show "split_ops (split_op m e op s) = split_ops s @ [tagged_op e op]"
    using flush_chunk_simps(1) [of "cb_count (snd s) \<ge> m" s] unfolding e by (simp add: split_ops_def add_op_simps)
  show "split_count i (split_op m e op s) = split_count i s + (if get e ''id'' = i then 1 else 0)"
    using flush_chunk_simps(2) [of i "cb_count (snd s) \<ge> m" s] unfolding e by (simp add: split_count_def add_op_simps)
  assume ok: "split_ok m s"
  then have "split_ok m ?s" using assms by (intro flush_chunk_ok) auto
  moreover have "cb_count (snd ?s) < m" using assms by (simp add: flush_chunk_def)
  ultimately show "split_ok m (split_op m e op s)" unfolding e by (auto simp: split_ok_def add_op_simps)
qed

lemma fold_split_op:
  assumes "0 < m"
  shows "split_ops (fold (split_op m e) ops s) = split_ops s @ map (tagged_op e) ops"
    "split_count i (fold (split_op m e) ops s) = split_count i s + (if get e ''id'' = i then length ops else 0)"
    "split_ok m s \<Longrightarrow> split_ok m (fold (split_op m e) ops s)"
  by (induction ops arbitrary: s) (simp_all add: split_op_step [OF assms])

lemma split_entry_step:
  assumes m: "0 < m"
  shows "split_ops (split_entry m e s) = split_ops s @ map (tagged_op e) (ops_of e) \<and>
    split_count i (split_entry m e s) = split_count i s + (if get e ''id'' = i then length (ops_of e) else 0) \<and>
    (split_ok m s \<longrightarrow> split_ok m (split_entry m e s))"
proof (cases "length (ops_of e) \<le> m")
  case True
  let ?b = "cb_count (snd s) > 0 \<and> cb_count (snd s) + length (ops_of e) > m"
  let ?s = "flush_chunk ?b s"
  have e: "split_entry m e s = (fst ?s, fold (add_op e) (ops_of e) (snd ?s))"
    using True by (simp add: split_entry_def Let_def)
  have "split_ok m (split_entry m e s)" if "split_ok m s"
  proof -
    have "split_ok m ?s" using that by (rule flush_chunk_ok) simp
    moreover have "cb_count (snd ?s) + length (ops_of e) \<le> m" using True by (auto simp: flush_chunk_def)
    moreover have "split_ok m (fst t, fold (add_op e) (ops_of e) (snd t))"
      if "split_ok m t" "cb_count (snd t) + length (ops_of e) \<le> m" for t
      using that by (simp add: split_ok_def fold_add_op)
    ultimately show ?thesis unfolding e by blast
  qed
  then show ?thesis
    using flush_chunk_simps(1) [of ?b s] flush_chunk_simps(2) [of i ?b s]
    unfolding e by (simp add: split_ops_def split_count_def fold_add_op)
next
  case False
  have "split_ok m (flush_chunk (cb_count (snd s) > 0) s)" if "split_ok m s"
    using that by (rule flush_chunk_ok) simp
  with False show ?thesis by (simp add: split_entry_def Let_def fold_split_op [OF m])
qed

lemma fold_split_entry:
  assumes "0 < m"
  shows "split_ops (fold (split_entry m) entries s) = split_ops s @ all_tagged entries"
    and "split_count i (fold (split_entry m) entries s) =
      split_count i s + sum_list (map (\<lambda>e. if get e ''id'' = i then length (ops_of e) else 0) entries)"
    and "split_ok m s \<Longrightarrow> split_ok m (fold (split_entry m) entries s)"
  using split_entry_step [OF assms]
  by (induction entries arbitrary: s) (simp_all add: all_tagged_def)

lemma raw_chunks_correct:
  assumes "0 < m"
  shows "concat (map cb_ops (raw_chunks m entries)) = all_tagged entries"
    and "sum_list (map (\<lambda>cb. count_at (cb_counts cb) i) (raw_chunks m entries)) =
      sum_list (map (\<lambda>e. if get e ''id'' = i then length (ops_of e) else 0) entries)"
    and "\<forall>cb \<in> set (raw_chunks m entries). chunk_fits m cb"
proof -
  let ?s = "fold (split_entry m) entries ([], new_chunk)"
  let ?t = "flush_chunk (cb_count (snd ?s) > 0) ?s"
  have ok: "split_ok m ?s" by (rule fold_split_entry(3) [OF assms]) (simp add: split_ok_def)
  then have okt: "split_ok m ?t" by (rule flush_chunk_ok)
  have empty: "cb_ops (snd ?t) = []" using ok by (simp add: flush_chunk_def split_ok_def)
  have ops: "split_ops ?s = all_tagged entries" "split_count i ?s =
      sum_list (map (\<lambda>e. if get e ''id'' = i then length (ops_of e) else 0) entries)"
    using fold_split_entry(1,2) [OF assms, where s = "([], new_chunk)" and entries = entries]
    by (simp_all add: split_ops_def split_count_def)
  have r: "raw_chunks m entries = fst ?t" by (simp add: raw_chunks_def Let_def)
  show "concat (map cb_ops (raw_chunks m entries)) = all_tagged entries"
    using ops(1) flush_chunk_simps(1) [of "cb_count (snd ?s) > 0" ?s] empty by (simp add: r split_ops_def)
  show "\<forall>cb \<in> set (raw_chunks m entries). chunk_fits m cb"
    using okt by (simp add: r split_ok_def)
  have z: "count_at (cb_counts (snd ?t)) i = 0" using ok by (simp add: flush_chunk_def split_ok_def)
  show "sum_list (map (\<lambda>cb. count_at (cb_counts cb) i) (raw_chunks m entries)) =
      sum_list (map (\<lambda>e. if get e ''id'' = i then length (ops_of e) else 0) entries)"
    using ops(2) flush_chunk_simps(2) [of i "cb_count (snd ?s) > 0" ?s] z by (simp add: r split_count_def)
qed

section \<open>Merging decides every entry\<close>

lemma add_failed_simps [simp]:
  "set (map fst (add_failed i r cs fs)) = insert i (set (map fst fs))"
  "distinct (map fst fs) \<Longrightarrow> distinct (map fst (add_failed i r cs fs))"
  by (auto simp: add_failed_def keys_alset simp del: set_map)

lemma set_set_of [simp]: "set (set_of xs) = set xs" "distinct (set_of xs)"
  by (simp_all add: set_of_def)

text \<open>What one reply contributes to an entry's applied operations.\<close>

definition reports :: "(string + jsval) \<Rightarrow> jsval \<Rightarrow> bool" where
  \<comment> \<open>the reply names the entry as applied, and not as failed, in a result that is not an error\<close>
  "reports reply i = (case reply of Inl _ \<Rightarrow> False
     | Inr v \<Rightarrow> let r = normalize_apply_chunk_result v in
         ar_status r \<noteq> Error \<and> i \<in> set (ar_applied r) \<and> i \<notin> set (chunk_failed_ids r))"

lemma fold_add_applied:
  "distinct is \<Longrightarrow> count_at (fold (add_applied ck) is m) i =
     count_at m i + (if i \<in> set is then count_at (ck_counts ck) i else 0)"
  by (induction "is" arbitrary: m) (auto simp: add_applied_def count_at_alset)

lemma run_chunk_applied:
  "count_at (cr_applied (run_chunk reply ck run)) i \<le>
     count_at (cr_applied run) i + (if reports reply i then count_at (ck_counts ck) i else 0)"
proof -
  have "count_at (cr_applied (take_result ck r run)) i \<le> count_at (cr_applied run) i +
      (if ar_status r \<noteq> Error \<and> i \<in> set (ar_applied r) \<and> i \<notin> set (chunk_failed_ids r)
       then count_at (ck_counts ck) i else 0)" for r
    by (simp add: take_result_def Let_def fold_add_applied)
  note taken = this
  show ?thesis
  proof (cases "cr_aborted run")
    case False
    then show ?thesis
      using taken by (cases reply) (simp_all add: run_chunk_def reports_def Let_def)
  qed (simp add: run_chunk_def)
qed

definition reported_count :: "(nat \<Rightarrow> string + jsval) \<Rightarrow> nat \<Rightarrow> chunk list \<Rightarrow> jsval \<Rightarrow> nat" where
  "reported_count replies n cks i =
    sum_list (map (\<lambda>(k, ck). if reports (replies k) i then count_at (ck_counts ck) i else 0) (zip [n..<n + length cks] cks))"

lemma reported_count_Cons:
  "reported_count replies n (ck # cks) i =
     (if reports (replies n) i then count_at (ck_counts ck) i else 0) + reported_count replies (Suc n) cks i"
  unfolding reported_count_def by (simp add: upt_conv_Cons del: upt_Suc)

lemma reported_count_Nil [simp]: "reported_count replies n [] i = 0"
  by (simp add: reported_count_def)

lemma run_chunks_applied:
  "count_at (cr_applied (run_chunks replies n cks run)) i \<le>
     count_at (cr_applied run) i + reported_count replies n cks i"
proof (induction cks arbitrary: n run)
  case (Cons ck cks)
  show ?case
    using Cons [of "Suc n" "run_chunk (replies n) ck run"] run_chunk_applied [of "replies n" ck run i]
    by (simp add: reported_count_Cons)
qed simp

lemma reported_count_le: "reported_count replies n cks i \<le> sum_list (map (\<lambda>ck. count_at (ck_counts ck) i) cks)"
  by (induction cks arbitrary: n) (auto simp: reported_count_Cons intro: add_mono le_SucI trans_le_add2)

lemma reported_count_full:
  assumes "reported_count replies n cks i = sum_list (map (\<lambda>ck. count_at (ck_counts ck) i) cks)"
    and "k < length cks" and "0 < count_at (ck_counts (cks ! k)) i"
  shows "reports (replies (n + k)) i"
  using assms
proof (induction cks arbitrary: n k)
  case (Cons ck cks)
  have le: "reported_count replies (Suc n) cks i \<le> sum_list (map (\<lambda>ck. count_at (ck_counts ck) i) cks)"
    by (rule reported_count_le)
  with Cons.prems(1) have hd: "reports (replies n) i \<or> count_at (ck_counts ck) i = 0"
    and tl: "reported_count replies (Suc n) cks i = sum_list (map (\<lambda>ck. count_at (ck_counts ck) i) cks)"
    by (auto simp: reported_count_Cons split: if_splits)
  show ?case
  proof (cases k)
    case 0
    with hd Cons.prems show ?thesis by auto
  next
    case (Suc k')
    with Cons.IH [OF tl, of k'] Cons.prems show ?thesis by simp
  qed
qed simp

text \<open>The last pass: every expected entry ends up applied or failed, none both.\<close>

lemma settle_entries:
  assumes "fold (settle_entry m) es (ap, fs) = (ap', fs')" and "set ap \<inter> set (map fst fs) = {}"
    and "distinct (map fst es)" and "set ap \<inter> set (map fst es) = {}"
  shows "set ap' \<inter> set (map fst fs') = {} \<and> set (map fst es) \<subseteq> set ap' \<union> set (map fst fs') \<and>
    set ap \<subseteq> set ap' \<and> set (map fst fs) \<subseteq> set (map fst fs') \<and>
    (\<forall>i \<in> set ap' - set ap. \<exists>n. (i, n) \<in> set es \<and> count_at m i = n \<and> 0 < n)"
  using assms
proof (induction es arbitrary: ap fs)
  case (Cons e es)
  obtain ap1 fs1 where s: "settle_entry m e (ap, fs) = (ap1, fs1)" by (cases "settle_entry m e (ap, fs)")
  obtain i n where e: "e = (i, n)" by (cases e)
  have rest: "fold (settle_entry m) es (ap1, fs1) = (ap', fs')" using Cons.prems(1) s by simp
  have i: "i \<notin> set (map fst es)" "i \<notin> set ap" using Cons.prems(3,4) e by auto
  consider "i \<in> set (map fst fs)" "ap1 = ap" "fs1 = fs"
    | "i \<notin> set (map fst fs)" "count_at m i = n" "0 < n" "ap1 = ap @ [i]" "fs1 = fs"
    | "ap1 = ap" "fs1 = add_failed i (JStr ''not_reported_applied'') [] fs"
    using s e by (auto simp: settle_entry_def simp del: set_map split: if_splits)
  then show ?case
  proof cases
    case 1
    with Cons.IH [OF rest] Cons.prems e i show ?thesis by auto
  next
    case 2
    have "set ap1 \<inter> set (map fst fs1) = {}" "set ap1 \<inter> set (map fst es) = {}"
      using 2 Cons.prems i by auto
    with Cons.IH [OF rest] Cons.prems(3) 2 e show ?thesis by auto
  next
    case 3
    have "set (map fst fs1) = insert i (set (map fst fs))" using 3 by (simp only: add_failed_simps)
    moreover have "set ap1 \<inter> set (map fst fs1) = {}" "set ap1 \<inter> set (map fst es) = {}"
      using 3 Cons.prems i calculation by auto
    ultimately show ?thesis using Cons.IH [OF rest] Cons.prems(3) 3 e by auto
  qed
qed auto

lemma alset_fresh: "k \<notin> set (map fst m) \<Longrightarrow> alset k v m = m @ [(k, v)]"
  by (induction m) auto

lemma expected_ops_list:
  assumes "distinct (map (\<lambda>e. get e ''id'') (entries_of batch))"
  shows "expected_ops batch = map (\<lambda>e. (get e ''id'', length (ops_of e))) (entries_of batch)"
proof -
  have "fold (\<lambda>e. alset (get e ''id'') (length (ops_of e))) es m = m @ map (\<lambda>e. (get e ''id'', length (ops_of e))) es"
    if "distinct (map fst m @ map (\<lambda>e. get e ''id'') es)" for es :: "jsval list" and m
    using that by (induction es arbitrary: m) (auto simp: alset_fresh)
  then show ?thesis using assms by (simp add: expected_ops_def)
qed

lemma sum_list_single:
  assumes "distinct (map f es)" "e \<in> set es"
  shows "sum_list (map (\<lambda>x. if f x = f e then (g x :: nat) else 0) es) = g e"
  using assms
proof (induction es)
  case (Cons a es)
  show ?case
  proof (cases "a = e")
    case True
    have "map (\<lambda>x. if f x = f e then g x else 0) es = map (\<lambda>x. 0) es"
      using Cons.prems True by (intro map_cong) (auto simp: image_iff)
    then have "sum_list (map (\<lambda>x. if f x = f e then g x else 0) es) = 0" by (simp add: sum_list_replicate)
    with True show ?thesis by simp
  next
    case False
    with Cons show ?thesis by force
  qed
qed simp

section \<open>Properties of splitting and merging\<close>

lemma get_with_props_ops:
  "get (with_props v [(''count'', a), (''entries'', b), (''ops'', c), (''candidates'', d), (''context'', e)]) ''ops'' = c"
  by (simp add: with_props_def spread_def)

lemma map_zip_snd: "length ns = length xs \<Longrightarrow> map (\<lambda>p. f (snd p)) (zip ns xs) = map f xs"
  by (induction ns xs rule: list_induct2) simp_all

lemma chunk_fits_length: "chunk_fits m cb \<Longrightarrow> 1 \<le> length (cb_ops cb) \<and> length (cb_ops cb) \<le> m"
  by (cases "cb_ops cb") (auto simp: chunk_fits_def)

lemma split_chunks:
  assumes "maxOps < count_manual_apply_ops batch"
  shows "map (\<lambda>ck. elems (get (ck_batch ck) ''ops'')) (split_manual_apply_batch batch maxOps) =
      map cb_ops (raw_chunks maxOps (entries_of batch))"
    and "map ck_counts (split_manual_apply_batch batch maxOps) = map cb_counts (raw_chunks maxOps (entries_of batch))"
proof -
  let ?raw = "raw_chunks maxOps (entries_of batch)"
  have s: "split_manual_apply_batch batch maxOps =
      map (\<lambda>(index, cb). finish_chunk batch (length ?raw) (count_manual_apply_ops batch) index cb) (zip [0..<length ?raw] ?raw)"
    using assms by (simp add: split_manual_apply_batch_def Let_def)
  have z: "map (\<lambda>p. f (snd p)) (zip [0..<length ?raw] ?raw) = map f ?raw" for f :: "chunk_builder \<Rightarrow> 'b"
    by (rule map_zip_snd) simp
  show "map (\<lambda>ck. elems (get (ck_batch ck) ''ops'')) (split_manual_apply_batch batch maxOps) = map cb_ops ?raw"
    unfolding s by (simp add: o_def case_prod_unfold finish_chunk_def get_with_props_ops z)
  show "map ck_counts (split_manual_apply_batch batch maxOps) = map cb_counts ?raw"
    unfolding s by (simp add: o_def case_prod_unfold finish_chunk_def z)
qed


definition sample_batch :: jsval where
  "sample_batch = JObj [(''entries'', JArr [
     JObj [(''id'', JStr ''a''), (''ops'', JArr [JObj [(''ref'', JStr ''r1'')], JObj [(''ref'', JStr ''r2'')]])],
     JObj [(''id'', JStr ''b''), (''ops'', JArr [JObj [(''ref'', JStr ''r3'')]])]])]"




lemma first_index_None: "first_index P n xs = None \<longleftrightarrow> (\<forall>x \<in> set xs. \<not> P x)"
  by (induction xs arbitrary: n) auto

lemma first_failed_problem_None: "first_failed_problem n xs = None \<longleftrightarrow> (\<forall>x \<in> set xs. bad_failed_item x = None)"
  by (induction xs arbitrary: n) (auto split: option.split)

text \<open>
  C22. What the server takes as a result of applying copy edits is one: its four
  lists are lists, every applied id and every failed item's id is an id of the
  event (when the event has any), \<open>done\<close> means no failures and, when there was
  anything to do, something applied, and \<open>error\<close> means nothing applied.
\<close>

theorem accepted_result_is_sound:
  assumes "validate_result_message msg event batch = Inr result"
  shows "is_arr (get result ''appliedEntryIds'') \<and> is_arr (get result ''failed'') \<and> is_arr (get result ''files'') \<and>
    is_arr (get result ''notes'') \<and> get result ''status'' \<in> {JStr ''done'', JStr ''partial'', JStr ''error''} \<and>
    list_all (\<lambda>i. is_str i \<and> (set (filter truthy (map (\<lambda>e. get e ''id'') (entries_of batch))) = {} \<or>
        i \<in> set (map (\<lambda>e. get e ''id'') (entries_of batch)))) (elems (get result ''appliedEntryIds'')) \<and>
    list_all (\<lambda>f. set (filter truthy (map (\<lambda>e. get e ''id'') (entries_of batch))) = {} \<or>
        get f ''entryId'' \<in> set (map (\<lambda>e. get e ''id'') (entries_of batch))) (elems (get result ''failed'')) \<and>
    \<not> (get result ''status'' = JStr ''done'' \<and> (elems (get result ''failed'') \<noteq> [] \<or>
        count_manual_apply_ops batch > 0 \<and> elems (get result ''appliedEntryIds'') = [])) \<and>
    \<not> (get result ''status'' = JStr ''error'' \<and> elems (get result ''appliedEntryIds'') \<noteq> [])"
proof -
  let ?d = "get msg ''data''"
  let ?ids = "set_of (filter truthy (map (\<lambda>e. get e ''id'') (entries_of batch)))"
  from assms have l: "check_lists ?d = None" and i: "check_ids ?ids ?d = None" and s: "check_status batch ?d = None"
    and v: "in_vocab (get ?d ''status'') [''done'', ''partial'', ''error'']"
    and r: "result = JObj [(''status'', get ?d ''status''),
            (''message'', if is_str (get ?d ''message'') then get ?d ''message'' else JUndef),
            (''appliedEntryIds'', get ?d ''appliedEntryIds''), (''failed'', get ?d ''failed''),
            (''files'', get ?d ''files''), (''notes'', get ?d ''notes'')]"
    by (auto simp: validate_result_message_def Let_def split: if_splits option.splits prod.splits)
  have f: "get result ''status'' = get ?d ''status''" "get result ''appliedEntryIds'' = get ?d ''appliedEntryIds''"
    "get result ''failed'' = get ?d ''failed''" "get result ''files'' = get ?d ''files''" "get result ''notes'' = get ?d ''notes''"
    by (simp_all add: r)
  have arr: "is_arr (get ?d ''appliedEntryIds'') \<and> is_arr (get ?d ''failed'') \<and> is_arr (get ?d ''files'') \<and> is_arr (get ?d ''notes'')"
    and strs: "\<forall>i \<in> set (elems (get ?d ''appliedEntryIds'')). is_str i"
    using l by (auto simp: check_lists_def first_index_None bad_string_def split: option.splits if_splits)
  have ids: "(\<forall>i \<in> set (elems (get ?d ''appliedEntryIds'')). ?ids = [] \<or> i \<in> set ?ids) \<and>
      (\<forall>f \<in> set (elems (get ?d ''failed'')). ?ids = [] \<or> get f ''entryId'' \<in> set ?ids)"
    using i by (auto simp: check_ids_def Let_def find_None_iff split: option.splits)
  have empty: "?ids = [] \<longleftrightarrow> set (filter truthy (map (\<lambda>e. get e ''id'') (entries_of batch))) = {}"
    by (metis set_set_of(1) set_empty)
  have st: "get ?d ''status'' \<in> {JStr ''done'', JStr ''partial'', JStr ''error''}" using in_vocabE [OF v] by auto
  have set_ids: "set ?ids \<subseteq> set (map (\<lambda>e. get e ''id'') (entries_of batch))" by auto
  have done_error: "\<not> (get ?d ''status'' = JStr ''done'' \<and> (elems (get ?d ''failed'') \<noteq> [] \<or>
        count_manual_apply_ops batch > 0 \<and> elems (get ?d ''appliedEntryIds'') = []))"
    "\<not> (get ?d ''status'' = JStr ''error'' \<and> elems (get ?d ''appliedEntryIds'') \<noteq> [])"
    using s by (auto simp: check_status_def Let_def split: if_splits)
  have applied: "list_all (\<lambda>i. is_str i \<and> (set (filter truthy (map (\<lambda>e. get e ''id'') (entries_of batch))) = {} \<or>
        i \<in> set (map (\<lambda>e. get e ''id'') (entries_of batch)))) (elems (get ?d ''appliedEntryIds''))"
    unfolding list_all_iff empty [symmetric] using strs ids set_ids by blast
  have failed: "list_all (\<lambda>f. set (filter truthy (map (\<lambda>e. get e ''id'') (entries_of batch))) = {} \<or>
        get f ''entryId'' \<in> set (map (\<lambda>e. get e ''id'') (entries_of batch))) (elems (get ?d ''failed''))"
    unfolding list_all_iff empty [symmetric] using ids set_ids by blast
  show ?thesis unfolding f using arr st applied failed done_error by blast
qed

theorem accepted_result_is_sound_witness:
  "\<exists>result. validate_result_message (JObj [(''id'', JStr ''e''), (''data'', JObj [(''status'', JStr ''done''),
       (''appliedEntryIds'', JArr [JStr ''a'']), (''failed'', JArr []), (''files'', JArr []), (''notes'', JArr [])])])
       JUndef sample_batch = Inr result \<and> is_arr (get result ''failed'')"
proof -
  have "\<not> (\<exists>body. validate_result_message (JObj [(''id'', JStr ''e''), (''data'', JObj [(''status'', JStr ''done''),
       (''appliedEntryIds'', JArr [JStr ''a'']), (''failed'', JArr []), (''files'', JArr []), (''notes'', JArr [])])])
       JUndef sample_batch = Inl body)"
    by (simp add: validate_result_message_def Let_def check_lists_def check_ids_def check_status_def bad_string_def
        sample_batch_def entries_of_def ops_of_def count_manual_apply_ops_def set_of_def)
  then obtain result where r: "validate_result_message (JObj [(''id'', JStr ''e''), (''data'', JObj [(''status'', JStr ''done''),
       (''appliedEntryIds'', JArr [JStr ''a'']), (''failed'', JArr []), (''files'', JArr []), (''notes'', JArr [])])])
       JUndef sample_batch = Inr result"
    by (metis old.sum.exhaust)
  with accepted_result_is_sound [OF r] show ?thesis by blast
qed

section \<open>Restoring source files\<close>

text \<open>
  The source tree: what each path holds, the paths the operating system lets the
  server read and write, and its message when it does not.
\<close>

record tree =
  tr_files :: "(string \<times> string) list"
  tr_readable :: "string \<Rightarrow> bool"
  tr_writable :: "string \<Rightarrow> bool"
  tr_error :: string

record saved_file =
  sv_exists :: bool
  sv_content :: string

definition file_at :: "tree \<Rightarrow> string \<Rightarrow> string option" where
  "file_at t p = map_of (tr_files t) p"

definition save_file :: "tree \<Rightarrow> string \<Rightarrow> string \<Rightarrow> saved_file" where
  "save_file t cwd rel = (case file_at t (resolve cwd rel) of
     None \<Rightarrow> \<lparr>sv_exists = False, sv_content = []\<rparr>
   | Some c \<Rightarrow> \<lparr>sv_exists = True, sv_content = c\<rparr>)"

definition unreadable :: "tree \<Rightarrow> string \<Rightarrow> string \<Rightarrow> bool" where
  "unreadable t cwd rel = (file_at t (resolve cwd rel) \<noteq> None \<and> \<not> tr_readable t (resolve cwd rel))"

definition snapshot_apply_event_files :: "tree \<Rightarrow> string \<Rightarrow> jsval \<Rightarrow> (string \<times> saved_file) list" where
  \<comment> \<open>a file that cannot be read is left out\<close>
  "snapshot_apply_event_files t cwd batch =
    fold (\<lambda>rel m. if unreadable t cwd rel then m else alset rel (save_file t cwd rel) m)
      (collect_manual_apply_files cwd batch []) []"

definition restore_failure :: "tree \<Rightarrow> string \<Rightarrow> jsval" where
  "restore_failure t rel = JObj [(''file'', JStr rel), (''reason'', JStr ''restore_failed''), (''message'', JStr (tr_error t))]"

type_synonym restoring = "tree \<times> string list \<times> jsval list"

definition restore_one :: "string \<Rightarrow> string \<Rightarrow> saved_file \<Rightarrow> restoring \<Rightarrow> restoring" where
  \<comment> \<open>write the saved text back, or remove a file that was not there\<close>
  "restore_one cwd rel before s =
    (let (t, rolledBack, failures) = s; p = resolve cwd rel in
     if sv_exists before
     then (if tr_writable t p then (t\<lparr>tr_files := alset p (sv_content before) (tr_files t)\<rparr>, rolledBack @ [rel], failures)
           else (t, rolledBack, failures @ [restore_failure t rel]))
     else if file_at t p \<noteq> None
     then (if tr_writable t p then (t\<lparr>tr_files := aldel p (tr_files t)\<rparr>, rolledBack @ [rel], failures)
           else (t, rolledBack, failures @ [restore_failure t rel]))
     else (t, rolledBack @ [rel], failures))"

definition rollback_apply_snapshot ::
  "string \<Rightarrow> jsval \<Rightarrow> (string \<times> saved_file) list \<Rightarrow> jsval list \<Rightarrow> tree \<Rightarrow> restoring" where
  "rollback_apply_snapshot cwd batch snap extraFiles t =
    fold (\<lambda>rel s. case map_of snap rel of None \<Rightarrow> s | Some before \<Rightarrow> restore_one cwd rel before s)
      (collect_manual_apply_files cwd batch extraFiles) (t, [], [])"

record apply_transaction =
  tx_id :: string
  tx_page :: jsval
  tx_entries :: "jsval list"
  tx_files :: "(string \<times> saved_file) list"

definition write_manual_apply_transaction ::
  "string \<Rightarrow> string \<Rightarrow> jsval \<Rightarrow> jsval \<Rightarrow> tree \<Rightarrow> js_error + apply_transaction" where
  "write_manual_apply_transaction i cwd page batch t =
    (let rels = collect_manual_apply_files cwd batch [] in
     if \<exists>rel \<in> set rels. unreadable t cwd rel then Inl (Thrown (tr_error t))
     else Inr \<lparr>
       tx_id = i, tx_page = page,
       tx_entries = filter truthy (map (\<lambda>e. get e ''id'') (entries_of batch)),
       tx_files = map (\<lambda>rel. (rel, save_file t cwd rel)) rels\<rparr>)"

definition clear_manual_apply_transaction :: "string option \<Rightarrow> apply_transaction option \<Rightarrow> bool \<times> apply_transaction option" where
  "clear_manual_apply_transaction i tx =
    (case tx of None \<Rightarrow> (False, None)
     | Some x \<Rightarrow> (case i of
         Some j \<Rightarrow> if j \<noteq> [] \<and> tx_id x \<noteq> [] \<and> tx_id x \<noteq> j then (False, tx) else (True, None)
       | None \<Rightarrow> (True, None)))"

definition rollback_manual_apply_transaction ::
  "string \<Rightarrow> jsval \<Rightarrow> buffer_file \<Rightarrow> apply_transaction option \<Rightarrow> tree \<Rightarrow>
   (string list \<times> jsval list \<times> bool) option \<times> apply_transaction option \<times> tree" where
  \<comment> \<open>the files restored, the failures and whether it was skipped\<close>
  "rollback_manual_apply_transaction cwd page buffer tx t =
    (case tx of None \<Rightarrow> (None, tx, t)
     | Some x \<Rightarrow>
       if truthy page \<and> truthy (tx_page x) \<and> \<not> strict_eq (tx_page x) page then (None, tx, t)
       else let pendingIds = filter truthy (map be_id (read_buffer buffer)) in
         if \<not> (\<exists>i \<in> set (tx_entries x). i \<in> set pendingIds)
         then (Some ([], [], True), snd (clear_manual_apply_transaction (Some (tx_id x)) tx), t)
         else let (t', rolledBack, failures) =
                fold (\<lambda>(file, before) s. case normalize_project_file cwd (JStr file) of
                    None \<Rightarrow> s | Some rel \<Rightarrow> restore_one cwd rel before s) (tx_files x) (t, [], [])
              in (Some (rolledBack, failures, False), snd (clear_manual_apply_transaction (Some (tx_id x)) tx), t'))"

lemma restore_one_frame:
  assumes "restore_one cwd rel before (t, rb, fl) = (t', rb', fl')"
  shows "tr_writable t' = tr_writable t" "tr_error t' = tr_error t"
    "p \<noteq> resolve cwd rel \<Longrightarrow> file_at t' p = file_at t p"
    "tr_writable t (resolve cwd rel) \<Longrightarrow>
      file_at t' (resolve cwd rel) = (if sv_exists before then Some (sv_content before) else None) \<and> fl' = fl"
  using assms by (auto simp: restore_one_def Let_def file_at_def split: if_splits)

lemma saved_content: "(if sv_exists (save_file t cwd rel) then Some (sv_content (save_file t cwd rel)) else None) =
    file_at t (resolve cwd rel)"
  by (simp add: save_file_def split: option.split)

lemma snapshot_lookup:
  "map_of (fold (\<lambda>rel m. if unreadable t cwd rel then m else alset rel (save_file t cwd rel) m) rels m) rel =
    (if rel \<in> set rels \<and> \<not> unreadable t cwd rel then Some (save_file t cwd rel) else map_of m rel)"
  by (induction rels arbitrary: m) auto

text \<open>Folding the restorations: the paths of the saved files change back, no other path changes.\<close>

lemma restore_all:
  assumes "\<And>p. tr_writable t p" "\<And>rel b. map_of snap rel = Some b \<Longrightarrow> b = save_file t0 cwd rel"
    "fold (\<lambda>rel s. case map_of snap rel of None \<Rightarrow> s | Some before \<Rightarrow> restore_one cwd rel before s) rels (t, rb, fl) = (t', rb', fl')"
  shows "fl' = fl \<and> (\<forall>p. file_at t' p =
    (if p \<in> resolve cwd ` {rel \<in> set rels. rel \<in> dom (map_of snap)} then file_at t0 p else file_at t p))"
  using assms(1,3)
proof (induction rels arbitrary: t rb fl)
  case (Cons rel rels)
  show ?case
  proof (cases "map_of snap rel")
    case None
    then have "{r \<in> set (rel # rels). r \<in> dom (map_of snap)} = {r \<in> set rels. r \<in> dom (map_of snap)}" by auto
    then show ?thesis using None Cons.IH [OF Cons.prems(1)] Cons.prems(2) by simp
  next
    case (Some b)
    obtain t1 rb1 fl1 where r: "restore_one cwd rel b (t, rb, fl) = (t1, rb1, fl1)" by (metis prod.exhaust)
    note f = restore_one_frame [OF r]
    have w: "\<And>p. tr_writable t1 p" using f(1) Cons.prems(1) by simp
    have IH: "fl' = fl1 \<and> (\<forall>p. file_at t' p =
        (if p \<in> resolve cwd ` {rel \<in> set rels. rel \<in> dom (map_of snap)} then file_at t0 p else file_at t1 p))"
      using Cons.IH [OF w] Cons.prems(2) Some r by simp
    have at: "file_at t1 (resolve cwd rel) = file_at t0 (resolve cwd rel)" "fl1 = fl"
      using f(4) [OF Cons.prems(1)] unfolding assms(2) [OF Some] saved_content by simp_all
    have "{r \<in> set (rel # rels). r \<in> dom (map_of snap)} = insert rel {r \<in> set rels. r \<in> dom (map_of snap)}"
      using Some by auto
    then show ?thesis using IH at f(3) by auto
  qed
qed simp

lemma collected_is_project_file:
  "rel \<in> set (collect_manual_apply_files cwd batch extra) \<Longrightarrow> \<exists>f. project_file cwd f = Some rel"
  by (auto simp: collect_manual_apply_files_def List.map_filter_def normalize_project_file_def split: if_splits)

lemma collect_extra: "set (collect_manual_apply_files cwd batch []) \<subseteq> set (collect_manual_apply_files cwd batch extra)"
  by (auto simp: collect_manual_apply_files_def List.map_filter_def)

lemma rollback_restores:
  assumes "\<forall>p. tr_readable t0 p \<and> tr_writable t p"
    "rollback_apply_snapshot cwd batch (snapshot_apply_event_files t0 cwd batch) extra t = (t', rolledBack, failures)"
  shows "failures = [] \<and> (\<forall>p. file_at t' p =
    (if p \<in> resolve cwd ` set (collect_manual_apply_files cwd batch []) then file_at t0 p else file_at t p))"
proof -
  let ?files = "collect_manual_apply_files cwd batch []"
  let ?snap = "snapshot_apply_event_files t0 cwd batch"
  have snap: "map_of ?snap rel = (if rel \<in> set ?files then Some (save_file t0 cwd rel) else None)" for rel
    unfolding snapshot_apply_event_files_def snapshot_lookup using assms(1) by (simp add: unreadable_def)
  have all: "{rel \<in> set (collect_manual_apply_files cwd batch extra). rel \<in> dom (map_of ?snap)} = set ?files"
    using collect_extra [of cwd batch extra] snap by (auto simp: dom_def)
  have w: "tr_writable t p" for p using assms(1) by simp
  have sv: "b = save_file t0 cwd rel" if "map_of ?snap rel = Some b" for rel b
    using that unfolding snap by (simp split: if_splits)
  show ?thesis
    using restore_all [OF w sv assms(2) [unfolded rollback_apply_snapshot_def]] unfolding all .
qed


text \<open>A batch naming one file of the project and one outside it, after an apply wrote both.\<close>

definition sample_tree :: "string \<Rightarrow> string \<Rightarrow> tree" where
  "sample_tree a b = \<lparr>tr_files = [(''/p/a'', a), (''/etc/x'', b)], tr_readable = \<lambda>_. True, tr_writable = \<lambda>_. True, tr_error = []\<rparr>"

definition sample_files_batch :: jsval where
  "sample_files_batch = JObj [(''entries'', JArr [JObj [(''id'', JStr ''e''), (''ops'', JArr
     [JObj [(''sourceHint'', JObj [(''file'', JStr ''./a'')])],
      JObj [(''sourceHint'', JObj [(''file'', JStr ''../etc/x'')])]])]])]"

lemma sample_files: "collect_manual_apply_files ''/p'' sample_files_batch [] = [''a'']"
  by code_simp


end
