(* ===== verification/Manual_Deferreds.thy ===== *)
theory Manual_Deferreds
  imports Queue_Sessions Manual_Apply
begin

text \<open>
  The Apply events of the live server that wait for an agent, from
  \<open>live/manual-apply.mjs\<close>: an event is queued with a deferred result; a reply, a
  timeout or a discard settles it, and the id of a deferred that ran out of time
  stays as a tombstone so that a late reply restores the sources. Also the
  activity record of \<open>live-server.mjs\<close> and the summaries both modules log. The
  state is the live server's, whose other operations are in \<open>Live_Server\<close>.
\<close>

section \<open>State\<close>

record apply_deferred =
  ad_event :: jsval
  ad_batch :: jsval
  ad_page :: jsval
  ad_saved :: "(string \<times> saved_file) list"

record tombstone =
  tm_batch :: jsval
  tm_saved :: "(string \<times> saved_file) list"

text \<open>
  \<open>lv_settled\<close> lists the promises that were settled, with the value or the error's
  message; \<open>lv_evidence\<close> the evidence files there are; \<open>lv_live_dir\<close> what
  \<open>getLiveDir(cwd)\<close> finds. \<open>lv_soft\<close> is the environment's soft deadline.
\<close>

record server =
  lv_bus :: bus
  lv_token :: string
  lv_port :: int
  lv_root :: string
  lv_live_dir :: string
  lv_soft :: jsval
  lv_edit_seq :: nat
  lv_activity :: jsval
  lv_deferreds :: "(string \<times> apply_deferred) list"
  lv_timed_out :: "(string \<times> tombstone) list"
  lv_settled :: "(string \<times> (string + jsval)) list"
  lv_tree :: tree
  lv_evidence :: "string list"
  lv_exit_at :: "int option"
  lv_buffer :: buffer_file
  lv_transaction :: "apply_transaction option"
  lv_session_dir :: "string option"
  lv_has_context :: bool

definition on_bus :: "(bus \<Rightarrow> bus) \<Rightarrow> server \<Rightarrow> server" where
  "on_bus f s = s\<lparr>lv_bus := f (lv_bus s)\<rparr>"

definition map_get :: "(string \<times> 'a) list \<Rightarrow> jsval \<Rightarrow> 'a option" where
  \<comment> \<open>\<open>get\<close> of a Map whose keys are strings\<close>
  "map_get m k = (if is_str k then map_of m (str_of k) else None)"

section \<open>The activity record\<close>

definition record_manual_edit_activity :: "host \<Rightarrow> string \<Rightarrow> props \<Rightarrow> server \<Rightarrow> server" where
  "record_manual_edit_activity h type details s =
    (let entry = JObj (spread [(''seq'', jint (int (lv_edit_seq s))), (''type'', JStr type),
           (''ts'', JStr (now_iso (h_clock h)))] details)
     in on_bus (broadcast entry) (s\<lparr>lv_edit_seq := Suc (lv_edit_seq s), lv_activity := entry\<rparr>))"

definition get_manual_edit_status :: "server \<Rightarrow> jsval" where
  "get_manual_edit_status s =
    (let (n, perPage) = count_by_page (lv_buffer s) in
     JObj [(''totalCount'', jint (int n)),
       (''perPage'', JObj (map (\<lambda>(p, k). (p, jint (int k))) perPage)),
       (''lastActivity'', lv_activity s)])"

section \<open>Evidence files\<close>

definition manual_apply_evidence_dir :: "server \<Rightarrow> string" where
  "manual_apply_evidence_dir s = lv_live_dir s @ ''/manual-edit-evidence''"

definition normalize_manual_apply_evidence_path :: "server \<Rightarrow> jsval \<Rightarrow> string option" where
  "normalize_manual_apply_evidence_path s evidencePath =
    (if \<not> truthy evidencePath \<or> \<not> is_str evidencePath then None
     else let p = str_of evidencePath;
              fullPath = (if is_absolute p then p else resolve (lv_root s) p);
              rel = relative (manual_apply_evidence_dir s) fullPath
       in if rel = [] \<or> starts_with rel ''..'' \<or> is_absolute rel then None
          else if \<not> extname_is rel ''.json'' then None else Some fullPath)"

definition write_manual_apply_evidence :: "string \<Rightarrow> server \<Rightarrow> string \<times> server" where
  "write_manual_apply_evidence eventId s =
    (let p = manual_apply_evidence_dir s @ ''/'' @ eventId @ ''.json''
     in (p, s\<lparr>lv_evidence := set_of (lv_evidence s @ [p])\<rparr>))"

definition remove_manual_apply_evidence :: "jsval \<Rightarrow> server \<Rightarrow> server" where
  "remove_manual_apply_evidence evidencePath s =
    (case normalize_manual_apply_evidence_path s evidencePath of
       None \<Rightarrow> s
     | Some p \<Rightarrow> s\<lparr>lv_evidence := filter (\<lambda>q. q \<noteq> p) (lv_evidence s)\<rparr>)"

definition referenced_manual_apply_evidence_paths :: "server \<Rightarrow> string list" where
  "referenced_manual_apply_evidence_paths s =
    List.map_filter (\<lambda>event. normalize_manual_apply_evidence_path s (get event ''evidencePath''))
      (map pe_event (bs_events (lv_bus s)) @ map (ad_event \<circ> snd) (lv_deferreds s))"

definition prune_stale_evidence :: "server \<Rightarrow> string list \<times> server" where
  "prune_stale_evidence s =
    (let stale = (\<lambda>p. ends_with p ''.json'' \<and> p \<notin> set (referenced_manual_apply_evidence_paths s))
     in (filter stale (lv_evidence s),
         s\<lparr>lv_evidence := filter (\<lambda>p. \<not> stale p) (lv_evidence s)\<rparr>))"

section \<open>Dispatching an Apply event\<close>

definition apply_event_soft_deadline_ms :: "server \<Rightarrow> jsval" where
  "apply_event_soft_deadline_ms s = to_number (js_or (lv_soft s) (jint 120000))"

definition manual_apply_reply_command :: "jsval \<Rightarrow> string" where
  "manual_apply_reply_command eventOrId =
    (let i = (if is_str eventOrId then eventOrId else js_or (get eventOrId ''id'') (JStr ''EVENT_ID''))
     in ''live-poll.mjs --reply '' @ js_string i @ '' done --data '' @ [CHR 0x27] @ ''<json>'' @ [CHR 0x27])"

definition build_manual_apply_agent_action :: "jsval \<Rightarrow> jsval" where
  "build_manual_apply_agent_action eventOrId = JObj [
     (''kind'', JStr ''manual_edit_apply''),
     (''required'', JStr ''apply_source_edits_then_reply''),
     (''replyCommand'', JStr (manual_apply_reply_command eventOrId)),
     (''warning'', JStr ''Polling only leases this work item; it does not commit source edits.'')]"

definition tombstone_timed_out_apply_id :: "string \<Rightarrow> tombstone \<Rightarrow> server \<Rightarrow> server" where
  "tombstone_timed_out_apply_id eventId details s =
    (if eventId = [] then s
     else let m = alset eventId details (lv_timed_out s)
       in s\<lparr>lv_timed_out := (if length m \<le> 200 then m else tl m)\<rparr>)"

definition manual_apply_event :: "server \<Rightarrow> string \<Rightarrow> string \<Rightarrow> jsval \<Rightarrow> jsval \<Rightarrow> jsval \<Rightarrow> jsval \<Rightarrow> jsval" where
  "manual_apply_event s eventId evidencePath batch page ch repair = JObj (
     [(''type'', JStr ''manual_edit_apply''), (''id'', JStr eventId), (''pageUrl'', page),
      (''batch'', compact_batch (lv_root s) batch), (''evidencePath'', JStr evidencePath),
      (''agentAction'', build_manual_apply_agent_action (JStr eventId)),
      (''schemaVersion'', JNum 1), (''deadlineMs'', apply_event_soft_deadline_ms s)] @
     (if truthy ch then [(''chunk'', ch)] else []) @
     (if truthy repair then [(''repair'', repair)] else []))"

definition batch_counts :: "jsval \<Rightarrow> props" where
  "batch_counts batch =
    [(''entryCount'', jint (int (length (elems (get batch ''entries''))))),
     (''opCount'', jint (int (count_manual_apply_ops batch)))]"

definition push_apply_event :: "host \<Rightarrow> string \<Rightarrow> jsval \<Rightarrow> jsval \<Rightarrow> jsval \<Rightarrow> jsval \<Rightarrow> server \<Rightarrow> server" where
  \<comment> \<open>\<open>pushApplyEventAndWait\<close> up to the promise; \<open>eventId\<close> is the random id it draws\<close>
  "push_apply_event h eventId batch page ch repair s =
    (let (evidencePath, s) = write_manual_apply_evidence eventId s;
         event = manual_apply_event s eventId evidencePath batch page ch repair;
         saved = snapshot_apply_event_files (lv_tree s) (lv_root s) batch;
         s = record_manual_edit_activity h ''manual_edit_apply_dispatched''
           ([(''id'', JStr eventId), (''pageUrl'', page), (''chunk'', ch), (''repair'', repair)] @
            batch_counts batch @
            [(''fileCount'', jint (int (length (collect_manual_apply_files (lv_root s) batch []))))]) s;
         s = s\<lparr>lv_deferreds := alset eventId
           \<lparr>ad_event = event, ad_batch = batch, ad_page = page, ad_saved = saved\<rparr> (lv_deferreds s)\<rparr>
     in on_bus (enqueue_event h event) s)"

section \<open>Settling a deferred\<close>

definition get_deferred :: "jsval \<Rightarrow> server \<Rightarrow> apply_deferred option" where
  "get_deferred eventId s = map_get (lv_deferreds s) eventId"

definition has_timed_out_id :: "jsval \<Rightarrow> server \<Rightarrow> bool" where
  "has_timed_out_id eventId s = (map_get (lv_timed_out s) eventId \<noteq> None)"

definition settle :: "jsval \<Rightarrow> string + jsval \<Rightarrow> server \<Rightarrow> server" where
  \<comment> \<open>the promise's own \<open>resolve\<close> and \<open>reject\<close>\<close>
  "settle eventId outcome s = s\<lparr>lv_settled := lv_settled s @ [(str_of eventId, outcome)]\<rparr>"

definition forget_deferred :: "jsval \<Rightarrow> server \<Rightarrow> server" where
  "forget_deferred eventId s = s\<lparr>lv_deferreds := aldel (str_of eventId) (lv_deferreds s)\<rparr>"

definition resolve_deferred :: "jsval \<Rightarrow> jsval \<Rightarrow> server \<Rightarrow> bool \<times> server" where
  "resolve_deferred eventId body s =
    (case get_deferred eventId s of
       None \<Rightarrow> (False, s)
     | Some d \<Rightarrow> (True, settle eventId (Inr body)
         (remove_manual_apply_evidence (get (ad_event d) ''evidencePath'') (forget_deferred eventId s))))"

definition reject_deferred :: "jsval \<Rightarrow> string \<Rightarrow> server \<Rightarrow> bool \<times> server" where
  "reject_deferred eventId reason s =
    (case get_deferred eventId s of
       None \<Rightarrow> (False, s)
     | Some d \<Rightarrow> (True, settle eventId (Inl (if reason = [] then ''chat_agent_error'' else reason))
         (remove_manual_apply_evidence (get (ad_event d) ''evidencePath'') (forget_deferred eventId s))))"

definition apply_timeout :: "host \<Rightarrow> jsval \<Rightarrow> server \<Rightarrow> server" where
  \<comment> \<open>the hard timeout of a deferred; the timer of a settled one was cleared\<close>
  "apply_timeout h eventId s =
    (case get_deferred eventId s of
       None \<Rightarrow> s
     | Some d \<Rightarrow>
       let s = forget_deferred eventId s;
           s = tombstone_timed_out_apply_id (str_of eventId) \<lparr>tm_batch = ad_batch d, tm_saved = ad_saved d\<rparr> s;
           s = on_bus (\<lambda>b. snd (acknowledge_pending_event h eventId JUndef b)) s;
           s = remove_manual_apply_evidence (get (ad_event d) ''evidencePath'') s;
           s = record_manual_edit_activity h ''manual_edit_apply_timeout''
             ([(''id'', eventId), (''pageUrl'', ad_page d), (''chunk'', js_or (get (ad_event d) ''chunk'') JNull)] @
              batch_counts (ad_batch d)) s
       in settle eventId (Inl ''chat_agent_timeout'') s)"

definition rollback_saved :: "jsval \<Rightarrow> (string \<times> saved_file) list \<Rightarrow> jsval list \<Rightarrow> server \<Rightarrow>
    string list \<times> jsval list \<times> server" where
  "rollback_saved batch saved extraFiles s =
    (let (t, rolledBack, failures) = rollback_apply_snapshot (lv_root s) batch saved extraFiles (lv_tree s)
     in (rolledBack, failures, s\<lparr>lv_tree := t\<rparr>))"

definition spread_elems :: "jsval \<Rightarrow> js_error + jsval list" where
  \<comment> \<open>\<open>...v\<close> in a call\<close>
  "spread_elems v = (case v of
     JArr xs \<Rightarrow> Inr xs | JStr t \<Rightarrow> Inr (map (\<lambda>c. JStr [c]) t)
   | _ \<Rightarrow> Inl (TypeError ''Spread syntax requires an iterable''))"

definition rollback_timed_out_reply :: "jsval \<Rightarrow> server \<Rightarrow> js_error + (string list \<times> jsval list \<times> server)" where
  "rollback_timed_out_reply msg s =
    (case map_get (lv_timed_out s) (get msg ''id'') of
       None \<Rightarrow> Inr ([], [], s)
     | Some d \<Rightarrow> bindE (spread_elems (js_or (get (get msg ''data'') ''files'') (JArr []))) (\<lambda>extraFiles.
         Inr (rollback_saved (tm_batch d) (tm_saved d) extraFiles
           (s\<lparr>lv_timed_out := aldel (str_of (get msg ''id'')) (lv_timed_out s)\<rparr>))))"

section \<open>Discarding\<close>

definition should_cancel :: "jsval \<Rightarrow> jsval \<Rightarrow> bool" where
  "should_cancel page event =
    (ty_is event ''manual_edit_apply'' \<and> (\<not> truthy page \<or> strict_eq (get event ''pageUrl'') page))"

definition entry_count :: "jsval \<Rightarrow> jsval" where
  \<comment> \<open>\<open>batch?.entries?.length || 0\<close>\<close>
  "entry_count batch = (case get batch ''entries'' of
     JArr xs \<Rightarrow> jint (int (length xs)) | JStr t \<Rightarrow> jint (int (length t))
   | v \<Rightarrow> js_or (get v ''length'') (JNum 0))"

definition cancel_queued :: "jsval \<Rightarrow> server \<Rightarrow> (jsval \<times> jsval) list \<times> server" where
  "cancel_queued page s =
    (let gone = rev (filter (\<lambda>e. should_cancel page (pe_event e)) (bs_events (lv_bus s)));
         s = on_bus (\<lambda>b. b\<lparr>bs_events := filter (\<lambda>e. \<not> should_cancel page (pe_event e)) (bs_events b)\<rparr>) s
     in fold (\<lambda>e (canceled, s). let event = pe_event e in
          (alset (get event ''id'') (JObj [(''id'', get event ''id''), (''pageUrl'', get event ''pageUrl''),
             (''entryCount'', entry_count (get event ''batch''))]) canceled,
           remove_manual_apply_evidence (get event ''evidencePath'') s)) gone ([], s))"

definition cancel_deferred :: "string \<Rightarrow> string \<times> apply_deferred \<Rightarrow> (jsval \<times> jsval) list \<times> server \<Rightarrow>
    (jsval \<times> jsval) list \<times> server" where
  "cancel_deferred reason item st =
    (let (eventId, d) = item; (canceled, s) = st;
         s = forget_deferred (JStr eventId) s;
         (rolledBack, failures, s) = rollback_saved (ad_batch d) (ad_saved d) [] s;
         s = tombstone_timed_out_apply_id eventId \<lparr>tm_batch = ad_batch d, tm_saved = ad_saved d\<rparr> s;
         s = remove_manual_apply_evidence (get (ad_event d) ''evidencePath'') s
     in (alset (JStr eventId) (JObj [(''id'', JStr eventId), (''pageUrl'', ad_page d),
           (''entryCount'', entry_count (ad_batch d)), (''rolledBackFiles'', JArr (map JStr rolledBack)),
           (''rollbackFailures'', JArr failures)]) canceled,
         settle (JStr eventId) (Inl reason) s))"

definition cancel_pending_events :: "host \<Rightarrow> jsval \<Rightarrow> string \<Rightarrow> server \<Rightarrow> jsval list \<times> server" where
  "cancel_pending_events h page reason s =
    (let (canceled, s) = cancel_queued page s;
         (canceled, s) = fold (cancel_deferred reason)
           (filter (\<lambda>item. should_cancel page (ad_event (snd item))) (lv_deferreds s)) (canceled, s)
     in (map snd canceled, if canceled \<noteq> [] then on_bus (flush_pending_polls h) s else s))"

section \<open>Summaries\<close>

definition summarize_manual_apply_event :: "string \<Rightarrow> jsval \<Rightarrow> jsval \<Rightarrow> jsval" where
  "summarize_manual_apply_event cwd event batch = JObj ([
     (''pageUrl'', js_or (get event ''pageUrl'') JNull), (''chunk'', js_or (get event ''chunk'') JNull)] @
     batch_counts batch @
     [(''files'', JArr (map JStr (collect_manual_apply_files cwd batch [])))])"

fun squeeze_ws :: "string \<Rightarrow> string" where
  \<comment> \<open>\<open>replace(/\s+/g, ' ')\<close>\<close>
  "squeeze_ws [] = []"
| "squeeze_ws (c # cs) =
    (if is_ws c then (case cs of c' # _ \<Rightarrow> if is_ws c' then squeeze_ws cs else CHR '' '' # squeeze_ws cs
       | [] \<Rightarrow> '' '')
     else c # squeeze_ws cs)"

definition compact_manual_log_text :: "jsval \<Rightarrow> nat \<Rightarrow> jsval" where
  "compact_manual_log_text v n =
    (if \<not> is_str v then JUndef
     else let t = js_trim (squeeze_ws (str_of v)) in
       if length t \<le> n then JStr t
       else JStr (take n t @ ''... [truncated '' @ nat_str (length t - n) @ '' chars]''))"

definition log_files :: "string \<Rightarrow> nat \<Rightarrow> jsval \<Rightarrow> jsval" where
  "log_files cwd n v = (if is_arr v
     then JArr (filter truthy (map (summarize_log_file cwd) (take n (elems v)))) else JUndef)"

fun mapE :: "('a \<Rightarrow> 'e + 'b) \<Rightarrow> 'a list \<Rightarrow> 'e + 'b list" where
  \<comment> \<open>\<open>map\<close> with a callback that may throw\<close>
  "mapE f [] = Inr []"
| "mapE f (x # xs) = bindE (f x) (\<lambda>y. bindE (mapE f xs) (\<lambda>ys. Inr (y # ys)))"

definition summarize_manual_diagnostic :: "string \<Rightarrow> jsval \<Rightarrow> js_error + jsval" where
  "summarize_manual_diagnostic cwd item =
    bindE (getE item ''reason'') (\<lambda>reason. Inr (JObj [
      (''reason'', js_or reason (or_undef (get item ''kind''))),
      (''detail'', compact_manual_log_text (get item ''detail'') 220),
      (''message'', compact_manual_log_text (get item ''message'') 300),
      (''file'', summarize_log_file cwd (js_or (get item ''file'') (get item ''relativeFile''))),
      (''line'', or_undef (get item ''line'')),
      (''ref'', compact_manual_log_text (get item ''ref'') 180),
      (''marker'', compact_manual_log_text (get item ''marker'') 120),
      (''files'', log_files cwd 8 (get item ''files''))]))"

definition summarize_manual_diagnostics :: "string \<Rightarrow> jsval \<Rightarrow> js_error + jsval" where
  "summarize_manual_diagnostics cwd items =
    (if \<not> is_arr items \<or> elems items = [] then Inr JUndef
     else bindE (mapE (summarize_manual_diagnostic cwd) (take 12 (elems items))) (\<lambda>ys. Inr (JArr ys)))"

definition summarize_manual_apply_failure :: "string \<Rightarrow> jsval \<Rightarrow> js_error + jsval" where
  "summarize_manual_apply_failure cwd item =
    bindE (getE item ''id'') (\<lambda>i.
    bindE (summarize_manual_diagnostics cwd (get item ''checks'')) (\<lambda>checks.
    bindE (summarize_manual_diagnostics cwd (get item ''failures'')) (\<lambda>failures.
    bindE (summarize_manual_diagnostics cwd (get item ''candidates'')) (\<lambda>candidates. Inr (JObj [
      (''id'', js_or i (js_or (get item ''entryId'') JNull)),
      (''reason'', js_or (get item ''reason'') (js_or (get item ''message'') (JStr ''failed''))),
      (''message'', compact_manual_log_text (get item ''message'') 300),
      (''files'', log_files cwd 12 (get item ''files'')),
      (''checks'', checks), (''failures'', failures), (''candidates'', candidates)])))))"

definition summarize_manual_apply_failures :: "string \<Rightarrow> jsval \<Rightarrow> js_error + jsval" where
  "summarize_manual_apply_failures cwd failed =
    (if \<not> is_arr failed then Inr (JArr [])
     else bindE (mapE (summarize_manual_apply_failure cwd) (take 20 (elems failed))) (\<lambda>ys. Inr (JArr ys)))"

end
