(* ===== verification/Live_Server.thy ===== *)
theory Live_Server
  imports Manual_Deferreds Event_Validation
begin

text \<open>
  The HTTP endpoints of \<open>live-server.mjs\<close>: what each route answers and what it
  does to the server's state, the browser's event stream and the agent's polls.
  A request arrives with its whole body; an answer that comes later is \<open>Parked\<close>.
  An exception no handler catches ends the process and is \<open>Inl\<close>.
\<close>

section \<open>Requests and replies\<close>

text \<open>
  \<open>rq_json\<close> is what \<open>JSON.parse\<close> makes of the body, \<open>None\<close> when it throws.
\<close>

record request =
  rq_id :: nat
  rq_query :: "(string \<times> string) list"
  rq_content_type :: string
  rq_chunks :: "string list"
  rq_json :: "jsval option"

datatype reply =
    Json nat jsval
  | Plain nat string
  | Script string int
  | Stream
  | Parked
  | Stopping

definition param :: "request \<Rightarrow> string \<Rightarrow> jsval" where
  \<comment> \<open>\<open>url.searchParams.get(name)\<close>\<close>
  "param r name = (case map_of (rq_query r) name of None \<Rightarrow> JNull | Some v \<Rightarrow> JStr v)"

definition token_ok :: "server \<Rightarrow> jsval \<Rightarrow> bool" where
  "token_ok s t = strict_eq t (JStr (lv_token s))"

definition error_body :: "string \<Rightarrow> props \<Rightarrow> jsval" where
  "error_body e extra = JObj ((''error'', JStr e) # extra)"

definition unauthorized :: reply where "unauthorized = Json 401 (error_body ''Unauthorized'' [])"
definition unauthorized_text :: reply where "unauthorized_text = Plain 401 ''Unauthorized''"
definition ok_reply :: reply where "ok_reply = Json 200 (JObj [(''ok'', JBool True)])"

section \<open>Sessions as the server reads them\<close>

definition read_session :: "host \<Rightarrow> jsval \<Rightarrow> bool \<Rightarrow> server \<Rightarrow> snapshot option \<times> server" where
  \<comment> \<open>\<open>getSnapshot\<close> where an exception is caught\<close>
  "read_session h i includeCompleted s =
    (case get_snapshot h JUndef i includeCompleted (bs_store (lv_bus s)) of
       Inl err \<Rightarrow> (None, s)
     | Inr (snap, st) \<Rightarrow> (snap, on_bus (\<lambda>b. b\<lparr>bs_store := st\<rparr>) s))"

definition append_session :: "host \<Rightarrow> jsval \<Rightarrow> server \<Rightarrow> js_error + server" where
  "append_session h event s = bindE (append_to_store h event (lv_bus s)) (\<lambda>b. Inr (s\<lparr>lv_bus := b\<rparr>))"

definition try_append :: "host \<Rightarrow> jsval \<Rightarrow> server \<Rightarrow> server" where
  "try_append h event s = (case append_session h event s of Inl err \<Rightarrow> s | Inr s' \<Rightarrow> s')"

definition phase_step :: "host \<Rightarrow> jsval \<Rightarrow> string \<Rightarrow> props \<Rightarrow> server \<Rightarrow> js_error + server" where
  "phase_step h i ph details s =
    bindE (record_agent_phase h i (JStr ph) details (lv_bus s)) (\<lambda>b. Inr (s\<lparr>lv_bus := b\<rparr>))"

definition variant_count_looks_behind :: "jsval \<Rightarrow> jsval \<Rightarrow> bool" where
  "variant_count_looks_behind arrivedValue expectedValue =
    (let arrived = js_or (to_number arrivedValue) (JNum 0);
         expected = js_or (to_number expectedValue) (JNum 0)
     in js_ge (JNum 0) arrived \<or> js_gt expected (JNum 0) \<and> js_gt expected arrived)"

definition missed_completion_from_snapshot :: "snapshot option \<Rightarrow> jsval option" where
  "missed_completion_from_snapshot snap =
    (case snap of None \<Rightarrow> None
     | Some sn \<Rightarrow>
       if sn_id sn = [] \<or> \<not> truthy (generationCompletedAt sn) then None
       else if generationCanceled sn then None
       else if generation_fenced_phase (phase sn) then None
       else let file = js_or (sourceFile sn) (previewFile sn) in
         if \<not> truthy file then None
         else Some (JObj [(''type'', JStr ''done''), (''id'', JStr (sn_id sn)), (''file'', file),
           (''sourceFile'', or_undef (sourceFile sn)), (''previewFile'', or_undef (previewFile sn)),
           (''previewMode'', or_undef (previewMode sn)), (''redelivered'', JBool True)]))"

definition detect_missed_generation_completion :: "host \<Rightarrow> jsval \<Rightarrow> server \<Rightarrow> jsval option \<times> server" where
  "detect_missed_generation_completion h event s =
    (if \<not> truthy (get event ''id'') \<or> \<not> ty_is event ''checkpoint'' then (None, s)
     else if get event ''phase'' \<noteq> JStr ''generating'' then (None, s)
     else if \<not> variant_count_looks_behind (get event ''arrivedVariants'') (get event ''expectedVariants'')
       then (None, s)
     else let (snap, s) = read_session h (get event ''id'') False s
       in (missed_completion_from_snapshot snap, s))"

definition generation_is_fenced :: "host \<Rightarrow> jsval \<Rightarrow> server \<Rightarrow> bool \<times> server" where
  "generation_is_fenced h i s =
    (if \<not> truthy i then (False, s)
     else let (snap, s) = read_session h i True s
       in ((case snap of None \<Rightarrow> False | Some sn \<Rightarrow> generationCanceled sn), s))"

definition generation_phase_already_recorded :: "host \<Rightarrow> jsval \<Rightarrow> string \<Rightarrow> server \<Rightarrow> bool \<times> server" where
  "generation_phase_already_recorded h i ph s =
    (let (snap, s) = read_session h i True s
     in ((case snap of None \<Rightarrow> False | Some sn \<Rightarrow> truthy (field (generationTimings sn) ph)), s))"

definition phase_once :: "host \<Rightarrow> jsval \<Rightarrow> props \<Rightarrow> bool \<Rightarrow> string \<Rightarrow> server \<Rightarrow> js_error + server" where
  \<comment> \<open>record a phase of a generation the first time its condition holds\<close>
  "phase_once h i details reached ph s =
    (if \<not> reached then Inr s
     else let (seen, s) = generation_phase_already_recorded h i ph s
       in if seen then Inr s else phase_step h i ph details s)"

definition variant_progress :: "jsval \<Rightarrow> jsval \<Rightarrow> jsval \<Rightarrow> jsval \<Rightarrow> jsval \<Rightarrow> jsval" where
  "variant_progress event arrived expected previewMode' previewFile' = JObj [
     (''type'', JStr ''variant_progress''), (''id'', get event ''id''), (''file'', previewFile'),
     (''sourceFile'', js_or (get event ''sourceFile'')
        (if previewMode' = JStr ''source'' then previewFile' else JUndef)),
     (''previewFile'', previewFile'), (''previewMode'', previewMode'),
     (''arrivedVariants'', arrived), (''expectedVariants'', expected),
     (''publicationKind'', js_or (get event ''publicationKind'') (JStr ''variants''))]"

definition record_generation_checkpoint :: "host \<Rightarrow> jsval \<Rightarrow> server \<Rightarrow> js_error + server" where
  "record_generation_checkpoint h event s =
    (let i = get event ''id'' in
     if \<not> truthy i \<or> \<not> ty_is event ''checkpoint'' then Inr s
     else let (stopped, s) = generation_is_fenced h i s in
     if stopped then Inr s
     else if \<not> in_vocab (get event ''reason'') variant_progress_checkpoint_reasons then Inr s
     else let arrived = js_or (to_number (get event ''arrivedVariants'')) (JNum 0);
              expected = js_or (to_number (get event ''expectedVariants'')) (JNum 0) in
     if js_ge (JNum 0) arrived \<or> js_ge (JNum 0) expected then Inr s
     else let mode = js_or (get event ''previewMode'') (JStr ''source'');
              file = js_or (get event ''previewFile'') (get event ''file'');
              s = (if truthy file
                   then on_bus (broadcast (variant_progress event arrived expected mode file)) s else s);
              details = [(''arrivedVariants'', arrived), (''expectedVariants'', expected),
                (''checkpointReason'', js_or (get event ''reason'') JNull), (''at'', jint (now_of h))]
       in bindE (phase_once h i details True ''first_reviewable'' s) (\<lambda>s.
          bindE (phase_once h i details (js_ge arrived (JNum 2) \<and> js_ge expected (JNum 3)) ''second_reviewable'' s) (\<lambda>s.
          phase_once h i details (js_ge arrived expected) ''all_variants_ready'' s)))"

section \<open>Browser events\<close>

definition session_creating_event_types :: "string list" where
  "session_creating_event_types = [''generate'', ''steer'']"

definition unknown_session :: "jsval \<Rightarrow> server \<Rightarrow> js_error + bool" where
  \<comment> \<open>an event that needs a session this store does not have\<close>
  "unknown_session msg s =
    (if \<not> truthy (get msg ''id'') \<or> in_vocab (get msg ''type'') session_creating_event_types then Inr False
     else bindE (has_session (get msg ''id'') (bs_store (lv_bus s))) (\<lambda>b. Inr (\<not> b)))"

definition agent_phase_event :: "host \<Rightarrow> jsval \<Rightarrow> server \<Rightarrow> js_error + server" where
  "agent_phase_event h msg s =
    bindE (record_agent_phase h (get msg ''id'') (get msg ''phase'')
      ((if is_finite (get msg ''durationMs'') then [(''durationMs'', get msg ''durationMs'')] else []) @
       [(''owner'', if is_str (get msg ''owner'') then get msg ''owner'' else JUndef)]) (lv_bus s))
    (\<lambda>b. Inr (s\<lparr>lv_bus := b\<rparr>))"

definition after_append :: "host \<Rightarrow> jsval \<Rightarrow> jsval option \<Rightarrow> server \<Rightarrow> js_error + server" where
  \<comment> \<open>the effects of a browser event once it is in the journal\<close>
  "after_append h msg missed s =
    (let s = (if ty_is msg ''accept'' \<or> ty_is msg ''discard''
              then on_bus (\<lambda>b. snd (retire_pending_generation h (get msg ''id'') b)) s else s)
     in bindE (record_generation_checkpoint h msg s) (\<lambda>s.
       let s = (case missed of None \<Rightarrow> s | Some m \<Rightarrow> on_bus (broadcast m) s);
           orphaned = (ty_is msg ''discard'' \<and> is_true (get msg ''orphaned''));
           s = (if orphaned \<and> truthy (get msg ''id'')
                then try_append h (JObj [(''type'', JStr ''discarded''), (''id'', get msg ''id''),
                  (''orphaned'', JBool True)]) s else s)
       in Inr (if \<not> ty_is msg ''checkpoint'' \<and> \<not> ty_is msg ''variant_mounted'' \<and> \<not> orphaned
               then on_bus (enqueue_event h msg) s else s)))"

definition journal_event :: "host \<Rightarrow> jsval \<Rightarrow> server \<Rightarrow> js_error + (reply \<times> server)" where
  \<comment> \<open>append, then the effects; an append that throws is answered\<close>
  "journal_event h msg s =
    (let (missed, s) = detect_missed_generation_completion h msg s in
     case (if truthy (get msg ''id'') then append_session h msg s else Inr s) of
       Inl err \<Rightarrow> Inr (Json 500 (error_body ''session_store_append_failed''
         [(''message'', JStr (case err of TypeError m \<Rightarrow> m | Thrown m \<Rightarrow> m))]), s)
     | Inr s \<Rightarrow> bindE (after_append h msg missed s) (\<lambda>s. Inr (ok_reply, s)))"

definition post_events :: "host \<Rightarrow> request \<Rightarrow> server \<Rightarrow> js_error + (reply \<times> server)" where
  "post_events h r s =
    (case rq_json r of
       None \<Rightarrow> Inr (Json 400 (error_body ''Invalid JSON'' []), s)
     | Some msg \<Rightarrow> bindE (getE msg ''token'') (\<lambda>t.
       if \<not> token_ok s t then Inr (unauthorized, s)
       else if ty_is msg ''manual_edits'' then Inr (Json 400
         (error_body ''manual_edits must POST to /manual-edit-stash, not /events'' []), s)
       else if ty_is msg ''manual_edit_apply'' then Inr (Json 400
         (error_body ''manual_edit_apply is disabled; use /manual-edit-stash then /manual-edit-commit'' []), s)
       else bindE (validate_event msg) (\<lambda>verdict. case verdict of
         Some e \<Rightarrow> Inr (Json 400 (error_body e []), s)
       | None \<Rightarrow>
         if ty_is msg ''agent_phase'' then bindE (agent_phase_event h msg s) (\<lambda>s. Inr (ok_reply, s))
         else bindE (unknown_session msg s) (\<lambda>unknown.
           if unknown then Inr (Json 404 (error_body ''unknown_session'' [(''id'', get msg ''id'')]), s)
           else journal_event h msg s))))"

section \<open>The event stream\<close>

definition mount_failure_obj :: "mount_failure \<Rightarrow> jsval" where
  "mount_failure_obj f = (let text = (\<lambda>x. case x of None \<Rightarrow> JNull | Some t \<Rightarrow> JStr t) in
     JObj [(''variant'', jint (mf_variant f)), (''url'', text (mf_url f)), (''error'', text (mf_error f))])"

definition summarize_active_session_for_client :: "snapshot \<Rightarrow> jsval" where
  "summarize_active_session_for_client sn = JObj [
     (''id'', JStr (sn_id sn)), (''phase'', phase sn),
     (''pageUrl'', js_coalesce (pageUrl sn) JNull), (''sourceFile'', js_coalesce (sourceFile sn) JNull),
     (''previewFile'', js_coalesce (previewFile sn) JNull), (''previewMode'', js_coalesce (previewMode sn) JNull),
     (''expectedVariants'', js_coalesce (expectedVariants sn) (JNum 0)),
     (''arrivedVariants'', js_coalesce (arrivedVariants sn) (JNum 0)),
     (''visibleVariant'', js_coalesce (visibleVariant sn) JNull),
     (''checkpointRevision'', js_coalesce (checkpointRevision sn) (JNum 0)),
     (''browserCheckpointRevision'',
       js_coalesce (browserCheckpointRevision sn) (js_coalesce (checkpointRevision sn) (JNum 0))),
     (''publicationCheckpointRevision'', js_coalesce (publicationCheckpointRevision sn) (JNum 0)),
     (''paramValues'', JObj (paramValues sn)),
     (''generationPhase'', js_coalesce (generationPhase sn) JNull),
     (''generationCompletedAt'', js_coalesce (generationCompletedAt sn) JNull),
     (''generationCanceled'', JBool (generationCanceled sn)),
     (''cancelReason'', js_coalesce (cancelReason sn) JNull),
     (''mountedVariants'', JArr (map jint (mountedVariants sn))),
     (''mountFailures'', JArr (map mount_failure_obj (mountFailures sn))),
     (''renderState'', case renderState sn of None \<Rightarrow> JNull | Some t \<Rightarrow> JStr t)]"

definition active_session_summaries :: "host \<Rightarrow> server \<Rightarrow> js_error + (jsval \<times> server)" where
  "active_session_summaries h s =
    bindE (list_active_sessions h JUndef (bs_store (lv_bus s))) (\<lambda>(snaps, st).
      Inr (JArr (map summarize_active_session_for_client snaps), on_bus (\<lambda>b. b\<lparr>bs_store := st\<rparr>) s))"

definition connected_message :: "server \<Rightarrow> jsval \<Rightarrow> jsval" where
  "connected_message s sessions = JObj [(''type'', JStr ''connected''),
     (''hasProjectContext'', JBool (lv_has_context s)),
     (''agentPolling'', JBool (agent_polling_connected (lv_bus s))), (''activeSessions'', sessions)]"

definition get_events :: "host \<Rightarrow> request \<Rightarrow> server \<Rightarrow> js_error + (reply \<times> server)" where
  "get_events h r s =
    (if \<not> token_ok s (param r ''token'') then Inr (unauthorized_text, s)
     else let s = on_bus (\<lambda>b. snd (cancel_queued_anonymous_exit_events h b)) (s\<lparr>lv_exit_at := None\<rparr>)
       in bindE (active_session_summaries h s) (\<lambda>(sessions, s).
         Inr (Stream, on_bus (\<lambda>b. b\<lparr>bs_clients := bs_clients b @
           [(rq_id r, [json_norm (connected_message s sessions)])]\<rparr>) s)))"

definition client_closes :: "host \<Rightarrow> nat \<Rightarrow> server \<Rightarrow> server" where
  \<comment> \<open>a stream closed; the last one starts the exit timer\<close>
  "client_closes h n s =
    (let s = on_bus (\<lambda>b. b\<lparr>bs_clients := filter (\<lambda>c. fst c \<noteq> n) (bs_clients b)\<rparr>) s
     in if bs_clients (lv_bus s) = [] then s\<lparr>lv_exit_at := Some (now_of h + 8000)\<rparr> else s)"

definition exit_timer_fires :: "host \<Rightarrow> server \<Rightarrow> server" where
  "exit_timer_fires h s =
    (if lv_exit_at s = None then s
     else let s = s\<lparr>lv_exit_at := None\<rparr>
       in if bs_clients (lv_bus s) = []
          then on_bus (enqueue_event h (JObj [(''type'', JStr ''exit'')])) s else s)"

section \<open>Polls\<close>

definition parse_poll_types :: "jsval \<Rightarrow> string list option" where
  "parse_poll_types v =
    (if \<not> truthy v then None
     else let types = filter (\<lambda>t. t \<noteq> []) (map js_trim (split_on CHR '','' (js_string v)))
       in if types = [] then None else Some types)"

definition parse_int :: "string \<Rightarrow> int option" where
  \<comment> \<open>\<open>parseInt(s, 10)\<close>, \<open>None\<close> for NaN\<close>
  "parse_int t =
    (let t = js_trim t;
         negative = starts_with t ''-'';
         digits = takeWhile is_digit (if negative \<or> starts_with t ''+'' then tl t else t)
     in if digits = [] then None
        else Some (if negative then - int (digits_val digits) else int (digits_val digits)))"

definition lease_ms :: "host \<Rightarrow> request \<Rightarrow> int" where
  \<comment> \<open>a lease that is not a number never holds: it ends in the past\<close>
  "lease_ms h r = (case parse_int (str_of (js_or (param r ''leaseMs'') (JStr ''30000''))) of
     None \<Rightarrow> - now_of h | Some n \<Rightarrow> n)"

definition poll_of :: "host \<Rightarrow> request \<Rightarrow> poll" where
  "poll_of h r = \<lparr>pl_id = rq_id r, pl_lease_ms = lease_ms h r, pl_types = parse_poll_types (param r ''types'')\<rparr>"

definition handle_poll_get :: "host \<Rightarrow> request \<Rightarrow> server \<Rightarrow> reply \<times> server" where
  "handle_poll_get h r s =
    (if \<not> token_ok s (param r ''token'') then (unauthorized, s)
     else (Parked, on_bus (\<lambda>b. park_poll h (poll_of h r) (b\<lparr>bs_last_poll := now_of h\<rparr>)) s))"

definition preview_dirs :: "string list" where
  "preview_dirs = [''.impeccable/live/previews/'', ''node_modules/.impeccable-live/'',
     ''src/lib/impeccable/'', ''/.impeccable-live/'']"

text \<open>
  \<open>manifests\<close> is what reading and parsing the file at a path gives, \<open>compiled\<close>
  the failures \<open>compileCheckVariants\<close> finds (the check runs the app's own
  compiler).
\<close>

record publishing =
  manifests :: "string \<Rightarrow> jsval option"
  compiled :: "jsval \<Rightarrow> jsval list"

definition session_file_metadata :: "publishing \<Rightarrow> string \<Rightarrow> jsval \<Rightarrow> jsval" where
  "session_file_metadata pub cwd file =
    (if \<not> truthy file \<or> \<not> is_str file then JObj [(''file'', file)]
     else let f = str_of file; base = JObj [(''file'', file)] in
     if \<not> ends_with f ''/manifest.json'' \<and> f \<noteq> ''manifest.json'' then base
     else if \<not> (\<exists>d \<in> set preview_dirs. has_sub f d) then base
     else case project_file cwd f of None \<Rightarrow> base
     | Some rel \<Rightarrow> (case manifests pub (resolve cwd f) of
         None \<Rightarrow> base
       | Some m \<Rightarrow>
         if get m ''previewMode'' \<noteq> JStr ''svelte-component'' \<or> \<not> truthy (get m ''sourceFile'') then base
         else JObj [(''file'', JStr (js_string (get m ''sourceFile''))),
           (''sourceFile'', JStr (js_string (get m ''sourceFile''))),
           (''previewFile'', file), (''previewMode'', get m ''previewMode'')]))"

definition invalid_reply_details :: "jsval \<Rightarrow> apply_deferred \<Rightarrow> jsval \<Rightarrow> props" where
  "invalid_reply_details msg d body = [
     (''id'', get msg ''id''), (''pageUrl'', ad_page d),
     (''chunk'', js_or (get (ad_event d) ''chunk'') JNull), (''repair'', js_or (get (ad_event d) ''repair'') JNull),
     (''reason'', js_or (get body ''reason'') (js_or (get body ''error'') (JStr ''invalid_manual_apply_result''))),
     (''status'', js_or (get (get msg ''data'') ''status'') JNull)]"

definition received_reply_details :: "jsval \<Rightarrow> apply_deferred \<Rightarrow> jsval \<Rightarrow> jsval \<Rightarrow> props" where
  "received_reply_details msg d result failed = [
     (''id'', get msg ''id''), (''pageUrl'', ad_page d),
     (''chunk'', js_or (get (ad_event d) ''chunk'') JNull), (''repair'', js_or (get (ad_event d) ''repair'') JNull),
     (''status'', get result ''status''),
     (''appliedCount'', jint (int (length (elems (get result ''appliedEntryIds''))))),
     (''failed'', failed), (''fileCount'', jint (int (length (elems (get result ''files''))))),
     (''noteCount'', jint (int (length (elems (get result ''notes'')))))]"

definition accept_result :: "host \<Rightarrow> jsval \<Rightarrow> jsval \<Rightarrow> server \<Rightarrow> server" where
  \<comment> \<open>settle the promise, take the event out of the queue and serve the polls\<close>
  "accept_result h i result s =
    on_bus (\<lambda>b. flush_pending_polls h (snd (acknowledge_pending_event h i JUndef b)))
      (snd (resolve_deferred i result s))"

definition reply_to_deferred :: "host \<Rightarrow> jsval \<Rightarrow> apply_deferred \<Rightarrow> server \<Rightarrow> js_error + (reply \<times> server)" where
  "reply_to_deferred h msg d s =
    (case validate_result_message msg (ad_event d) (ad_batch d) of
       Inl body \<Rightarrow> Inr (Json 400 body, record_manual_edit_activity h ''manual_edit_apply_reply_invalid''
         (invalid_reply_details msg d body) s)
     | Inr result \<Rightarrow>
       bindE (summarize_manual_apply_failures (lv_root s) (get result ''failed'')) (\<lambda>failed.
         Inr (ok_reply, accept_result h (get msg ''id'') result
           (record_manual_edit_activity h ''manual_edit_apply_reply_received''
             (received_reply_details msg d result failed) s))))"

definition reply_to_tombstone :: "host \<Rightarrow> jsval \<Rightarrow> server \<Rightarrow> js_error + (reply \<times> server)" where
  "reply_to_tombstone h msg s =
    bindE (rollback_timed_out_reply msg s) (\<lambda>(rolledBack, failures, s).
      Inr (Json 409 (error_body ''stale_manual_edit_apply_reply''
          [(''rolledBackFiles'', JArr (map JStr rolledBack)), (''rollbackFailures'', JArr failures)]),
        record_manual_edit_activity h ''manual_edit_apply_stale_reply_rejected''
           [(''id'', get msg ''id''), (''rolledBackFileCount'', jint (int (length rolledBack))),
            (''rollbackFailureCount'', jint (int (length failures)))] s))"

definition retry_reply :: "host \<Rightarrow> jsval \<Rightarrow> jsval \<Rightarrow> server \<Rightarrow> reply \<times> server" where
  "retry_reply h msg sourceEventType s =
    (case release_pending_event h (get msg ''id'') sourceEventType (lv_bus s) of
       (None, b) \<Rightarrow> ((if truthy (get msg ''id'')
         then Json 404 (error_body ''unknown_poll_retry_id'' [(''id'', get msg ''id'')])
         else Json 400 (error_body ''missing_poll_retry_id'' [(''id'', get msg ''id'')])), s)
     | (Some ev, b) \<Rightarrow> (Json 200 (JObj [(''ok'', JBool True), (''released'', JBool True)]),
         s\<lparr>lv_bus := flush_pending_polls h b\<rparr>))"

definition empty_steer_done :: "jsval \<Rightarrow> jsval option \<Rightarrow> bool" where
  "empty_steer_done msg pending =
    ((case pending of None \<Rightarrow> False | Some ev \<Rightarrow> ty_is ev ''steer'') \<and> ty_is msg ''steer_done'' \<and>
     \<not> truthy (get msg ''file'') \<and>
     \<not> (is_str (get msg ''message'') \<and> js_trim (str_of (get msg ''message'')) \<noteq> []))"

definition session_for_reply :: "host \<Rightarrow> jsval \<Rightarrow> server \<Rightarrow> snapshot option \<times> server" where
  \<comment> \<open>the session of a reply that acknowledges nothing, if there is one\<close>
  "session_for_reply h i s =
    (if \<not> truthy i then (None, s)
     else let (snap, s) = read_session h i True s
       in (case snap of None \<Rightarrow> None | Some sn \<Rightarrow> if truthy (updatedAt sn) then Some sn else None, s))"

definition terminal_session :: "snapshot option \<Rightarrow> bool" where
  "terminal_session snap = (case snap of None \<Rightarrow> False
     | Some sn \<Rightarrow> phase sn = JStr ''completed'' \<or> phase sn = JStr ''discarded'')"

definition reply_event_type :: "jsval \<Rightarrow> string" where
  "reply_event_type msg =
    (if ty_is msg ''steer_done'' then ''steer_done''
     else if ty_is msg ''discard'' \<or> ty_is msg ''discarded'' then ''discarded''
     else if ty_is msg ''complete'' then ''complete''
     else if ty_is msg ''error'' then ''agent_error''
     else ''agent_done'')"

definition reply_journal_event :: "jsval \<Rightarrow> jsval \<Rightarrow> jsval option \<Rightarrow> jsval" where
  "reply_journal_event msg meta acknowledged = JObj [
     (''type'', JStr (reply_event_type msg)), (''id'', get msg ''id''), (''file'', get meta ''file''),
     (''sourceFile'', get meta ''sourceFile''), (''previewFile'', get meta ''previewFile''),
     (''previewMode'', get meta ''previewMode''), (''message'', get msg ''message''),
     (''sourceEventType'', case acknowledged of None \<Rightarrow> JUndef | Some ev \<Rightarrow> get ev ''type''),
     (''carbonize'', JBool (is_true (get (get msg ''data'') ''carbonize'')))]"

definition forwarded_reply :: "jsval \<Rightarrow> jsval \<Rightarrow> jsval" where
  "forwarded_reply msg meta = JObj [
     (''type'', js_or (get msg ''type'') (JStr ''done'')), (''id'', get msg ''id''),
     (''message'', get msg ''message''), (''file'', get msg ''file''),
     (''sourceFile'', get meta ''sourceFile''), (''previewFile'', get meta ''previewFile''),
     (''previewMode'', get meta ''previewMode''), (''data'', get msg ''data'')]"

definition is_publish :: "jsval \<Rightarrow> jsval \<Rightarrow> bool" where
  "is_publish msg meta = (get meta ''previewMode'' = JStr ''svelte-component'' \<and> truthy (get msg ''id'') \<and>
     (ty_is msg ''done'' \<or> \<not> truthy (get msg ''type'')))"

definition deliver_reply :: "host \<Rightarrow> publishing \<Rightarrow> jsval \<Rightarrow> jsval option \<Rightarrow> bool \<Rightarrow> server \<Rightarrow> reply \<times> server" where
  \<comment> \<open>from the file metadata to the browser\<close>
  "deliver_reply h pub msg acknowledged skipJournalReply s =
    (let meta = session_file_metadata pub (lv_root s) (get msg ''file'');
         broken = compiled pub (get msg ''id'')
     in if is_publish msg meta \<and> broken \<noteq> []
        then (Json 422 (error_body ''variant_compile_failed''
          [(''id'', get msg ''id''), (''failures'', JArr broken),
           (''_instructions'', JStr (''The publish was NOT delivered: the listed variant file(s) do not compile, so the browser never saw them. '' @
             ''Fix each failure at the given file and line (the most common cause is a second top-level <style> element; '' @
             ''Svelte allows exactly one, so merge all rules into the existing block), then send the same --reply done again.''))]), s)
        else let s = (if truthy (get msg ''id'') \<and> \<not> skipJournalReply
                      then try_append h (reply_journal_event msg meta acknowledged) s else s);
                 s = on_bus (\<lambda>b. broadcast (forwarded_reply msg meta) (flush_pending_polls h b)) s
             in (ok_reply, s))"

definition poll_reply :: "host \<Rightarrow> publishing \<Rightarrow> jsval \<Rightarrow> server \<Rightarrow> reply \<times> server" where
  "poll_reply h pub msg s =
    (let i = get msg ''id'';
         sourceEventType = js_or (get msg ''sourceEventType'')
           (infer_source_event_type h msg (bs_events (lv_bus s)))
     in if ty_is msg ''retry'' then retry_reply h msg sourceEventType s
     else if empty_steer_done msg (find_pending_event_by_id i sourceEventType (lv_bus s))
       then (Json 400 (error_body ''steer_done_requires_file_or_message''
         [(''hint'', JStr ''Reply with --file after writing source, or include a message explaining an intentional no-op.'')]), s)
     else let (acknowledged, b) = acknowledge_pending_event h i sourceEventType (lv_bus s);
              s = s\<lparr>lv_bus := b\<rparr>;
              (existing, s) = (if acknowledged = None then session_for_reply h i s else (None, s))
       in if acknowledged = None \<and> existing = None
          then ((if truthy i then Json 404 (error_body ''unknown_poll_reply_id'' [(''id'', i)])
                 else Json 400 (error_body ''missing_poll_reply_id'' [(''id'', i)])),
                record_manual_edit_activity h ''manual_edit_poll_reply_unknown''
                  [(''id'', js_or i JNull), (''type'', js_or (get msg ''type'') JNull)] s)
          else deliver_reply h pub msg acknowledged (terminal_session existing) s)"

definition handle_poll_post :: "host \<Rightarrow> publishing \<Rightarrow> request \<Rightarrow> server \<Rightarrow> js_error + (reply \<times> server)" where
  "handle_poll_post h pub r s =
    (case rq_json r of
       None \<Rightarrow> Inr (Json 400 (error_body ''Invalid JSON'' []), s)
     | Some msg \<Rightarrow> bindE (getE msg ''token'') (\<lambda>t.
       if \<not> token_ok s t then Inr (unauthorized, s)
       else case get_deferred (get msg ''id'') s of
         Some d \<Rightarrow> reply_to_deferred h msg d s
       | None \<Rightarrow> if has_timed_out_id (get msg ''id'') s then reply_to_tombstone h msg s
           else Inr (poll_reply h pub msg s)))"

section \<open>Uploads, sources and status\<close>

definition max_annotation_bytes :: nat where
  "max_annotation_bytes = 10 * 1024 * 1024"

definition valid_annotation_id :: "jsval \<Rightarrow> bool" where
  "valid_annotation_id v = (is_str v \<and> 1 \<le> length (str_of v) \<and> length (str_of v) \<le> 64 \<and>
     list_all safe_char (str_of v))"

record upload =
  up_total :: nat
  up_aborted :: bool
  up_chunks :: "string list"

definition upload_chunk :: "string \<Rightarrow> upload \<Rightarrow> upload" where
  \<comment> \<open>one \<open>data\<close> event\<close>
  "upload_chunk c u =
    (if up_aborted u then u
     else let n = up_total u + length c in
       if n > max_annotation_bytes then u\<lparr>up_total := n, up_aborted := True\<rparr>
       else u\<lparr>up_total := n, up_chunks := up_chunks u @ [c]\<rparr>)"

definition upload_body :: "string list \<Rightarrow> upload" where
  "upload_body cs = fold upload_chunk cs \<lparr>up_total = 0, up_aborted = False, up_chunks = []\<rparr>"

definition write_file :: "string \<Rightarrow> string \<Rightarrow> tree \<Rightarrow> js_error + tree" where
  "write_file p text t =
    (if tr_writable t p then Inr (t\<lparr>tr_files := alset p text (tr_files t)\<rparr>) else Inl (Thrown (tr_error t)))"

definition post_annotation :: "request \<Rightarrow> server \<Rightarrow> reply \<times> server" where
  "post_annotation r s =
    (if \<not> token_ok s (param r ''token'') then (unauthorized_text, s)
     else let eventId = param r ''eventId'' in
     if \<not> valid_annotation_id eventId then (Json 400 (error_body ''Invalid eventId'' []), s)
     else if map lower_char (rq_content_type r) \<noteq> ''image/png''
       then (Json 415 (error_body ''Content-Type must be image/png'' []), s)
     else case lv_session_dir s of
       None \<Rightarrow> (Json 500 (error_body ''Session dir unavailable'' []), s)
     | Some dir \<Rightarrow>
       let u = upload_body (rq_chunks r) in
       if up_aborted u then (Json 413 (error_body ''Payload too large'' []), s)
       else let p = dir @ ''/'' @ str_of eventId @ ''.png'' in
         (case write_file p (concat (up_chunks u)) (lv_tree s) of
            Inl err \<Rightarrow> (Json 500 (error_body (''Write failed: '' @ tr_error (lv_tree s)) []), s)
          | Inr t \<Rightarrow> (Json 200 (JObj [(''ok'', JBool True), (''path'', JStr p)]), s\<lparr>lv_tree := t\<rparr>)))"

definition get_source :: "request \<Rightarrow> server \<Rightarrow> reply" where
  "get_source r s =
    (if \<not> token_ok s (param r ''token'') then unauthorized_text
     else let p = param r ''path'' in
     if \<not> truthy p \<or> has_sub (str_of p) ''..'' then Plain 400 ''Bad path''
     else case project_file (lv_root s) (str_of p) of
       None \<Rightarrow> Plain 403 ''Forbidden''
     | Some rel \<Rightarrow>
       let absPath = resolve (lv_root s) (str_of p) in
       (case file_at (lv_tree s) absPath of
          Some text \<Rightarrow> if tr_readable (lv_tree s) absPath then Plain 200 text else Plain 404 ''File not found''
        | None \<Rightarrow> Plain 404 ''File not found''))"

definition summarize_pending_event_for_status :: "host \<Rightarrow> server \<Rightarrow> pending_entry \<Rightarrow> jsval" where
  "summarize_pending_event_for_status h s e =
    (let event = pe_event e in JObj (
       [(''id'', get event ''id''), (''type'', get event ''type''), (''leased'', JBool (is_leased h e)),
        (''leaseUntil'', if pe_lease e = 0 then JNull else jint (pe_lease e))] @
       (if ty_is event ''manual_edit_apply'' then
         [(''pageUrl'', js_or (get event ''pageUrl'') JNull), (''chunk'', js_or (get event ''chunk'') JNull),
          (''repair'', js_or (get event ''repair'') JNull), (''evidencePath'', js_or (get event ''evidencePath'') JNull),
          (''agentAction'', js_or (get event ''agentAction'') (build_manual_apply_agent_action event)),
          (''manualApplySummary'', summarize_manual_apply_event (lv_root s) event
            (case get_deferred (get event ''id'') s of
               Some d \<Rightarrow> js_or (ad_batch d) (get event ''batch'') | None \<Rightarrow> get event ''batch''))]
        else [])))"

definition get_status :: "host \<Rightarrow> request \<Rightarrow> server \<Rightarrow> js_error + (reply \<times> server)" where
  "get_status h r s =
    (if \<not> token_ok s (param r ''token'') then Inr (unauthorized, s)
     else bindE (active_session_summaries h s) (\<lambda>(sessions, s). Inr (Json 200 (JObj [
       (''status'', JStr ''ok''), (''port'', jint (lv_port s)),
       (''connectedClients'', jint (int (length (bs_clients (lv_bus s))))),
       (''pendingEvents'', JArr (map (summarize_pending_event_for_status h s) (bs_events (lv_bus s)))),
       (''agentPolling'', JBool (agent_polling_connected (lv_bus s))),
       (''activeSessions'', sessions), (''manualEdits'', get_manual_edit_status s)]), s)))"

definition get_health :: "server \<Rightarrow> reply" where
  "get_health s = Json 200 (JObj [(''status'', JStr ''ok''), (''port'', jint (lv_port s)),
     (''mode'', JStr ''variant''), (''hasProjectContext'', JBool (lv_has_context s)),
     (''connectedClients'', jint (int (length (bs_clients (lv_bus s)))))])"

definition get_live_script :: "request \<Rightarrow> server \<Rightarrow> string option \<Rightarrow> reply" where
  \<comment> \<open>\<open>problem\<close> is what reading the script's parts throws; the script embeds token and port\<close>
  "get_live_script r s problem =
    (if \<not> token_ok s (param r ''token'') then unauthorized_text
     else case problem of
       Some m \<Rightarrow> Plain 500 (''Error reading live browser scripts: '' @ m)
     | None \<Rightarrow> Script (lv_token s) (lv_port s))"

definition stop_route :: "host \<Rightarrow> request \<Rightarrow> server \<Rightarrow> reply \<times> server" where
  "stop_route h r s =
    (if \<not> token_ok s (param r ''token'') then (unauthorized_text, s)
     else (Stopping, on_bus (\<lambda>b. fold (\<lambda>p. answer_poll h True (pl_id p) (JObj [(''type'', JStr ''exit'')])) (bs_polls b)
         (b\<lparr>bs_timer := None, bs_clients := [], bs_polls := []\<rparr>))
       (case lv_session_dir s of None \<Rightarrow> s
        | Some dir \<Rightarrow> s\<lparr>lv_tree := (lv_tree s)\<lparr>tr_files :=
            filter (\<lambda>f. \<not> starts_with (fst f) (dir @ ''/'')) (tr_files (lv_tree s))\<rparr>\<rparr>)))"

end
