(* ===== verification/Manual_Routes.thy ===== *)
theory Manual_Routes
  imports Live_Server
begin

text \<open>
  The routes of \<open>live/manual-edit-routes.mjs\<close> for staged copy edits: staging a
  Save, reading what is staged, discarding it with everything an Apply had
  under way, and the user's decision to roll an Apply back. The route that
  starts an Apply runs \<open>commitManualEdits\<close>, which is not modelled.
\<close>

section \<open>Rolling a transaction back\<close>

definition log_paths :: "string \<Rightarrow> string list \<Rightarrow> jsval" where
  "log_paths cwd ps = JArr (filter truthy (map (\<lambda>p. summarize_log_file cwd (JStr p)) ps))"

definition rollback_transaction :: "host \<Rightarrow> jsval \<Rightarrow> string \<Rightarrow> server \<Rightarrow> js_error + (jsval \<times> server)" where
  \<comment> \<open>\<open>JNull\<close> when there is nothing to roll back\<close>
  "rollback_transaction h page reason s =
    (let (result, tx', t) = rollback_manual_apply_transaction (lv_root s) page (lv_buffer s) (lv_transaction s) (lv_tree s);
         s' = s\<lparr>lv_transaction := tx', lv_tree := t\<rparr>
     in case (lv_transaction s, result) of
       (Some tx, Some (rolledBack, failures, skipped)) \<Rightarrow>
         let body = [(''id'', JStr (tx_id tx)), (''reason'', JStr reason),
               (''rolledBackFiles'', JArr (map JStr rolledBack)), (''rollbackFailures'', JArr failures)]
         in if skipped then Inr (JObj (body @ [(''skipped'', JStr ''entries_not_pending'')]), s')
            else bindE (summarize_manual_diagnostics (lv_root s) (JArr failures)) (\<lambda>failed.
              Inr (JObj body, record_manual_edit_activity h ''manual_edit_transaction_rolled_back''
                [(''id'', JStr (tx_id tx)), (''pageUrl'', js_or (tx_page tx) JNull), (''reason'', JStr reason),
                 (''entryIds'', JArr (tx_entries tx)), (''rolledBackFiles'', log_paths (lv_root s) rolledBack),
                 (''rollbackFailures'', failed)] s'))
     | _ \<Rightarrow> Inr (JNull, s'))"

section \<open>Counts\<close>

definition total_staged :: "server \<Rightarrow> jsval" where
  "total_staged s = jint (int (fst (count_by_page (lv_buffer s))))"

definition per_page :: "server \<Rightarrow> jsval" where
  "per_page s = JObj (map (\<lambda>(p, n). (p, jint (int n))) (snd (count_by_page (lv_buffer s))))"

definition pending_on :: "jsval \<Rightarrow> server \<Rightarrow> jsval" where
  \<comment> \<open>\<open>pageUrl ? (perPage[pageUrl] || 0) : totalCount\<close>\<close>
  "pending_on page s = (if truthy page then js_or (get (per_page s) (js_string page)) (JNum 0) else total_staged s)"

definition counts :: "server \<Rightarrow> props" where
  "counts s = [(''totalCount'', total_staged s), (''perPage'', per_page s)]"

definition entry_obj :: "buf_entry \<Rightarrow> jsval" where
  "entry_obj e = JObj [(''id'', be_id e), (''pageUrl'', be_page e), (''element'', be_element e),
     (''ops'', JArr (be_ops e)), (''stagedAt'', be_staged e)]"

section \<open>Routes\<close>

definition error_text :: "js_error \<Rightarrow> jsval" where
  "error_text err = JStr (case err of TypeError m \<Rightarrow> m | Thrown m \<Rightarrow> m)"

definition staged_entry :: "jsval \<Rightarrow> buf_entry" where
  "staged_entry msg = \<lparr>be_id = get msg ''id'', be_page = get msg ''pageUrl'', be_element = get msg ''element'',
     be_ops = elems (get msg ''ops''), be_staged = JUndef\<rparr>"

definition hinted_files :: "string \<Rightarrow> jsval \<Rightarrow> jsval list" where
  "hinted_files cwd msg = set_of (filter truthy
     (map (\<lambda>op. summarize_log_file cwd (get (get op ''sourceHint'') ''file'')) (elems (get msg ''ops''))))"

definition post_stash :: "host \<Rightarrow> request \<Rightarrow> server \<Rightarrow> js_error + (reply \<times> server)" where
  "post_stash h r s =
    (case rq_json r of
       None \<Rightarrow> Inr (Json 400 (error_body ''Invalid JSON'' []), s)
     | Some msg \<Rightarrow> bindE (getE msg ''token'') (\<lambda>t.
       if \<not> token_ok s t then Inr (unauthorized, s)
       else bindE (validate_event (JObj (spread (props_of msg) [(''type'', JStr ''manual_edits'')]))) (\<lambda>verdict.
         case verdict of Some e \<Rightarrow> Inr (Json 400 (error_body e []), s)
       | None \<Rightarrow> (case stage_entry (now_iso (h_clock h)) (staged_entry msg) (lv_buffer s) of
           Inl err \<Rightarrow> Inr (Json 500 (error_body ''stash_write_failed'' [(''message'', error_text err)]), s)
         | Inr (es, f) \<Rightarrow>
           let s = s\<lparr>lv_buffer := f\<rparr>; pending = js_or (get (per_page s) (js_string (get msg ''pageUrl''))) (JNum 0)
           in Inr (Json 200 (JObj ([(''ok'', JBool True), (''pendingCount'', pending)] @ counts s)),
             record_manual_edit_activity h ''manual_edit_stashed''
               [(''id'', get msg ''id''), (''pageUrl'', get msg ''pageUrl''),
                (''opCount'', jint (int (length (elems (get msg ''ops''))))), (''pendingCount'', pending),
                (''totalCount'', total_staged s),
                (''hintedFileCount'', jint (int (length (hinted_files (lv_root s) msg))))] s)))))"

definition get_stash :: "request \<Rightarrow> server \<Rightarrow> reply" where
  "get_stash r s =
    (if \<not> token_ok s (param r ''token'') then unauthorized_text
     else let page = js_or (param r ''pageUrl'') (JStr []);
              entries = (if truthy page then filter (\<lambda>e. strict_eq (be_page e) page) (read_buffer (lv_buffer s))
                         else read_buffer (lv_buffer s))
       in Json 200 (JObj ([(''count'', pending_on page s)] @ counts s @ [(''entries'', JArr (map entry_obj entries))])))"

definition decision_payload :: "request \<Rightarrow> jsval option" where
  "decision_payload r = (if concat (rq_chunks r) = [] then Some (JObj []) else rq_json r)"

definition post_repair_decision :: "host \<Rightarrow> request \<Rightarrow> server \<Rightarrow> js_error + (reply \<times> server)" where
  "post_repair_decision h r s =
    (case decision_payload r of
       None \<Rightarrow> Inr (Json 400 (error_body ''Invalid JSON'' []), s)
     | Some payload \<Rightarrow> bindE (getE payload ''token'') (\<lambda>t.
       if \<not> token_ok s (js_or t (param r ''token'')) then Inr (unauthorized_text, s)
       else let page = js_or (get payload ''pageUrl'') (js_or (param r ''pageUrl'') JNull);
                action = map lower_char (js_trim (js_string
                  (js_or (get payload ''action'') (js_or (param r ''action'') (JStr [])))))
         in if action \<noteq> ''rollback''
            then Inr (Json 400 (error_body ''unsupported_manual_edit_repair_decision'' [(''action'', JStr action)]), s)
            else bindE (rollback_transaction h page ''manual_edit_user_requested_rollback'' s) (\<lambda>(rollback, s).
              let response = [(''action'', JStr action), (''pageUrl'', page), (''rollback'', rollback),
                    (''remainingCount'', pending_on page s)] @ counts s
              in Inr (Json 200 (JObj response),
                   record_manual_edit_activity h ''manual_edit_repair_rollback_done'' response s))))"

definition discard_staged :: "jsval \<Rightarrow> server \<Rightarrow> nat \<times> jsval list \<times> server" where
  \<comment> \<open>what was removed, counted and listed\<close>
  "discard_staged page s =
    (let on_page = (\<lambda>e. strict_eq (be_page e) page); es = read_buffer (lv_buffer s) in
     if truthy page
     then (let (n, f) = remove_entries on_page (lv_buffer s)
           in (n, map entry_obj (filter on_page es), s\<lparr>lv_buffer := f\<rparr>))
     else (let (n, f) = truncate_buffer (lv_buffer s) in (n, map entry_obj es, s\<lparr>lv_buffer := f\<rparr>)))"

definition discard_rollback_log :: "string \<Rightarrow> jsval \<Rightarrow> js_error + jsval" where
  "discard_rollback_log cwd rollback =
    (if \<not> truthy rollback then Inr JUndef
     else bindE (summarize_manual_diagnostics cwd (get rollback ''rollbackFailures'')) (\<lambda>failed. Inr (JObj [
       (''id'', get rollback ''id''),
       (''rolledBackFiles'', JArr (filter truthy (map (summarize_log_file cwd) (elems (get rollback ''rolledBackFiles''))))),
       (''rollbackFailures'', failed), (''skipped'', get rollback ''skipped'')])))"

definition post_discard :: "host \<Rightarrow> request \<Rightarrow> server \<Rightarrow> js_error + (reply \<times> server)" where
  "post_discard h r s =
    (if \<not> token_ok s (param r ''token'') then Inr (unauthorized_text, s)
     else let page = param r ''pageUrl'' in
       (case rollback_transaction h page ''manual_edit_discarded'' s of
          Inl err \<Rightarrow> Inr (Json 500 (error_body ''discard_failed'' [(''message'', error_text err)]), s)
        | Inr (rollback, s) \<Rightarrow>
          let (discarded, entries, s) = discard_staged page s;
              (canceled, s) = cancel_pending_events h page ''manual_edit_discarded'' s
          in bindE (discard_rollback_log (lv_root s) rollback) (\<lambda>log.
            Inr (Json 200 (JObj ([(''discarded'', jint (int discarded)), (''entries'', JArr entries),
                (''canceledApplyEvents'', JArr canceled)] @ counts s)),
              record_manual_edit_activity h ''manual_edit_discarded''
                [(''pageUrl'', page), (''discarded'', jint (int discarded)),
                 (''canceledApplyIds'', JArr (map (\<lambda>c. get c ''id'') canceled)),
                 (''transactionRollback'', log), (''totalCount'', total_staged s)] s))))"

definition post_manual_edit :: reply where
  "post_manual_edit = Json 410 (error_body
     ''/manual-edit is removed; use /manual-edit-stash and /manual-edit-commit for staged copy edits.'' [])"

end
