(* ===== verification/Live_Run.thy ===== *)
theory Live_Run
  imports Manual_Routes
begin

text \<open>
  The live server as a whole: the dispatch of \<open>createRequestHandler\<close> over the
  modelled routes, every history of the server as an inductive set of states, and
  what holds in all of them. The routes that only serve bundled or design files
  (\<open>/detect.js\<close>, \<open>/modern-screenshot.js\<close>, \<open>/design-system\<close>) and the one that
  starts an Apply have no constructor.
\<close>

section \<open>Dispatch\<close>

datatype route =
    Live_script | Annotation | Status | Health | Source | Events_get | Stash_post | Stash_get
  | Repair_decision | Discard_post | Manual_edit | Events_post | Stop | Poll_get | Poll_post | Not_found

definition route_of :: "string \<Rightarrow> string \<Rightarrow> route option" where
  \<comment> \<open>\<open>None\<close> for the routes that are not modelled\<close>
  "route_of m p =
    (let post = (m = ''POST''); getting = (m = ''GET'') in
     if p = ''/live.js'' then Some Live_script
     else if p \<in> {''/detect.js'', ''/'', ''/modern-screenshot.js''} then None
     else if p = ''/annotation'' \<and> post then Some Annotation
     else if p = ''/status'' then Some Status
     else if p = ''/health'' then Some Health
     else if p \<in> {''/design-system.json'', ''/design-system/raw''} then None
     else if p = ''/source'' then Some Source
     else if p = ''/events'' \<and> getting then Some Events_get
     else if p = ''/manual-edit-stash'' \<and> post then Some Stash_post
     else if p = ''/manual-edit-stash'' \<and> getting then Some Stash_get
     else if p = ''/manual-edit-commit'' \<and> post then None
     else if p = ''/manual-edit-repair-decision'' \<and> post then Some Repair_decision
     else if p = ''/manual-edit-discard'' \<and> post then Some Discard_post
     else if p = ''/manual-edit'' \<and> post then Some Manual_edit
     else if p = ''/events'' \<and> post then Some Events_post
     else if p = ''/stop'' then Some Stop
     else if p = ''/poll'' \<and> getting then Some Poll_get
     else if p = ''/poll'' \<and> post then Some Poll_post
     else Some Not_found)"

definition serve :: "host \<Rightarrow> publishing \<Rightarrow> string option \<Rightarrow> route \<Rightarrow> request \<Rightarrow> server \<Rightarrow> js_error + (reply \<times> server)" where
  "serve h pub scripts rt r s =
    (case rt of
       Live_script \<Rightarrow> Inr (get_live_script r s scripts, s)
     | Annotation \<Rightarrow> Inr (post_annotation r s)
     | Status \<Rightarrow> get_status h r s
     | Health \<Rightarrow> Inr (get_health s, s)
     | Source \<Rightarrow> Inr (get_source r s, s)
     | Events_get \<Rightarrow> get_events h r s
     | Stash_post \<Rightarrow> post_stash h r s
     | Stash_get \<Rightarrow> Inr (get_stash r s, s)
     | Repair_decision \<Rightarrow> post_repair_decision h r s
     | Discard_post \<Rightarrow> post_discard h r s
     | Manual_edit \<Rightarrow> Inr (post_manual_edit, s)
     | Events_post \<Rightarrow> post_events h r s
     | Stop \<Rightarrow> Inr (stop_route h r s)
     | Poll_get \<Rightarrow> Inr (handle_poll_get h r s)
     | Poll_post \<Rightarrow> handle_poll_post h pub r s
     | Not_found \<Rightarrow> Inr (Plain 404 ''Not found'', s))"

section \<open>Nothing happens without the token\<close>

definition body_token :: "request \<Rightarrow> jsval" where
  "body_token r = (case rq_json r of None \<Rightarrow> JUndef | Some msg \<Rightarrow> get msg ''token'')"

definition credential :: "route \<Rightarrow> request \<Rightarrow> jsval" where
  "credential rt r =
    (case rt of
       Events_post \<Rightarrow> body_token r | Poll_post \<Rightarrow> body_token r | Stash_post \<Rightarrow> body_token r
     | Repair_decision \<Rightarrow> js_or (case decision_payload r of None \<Rightarrow> JUndef | Some v \<Rightarrow> get v ''token'') (param r ''token'')
     | _ \<Rightarrow> param r ''token'')"

definition open_route :: "route \<Rightarrow> bool" where
  "open_route rt = (rt \<in> {Health, Manual_edit, Not_found})"

definition refusal :: "reply \<Rightarrow> bool" where
  "refusal rep = (rep \<in> {unauthorized, unauthorized_text, Json 400 (error_body ''Invalid JSON'' [])})"

lemma body_refused:
  assumes "(case rq_json r of None \<Rightarrow> Inr (Json 400 (error_body ''Invalid JSON'' []), s)
       | Some msg \<Rightarrow> bindE (getE msg ''token'') (\<lambda>t. if \<not> token_ok s t then Inr (unauthorized, s) else f msg)) = Inr (rep, s')"
    and "\<not> token_ok s (body_token r)"
  shows "s' = s \<and> refusal rep"
  using assms by (auto simp: body_token_def getE_def refusal_def split: option.splits if_splits)

lemma decision_refused:
  assumes "post_repair_decision h r s = Inr (rep, s')" and "\<not> token_ok s (credential Repair_decision r)"
  shows "s' = s \<and> refusal rep"
proof (cases "decision_payload r")
  case None
  with assms show ?thesis by (simp add: post_repair_decision_def refusal_def)
next
  case (Some v)
  with assms have "\<not> nullish v" "\<not> token_ok s (js_or (get v ''token'') (param r ''token''))"
    by (auto simp: post_repair_decision_def credential_def getE_def split: if_splits)
  with Some assms(1) show ?thesis by (simp add: post_repair_decision_def getE_def refusal_def)
qed

lemma query_refused:
  assumes "\<not> token_ok s (param r ''token'')"
  shows "get_live_script r s scripts = unauthorized_text" "post_annotation r s = (unauthorized_text, s)"
    "get_status h r s = Inr (unauthorized, s)" "get_source r s = unauthorized_text"
    "get_events h r s = Inr (unauthorized_text, s)" "get_stash r s = unauthorized_text"
    "post_discard h r s = Inr (unauthorized_text, s)" "stop_route h r s = (unauthorized_text, s)"
    "handle_poll_get h r s = (unauthorized, s)"
  using assms by (simp_all add: get_live_script_def post_annotation_def get_status_def get_source_def
    get_events_def get_stash_def post_discard_def stop_route_def handle_poll_get_def)


definition sample_tree_of :: "(string \<times> string) list \<Rightarrow> tree" where
  "sample_tree_of fs = \<lparr>tr_files = fs, tr_readable = \<lambda>p. True, tr_writable = \<lambda>p. True, tr_error = ''EACCES''\<rparr>"

definition sample_server :: server where
  "sample_server = \<lparr>lv_bus = empty_bus sample_store, lv_token = ''secret'', lv_port = 8400, lv_root = ''/app'',
     lv_live_dir = ''/app/.impeccable/live'', lv_soft = JUndef, lv_edit_seq = 1, lv_activity = JNull,
     lv_deferreds = [], lv_timed_out = [], lv_settled = [], lv_tree = sample_tree_of [(''/app/a'', ''text'')],
     lv_evidence = [], lv_exit_at = None, lv_buffer = No_file, lv_transaction = None,
     lv_session_dir = Some ''/app/.impeccable/live/annotations/session-1'', lv_has_context = True\<rparr>"

definition sample_request :: "(string \<times> string) list \<Rightarrow> jsval \<Rightarrow> request" where
  "sample_request q body = \<lparr>rq_id = 7, rq_query = q, rq_content_type = ''image/png'', rq_chunks = [''x''],
     rq_json = Some body\<rparr>"


section \<open>What the steps do to the queue and the journals\<close>

lemma lv_bus_simps [simp]:
  "lv_bus (on_bus f s) = f (lv_bus s)"
  "lv_bus (settle i out s) = lv_bus s"
  "lv_bus (forget_deferred i s) = lv_bus s"
  "lv_bus (remove_manual_apply_evidence v s) = lv_bus s"
  "lv_bus (tombstone_timed_out_apply_id n d s) = lv_bus s"
  by (simp_all add: on_bus_def settle_def forget_deferred_def remove_manual_apply_evidence_def
      tombstone_timed_out_apply_id_def Let_def split: option.split)

lemma lv_bus_resolve [simp]: "lv_bus (snd (resolve_deferred i v s)) = lv_bus s"
  by (simp add: resolve_deferred_def split: option.split)

lemma lv_bus_rollback: "rollback_saved batch saved extra s = (a, b, s') \<Longrightarrow> lv_bus s' = lv_bus s"
  by (auto simp: rollback_saved_def split: prod.splits)

lemma keeps_activity [simp]:
  "keeps I b (lv_bus (record_manual_edit_activity h t d s)) = keeps I b (lv_bus s)"
  by (simp add: record_manual_edit_activity_def Let_def)

lemma get_snapshot_disk:
  assumes "get_snapshot h x v inc st = Inr (sn, st')"
  shows "st_disk st' = st_disk st"
proof -
  from assms obtain c where "read_state h True (default_id v x) st = Inr (c, st')"
    by (auto simp: get_snapshot_def bindE_Inr_iff split: if_splits)
  then obtain i where "derive_state h True i st = (c, st')" by (auto simp: read_state_def bindE_Inr_iff)
  then show ?thesis using stored_derive [of h True i st] by simp
qed

lemma keeps_disk: "st_disk st = st_disk (bs_store b) \<Longrightarrow> keeps I b (b\<lparr>bs_store := st\<rparr>)"
  by (rule keeps_store) (simp_all add: stored_def)

lemma keeps_read: "keeps I (lv_bus s) (lv_bus (snd (read_session h i inc s)))"
  by (auto simp: read_session_def intro!: keeps_disk dest: get_snapshot_disk split: sum.split)

lemma snapshots_of_disk: "snapshots_of h x is st = Inr (ss, st') \<Longrightarrow> st_disk st' = st_disk st"
proof (induction "is" arbitrary: ss st)
  case (Cons i "is")
  then show ?case by (fastforce simp: bindE_Inr_iff dest: get_snapshot_disk)
qed simp

lemma keeps_summaries:
  "active_session_summaries h s = Inr (v, s') \<Longrightarrow> keeps I (lv_bus s) (lv_bus s')"
  by (auto simp: active_session_summaries_def list_active_sessions_def bindE_Inr_iff intro!: keeps_disk
      dest: snapshots_of_disk)

lemma keeps_append_session:
  "append_session h ev s = Inr s' \<Longrightarrow> (\<And>i. get ev ''id'' = JStr i \<Longrightarrow> safe_id i \<Longrightarrow> i \<in> I) \<Longrightarrow> keeps I (lv_bus s) (lv_bus s')"
  by (auto simp: append_session_def bindE_Inr_iff intro: keeps_append)

lemma keeps_try_append: "(\<And>i. get ev ''id'' = JStr i \<Longrightarrow> safe_id i \<Longrightarrow> i \<in> I) \<Longrightarrow> keeps I (lv_bus s) (lv_bus (try_append h ev s))"
  by (auto simp: try_append_def intro: keeps_append_session split: sum.split)

lemma keeps_phase_step:
  "phase_step h i ph ds s = Inr s' \<Longrightarrow> ''id'' \<notin> set (map fst ds) \<Longrightarrow> (\<And>j. i = JStr j \<Longrightarrow> safe_id j \<Longrightarrow> j \<in> I) \<Longrightarrow>
   keeps I (lv_bus s) (lv_bus s')"
  by (auto simp: phase_step_def bindE_Inr_iff intro: keeps_phase)

lemma keeps_phase_once:
  assumes "phase_once h i ds reached ph s = Inr s'" "''id'' \<notin> set (map fst ds)" "\<And>j. i = JStr j \<Longrightarrow> safe_id j \<Longrightarrow> j \<in> I"
  shows "keeps I (lv_bus s) (lv_bus s')"
proof (cases reached)
  case True
  obtain snap s1 where r: "read_session h i True s = (snap, s1)" by (cases "read_session h i True s")
  then have "keeps I (lv_bus s) (lv_bus s1)" using keeps_read [of I s h i True] by simp
  also have "keeps I (lv_bus s1) (lv_bus s')"
    using True r assms by (auto simp: phase_once_def generation_phase_already_recorded_def intro: keeps_phase_step split: if_splits)
  finally show ?thesis .
qed (use assms in \<open>simp add: phase_once_def\<close>)

lemma keeps_detect:
  "detect_missed_generation_completion h ev s = (m, s') \<Longrightarrow> keeps I (lv_bus s) (lv_bus s')"
  using keeps_read [of I s h "get ev ''id''" False]
  by (auto simp: detect_missed_generation_completion_def Let_def split: if_splits prod.splits)

lemma keeps_checkpoint:
  assumes "record_generation_checkpoint h ev s = Inr s'" "\<And>j. get ev ''id'' = JStr j \<Longrightarrow> safe_id j \<Longrightarrow> j \<in> I"
  shows "keeps I (lv_bus s) (lv_bus s')"
proof (cases "\<not> truthy (get ev ''id'') \<or> \<not> ty_is ev ''checkpoint''")
  case True
  with assms show ?thesis by (simp add: record_generation_checkpoint_def)
next
  case False
  let ?i = "get ev ''id''"
  obtain stopped s1 where f: "generation_is_fenced h ?i s = (stopped, s1)" by (cases "generation_is_fenced h ?i s")
  then have k1: "keeps I (lv_bus s) (lv_bus s1)"
    using False keeps_read [of I s h ?i True] by (auto simp: generation_is_fenced_def split: prod.splits)
  show ?thesis
  proof (cases "s' = s1")
    case False
    note new = this
    let ?arrived = "js_or (to_number (get ev ''arrivedVariants'')) (JNum 0)"
    let ?expected = "js_or (to_number (get ev ''expectedVariants'')) (JNum 0)"
    let ?file = "js_or (get ev ''previewFile'') (get ev ''file'')"
    define s2 where "s2 = (if truthy ?file then on_bus (broadcast (variant_progress ev ?arrived ?expected
        (js_or (get ev ''previewMode'') (JStr ''source'')) ?file)) s1 else s1)"
    define ds where "ds = [(''arrivedVariants'', ?arrived), (''expectedVariants'', ?expected),
                (''checkpointReason'', js_or (get ev ''reason'') JNull), (''at'', jint (now_of h))]"
    have ds: "''id'' \<notin> set (map fst ds)" by (simp add: ds_def)
    have k2: "keeps I (lv_bus s1) (lv_bus s2)" by (simp add: s2_def)
    from assms(1) \<open>\<not> (\<not> truthy ?i \<or> _)\<close> f new obtain s3 s4 where
      "phase_once h ?i ds True ''first_reviewable'' s2 = Inr s3"
      "phase_once h ?i ds (js_ge ?arrived (JNum 2) \<and> js_ge ?expected (JNum 3)) ''second_reviewable'' s3 = Inr s4"
      "phase_once h ?i ds (js_ge ?arrived ?expected) ''all_variants_ready'' s4 = Inr s'"
      by (auto simp: record_generation_checkpoint_def Let_def bindE_Inr_iff s2_def ds_def split: if_splits)
    then have "keeps I (lv_bus s2) (lv_bus s3)" "keeps I (lv_bus s3) (lv_bus s4)" "keeps I (lv_bus s4) (lv_bus s')"
      using keeps_phase_once ds assms(2) by blast+
    with k1 k2 show ?thesis by (blast intro: keeps_trans)
  qed (use k1 in simp)
qed

definition good :: "server \<Rightarrow> bool" where
  "good s \<longleftrightarrow> bus_ok (lv_bus s) \<and> known (lv_bus s)"

definition sessions :: "server \<Rightarrow> string set" where
  "sessions s = stored (bs_store (lv_bus s))"

definition makes :: "string set \<Rightarrow> server \<Rightarrow> server \<Rightarrow> bool" where
  "makes I s s' \<longleftrightarrow> good s' \<and> sessions s \<subseteq> sessions s' \<and> sessions s' \<subseteq> sessions s \<union> I"

lemma makes_keeps: "good s \<Longrightarrow> keeps I (lv_bus s) (lv_bus s') \<Longrightarrow> makes I s s'"
  by (simp add: good_def keeps_def makes_def sessions_def writes_def)

lemma makes_trans: "makes I a b \<Longrightarrow> makes I b c \<Longrightarrow> makes I a c"
  unfolding makes_def by blast

lemma makes_known: "makes I s s' \<Longrightarrow> I \<subseteq> J \<union> sessions s \<Longrightarrow> makes J s s'"
  unfolding makes_def by blast

lemma makes_enqueue:
  assumes "good s" and "event_ids ev \<subseteq> sessions s"
  shows "makes I s (on_bus (enqueue_event h ev) s)"
  using assms keeps_enqueue [of ev "lv_bus s"] by (simp add: makes_keeps sessions_def)

lemma event_ids_cases: "i \<in> event_ids ev \<Longrightarrow> get ev ''id'' = JStr i \<and> safe_id i"
  by (auto simp: event_ids_def split: if_splits elim: is_str.elims)

lemma makes_after_append:
  assumes ok: "good s" and run: "after_append h msg missed s = Inr s'"
    and ids: "\<And>i. get msg ''id'' = JStr i \<Longrightarrow> safe_id i \<Longrightarrow> i \<in> sessions s"
  shows "makes {} s s'"
proof -
  let ?I = "sessions s"
  define s1 where "s1 = (if ty_is msg ''accept'' \<or> ty_is msg ''discard''
    then on_bus (\<lambda>b. snd (retire_pending_generation h (get msg ''id'') b)) s else s)"
  from run obtain s2 where s2: "record_generation_checkpoint h msg s1 = Inr s2"
    by (auto simp: after_append_def Let_def bindE_Inr_iff s1_def)
  define s3 where "s3 = (case missed of None \<Rightarrow> s2 | Some m \<Rightarrow> on_bus (broadcast m) s2)"
  define orphaned where "orphaned \<longleftrightarrow> ty_is msg ''discard'' \<and> is_true (get msg ''orphaned'')"
  define ev where "ev = JObj [(''type'', JStr ''discarded''), (''id'', get msg ''id''), (''orphaned'', JBool True)]"
  define s4 where "s4 = (if orphaned \<and> truthy (get msg ''id'') then try_append h ev s3 else s3)"
  have "after_append h msg missed s = Inr (if \<not> ty_is msg ''checkpoint'' \<and> \<not> ty_is msg ''variant_mounted'' \<and> \<not> orphaned
      then on_bus (enqueue_event h msg) s4 else s4)"
    using s2 unfolding after_append_def s1_def [symmetric] Let_def
    unfolding ev_def [symmetric] orphaned_def [symmetric] bindE_def
    by (simp only: sum.case s3_def [symmetric] s4_def [symmetric] conj_assoc orphaned_def [symmetric])
  then have s': "s' = (if \<not> ty_is msg ''checkpoint'' \<and> \<not> ty_is msg ''variant_mounted'' \<and> \<not> orphaned
      then on_bus (enqueue_event h msg) s4 else s4)"
    using run by simp
  have "keeps ?I (lv_bus s) (lv_bus s1)" by (auto simp: s1_def)
  also have "keeps ?I (lv_bus s1) (lv_bus s2)" using s2 ids by (rule keeps_checkpoint)
  also have "keeps ?I (lv_bus s2) (lv_bus s3)" by (simp add: s3_def split: option.split)
  also have "keeps ?I (lv_bus s3) (lv_bus s4)"
    using ids unfolding s4_def by (auto simp: ev_def intro: keeps_try_append)
  finally have m: "makes ?I s s4" using ok by (intro makes_keeps)
  then have s4: "good s4" "sessions s4 = sessions s" by (auto simp: makes_def)
  have "event_ids msg \<subseteq> sessions s4" using ids event_ids_cases s4(2) by blast
  with s4(1) have "makes {} s4 s'" unfolding s' by (auto intro: makes_enqueue makes_keeps)
  with m show ?thesis by (auto simp: makes_def)
qed

definition creating :: "jsval \<Rightarrow> string set" where
  \<comment> \<open>the id of an event that may begin a session\<close>
  "creating msg = {i. get msg ''id'' = JStr i \<and> in_vocab (get msg ''type'') [''generate'', ''steer'', ''agent_phase'']}"

lemma appended_id:
  "append_session h ev s = Inr s' \<Longrightarrow> get ev ''id'' = JStr i \<Longrightarrow> i \<in> sessions s'"
  using append_to_store_stored by (fastforce simp: append_session_def bindE_Inr_iff sessions_def)

lemma makes_journal:
  assumes ok: "good s" and run: "journal_event h msg s = Inr (rep, s')"
  shows "makes {i. get msg ''id'' = JStr i \<and> safe_id i} s s'"
proof -
  let ?I = "{i. get msg ''id'' = JStr i \<and> safe_id i}"
  obtain missed s1 where d: "detect_missed_generation_completion h msg s = (missed, s1)"
    by (cases "detect_missed_generation_completion h msg s")
  have m1: "makes ?I s s1" using ok keeps_detect [OF d] by (rule makes_keeps)
  then have ok1: "good s1" by (simp add: makes_def)
  show ?thesis
  proof (cases "if truthy (get msg ''id'') then append_session h msg s1 else Inr s1")
    case (Inl err)
    with run d m1 show ?thesis by (simp add: journal_event_def)
  next
    case (Inr s2)
    have k: "keeps ?I (lv_bus s1) (lv_bus s2)"
      using Inr by (cases "truthy (get msg ''id'')") (auto intro: keeps_append_session)
    then have m2: "makes ?I s1 s2" using ok1 by (intro makes_keeps)
    from run d Inr have a: "after_append h msg missed s2 = Inr s'" by (auto simp: journal_event_def bindE_Inr_iff)
    have "makes {} s2 s'"
    proof (cases "truthy (get msg ''id'')")
      case True
      with Inr appended_id show ?thesis
        using m2 by (intro makes_after_append [OF _ a]) (auto simp: makes_def)
    next
      case False
      then have "\<not> safe_id i" if "get msg ''id'' = JStr i" for i
        using that by (auto simp: safe_id_def)
      then show ?thesis using m2 by (intro makes_after_append [OF _ a]) (auto simp: makes_def)
    qed
    then have "makes ?I s2 s'" by (auto simp: makes_def)
    with m1 m2 show ?thesis by (blast intro: makes_trans)
  qed
qed

lemma exists_in_keys: "exists_in d r i \<longleftrightarrow> i \<in> fst ` set (files d r)"
  by (simp only: exists_in_def domIff [symmetric] dom_map_of_conv_image_fst)

lemma makes_post_events:
  assumes ok: "good s" and run: "post_events h r s = Inr (rep, s')"
  shows "makes {i. \<exists>msg. rq_json r = Some msg \<and> i \<in> creating msg} s s'"
proof (cases "s' = s")
  case False
  from run False obtain msg where msg: "rq_json r = Some msg" "validate_event msg = Inr None"
    and run': "(if ty_is msg ''agent_phase'' then bindE (agent_phase_event h msg s) (\<lambda>s. Inr (ok_reply, s))
         else bindE (unknown_session msg s) (\<lambda>unknown.
           if unknown then Inr (Json 404 (error_body ''unknown_session'' [(''id'', get msg ''id'')]), s)
           else journal_event h msg s)) = Inr (rep, s')"
    by (auto simp: post_events_def bindE_Inr_iff split: option.splits if_splits)
  have c: "{i. \<exists>msg. rq_json r = Some msg \<and> i \<in> creating msg} = creating msg" using msg by simp
  show ?thesis
  proof (cases "ty_is msg ''agent_phase''")
    case True
    with run' have "agent_phase_event h msg s = Inr s'" by (auto simp: bindE_Inr_iff)
    then have "keeps (creating msg) (lv_bus s) (lv_bus s')"
      using True by (auto simp: agent_phase_event_def bindE_Inr_iff creating_def ty_is_def in_vocab_def intro!: keeps_phase)
    with ok show ?thesis unfolding c by (rule makes_keeps)
  next
    case False
    with run' \<open>s' \<noteq> s\<close> have u: "unknown_session msg s = Inr False" and j: "journal_event h msg s = Inr (rep, s')"
      by (auto simp: bindE_Inr_iff split: if_splits)
    have "i \<in> creating msg \<union> sessions s" if "get msg ''id'' = JStr i" "safe_id i" for i
    proof (cases "in_vocab (get msg ''type'') session_creating_event_types")
      case True
      with that show ?thesis by (auto simp: creating_def in_vocab_def session_creating_event_types_def split: jsval.splits)
    next
      case False
      have "truthy (JStr i)" using that(2) by (auto simp: safe_id_def)
      with that u False have "has_session (JStr i) (bs_store (lv_bus s)) = Inr True"
        by (auto simp: unknown_session_def bindE_Inr_iff)
      with \<open>truthy (JStr i)\<close> that(2)
      have "exists_in (st_disk (bs_store (lv_bus s))) Primary i \<or> exists_in (st_disk (bs_store (lv_bus s))) Legacy i"
        by (simp add: has_session_def safe_session_id_def)
      then show ?thesis unfolding exists_in_keys by (simp add: sessions_def stored_def)
    qed
    then have "{i. get msg ''id'' = JStr i \<and> safe_id i} \<subseteq> creating msg \<union> sessions s" by blast
    with makes_journal [OF ok j] show ?thesis unfolding c by (rule makes_known)
  qed
qed (use ok in \<open>simp add: makes_def\<close>)

definition replied :: "request \<Rightarrow> string set" where
  \<comment> \<open>the id an agent's reply names\<close>
  "replied r = {i. \<exists>msg. rq_json r = Some msg \<and> get msg ''id'' = JStr i}"

lemma keeps_on_bus [intro]: "keeps I b (f b) \<Longrightarrow> b = lv_bus s \<Longrightarrow> keeps I b (lv_bus (on_bus f s))"
  by simp

lemma keeps_retry: "retry_reply h msg t s = (rep, s') \<Longrightarrow> keeps I (lv_bus s) (lv_bus s')"
proof -
  assume r: "retry_reply h msg t s = (rep, s')"
  let ?b = "snd (release_pending_event h (get msg ''id'') t (lv_bus s))"
  have "keeps I (lv_bus s) ?b" by auto
  also have "keeps I ?b (flush_pending_polls h ?b)" by auto
  finally show ?thesis using r by (auto simp: retry_reply_def split: prod.splits option.splits)
qed

lemma keeps_deliver:
  assumes "deliver_reply h pub msg ack skip s = (rep, s')" and "\<And>i. get msg ''id'' = JStr i \<Longrightarrow> i \<in> I"
  shows "keeps I (lv_bus s) (lv_bus s')"
proof (cases "s' = s")
  case False
  define meta where "meta = session_file_metadata pub (lv_root s) (get msg ''file'')"
  define s1 where "s1 = (if truthy (get msg ''id'') \<and> \<not> skip then try_append h (reply_journal_event msg meta ack) s else s)"
  have "keeps I (lv_bus s) (lv_bus s1)"
    unfolding s1_def by (auto simp: reply_journal_event_def intro!: keeps_try_append assms(2))
  also have "keeps I (lv_bus s1) (flush_pending_polls h (lv_bus s1))" by auto
  finally show ?thesis
    using assms(1) False by (auto simp: deliver_reply_def Let_def meta_def s1_def split: if_splits)
qed auto

lemma keeps_poll_reply:
  assumes "poll_reply h pub msg s = (rep, s')" and ids: "\<And>i. get msg ''id'' = JStr i \<Longrightarrow> i \<in> I"
  shows "keeps I (lv_bus s) (lv_bus s')"
proof -
  let ?i = "get msg ''id''"
  define t where "t = js_or (get msg ''sourceEventType'') (infer_source_event_type h msg (bs_events (lv_bus s)))"
  obtain ack b where a: "acknowledge_pending_event h ?i t (lv_bus s) = (ack, b)"
    by (cases "acknowledge_pending_event h ?i t (lv_bus s)")
  define s1 where "s1 = s\<lparr>lv_bus := b\<rparr>"
  obtain existing s2 where e: "(if ack = None then session_for_reply h ?i s1 else (None, s1)) = (existing, s2)"
    by (cases "if ack = None then session_for_reply h ?i s1 else (None, s1)")
  have k1: "keeps I (lv_bus s) (lv_bus s1)"
    using keeps_ops(3) [of I "lv_bus s" h ?i t] a by (simp add: s1_def)
  have k2: "keeps I (lv_bus s1) (lv_bus s2)"
    using e keeps_read [of I s1 h ?i True] by (auto simp: session_for_reply_def split: if_splits prod.splits)
  show ?thesis
  proof (cases "ty_is msg ''retry'' \<or> empty_steer_done msg (find_pending_event_by_id ?i t (lv_bus s))")
    case True
    with assms(1) show ?thesis
      by (auto simp: poll_reply_def Let_def t_def [symmetric] intro: keeps_retry split: if_splits)
  next
    case False
    then have no: "ty_is msg ''retry'' = False" "empty_steer_done msg (find_pending_event_by_id ?i t (lv_bus s)) = False"
      by simp_all
    have d: "(if ack = None \<and> existing = None then
         ((if truthy ?i then Json 404 (error_body ''unknown_poll_reply_id'' [(''id'', ?i)])
           else Json 400 (error_body ''missing_poll_reply_id'' [(''id'', ?i)])),
          record_manual_edit_activity h ''manual_edit_poll_reply_unknown''
            [(''id'', js_or ?i JNull), (''type'', js_or (get msg ''type'') JNull)] s2)
        else deliver_reply h pub msg ack (terminal_session existing) s2) = (rep, s')"
      using assms(1) unfolding poll_reply_def Let_def t_def [symmetric] a prod.case s1_def [symmetric] e no if_False .
    have "keeps I (lv_bus s2) (lv_bus s')"
    proof (cases "ack = None \<and> existing = None")
      case True
      with d show ?thesis by auto
    next
      case False
      with d have "deliver_reply h pub msg ack (terminal_session existing) s2 = (rep, s')" by (simp split: if_splits)
      then show ?thesis using ids by (rule keeps_deliver)
    qed
    with k1 k2 show ?thesis by (blast intro: keeps_trans)
  qed
qed

lemma keeps_accept_result: "keeps I (lv_bus s) (lv_bus (accept_result h i result s))"
proof -
  let ?b = "snd (acknowledge_pending_event h i JUndef (lv_bus s))"
  have "keeps I (lv_bus s) ?b" by auto
  also have "keeps I ?b (flush_pending_polls h ?b)" by auto
  finally show ?thesis by (simp add: accept_result_def)
qed

lemma reply_to_deferred_effect:
  assumes "reply_to_deferred h msg d s = Inr (rep, s')"
  obtains t ds where "s' = record_manual_edit_activity h t ds s \<or>
      (\<exists>i result. s' = accept_result h i result (record_manual_edit_activity h t ds s))"
  using assms by (auto simp: reply_to_deferred_def bindE_Inr_iff split: sum.splits)

lemma keeps_reply_to_deferred:
  assumes "reply_to_deferred h msg d s = Inr (rep, s')"
  shows "keeps I (lv_bus s) (lv_bus s')"
proof -
  obtain t ds where "s' = record_manual_edit_activity h t ds s \<or>
      (\<exists>i result. s' = accept_result h i result (record_manual_edit_activity h t ds s))"
    using assms by (rule reply_to_deferred_effect)
  moreover have "keeps I (lv_bus s) (lv_bus (record_manual_edit_activity h t ds s))" by simp
  ultimately show ?thesis using keeps_accept_result keeps_trans by blast
qed

lemma keeps_tombstone:
  "reply_to_tombstone h msg s = Inr (rep, s') \<Longrightarrow> keeps I (lv_bus s) (lv_bus s')"
proof -
  assume r: "reply_to_tombstone h msg s = Inr (rep, s')"
  then obtain rolled failed s1 where t: "rollback_timed_out_reply msg s = Inr (rolled, failed, s1)"
    by (auto simp: reply_to_tombstone_def bindE_Inr_iff)
  then have "lv_bus s1 = lv_bus s"
    by (auto simp: rollback_timed_out_reply_def bindE_Inr_iff dest: lv_bus_rollback split: option.splits)
  with r t show ?thesis by (auto simp: reply_to_tombstone_def)
qed

lemma poll_post_effect:
  assumes "handle_poll_post h pub r s = Inr (rep, s')" and "s' \<noteq> s"
  shows "\<exists>msg. rq_json r = Some msg \<and> ((\<exists>d. reply_to_deferred h msg d s = Inr (rep, s')) \<or>
    reply_to_tombstone h msg s = Inr (rep, s') \<or> poll_reply h pub msg s = (rep, s'))"
  using assms by (auto simp: handle_poll_post_def bindE_Inr_iff split: option.splits if_splits)

lemma makes_poll_post:
  assumes "good s" and run: "handle_poll_post h pub r s = Inr (rep, s')"
  shows "makes (replied r) s s'"
proof (cases "s' = s")
  case False
  from poll_post_effect [OF run False] obtain msg where msg: "rq_json r = Some msg"
    "(\<exists>d. reply_to_deferred h msg d s = Inr (rep, s')) \<or> reply_to_tombstone h msg s = Inr (rep, s') \<or>
     poll_reply h pub msg s = (rep, s')" by blast
  have "i \<in> replied r" if "get msg ''id'' = JStr i" for i using that msg(1) by (simp add: replied_def)
  then have "keeps (replied r) (lv_bus s) (lv_bus s')"
    using msg(2) by (elim disjE exE) (erule keeps_reply_to_deferred, erule keeps_tombstone, erule keeps_poll_reply, simp)
  with assms(1) show ?thesis by (rule makes_keeps)
qed (use assms in \<open>simp add: makes_def\<close>)

section \<open>The other routes\<close>

lemma keeps_answer [simp]: "keeps I b (answer_poll h pk n v b') = keeps I b b'"
  by (simp add: keeps_def known_def generates_def writes_def) (simp add: queue_keys_def)

lemma keeps_answers: "keeps I b b' \<Longrightarrow> keeps I b (fold (\<lambda>p. answer_poll h True (pl_id p) v) ps b')"
  by (induction ps arbitrary: b') simp_all

lemma lv_bus_fold_remove:
  "lv_bus (snd (fold (\<lambda>e (c, s). (f e c, remove_manual_apply_evidence (g e) s)) es (c, s))) = lv_bus s"
  by (induction es arbitrary: c s) simp_all

lemma lv_bus_cancel_deferred: "lv_bus (snd (cancel_deferred reason item st)) = lv_bus (snd st)"
  by (auto simp: cancel_deferred_def Let_def dest!: lv_bus_rollback split: prod.splits)

lemma lv_bus_fold_cancel: "lv_bus (snd (fold (cancel_deferred reason) items st)) = lv_bus (snd st)"
  by (induction items arbitrary: st) (simp_all add: lv_bus_cancel_deferred)

lemma keeps_cancel_queued: "keeps I (lv_bus s) (lv_bus (snd (cancel_queued page s)))"
  unfolding cancel_queued_def Let_def lv_bus_fold_remove by (simp, rule keeps_fewer) simp_all

lemma keeps_cancel:
  assumes "cancel_pending_events h page reason s = (out, s')"
  shows "keeps I (lv_bus s) (lv_bus s')"
proof -
  obtain c1 s1 where q: "cancel_queued page s = (c1, s1)" by (cases "cancel_queued page s")
  define items where "items = filter (\<lambda>item. should_cancel page (ad_event (snd item))) (lv_deferreds s1)"
  obtain c2 s2 where f: "fold (cancel_deferred reason) items (c1, s1) = (c2, s2)"
    by (cases "fold (cancel_deferred reason) items (c1, s1)")
  have "keeps I (lv_bus s) (lv_bus s1)" using keeps_cancel_queued [of I s page] q by simp
  moreover have "lv_bus s2 = lv_bus s1" using lv_bus_fold_cancel [of reason items "(c1, s1)"] f by simp
  moreover have "keeps I (lv_bus s1) (flush_pending_polls h (lv_bus s1))" by auto
  moreover have "s' = (if c2 \<noteq> [] then on_bus (flush_pending_polls h) s2 else s2)"
    using assms q f unfolding cancel_pending_events_def Let_def items_def by simp
  ultimately show ?thesis by (auto intro: keeps_trans)
qed

lemma keeps_rollback_transaction:
  assumes "rollback_transaction h page reason s = Inr (v, s')"
  shows "keeps I (lv_bus s) (lv_bus s')"
proof -
  obtain result tx' t where r: "rollback_manual_apply_transaction (lv_root s) page (lv_buffer s) (lv_transaction s)
      (lv_tree s) = (result, tx', t)" by (rule prod_cases3)
  let ?s = "s\<lparr>lv_transaction := tx', lv_tree := t\<rparr>"
  have "s' = ?s \<or> (\<exists>ty ds. s' = record_manual_edit_activity h ty ds ?s)"
  proof (cases "lv_transaction s")
    case None
    with assms r show ?thesis by (simp add: rollback_transaction_def)
  next
    case (Some tx)
    with assms r show ?thesis
      by (cases result) (simp_all add: rollback_transaction_def Let_def bindE_Inr_iff split: prod.splits if_splits, blast)
  qed
  moreover have "keeps I (lv_bus s) (lv_bus ?s)" by simp
  ultimately show ?thesis using keeps_activity by metis
qed

lemma lv_bus_discard_staged: "discard_staged page s = (n, es, s') \<Longrightarrow> lv_bus s' = lv_bus s"
  by (auto simp: discard_staged_def Let_def split: if_splits prod.splits)

lemma keeps_discard:
  assumes "post_discard h r s = Inr (rep, s')"
  shows "keeps I (lv_bus s) (lv_bus s')"
proof (cases "s' = s")
  case False
  let ?page = "param r ''pageUrl''"
  from assms False obtain rb s1 where rb: "rollback_transaction h ?page ''manual_edit_discarded'' s = Inr (rb, s1)"
    by (auto simp: post_discard_def Let_def split: if_splits sum.splits)
  obtain n es s2 where d: "discard_staged ?page s1 = (n, es, s2)" by (cases "discard_staged ?page s1")
  obtain c s3 where c: "cancel_pending_events h ?page ''manual_edit_discarded'' s2 = (c, s3)"
    by (cases "cancel_pending_events h ?page ''manual_edit_discarded'' s2")
  have "keeps I (lv_bus s) (lv_bus s1)" using rb by (rule keeps_rollback_transaction)
  also have "keeps I (lv_bus s1) (lv_bus s2)" using lv_bus_discard_staged [OF d] by simp
  also have "keeps I (lv_bus s2) (lv_bus s3)" using c by (rule keeps_cancel)
  finally have k: "keeps I (lv_bus s) (lv_bus s3)" .
  have "\<exists>ty ds. s' = record_manual_edit_activity h ty ds s3"
    using assms rb d c False by (auto simp: post_discard_def Let_def bindE_Inr_iff split: if_splits)
  with k show ?thesis by auto
qed auto

lemma keeps_repair:
  "post_repair_decision h r s = Inr (rep, s') \<Longrightarrow> keeps I (lv_bus s) (lv_bus s')"
  by (auto simp: post_repair_decision_def Let_def bindE_Inr_iff intro: keeps_rollback_transaction
      split: option.splits if_splits)

lemma keeps_stash: "post_stash h r s = Inr (rep, s') \<Longrightarrow> keeps I (lv_bus s) (lv_bus s')"
  by (auto simp: post_stash_def Let_def bindE_Inr_iff split: option.splits if_splits sum.splits)

lemma keeps_get_events:
  assumes "get_events h r s = Inr (rep, s')"
  shows "keeps I (lv_bus s) (lv_bus s')"
proof (cases "token_ok s (param r ''token'')")
  case True
  let ?s = "on_bus (\<lambda>b. snd (cancel_queued_anonymous_exit_events h b)) (s\<lparr>lv_exit_at := None\<rparr>)"
  from True assms obtain v s1 where a: "active_session_summaries h ?s = Inr (v, s1)"
    and s': "lv_bus s' = (lv_bus s1)\<lparr>bs_clients := bs_clients (lv_bus s1) @ [(rq_id r, [json_norm (connected_message s1 v)])]\<rparr>"
    by (auto simp: get_events_def Let_def bindE_Inr_iff)
  have "keeps I (lv_bus s) (lv_bus ?s)" by auto
  also have "keeps I (lv_bus ?s) (lv_bus s1)" using a by (rule keeps_summaries)
  finally show ?thesis by (simp add: s')
qed (use assms in \<open>auto simp: get_events_def\<close>)

lemma keeps_poll_get: "handle_poll_get h r s = (rep, s') \<Longrightarrow> keeps I (lv_bus s) (lv_bus s')"
proof -
  let ?b = "(lv_bus s)\<lparr>bs_last_poll := now_of h\<rparr>"
  have "keeps I (lv_bus s) ?b" by simp
  also have "keeps I ?b (park_poll h (poll_of h r) ?b)" by auto
  finally show "handle_poll_get h r s = (rep, s') \<Longrightarrow> ?thesis" by (auto simp: handle_poll_get_def split: if_splits)
qed

lemma keeps_stop:
  assumes "stop_route h r s = (rep, s')"
  shows "keeps I (lv_bus s) (lv_bus s')"
proof -
  let ?b = "lv_bus s"
  have "keeps I ?b (fold (\<lambda>p. answer_poll h True (pl_id p) (JObj [(''type'', JStr ''exit'')])) (bs_polls ?b)
      (?b\<lparr>bs_timer := None, bs_clients := [], bs_polls := []\<rparr>))"
    by (rule keeps_answers) simp
  then show ?thesis using assms by (auto simp: stop_route_def split: if_splits option.splits)
qed

definition made_by :: "route \<Rightarrow> request \<Rightarrow> string set" where
  \<comment> \<open>the sessions a request may begin\<close>
  "made_by rt r = (case rt of
     Events_post \<Rightarrow> {i. \<exists>msg. rq_json r = Some msg \<and> i \<in> creating msg}
   | Poll_post \<Rightarrow> replied r
   | _ \<Rightarrow> {})"

lemma makes_serve:
  assumes ok: "good s" and run: "serve h pub scripts rt r s = Inr (rep, s')"
  shows "makes (made_by rt r) s s'"
proof (cases rt)
  case Events_post
  with ok run show ?thesis using makes_post_events by (simp add: serve_def made_by_def)
next
  case Poll_post
  with ok run show ?thesis using makes_poll_post by (simp add: serve_def made_by_def)
qed (use ok run in \<open>auto simp: serve_def made_by_def intro!: makes_keeps
      intro: keeps_discard keeps_repair keeps_stash keeps_get_events keeps_poll_get keeps_stop keeps_summaries
      simp: post_annotation_def get_status_def bindE_Inr_iff Let_def split: if_splits option.splits sum.splits\<close>)

end
