(* ===== verification/Live_Promises.thy ===== *)
theory Live_Promises
  imports Live_Run
begin

text \<open>
  The promises of dispatched Apply events over every history of the server: an
  event waits for its result or its promise was settled, never both and never
  twice, and the tombstones of those that ran out of time stay few. With the
  invariants of \<open>Live_Run\<close> this gives what holds in all reachable states.
\<close>

section \<open>Steps that leave the promises alone\<close>

definition promises ::
  "server \<Rightarrow> (string \<times> apply_deferred) list \<times> (string \<times> (string + jsval)) list \<times> (string \<times> tombstone) list" where
  "promises s = (lv_deferreds s, lv_settled s, lv_timed_out s)"

lemma promises_simps [simp]:
  "promises (on_bus f s) = promises s"
  "promises (record_manual_edit_activity h t ds s) = promises s"
  "promises (remove_manual_apply_evidence v s) = promises s"
  "promises (s\<lparr>lv_bus := b\<rparr>) = promises s"
  "promises (s\<lparr>lv_tree := tr\<rparr>) = promises s"
  "promises (s\<lparr>lv_buffer := bf\<rparr>) = promises s"
  "promises (s\<lparr>lv_transaction := tx\<rparr>) = promises s"
  "promises (s\<lparr>lv_exit_at := x\<rparr>) = promises s"
  by (simp_all add: promises_def on_bus_def record_manual_edit_activity_def remove_manual_apply_evidence_def Let_def
      split: option.split)

lemma promises_read: "read_session h i inc s = (x, s') \<Longrightarrow> promises s' = promises s"
  by (auto simp: read_session_def split: sum.splits)

lemma promises_append: "append_session h ev s = Inr s' \<Longrightarrow> promises s' = promises s"
  by (auto simp: append_session_def bindE_Inr_iff)

lemma promises_try_append [simp]: "promises (try_append h ev s) = promises s"
  by (auto simp: try_append_def dest: promises_append split: sum.split)

lemma promises_phase_once: "phase_once h i ds reached ph s = Inr s' \<Longrightarrow> promises s' = promises s"
  by (auto simp: phase_once_def generation_phase_already_recorded_def phase_step_def bindE_Inr_iff
      dest!: promises_read split: if_splits prod.splits)

lemma promises_checkpoint: "record_generation_checkpoint h ev s = Inr s' \<Longrightarrow> promises s' = promises s"
  by (auto simp: record_generation_checkpoint_def generation_is_fenced_def Let_def bindE_Inr_iff
      dest!: promises_phase_once promises_read split: if_splits prod.splits)

lemma promises_detect: "detect_missed_generation_completion h ev s = (m, s') \<Longrightarrow> promises s' = promises s"
  by (auto simp: detect_missed_generation_completion_def Let_def dest!: promises_read split: if_splits prod.splits)

lemma promises_after_append: "after_append h msg missed s = Inr s' \<Longrightarrow> promises s' = promises s"
  by (auto simp: after_append_def Let_def bindE_Inr_iff dest!: promises_checkpoint split: option.splits if_splits)

lemma promises_journal: "journal_event h msg s = Inr (rep, s') \<Longrightarrow> promises s' = promises s"
  by (auto simp: journal_event_def bindE_Inr_iff dest!: promises_after_append promises_detect promises_append
      split: prod.splits sum.splits if_splits)

lemma promises_post_events: "post_events h r s = Inr (rep, s') \<Longrightarrow> promises s' = promises s"
  by (auto simp: post_events_def agent_phase_event_def bindE_Inr_iff dest: promises_journal
      split: option.splits if_splits)

lemma promises_rollback: "rollback_saved batch saved extra s = (a, b, s') \<Longrightarrow> promises s' = promises s"
  by (auto simp: rollback_saved_def split: prod.splits)

lemma promises_rollback_transaction:
  assumes "rollback_transaction h page reason s = Inr (v, s')"
  shows "promises s' = promises s"
proof -
  obtain result tx' t where r: "rollback_manual_apply_transaction (lv_root s) page (lv_buffer s) (lv_transaction s)
      (lv_tree s) = (result, tx', t)" by (rule prod_cases3)
  show ?thesis
  proof (cases "lv_transaction s")
    case None
    with assms r show ?thesis by (auto simp: rollback_transaction_def)
  next
    case (Some tx)
    with assms r show ?thesis
      by (cases result) (auto simp: rollback_transaction_def Let_def bindE_Inr_iff split: prod.splits if_splits)
  qed
qed

lemma promises_summaries: "active_session_summaries h s = Inr (v, s') \<Longrightarrow> promises s' = promises s"
  by (auto simp: active_session_summaries_def bindE_Inr_iff)

lemma promises_session_for_reply: "session_for_reply h i s = (x, s') \<Longrightarrow> promises s' = promises s"
  by (auto simp: session_for_reply_def dest!: promises_read split: prod.splits if_splits)

lemma promises_deliver: "deliver_reply h pub msg ack skip s = (rep, s') \<Longrightarrow> promises s' = promises s"
  by (auto simp: deliver_reply_def Let_def split: if_splits)

lemma promises_retry: "retry_reply h msg t s = (rep, s') \<Longrightarrow> promises s' = promises s"
  by (auto simp: retry_reply_def split: prod.splits option.splits)

lemma promises_poll_reply: "poll_reply h pub msg s = (rep, s') \<Longrightarrow> promises s' = promises s"
  by (auto simp: poll_reply_def Let_def dest!: promises_session_for_reply promises_deliver promises_retry
      split: if_splits prod.splits)

section \<open>Steps that settle a promise\<close>

definition promises_ok :: "server \<Rightarrow> bool" where
  "promises_ok s \<longleftrightarrow> distinct (map fst (lv_settled s) @ map fst (lv_deferreds s)) \<and>
     distinct (map fst (lv_timed_out s)) \<and> length (lv_timed_out s) \<le> 200 \<and>
     set (map fst (lv_timed_out s)) \<subseteq> set (map fst (lv_settled s))"

lemma promises_ok_same: "promises s' = promises s \<Longrightarrow> promises_ok s' = promises_ok s"
  by (simp add: promises_ok_def promises_def)

lemma promises_ok_frame [simp]:
  "promises_ok (on_bus f s) = promises_ok s"
  "promises_ok (record_manual_edit_activity h t ds s) = promises_ok s"
  by (rule promises_ok_same; simp)+

lemma keys_aldel [simp]: "set (map fst (aldel i kvs)) = set (map fst kvs) - {i}"
  by (auto simp: aldel_filter)

lemma promises_ok_settle:
  \<comment> \<open>settling a promise that waits and forgetting its deferred\<close>
  assumes ok: "promises_ok s" and i: "i \<in> set (map fst (lv_deferreds s))"
    and s': "lv_deferreds s' = aldel i (lv_deferreds s)" "lv_settled s' = lv_settled s @ [(i, out)]"
    and tm: "lv_timed_out s' = lv_timed_out s"
  shows "promises_ok s'"
  using ok i unfolding promises_ok_def s' tm distinct_append keys_aldel by auto

lemma get_deferred_Some:
  "get_deferred v s = Some d \<Longrightarrow> \<exists>i. v = JStr i \<and> (i, d) \<in> set (lv_deferreds s)"
  by (cases v) (auto simp: get_deferred_def map_get_def dest: map_of_SomeD split: if_splits)

lemma lv_fields_remove [simp]:
  "lv_deferreds (remove_manual_apply_evidence v s) = lv_deferreds s"
  "lv_settled (remove_manual_apply_evidence v s) = lv_settled s"
  "lv_timed_out (remove_manual_apply_evidence v s) = lv_timed_out s"
  by (simp_all add: remove_manual_apply_evidence_def split: option.split)

lemma lv_fields_bus [simp]:
  "lv_deferreds (on_bus f s) = lv_deferreds s" "lv_settled (on_bus f s) = lv_settled s"
  "lv_timed_out (on_bus f s) = lv_timed_out s"
  by (simp_all add: on_bus_def)

lemma promises_ok_resolve: "promises_ok s \<Longrightarrow> promises_ok (snd (resolve_deferred v body s))"
proof (cases "get_deferred v s")
  case (Some d)
  then obtain i where "v = JStr i" "i \<in> set (map fst (lv_deferreds s))" using get_deferred_Some by force
  with Some show "promises_ok s \<Longrightarrow> ?thesis"
    by (elim promises_ok_settle [of s i _ "Inr body"]) (simp_all add: resolve_deferred_def settle_def forget_deferred_def)
qed (simp add: resolve_deferred_def)

lemma promises_ok_reject: "promises_ok s \<Longrightarrow> promises_ok (snd (reject_deferred v reason s))"
proof (cases "get_deferred v s")
  case (Some d)
  then obtain i where "v = JStr i" "i \<in> set (map fst (lv_deferreds s))" using get_deferred_Some by force
  with Some show "promises_ok s \<Longrightarrow> ?thesis"
    by (elim promises_ok_settle [of s i _ "Inl (if reason = [] then ''chat_agent_error'' else reason)"])
      (simp_all add: reject_deferred_def settle_def forget_deferred_def)
qed (simp add: reject_deferred_def)

lemma tombstone_fields [simp]:
  "lv_deferreds (tombstone_timed_out_apply_id i d s) = lv_deferreds s"
  "lv_settled (tombstone_timed_out_apply_id i d s) = lv_settled s"
  by (simp_all add: tombstone_timed_out_apply_id_def Let_def)

lemma bury_ok:
  \<comment> \<open>a settled promise may get a tombstone\<close>
  assumes ok: "promises_ok s" and i: "i \<in> set (map fst (lv_settled s))"
  shows "promises_ok (tombstone_timed_out_apply_id i d s)"
proof (cases "i = []")
  case False
  let ?m = "alset i d (lv_timed_out s)"
  have m: "distinct (map fst ?m)" "length ?m \<le> 201" "set (map fst ?m) \<subseteq> set (map fst (lv_settled s))"
    using ok i by (simp_all add: promises_ok_def length_alset keys_alset)
  obtain p ps where ps: "?m = p # ps" using length_alset [of i d "lv_timed_out s"] by (cases ?m) (auto split: if_splits)
  have t: "lv_timed_out (tombstone_timed_out_apply_id i d s) = (if length ?m \<le> 200 then ?m else ps)"
    using False by (simp add: tombstone_timed_out_apply_id_def Let_def ps)
  have "distinct (map fst ps)" "length ps \<le> 200" "set (map fst ps) \<subseteq> set (map fst (lv_settled s))"
    using m unfolding ps by simp_all
  with False ok m show ?thesis unfolding promises_ok_def t tombstone_fields by simp
qed (simp add: ok tombstone_timed_out_apply_id_def)

lemma timed_out_bury:
  "lv_timed_out s = lv_timed_out s0 \<Longrightarrow>
   lv_timed_out (tombstone_timed_out_apply_id i d s) = lv_timed_out (tombstone_timed_out_apply_id i d s0)"
  by (simp add: tombstone_timed_out_apply_id_def Let_def)

lemma promises_ok_expire:
  \<comment> \<open>a promise that fails for good: its deferred goes, a tombstone stays\<close>
  assumes ok: "promises_ok s" and i: "i \<in> set (map fst (lv_deferreds s))"
    and s': "lv_deferreds s' = aldel i (lv_deferreds s)" "lv_settled s' = lv_settled s @ [(i, out)]"
      "lv_timed_out s' = lv_timed_out (tombstone_timed_out_apply_id i d s)"
  shows "promises_ok s'"
proof -
  define s0 where "s0 = s\<lparr>lv_deferreds := aldel i (lv_deferreds s), lv_settled := lv_settled s @ [(i, out)]\<rparr>"
  have f: "lv_deferreds s0 = aldel i (lv_deferreds s)" "lv_settled s0 = lv_settled s @ [(i, out)]"
    "lv_timed_out s0 = lv_timed_out s" by (simp_all add: s0_def)
  have "promises_ok s0" using ok i f by (rule promises_ok_settle)
  moreover have "i \<in> set (map fst (lv_settled s0))" by (simp add: f)
  ultimately have "promises_ok (tombstone_timed_out_apply_id i d s0)" by (rule bury_ok)
  moreover have "promises s' = promises (tombstone_timed_out_apply_id i d s0)"
    using s' f timed_out_bury [of s s0 i d] by (simp add: promises_def)
  ultimately show ?thesis using promises_ok_same by blast
qed

lemma lv_fields_settle [simp]:
  "lv_deferreds (settle v out s) = lv_deferreds s" "lv_settled (settle v out s) = lv_settled s @ [(str_of v, out)]"
  "lv_timed_out (settle v out s) = lv_timed_out s"
  "lv_deferreds (forget_deferred v s) = aldel (str_of v) (lv_deferreds s)"
  "lv_settled (forget_deferred v s) = lv_settled s" "lv_timed_out (forget_deferred v s) = lv_timed_out s"
  by (simp_all add: settle_def forget_deferred_def)

lemma lv_fields_activity [simp]:
  "lv_deferreds (record_manual_edit_activity h t ds s) = lv_deferreds s"
  "lv_settled (record_manual_edit_activity h t ds s) = lv_settled s"
  "lv_timed_out (record_manual_edit_activity h t ds s) = lv_timed_out s"
  by (simp_all add: record_manual_edit_activity_def Let_def)

lemma promises_ok_timeout: "promises_ok s \<Longrightarrow> promises_ok (apply_timeout h v s)"
proof (cases "get_deferred v s")
  case (Some d)
  assume ok: "promises_ok s"
  obtain i where i: "v = JStr i" "i \<in> set (map fst (lv_deferreds s))" using Some get_deferred_Some by force
  let ?d = "\<lparr>tm_batch = ad_batch d, tm_saved = ad_saved d\<rparr>"
  show ?thesis
  proof (rule promises_ok_expire [OF ok i(2)])
    show "lv_timed_out (apply_timeout h v s) = lv_timed_out (tombstone_timed_out_apply_id i ?d s)"
      using Some i(1) by (simp add: apply_timeout_def Let_def timed_out_bury [of "forget_deferred (JStr i) s" s])
  qed (simp_all add: apply_timeout_def Let_def Some [unfolded i(1)] i(1))
qed (simp add: apply_timeout_def)

lemma promises_ok_cancel_deferred:
  assumes ok: "promises_ok (snd st)" and i: "i \<in> set (map fst (lv_deferreds (snd st)))"
  shows "promises_ok (snd (cancel_deferred reason (i, d) st)) \<and>
    lv_deferreds (snd (cancel_deferred reason (i, d) st)) = aldel i (lv_deferreds (snd st))"
proof -
  obtain c s where st: "st = (c, s)" by (cases st)
  let ?d = "\<lparr>tm_batch = ad_batch d, tm_saved = ad_saved d\<rparr>"
  let ?s = "forget_deferred (JStr i) s"
  obtain rolled failures s1 where r: "rollback_saved (ad_batch d) (ad_saved d) [] ?s = (rolled, failures, s1)"
    by (rule prod_cases3)
  have p: "lv_deferreds s1 = lv_deferreds ?s" "lv_settled s1 = lv_settled ?s" "lv_timed_out s1 = lv_timed_out ?s"
    using promises_rollback [OF r] by (simp_all add: promises_def)
  have c: "snd (cancel_deferred reason (i, d) (c, s)) = settle (JStr i) (Inl reason)
      (remove_manual_apply_evidence (get (ad_event d) ''evidencePath'') (tombstone_timed_out_apply_id i ?d s1))"
    by (simp add: cancel_deferred_def Let_def r)
  have "promises_ok (snd (cancel_deferred reason (i, d) (c, s)))"
  proof (rule promises_ok_expire [OF ok [unfolded st snd_conv] i [unfolded st snd_conv]])
    show "lv_timed_out (snd (cancel_deferred reason (i, d) (c, s))) = lv_timed_out (tombstone_timed_out_apply_id i ?d s)"
      unfolding c using p(3) timed_out_bury [of s1 s i ?d] by simp
  qed (simp_all add: c p)
  then show ?thesis by (simp add: st c p)
qed

lemma promises_ok_cancel_deferreds:
  "promises_ok (snd st) \<Longrightarrow> distinct (map fst items) \<Longrightarrow> set (map fst items) \<subseteq> set (map fst (lv_deferreds (snd st))) \<Longrightarrow>
   promises_ok (snd (fold (cancel_deferred reason) items st))"
proof (induction items arbitrary: st)
  case (Cons item items)
  obtain i d where item: "item = (i, d)" by (cases item)
  let ?st = "cancel_deferred reason (i, d) st"
  have ok: "promises_ok (snd ?st)" "lv_deferreds (snd ?st) = aldel i (lv_deferreds (snd st))"
    using promises_ok_cancel_deferred [of st i reason d] Cons.prems item by simp_all
  have "i \<notin> set (map fst items)" "set (map fst items) \<subseteq> set (map fst (lv_deferreds (snd st)))"
    using Cons.prems(2,3) item by simp_all
  then have "set (map fst items) \<subseteq> set (map fst (lv_deferreds (snd ?st)))" unfolding ok(2) keys_aldel by blast
  with ok(1) Cons.prems item show ?case by (simp add: Cons.IH)
qed simp

lemma promises_fold_remove:
  "promises (snd (fold (\<lambda>e (c, s). (f e c, remove_manual_apply_evidence (g e) s)) es (c, s))) = promises s"
  by (induction es arbitrary: c s) simp_all

lemma promises_ok_cancel:
  assumes ok: "promises_ok s" and run: "cancel_pending_events h page reason s = (out, s')"
  shows "promises_ok s'"
proof -
  obtain c1 s1 where q: "cancel_queued page s = (c1, s1)" by (cases "cancel_queued page s")
  have "promises (snd (cancel_queued page s)) = promises s"
    unfolding cancel_queued_def Let_def promises_fold_remove by simp
  with q ok have ok1: "promises_ok s1" using promises_ok_same [of s1 s] by simp
  define items where "items = filter (\<lambda>item. should_cancel page (ad_event (snd item))) (lv_deferreds s1)"
  obtain c2 s2 where f: "fold (cancel_deferred reason) items (c1, s1) = (c2, s2)"
    by (cases "fold (cancel_deferred reason) items (c1, s1)")
  have "distinct (map fst items)" "set (map fst items) \<subseteq> set (map fst (lv_deferreds s1))"
    using ok1 by (auto simp: items_def promises_ok_def distinct_map_filter)
  with ok1 f have "promises_ok s2" using promises_ok_cancel_deferreds [of "(c1, s1)" items reason] by simp
  moreover have "s' = (if c2 \<noteq> [] then on_bus (flush_pending_polls h) s2 else s2)"
    using run q f unfolding cancel_pending_events_def Let_def items_def by simp
  ultimately show ?thesis by auto
qed

lemma promises_ok_late_reply:
  "promises_ok s \<Longrightarrow> rollback_timed_out_reply msg s = Inr (rolled, failed, s') \<Longrightarrow> promises_ok s'"
proof -
  assume ok: "promises_ok s" and run: "rollback_timed_out_reply msg s = Inr (rolled, failed, s')"
  define s1 where "s1 = s\<lparr>lv_timed_out := aldel (str_of (get msg ''id'')) (lv_timed_out s)\<rparr>"
  have "length (aldel i (lv_timed_out s)) \<le> 200" for i
    using ok by (auto simp: promises_ok_def aldel_filter intro: le_trans [OF length_filter_le])
  then have "promises_ok s1"
    using ok unfolding promises_ok_def s1_def keys_aldel by (auto simp: keys_aldel simp del: set_map)
  moreover from run have "promises s' = promises s \<or> promises s' = promises s1"
    by (auto simp: rollback_timed_out_reply_def bindE_Inr_iff s1_def dest!: promises_rollback split: option.splits)
  ultimately show "promises_ok s'" using ok promises_ok_same by blast
qed

lemma promises_ok_poll_post:
  assumes ok: "promises_ok s" and run: "handle_poll_post h pub r s = Inr (rep, s')"
  shows "promises_ok s'"
proof (cases "s' = s")
  case False
  from poll_post_effect [OF run False] obtain msg where
    "(\<exists>d. reply_to_deferred h msg d s = Inr (rep, s')) \<or> reply_to_tombstone h msg s = Inr (rep, s') \<or>
     poll_reply h pub msg s = (rep, s')" by blast
  moreover have "promises_ok s'" if rd: "reply_to_deferred h msg d s = Inr (rep, s')" for d
  proof -
    obtain t ds where s': "s' = record_manual_edit_activity h t ds s \<or>
        (\<exists>i result. s' = accept_result h i result (record_manual_edit_activity h t ds s))"
      using rd by (rule reply_to_deferred_effect)
    have 1: "promises_ok (record_manual_edit_activity h t ds s)" using ok by simp
    have "promises_ok (accept_result h i result (record_manual_edit_activity h t ds s))" for i result
      using promises_ok_resolve [OF 1, of i result] by (simp add: accept_result_def)
    with 1 s' show ?thesis by auto
  qed
  moreover have "promises_ok s'" if "reply_to_tombstone h msg s = Inr (rep, s')"
    using that ok by (auto simp: reply_to_tombstone_def bindE_Inr_iff intro: promises_ok_late_reply)
  moreover have "promises_ok s'" if "poll_reply h pub msg s = (rep, s')"
    using promises_poll_reply [OF that] ok promises_ok_same by blast
  ultimately show ?thesis by blast
qed (use ok in simp)

lemma promises_ok_discard:
  assumes ok: "promises_ok s" and run: "post_discard h r s = Inr (rep, s')"
  shows "promises_ok s'"
proof (cases "s' = s")
  case False
  let ?page = "param r ''pageUrl''"
  from run False obtain rb s1 where rb: "rollback_transaction h ?page ''manual_edit_discarded'' s = Inr (rb, s1)"
    by (auto simp: post_discard_def Let_def split: if_splits sum.splits)
  obtain n es s2 where d: "discard_staged ?page s1 = (n, es, s2)" by (cases "discard_staged ?page s1")
  obtain c s3 where c: "cancel_pending_events h ?page ''manual_edit_discarded'' s2 = (c, s3)"
    by (cases "cancel_pending_events h ?page ''manual_edit_discarded'' s2")
  have "promises s2 = promises s1"
    using d by (auto simp: discard_staged_def Let_def split: if_splits prod.splits)
  then have "promises_ok s2" using ok promises_rollback_transaction [OF rb] promises_ok_same by metis
  then have "promises_ok s3" using c by (rule promises_ok_cancel)
  moreover have "\<exists>ty ds. s' = record_manual_edit_activity h ty ds s3"
    using run rb d c False by (auto simp: post_discard_def Let_def bindE_Inr_iff split: if_splits)
  ultimately show ?thesis using promises_ok_same promises_simps(2) by metis
qed (use ok in simp)

lemma promises_repair: "post_repair_decision h r s = Inr (rep, s') \<Longrightarrow> promises s' = promises s"
  by (auto simp: post_repair_decision_def Let_def bindE_Inr_iff dest!: promises_rollback_transaction
      split: option.splits if_splits)

lemma promises_stash: "post_stash h r s = Inr (rep, s') \<Longrightarrow> promises s' = promises s"
  by (auto simp: post_stash_def Let_def bindE_Inr_iff split: option.splits if_splits sum.splits)

lemma promises_get_events: "get_events h r s = Inr (rep, s') \<Longrightarrow> promises s' = promises s"
  by (auto simp: get_events_def Let_def bindE_Inr_iff dest!: promises_summaries split: if_splits)

lemma promises_stop: "stop_route h r s = (rep, s') \<Longrightarrow> promises s' = promises s"
  by (auto simp: stop_route_def split: if_splits option.splits)

lemma promises_annotation: "post_annotation r s = (rep, s') \<Longrightarrow> promises s' = promises s"
  by (auto simp: post_annotation_def Let_def split: if_splits option.splits sum.splits)

lemma promises_status: "get_status h r s = Inr (rep, s') \<Longrightarrow> promises s' = promises s"
  by (auto simp: get_status_def bindE_Inr_iff dest: promises_summaries split: if_splits)

lemma promises_poll_get: "handle_poll_get h r s = (rep, s') \<Longrightarrow> promises s' = promises s"
  by (auto simp: handle_poll_get_def split: if_splits)

lemma promises_ok_serve:
  assumes ok: "promises_ok s" and run: "serve h pub scripts rt r s = Inr (rep, s')"
  shows "promises_ok s'"
proof (cases rt)
  case Poll_post
  with run have "handle_poll_post h pub r s = Inr (rep, s')" by (simp add: serve_def)
  with ok show ?thesis by (rule promises_ok_poll_post)
next
  case Discard_post
  with run have "post_discard h r s = Inr (rep, s')" by (simp add: serve_def)
  with ok show ?thesis by (rule promises_ok_discard)
qed (use ok run in \<open>auto simp: serve_def intro: promises_ok_same [THEN iffD2] dest: promises_annotation promises_status
      promises_poll_get promises_post_events promises_repair promises_stash promises_get_events promises_stop\<close>)

section \<open>Every history of the server\<close>

definition started :: "server \<Rightarrow> bool" where
  \<comment> \<open>a new process whose queue was restored from the store\<close>
  "started s \<longleftrightarrow> (\<exists>h st. restore_pending_events_from_store h (empty_bus st) = Inr (lv_bus s)) \<and>
     good s \<and> lv_deferreds s = [] \<and> lv_timed_out s = [] \<and> lv_settled s = []"

definition fresh_id :: "string \<Rightarrow> server \<Rightarrow> bool" where
  \<comment> \<open>a random id that was not drawn before\<close>
  "fresh_id i s \<longleftrightarrow> i \<notin> set (map fst (lv_settled s)) \<union> set (map fst (lv_deferreds s))"

inductive server_run :: "server \<Rightarrow> bool" where
  start: "started s \<Longrightarrow> server_run s"
| request: "server_run s \<Longrightarrow> serve h pub scripts rt r s = Inr (rep, s') \<Longrightarrow> server_run s'"
| dispatch: "server_run s \<Longrightarrow> fresh_id i s \<Longrightarrow> server_run (push_apply_event h i batch page ch repair s)"
| apply_over: "server_run s \<Longrightarrow> server_run (apply_timeout h v s)"
| apply_rejected: "server_run s \<Longrightarrow> server_run (snd (reject_deferred v reason s))"
| stream_closed: "server_run s \<Longrightarrow> server_run (client_closes h n s)"
| exit_timer: "server_run s \<Longrightarrow> server_run (exit_timer_fires h s)"
| poll_closed: "server_run s \<Longrightarrow> server_run (on_bus (drop_poll n) s)"
| poll_over: "server_run s \<Longrightarrow> server_run (on_bus (time_out_poll n) s)"
| lease_timer: "server_run s \<Longrightarrow> server_run (on_bus (lease_timer_fires h) s)"
| lease_settled: "server_run s \<Longrightarrow> server_run (on_bus (lease_settle h result k) s)"

inductive_cases server_runE: "server_run s"

lemma good_keeps: "good s \<Longrightarrow> keeps UNIV (lv_bus s) (lv_bus s') \<Longrightarrow> good s'"
  using makes_keeps makes_def by blast

lemma good_push: "good s \<Longrightarrow> good (push_apply_event h i batch page ch repair s)"
proof (rule good_keeps)
  let ?ev = "\<lambda>s p. manual_apply_event s i p batch page ch repair"
  have "event_ids (?ev s p) = {}" for s p by (simp add: event_ids_def manual_apply_event_def ty_is_def)
  then have "keeps UNIV b (enqueue_event h (?ev s p) b)" for s p b by (intro keeps_enqueue) simp
  then have k: "keeps UNIV b b' \<Longrightarrow> keeps UNIV b (enqueue_event h (?ev s p) b')" for s p b b' using keeps_trans by blast
  show "keeps UNIV (lv_bus s) (lv_bus (push_apply_event h i batch page ch repair s))"
    by (simp add: push_apply_event_def Let_def write_manual_apply_evidence_def k)
qed

lemma promises_ok_push:
  assumes ok: "promises_ok s" and i: "fresh_id i s"
  shows "promises_ok (push_apply_event h i batch page ch repair s)"
proof -
  have "\<exists>d. promises (push_apply_event h i batch page ch repair s) = (alset i d (lv_deferreds s), lv_settled s, lv_timed_out s)"
    by (simp add: push_apply_event_def Let_def write_manual_apply_evidence_def promises_def) blast
  then obtain d where d: "lv_deferreds (push_apply_event h i batch page ch repair s) = alset i d (lv_deferreds s)"
    "lv_settled (push_apply_event h i batch page ch repair s) = lv_settled s"
    "lv_timed_out (push_apply_event h i batch page ch repair s) = lv_timed_out s" by (auto simp: promises_def)
  have "map fst (alset i d (lv_deferreds s)) = map fst (lv_deferreds s) @ [i]"
    using i by (simp add: keys_alset fresh_id_def)
  with ok i show ?thesis unfolding promises_ok_def d fresh_id_def by auto
qed

lemma good_timeout: "good s \<Longrightarrow> good (apply_timeout h v s)"
  by (rule good_keeps) (auto simp: apply_timeout_def Let_def split: option.split)

lemma good_reject: "good s \<Longrightarrow> good (snd (reject_deferred v reason s))"
  by (rule good_keeps) (auto simp: reject_deferred_def split: option.split)

lemma good_client_closes: "good s \<Longrightarrow> good (client_closes h n s)"
  by (rule good_keeps) (auto simp: client_closes_def Let_def)

lemma good_exit_timer: "good s \<Longrightarrow> good (exit_timer_fires h s)"
proof (rule good_keeps)
  have "event_ids (JObj [(''type'', JStr ''exit'')]) = {}" by (simp add: event_ids_def ty_is_def)
  then show "keeps UNIV (lv_bus s) (lv_bus (exit_timer_fires h s))"
    by (auto simp: exit_timer_fires_def Let_def intro!: keeps_enqueue)
qed

lemma good_on_bus: "good s \<Longrightarrow> (\<And>b. keeps UNIV b (f b)) \<Longrightarrow> good (on_bus f s)"
  by (rule good_keeps) simp_all

lemma promises_ok_client_closes [simp]: "promises_ok (client_closes h n s) = promises_ok s"
  by (rule promises_ok_same) (simp add: client_closes_def Let_def)

lemma promises_ok_exit_timer [simp]: "promises_ok (exit_timer_fires h s) = promises_ok s"
  by (rule promises_ok_same) (simp add: exit_timer_fires_def Let_def)

lemma server_run_ok: "server_run s \<Longrightarrow> good s \<and> promises_ok s"
proof (induction rule: server_run.induct)
  case (start s)
  then show ?case by (simp add: started_def promises_ok_def)
next
  case (request s h pub scripts rt r rep s')
  then show ?case using makes_serve [of s h pub scripts rt r rep s'] promises_ok_serve by (auto simp: makes_def)
qed (auto simp: good_push promises_ok_push good_timeout promises_ok_timeout good_reject promises_ok_reject
    good_client_closes good_exit_timer intro!: good_on_bus)

section \<open>Properties\<close>

text \<open>
  C2. The promise of an Apply event is settled at most once: in every reachable state
  no id was settled twice, a settled id waits no more, and at most 200 ids that ran
  out of time are remembered, all of them settled.
\<close>

theorem apply_settles_once:
  assumes "server_run s"
  shows "distinct (map fst (lv_settled s)) \<and> distinct (map fst (lv_deferreds s)) \<and>
    set (map fst (lv_settled s)) \<inter> set (map fst (lv_deferreds s)) = {} \<and>
    length (lv_timed_out s) \<le> 200 \<and> set (map fst (lv_timed_out s)) \<subseteq> set (map fst (lv_settled s))"
  using server_run_ok [OF assms] unfolding promises_ok_def distinct_append by blast

lemma sample_started: "started sample_server"
proof -
  have "restore_pending_events_from_store sample_host (empty_bus sample_store) = Inr (lv_bus sample_server)"
    by (simp add: sample_server_def restore_pending_events_from_store_def list_active_sessions_def session_ids_def
      sample_store_def empty_bus_def)
  then show ?thesis
    by (auto simp: started_def sample_server_def good_def known_def generates_def queue_keys_def empty_bus_def
      bus_ok_def queue_ok_def seqs_ok_def no_duplicates_def flights_ok_def)
qed

definition sample_dispatched :: server where
  "sample_dispatched = push_apply_event sample_host ''0a1b2c3d'' (JObj [(''entries'', JArr [])]) (JStr ''/'') JNull JNull sample_server"

lemma sample_dispatched_run: "server_run sample_dispatched"
  unfolding sample_dispatched_def
  by (rule server_run.dispatch [OF server_run.start [OF sample_started]])
    (simp add: fresh_id_def sample_server_def)

theorem apply_settles_once_witness:
  "distinct (map fst (lv_settled (apply_timeout sample_host (JStr ''0a1b2c3d'') sample_dispatched)))"
  using apply_settles_once [OF server_run.apply_over [OF sample_dispatched_run]] by blast

text \<open>
  C3. No ghost sessions: whatever request the server gets in any reachable state, no
  session is lost, and a new one comes from a browser event generate, steer or
  agent_phase with that id, or from an agent's reply that names it.
\<close>

theorem sessions_are_begun:
  assumes "server_run s" and "serve h pub scripts rt r s = Inr (rep, s')"
  shows "sessions s \<subseteq> sessions s' \<and>
    sessions s' - sessions s \<subseteq> (case rt of
      Events_post \<Rightarrow> {i. \<exists>msg. rq_json r = Some msg \<and> get msg ''id'' = JStr i \<and>
        in_vocab (get msg ''type'') [''generate'', ''steer'', ''agent_phase'']}
    | Poll_post \<Rightarrow> {i. \<exists>msg. rq_json r = Some msg \<and> get msg ''id'' = JStr i}
    | _ \<Rightarrow> {})"
proof -
  have "makes (made_by rt r) s s'" using server_run_ok [OF assms(1)] assms(2) by (blast intro: makes_serve)
  then have "sessions s \<subseteq> sessions s'" "sessions s' - sessions s \<subseteq> made_by rt r" by (auto simp: makes_def)
  then show ?thesis by (cases rt) (auto simp: made_by_def creating_def replied_def)
qed

theorem sessions_are_begun_witness:
  "sessions sample_server = sessions (snd (post_annotation (sample_request [(''token'', ''secret'')] JNull) sample_server))"
  using sessions_are_begun [OF server_run.start [OF sample_started], of undefined undefined None Annotation
      "sample_request [(''token'', ''secret'')] JNull"]
  by (cases "post_annotation (sample_request [(''token'', ''secret'')] JNull) sample_server") (auto simp: serve_def)

lemma valid_id_safe: "is_valid_id v \<Longrightarrow> \<exists>i. v = JStr i \<and> safe_id i \<and> truthy v"
proof -
  assume "is_valid_id v"
  then obtain i where i: "v = JStr i" "length i = 8" "list_all is_hex_lower i" using valid_id_JStr by blast
  have "safe_char c" if "is_hex_lower c" for c using that by (auto simp: is_hex_lower_def safe_char_def Let_def)
  with i(3) have "list_all safe_char i" by (auto simp: list_all_iff)
  with i(1,2) show ?thesis by (auto simp: safe_id_def)
qed

lemma append_to_store_succeeds:
  assumes "get ev ''id'' = JStr i" "safe_id i" "get ev ''type'' = JStr t" "t \<noteq> []"
  shows "\<exists>b'. append_to_store h ev b = Inr b'"
proof -
  have "i \<noteq> []" using assms(2) by (auto simp: safe_id_def)
  moreover obtain ps where "ev = JObj ps" using assms(1) by (cases ev) simp_all
  ultimately show ?thesis
    using assms by (auto simp: append_to_store_def append_event_def normalize_event_def safe_session_id_def split: prod.splits)
qed

lemma phase_succeeds:
  assumes "safe_id i" "''id'' \<notin> set (map fst ds)" "''type'' \<notin> set (map fst ds)"
  shows "\<exists>b'. record_agent_phase h (JStr i) ph ds b = Inr b'"
proof -
  let ?ev = "JObj (spread [(''type'', JStr ''agent_phase''), (''id'', JStr i), (''phase'', ph), (''at'', jint (now_of h))] ds)"
  have "\<exists>c. append_to_store h ?ev b = Inr c"
    using assms field_spread by (intro append_to_store_succeeds [of _ i "''agent_phase''"]) auto
  then show ?thesis by (auto simp: record_agent_phase_def Let_def)
qed

lemma validators_check_ids:
  "validate_generate msg = None \<Longrightarrow> is_valid_id (get msg ''id'')"
  "validate_accept msg = None \<Longrightarrow> is_valid_id (get msg ''id'')"
  "validate_checkpoint msg = None \<Longrightarrow> is_valid_id (get msg ''id'')"
  "validate_agent_phase msg = None \<Longrightarrow> is_valid_id (get msg ''id'')"
  "validate_mount_ack msg = None \<Longrightarrow> is_valid_id (get msg ''id'')"
  "validate_mount_failure msg = None \<Longrightarrow> is_valid_id (get msg ''id'')"
  "validate_steer msg = None \<Longrightarrow> is_valid_id (get msg ''id'')"
  "validate_carbonize_cleanup msg = None \<Longrightarrow> is_valid_id (get msg ''id'')"
  by (auto simp: validate_generate_def validate_accept_def validate_checkpoint_def validate_agent_phase_def
      validate_mount_ack_def validate_mount_failure_def validate_steer_def validate_carbonize_cleanup_def Let_def
      split: if_splits)

lemma accepted_ids:
  assumes "validate_event msg = Inr None"
    and "\<not> ty_is msg ''exit''" "\<not> ty_is msg ''prefetch''" "\<not> ty_is msg ''manual_edits''"
  shows "is_valid_id (get msg ''id'')"
  using assms by (simp add: validate_event_def ty_is_def Let_def split: if_splits) (blast intro: validators_check_ids)+

lemma agent_phase_accepted:
  assumes "rq_json r = Some msg" and "token_ok s (get msg ''token'')"
    and "ty_is msg ''agent_phase''" and "validate_event msg = Inr None"
  shows "\<exists>s' i. post_events h r s = Inr (ok_reply, s') \<and> get msg ''id'' = JStr i \<and> i \<in> sessions s'"
proof -
  have "is_valid_id (get msg ''id'')" using assms(3,4) by (intro accepted_ids) (simp_all add: ty_is_def)
  then obtain i where i: "get msg ''id'' = JStr i" "safe_id i" "truthy (JStr i)" using valid_id_safe by metis
  define ds where "ds = (if is_finite (get msg ''durationMs'') then [(''durationMs'', get msg ''durationMs'')] else []) @
     [(''owner'', if is_str (get msg ''owner'') then get msg ''owner'' else JUndef)]"
  have ds: "''id'' \<notin> set (map fst ds)" "''type'' \<notin> set (map fst ds)"
    unfolding ds_def by (cases "is_finite (get msg ''durationMs'')"; simp)+
  obtain b where b: "record_agent_phase h (JStr i) (get msg ''phase'') ds (lv_bus s) = Inr b"
    using phase_succeeds [OF i(2) ds] by blast
  then have "agent_phase_event h msg s = Inr (s\<lparr>lv_bus := b\<rparr>)" by (simp add: agent_phase_event_def i(1) ds_def [symmetric])
  moreover have "getE msg ''token'' = Inr (get msg ''token'')" using i(1) by (cases msg) (simp_all add: getE_def)
  ultimately have "post_events h r s = Inr (ok_reply, s\<lparr>lv_bus := b\<rparr>)"
    using assms by (simp add: post_events_def ty_is_def)
  moreover have "i \<in> sessions (s\<lparr>lv_bus := b\<rparr>)"
    using record_agent_phase_stored [OF b ds(1) i(3)] by (auto simp: sessions_def)
  ultimately show ?thesis using i(1) by blast
qed

text \<open>
  The gate has a hole: a valid agent_phase event is accepted for an id the store
  does not know, and begins that session's journal.
\<close>

theorem agent_phase_begins_a_session:
  assumes "rq_json r = Some msg" and "token_ok s (get msg ''token'')"
    and "ty_is msg ''agent_phase''" and "validate_event msg = Inr None"
  shows "\<exists>s' i. post_events h r s = Inr (ok_reply, s') \<and> get msg ''id'' = JStr i \<and> i \<in> sessions s'"
  using assms by (rule agent_phase_accepted)

definition sample_phase :: jsval where
  "sample_phase = JObj [(''token'', JStr ''secret''), (''type'', JStr ''agent_phase''), (''id'', JStr ''0a1b2c3d''),
     (''phase'', JStr ''picked_up'')]"

theorem agent_phase_begins_a_session_witness:
  "''0a1b2c3d'' \<notin> sessions sample_server \<and>
   (\<exists>s'. post_events sample_host (sample_request [] sample_phase) sample_server = Inr (ok_reply, s') \<and>
     ''0a1b2c3d'' \<in> sessions s')"
proof
  show "''0a1b2c3d'' \<notin> sessions sample_server"
    by (simp add: sessions_def sample_server_def stored_def empty_bus_def sample_store_def)
  have "\<exists>s' i. post_events sample_host (sample_request [] sample_phase) sample_server = Inr (ok_reply, s') \<and>
      get sample_phase ''id'' = JStr i \<and> i \<in> sessions s'"
    by (rule agent_phase_begins_a_session)
      (simp_all add: sample_request_def sample_phase_def token_ok_def sample_server_def ty_is_def validate_event_def
        validate_agent_phase_def is_valid_id_def id_pattern_def is_hex_lower_def in_vocab_def agent_phases_def)
  then show "\<exists>s'. post_events sample_host (sample_request [] sample_phase) sample_server = Inr (ok_reply, s') \<and>
     ''0a1b2c3d'' \<in> sessions s'"
    by (auto simp: sample_phase_def)
qed

lemma phase_once_succeeds:
  assumes "safe_id i" "''id'' \<notin> set (map fst ds)" "''type'' \<notin> set (map fst ds)"
  shows "\<exists>s'. phase_once h (JStr i) ds reached ph s = Inr s'"
proof -
  have "\<exists>s'. phase_step h (JStr i) ph ds s1 = Inr s'" for s1
    using phase_succeeds [OF assms, of h "JStr ph" "lv_bus s1"] by (auto simp: phase_step_def)
  then show ?thesis by (simp add: phase_once_def split: prod.split)
qed

lemma checkpoint_succeeds:
  assumes "ty_is ev ''checkpoint'' \<Longrightarrow> \<exists>i. get ev ''id'' = JStr i \<and> safe_id i"
  shows "\<exists>s'. record_generation_checkpoint h ev s = Inr s'"
proof (cases "truthy (get ev ''id'') \<and> ty_is ev ''checkpoint''")
  case True
  with assms obtain i where i: "get ev ''id'' = JStr i" "safe_id i" by blast
  define ds where "ds = [(''arrivedVariants'', js_or (to_number (get ev ''arrivedVariants'')) (JNum 0)),
    (''expectedVariants'', js_or (to_number (get ev ''expectedVariants'')) (JNum 0)),
    (''checkpointReason'', js_or (get ev ''reason'') JNull), (''at'', jint (now_of h))]"
  have once: "\<exists>s'. phase_once h (JStr i) ds reached ph s1 = Inr s'" for reached ph s1
    by (rule phase_once_succeeds [OF i(2)]) (simp_all add: ds_def)
  have "\<exists>s'. bindE (phase_once h (JStr i) ds True ''first_reviewable'' s1) (\<lambda>s.
      bindE (phase_once h (JStr i) ds c2 ''second_reviewable'' s) (\<lambda>s.
      phase_once h (JStr i) ds c3 ''all_variants_ready'' s)) = Inr s'" for s1 c2 c3
    using once by (metis bindE_simps(2))
  then show ?thesis
    using i(1) by (auto simp: record_generation_checkpoint_def Let_def ds_def [symmetric] split: prod.split)
qed (auto simp: record_generation_checkpoint_def)

lemma journal_succeeds:
  assumes "ty_is msg ''checkpoint'' \<Longrightarrow> \<exists>i. get msg ''id'' = JStr i \<and> safe_id i"
  shows "\<exists>rep s'. journal_event h msg s = Inr (rep, s')"
proof -
  have "\<exists>s'. after_append h msg missed s1 = Inr s'" for missed s1
  proof -
    define s2 where "s2 = (if ty_is msg ''accept'' \<or> ty_is msg ''discard''
      then on_bus (\<lambda>b. snd (retire_pending_generation h (get msg ''id'') b)) s1 else s1)"
    obtain s3 where "record_generation_checkpoint h msg s2 = Inr s3" using checkpoint_succeeds [OF assms] by blast
    then show ?thesis unfolding after_append_def s2_def [symmetric] Let_def by simp
  qed
  then have "\<exists>rep s'. bindE (after_append h msg missed s1) (\<lambda>s. Inr (ok_reply, s)) = Inr (rep, s')" for missed s1
    by (metis bindE_simps(2))
  then show ?thesis by (auto simp: journal_event_def split: prod.split sum.split)
qed

definition unsafe_id :: "jsval \<Rightarrow> bool" where
  "unsafe_id v \<longleftrightarrow> is_str v \<and> truthy v \<and> \<not> safe_id (str_of v)"

lemma unknown_session_throws: "unknown_session msg s = Inl e \<Longrightarrow> unsafe_id (get msg ''id'')"
  by (auto simp: unknown_session_def has_session_def safe_session_id_def bindE_Inl_iff unsafe_id_def split: if_splits)

lemma validate_event_throws: "validate_event msg = Inl e \<Longrightarrow> ty_is msg ''manual_edits''"
  by (auto simp: validate_event_def ty_is_def Let_def split: if_splits)

text \<open>
  The server survives every browser event but two kinds: a body that is null, and
  an exit or prefetch event whose id names no journal file. Those throw outside
  every handler and end the process.
\<close>

theorem browser_events_that_end_the_server:
  "(\<exists>err. post_events h r s = Inl err) \<longleftrightarrow>
   (\<exists>msg. rq_json r = Some msg \<and>
     (nullish msg \<or> token_ok s (get msg ''token'') \<and> validate_event msg = Inr None \<and>
       (ty_is msg ''exit'' \<or> ty_is msg ''prefetch'') \<and> unsafe_id (get msg ''id'')))"
proof (cases "rq_json r")
  case None
  then show ?thesis by (simp add: post_events_def)
next
  case (Some msg)
  show ?thesis
  proof (cases "nullish msg \<or> \<not> token_ok s (get msg ''token'') \<or> ty_is msg ''manual_edits'' \<or>
      ty_is msg ''manual_edit_apply''")
    case True
    with Some show ?thesis by (auto simp: post_events_def getE_def ty_is_def)
  next
    case False
    have verdict: "\<exists>v. validate_event msg = Inr v"
      using False validate_event_throws by (cases "validate_event msg") auto
    show ?thesis
    proof (cases "validate_event msg = Inr None")
      case ok: True
      let ?run = "if ty_is msg ''agent_phase'' then bindE (agent_phase_event h msg s) (\<lambda>s. Inr (ok_reply, s))
         else bindE (unknown_session msg s) (\<lambda>unknown.
           if unknown then Inr (Json 404 (error_body ''unknown_session'' [(''id'', get msg ''id'')]), s)
           else journal_event h msg s)"
      have run: "post_events h r s = ?run" using Some False ok by (simp add: post_events_def getE_def)
      have known_id: "\<exists>i. get msg ''id'' = JStr i \<and> safe_id i" if "\<not> ty_is msg ''exit''" "\<not> ty_is msg ''prefetch''"
        using accepted_ids [OF ok that] False valid_id_safe by blast
      show ?thesis
      proof (cases "ty_is msg ''agent_phase''")
        case True
        with Some False ok have "\<exists>s' i. post_events h r s = Inr (ok_reply, s') \<and> get msg ''id'' = JStr i \<and> i \<in> sessions s'"
          by (intro agent_phase_accepted) auto
        with Some True False show ?thesis by (auto simp: ty_is_def)
      next
        case other: False
        show ?thesis
        proof (cases "unsafe_id (get msg ''id'')")
          case True
          then have ep: "ty_is msg ''exit'' \<or> ty_is msg ''prefetch''" using known_id unfolding unsafe_id_def by (metis str_of.simps(1))
          with True have "\<exists>err. unknown_session msg s = Inl err"
            by (auto simp: unknown_session_def has_session_def safe_session_id_def unsafe_id_def ty_is_def
              in_vocab_def session_creating_event_types_def)
          with run other have "\<exists>err. post_events h r s = Inl err" by auto
          with Some ok False True ep show ?thesis by auto
        next
          case safe: False
          then obtain u where "unknown_session msg s = Inr u"
            using unknown_session_throws by (cases "unknown_session msg s") auto
          moreover obtain rep s' where "journal_event h msg s = Inr (rep, s')"
            using journal_succeeds [of msg h s] known_id by (auto simp: ty_is_def)
          ultimately have "\<nexists>err. post_events h r s = Inl err" unfolding run using other by simp
          with Some safe False show ?thesis by auto
        qed
      qed
    next
      case False
      with verdict obtain e where "validate_event msg = Inr (Some e)" by auto
      with Some \<open>\<not> (nullish msg \<or> _)\<close> show ?thesis by (auto simp: post_events_def getE_def)
    qed
  qed
qed

end
