(* ===== verification/Live_Properties.thy ===== *)
theory Live_Properties
  imports Live_Promises
begin

text \<open>
  What a client of the live server may rely on across its parts: a result that
  comes too late restores the sources, a source route serves files of the
  project only, an upload stays in its directory and within its size.
\<close>

section \<open>Late results\<close>

lemma pushed_deferred:
  "get_deferred (JStr i) (push_apply_event h i batch page ch repair s) = Some d \<Longrightarrow>
   ad_batch d = batch \<and> ad_saved d = snapshot_apply_event_files (lv_tree s) (lv_root s) batch"
  "\<exists>d. get_deferred (JStr i) (push_apply_event h i batch page ch repair s) = Some d"
  "lv_root (push_apply_event h i batch page ch repair s) = lv_root s"
  "lv_token (push_apply_event h i batch page ch repair s) = lv_token s"
  "lv_timed_out (push_apply_event h i batch page ch repair s) = lv_timed_out s"
  by (auto simp: push_apply_event_def Let_def write_manual_apply_evidence_def get_deferred_def map_get_def
      on_bus_def record_manual_edit_activity_def)

lemma timeout_leaves_tombstone:
  assumes "get_deferred (JStr i) s = Some d" "i \<noteq> []" "i \<notin> set (map fst (lv_timed_out s))"
  shows "get_deferred (JStr i) (apply_timeout h (JStr i) s) = None"
    "map_get (lv_timed_out (apply_timeout h (JStr i) s)) (JStr i) = Some \<lparr>tm_batch = ad_batch d, tm_saved = ad_saved d\<rparr>"
    "lv_tree (apply_timeout h (JStr i) s) = lv_tree s" "lv_root (apply_timeout h (JStr i) s) = lv_root s"
    "lv_token (apply_timeout h (JStr i) s) = lv_token s"
proof -
  have frame: "lv_tree (remove_manual_apply_evidence v s) = lv_tree s" "lv_root (remove_manual_apply_evidence v s) = lv_root s"
    "lv_token (remove_manual_apply_evidence v s) = lv_token s" for v s
    by (simp_all add: remove_manual_apply_evidence_def split: option.split)
  show "get_deferred (JStr i) (apply_timeout h (JStr i) s) = None"
    using assms(1) by (simp add: apply_timeout_def Let_def get_deferred_def map_get_def)
  show "lv_tree (apply_timeout h (JStr i) s) = lv_tree s" "lv_root (apply_timeout h (JStr i) s) = lv_root s"
    "lv_token (apply_timeout h (JStr i) s) = lv_token s"
    using assms(1) by (simp_all add: apply_timeout_def Let_def frame settle_def record_manual_edit_activity_def on_bus_def
        tombstone_timed_out_apply_id_def forget_deferred_def)
  let ?d = "\<lparr>tm_batch = ad_batch d, tm_saved = ad_saved d\<rparr>"
  let ?m = "alset i ?d (lv_timed_out s)"
  have app: "alset i ?d m = m @ [(i, ?d)]" if "i \<notin> set (map fst m)" for m :: "(string \<times> tombstone) list"
    using that by (induction i ?d m rule: alset.induct) auto
  have "lv_timed_out (apply_timeout h (JStr i) s) = (if length ?m \<le> 200 then ?m else tl ?m)"
    using assms(1,2) by (simp add: apply_timeout_def Let_def tombstone_timed_out_apply_id_def)
  moreover have "map_of (tl ?m) i = Some ?d" if "\<not> length ?m \<le> 200"
  proof -
    have "lv_timed_out s \<noteq> []" using that by auto
    then have "tl ?m = tl (lv_timed_out s) @ [(i, ?d)]" using app [OF assms(3)] by simp
    moreover have "map_of (tl (lv_timed_out s)) i = None"
      using assms(3) by (cases "lv_timed_out s") (auto simp: map_of_eq_None_iff)
    ultimately show ?thesis by (simp add: map_add_def)
  qed
  ultimately show "map_get (lv_timed_out (apply_timeout h (JStr i) s)) (JStr i) = Some ?d"
    by (simp add: map_get_def)
qed


definition late_reply :: jsval where
  "late_reply = JObj [(''token'', JStr ''secret''), (''id'', JStr ''0a1b2c3d''), (''type'', JStr ''done''),
     (''data'', JObj [(''files'', JArr [])])]"

definition edited_batch :: jsval where
  "edited_batch = JObj [(''entries'', JArr [JObj [(''id'', JStr ''e''), (''ops'', JArr
     [JObj [(''sourceHint'', JObj [(''file'', JStr ''a'')])]])]])]"

lemma edited_files: "collect_manual_apply_files ''/app'' edited_batch [] = [''a'']"
  by code_simp

lemma edited_path: "resolve ''/app'' ''a'' = ''/app/a''"
  by code_simp


section \<open>Files the routes read and write\<close>

text \<open>
  C35. The source route serves a file of the project only: what a 200 answer holds is
  the text of a readable file strictly below the root, whatever the path asked for.
\<close>

theorem source_route_is_confined:
  assumes "is_absolute (lv_root s)" and "get_source r s = Plain 200 body"
  shows "\<exists>down. down \<noteq> [] \<and> list_all plain_seg down \<and>
    file_at (lv_tree s) (path_of (resolve_segs (lv_root s) (lv_root s) @ down)) = Some body"
proof -
  from assms(2) obtain rel where rel: "project_file (lv_root s) (str_of (param r ''path'')) = Some rel"
    and found: "file_at (lv_tree s) (resolve (lv_root s) (str_of (param r ''path''))) = Some body"
    by (auto simp: get_source_def unauthorized_text_def Let_def split: if_splits option.splits)
  obtain down where down: "down \<noteq> []" "resolve_segs (lv_root s) (str_of (param r ''path'')) =
      resolve_segs (lv_root s) (lv_root s) @ down"
    using project_file_below [OF rel] by blast
  have "list_all plain_seg down"
    using resolve_segs_plain [of "lv_root s" "str_of (param r ''path'')"] down(2) by (simp add: list_all_iff)
  with down found show ?thesis by (auto simp: resolve_def)
qed

theorem source_route_is_confined_witness:
  "\<exists>down. down \<noteq> [] \<and> list_all plain_seg down \<and>
    file_at (lv_tree sample_server) (path_of (resolve_segs ''/app'' ''/app'' @ down)) = Some ''text''"
proof -
  have "get_source (sample_request [(''token'', ''secret''), (''path'', ''./a'')] JNull) sample_server = Plain 200 ''text''"
    by code_simp
  from source_route_is_confined [OF _ this] show ?thesis by (simp add: sample_server_def is_absolute_def)
qed

lemma upload_fold:
  assumes "\<not> up_aborted u" "up_total u = length (concat (up_chunks u))" "up_total u \<le> max_annotation_bytes"
  shows "if up_total u + length (concat cs) \<le> max_annotation_bytes
    then \<not> up_aborted (fold upload_chunk cs u) \<and> up_chunks (fold upload_chunk cs u) = up_chunks u @ cs
    else up_aborted (fold upload_chunk cs u)"
  using assms
proof (induction cs arbitrary: u)
  case (Cons c cs)
  have stop: "up_aborted (fold upload_chunk cs v)" if "up_aborted v" for v
    using that by (induction cs arbitrary: v) (simp_all add: upload_chunk_def)
  show ?case
  proof (cases "up_total u + length c > max_annotation_bytes")
    case True
    with Cons.prems stop show ?thesis by (auto simp: upload_chunk_def Let_def)
  next
    case False
    let ?u = "upload_chunk c u"
    have u: "\<not> up_aborted ?u" "up_total ?u = up_total u + length c" "up_chunks ?u = up_chunks u @ [c]"
      using False Cons.prems(1) by (simp_all add: upload_chunk_def Let_def)
    have "if up_total ?u + length (concat cs) \<le> max_annotation_bytes
      then \<not> up_aborted (fold upload_chunk cs ?u) \<and> up_chunks (fold upload_chunk cs ?u) = up_chunks ?u @ cs
      else up_aborted (fold upload_chunk cs ?u)"
      using Cons.prems(2) False u by (intro Cons.IH) simp_all
    then show ?thesis unfolding u by (simp add: add.assoc)
  qed
qed simp

lemma upload_body_spec:
  "up_aborted (upload_body cs) \<longleftrightarrow> length (concat cs) > max_annotation_bytes"
  "length (concat cs) \<le> max_annotation_bytes \<Longrightarrow> up_chunks (upload_body cs) = cs"
  using upload_fold [of "\<lparr>up_total = 0, up_aborted = False, up_chunks = []\<rparr>" cs]
  by (simp_all add: upload_body_def max_annotation_bytes_def split: if_splits)

text \<open>
  C36. An upload changes one file at most: the screenshot named by a plain id in the
  session's directory. It then holds exactly the bytes sent, at most 10 MiB of
  them; a longer body is refused and changes nothing.
\<close>

theorem uploads_are_confined:
  assumes "post_annotation r s = (rep, s')"
  shows "s' = s \<or> (\<exists>dir i. lv_session_dir s = Some dir \<and> i \<noteq> [] \<and> length i \<le> 64 \<and> list_all safe_char i \<and>
    length (concat (rq_chunks r)) \<le> 10485760 \<and>
    rep = Json 200 (JObj [(''ok'', JBool True), (''path'', JStr (dir @ ''/'' @ i @ ''.png''))]) \<and>
    s' = s\<lparr>lv_tree := (lv_tree s)\<lparr>tr_files :=
      alset (dir @ ''/'' @ i @ ''.png'') (concat (rq_chunks r)) (tr_files (lv_tree s))\<rparr>\<rparr>)"
proof (cases "s' = s")
  case False
  let ?i = "param r ''eventId''"
  from False assms obtain dir where dir: "lv_session_dir s = Some dir" and i: "valid_annotation_id ?i"
    and u: "\<not> up_aborted (upload_body (rq_chunks r))"
    and w: "tr_writable (lv_tree s) (dir @ ''/'' @ str_of ?i @ ''.png'')"
    and rep: "rep = Json 200 (JObj [(''ok'', JBool True), (''path'', JStr (dir @ ''/'' @ str_of ?i @ ''.png''))])"
    and s': "s' = s\<lparr>lv_tree := (lv_tree s)\<lparr>tr_files := alset (dir @ ''/'' @ str_of ?i @ ''.png'')
      (concat (up_chunks (upload_body (rq_chunks r)))) (tr_files (lv_tree s))\<rparr>\<rparr>"
    by (auto simp: post_annotation_def write_file_def Let_def split: if_splits option.splits)
  have n: "length (concat (rq_chunks r)) \<le> max_annotation_bytes" using u unfolding upload_body_spec(1) by simp
  have "str_of ?i \<noteq> [] \<and> length (str_of ?i) \<le> 64 \<and> list_all safe_char (str_of ?i)"
    using i by (auto simp: valid_annotation_id_def)
  moreover have "length (concat (rq_chunks r)) \<le> 10485760" using n by (simp add: max_annotation_bytes_def)
  moreover have "s' = s\<lparr>lv_tree := (lv_tree s)\<lparr>tr_files := alset (dir @ ''/'' @ str_of ?i @ ''.png'')
      (concat (rq_chunks r)) (tr_files (lv_tree s))\<rparr>\<rparr>"
    using s' unfolding upload_body_spec(2) [OF n] .
  ultimately show ?thesis using dir rep by blast
qed simp

theorem uploads_are_confined_witness:
  "\<exists>s'. post_annotation (sample_request [(''token'', ''secret''), (''eventId'', ''shot'')] JNull) sample_server =
      (Json 200 (JObj [(''ok'', JBool True),
        (''path'', JStr ''/app/.impeccable/live/annotations/session-1/shot.png'')]), s') \<and>
    file_at (lv_tree s') ''/app/.impeccable/live/annotations/session-1/shot.png'' = Some ''x''"
proof -
  let ?r = "sample_request [(''token'', ''secret''), (''eventId'', ''shot'')] JNull"
  obtain rep s' where run: "post_annotation ?r sample_server = (rep, s')" by (cases "post_annotation ?r sample_server")
  have up: "concat (rq_chunks ?r) = ''x''" by (simp add: sample_request_def)
  have "\<not> up_aborted (upload_body [''x''])" "up_chunks (upload_body [''x'']) = [''x'']"
    using upload_body_spec [of "[''x'']"] by (simp_all add: max_annotation_bytes_def)
  then have "rep = Json 200 (JObj [(''ok'', JBool True), (''path'', JStr ''/app/.impeccable/live/annotations/session-1/shot.png'')])"
    "s' = sample_server\<lparr>lv_tree := (lv_tree sample_server)\<lparr>tr_files :=
      alset ''/app/.impeccable/live/annotations/session-1/shot.png'' ''x'' (tr_files (lv_tree sample_server))\<rparr>\<rparr>"
    using run by (auto simp: post_annotation_def sample_request_def sample_server_def sample_tree_of_def token_ok_def
      param_def valid_annotation_id_def safe_char_def lower_char_def write_file_def Let_def)
  with uploads_are_confined [OF run] run show ?thesis by (auto simp: file_at_def)
qed

end
