(* ===== verification/Js_Match.thy ===== *)
theory Js_Match
  imports Manual_Apply
begin

text \<open>
  The fixed regular expressions of the copy-edit scripts as functions on a
  position, which is the character before it and the text after it. \<open>find_match\<close>
  tries every position from the left, as an unanchored expression does. With them:
  the header test of \<open>lib/is-generated.mjs\<close>, and the project files that are no
  build output.
\<close>

section \<open>Positions\<close>

definition is_word :: "char \<Rightarrow> bool" where
  \<comment> \<open>\<open>\w\<close>\<close>
  "is_word c = (let n = of_char c :: nat in
     48 \<le> n \<and> n \<le> 57 \<or> 65 \<le> n \<and> n \<le> 90 \<or> 97 \<le> n \<and> n \<le> 122 \<or> n = 95)"

definition at_boundary :: "char option \<Rightarrow> string \<Rightarrow> bool" where
  \<comment> \<open>\<open>\b\<close>\<close>
  "at_boundary before after =
    ((case before of None \<Rightarrow> False | Some c \<Rightarrow> is_word c) \<noteq> (case after of [] \<Rightarrow> False | c # _ \<Rightarrow> is_word c))"

fun find_match :: "(char option \<Rightarrow> string \<Rightarrow> 'a option) \<Rightarrow> char option \<Rightarrow> string \<Rightarrow> 'a option" where
  "find_match m before [] = m before []"
| "find_match m before (c # s) =
    (case m before (c # s) of Some x \<Rightarrow> Some x | None \<Rightarrow> find_match m (Some c) s)"

definition matches :: "(char option \<Rightarrow> string \<Rightarrow> 'a option) \<Rightarrow> string \<Rightarrow> bool" where
  "matches m s = (find_match m None s \<noteq> None)"

definition strip :: "string \<Rightarrow> string \<Rightarrow> string option" where
  \<comment> \<open>what follows a literal\<close>
  "strip w s = (if starts_with s w then Some (drop (length w) s) else None)"

definition strip_ci :: "string \<Rightarrow> string \<Rightarrow> string option" where
  "strip_ci w s = (if starts_with (map lower_char s) (map lower_char w) then Some (drop (length w) s) else None)"

lemma strip_ci_code [code]:
  "strip_ci [] s = Some s" "strip_ci (d # w) [] = None"
  "strip_ci (d # w) (c # s) = (if lower_char c = lower_char d then strip_ci w s else None)"
  by (simp_all add: strip_ci_def starts_with_def)

definition skip_ws :: "string \<Rightarrow> string" where
  \<comment> \<open>\<open>\s*\<close> before something that is no white space\<close>
  "skip_ws s = dropWhile is_ws s"

definition skip_ws1 :: "string \<Rightarrow> string option" where
  "skip_ws1 s = (case s of [] \<Rightarrow> None | c # t \<Rightarrow> if is_ws c then Some (skip_ws t) else None)"

definition word_end :: "string \<Rightarrow> string option" where
  \<comment> \<open>\<open>\b\<close> after a word character\<close>
  "word_end s = (if at_boundary (Some CHR ''a'') s then Some s else None)"

section \<open>Generated files\<close>

definition header_scan_bytes :: nat where "header_scan_bytes = 300"

definition at_generated :: "char option \<Rightarrow> string \<Rightarrow> string option" where
  "at_generated before s = Option.bind (strip_ci ''@generated'' s) word_end"

definition generated_file :: "char option \<Rightarrow> string \<Rightarrow> string option" where
  "generated_file before s = (if \<not> at_boundary before s then None
     else Option.bind (strip ''GENERATED'' s) (\<lambda>s. Option.bind (skip_ws1 s) (\<lambda>s.
       Option.bind (strip ''FILE'' s) word_end)))"

definition auto_generated :: "char option \<Rightarrow> string \<Rightarrow> string option" where
  "auto_generated before s = (if \<not> at_boundary before s then None
     else Option.bind (strip_ci ''AUTO'' s) (\<lambda>s.
       Option.bind (strip_ci ''GENERATED'' (case strip ''-'' s of Some t \<Rightarrow> t | None \<Rightarrow> s)) word_end))"

definition do_not_edit :: "char option \<Rightarrow> string \<Rightarrow> string option" where
  "do_not_edit before s = (if \<not> at_boundary before s then None
     else Option.bind (strip_ci ''DO'' s) (\<lambda>s. Option.bind (skip_ws1 s) (\<lambda>s.
       Option.bind (strip_ci ''NOT'' s) (\<lambda>s. Option.bind (skip_ws1 s) (\<lambda>s.
         Option.bind (strip_ci ''EDIT'' s) word_end)))))"

definition has_generated_header :: "tree \<Rightarrow> string \<Rightarrow> bool" where
  "has_generated_header t p =
    (case file_at t p of None \<Rightarrow> False
     | Some text \<Rightarrow> tr_readable t p \<and> (let head = take header_scan_bytes text in
         matches at_generated head \<or> matches generated_file head \<or> matches auto_generated head \<or> matches do_not_edit head))"

text \<open>\<open>ignored\<close> is what \<open>git check-ignore\<close> says of an absolute path.\<close>

definition is_generated_file :: "(string \<Rightarrow> bool) \<Rightarrow> tree \<Rightarrow> string \<Rightarrow> bool" where
  "is_generated_file ignored t absPath = (ignored absPath \<or> has_generated_header t absPath)"

lemma header_examples:
  "matches do_not_edit ''// do not  edit''" "\<not> matches do_not_edit ''redo not edit''"
  "matches auto_generated ''/* AutoGenerated */''" "\<not> matches generated_file ''GENERATED FILES''"
  by code_simp+

end
