(* ===== verification/Copy_Agent.thy ===== *)
theory Copy_Agent
  imports Js_Match
begin

text \<open>
  The agent that applies a batch of staged copy edits,
  \<open>live-copy-edit-agent.mjs\<close>: which runner is chosen, the form its result is
  brought into, and the checks of the files it touched. What a runner replies and
  does to the files while the server waits is an argument, as are the parsers the
  checks call (\<open>JSON.parse\<close>, babel, \<open>node --check\<close>, the project's own script).
\<close>

section \<open>Choosing a runner\<close>

definition copy_agent_mode :: "jsval \<Rightarrow> string" where
  \<comment> \<open>\<open>IMPECCABLE_LIVE_COPY_AGENT\<close>\<close>
  "copy_agent_mode v = map lower_char (js_trim (js_string (js_or v (JStr ''auto''))))"

definition choose_copy_edit_agent :: "jsval \<Rightarrow> (string \<Rightarrow> bool) \<Rightarrow> (string \<Rightarrow> bool) \<Rightarrow> bool \<Rightarrow> string option" where
  "choose_copy_edit_agent env commandExists authCheck chatAvailable =
    (let m = copy_agent_mode env in
     if m \<in> {''0'', ''false'', ''off'', ''none''} then None
     else if m = ''mock'' then Some ''mock''
     else if m = ''chat'' then (if chatAvailable then Some ''chat'' else None)
     else if m = ''codex'' then (if commandExists ''codex'' then Some ''codex'' else None)
     else if m = ''claude'' then (if commandExists ''claude'' then Some ''claude'' else None)
     else if m \<noteq> ''auto'' then None
     else if authCheck ''codex'' then Some ''codex''
     else if authCheck ''claude'' then Some ''claude''
     else if chatAvailable then Some ''chat'' else None)"

section \<open>Results\<close>

definition normal_status :: "jsval \<Rightarrow> string" where
  "normal_status result =
    (if get result ''status'' = JStr ''partial'' then ''partial''
     else if get result ''status'' = JStr ''error'' then ''error'' else ''done'')"

definition normal_failed_item :: "jsval \<Rightarrow> jsval" where
  "normal_failed_item item = JObj [
     (''entryId'', js_or (get item ''entryId'') (js_or (get item ''id'') JNull)),
     (''reason'', js_or (get item ''reason'') (js_or (get item ''message'') (JStr ''failed''))),
     (''candidates'', arr_or_empty (get item ''candidates''))]"

definition normal_warning :: "jsval \<Rightarrow> jsval" where
  "normal_warning w = (if is_str w then JObj [(''message'', w)] else w)"

definition normalize_batch_result :: "jsval \<Rightarrow> jsval" where
  "normalize_batch_result result = JObj [
     (''status'', JStr (normal_status result)), (''message'', js_or (get result ''message'') JNull),
     (''appliedEntryIds'', JArr (filter is_str (elems (get result ''appliedEntryIds'')))),
     (''failed'', JArr (map normal_failed_item (filter truthy (elems (get result ''failed''))))),
     (''files'', JArr (filter is_str (elems (get result ''files'')))),
     (''notes'', JArr (filter is_str (elems (get result ''notes'')))),
     (''warnings'', JArr (filter (\<lambda>w. truthy w \<and> is_objty w)
        (map normal_warning (filter truthy (elems (get result ''warnings''))))))]"

definition valid_agent_status :: "jsval \<Rightarrow> bool" where
  "valid_agent_status v = (get v ''status'' \<in> {JStr ''done'', JStr ''partial'', JStr ''error''})"

definition parse_copy_edit_batch_result :: "jsval option \<Rightarrow> jsval option" where
  \<comment> \<open>of what \<open>parseCopyEditAgentResult\<close> finds in the text\<close>
  "parse_copy_edit_batch_result parsed =
    (case parsed of None \<Rightarrow> None
     | Some v \<Rightarrow> if valid_agent_status v then Some (normalize_batch_result v) else None)"

definition mock_batch_result :: "jsval \<Rightarrow> jsval" where
  \<comment> \<open>when the environment gives no result of its own\<close>
  "mock_batch_result batch = JObj [
     (''status'', JStr ''done''),
     (''appliedEntryIds'', JArr (filter truthy (map (\<lambda>e. get e ''id'') (entries_of batch)))),
     (''failed'', JArr []), (''files'', JArr []), (''notes'', JArr [JStr ''mock copy-edit batch result''])]"

text \<open>
  One call of the agent: the reply is an error, nothing a result can be read
  from (\<open>None\<close>), or the object read; a chat agent's object comes from its poll
  reply, a runner's from its output.
\<close>

definition run_copy_edit_batch_agent :: "string option \<Rightarrow> jsval \<Rightarrow> string + jsval option \<Rightarrow> string + jsval" where
  "run_copy_edit_batch_agent provider batch reply =
    (if provider = Some ''mock'' then
       (case reply of Inl e \<Rightarrow> Inl e
        | Inr None \<Rightarrow> Inr (mock_batch_result batch)
        | Inr (Some v) \<Rightarrow> (case parse_copy_edit_batch_result (Some v) of
            None \<Rightarrow> Inl ''Invalid IMPECCABLE_LIVE_COPY_AGENT_MOCK_RESULT JSON'' | Some r \<Rightarrow> Inr r))
     else if provider = Some ''chat'' then
       (case reply of Inl e \<Rightarrow> Inl e
        | Inr raw \<Rightarrow> Inr (normalize_batch_result (case raw of None \<Rightarrow> JObj [] | Some v \<Rightarrow> js_or v (JObj []))))
     else if provider = None then Inl ''No live copy-edit AI runner is available.''
     else if provider \<in> {Some ''codex'', Some ''claude''} then
       (case reply of Inl e \<Rightarrow> Inl e
        | Inr raw \<Rightarrow> (case parse_copy_edit_batch_result raw of Some r \<Rightarrow> Inr r
            | None \<Rightarrow> Inl ''AI copy-edit batch did not return a valid completion payload. ''))
     else Inl (''Unsupported live copy-edit AI runner: '' @ the provider))"

text \<open>A result of the agent has the lists the commit reads, of the right elements.\<close>

definition result_form :: "jsval \<Rightarrow> bool" where
  "result_form r \<longleftrightarrow> get r ''status'' \<in> {JStr ''done'', JStr ''partial'', JStr ''error''} \<and>
     is_arr (get r ''appliedEntryIds'') \<and> is_arr (get r ''failed'') \<and> is_arr (get r ''files'') \<and> is_arr (get r ''notes'') \<and>
     list_all is_str (elems (get r ''files'')) \<and> list_all is_str (elems (get r ''notes''))"

lemma normalize_form: "result_form (normalize_batch_result v)"
  by (simp add: result_form_def normalize_batch_result_def normal_status_def list_all_iff)

lemma mock_form: "result_form (mock_batch_result batch)"
  by (simp add: result_form_def mock_batch_result_def)

lemma parse_form: "parse_copy_edit_batch_result v = Some r \<Longrightarrow> result_form r"
  by (auto simp: parse_copy_edit_batch_result_def normalize_form split: option.splits if_splits)

lemma agent_result_form: "run_copy_edit_batch_agent provider batch reply = Inr r \<Longrightarrow> result_form r"
  by (auto simp: run_copy_edit_batch_agent_def normalize_form mock_form parse_form
      split: if_splits sum.splits option.splits)

definition failure_form :: "jsval \<Rightarrow> bool" where
  "failure_form f \<longleftrightarrow> is_objty f \<and> truthy f \<and> truthy (get f ''reason'') \<and> is_arr (get f ''candidates'')"

definition typed_result :: "jsval \<Rightarrow> bool" where
  "typed_result r \<longleftrightarrow> result_form r \<and> list_all is_str (elems (get r ''appliedEntryIds'')) \<and>
     list_all failure_form (elems (get r ''failed'')) \<and> list_all (\<lambda>w. is_objty w \<and> truthy w) (elems (get r ''warnings''))"

lemma normalize_typed: "typed_result (normalize_batch_result v)"
proof -
  have "failure_form (normal_failed_item item)" for item
    by (auto simp: failure_form_def normal_failed_item_def arr_or_empty_def js_or_def)
  moreover have "result_form (normalize_batch_result v)" by (rule normalize_form)
  ultimately show ?thesis
    by (auto simp: typed_result_def normalize_batch_result_def list_all_iff)
qed

text \<open>
  C11. What a commit works on is typed, whatever the agent replied: one of the three
  statuses, lists of strings for the applied ids, the files and the notes, for
  each failure an object with a reason and a list of candidates, and objects for
  the warnings. (The mock agent passes the ids of the batch on.)
\<close>

theorem agent_results_are_typed:
  assumes "run_copy_edit_batch_agent provider batch reply = Inr r"
  shows "typed_result r \<or> (provider = Some ''mock'' \<and> r = mock_batch_result batch \<and> result_form r \<and>
    elems (get r ''failed'') = [] \<and> elems (get r ''files'') = [])"
  using assms
  by (auto simp: run_copy_edit_batch_agent_def parse_copy_edit_batch_result_def normalize_typed mock_form
      split: if_splits sum.splits option.splits) (simp_all add: mock_batch_result_def)

theorem agent_results_are_typed_witness:
  "\<exists>r. run_copy_edit_batch_agent (Some ''chat'') JNull (Inr (Some (JObj [(''files'', JStr ''a''), (''failed'', JArr [JNum 7])]))) = Inr r \<and>
    typed_result r"
proof -
  obtain r where "run_copy_edit_batch_agent (Some ''chat'') JNull (Inr (Some (JObj [(''files'', JStr ''a''), (''failed'', JArr [JNum 7])]))) = Inr r"
    by (simp add: run_copy_edit_batch_agent_def)
  with agent_results_are_typed [OF this] show ?thesis by auto
qed

section \<open>What is left behind in a file\<close>

definition scan_quote :: "char \<Rightarrow> char option \<times> bool \<Rightarrow> char option \<times> bool" where
  \<comment> \<open>the open quote and whether the last character escapes\<close>
  "scan_quote ch st = (let (quote, escaped) = st in
     if escaped then (quote, False)
     else if ch = char_of (92 :: nat) then (quote, True)
     else case quote of Some q \<Rightarrow> (if ch = q then None else quote, False)
       | None \<Rightarrow> (if ch \<in> {char_of (34 :: nat), char_of (39 :: nat), char_of (96 :: nat)} then Some ch else None, False))"

definition is_inside_quoted_literal :: "string \<Rightarrow> bool" where
  \<comment> \<open>of the text before the position\<close>
  "is_inside_quoted_literal before = (fst (fold scan_quote before (None, False)) \<noteq> None)"

definition marker_words :: "string list" where
  "marker_words = [''impeccable-carbonize-start'', ''impeccable-carbonize-end'',
     ''impeccable-variants-start'', ''impeccable-variants-end'']"

definition comment_marker :: "char option \<Rightarrow> string \<Rightarrow> string option" where
  \<comment> \<open>a comment at the start of a line that opens with a marker\<close>
  "comment_marker before s =
    (if \<not> (case before of None \<Rightarrow> True | Some c \<Rightarrow> of_char c \<in> {10, 13 :: nat}) then None
     else let t = skip_ws s in
       (case (case strip ''<!--'' t of Some u \<Rightarrow> Some u | None \<Rightarrow> strip ''{/*'' t) of
          None \<Rightarrow> None
        | Some u \<Rightarrow> (case List.find (\<lambda>w. Option.bind (strip w (skip_ws u)) word_end \<noteq> None) marker_words of
            None \<Rightarrow> None
          | Some w \<Rightarrow> Some (take (length s - length (skip_ws u) + length w) s))))"

definition attr_names :: "string list" where
  "attr_names = [''variants'', ''variant'', ''original-text'', ''editable'', ''text-wrap'']"

definition marker_attr :: "char option \<Rightarrow> string \<Rightarrow> string option" where
  \<comment> \<open>one of the runtime's own attributes at this position\<close>
  "marker_attr before s =
    (if \<not> at_boundary before s then None
     else Option.bind (strip ''data-impeccable-'' s) (\<lambda>u.
       (case List.find (\<lambda>w. Option.bind (strip w u) (\<lambda>v. strip ''='' (skip_ws v)) \<noteq> None) attr_names of
          None \<Rightarrow> None
        | Some w \<Rightarrow> Some (take (length s - length (skip_ws (drop (length w) u)) + 1) s))))"

fun line_marker :: "string \<Rightarrow> char option \<Rightarrow> string \<Rightarrow> string option" where
  \<comment> \<open>the first attribute of a line outside quotes; the text before the position comes first, reversed\<close>
  "line_marker done before s =
    (case marker_attr before s of
       Some m \<Rightarrow> if is_inside_quoted_literal (rev done)
         then (case s of [] \<Rightarrow> None | c # t \<Rightarrow> line_marker (c # done) (Some c) t) else Some m
     | None \<Rightarrow> (case s of [] \<Rightarrow> None | c # t \<Rightarrow> line_marker (c # done) (Some c) t))"

declare line_marker.simps [simp del]

definition chomp :: "string \<Rightarrow> string" where
  \<comment> \<open>a carriage return before the line feed belongs to the separator\<close>
  "chomp l = (if l \<noteq> [] \<and> of_char (last l) = (13 :: nat) then butlast l else l)"

definition lines_of_text :: "string \<Rightarrow> string list" where
  \<comment> \<open>\<open>split(/\r?\n/)\<close>\<close>
  "lines_of_text s = (let ls = split_on (char_of (10 :: nat)) s in map chomp (butlast ls) @ [last ls])"

definition find_leftover_impeccable_marker :: "string \<Rightarrow> string option" where
  "find_leftover_impeccable_marker body =
    (case find_match comment_marker None body of
       Some m \<Rightarrow> Some m
     | None \<Rightarrow> (case List.find (\<lambda>l. line_marker [] None l \<noteq> None) (lines_of_text body) of
         None \<Rightarrow> None | Some l \<Rightarrow> line_marker [] None l))"

section \<open>Checks after the edits\<close>

text \<open>
  \<open>ck_json\<close> and \<open>ck_js\<close> give the message of a failed parse; \<open>ck_syntax\<close> that of
  babel, or \<open>None\<close> when it is not installed; \<open>ck_script\<close> the message of the
  project's own check, if it has one and it fails.
\<close>

record checkers =
  ck_json :: "string \<Rightarrow> string option"
  ck_js :: "tree \<Rightarrow> string \<Rightarrow> string option"
  ck_syntax :: "(string \<Rightarrow> string \<Rightarrow> string option) option"
  ck_script :: "tree \<Rightarrow> string option"

definition unique_strings :: "jsval list \<Rightarrow> string list" where
  "unique_strings vs = set_of (map str_of (filter (\<lambda>v. is_str v \<and> js_trim (str_of v) \<noteq> []) vs))"

definition inside_or_equal :: "string \<Rightarrow> string \<Rightarrow> bool" where
  "inside_or_equal cwd absPath = (let rel = relative cwd absPath in
     rel = [] \<or> (\<not> starts_with rel ''..'' \<and> \<not> is_absolute rel))"

definition check_failure :: "string \<Rightarrow> string \<Rightarrow> string \<Rightarrow> jsval" where
  "check_failure file reason msg = JObj [(''file'', JStr file), (''reason'', JStr reason), (''message'', JStr msg)]"

definition failed_with :: "string \<Rightarrow> string \<Rightarrow> string option \<Rightarrow> jsval list" where
  "failed_with file reason problem = (case problem of None \<Rightarrow> [] | Some m \<Rightarrow> [check_failure file reason m])"

definition check_framework_source_syntax :: "checkers \<Rightarrow> string \<Rightarrow> string \<Rightarrow> jsval list \<times> jsval list" where
  "check_framework_source_syntax ck file body =
    (if \<not> (ends_with file ''.jsx'' \<or> ends_with file ''.tsx'' \<or> ends_with file ''.ts'') then ([], [])
     else case ck_syntax ck of
       None \<Rightarrow> ([], [JObj [(''file'', JStr file), (''reason'', JStr ''syntax_parser_unavailable'')]])
     | Some parse \<Rightarrow> (failed_with file ''invalid_source_syntax'' (parse file body), []))"

definition check_file :: "checkers \<Rightarrow> tree \<Rightarrow> string \<Rightarrow> string \<Rightarrow> jsval list \<times> jsval list" where
  \<comment> \<open>failures and warnings of one file\<close>
  "check_file ck t cwd file =
    (let p = resolve cwd file in
     case (if inside_or_equal cwd p then file_at t p else None) of
       None \<Rightarrow> ([], [JObj [(''file'', JStr file), (''reason'', JStr ''file_missing_or_outside_cwd'')]])
     | Some body \<Rightarrow>
       if \<not> tr_readable t p then ([check_failure file ''read_failed'' (tr_error t)], [])
       else let (syn_failures, syn_warnings) = check_framework_source_syntax ck file body in
         ((case find_leftover_impeccable_marker body of None \<Rightarrow> []
           | Some m \<Rightarrow> [JObj [(''file'', JStr file), (''reason'', JStr ''leftover_impeccable_marker''), (''marker'', JStr m)]]) @
          (if ends_with file ''.json'' then failed_with file ''invalid_json'' (ck_json ck body) else []) @
          syn_failures @
          (if ends_with file ''.mjs'' \<or> ends_with file ''.cjs'' \<or> ends_with file ''.js''
           then failed_with file ''invalid_js'' (ck_js ck t p) else []), syn_warnings))"

definition run_copy_edit_post_apply_checks :: "checkers \<Rightarrow> tree \<Rightarrow> string \<Rightarrow> jsval list \<Rightarrow> jsval list \<times> jsval list" where
  "run_copy_edit_post_apply_checks ck t cwd touched =
    (let per_file = map (check_file ck t cwd) (unique_strings touched)
     in (concat (map fst per_file) @ failed_with ''package.json'' ''manual_edit_validation_failed'' (ck_script ck t),
         concat (map snd per_file)))"

lemma checks_pass_iff:
  "fst (run_copy_edit_post_apply_checks ck t cwd touched) = [] \<longleftrightarrow>
    (\<forall>file \<in> set (unique_strings touched). fst (check_file ck t cwd file) = []) \<and> ck_script ck t = None"
  by (auto simp: run_copy_edit_post_apply_checks_def failed_with_def split: option.splits)

text \<open>A file that passes holds none of the runtime's markers.\<close>

lemma checked_file_is_clean:
  assumes "fst (check_file ck t cwd file) = []" "inside_or_equal cwd (resolve cwd file)"
    "file_at t (resolve cwd file) = Some body"
  shows "find_leftover_impeccable_marker body = None \<and> tr_readable t (resolve cwd file)"
  using assms by (auto simp: check_file_def Let_def split: if_splits option.splits prod.splits)

end
