(* ===== verification/Commit_Verify.thy ===== *)
theory Commit_Verify
  imports Copy_Agent Manual_Deferreds
begin

text \<open>
  Checking in the sources that a copy edit was made, the first half of
  \<open>live-commit-manual-edits.mjs\<close>: the places an operation may have changed, whether
  one of them shows the new text, keys that depend on the old text, and edits of
  entries that were not reported applied. Line numbers are those of the evidence
  and may be any number; operations and candidates are objects.
\<close>

record project =
  pj_root :: string
  pj_ignored :: "string \<Rightarrow> bool"
  pj_checks :: checkers

section \<open>Entries and failures\<close>

definition entry_id :: "jsval \<Rightarrow> jsval" where
  "entry_id entry = get entry ''id''"

definition summarize_applied_entries :: "jsval list \<Rightarrow> string list \<Rightarrow> jsval list" where
  "summarize_applied_entries entries ids =
    concat (map (\<lambda>entry. map (\<lambda>op. JObj [(''id'', entry_id entry), (''ref'', get op ''ref''),
        (''originalText'', get op ''originalText''), (''newText'', get op ''newText'')]) (ops_of entry))
      (filter (\<lambda>entry. entry_id entry \<in> set (map JStr ids)) entries))"

definition batch_candidates :: "jsval \<Rightarrow> jsval list" where
  "batch_candidates batch = elems (get batch ''candidates'')"

definition candidates_for_entry :: "jsval \<Rightarrow> jsval \<Rightarrow> jsval list" where
  "candidates_for_entry batch i =
    take 12 (concat (map (\<lambda>c. (if truthy (get c ''sourceHint'') then [get c ''sourceHint''] else []) @
        concat (map (\<lambda>k. elems (get c k)) [''textMatches'', ''objectKeyMatches'', ''locatorMatches'', ''contextTextMatches'']))
      (filter (\<lambda>c. strict_eq (get c ''entryId'') i) (batch_candidates batch))))"

definition failed_by_entry :: "jsval \<Rightarrow> (jsval \<times> jsval) list" where
  "failed_by_entry result =
    fold (\<lambda>item m. let i = js_or (get item ''entryId'') (js_or (get item ''id'') JNull)
            in if truthy i then alset i item m else m) (elems (get result ''failed'')) []"

definition normalize_failed_entries :: "jsval \<Rightarrow> jsval \<Rightarrow> jsval \<Rightarrow> jsval list" where
  "normalize_failed_entries batch result fallbackReason =
    List.map_filter (\<lambda>entry. case map_of (failed_by_entry result) (entry_id entry) of
        None \<Rightarrow> None
      | Some item \<Rightarrow> Some (JObj [(''id'', entry_id entry),
          (''reason'', js_or (get item ''reason'') (js_or (get item ''message'') (js_or fallbackReason (JStr ''failed'')))),
          (''candidates'', JArr (if elems (get item ''candidates'') \<noteq> [] then elems (get item ''candidates'')
             else candidates_for_entry batch (entry_id entry)))])) (entries_of batch)"

definition merge_failed_item :: "jsval \<Rightarrow> jsval list \<Rightarrow> jsval list" where
  "merge_failed_item item out =
    (if \<not> truthy item \<or> \<not> is_objty item then out
     else let i = get item ''id'' in
       if \<not> (is_str i \<and> truthy i) \<or> \<not> (\<exists>o1 \<in> set out. get o1 ''id'' = i) then out @ [item]
       else replace_first (\<lambda>o1. get o1 ''id'' = i) (\<lambda>o1. with_props (with_props o1 (props_of item))
         [(''candidates'', js_or (get item ''candidates'') (get o1 ''candidates'')),
          (''checks'', js_or (get item ''checks'') (get o1 ''checks''))]) out)"

definition merge_failed_entries :: "jsval list \<Rightarrow> jsval list" where
  \<comment> \<open>of the groups, one after the other\<close>
  "merge_failed_entries items = fold merge_failed_item items []"

definition all_entry_ids :: "jsval \<Rightarrow> jsval list" where
  "all_entry_ids batch = filter truthy (map entry_id (entries_of batch))"

definition default_repair_attempts :: nat where "default_repair_attempts = 3"

definition repair_attempt_limit :: "jsval \<Rightarrow> nat" where
  "repair_attempt_limit env =
    (case to_number (js_or env (jint (int default_repair_attempts))) of
       JNum q \<Rightarrow> nat (max 1 (min 10 (js_trunc q))) | _ \<Rightarrow> default_repair_attempts)"

definition some_props :: "jsval \<Rightarrow> string list \<Rightarrow> props" where
  "some_props v ks = map (\<lambda>k. (k, get v k)) ks"

definition place :: "jsval \<Rightarrow> jsval" where
  "place c = JObj (some_props c [''file'', ''line'', ''kind'', ''reason''])"

definition summarize_repair_item :: "jsval \<Rightarrow> jsval" where
  "summarize_repair_item item = JObj [(''ref'', get item ''ref''),
     (''reason'', js_or (get item ''reason'') (get item ''detail'')), (''detail'', get item ''detail''),
     (''candidates'', if is_arr (get item ''candidates'')
        then JArr (map place (take 6 (elems (get item ''candidates'')))) else JUndef)]"

definition summarize_repair_failure :: "jsval \<Rightarrow> jsval" where
  "summarize_repair_failure f =
    (let i = js_or (get f ''id'') (get f ''entryId'');
         kept = (\<lambda>k. if truthy (get f k) then [(k, get f k)] else [])
     in JObj ([(''reason'', js_or (get f ''reason'') (js_or (get f ''detail'') (JStr ''validation_failed'')))] @
       (if truthy i then [(''entryId'', i)] else []) @
       concat (map kept [''ref'', ''detail'', ''file'', ''message'', ''marker'']) @
       (if is_arr (get f ''files'') then [(''files'', JArr (take 8 (elems (get f ''files''))))] else []) @
       (if is_arr (get f ''candidates'') then [(''candidates'', JArr (map place (take 8 (elems (get f ''candidates'')))))] else []) @
       (if is_arr (get f ''failures'') then [(''failures'', JArr (map summarize_repair_item (take 8 (elems (get f ''failures'')))))] else []) @
       kept ''checks''))"

definition summarize_repair_failures :: "jsval list \<Rightarrow> jsval list" where
  "summarize_repair_failures fs = take 20 (map summarize_repair_failure fs)"

definition build_repair_batch :: "jsval \<Rightarrow> jsval \<Rightarrow> jsval" where
  "build_repair_batch batch repair = with_props batch [(''repair'', repair)]"

definition verification_failures_for_entries :: "jsval \<Rightarrow> jsval list \<Rightarrow> jsval \<Rightarrow> props \<Rightarrow> jsval list" where
  "verification_failures_for_entries batch entries reason extra =
    map (\<lambda>entry. JObj (spread [(''id'', entry_id entry), (''reason'', reason),
      (''candidates'', JArr (candidates_for_entry batch (entry_id entry)))] extra)) entries"

section \<open>Project files\<close>

definition normalize_project_source_path :: "project \<Rightarrow> tree \<Rightarrow> bool \<Rightarrow> jsval \<Rightarrow> string option" where
  "normalize_project_source_path pj t requireExists file =
    (if \<not> truthy file \<or> \<not> is_str file then None
     else case project_file (pj_root pj) (str_of file) of None \<Rightarrow> None
     | Some rel \<Rightarrow> let absolute = resolve (pj_root pj) (str_of file) in
         if requireExists \<and> file_at t absolute = None then None
         else if is_generated_file (pj_ignored pj) t absolute then None else Some rel)"

definition normalize_relative_file :: "project \<Rightarrow> tree \<Rightarrow> jsval \<Rightarrow> string option" where
  "normalize_relative_file pj t file = normalize_project_source_path pj t True file"

definition read_lines :: "project \<Rightarrow> tree \<Rightarrow> string \<Rightarrow> string list option" where
  \<comment> \<open>\<open>readFileSync(path.resolve(cwd, rel)).split('\n')\<close>, \<open>None\<close> when it throws\<close>
  "read_lines pj t rel = (let p = resolve (pj_root pj) rel in
     if tr_readable t p then map_option (split_on (char_of (10 :: nat))) (file_at t p) else None)"

definition line_at :: "string list \<Rightarrow> rat \<Rightarrow> string" where
  \<comment> \<open>\<open>lines[line - 1] || ''\<close>\<close>
  "line_at ls q = (if of_int \<lfloor>q\<rfloor> = q \<and> 1 \<le> q \<and> q \<le> of_nat (length ls) then ls ! nat (\<lfloor>q\<rfloor> - 1) else [])"

definition line_window :: "string list \<Rightarrow> rat \<Rightarrow> rat \<Rightarrow> string list" where
  \<comment> \<open>\<open>lines.slice(Math.max(0, a), Math.min(lines.length, b))\<close>\<close>
  "line_window ls a b = drop (nat \<lfloor>max 0 a\<rfloor>) (take (nat \<lfloor>b\<rfloor>) ls)"

section \<open>Does a line show the edit?\<close>

definition text_prop :: "jsval \<Rightarrow> string \<Rightarrow> string" where
  \<comment> \<open>\<open>typeof op?.k === 'string' ? op.k : ''\<close>\<close>
  "text_prop op k = str_of (get op k)"

definition line_shows_applied_op :: "string \<Rightarrow> jsval \<Rightarrow> bool" where
  "line_shows_applied_op line op =
    (let originalText = text_prop op ''originalText''; newText = text_prop op ''newText'' in
     if is_true (get op ''deleted'') \<or> newText = [] then originalText \<noteq> [] \<and> \<not> has_sub line originalText
     else has_sub line newText \<and>
       \<not> (originalText \<noteq> [] \<and> \<not> has_sub newText originalText \<and> has_sub line originalText))"

definition normalize_verification_text :: "string \<Rightarrow> string" where
  "normalize_verification_text s = js_trim (squeeze_ws s)"

definition window_shows_applied_op :: "string list \<Rightarrow> jsval \<Rightarrow> bool" where
  "window_shows_applied_op ls op =
    (let newText = normalize_verification_text (text_prop op ''newText'');
         originalText = normalize_verification_text (text_prop op ''originalText'');
         window = normalize_verification_text (join [char_of (10 :: nat)] ls)
     in text_prop op ''newText'' \<noteq> [] \<and> newText \<noteq> [] \<and> has_sub window newText \<and>
        \<not> (originalText \<noteq> [] \<and> \<not> has_sub newText originalText \<and> has_sub window originalText))"

record target =
  tg_file :: string
  tg_line :: rat
  tg_kind :: string
  tg_reported :: bool

definition target_obj :: "target \<Rightarrow> jsval" where
  "target_obj g = JObj [(''file'', JStr (tg_file g)), (''line'', JNum (tg_line g)), (''kind'', JStr (tg_kind g))]"

definition verification_target_passes_lines :: "string list \<Rightarrow> target \<Rightarrow> jsval \<Rightarrow> bool" where
  "verification_target_passes_lines ls g op =
    (let line = line_at ls (tg_line g); originalText = text_prop op ''originalText'' in
     if line_shows_applied_op line op then True
     else if originalText \<noteq> [] \<and> has_sub line originalText then False
     else if \<not> (tg_reported g \<or> has_sub (tg_kind g) ''context_text_match'' \<or>
         has_sub (tg_kind g) ''object_key_match'' \<or> has_sub (tg_kind g) ''text_match'') then False
     else let radius = (if has_sub (tg_kind g) ''context_text_match'' then 20 else 4);
              window = line_window ls (tg_line g - radius - 1) (tg_line g + radius)
          in (\<exists>l \<in> set window. line_shows_applied_op l op) \<or> window_shows_applied_op window op)"

definition verification_target_passes :: "project \<Rightarrow> tree \<Rightarrow> target \<Rightarrow> jsval \<Rightarrow> bool" where
  "verification_target_passes pj t g op =
    (case read_lines pj t (tg_file g) of None \<Rightarrow> False | Some ls \<Rightarrow> verification_target_passes_lines ls g op)"

section \<open>Where an edit may be\<close>

definition op_has_locator :: "jsval \<Rightarrow> bool" where
  "op_has_locator op = (truthy (get op ''tag'') \<or> truthy (get op ''elementId'') \<or>
     (\<exists>c \<in> set (elems (get op ''classes'')). truthy c))"

definition tag_here :: "string \<Rightarrow> char option \<Rightarrow> string \<Rightarrow> unit option" where
  \<comment> \<open>an opening tag: angle bracket, white space, the name, then white space, \<open>>\<close>, \<open>/\<close> or the end\<close>
  "tag_here tag before s = Option.bind (strip [char_of (60 :: nat)] s) (\<lambda>s.
     Option.bind (strip_ci tag (skip_ws s)) (\<lambda>s. case s of [] \<Rightarrow> Some ()
       | c # _ \<Rightarrow> if is_ws c \<or> of_char c \<in> {62, 47 :: nat} then Some () else None))"

definition quoted_from :: "char set \<Rightarrow> string \<Rightarrow> string option" where
  "quoted_from qs s = (case s of [] \<Rightarrow> None | c # t \<Rightarrow> if c \<in> qs then Some t else None)"

definition html_quotes :: "char set" where
  "html_quotes = {char_of (34 :: nat), char_of (39 :: nat)}"

definition id_here :: "string \<Rightarrow> char option \<Rightarrow> string \<Rightarrow> unit option" where
  \<comment> \<open>\<open>\bid\s*=\s*["']...["']\<close>\<close>
  "id_here i before s = (if \<not> at_boundary before s then None
     else Option.bind (strip ''id'' s) (\<lambda>s. Option.bind (strip ''='' (skip_ws s)) (\<lambda>s.
       Option.bind (quoted_from html_quotes (skip_ws s)) (\<lambda>s. Option.bind (strip i s) (\<lambda>s.
         Option.bind (quoted_from html_quotes s) (\<lambda>s. Some ()))))))"

definition line_matches_manual_edit_locator :: "string \<Rightarrow> jsval \<Rightarrow> bool" where
  "line_matches_manual_edit_locator line op =
    ((truthy (get op ''tag'') \<longrightarrow> matches (tag_here (js_string (get op ''tag''))) line) \<and>
     (truthy (get op ''elementId'') \<longrightarrow> matches (id_here (js_string (get op ''elementId''))) line) \<and>
     (\<forall>c \<in> set (filter truthy (elems (get op ''classes''))). has_sub line (js_string c)))"

definition locator_targets_in_file :: "project \<Rightarrow> tree \<Rightarrow> string \<Rightarrow> jsval \<Rightarrow> target list" where
  "locator_targets_in_file pj t rel op =
    (if \<not> op_has_locator op then []
     else case read_lines pj t rel of None \<Rightarrow> []
     | Some ls \<Rightarrow> take 20 (map (\<lambda>(n, l). \<lparr>tg_file = rel, tg_line = of_nat n + 1, tg_kind = ''reported_locator_match'',
           tg_reported = False\<rparr>)
         (filter (\<lambda>(n, l). line_matches_manual_edit_locator l op) (zip [0..<length ls] ls))))"

definition target_at :: "project \<Rightarrow> tree \<Rightarrow> string list \<Rightarrow> jsval \<Rightarrow> jsval \<Rightarrow> string \<Rightarrow> target list" where
  "target_at pj t reportedFiles file line kind =
    (case (normalize_relative_file pj t file, to_number line) of
       (Some rel, JNum n) \<Rightarrow> if n < 1 then [] else
         [\<lparr>tg_file = rel, tg_line = n, tg_kind = kind, tg_reported = rel \<in> set reportedFiles\<rparr>]
     | _ \<Rightarrow> [])"

definition sibling_candidates_for_entry :: "jsval \<Rightarrow> jsval \<Rightarrow> jsval list" where
  "sibling_candidates_for_entry batch op =
    (if \<not> truthy (get op ''entryId'') then []
     else filter (\<lambda>c. strict_eq (get c ''entryId'') (get op ''entryId'') \<and> \<not> strict_eq (get c ''ref'') (get op ''ref''))
       (batch_candidates batch))"

definition own_candidates :: "jsval \<Rightarrow> jsval \<Rightarrow> jsval list" where
  "own_candidates batch op =
    filter (\<lambda>c. strict_eq (get c ''entryId'') (get op ''entryId'') \<and> strict_eq (get c ''ref'') (get op ''ref''))
      (batch_candidates batch)"

definition targets_of_candidate :: "project \<Rightarrow> tree \<Rightarrow> string list \<Rightarrow> string \<Rightarrow> (string \<times> string) list \<Rightarrow> jsval \<Rightarrow> target list" where
  \<comment> \<open>its source hint, then the matches of each list\<close>
  "targets_of_candidate pj t reportedFiles hintKind which c =
    (let hint = get c ''sourceHint'' in
     target_at pj t reportedFiles (js_or (get hint ''relativeFile'') (get hint ''file'')) (get hint ''line'') hintKind @
     concat (map (\<lambda>(k, kind). concat (map (\<lambda>m. target_at pj t reportedFiles (get m ''file'') (get m ''line'') kind)
       (elems (get c k)))) which))"

definition verification_targets_for_op :: "project \<Rightarrow> tree \<Rightarrow> jsval \<Rightarrow> jsval \<Rightarrow> string list \<Rightarrow> target list" where
  "verification_targets_for_op pj t batch op reportedFiles =
    (let hint = get op ''sourceHint'';
         candidate = (case own_candidates batch op of [] \<Rightarrow> JUndef | c # _ \<Rightarrow> c)
     in set_of (target_at pj t reportedFiles (get hint ''file'') (get hint ''line'') ''source_hint'' @
       targets_of_candidate pj t reportedFiles ''candidate_source_hint''
         [(''textMatches'', ''text_match''), (''objectKeyMatches'', ''object_key_match''),
          (''locatorMatches'', ''locator_match''), (''contextTextMatches'', ''context_text_match'')] candidate @
       concat (map (targets_of_candidate pj t reportedFiles ''entry_source_hint''
         [(''textMatches'', ''entry_text_match''), (''objectKeyMatches'', ''entry_object_key_match''),
          (''contextTextMatches'', ''entry_context_text_match'')]) (sibling_candidates_for_entry batch op)) @
       concat (map (\<lambda>rel. locator_targets_in_file pj t rel op) reportedFiles)))"

section \<open>Keys that depend on the edited text\<close>

definition key_quotes :: "char list" where
  "key_quotes = [char_of (39 :: nat), char_of (34 :: nat), char_of (96 :: nat)]"

definition key_place :: "char option \<Rightarrow> bool" where
  \<comment> \<open>\<open>(^|[\s,{])\<close> just before\<close>
  "key_place before = (case before of None \<Rightarrow> True | Some c \<Rightarrow> is_ws c \<or> c \<in> {CHR '','', CHR ''{''})"

definition colon_next :: "string \<Rightarrow> unit option" where
  "colon_next s = map_option (\<lambda>_. ()) (strip '':'' (skip_ws s))"

definition quoted_key_here :: "string \<Rightarrow> char option \<Rightarrow> string \<Rightarrow> unit option" where
  "quoted_key_here key before s =
    (if key_place before \<and> (\<exists>q \<in> set key_quotes. Option.bind (strip (q # key @ [q]) s) colon_next \<noteq> None)
     then Some () else None)"

definition bare_key_here :: "string \<Rightarrow> char option \<Rightarrow> string \<Rightarrow> unit option" where
  "bare_key_here key before s = (if key_place before then Option.bind (strip key s) colon_next else None)"

definition identifier_safe :: "string \<Rightarrow> bool" where
  "identifier_safe s = (s \<noteq> [] \<and> (is_word (hd s) \<and> \<not> is_digit (hd s) \<or> hd s = CHR ''$'') \<and>
     list_all (\<lambda>c. is_word c \<or> c = CHR ''$'') (tl s))"

definition line_has_object_key :: "string \<Rightarrow> jsval \<Rightarrow> bool" where
  "line_has_object_key line key =
    (is_str key \<and> str_of key \<noteq> [] \<and>
     (matches (quoted_key_here (str_of key)) line \<or>
      (identifier_safe (str_of key) \<and> matches (bare_key_here (str_of key)) line)))"

definition object_key_match_still_uses_original :: "project \<Rightarrow> tree \<Rightarrow> jsval \<Rightarrow> jsval \<Rightarrow> bool" where
  "object_key_match_still_uses_original pj t m op =
    (case (normalize_relative_file pj t (get m ''file''), to_number (get m ''line'')) of
       (Some rel, JNum n) \<Rightarrow>
         if n < 1 then False
         else (case read_lines pj t rel of None \<Rightarrow> False
           | Some ls \<Rightarrow> let window = line_window ls (n - 4) (n + 3) in
               \<not> (\<exists>l \<in> set window. line_has_object_key l (get op ''newText'')) \<and>
               (\<exists>l \<in> set window. line_has_object_key l (get op ''originalText'')))
     | _ \<Rightarrow> False)"

definition coupled_object_key_failure :: "project \<Rightarrow> tree \<Rightarrow> jsval \<Rightarrow> jsval \<Rightarrow> jsval" where
  "coupled_object_key_failure pj t op m = JObj [
     (''ref'', get op ''ref''), (''reason'', JStr ''source_verification_failed''),
     (''detail'', JStr ''edited_text_source_key_dependency_not_updated''),
     (''candidates'', JArr [JObj [
       (''file'', case normalize_relative_file pj t (get m ''file'') of Some rel \<Rightarrow> JStr rel | None \<Rightarrow> get m ''file''),
       (''line'', get m ''line''), (''kind'', JStr ''object_key_match''),
       (''reason'', JStr ''edited text is also a source key; update the coupled key to newText or fail the entry'')]])]"

definition coupled_object_key_failures_for_op :: "project \<Rightarrow> tree \<Rightarrow> jsval \<Rightarrow> jsval \<Rightarrow> jsval list" where
  "coupled_object_key_failures_for_op pj t batch op =
    (if \<not> is_str (get op ''originalText'') \<or> \<not> is_str (get op ''newText'') \<or> get op ''originalText'' = get op ''newText'' then []
     else map (coupled_object_key_failure pj t op)
       (filter (\<lambda>m. object_key_match_still_uses_original pj t m op)
         (concat (map (\<lambda>c. elems (get c ''objectKeyMatches'')) (own_candidates batch op)))))"

section \<open>An entry reported applied\<close>

definition hint_line :: "jsval \<Rightarrow> rat option" where
  \<comment> \<open>\<open>Math.max(1, Number(line) || 1)\<close>, \<open>None\<close> for infinity\<close>
  "hint_line v = (case to_number v of
     JNum q \<Rightarrow> Some (max 1 (if q = 0 then 1 else q)) | JInf True \<Rightarrow> None | _ \<Rightarrow> Some 1)"

definition source_hint_window_failure :: "project \<Rightarrow> tree \<Rightarrow> jsval \<Rightarrow> jsval option" where
  "source_hint_window_failure pj t op =
    (let hint = get op ''sourceHint''; originalText = text_prop op ''originalText'' in
     if \<not> truthy (get hint ''file'') \<or> \<not> truthy (get hint ''line'') then None
     else case normalize_relative_file pj t (get hint ''file'') of None \<Rightarrow> None
     | Some rel \<Rightarrow> (case (read_lines pj t rel, hint_line (get hint ''line'')) of
         (Some ls, Some n) \<Rightarrow>
           if originalText \<noteq> [] \<and> has_sub (line_at ls n) originalText \<and> \<not> line_shows_applied_op (line_at ls n) op
           then Some (JObj [(''file'', JStr rel), (''line'', JNum n), (''reason'', JStr ''source_hint_still_contains_original_text'')])
           else None
       | _ \<Rightarrow> None))"

definition verification_failure :: "jsval \<Rightarrow> jsval \<Rightarrow> jsval list \<Rightarrow> jsval" where
  "verification_failure op detail candidates = JObj [(''ref'', get op ''ref''),
     (''reason'', JStr ''source_verification_failed''), (''detail'', detail), (''candidates'', JArr (take 12 candidates))]"

definition op_of_entry :: "jsval \<Rightarrow> jsval \<Rightarrow> jsval" where
  "op_of_entry entry rawOp = with_props rawOp [(''entryId'', entry_id entry)]"

definition edited_op :: "jsval \<Rightarrow> jsval \<Rightarrow> jsval" where
  \<comment> \<open>a deletion without a new text has the empty one\<close>
  "edited_op entry rawOp = (let op = op_of_entry entry rawOp in
     if is_true (get op ''deleted'') \<and> \<not> is_str (get op ''newText'') then with_props op [(''newText'', JStr [])] else op)"

definition op_is_verified :: "project \<Rightarrow> tree \<Rightarrow> jsval \<Rightarrow> jsval \<Rightarrow> string list \<Rightarrow> bool" where
  "op_is_verified pj t batch op reportedFiles =
    (coupled_object_key_failures_for_op pj t batch op = [] \<and>
     (\<exists>g \<in> set (verification_targets_for_op pj t batch op reportedFiles). verification_target_passes pj t g op))"

definition op_failures :: "project \<Rightarrow> tree \<Rightarrow> jsval \<Rightarrow> jsval \<Rightarrow> jsval \<Rightarrow> string list \<Rightarrow> jsval list" where
  \<comment> \<open>the failures of an operation that is not verified\<close>
  "op_failures pj t batch entry op reportedFiles =
    (let found = map target_obj (verification_targets_for_op pj t batch op reportedFiles) @
           candidates_for_entry batch (entry_id entry);
         coupled = coupled_object_key_failures_for_op pj t batch op
     in if coupled \<noteq> []
        then map (\<lambda>f. with_props f [(''candidates'', JArr (take 12 (elems (get f ''candidates'') @ found)))]) coupled
        else case source_hint_window_failure pj t op of
          Some old \<Rightarrow> [verification_failure op (get old ''reason'') (old # found)]
        | None \<Rightarrow> [verification_failure op (JStr (if text_prop op ''newText'' = []
            then ''originalText_still_present_in_plausible_source_location''
            else ''newText_not_found_in_plausible_source_location'')) found])"

definition verify_applied_op :: "project \<Rightarrow> tree \<Rightarrow> jsval \<Rightarrow> jsval \<Rightarrow> string list \<Rightarrow> jsval \<Rightarrow> jsval list" where
  "verify_applied_op pj t batch entry reportedFiles rawOp =
    (let op = edited_op entry rawOp in
     if \<not> is_str (get op ''newText'')
     then [verification_failure op (JStr ''missing_newText'') (candidates_for_entry batch (entry_id entry))]
     else if op_is_verified pj t batch op reportedFiles then []
     else op_failures pj t batch entry op reportedFiles)"

definition verify_applied_entry :: "project \<Rightarrow> tree \<Rightarrow> jsval \<Rightarrow> string list \<Rightarrow> jsval \<Rightarrow> jsval list" where
  "verify_applied_entry pj t batch reportedFiles entry =
    concat (map (verify_applied_op pj t batch entry reportedFiles) (ops_of entry))"

lemma op_failures_nonempty: "op_failures pj t batch entry op reportedFiles \<noteq> []"
  by (auto simp: op_failures_def Let_def split: option.splits)

lemma verify_applied_op_iff:
  "verify_applied_op pj t batch entry reportedFiles rawOp = [] \<longleftrightarrow>
    is_str (get (edited_op entry rawOp) ''newText'') \<and> op_is_verified pj t batch (edited_op entry rawOp) reportedFiles"
  unfolding verify_applied_op_def Let_def using op_failures_nonempty by (simp split: if_split)

text \<open>An entry passes exactly when each of its operations is found in the sources.\<close>

lemma verify_applied_entry_iff:
  "verify_applied_entry pj t batch reportedFiles entry = [] \<longleftrightarrow>
    (\<forall>rawOp \<in> set (ops_of entry). is_str (get (edited_op entry rawOp) ''newText'') \<and>
       op_is_verified pj t batch (edited_op entry rawOp) reportedFiles)"
  by (simp add: verify_applied_entry_def verify_applied_op_iff)

section \<open>Entries not reported applied\<close>

definition snapshot_target_passes :: "(string \<times> saved_file) list \<Rightarrow> target \<Rightarrow> jsval \<Rightarrow> bool" where
  "snapshot_target_passes snap g op =
    (case map_of snap (tg_file g) of None \<Rightarrow> False
     | Some before \<Rightarrow> sv_exists before \<and>
         verification_target_passes_lines (split_on (char_of (10 :: nat)) (sv_content before)) g op)"

definition leaked_targets :: "project \<Rightarrow> tree \<Rightarrow> (string \<times> saved_file) list \<Rightarrow> jsval \<Rightarrow> jsval \<Rightarrow> string list \<Rightarrow> target list" where
  "leaked_targets pj t snap batch op reportedFiles =
    filter (\<lambda>g. verification_target_passes pj t g op \<and> \<not> snapshot_target_passes snap g op)
      (verification_targets_for_op pj t batch op reportedFiles)"

definition leaks :: "project \<Rightarrow> tree \<Rightarrow> (string \<times> saved_file) list \<Rightarrow> jsval \<Rightarrow> string list \<Rightarrow> jsval \<Rightarrow> jsval \<Rightarrow> bool" where
  "leaks pj t snap batch reportedFiles entry rawOp =
    (let op = op_of_entry entry rawOp in
     text_prop op ''newText'' \<noteq> [] \<and> leaked_targets pj t snap batch op reportedFiles \<noteq> [])"

definition find_unapplied_entry_source_changes ::
  "project \<Rightarrow> tree \<Rightarrow> (string \<times> saved_file) list \<Rightarrow> jsval \<Rightarrow> string list \<Rightarrow> jsval list \<Rightarrow> jsval list" where
  "find_unapplied_entry_source_changes pj t snap batch reportedFiles entries =
    List.map_filter (\<lambda>entry.
      case List.find (leaks pj t snap batch reportedFiles entry) (ops_of entry) of
        None \<Rightarrow> None
      | Some rawOp \<Rightarrow> let op = op_of_entry entry rawOp in Some (JObj [
          (''id'', entry_id entry), (''reason'', JStr ''failed_entry_source_changed''),
          (''ref'', get op ''ref''), (''newText'', get op ''newText''),
          (''candidates'', JArr (take 12 (map target_obj (leaked_targets pj t snap batch op reportedFiles) @
             candidates_for_entry batch (entry_id entry))))])) entries"

end
