(* ===== verification/Commit_Rollback.thy ===== *)
theory Commit_Rollback
  imports Commit_Verify
begin

text \<open>
  Taking an attempt back, the second part of \<open>live-commit-manual-edits.mjs\<close>: which
  files a batch owns, the snapshot of them before the agent runs, what changed
  since, and restoring it. The tree has no symbolic links and lists regular files;
  a directory is there when a file below it is.
\<close>

section \<open>Scopes\<close>

definition rollback_extensions :: "string list" where
  "rollback_extensions = [''.astro'', ''.cjs'', ''.css'', ''.eex'', ''.ex'', ''.heex'', ''.htm'', ''.html'', ''.js'', ''.json'',
     ''.jsx'', ''.md'', ''.mdx'', ''.mjs'', ''.scss'', ''.svelte'', ''.svg'', ''.ts'', ''.tsx'', ''.txt'', ''.vue'', ''.yaml'', ''.yml'']"

definition rollback_skip_dirs :: "string list" where
  "rollback_skip_dirs = [''.astro'', ''.git'', ''.impeccable'', ''.next'', ''.nuxt'', ''.svelte-kit'', ''build'', ''coverage'',
     ''dist'', ''node_modules'', ''out'']"

definition extname_of :: "string \<Rightarrow> string" where
  \<comment> \<open>\<open>path.extname\<close> of a base name\<close>
  "extname_of base = (let e = takeWhile (\<lambda>c. c \<noteq> CHR ''.'') (rev base) in
     if length e + 1 \<ge> length base then [] else CHR ''.'' # rev e)"

definition normalize_rollback_path :: "project \<Rightarrow> tree \<Rightarrow> jsval \<Rightarrow> string option" where
  "normalize_rollback_path pj t file = normalize_project_source_path pj t False file"

definition scanned_file :: "project \<Rightarrow> tree \<Rightarrow> string \<Rightarrow> string option" where
  \<comment> \<open>a file the scan of the project reports\<close>
  "scanned_file pj t p =
    (case project_file (pj_root pj) p of None \<Rightarrow> None
     | Some rel \<Rightarrow> let path = segs rel in
         if length (butlast path) \<le> 10 \<and> (\<forall>d \<in> set (butlast path). d \<notin> set rollback_skip_dirs) \<and>
            map lower_char (extname_of (last path)) \<in> set rollback_extensions \<and>
            \<not> is_generated_file (pj_ignored pj) t p
         then Some rel else None)"

definition collect_rollback_files :: "project \<Rightarrow> tree \<Rightarrow> string list" where
  "collect_rollback_files pj t = List.map_filter (scanned_file pj t) (set_of (map fst (tr_files t)))"

definition collect_apply_owned_files :: "project \<Rightarrow> tree \<Rightarrow> jsval \<Rightarrow> jsval list \<Rightarrow> string list" where
  "collect_apply_owned_files pj t batch extraFiles =
    List.map_filter (normalize_rollback_path pj t) (map JStr (unique_strings (batch_files batch @ extraFiles)))"

definition normalized :: "project \<Rightarrow> tree \<Rightarrow> string list \<Rightarrow> string list" where
  \<comment> \<open>\<open>.map(normalizeRollbackPath).filter(Boolean)\<close>\<close>
  "normalized pj t fs = List.map_filter (\<lambda>f. normalize_rollback_path pj t (JStr f)) fs"

definition snapshot_rollback_files :: "project \<Rightarrow> tree \<Rightarrow> string list \<Rightarrow> (string \<times> saved_file) list" where
  "snapshot_rollback_files pj t fs =
    fold (\<lambda>rel m. if unreadable t (pj_root pj) rel then m else alset rel (save_file t (pj_root pj) rel) m)
      (if fs = [] then collect_rollback_files pj t else normalized pj t (unique_strings (map JStr fs))) []"

section \<open>What changed\<close>

definition file_change :: "project \<Rightarrow> tree \<Rightarrow> string \<Rightarrow> saved_file \<Rightarrow> string option" where
  "file_change pj t rel before =
    (let p = resolve (pj_root pj) rel in
     if \<not> sv_exists before then (if file_at t p \<noteq> None then Some ''added'' else None)
     else case file_at t p of None \<Rightarrow> Some ''deleted''
       | Some text \<Rightarrow> if \<not> tr_readable t p then None
           else if text \<noteq> sv_content before then Some ''modified'' else None)"

definition changed_files_since_snapshot ::
  "project \<Rightarrow> tree \<Rightarrow> (string \<times> saved_file) list \<Rightarrow> string list \<Rightarrow> (string \<times> string) list" where
  "changed_files_since_snapshot pj t snap scopeFiles =
    (let scoped = (if scopeFiles = [] then None else Some (normalized pj t scopeFiles));
         current = set_of (case scoped of Some fs \<Rightarrow> fs | None \<Rightarrow> collect_rollback_files pj t)
     in List.map_filter (\<lambda>(rel, before). if scoped \<noteq> None \<and> rel \<notin> set current then None
          else map_option (Pair rel) (file_change pj t rel before)) snap @
        map (\<lambda>rel. (rel, ''unknown'')) (filter (\<lambda>rel. map_of snap rel = None) current))"

definition unreported_changed_files ::
  "project \<Rightarrow> tree \<Rightarrow> (string \<times> saved_file) list \<Rightarrow> string list \<Rightarrow> string list \<Rightarrow> string list" where
  "unreported_changed_files pj t snap reportedFiles scopeFiles =
    (let reported = normalized pj t reportedFiles; scope = set_of (normalized pj t scopeFiles)
     in filter (\<lambda>f. f \<in> set scope \<and> f \<notin> set reported)
       (map fst (changed_files_since_snapshot pj t snap scope)))"

section \<open>Restoring\<close>

definition roll_back_one ::
  "project \<Rightarrow> (string \<times> saved_file) list \<Rightarrow> string \<times> string \<Rightarrow> restoring \<Rightarrow> restoring" where
  "roll_back_one pj snap item s =
    (let (rel, kind) = item; (t, rolledBack, failed) = s; p = resolve (pj_root pj) rel;
         no_snapshot = (t, rolledBack, failed @ [JObj [(''file'', JStr rel), (''reason'', JStr ''no_snapshot'')]]);
         refused = (t, rolledBack, failed @ [restore_failure t rel])
     in case map_of snap rel of
          None \<Rightarrow> no_snapshot
        | Some before \<Rightarrow>
            if sv_exists before
            then (if tr_writable t p
                  then (t\<lparr>tr_files := alset p (sv_content before) (tr_files t)\<rparr>, rolledBack @ [rel], failed) else refused)
            else if kind = ''added'' \<and> file_at t p \<noteq> None
            then (if tr_writable t p
                  then (t\<lparr>tr_files := aldel p (tr_files t)\<rparr>, rolledBack @ [rel], failed) else refused)
            else no_snapshot)"

definition add_reported :: "project \<Rightarrow> tree \<Rightarrow> (string \<times> saved_file) list \<Rightarrow> string \<Rightarrow> (string \<times> string) list \<Rightarrow> (string \<times> string) list" where
  "add_reported pj t snap f byFile =
    (case normalize_rollback_path pj t (JStr f) of None \<Rightarrow> byFile
     | Some rel \<Rightarrow> if map_of byFile rel \<noteq> None then byFile
         else byFile @ [(rel, if map_of snap rel \<noteq> None then ''reported'' else ''unknown'')])"

definition rollback_changed_files ::
  "project \<Rightarrow> tree \<Rightarrow> (string \<times> saved_file) list \<Rightarrow> string list \<Rightarrow> string list \<Rightarrow> restoring" where
  "rollback_changed_files pj t snap extraFiles scopeFiles =
    (let scope = set_of (normalized pj t (scopeFiles @ extraFiles));
         byFile = fold (add_reported pj t snap) extraFiles (changed_files_since_snapshot pj t snap scope)
     in fold (roll_back_one pj snap) (filter (\<lambda>item. fst item \<in> set scope) byFile) (t, [], []))"

section \<open>Restoration restores\<close>

lemma set_of_set [simp]: "set (set_of xs) = set xs"
  by (simp add: set_of_def)

lemma map_filter_member: "y \<in> set (List.map_filter f xs) \<longleftrightarrow> (\<exists>x \<in> set xs. f x = Some y)"
  by (induction xs) (auto simp: List.map_filter_simps split: option.splits)

lemma normalized_member:
  "rel \<in> set (normalized pj t fs) \<longleftrightarrow> (\<exists>f \<in> set fs. normalize_rollback_path pj t (JStr f) = Some rel)"
  by (auto simp: normalized_def map_filter_member)

lemma owned_member:
  "rel \<in> set (collect_apply_owned_files pj t batch extra) \<longleftrightarrow>
    (\<exists>f \<in> set (unique_strings (batch_files batch @ extra)). normalize_rollback_path pj t (JStr f) = Some rel)"
  by (auto simp: collect_apply_owned_files_def map_filter_member)

lemma project_file_idem:
  assumes "is_absolute cwd" "project_file cwd f = Some rel"
  shows "project_file cwd rel = Some rel"
proof -
  have "resolve cwd rel = resolve cwd f" using assms by (rule project_file_resolves)
  with assms(2) show ?thesis by (auto simp: project_file_def Let_def split: if_splits)
qed

lemma project_file_nonempty: "project_file cwd f = Some rel \<Longrightarrow> rel \<noteq> []"
  by (auto simp: project_file_def Let_def split: if_splits)

text \<open>A normalized name stays what it is, as long as the file is no build output.\<close>

lemma normalize_path_Some:
  "normalize_rollback_path pj t (JStr f) = Some rel \<longleftrightarrow> f \<noteq> [] \<and> project_file (pj_root pj) f = Some rel \<and>
    \<not> is_generated_file (pj_ignored pj) t (resolve (pj_root pj) f)"
  by (auto simp: normalize_rollback_path_def normalize_project_source_path_def split: option.splits)

lemma normalize_path_idem:
  assumes "is_absolute (pj_root pj)" "normalize_rollback_path pj t0 (JStr f) = Some rel"
    and "\<not> is_generated_file (pj_ignored pj) t (resolve (pj_root pj) rel)"
  shows "normalize_rollback_path pj t (JStr f) = Some rel" "normalize_rollback_path pj t (JStr rel) = Some rel"
proof -
  from assms(2) have f: "f \<noteq> []" "project_file (pj_root pj) f = Some rel" by (simp_all add: normalize_path_Some)
  have r: "resolve (pj_root pj) rel = resolve (pj_root pj) f" using assms(1) f(2) by (rule project_file_resolves)
  show "normalize_rollback_path pj t (JStr f) = Some rel" using f assms(3) r by (simp add: normalize_path_Some)
  show "normalize_rollback_path pj t (JStr rel) = Some rel"
    using project_file_idem [OF assms(1) f(2)] project_file_nonempty [OF f(2)] assms(3) by (simp add: normalize_path_Some)
qed

lemma snapshot_of_fold:
  "map_of (fold (\<lambda>rel m. if unreadable t cwd rel then m else alset rel (save_file t cwd rel) m) rels []) rel =
    (if rel \<in> set rels \<and> \<not> unreadable t cwd rel then Some (save_file t cwd rel) else None)"
  by (simp add: snapshot_lookup)

definition restorable :: "project \<Rightarrow> (string \<times> saved_file) list \<Rightarrow> (string \<times> string) list \<Rightarrow> tree \<Rightarrow> bool" where
  \<comment> \<open>what was not there before is marked as added, or is not there now\<close>
  "restorable pj snap items t \<longleftrightarrow> (\<forall>(rel, kind) \<in> set items. \<forall>b. map_of snap rel = Some b \<and> \<not> sv_exists b \<and> kind \<noteq> ''added''
      \<longrightarrow> file_at t (resolve (pj_root pj) rel) = None)"

lemma roll_back_one_effect:
  assumes "\<And>p. tr_writable t p" "\<And>b. map_of snap rel = Some b \<Longrightarrow> b = save_file t0 (pj_root pj) rel"
    "restorable pj snap [(rel, kind)] t" "roll_back_one pj snap (rel, kind) (t, rb, fl) = (t', rb', fl')"
  shows "tr_writable t' = tr_writable t"
    "file_at t' p = (if map_of snap rel \<noteq> None \<and> p = resolve (pj_root pj) rel then file_at t0 p else file_at t p)"
proof -
  let ?p = "resolve (pj_root pj) rel"
  show "tr_writable t' = tr_writable t"
    using assms(4) by (auto simp: roll_back_one_def Let_def split: option.splits if_splits)
  show "file_at t' p = (if map_of snap rel \<noteq> None \<and> p = ?p then file_at t0 p else file_at t p)"
  proof (cases "map_of snap rel")
    case None
    with assms(4) show ?thesis by (simp add: roll_back_one_def)
  next
    case (Some b)
    note b = assms(2) [OF Some]
    show ?thesis
    proof (cases "sv_exists b")
      case True
      then have "file_at t0 ?p = Some (sv_content b)" using b by (auto simp: save_file_def split: option.splits)
      with True assms(1,4) Some show ?thesis by (auto simp: roll_back_one_def Let_def file_at_def)
    next
      case False
      then have none: "file_at t0 ?p = None" using b by (auto simp: save_file_def split: option.splits)
      show ?thesis
      proof (cases "kind = ''added'' \<and> file_at t ?p \<noteq> None")
        case True
        with False none assms(1,4) Some show ?thesis by (auto simp: roll_back_one_def Let_def file_at_def)
      next
        case kept: False
        with False Some assms(3) have "file_at t ?p = None" by (auto simp: restorable_def)
        moreover have "t' = t" using kept False Some assms(4) by (auto simp: roll_back_one_def Let_def)
        ultimately show ?thesis using none by auto
      qed
    qed
  qed
qed

lemma roll_back_all:
  assumes "\<And>p. tr_writable t p" "\<And>rel b. map_of snap rel = Some b \<Longrightarrow> b = save_file t0 (pj_root pj) rel"
    "restorable pj snap items t" "fold (roll_back_one pj snap) items (t, rb, fl) = (t', rb', fl')"
  shows "file_at t' p = (if p \<in> resolve (pj_root pj) ` {rel \<in> fst ` set items. map_of snap rel \<noteq> None} then file_at t0 p else file_at t p)"
  using assms(1,3,4)
proof (induction items arbitrary: t rb fl)
  case (Cons item items)
  obtain rel kind where item: "item = (rel, kind)" by (cases item)
  obtain t1 rb1 fl1 where r: "roll_back_one pj snap (rel, kind) (t, rb, fl) = (t1, rb1, fl1)" by (metis prod.exhaust)
  have here: "restorable pj snap [(rel, kind)] t" using Cons.prems(2) item by (simp add: restorable_def)
  note e = roll_back_one_effect [OF Cons.prems(1) assms(2) here r]
  have at1: "file_at t1 q = (if map_of snap rel \<noteq> None \<and> q = resolve (pj_root pj) rel then file_at t0 q else file_at t q)" for q
    by (rule e(2))
  have w: "\<And>p. tr_writable t1 p" using e(1) Cons.prems(1) by simp
  have "restorable pj snap items t1"
    unfolding restorable_def
  proof clarify
    fix rel' k b assume i: "(rel', k) \<in> set items" "map_of snap rel' = Some b" "\<not> sv_exists b" "k \<noteq> ''added''"
    then have "file_at t (resolve (pj_root pj) rel') = None" using Cons.prems(2) unfolding restorable_def by force
    moreover have "file_at t0 (resolve (pj_root pj) rel') = None"
      using i(3) assms(2) [OF i(2)] by (auto simp: save_file_def split: option.splits)
    ultimately show "file_at t1 (resolve (pj_root pj) rel') = None"
      using at1 by metis
  qed
  moreover have "fold (roll_back_one pj snap) items (t1, rb1, fl1) = (t', rb', fl')" using Cons.prems(3) item r by simp
  ultimately have IH: "file_at t' p = (if p \<in> resolve (pj_root pj) ` {rel \<in> fst ` set items. map_of snap rel \<noteq> None}
      then file_at t0 p else file_at t1 p)" using Cons.IH [OF w] by blast
  show ?case unfolding IH at1 item by auto
qed simp

lemma add_reported_keys: "map_of byFile rel = Some k \<Longrightarrow> map_of (fold (add_reported pj t snap) fs byFile) rel = Some k"
proof (induction fs arbitrary: byFile)
  case (Cons f fs)
  have "map_of (add_reported pj t snap f byFile) rel = Some k"
    using Cons.prems by (auto simp: add_reported_def map_add_def split: option.splits)
  with Cons.IH show ?case by simp
qed simp

lemma add_reported_kinds:
  "(rel, k) \<in> set (fold (add_reported pj t snap) fs byFile) \<Longrightarrow> (rel, k) \<in> set byFile \<or> map_of byFile rel = None"
proof (induction fs arbitrary: byFile)
  case (Cons f fs)
  from Cons.prems have "(rel, k) \<in> set (add_reported pj t snap f byFile) \<or> map_of (add_reported pj t snap f byFile) rel = None"
    using Cons.IH by simp
  then show ?case by (auto simp: add_reported_def map_add_def split: option.splits if_splits)
qed simp

lemma changed_member:
  assumes "scopeFiles \<noteq> []" "rel \<in> set (normalized pj t scopeFiles)" "map_of snap rel = Some b" "file_change pj t rel b = Some k"
  shows "(rel, k) \<in> set (changed_files_since_snapshot pj t snap scopeFiles)"
  using assms map_of_SomeD [OF assms(3)]
  by (auto simp: changed_files_since_snapshot_def map_filter_member intro!: bexI [of _ "(rel, b)"])

lemma changed_kind:
  assumes "scopeFiles \<noteq> []" "distinct (map fst snap)" "map_of snap rel = Some b"
    "(rel, k) \<in> set (changed_files_since_snapshot pj t snap scopeFiles)"
  shows "file_change pj t rel b = Some k"
proof -
  obtain before where "(rel, before) \<in> set snap" "file_change pj t rel before = Some k"
    using assms by (auto simp: changed_files_since_snapshot_def map_filter_member Let_def split: if_splits)
  moreover have "before = b" if "(rel, before) \<in> set snap" for before
    using that assms(2,3) by (metis map_of_is_SomeI option.inject)
  ultimately show ?thesis by blast
qed

lemma unchanged_file:
  assumes "file_change pj t1 rel (save_file t0 (pj_root pj) rel) = None" "tr_readable t1 (resolve (pj_root pj) rel)"
  shows "file_at t1 (resolve (pj_root pj) rel) = file_at t0 (resolve (pj_root pj) rel)"
  using assms by (auto simp: file_change_def save_file_def Let_def split: option.splits if_splits)

lemma snapshot_distinct: "distinct (map fst (snapshot_rollback_files pj t fs))"
proof -
  have "distinct (map fst (fold (\<lambda>rel m. if unreadable t c rel then m else alset rel (save_file t c rel) m) rels m))"
    if "distinct (map fst m)" for rels m c
    using that by (induction rels arbitrary: m) auto
  then show ?thesis by (simp add: snapshot_rollback_files_def)
qed

text \<open>
  The files a batch names come back: whatever an agent did to the tree, as long as
  it did not turn one of them into build output, the rollback of the attempt
  restores each of them and touches nothing else.
\<close>

definition stays_source :: "project \<Rightarrow> tree \<Rightarrow> string list \<Rightarrow> bool" where
  \<comment> \<open>no file of the list has a blank name or has become build output\<close>
  "stays_source pj t owned \<longleftrightarrow>
    (\<forall>rel \<in> set owned. js_trim rel \<noteq> [] \<and> \<not> is_generated_file (pj_ignored pj) t (resolve (pj_root pj) rel))"

lemma owned_normalizes:
  assumes "is_absolute (pj_root pj)" "rel \<in> set (collect_apply_owned_files pj t0 batch [])"
    and "\<not> is_generated_file (pj_ignored pj) t1 (resolve (pj_root pj) rel)"
  shows "normalize_rollback_path pj t1 (JStr rel) = Some rel" "normalize_rollback_path pj t0 (JStr rel) = Some rel"
    "rel \<in> set (collect_apply_owned_files pj t1 batch extra)"
proof -
  from assms(2) obtain f where f: "f \<in> set (unique_strings (batch_files batch))" "normalize_rollback_path pj t0 (JStr f) = Some rel"
    unfolding owned_member by auto
  note n1 = normalize_path_idem [OF assms(1) f(2) assms(3)]
  have "\<not> is_generated_file (pj_ignored pj) t0 (resolve (pj_root pj) rel)"
    using f(2) project_file_resolves [OF assms(1)] by (auto simp: normalize_path_Some)
  from normalize_path_idem(2) [OF assms(1) f(2) this] show "normalize_rollback_path pj t0 (JStr rel) = Some rel" .
  show "normalize_rollback_path pj t1 (JStr rel) = Some rel" by (fact n1(2))
  have "f \<in> set (unique_strings (batch_files batch @ extra))" using f(1) by (auto simp: unique_strings_def)
  then show "rel \<in> set (collect_apply_owned_files pj t1 batch extra)" unfolding owned_member using n1(1) by blast
qed

lemma snapshot_of_owned:
  assumes "is_absolute (pj_root pj)" "\<forall>p. tr_readable t0 p" "owned = collect_apply_owned_files pj t0 batch []" "owned \<noteq> []"
    and "stays_source pj t1 owned"
  shows "map_of (snapshot_rollback_files pj t0 owned) rel =
    (if rel \<in> set owned then Some (save_file t0 (pj_root pj) rel) else None)"
proof -
  have n: "normalize_rollback_path pj t0 (JStr f) = Some f \<and> js_trim f \<noteq> []" if "f \<in> set owned" for f
    using owned_normalizes(2) [OF assms(1), of f t0 batch t1] that assms(3,5) by (auto simp: stays_source_def)
  have "set (normalized pj t0 (unique_strings (map JStr owned))) = set owned"
    using n by (fastforce simp: normalized_member unique_strings_def)
  then show ?thesis
    unfolding snapshot_rollback_files_def snapshot_of_fold using assms(2,4) by (simp add: unreadable_def)
qed

lemma rollback_restores_owned:
  assumes root: "is_absolute (pj_root pj)" and owned: "owned = collect_apply_owned_files pj t0 batch []" "owned \<noteq> []"
    and ok: "\<forall>p. tr_readable t0 p \<and> tr_readable t1 p \<and> tr_writable t1 p" and source: "stays_source pj t1 owned"
    and scope: "set owned \<subseteq> set scopeFiles"
    and run: "rollback_changed_files pj t1 (snapshot_rollback_files pj t0 owned) extraFiles scopeFiles = (t', rb, fl)"
  shows "file_at t' p = (if p \<in> resolve (pj_root pj) ` set owned then file_at t0 p else file_at t1 p)"
proof -
  let ?snap = "snapshot_rollback_files pj t0 owned" and ?r = "resolve (pj_root pj)"
  let ?scope = "set_of (normalized pj t1 (scopeFiles @ extraFiles))"
  let ?changed = "changed_files_since_snapshot pj t1 ?snap ?scope"
  let ?by = "fold (add_reported pj t1 ?snap) extraFiles ?changed"
  let ?items = "filter (\<lambda>item. fst item \<in> set ?scope) ?by"
  have snap: "map_of ?snap rel = (if rel \<in> set owned then Some (save_file t0 (pj_root pj) rel) else None)" for rel
    using snapshot_of_owned [OF root _ owned source] ok by blast
  have norm: "normalize_rollback_path pj t1 (JStr rel) = Some rel" "rel \<in> set scopeFiles" if "rel \<in> set owned" for rel
    using owned_normalizes(1) [OF root, of rel t0 batch t1] that source scope owned(1) by (auto simp: stays_source_def)
  have inside: "rel \<in> set ?scope" "rel \<in> set (normalized pj t1 ?scope)" if "rel \<in> set owned" for rel
  proof -
    show 1: "rel \<in> set ?scope" using norm [OF that] by (auto simp: normalized_member)
    show "rel \<in> set (normalized pj t1 ?scope)" using 1 norm(1) [OF that] unfolding normalized_member [of rel pj t1 ?scope] by blast
  qed
  have scope_ne: "?scope \<noteq> []" using inside(1) owned(2) by (metis list.set_intros(1) neq_Nil_conv empty_iff empty_set)
  have changes: "(rel, k) \<in> set ?changed" if "rel \<in> set owned" "file_change pj t1 rel (save_file t0 (pj_root pj) rel) = Some k" for rel k
    using changed_member [OF scope_ne inside(2) [OF that(1)] _ that(2)] snap that(1) by simp
  have rest: "restorable pj ?snap ?items t1"
    unfolding restorable_def
  proof clarify
    fix rel kind b
    assume i: "(rel, kind) \<in> set ?items" "map_of ?snap rel = Some b" "\<not> sv_exists b" "kind \<noteq> ''added''"
    then have o: "rel \<in> set owned" and b: "b = save_file t0 (pj_root pj) rel" using snap by (auto split: if_splits)
    have "(rel, kind) \<notin> set ?changed"
    proof
      assume "(rel, kind) \<in> set ?changed"
      from changed_kind [OF scope_ne snapshot_distinct i(2) this] i(3,4) show False
        by (simp add: file_change_def Let_def split: if_splits)
    qed
    then have "map_of ?changed rel = None" using add_reported_kinds i(1) by (metis filter_is_subset subsetD)
    then have "file_change pj t1 rel b \<noteq> Some ''added''" using changes [OF o] b by (force simp: map_of_eq_None_iff)
    then show "file_at t1 (?r rel) = None" using i(3) by (auto simp: file_change_def Let_def split: if_splits)
  qed
  define K where "K = fst ` set ?items"
  have dom: "{rel \<in> fst ` set ?items. map_of ?snap rel \<noteq> None} = K \<inter> set owned" using snap by (auto simp: K_def)
  have at: "file_at t' p = (if p \<in> ?r ` (K \<inter> set owned) then file_at t0 p else file_at t1 p)"
    unfolding dom [symmetric]
    using run ok snap by (intro roll_back_all [OF _ _ rest]) (auto simp: rollback_changed_files_def Let_def split: if_splits)
  have same: "file_at t1 (?r rel) = file_at t0 (?r rel)" if o: "rel \<in> set owned" and out: "rel \<notin> K" for rel
  proof (rule unchanged_file [OF _ ok [rule_format, THEN conjunct2, THEN conjunct1]])
    show "file_change pj t1 rel (save_file t0 (pj_root pj) rel) = None"
    proof (rule ccontr)
      assume "file_change pj t1 rel (save_file t0 (pj_root pj) rel) \<noteq> None"
      then obtain k where "(rel, k) \<in> set ?changed" using changes [OF o] by blast
      then obtain k' where "map_of ?by rel = Some k'" by (metis add_reported_keys weak_map_of_SomeI)
      then have "rel \<in> K" unfolding K_def using inside(1) [OF o] by (force dest: map_of_SomeD)
      with out show False by simp
    qed
  qed
  show ?thesis
  proof (cases "p \<in> ?r ` set owned")
    case True
    then obtain rel where rel: "rel \<in> set owned" "p = ?r rel" by blast
    then show ?thesis using at same [OF rel(1)] by (cases "rel \<in> K") auto
  next
    case False
    with at show ?thesis by auto
  qed
qed

end
