(* ===== verification/Commit_Run.thy ===== *)
theory Commit_Run
  imports Commit_Rollback
begin

text \<open>
  \<open>commitManualEdits\<close> and its repair loop, the third part of
  \<open>live-commit-manual-edits.mjs\<close>. While the commit waits for an agent the rest of
  the world goes on: a call takes the files and the buffer to whatever the
  agent, the user and other requests make of them. \<open>buildManualEditEvidence\<close>
  (the search for likely places in the sources) is an argument.
\<close>

section \<open>The agent and the world\<close>

record commit_world =
  cw_tree :: tree
  cw_buffer :: buffer_file
  cw_calls :: nat

record commit_args =
  ca_project :: project
  ca_provider :: "nat \<Rightarrow> string option"
  ca_reply :: "nat \<Rightarrow> jsval \<Rightarrow> tree \<Rightarrow> buffer_file \<Rightarrow> (string + jsval option) \<times> tree \<times> buffer_file"
  ca_evidence :: "tree \<Rightarrow> buffer_file \<Rightarrow> jsval"
  ca_page :: jsval
  ca_attempts :: jsval
  ca_repair_only :: bool
  ca_transaction :: jsval
  ca_batch :: jsval

definition call_agent :: "commit_args \<Rightarrow> jsval \<Rightarrow> commit_world \<Rightarrow> (string + jsval) \<times> commit_world" where
  "call_agent c batch w =
    (let (reply, t, b) = ca_reply c (cw_calls w) batch (cw_tree w) (cw_buffer w)
     in (run_copy_edit_batch_agent (ca_provider c (cw_calls w)) batch reply,
         \<lparr>cw_tree = t, cw_buffer = b, cw_calls = Suc (cw_calls w)\<rparr>))"

section \<open>What a commit returns\<close>

definition count_props :: "buffer_file \<Rightarrow> props" where
  \<comment> \<open>\<open>...countByPage(cwd)\<close>\<close>
  "count_props b = (let (n, perPage) = count_by_page b in
     [(''totalCount'', jint (int n)), (''perPage'', JObj (map (\<lambda>(p, k). (p, jint (int k))) perPage))])"

definition commit_result :: "jsval list \<Rightarrow> jsval list \<Rightarrow> jsval list \<Rightarrow> nat \<Rightarrow> nat \<Rightarrow> jsval \<Rightarrow> props \<Rightarrow> buffer_file \<Rightarrow> jsval" where
  "commit_result applied failed touched cleared opCount page extra b = JObj ([
     (''applied'', JArr applied), (''failed'', JArr failed), (''files'', JArr touched),
     (''cleared'', jint (int cleared)), (''count'', jint (int opCount)), (''pageUrl'', page)] @ extra @ count_props b)"

definition count_ops :: "jsval list \<Rightarrow> nat" where
  "count_ops entries = sum_list (map (\<lambda>entry. length (ops_of entry)) entries)"

definition clear_applied_entries :: "string list \<Rightarrow> buffer_file \<Rightarrow> nat \<times> buffer_file" where
  "clear_applied_entries ids b =
    (if ids = [] then (0, b)
     else let gone = (\<lambda>e. be_id e \<in> set (map JStr ids)); es = read_buffer b in
       (sum_list (map (\<lambda>e. length (be_ops e)) (filter gone es)), write_buffer (filter (\<lambda>e. \<not> gone e) es)))"

definition result_list :: "jsval \<Rightarrow> string \<Rightarrow> jsval list" where
  \<comment> \<open>\<open>result.k || []\<close>\<close>
  "result_list result k = elems (get result k)"

definition rolled_back :: "commit_args \<Rightarrow> jsval \<Rightarrow> nat \<Rightarrow> (string \<times> saved_file) list \<Rightarrow> jsval list \<Rightarrow> string list \<Rightarrow>
    jsval list \<Rightarrow> props \<Rightarrow> commit_world \<Rightarrow> jsval \<times> commit_world" where
  \<comment> \<open>restore the scope and report failure; \<open>reported\<close> are the files the agent named\<close>
  "rolled_back c batch opCount snap reported scope failed extra w =
    (let (t, rolledBack, failures) =
           rollback_changed_files (ca_project c) (cw_tree w) snap (map str_of reported) scope;
         w = w\<lparr>cw_tree := t\<rparr>
     in (commit_result [] failed reported 0 opCount (ca_page c)
          (extra @ [(''rolledBackFiles'', JArr (map JStr rolledBack)), (''rollbackFailures'', JArr failures)]) (cw_buffer w), w))"

section \<open>Repairing\<close>

record repair =
  rp_files :: "string list"
  rp_ids :: "string list"
  rp_failed :: "jsval list"
  rp_notes :: "jsval list"
  rp_warnings :: "jsval list"
  rp_failures :: "jsval list"

definition reported_project_files :: "project \<Rightarrow> tree \<Rightarrow> jsval list \<Rightarrow> string list" where
  "reported_project_files pj t reported =
    List.map_filter (\<lambda>f. normalize_relative_file pj t (JStr f)) (unique_strings reported)"

definition verified_entries :: "project \<Rightarrow> tree \<Rightarrow> jsval \<Rightarrow> string list \<Rightarrow> string list \<Rightarrow> jsval list \<times> jsval list" where
  \<comment> \<open>of the entries reported applied: those found in the sources, and the failures of the others\<close>
  "verified_entries pj t batch ids reportedFiles =
    (let entries = filter (\<lambda>e. entry_id e \<in> set (map JStr ids)) (entries_of batch);
         passes = (\<lambda>e. verify_applied_entry pj t batch reportedFiles e = [])
     in (map entry_id (filter passes entries),
         map (\<lambda>e. JObj [(''id'', entry_id e), (''reason'', JStr ''source_verification_failed''),
             (''failures'', JArr (verify_applied_entry pj t batch reportedFiles e)),
             (''candidates'', JArr (candidates_for_entry batch (entry_id e)))]) (filter (\<lambda>e. \<not> passes e) entries)))"

definition verify_entries_after_repair :: "project \<Rightarrow> tree \<Rightarrow> jsval \<Rightarrow> string list \<Rightarrow> string list \<Rightarrow> jsval list \<times> jsval list" where
  "verify_entries_after_repair pj t batch ids fs =
    verified_entries pj t batch ids (reported_project_files pj t (map JStr fs))"

definition repair_request :: "commit_args \<Rightarrow> jsval \<Rightarrow> nat \<Rightarrow> repair \<Rightarrow> jsval" where
  "repair_request c reason attempt st = JObj [
     (''attempt'', jint (int attempt)), (''maxAttempts'', jint (int (repair_attempt_limit (ca_attempts c)))),
     (''transactionId'', js_or (ca_transaction c) JNull), (''reason'', reason),
     (''failures'', JArr (summarize_repair_failures (rp_failures st))),
     (''files'', JArr (map JStr (rp_files st))), (''pageUrl'', ca_page c)]"

definition absorb_repair :: "jsval \<Rightarrow> jsval \<Rightarrow> repair \<Rightarrow> repair" where
  "absorb_repair batch result st = st\<lparr>
     rp_files := unique_strings (map JStr (rp_files st) @ result_list result ''files''),
     rp_notes := rp_notes st @ result_list result ''notes'',
     rp_warnings := rp_warnings st @ result_list result ''warnings'',
     rp_ids := unique_strings (map JStr (rp_ids st) @ result_list result ''appliedEntryIds''),
     rp_failed := merge_failed_entries (rp_failed st @ normalize_failed_entries batch result (JStr ''repair_failed''))\<rparr>"

definition repaired :: "commit_args \<Rightarrow> jsval \<Rightarrow> nat \<Rightarrow> nat \<Rightarrow> repair \<Rightarrow> string list \<Rightarrow> commit_world \<Rightarrow> jsval \<times> commit_world" where
  "repaired c batch opCount attempt st verified w =
    (let (cleared, b) = clear_applied_entries verified (cw_buffer w)
     in (commit_result (summarize_applied_entries (entries_of batch) verified)
          (filter (\<lambda>item. get item ''id'' \<notin> set (map JStr verified)) (merge_failed_entries (rp_failed st)))
          (map JStr (rp_files st)) cleared opCount (ca_page c)
          [(''warnings'', JArr (rp_warnings st)), (''notes'', JArr (rp_notes st)),
           (''repair'', JObj [(''status'', JStr ''repaired''), (''attempts'', jint (int attempt)),
             (''maxAttempts'', jint (int (repair_attempt_limit (ca_attempts c)))),
             (''transactionId'', js_or (ca_transaction c) JNull)])] b,
         w\<lparr>cw_buffer := b\<rparr>))"

definition repair_attempt :: "commit_args \<Rightarrow> jsval \<Rightarrow> nat \<Rightarrow> jsval \<Rightarrow> nat \<Rightarrow> repair \<Rightarrow> commit_world \<Rightarrow>
    (repair + jsval) \<times> commit_world" where
  \<comment> \<open>\<open>Inl\<close> to go on with, \<open>Inr\<close> the result of the commit\<close>
  "repair_attempt c batch opCount reason attempt st w =
    (case call_agent c (build_repair_batch batch (repair_request c reason attempt st)) w of
       (Inl err, w) \<Rightarrow> (Inl (st\<lparr>rp_failures :=
          [JObj [(''reason'', JStr ''repair_agent_failed''), (''message'', JStr err)]]\<rparr>), w)
     | (Inr result, w) \<Rightarrow>
        let st = absorb_repair batch result st;
            (verified, unverified) = verify_entries_after_repair (ca_project c) (cw_tree w) batch (rp_ids st) (rp_files st)
        in if unverified \<noteq> [] then (Inl (st\<lparr>rp_failures := unverified\<rparr>), w)
           else let (bad, warned) = run_copy_edit_post_apply_checks (pj_checks (ca_project c)) (cw_tree w)
                      (pj_root (ca_project c)) (map JStr (rp_files st));
                    st = st\<lparr>rp_warnings := rp_warnings st @ warned\<rparr>
                in if bad \<noteq> [] then (Inl (st\<lparr>rp_failures := bad\<rparr>), w)
                   else let (res, w) = repaired c batch opCount attempt st (map str_of verified) w in (Inr res, w))"

definition needs_decision :: "commit_args \<Rightarrow> jsval \<Rightarrow> nat \<Rightarrow> jsval \<Rightarrow> repair \<Rightarrow> commit_world \<Rightarrow> jsval" where
  "needs_decision c batch opCount reason st w =
    (let undecided = (if rp_ids st \<noteq> []
           then map (\<lambda>e. JObj [(''id'', entry_id e), (''reason'', reason), (''checks'', JArr (rp_failures st)),
                (''candidates'', JArr (candidates_for_entry batch (entry_id e)))])
              (filter (\<lambda>e. entry_id e \<in> set (map JStr (rp_ids st))) (entries_of batch))
           else verification_failures_for_entries batch (entries_of batch) reason [(''checks'', JArr (rp_failures st))])
     in commit_result [] (merge_failed_entries (undecided @ rp_failed st)) (map JStr (rp_files st)) 0 opCount (ca_page c)
          [(''warnings'', JArr (rp_warnings st)), (''notes'', JArr (rp_notes st)),
           (''reason'', JStr ''manual_edit_repair_needs_decision''), (''needsManualDecision'', JBool True),
           (''repair'', JObj [(''status'', JStr ''needs_decision''),
             (''attempts'', jint (int (repair_attempt_limit (ca_attempts c)))),
             (''maxAttempts'', jint (int (repair_attempt_limit (ca_attempts c)))),
             (''transactionId'', js_or (ca_transaction c) JNull),
             (''failures'', JArr (summarize_repair_failures (rp_failures st))),
             (''files'', JArr (map JStr (rp_files st)))])] (cw_buffer w))"

fun repair_loop :: "commit_args \<Rightarrow> jsval \<Rightarrow> nat \<Rightarrow> jsval \<Rightarrow> nat \<Rightarrow> nat \<Rightarrow> repair \<Rightarrow> commit_world \<Rightarrow> jsval \<times> commit_world" where
  \<comment> \<open>the attempts left, and the number of the next one\<close>
  "repair_loop c batch opCount reason 0 attempt st w = (needs_decision c batch opCount reason st w, w)"
| "repair_loop c batch opCount reason (Suc left) attempt st w =
    (case repair_attempt c batch opCount reason attempt st w of
       (Inl st, w) \<Rightarrow> repair_loop c batch opCount reason left (Suc attempt) st w
     | (Inr result, w) \<Rightarrow> (result, w))"

definition repair_post_apply_validation :: "commit_args \<Rightarrow> jsval \<Rightarrow> nat \<Rightarrow> jsval \<Rightarrow> repair \<Rightarrow> commit_world \<Rightarrow> jsval \<times> commit_world" where
  "repair_post_apply_validation c batch opCount reason st w =
    repair_loop c batch opCount reason (repair_attempt_limit (ca_attempts c)) 1 st w"

section \<open>One commit\<close>

definition finish_commit :: "commit_args \<Rightarrow> jsval \<Rightarrow> nat \<Rightarrow> jsval \<Rightarrow> string list \<Rightarrow> jsval list \<Rightarrow> jsval list \<Rightarrow> commit_world \<Rightarrow> jsval \<times> commit_world" where
  \<comment> \<open>every check passed: clear what was verified\<close>
  "finish_commit c batch opCount result verified failed warned w =
    (let (cleared, b) = clear_applied_entries verified (cw_buffer w)
     in (commit_result (summarize_applied_entries (entries_of batch) verified) failed (result_list result ''files'')
          cleared opCount (ca_page c)
          [(''warnings'', JArr (result_list result ''warnings'' @ warned)), (''notes'', JArr (result_list result ''notes''))] b,
         w\<lparr>cw_buffer := b\<rparr>))"

definition check_and_finish :: "commit_args \<Rightarrow> jsval \<Rightarrow> nat \<Rightarrow> jsval \<Rightarrow> string list \<Rightarrow> jsval list \<Rightarrow> commit_world \<Rightarrow> jsval \<times> commit_world" where
  \<comment> \<open>from the checks of the touched files on\<close>
  "check_and_finish c batch opCount result verified failed w =
    (let (bad, warned) = run_copy_edit_post_apply_checks (pj_checks (ca_project c)) (cw_tree w)
           (pj_root (ca_project c)) (result_list result ''files'')
     in if bad \<noteq> []
        then repair_post_apply_validation c batch opCount (JStr ''post_apply_validation_failed'')
          \<lparr>rp_files = unique_strings (result_list result ''files''),
            rp_ids = (if verified \<noteq> [] then unique_strings (map JStr verified) else unique_strings (all_entry_ids batch)),
            rp_failed = failed, rp_notes = result_list result ''notes'',
            rp_warnings = result_list result ''warnings'' @ warned, rp_failures = bad\<rparr> w
        else finish_commit c batch opCount result verified failed warned w)"

definition repair_from :: "jsval \<Rightarrow> string list \<Rightarrow> jsval list \<Rightarrow> jsval list \<Rightarrow> repair" where
  \<comment> \<open>the loop's state after a first result\<close>
  "repair_from result ids failed failures = \<lparr>rp_files = unique_strings (result_list result ''files''),
     rp_ids = unique_strings (map JStr ids), rp_failed = failed, rp_notes = result_list result ''notes'',
     rp_warnings = result_list result ''warnings'', rp_failures = failures\<rparr>"

definition verify_and_finish :: "commit_args \<Rightarrow> jsval \<Rightarrow> nat \<Rightarrow> (string \<times> saved_file) list \<Rightarrow> jsval \<Rightarrow> string list \<Rightarrow>
    string list \<Rightarrow> jsval list \<Rightarrow> string list \<Rightarrow> commit_world \<Rightarrow> jsval \<times> commit_world" where
  \<comment> \<open>from the verification of the entries reported applied on\<close>
  "verify_and_finish c batch opCount snap result ids reportedFiles aiFailed scope w =
    (let pj = ca_project c; t = cw_tree w;
         (verified, unverified) = verified_entries pj t batch ids reportedFiles;
         missing = (\<lambda>e. entry_id e \<notin> set (map JStr ids));
         unreported = (if get result ''status'' \<in> {JStr ''done'', JStr ''partial''}
           then filter (\<lambda>e. missing e \<and> \<not> (\<exists>f \<in> set aiFailed. get f ''id'' = entry_id e)) (entries_of batch) else []);
         nonRepairFailed = verification_failures_for_entries batch unreported (JStr ''not_reported_applied'') [] @ aiFailed;
         failed = unverified @ nonRepairFailed;
         leaked = find_unapplied_entry_source_changes pj t snap batch reportedFiles (filter missing (entries_of batch))
     in if leaked \<noteq> [] then rolled_back c batch opCount snap (result_list result ''files'') scope
          (leaked @ filter (\<lambda>item. get item ''id'' \<notin> set (filter truthy (map (\<lambda>l. get l ''id'') leaked))) failed @
           map (\<lambda>i. JObj [(''id'', i), (''reason'', JStr ''rolled_back_due_to_failed_entry_source_changed''),
             (''candidates'', JArr (candidates_for_entry batch i))]) verified)
          [(''notes'', JArr (result_list result ''notes''))] w
        else if unverified \<noteq> []
        then repair_post_apply_validation c batch opCount (JStr ''source_verification_failed'')
          (repair_from result ids nonRepairFailed unverified) w
        else check_and_finish c batch opCount result (map str_of verified) failed w)"

definition settle_result :: "commit_args \<Rightarrow> jsval \<Rightarrow> nat \<Rightarrow> (string \<times> saved_file) list \<Rightarrow> jsval \<Rightarrow> commit_world \<Rightarrow> jsval \<times> commit_world" where
  \<comment> \<open>what becomes of a result that is no error\<close>
  "settle_result c batch opCount snap result w =
    (let pj = ca_project c; t = cw_tree w; reported = result_list result ''files'';
         ids = unique_strings (result_list result ''appliedEntryIds'');
         reportedFiles = reported_project_files pj t reported;
         aiFailed = normalize_failed_entries batch result (JStr ''AI copy edit failed'');
         scope = collect_apply_owned_files pj t batch reported;
         conflicting = filter (\<lambda>i. JStr i \<in> set (map (\<lambda>f. get f ''id'') aiFailed)) ids;
         in_conflict = (\<lambda>v. v \<in> set (map JStr conflicting));
         unreported = unreported_changed_files pj t snap (map str_of reported) scope;
         notes = [(''notes'', JArr (result_list result ''notes''))];
         failing = (\<lambda>entries reason extra. verification_failures_for_entries batch entries (JStr reason) extra)
     in if conflicting \<noteq> [] then rolled_back c batch opCount snap reported scope
          (failing (filter (\<lambda>e. in_conflict (entry_id e)) (entries_of batch)) ''conflicting_apply_result'' [] @
           filter (\<lambda>item. \<not> in_conflict (get item ''id'')) aiFailed) notes w
        else if unreported \<noteq> [] then rolled_back c batch opCount snap reported (scope @ unreported)
          (failing (entries_of batch) ''unreported_source_changes'' [(''files'', JArr (map JStr unreported))])
          ((''unreportedFiles'', JArr (map JStr unreported)) # notes) w
        else if get result ''status'' = JStr ''done'' \<and> ids = [] then rolled_back c batch opCount snap reported scope
          (failing (entries_of batch) ''missing_applied_entry_ids'' []) notes w
        else if ids \<noteq> [] \<and> reportedFiles = []
        then repair_post_apply_validation c batch opCount (JStr ''missing_touched_files'')
          (repair_from result ids aiFailed (failing (filter (\<lambda>e. entry_id e \<in> set (map JStr ids)) (entries_of batch))
             ''missing_touched_files'' [])) w
        else verify_and_finish c batch opCount snap result ids reportedFiles aiFailed scope w)"

definition first_result :: "commit_args \<Rightarrow> jsval \<Rightarrow> commit_world \<Rightarrow> (string + jsval) \<times> commit_world" where
  "first_result c batch w =
    (if ca_repair_only c
     then (Inr (JObj [(''status'', JStr ''done''), (''appliedEntryIds'', JArr (all_entry_ids batch)), (''failed'', JArr []),
        (''files'', JArr (map JStr (collect_apply_owned_files (ca_project c) (cw_tree w) batch []))),
        (''notes'', JArr [JStr ''repair-only validation pass''])]), w)
     else call_agent c batch w)"

definition run_batch :: "commit_args \<Rightarrow> jsval \<Rightarrow> nat \<Rightarrow> commit_world \<Rightarrow> jsval \<times> commit_world" where
  "run_batch c batch opCount w =
    (let pj = ca_project c;
         owned = collect_apply_owned_files pj (cw_tree w) batch [];
         snap = snapshot_rollback_files pj (cw_tree w) owned
     in case first_result c batch w of
          (Inl err, w) \<Rightarrow> rolled_back c batch opCount snap [] owned
            (verification_failures_for_entries batch (entries_of batch) (JStr err) []) [] w
        | (Inr result, w) \<Rightarrow>
            if get result ''status'' = JStr ''error''
            then let reason = js_or (get result ''message'') (JStr ''AI copy edit failed'');
                     failed = normalize_failed_entries batch result reason
                 in rolled_back c batch opCount snap (result_list result ''files'')
                   (collect_apply_owned_files pj (cw_tree w) batch (result_list result ''files''))
                   (if failed \<noteq> [] then failed else verification_failures_for_entries batch (entries_of batch) reason [])
                   [(''notes'', JArr (result_list result ''notes''))] w
            else settle_result c batch opCount snap result w)"

definition commit_manual_edits :: "commit_args \<Rightarrow> commit_world \<Rightarrow> jsval \<times> commit_world" where
  "commit_manual_edits c w =
    (case read_buffer_strict (cw_buffer w) of
       Inl err \<Rightarrow> (commit_result [] [] [] 0 0 (ca_page c) [(''reason'', JStr ''manual_edit_buffer_invalid''),
         (''message'', JStr (case err of TypeError m \<Rightarrow> m | Thrown m \<Rightarrow> m))] (cw_buffer w), w)
     | Inr _ \<Rightarrow>
       let batch = js_or (ca_batch c) (ca_evidence c (cw_tree w) (cw_buffer w)); opCount = count_ops (entries_of batch)
       in if opCount = 0
          then (commit_result [] [] [] 0 0 (ca_page c) [(''reason'', JStr ''no_pending_edits'')] (cw_buffer w), w)
          else run_batch c batch opCount w)"

end
