(* ===== verification/Commit_Properties.thy ===== *)
theory Commit_Properties
  imports Commit_Run
begin

text \<open>
  What a commit of staged copy edits keeps to, whatever its agent does: a commit
  that reports a rollback has restored the batch's files and cleared nothing,
  what is cleared from the buffer was found in the sources, and the agent is
  called a bounded number of times.
\<close>

section \<open>The shape of results\<close>

lemma commit_result_get:
  "get (commit_result applied failed touched cleared n page extra b) ''applied'' = JArr applied"
  "get (commit_result applied failed touched cleared n page extra b) ''files'' = JArr touched"
  "get (commit_result applied failed touched cleared n page extra b) ''rolledBackFiles'' = field extra ''rolledBackFiles''"
  "get (commit_result applied failed touched cleared n page extra b) ''needsManualDecision'' = field extra ''needsManualDecision''"
  by (simp_all add: commit_result_def count_props_def field_def map_add_def split: prod.split option.split)

text \<open>
  Two ways to end: by clearing the verified entries of a batch in a world where
  the checks pass, or with the buffer as it is.
\<close>

definition clears :: "commit_args \<Rightarrow> jsval \<Rightarrow> string list \<Rightarrow> jsval \<Rightarrow> buffer_file \<Rightarrow> commit_world \<Rightarrow> bool" where
  "clears c batch ids result b w \<longleftrightarrow>
    cw_buffer w = snd (clear_applied_entries ids b) \<and>
    get result ''applied'' = JArr (summarize_applied_entries (entries_of batch) ids) \<and>
    (ids \<noteq> [] \<longrightarrow> fst (run_copy_edit_post_apply_checks (pj_checks (ca_project c)) (cw_tree w) (pj_root (ca_project c))
       (elems (get result ''files''))) = []) \<and>
    (\<forall>e \<in> set (entries_of batch). entry_id e \<in> set (map JStr ids) \<longrightarrow>
       verify_applied_entry (ca_project c) (cw_tree w) batch
         (reported_project_files (ca_project c) (cw_tree w) (elems (get result ''files''))) e = [])"

definition same_buffer :: "commit_args \<Rightarrow> bool" where
  \<comment> \<open>nobody stages or discards while the commit waits\<close>
  "same_buffer c \<longleftrightarrow> (\<forall>n batch t b. snd (snd (ca_reply c n batch t b)) = b)"

lemma clears_nothing: "get result ''applied'' = JArr [] \<Longrightarrow> clears c batch [] result (cw_buffer w) w"
  by (simp add: clears_def clear_applied_entries_def summarize_applied_entries_def)

lemma call_agent_world:
  assumes "call_agent c batch w = (r, w')"
  shows "cw_calls w' = Suc (cw_calls w)" "same_buffer c \<Longrightarrow> cw_buffer w' = cw_buffer w"
    "r = Inr result \<Longrightarrow> result_form result"
proof -
  obtain reply t b where r: "ca_reply c (cw_calls w) batch (cw_tree w) (cw_buffer w) = (reply, t, b)" by (metis prod.exhaust)
  with assms have w': "w' = \<lparr>cw_tree = t, cw_buffer = b, cw_calls = Suc (cw_calls w)\<rparr>"
    and rr: "r = run_copy_edit_batch_agent (ca_provider c (cw_calls w)) batch reply" by (simp_all add: call_agent_def)
  show "cw_calls w' = Suc (cw_calls w)" by (simp add: w')
  show "cw_buffer w' = cw_buffer w" if s: "same_buffer c"
  proof -
    have "snd (snd (ca_reply c (cw_calls w) batch (cw_tree w) (cw_buffer w))) = cw_buffer w" using s by (simp add: same_buffer_def)
    with r show ?thesis by (simp add: w')
  qed
  show "result_form result" if "r = Inr result" using that agent_result_form rr by metis
qed

section \<open>The repair loop\<close>

lemma verified_entries_pass:
  assumes "verified_entries pj t batch ids fs = (verified, unverified)" "unverified = []"
    and "e \<in> set (entries_of batch)" "entry_id e \<in> set (map JStr (map str_of verified))"
  shows "verify_applied_entry pj t batch fs e = []"
proof -
  have "set verified \<subseteq> set (map JStr ids)" using assms(1) by (auto simp: verified_entries_def Let_def)
  with assms(4) have "entry_id e \<in> set (map JStr ids)" by auto
  then show ?thesis using assms(1,2,3) by (auto simp: verified_entries_def Let_def filter_empty_conv)
qed

lemma repaired_clears:
  assumes "repaired c batch n attempt st ids w = (result, w')"
    and "fst (run_copy_edit_post_apply_checks (pj_checks (ca_project c)) (cw_tree w) (pj_root (ca_project c)) (map JStr (rp_files st))) = []"
    and "\<And>e. e \<in> set (entries_of batch) \<Longrightarrow> entry_id e \<in> set (map JStr ids) \<Longrightarrow>
      verify_applied_entry (ca_project c) (cw_tree w) batch
        (reported_project_files (ca_project c) (cw_tree w) (map JStr (rp_files st))) e = []"
  shows "clears c batch ids result (cw_buffer w) w'" "get result ''rolledBackFiles'' = JUndef"
    "get result ''needsManualDecision'' = JUndef" "cw_calls w' = cw_calls w"
proof -
  obtain k b where b: "clear_applied_entries ids (cw_buffer w) = (k, b)" by (metis prod.exhaust)
  have w': "w' = w\<lparr>cw_buffer := b\<rparr>" using assms(1) b by (simp add: repaired_def)
  have res: "get result ''applied'' = JArr (summarize_applied_entries (entries_of batch) ids)"
    "get result ''files'' = JArr (map JStr (rp_files st))" "get result ''rolledBackFiles'' = JUndef"
    "get result ''needsManualDecision'' = JUndef"
    using assms(1) b by (auto simp: repaired_def commit_result_get)
  show "clears c batch ids result (cw_buffer w) w'"
    unfolding clears_def w' using b res assms(2,3) by simp
  show "get result ''rolledBackFiles'' = JUndef" "get result ''needsManualDecision'' = JUndef" "cw_calls w' = cw_calls w"
    using res by (simp_all add: w')
qed

lemma repair_attempt_cases:
  assumes "repair_attempt c batch n reason attempt st w = (r, w')"
  obtains (goes_on) r0 st' where "call_agent c (build_repair_batch batch (repair_request c reason attempt st)) w = (r0, w')" "r = Inl st'"
  | (ends) res w0 and st1 st2 :: repair and verified result where
      "call_agent c (build_repair_batch batch (repair_request c reason attempt st)) w = (Inr res, w0)"
      "verify_entries_after_repair (ca_project c) (cw_tree w0) batch (rp_ids st1) (rp_files st1) = (verified, [])"
      "fst (run_copy_edit_post_apply_checks (pj_checks (ca_project c)) (cw_tree w0) (pj_root (ca_project c)) (map JStr (rp_files st1))) = []"
      "repaired c batch n attempt st2 (map str_of verified) w0 = (result, w')" "r = Inr result" "rp_files st2 = rp_files st1"
proof -
  obtain r0 w0 where c0: "call_agent c (build_repair_batch batch (repair_request c reason attempt st)) w = (r0, w0)"
    by (metis prod.exhaust)
  show thesis
  proof (cases r0)
    case (Inl err)
    with assms c0 goes_on show thesis by (auto simp: repair_attempt_def)
  next
    case (Inr res)
    define st1 where "st1 = absorb_repair batch res st"
    obtain verified unverified where v:
      "verify_entries_after_repair (ca_project c) (cw_tree w0) batch (rp_ids st1) (rp_files st1) = (verified, unverified)"
      by (metis prod.exhaust)
    obtain bad warned where k: "run_copy_edit_post_apply_checks (pj_checks (ca_project c)) (cw_tree w0)
        (pj_root (ca_project c)) (map JStr (rp_files st1)) = (bad, warned)" by (metis prod.exhaust)
    define st2 where "st2 = st1\<lparr>rp_warnings := rp_warnings st1 @ warned\<rparr>"
    obtain result w2 where p: "repaired c batch n attempt st2 (map str_of verified) w0 = (result, w2)" by (metis prod.exhaust)
    note run = assms [unfolded repair_attempt_def c0 prod.case Inr sum.case Let_def, folded st1_def, unfolded v prod.case]
    show thesis
    proof (cases "unverified = []")
      case False
      with run have "r = Inl (st1\<lparr>rp_failures := unverified\<rparr>)" "w' = w0" by simp_all
      with c0 goes_on show thesis by blast
    next
      case True
      note run1 = run [unfolded True, unfolded simp_thms if_False k prod.case, folded st2_def]
      show thesis
      proof (cases "bad = []")
        case False
        with run1 have "r = Inl (st2\<lparr>rp_failures := bad\<rparr>)" "w' = w0" by simp_all
        with c0 goes_on show thesis by blast
      next
        case bad: True
        with run1 p have "r = Inr result" "w' = w2" by simp_all
        with c0 Inr v k p True bad show thesis by (intro ends [of res w0 st1 verified st2 result]) (simp_all add: st2_def)
      qed
    qed
  qed
qed

definition attempt_ok :: "commit_args \<Rightarrow> jsval \<Rightarrow> commit_world \<Rightarrow> repair + jsval \<Rightarrow> commit_world \<Rightarrow> bool" where
  "attempt_ok c batch w r w' \<longleftrightarrow> cw_calls w' = Suc (cw_calls w) \<and> (case r of
      Inl st' \<Rightarrow> same_buffer c \<longrightarrow> cw_buffer w' = cw_buffer w
    | Inr result \<Rightarrow> get result ''rolledBackFiles'' = JUndef \<and> get result ''needsManualDecision'' = JUndef \<and>
        (same_buffer c \<longrightarrow> (\<exists>ids. clears c batch ids result (cw_buffer w) w')))"

lemma repair_attempt_ok:
  assumes "repair_attempt c batch n reason attempt st w = (r, w')"
  shows "attempt_ok c batch w r w'"
proof -
  from assms show ?thesis
  proof (cases rule: repair_attempt_cases)
    case goes_on
    with call_agent_world show ?thesis by (fastforce simp: attempt_ok_def)
  next
    case ends
    note w0 = call_agent_world(1,2) [OF ends(1)]
    note v = ends(2) [unfolded verify_entries_after_repair_def]
    note cl = repaired_clears [OF ends(4), unfolded ends(6), OF ends(3) verified_entries_pass [OF v refl]]
    show ?thesis unfolding attempt_ok_def ends(5) sum.case using cl w0 by auto
  qed
qed

lemma needs_decision_get:
  "get (needs_decision c batch n reason st w) ''rolledBackFiles'' = JUndef"
  "get (needs_decision c batch n reason st w) ''needsManualDecision'' = JBool True"
  "get (needs_decision c batch n reason st w) ''applied'' = JArr []"
  by (simp_all add: needs_decision_def Let_def commit_result_get)

text \<open>The loop ends: it calls the agent once per attempt, and gives up only when none is left.\<close>

definition loop_ok :: "commit_args \<Rightarrow> jsval \<Rightarrow> nat \<Rightarrow> commit_world \<Rightarrow> jsval \<Rightarrow> commit_world \<Rightarrow> bool" where
  "loop_ok c batch left w result w' \<longleftrightarrow> get result ''rolledBackFiles'' = JUndef \<and> cw_calls w' \<le> cw_calls w + left \<and>
    (get result ''needsManualDecision'' = JUndef \<or> cw_calls w' = cw_calls w + left) \<and>
    (same_buffer c \<longrightarrow> (\<exists>ids. clears c batch ids result (cw_buffer w) w'))"

lemma repair_loop_ok: "loop_ok c batch left w (fst (repair_loop c batch n reason left attempt st w)) (snd (repair_loop c batch n reason left attempt st w))"
proof (induction left arbitrary: attempt st w)
  case 0
  have "clears c batch [] (needs_decision c batch n reason st w) (cw_buffer w) w"
    by (rule clears_nothing) (rule needs_decision_get)
  then show ?case by (auto simp: loop_ok_def needs_decision_get)
next
  case (Suc left)
  obtain r w1 where r: "repair_attempt c batch n reason attempt st w = (r, w1)" by (metis prod.exhaust)
  note ok = repair_attempt_ok [OF r]
  show ?case
  proof (cases r)
    case (Inl st1)
    with ok have "cw_calls w1 = Suc (cw_calls w)" "same_buffer c \<Longrightarrow> cw_buffer w1 = cw_buffer w" by (simp_all add: attempt_ok_def)
    then show ?thesis using Suc.IH [of w1 "Suc attempt" st1] r Inl by (auto simp: loop_ok_def)
  next
    case (Inr result)
    with ok r show ?thesis by (simp add: loop_ok_def attempt_ok_def)
  qed
qed

section \<open>Every way a commit ends\<close>

definition rolls :: "commit_args \<Rightarrow> jsval \<Rightarrow> string list \<Rightarrow> (string \<times> saved_file) list \<Rightarrow> commit_world \<Rightarrow> jsval \<Rightarrow> commit_world \<Rightarrow> bool" where
  \<comment> \<open>a rollback whose scope has the files the batch names\<close>
  "rolls c batch owned snap w result w' \<longleftrightarrow> (\<exists>n reported scope failed extra.
     (set owned \<subseteq> set scope \<or> set (collect_apply_owned_files (ca_project c) (cw_tree w) batch reported) \<subseteq> set scope) \<and>
     field extra ''needsManualDecision'' = JUndef \<and> rolled_back c batch n snap reported scope failed extra w = (result, w'))"

lemma rolled_back_effect:
  assumes "rolled_back c batch n snap reported scope failed extra w = (result, w')"
  shows "cw_buffer w' = cw_buffer w" "cw_calls w' = cw_calls w" "get result ''applied'' = JArr []"
    "field extra ''needsManualDecision'' = JUndef \<Longrightarrow> get result ''needsManualDecision'' = JUndef"
    "\<exists>rb fl. rollback_changed_files (ca_project c) (cw_tree w) snap (map str_of reported) scope = (cw_tree w', rb, fl)"
  using assms by (auto simp: rolled_back_def commit_result_get field_def map_add_def split: prod.splits option.splits)

lemma rollsI:
  assumes "rolled_back c batch n snap reported scope failed extra w = (result, w')"
    and "set owned \<subseteq> set scope \<or> set (collect_apply_owned_files (ca_project c) (cw_tree w) batch reported) \<subseteq> set scope"
    and "field extra ''needsManualDecision'' = JUndef"
  shows "rolls c batch owned snap w result w'"
  using assms unfolding rolls_def by blast

abbreviation attempts :: "commit_args \<Rightarrow> nat" where
  "attempts c \<equiv> repair_attempt_limit (ca_attempts c)"

lemma repair_ok:
  "repair_post_apply_validation c batch n reason st w = (result, w') \<Longrightarrow> loop_ok c batch (attempts c) w result w'"
  using repair_loop_ok [of c batch "attempts c" w n reason 1 st] by (simp add: repair_post_apply_validation_def)

lemma finish_ok:
  assumes "check_and_finish c batch n result (map str_of verified) failed w = (res, w')"
    and v: "verified_entries (ca_project c) (cw_tree w) batch ids
      (reported_project_files (ca_project c) (cw_tree w) (result_list result ''files'')) = (verified, [])"
    and form: "is_arr (get result ''files'')"
  shows "loop_ok c batch (attempts c) w res w'"
proof -
  let ?verified = "map str_of verified"
  obtain bad warned where k: "run_copy_edit_post_apply_checks (pj_checks (ca_project c)) (cw_tree w)
      (pj_root (ca_project c)) (result_list result ''files'') = (bad, warned)" by (metis prod.exhaust)
  show ?thesis
  proof (cases "bad = []")
    case False
    with assms(1) k show ?thesis using repair_ok by (auto simp: check_and_finish_def)
  next
    case True
    obtain m b where b: "clear_applied_entries ?verified (cw_buffer w) = (m, b)" by (metis prod.exhaust)
    have fin: "finish_commit c batch n result ?verified failed warned w = (res, w')"
      using assms(1) k True by (simp add: check_and_finish_def)
    then have w': "w' = w\<lparr>cw_buffer := b\<rparr>" and res: "get res ''files'' = JArr (result_list result ''files'')"
      "get res ''applied'' = JArr (summarize_applied_entries (entries_of batch) ?verified)"
      "get res ''rolledBackFiles'' = JUndef" "get res ''needsManualDecision'' = JUndef"
      using b by (auto simp: finish_commit_def commit_result_get)
    have "clears c batch ?verified res (cw_buffer w) w'"
      unfolding clears_def using b k True res verified_entries_pass [OF v refl] by (simp add: w')
    then show ?thesis using res by (auto simp: loop_ok_def w')
  qed
qed

lemma verify_ok:
  assumes "verify_and_finish c batch n snap result ids reportedFiles aiFailed scope w = (res, w')"
    and "reportedFiles = reported_project_files (ca_project c) (cw_tree w) (result_list result ''files'')"
    and "scope = collect_apply_owned_files (ca_project c) (cw_tree w) batch (result_list result ''files'')"
    and "is_arr (get result ''files'')"
  shows "rolls c batch owned snap w res w' \<or> loop_ok c batch (attempts c) w res w'"
proof -
  obtain verified unverified where v: "verified_entries (ca_project c) (cw_tree w) batch ids reportedFiles = (verified, unverified)"
    by (metis prod.exhaust)
  note run = assms(1) [unfolded verify_and_finish_def Let_def v prod.case]
  show ?thesis
  proof (cases "find_unapplied_entry_source_changes (ca_project c) (cw_tree w) snap batch reportedFiles
      (filter (\<lambda>e. entry_id e \<notin> set (map JStr ids)) (entries_of batch)) = []")
    case False
    note run' = run [unfolded if_P [OF False]]
    show ?thesis by (rule disjI1, rule rollsI [OF run']) (simp_all add: assms(3))
  next
    case noleak: True
    note run' = run [unfolded noleak simp_thms if_False]
    show ?thesis
    proof (cases "unverified = []")
      case False
      with run' show ?thesis using repair_ok by auto
    next
      case True
      with run' have "\<exists>failed. check_and_finish c batch n result (map str_of verified) failed w = (res, w')" by auto
      then show ?thesis using finish_ok v True assms(2,4) by blast
    qed
  qed
qed

lemma settle_ok:
  assumes "settle_result c batch n snap result w = (res, w')" and "is_arr (get result ''files'')"
  shows "rolls c batch owned snap w res w' \<or> loop_ok c batch (attempts c) w res w'"
proof -
  let ?pj = "ca_project c" and ?reported = "result_list result ''files''"
  let ?scope = "collect_apply_owned_files ?pj (cw_tree w) batch ?reported"
  let ?ids = "unique_strings (result_list result ''appliedEntryIds'')"
  let ?ai = "normalize_failed_entries batch result (JStr ''AI copy edit failed'')"
  let ?conflicting = "filter (\<lambda>i. JStr i \<in> set (map (\<lambda>f. get f ''id'') ?ai)) ?ids"
  let ?unreported = "unreported_changed_files ?pj (cw_tree w) snap (map str_of ?reported) ?scope"
  note run = assms(1) [unfolded settle_result_def Let_def]
  show ?thesis
  proof (cases "?conflicting = []")
    case False
    show ?thesis by (rule disjI1, rule rollsI [OF run [unfolded if_P [OF False]]]) simp_all
  next
    case c: True
    show ?thesis
    proof (cases "?unreported = []")
      case False
      show ?thesis by (rule disjI1, rule rollsI [OF run [unfolded c simp_thms if_False if_P [OF False]]]) auto
    next
      case u: True
      note run1 = run [unfolded c u simp_thms if_False]
      show ?thesis
      proof (cases "get result ''status'' = JStr ''done'' \<and> ?ids = []")
        case True
        show ?thesis by (rule disjI1, rule rollsI [OF run1 [unfolded if_P [OF True]]]) simp_all
      next
        case m: False
        note run2 = run1 [unfolded if_not_P [OF m]]
        show ?thesis
        proof (cases "?ids \<noteq> [] \<and> reported_project_files ?pj (cw_tree w) ?reported = []")
          case True
          show ?thesis by (rule disjI2, rule repair_ok, rule run2 [unfolded if_P [OF True]])
        next
          case False
          show ?thesis by (rule verify_ok [OF run2 [unfolded if_not_P [OF False]] refl refl assms(2)])
        qed
      qed
    qed
  qed
qed

text \<open>The batch of a commit, the files it owns, and the world after the agent's first reply.\<close>

definition commit_batch :: "commit_args \<Rightarrow> commit_world \<Rightarrow> jsval" where
  "commit_batch c w = js_or (ca_batch c) (ca_evidence c (cw_tree w) (cw_buffer w))"

definition owned_files :: "commit_args \<Rightarrow> commit_world \<Rightarrow> string list" where
  "owned_files c w = collect_apply_owned_files (ca_project c) (cw_tree w) (commit_batch c w) []"

definition after_reply :: "commit_args \<Rightarrow> commit_world \<Rightarrow> commit_world" where
  "after_reply c w = snd (first_result c (commit_batch c w) w)"

lemma first_result_world:
  assumes "first_result c batch w = (r, w1)"
  shows "cw_calls w1 = cw_calls w + (if ca_repair_only c then 0 else 1)" "same_buffer c \<Longrightarrow> cw_buffer w1 = cw_buffer w"
    "r = Inr result \<Longrightarrow> is_arr (get result ''files'')"
proof -
  have "cw_calls w1 = cw_calls w + (if ca_repair_only c then 0 else 1) \<and> (same_buffer c \<longrightarrow> cw_buffer w1 = cw_buffer w) \<and>
      (r = Inr result \<longrightarrow> is_arr (get result ''files''))"
  proof (cases "ca_repair_only c")
    case True
    with assms show ?thesis by (auto simp: first_result_def)
  next
    case False
    then have "call_agent c batch w = (r, w1)" using assms by (simp add: first_result_def)
    with call_agent_world [OF this] False show ?thesis by (auto simp: result_form_def)
  qed
  then show "cw_calls w1 = cw_calls w + (if ca_repair_only c then 0 else 1)" "same_buffer c \<Longrightarrow> cw_buffer w1 = cw_buffer w"
    "r = Inr result \<Longrightarrow> is_arr (get result ''files'')" by blast+
qed

lemma run_batch_ok:
  assumes "run_batch c batch n w = (res, w')"
  shows "\<exists>w1. w1 = snd (first_result c batch w) \<and>
    (rolls c batch (collect_apply_owned_files (ca_project c) (cw_tree w) batch [])
       (snapshot_rollback_files (ca_project c) (cw_tree w) (collect_apply_owned_files (ca_project c) (cw_tree w) batch [])) w1 res w' \<or>
     loop_ok c batch (attempts c) w1 res w')"
proof -
  let ?owned = "collect_apply_owned_files (ca_project c) (cw_tree w) batch []"
  obtain r w1 where r: "first_result c batch w = (r, w1)" by (metis prod.exhaust)
  note run = assms [unfolded run_batch_def Let_def r prod.case]
  have "rolls c batch ?owned (snapshot_rollback_files (ca_project c) (cw_tree w) ?owned) w1 res w' \<or>
     loop_ok c batch (attempts c) w1 res w'"
  proof (cases r)
    case (Inl err)
    show ?thesis by (rule disjI1, rule rollsI [OF run [unfolded Inl sum.case]]) simp_all
  next
    case (Inr result)
    note run1 = run [unfolded Inr sum.case]
    show ?thesis
    proof (cases "get result ''status'' = JStr ''error''")
      case True
      show ?thesis by (rule disjI1, rule rollsI [OF run1 [unfolded if_P [OF True]]]) simp_all
    next
      case False
      show ?thesis using settle_ok [OF run1 [unfolded if_not_P [OF False]]] first_result_world(3) [OF r] Inr by blast
    qed
  qed
  with r show ?thesis by simp
qed

text \<open>
  A commit stops at once, with the world as it was, or works on the batch.
\<close>

lemma commit_ok:
  assumes "commit_manual_edits c w = (res, w')"
  shows "(w' = w \<and> get res ''applied'' = JArr [] \<and> get res ''rolledBackFiles'' = JUndef \<and> get res ''needsManualDecision'' = JUndef) \<or>
    rolls c (commit_batch c w) (owned_files c w) (snapshot_rollback_files (ca_project c) (cw_tree w) (owned_files c w)) (after_reply c w) res w' \<or>
    loop_ok c (commit_batch c w) (attempts c) (after_reply c w) res w'"
proof (cases "read_buffer_strict (cw_buffer w)")
  case (Inl err)
  with assms show ?thesis by (auto simp: commit_manual_edits_def commit_result_get)
next
  case (Inr es)
  note run = assms [unfolded commit_manual_edits_def Inr sum.case Let_def, folded commit_batch_def]
  show ?thesis
  proof (cases "count_ops (entries_of (commit_batch c w)) = 0")
    case True
    from run [unfolded if_P [OF True]] show ?thesis by (auto simp: commit_result_get)
  next
    case False
    from run_batch_ok [OF run [unfolded if_not_P [OF False]]] show ?thesis
      by (auto simp: owned_files_def after_reply_def)
  qed
qed

section \<open>Properties\<close>



text \<open>
  C8. The commit ends: it calls the agent at most once for the batch and once for each
  repair attempt, of which there are one to ten, and asks the user to decide only
  when it has used them all.
\<close>

theorem commit_calls_are_bounded:
  assumes "commit_manual_edits c w = (result, w')"
  shows "cw_calls w' \<le> cw_calls w + 1 + attempts c \<and> 1 \<le> attempts c \<and> attempts c \<le> 10 \<and>
    (get result ''needsManualDecision'' = JUndef \<or>
     cw_calls w' = cw_calls w + (if ca_repair_only c then 0 else 1) + attempts c)"
proof -
  obtain r w1 where r: "first_result c (commit_batch c w) w = (r, w1)" by (metis prod.exhaust)
  have calls: "cw_calls (after_reply c w) = cw_calls w + (if ca_repair_only c then 0 else 1)"
    using first_result_world(1) [OF r] r by (simp add: after_reply_def)
  have lim: "1 \<le> attempts c \<and> attempts c \<le> 10"
    by (auto simp: repair_attempt_limit_def default_repair_attempts_def split: jsval.split)
  have "cw_calls w' \<le> cw_calls w + 1 + attempts c \<and> (get result ''needsManualDecision'' = JUndef \<or>
     cw_calls w' = cw_calls w + (if ca_repair_only c then 0 else 1) + attempts c)"
    using commit_ok [OF assms]
  proof (elim disjE conjE)
    assume "rolls c (commit_batch c w) (owned_files c w) (snapshot_rollback_files (ca_project c) (cw_tree w) (owned_files c w))
        (after_reply c w) result w'"
    then have "cw_calls w' = cw_calls (after_reply c w)" "get result ''needsManualDecision'' = JUndef"
      using rolled_back_effect(2,4) unfolding rolls_def by metis+
    then show ?thesis by (simp add: calls)
  next
    assume "loop_ok c (commit_batch c w) (attempts c) (after_reply c w) result w'"
    then show ?thesis by (auto simp: loop_ok_def calls split: if_splits)
  qed auto
  with lim show ?thesis by blast
qed

section \<open>Runs\<close>

text \<open>One staged edit of one line, and an agent that always writes and replies the same.\<close>

definition sample_project :: project where
  "sample_project = \<lparr>pj_root = ''/app'', pj_ignored = (\<lambda>_. False),
     pj_checks = \<lparr>ck_json = (\<lambda>_. None), ck_js = (\<lambda>_ _. None), ck_syntax = None, ck_script = (\<lambda>_. None)\<rparr>\<rparr>"

definition sample_edit :: jsval where
  "sample_edit = JObj [(''ref'', JStr ''r''), (''originalText'', JStr ''old''), (''newText'', JStr ''new''),
     (''sourceHint'', JObj [(''file'', JStr ''a''), (''line'', JNum 1)])]"

definition sample_batch_of :: jsval where
  "sample_batch_of = JObj [(''entries'', JArr [JObj [(''id'', JStr ''e''), (''ops'', JArr [sample_edit])]])]"

definition sample_commit :: "string + jsval option \<Rightarrow> string \<Rightarrow> commit_args" where
  "sample_commit reply text = \<lparr>ca_project = sample_project, ca_provider = (\<lambda>_. Some ''chat''),
     ca_reply = (\<lambda>_ _ t b. (reply, t\<lparr>tr_files := [(''/app/a'', text)]\<rparr>, b)),
     ca_evidence = (\<lambda>_ _. JNull), ca_page = JNull, ca_attempts = JUndef, ca_repair_only = False, ca_transaction = JNull,
     ca_batch = sample_batch_of\<rparr>"

definition sample_files :: "string \<Rightarrow> tree" where
  "sample_files text = \<lparr>tr_files = [(''/app/a'', text)], tr_readable = (\<lambda>_. True), tr_writable = (\<lambda>_. True), tr_error = []\<rparr>"

definition sample_world :: commit_world where
  "sample_world = \<lparr>cw_tree = sample_files ''old'',
     cw_buffer = Buffer [\<lparr>be_id = JStr ''e'', be_page = JNull, be_element = JNull, be_ops = [sample_edit], be_staged = JNull\<rparr>],
     cw_calls = 0\<rparr>"

definition replied_world :: "string \<Rightarrow> commit_world" where
  "replied_world text = \<lparr>cw_tree = sample_files text, cw_buffer = cw_buffer sample_world, cw_calls = 1\<rparr>"

lemma sample_commit_fields [simp]:
  "ca_project (sample_commit reply text) = sample_project" "commit_batch (sample_commit reply text) w = sample_batch_of"
  "ca_batch (sample_commit reply text) = sample_batch_of" "ca_repair_only (sample_commit reply text) = False"
  "ca_attempts (sample_commit reply text) = JUndef"
  by (simp_all add: sample_commit_def commit_batch_def sample_batch_of_def)

lemma sample_call:
  "call_agent (sample_commit reply text) batch sample_world =
    (run_copy_edit_batch_agent (Some ''chat'') batch reply, replied_world text)"
  by (simp add: call_agent_def sample_commit_def sample_world_def replied_world_def sample_files_def)

lemma sample_same_buffer: "same_buffer (sample_commit reply text)"
  by (simp add: same_buffer_def sample_commit_def)

lemma sample_owned: "owned_files (sample_commit reply text) sample_world = [''a'']"
  by code_simp

lemma sample_snapshot: "snapshot_rollback_files sample_project (sample_files ''old'') [''a''] =
    [(''a'', \<lparr>sv_exists = True, sv_content = ''old''\<rparr>)]"
  by code_simp

lemma sample_count: "count_ops (entries_of sample_batch_of) = 1"
  by code_simp

lemma sample_world_fields [simp]:
  "cw_tree sample_world = sample_files ''old''" "\<exists>es. read_buffer_strict (cw_buffer sample_world) = Inr es"
  by (simp_all add: sample_world_def read_buffer_strict_def)

lemma sample_run:
  "commit_manual_edits (sample_commit reply text) sample_world = run_batch (sample_commit reply text) sample_batch_of 1 sample_world"
proof -
  obtain es where "read_buffer_strict (cw_buffer sample_world) = Inr es" using sample_world_fields(2) by blast
  moreover have "js_or sample_batch_of v = sample_batch_of" for v by (simp add: sample_batch_of_def)
  ultimately show ?thesis by (simp add: commit_manual_edits_def sample_count)
qed

definition sample_reply :: "string \<Rightarrow> jsval list \<Rightarrow> jsval list \<Rightarrow> string + jsval option" where
  "sample_reply status ids failed = Inr (Some (JObj [(''status'', JStr status), (''appliedEntryIds'', JArr ids),
     (''failed'', JArr failed), (''files'', JArr [JStr ''a''])]))"

definition sample_result :: "string \<Rightarrow> jsval list \<Rightarrow> jsval list \<Rightarrow> jsval" where
  "sample_result status ids failed = normalize_batch_result (JObj [(''status'', JStr status), (''appliedEntryIds'', JArr ids),
     (''failed'', JArr failed), (''files'', JArr [JStr ''a''])])"

lemma sample_settles:
  assumes "status \<in> {''done'', ''partial''}"
  shows "commit_manual_edits (sample_commit (sample_reply status ids failed) text) sample_world =
    settle_result (sample_commit (sample_reply status ids failed) text) sample_batch_of 1
      [(''a'', \<lparr>sv_exists = True, sv_content = ''old''\<rparr>)] (sample_result status ids failed) (replied_world text)"
proof -
  have "collect_apply_owned_files sample_project (cw_tree sample_world) sample_batch_of [] = [''a'']"
    using sample_owned by (simp add: owned_files_def)
  moreover have "first_result (sample_commit (sample_reply status ids failed) text) sample_batch_of sample_world =
      (Inr (sample_result status ids failed), replied_world text)"
    by (simp add: first_result_def sample_call run_copy_edit_batch_agent_def sample_reply_def sample_result_def)
  moreover have "get (sample_result status ids failed) ''status'' \<noteq> JStr ''error''"
    using assms by (auto simp: sample_result_def normalize_batch_result_def normal_status_def)
  ultimately show ?thesis
    by (simp add: sample_run run_batch_def sample_snapshot)
qed

lemma sample_lists:
  "result_list (sample_result status ids failed) ''files'' = [JStr ''a'']"
  "result_list (sample_result status [JStr ''e''] failed) ''appliedEntryIds'' = [JStr ''e'']"
  "result_list (sample_result status [] failed) ''appliedEntryIds'' = []"
  "get (sample_result ''done'' ids failed) ''status'' = JStr ''done''"
  "get (sample_result ''partial'' ids failed) ''status'' = JStr ''partial''"
  "normalize_failed_entries sample_batch_of (sample_result status ids []) v = []"
  by (simp_all add: sample_result_def normalize_batch_result_def result_list_def normal_status_def
    normalize_failed_entries_def failed_by_entry_def sample_batch_of_def entries_of_def List.map_filter_simps)

lemma sample_unique: "unique_strings [JStr ''e''] = [''e'']" "unique_strings [] = []"
  by code_simp+

lemma sample_after:
  assumes "text \<in> {''new'', ''bad''}"
  shows "collect_apply_owned_files sample_project (sample_files text) sample_batch_of [JStr ''a''] = [''a'']"
    "unreported_changed_files sample_project (sample_files text) [(''a'', \<lparr>sv_exists = True, sv_content = ''old''\<rparr>)] [''a''] [''a''] = []"
    "reported_project_files sample_project (sample_files text) [JStr ''a''] = [''a'']"
    "run_copy_edit_post_apply_checks (pj_checks sample_project) (sample_files text) (pj_root sample_project) [JStr ''a''] = ([], [])"
proof -
  have "list_all (\<lambda>text. collect_apply_owned_files sample_project (sample_files text) sample_batch_of [JStr ''a''] = [''a''] \<and>
    unreported_changed_files sample_project (sample_files text) [(''a'', \<lparr>sv_exists = True, sv_content = ''old''\<rparr>)] [''a''] [''a''] = [] \<and>
    reported_project_files sample_project (sample_files text) [JStr ''a''] = [''a''] \<and>
    run_copy_edit_post_apply_checks (pj_checks sample_project) (sample_files text) (pj_root sample_project) [JStr ''a''] = ([], []))
    [''new'', ''bad'']" by code_simp
  with assms show "collect_apply_owned_files sample_project (sample_files text) sample_batch_of [JStr ''a''] = [''a'']"
    "unreported_changed_files sample_project (sample_files text) [(''a'', \<lparr>sv_exists = True, sv_content = ''old''\<rparr>)] [''a''] [''a''] = []"
    "reported_project_files sample_project (sample_files text) [JStr ''a''] = [''a'']"
    "run_copy_edit_post_apply_checks (pj_checks sample_project) (sample_files text) (pj_root sample_project) [JStr ''a''] = ([], [])"
    by (auto simp del: sample_commit_fields)
qed

lemma applied_run:
  "commit_manual_edits (sample_commit (sample_reply ''done'' [JStr ''e''] []) ''new'') sample_world =
    finish_commit (sample_commit (sample_reply ''done'' [JStr ''e''] []) ''new'') sample_batch_of 1
      (sample_result ''done'' [JStr ''e''] []) [''e''] [] [] (replied_world ''new'')"
proof -
  have v: "verified_entries sample_project (sample_files ''new'') sample_batch_of [''e''] [''a''] = ([JStr ''e''], [])"
    by code_simp
  have e: "filter (\<lambda>e. entry_id e \<noteq> JStr ''e'') (entries_of sample_batch_of) = []" by code_simp
  show ?thesis
    by (simp add: sample_settles settle_result_def sample_lists sample_unique sample_after replied_world_def
      verify_and_finish_def v e check_and_finish_def verification_failures_for_entries_def
      find_unapplied_entry_source_changes_def List.map_filter_simps)
qed

lemma partial_run:
  defines "c \<equiv> sample_commit (sample_reply ''partial'' [] [JObj [(''entryId'', JStr ''e'')]]) ''bad''"
  shows "\<exists>failed. commit_manual_edits c sample_world = finish_commit c sample_batch_of 1
      (sample_result ''partial'' [] [JObj [(''entryId'', JStr ''e'')]]) [] failed [] (replied_world ''bad'')"
proof -
  have v: "verified_entries sample_project (sample_files ''bad'') sample_batch_of [] [''a''] = ([], [])"
    by (simp add: verified_entries_def)
  have l: "find_unapplied_entry_source_changes sample_project (sample_files ''bad'') [(''a'', \<lparr>sv_exists = True, sv_content = ''old''\<rparr>)]
      sample_batch_of [''a''] (filter (\<lambda>e. True) (entries_of sample_batch_of)) = []" by code_simp
  show ?thesis
    by (simp add: c_def sample_settles settle_result_def sample_lists sample_unique sample_after replied_world_def
      verify_and_finish_def v l [simplified] check_and_finish_def Let_def) blast
qed

lemma sample_source: "stays_source sample_project (sample_files ''new'') [''a'']"
  by code_simp


lemma sample_cleared: "snd (clear_applied_entries [''e''] (cw_buffer sample_world)) = Buffer []"
  by code_simp


theorem commit_calls_are_bounded_witness:
  "cw_calls (snd (commit_manual_edits (sample_commit (Inl ''chat_agent_timeout'') ''new'') sample_world)) \<le> 4"
  using commit_calls_are_bounded [of "sample_commit (Inl ''chat_agent_timeout'') ''new''" sample_world]
  by (cases "commit_manual_edits (sample_commit (Inl ''chat_agent_timeout'') ''new'') sample_world")
    (auto simp: sample_world_def repair_attempt_limit_def default_repair_attempts_def js_trunc_def split: jsval.splits)

text \<open>
  A gap in the rollback: a partial result that applies nothing, fails its entries
  and names the files it touched passes every guard, so what the agent left in
  those files stays, although none of it is applied.
\<close>

theorem failed_partial_result_keeps_its_edits:
  "\<exists>result w'. commit_manual_edits (sample_commit (sample_reply ''partial'' [] [JObj [(''entryId'', JStr ''e'')]]) ''bad'') sample_world = (result, w') \<and>
     get result ''applied'' = JArr [] \<and> get result ''rolledBackFiles'' = JUndef \<and> get result ''needsManualDecision'' = JUndef \<and>
     file_at (cw_tree sample_world) ''/app/a'' = Some ''old'' \<and> file_at (cw_tree w') ''/app/a'' = Some ''bad''"
proof -
  obtain failed where run: "commit_manual_edits (sample_commit (sample_reply ''partial'' [] [JObj [(''entryId'', JStr ''e'')]]) ''bad'') sample_world =
      finish_commit (sample_commit (sample_reply ''partial'' [] [JObj [(''entryId'', JStr ''e'')]]) ''bad'') sample_batch_of 1
      (sample_result ''partial'' [] [JObj [(''entryId'', JStr ''e'')]]) [] failed [] (replied_world ''bad'')" using partial_run by blast
  show ?thesis unfolding run
    by (simp add: finish_commit_def clear_applied_entries_def commit_result_get summarize_applied_entries_def
      replied_world_def file_at_def sample_files_def)
qed

end
