(* ===== verification/Edit_Evidence.thy ===== *)
theory Edit_Evidence
  imports Commit_Rollback Manual_Routes
begin

text \<open>
  \<open>live-manual-edit-evidence.mjs\<close>: what an Apply tells the agent of the staged
  edits, with the likely places of each in the sources. The tree has no symbolic
  links; a directory is there when a file below it is, and lists its entries in
  the order of the tree. Staged operations are objects, as the validation of a
  Save demands.
\<close>

section \<open>Texts\<close>

definition normalize_text :: "jsval \<Rightarrow> string" where
  "normalize_text value = js_trim (squeeze_ws (js_string (js_or value (JStr []))))"

function replace_all :: "string \<Rightarrow> string \<Rightarrow> string \<Rightarrow> string" where
  \<comment> \<open>\<open>s.replace(/w/g, r)\<close> of a literal\<close>
  "replace_all w r [] = []"
| "replace_all w r (c # s) =
    (if w \<noteq> [] \<and> starts_with (c # s) w then r @ replace_all w r (drop (length w) (c # s))
     else c # replace_all w r s)"
  by pat_completeness auto
termination by (relation "measure (\<lambda>(w, r, s). length s)") auto

definition decode_basic_html :: "string \<Rightarrow> string" where
  "decode_basic_html s = replace_all ''&gt;'' ''>'' (replace_all ''&lt;'' ''<'' (replace_all ''&amp;'' ''&''
     (replace_all ''&apos;'' [char_of (39 :: nat)] (replace_all ''&#39;'' [char_of (39 :: nat)]
       (replace_all ''&quot;'' [char_of (34 :: nat)] s)))))"

definition is_weak_source_needle :: "string \<Rightarrow> bool" where
  "is_weak_source_needle t = (let n = normalize_text (JStr t) in
     length n < 4 \<or> (n \<noteq> [] \<and> list_all (\<lambda>c. is_digit c \<or> c \<in> set ''.,+-%'' \<or> is_ws c) n))"

definition literal_match_limit :: "string \<Rightarrow> nat" where
  "literal_match_limit t = (if is_weak_source_needle t then 4 else 8)"

definition original_text_marker :: string where
  "original_text_marker = ''data-impeccable-original-text='' @ [char_of (34 :: nat)]"

fun original_texts :: "nat \<Rightarrow> string \<Rightarrow> string list" where
  \<comment> \<open>the values of that attribute in the markup, after the characters of a match still to skip\<close>
  "original_texts skip [] = []"
| "original_texts skip (c # s) =
    (case (skip, strip original_text_marker (c # s)) of
       (Suc k, _) \<Rightarrow> original_texts k s
     | (0, Some t) \<Rightarrow> if char_of (34 :: nat) \<notin> set t then original_texts 0 s
         else let v = takeWhile (\<lambda>d. d \<noteq> char_of (34 :: nat)) t
              in v # original_texts (length original_text_marker + length v) s
     | (0, None) \<Rightarrow> original_texts 0 s)"

fun split_gaps :: "bool \<Rightarrow> string \<Rightarrow> string \<Rightarrow> string list" where
  \<comment> \<open>\<open>split(/\s{2,}|\n|\t/)\<close>; inside a gap the white space is part of the separator\<close>
  "split_gaps gap acc [] = [rev acc]"
| "split_gaps gap acc (c # s) =
    (if gap \<and> is_ws c then split_gaps True acc s
     else if is_ws c \<and> s \<noteq> [] \<and> is_ws (hd s) then rev acc # split_gaps True [] s
     else if of_char c \<in> {9, 10 :: nat} then rev acc # split_gaps False [] s
     else split_gaps False (c # acc) s)"

section \<open>Hints from the surroundings\<close>

definition add_hint :: "jsval \<Rightarrow> string list \<Rightarrow> jsval \<Rightarrow> string list" where
  "add_hint op hints value =
    (let t = normalize_text (JStr (decode_basic_html (js_string (js_or value (JStr [])))))
     in if length t < 3 \<or> length t > 160 \<or> t = normalize_text (get op ''originalText'') \<or> t = normalize_text (get op ''newText'')
          \<or> t \<in> set hints
        then hints else hints @ [t])"

definition context_hints :: "jsval \<Rightarrow> jsval \<Rightarrow> js_error + string list" where
  "context_hints entry op =
    (let element = get entry ''element'' in
     bindE (spread_elems (js_or (get op ''nearbyEditableTexts'') (JArr []))) (\<lambda>nearby. Inr (take 16
       (foldl (add_hint op) []
         (map (\<lambda>item. if is_str item then item else get item ''text'') nearby @
          map JStr (original_texts 0 (str_of (get element ''outerHTML''))) @
          (if is_str (get element ''textContent'')
           then map JStr (split_gaps False [] (str_of (get element ''textContent''))) else []))))))"

definition build_context_hints_by_ref :: "jsval \<Rightarrow> js_error + (jsval \<times> string list) list" where
  "build_context_hints_by_ref entry =
    bindE (mapE (\<lambda>op. bindE (context_hints entry op) (\<lambda>hints. Inr (get op ''ref'', hints))) (ops_of entry)) (\<lambda>kvs.
      Inr (fold (\<lambda>(k, v). alset k v) kvs []))"

definition flat_op :: "jsval \<Rightarrow> (jsval \<times> string list) list \<Rightarrow> jsval \<Rightarrow> jsval" where
  "flat_op entry hints op = JObj [
     (''entryId'', get entry ''id''), (''pageUrl'', get entry ''pageUrl''), (''ref'', get op ''ref''),
     (''contextRef'', js_or (get op ''contextRef'') JNull), (''tag'', get op ''tag''),
     (''elementId'', js_or (get op ''elementId'') JNull), (''classes'', arr_or_empty (get op ''classes'')),
     (''originalText'', get op ''originalText''), (''newText'', get op ''newText''),
     (''deleted'', JBool (get op ''deleted'' = JBool True)), (''sourceHint'', js_or (get op ''sourceHint'') JNull),
     (''leaf'', js_or (get op ''leaf'') JNull), (''nearbyEditableTexts'', arr_or_empty (get op ''nearbyEditableTexts'')),
     (''container'', js_or (get op ''container'') JNull),
     (''contextHints'', JArr (map JStr (case map_of hints (get op ''ref'') of None \<Rightarrow> [] | Some h \<Rightarrow> h)))]"

definition flatten_ops :: "jsval list \<Rightarrow> js_error + jsval list" where
  "flatten_ops entries =
    bindE (mapE (\<lambda>entry. bindE (build_context_hints_by_ref entry) (\<lambda>hints.
      Inr (map (flat_op entry hints) (ops_of entry)))) entries) (\<lambda>parts. Inr (concat parts))"

section \<open>The files searched\<close>

record search_file =
  sf_rel :: string
  sf_text :: string

definition text_extensions :: "string list" where
  "text_extensions = [''.html'', ''.jsx'', ''.tsx'', ''.vue'', ''.svelte'', ''.astro'', ''.js'', ''.mjs'', ''.ts'', ''.ex'', ''.heex'', ''.eex'']"

definition search_dirs :: "string list" where
  "search_dirs = [''src'', ''app'', ''pages'', ''components'', ''public'', ''views'', ''templates'', ''site'', ''lib'', ''data'']"

definition sf_lines :: "search_file \<Rightarrow> string list" where
  "sf_lines f = split_on (char_of (10 :: nat)) (sf_text f)"

definition child_of :: "string list \<Rightarrow> string \<Rightarrow> (string \<times> bool) option" where
  \<comment> \<open>the entry of a directory that a path goes through, and whether it is a directory\<close>
  "child_of dir p = (let q = norm_segs [] (segs p) in
     if take (length dir) q = dir then (case drop (length dir) q of [] \<Rightarrow> None | x # rest \<Rightarrow> Some (x, rest \<noteq> []))
     else None)"

definition listing :: "tree \<Rightarrow> string list \<Rightarrow> (string \<times> bool) list" where
  "listing t dir = set_of (List.map_filter (child_of dir) (map fst (tr_files t)))"

definition maybe_add_search_file :: "project \<Rightarrow> tree \<Rightarrow> string list \<Rightarrow> search_file list" where
  "maybe_add_search_file pj t q = (let p = path_of q in
     if is_generated_file (pj_ignored pj) t p then []
     else case file_at t p of None \<Rightarrow> []
       | Some body \<Rightarrow> if tr_readable t p then [\<lparr>sf_rel = relative (pj_root pj) p, sf_text = body\<rparr>] else [])"

definition has_text_extension :: "string \<Rightarrow> bool" where
  "has_text_extension name = (map lower_char (extname_of name) \<in> set text_extensions)"

fun scan_dir :: "nat \<Rightarrow> project \<Rightarrow> tree \<Rightarrow> string list \<Rightarrow> search_file list" where
  \<comment> \<open>the first argument counts the levels left\<close>
  "scan_dir 0 pj t dir = []"
| "scan_dir (Suc n) pj t dir = concat (map (\<lambda>(name, isDir).
     if isDir then (if name \<in> set rollback_skip_dirs then [] else scan_dir n pj t (dir @ [name]))
     else if has_text_extension name then maybe_add_search_file pj t (dir @ [name]) else []) (listing t dir))"

definition scan_root_files :: "project \<Rightarrow> tree \<Rightarrow> string list \<Rightarrow> search_file list" where
  "scan_root_files pj t base = concat (map (\<lambda>(name, isDir).
     if \<not> isDir \<and> has_text_extension name then maybe_add_search_file pj t (base @ [name]) else []) (listing t base))"

definition collect_search_files :: "project \<Rightarrow> tree \<Rightarrow> search_file list" where
  "collect_search_files pj t = (let base = resolve_segs (pj_root pj) (pj_root pj) in
     concat (map (\<lambda>d. scan_dir 8 pj t (base @ [d])) search_dirs) @ scan_root_files pj t base)"

section \<open>Matches\<close>

definition index_from :: "string \<Rightarrow> string \<Rightarrow> nat \<Rightarrow> nat option" where
  \<comment> \<open>\<open>s.indexOf(w, i)\<close>, \<open>None\<close> for -1, of a text that is not empty\<close>
  "index_from s w i = find (\<lambda>j. starts_with (drop j s) w) [i..<length s]"

definition line_of_index :: "string \<Rightarrow> nat \<Rightarrow> nat" where
  "line_of_index s i = length (split_on (char_of (10 :: nat)) (take i s))"

definition match_for_index :: "search_file \<Rightarrow> nat \<Rightarrow> string \<Rightarrow> string \<Rightarrow> jsval" where
  "match_for_index f i kind needle =
    (let line = line_of_index (sf_text f) i;
         lineText = (if line \<le> length (sf_lines f) then sf_lines f ! (line - 1) else [])
     in JObj [(''kind'', JStr kind), (''file'', JStr (sf_rel f)), (''line'', jint (int line)), (''needle'', JStr needle),
          (''excerpt'', JStr (take 240 (js_trim lineText)))])"

fun positions_from :: "nat \<Rightarrow> string \<Rightarrow> string \<Rightarrow> nat \<Rightarrow> nat list" where
  \<comment> \<open>at most so many places where the text occurs, none overlapping the one before\<close>
  "positions_from 0 s w i = []"
| "positions_from (Suc n) s w i =
    (case index_from s w i of None \<Rightarrow> [] | Some j \<Rightarrow> j # positions_from n s w (j + max 1 (length w)))"

fun matches_in :: "nat \<Rightarrow> string \<Rightarrow> string \<Rightarrow> search_file list \<Rightarrow> jsval list" where
  "matches_in n kind w [] = []"
| "matches_in n kind w (f # fs) =
    (let ms = map (\<lambda>i. match_for_index f i kind w) (positions_from n (sf_text f) w 0)
     in ms @ matches_in (n - length ms) kind w fs)"

definition find_matches :: "search_file list \<Rightarrow> jsval \<Rightarrow> string \<Rightarrow> nat \<Rightarrow> jsval list" where
  "find_matches fs needle kind limit =
    (let w = js_string (js_or needle (JStr [])) in if w = [] then [] else matches_in limit kind w fs)"

definition find_literal_matches :: "search_file list \<Rightarrow> string \<Rightarrow> nat \<Rightarrow> jsval list" where
  "find_literal_matches fs needle limit = find_matches fs (JStr needle) ''text'' limit"

definition key_at :: "string \<Rightarrow> string \<Rightarrow> bool" where
  \<comment> \<open>the text between equal quotes, before a colon\<close>
  "key_at w s = (\<exists>q \<in> set key_quotes. Option.bind (strip (q # w @ [q]) s) colon_next \<noteq> None)"

fun key_positions :: "nat \<Rightarrow> nat \<Rightarrow> string \<Rightarrow> string \<Rightarrow> nat list" where
  \<comment> \<open>the position reached, the characters of a match still to skip\<close>
  "key_positions i skip w [] = []"
| "key_positions i skip w (c # s) =
    (case skip of Suc k \<Rightarrow> key_positions (Suc i) k w s
     | 0 \<Rightarrow> if key_at w (c # s) then i # key_positions (Suc i) (Suc (length w)) w s
            else key_positions (Suc i) 0 w s)"

definition find_object_key_matches :: "search_file list \<Rightarrow> string \<Rightarrow> nat \<Rightarrow> jsval list" where
  "find_object_key_matches fs w limit =
    take limit (concat (map (\<lambda>f. map (\<lambda>i. match_for_index f i ''object_key'' w) (key_positions 0 0 w (sf_text f))) fs))"

definition match_key :: "jsval \<Rightarrow> string list \<Rightarrow> string" where
  "match_key m parts = join '':'' ([js_string (get m ''file''), js_string (get m ''line'')] @ parts)"

type_synonym found = "string list \<times> jsval list"

definition add_match :: "nat \<Rightarrow> string list \<Rightarrow> jsval \<Rightarrow> jsval \<Rightarrow> found \<Rightarrow> found" where
  \<comment> \<open>unless the limit is reached or the same place is there\<close>
  "add_match limit parts needle m st = (let (seen, out) = st; key = match_key m parts in
     if length out \<ge> limit \<or> key \<in> set seen then st
     else (key # seen, out @ [with_props m [(''needle'', needle)]]))"

definition locator_needles :: "jsval \<Rightarrow> (string \<times> jsval) list" where
  "locator_needles op =
    (if truthy (get op ''elementId'') then [(''id'', get op ''elementId'')] else []) @
    map (Pair ''class'') (filter truthy (elems (get op ''classes''))) @
    (if truthy (get op ''tag'') then [(''tag'', JStr (CHR ''<'' # js_string (get op ''tag'')))] else [])"

definition find_locator_matches :: "search_file list \<Rightarrow> jsval \<Rightarrow> nat \<Rightarrow> jsval list" where
  "find_locator_matches fs op limit = snd (fold (\<lambda>(kind, needle) st.
     fold (add_match limit [kind, js_string needle] needle) (find_matches fs needle kind limit) st)
     (locator_needles op) ([], []))"

definition find_context_matches :: "search_file list \<Rightarrow> string list \<Rightarrow> nat \<Rightarrow> nat \<Rightarrow> jsval list" where
  "find_context_matches fs hints perHint limit = snd (fold (\<lambda>hint st.
     fold (add_match limit [hint] (JStr hint)) (find_matches fs (JStr hint) ''context'' perHint) st) hints ([], []))"

section \<open>The hint of the framework\<close>

definition loc_numbers :: "string \<Rightarrow> (jsval \<times> jsval) option" where
  \<comment> \<open>\<open>/^(\d+)(?::(\d+))?/\<close>: the numbers, the second undefined when it is not there\<close>
  "loc_numbers s = (let a = takeWhile is_digit s; rest = dropWhile is_digit s;
       b = (case rest of c # t \<Rightarrow> if c = CHR '':'' then takeWhile is_digit t else [] | [] \<Rightarrow> [])
     in if a = [] then None
        else Some (jint (int (digits_val a)), if b = [] then JUndef else jint (int (digits_val b))))"

definition normalize_source_hint :: "jsval \<Rightarrow> props" where
  "normalize_source_hint hint =
    (if \<not> truthy hint \<or> \<not> is_objty hint then []
     else let num = (\<lambda>k. case to_number (get hint k) of JNum q \<Rightarrow> JNum q | _ \<Rightarrow> JNull);
              (line, column) = (num ''line'', num ''column'');
              (line, column) = (if (\<not> truthy line \<or> \<not> truthy column) \<and> is_str (get hint ''loc'')
                then (case loc_numbers (str_of (get hint ''loc'')) of None \<Rightarrow> (line, column)
                  | Some (l, c) \<Rightarrow> (l, if is_finite c then c else column))
                else (line, column))
          in [(''file'', JStr (str_of (get hint ''file''))), (''loc'', JStr (str_of (get hint ''loc''))),
              (''line'', line), (''column'', column)])"

definition slice_end :: "nat \<Rightarrow> rat \<Rightarrow> nat" where
  \<comment> \<open>the end of \<open>slice\<close> in a list of that length\<close>
  "slice_end n b = (let e = js_trunc b in nat (if e < 0 then int n + e else min (int n) e))"

definition hint_window :: "string list \<Rightarrow> rat \<Rightarrow> (rat \<times> string) list" where
  \<comment> \<open>three lines before the hint's line to three after, with their numbers\<close>
  "hint_window ls line = (let start = max 0 (line - 4); stop = slice_end (length ls) (min (of_nat (length ls)) (line + 3))
     in map (\<lambda>(k, l). (start + of_nat k + 1, l)) (enumerate 0 (drop (nat \<lfloor>start\<rfloor>) (take stop ls))))"

definition directory_at :: "tree \<Rightarrow> string list \<Rightarrow> bool" where
  "directory_at t q = (listing t q \<noteq> [])"

definition analyze_source_hint :: "project \<Rightarrow> tree \<Rightarrow> jsval \<Rightarrow> js_error + jsval" where
  "analyze_source_hint pj t op =
    (let hint = normalize_source_hint (get op ''sourceHint''); f = str_of (field hint ''file'');
         p = resolve (pj_root pj) f; rel = relative (pj_root pj) p;
         verdict = (\<lambda>status r. JObj (hint @ [(''status'', JStr status), (''relativeFile'', JStr r)])) in
     if f = [] then Inr JNull
     else if \<not> inside_or_equal (pj_root pj) p then Inr (verdict ''outside_cwd'' f)
     else if file_at t p = None \<and> \<not> directory_at t (resolve_segs (pj_root pj) f) then Inr (verdict ''file_missing'' rel)
     else if is_generated_file (pj_ignored pj) t p then Inr (verdict ''generated'' rel)
     else (case file_at t p of
        None \<Rightarrow> Inl (Thrown ''EISDIR: illegal operation on a directory, read'')
      | Some body \<Rightarrow>
        if \<not> tr_readable t p then Inl (Thrown (tr_error t))
        else let window = hint_window (split_on (char_of (10 :: nat)) body)
                   (case js_or (field hint ''line'') (JNum 1) of JNum q \<Rightarrow> q | _ \<Rightarrow> 1);
                 shown = is_str (get op ''originalText'') \<and>
                   has_sub (join [char_of (10 :: nat)] (map snd window)) (str_of (get op ''originalText''))
             in Inr (JObj (hint @ [(''status'', JStr (if shown then ''ok'' else ''text_not_found_near_hint'')),
                  (''relativeFile'', JStr rel),
                  (''excerpt'', JArr (map (\<lambda>(n, l). JObj [(''line'', JNum n), (''text'', JStr (take 240 l))]) window))]))))"

section \<open>The evidence\<close>

definition build_candidates_for_op :: "project \<Rightarrow> tree \<Rightarrow> search_file list \<Rightarrow> jsval \<Rightarrow> js_error + jsval" where
  "build_candidates_for_op pj t fs op =
    (let original = js_string (js_or (get op ''originalText'') (JStr []));
         when = (\<lambda>ms. JArr (if original = [] then [] else ms)) in
     bindE (analyze_source_hint pj t op) (\<lambda>hint. Inr (JObj [
       (''entryId'', get op ''entryId''), (''ref'', get op ''ref''), (''originalText'', JStr original), (''sourceHint'', hint),
       (''textMatches'', when (find_literal_matches fs original (literal_match_limit original))),
       (''objectKeyMatches'', when (find_object_key_matches fs original 8)),
       (''locatorMatches'', JArr (find_locator_matches fs op 4)),
       (''contextTextMatches'', JArr (find_context_matches fs (map str_of (elems (get op ''contextHints''))) 2 8))])))"

definition build_manual_edit_evidence :: "project \<Rightarrow> string \<Rightarrow> jsval \<Rightarrow> tree \<Rightarrow> buffer_file \<Rightarrow> js_error + jsval" where
  \<comment> \<open>\<open>bufferPath\<close> is the path of the staged edits below the root\<close>
  "build_manual_edit_evidence pj bufferPath page t b =
    (let entries = map entry_obj (if truthy page then filter (\<lambda>e. strict_eq (be_page e) page) (read_buffer b) else read_buffer b);
         n = sum_list (map (\<lambda>e. length (ops_of e)) entries) in
     if n = 0 then Inr (JObj [(''pageUrl'', page), (''count'', JNum 0), (''entries'', JArr []), (''ops'', JArr []), (''candidates'', JArr [])])
     else let fs = collect_search_files pj t in
       bindE (flatten_ops entries) (\<lambda>ops.
       bindE (mapE (build_candidates_for_op pj t fs) ops) (\<lambda>candidates. Inr (JObj [
         (''version'', JNum 1), (''pageUrl'', js_or page JNull), (''count'', jint (int n)), (''entries'', JArr entries),
         (''ops'', JArr ops),
         (''context'', JObj [(''cwd'', JStr (pj_root pj)), (''bufferPath'', JStr bufferPath),
            (''totalEntries'', jint (int (length entries))), (''totalOps'', jint (int n))]),
         (''candidates'', JArr candidates)]))))"

section \<open>Matches are the lines that show the text\<close>

abbreviation newline :: char where
  "newline \<equiv> char_of (10 :: nat)"

definition occurs :: "string \<Rightarrow> string \<Rightarrow> nat \<Rightarrow> bool" where
  "occurs s w i \<longleftrightarrow> i < length s \<and> starts_with (drop i s) w"

lemma index_from_Some: "index_from s w i = Some j \<Longrightarrow> i \<le> j \<and> occurs s w j"
  by (auto simp: index_from_def find_Some_iff occurs_def)

lemma index_from_first:
  "index_from s w i = Some j \<Longrightarrow> i \<le> k \<Longrightarrow> k < j \<Longrightarrow> \<not> occurs s w k"
  unfolding index_from_def find_Some_iff occurs_def by (auto dest: spec [of _ "k - i"])

lemma index_from_None: "index_from s w i = None \<Longrightarrow> i \<le> k \<Longrightarrow> \<not> occurs s w k"
  by (auto simp: index_from_def find_None_iff occurs_def)

lemma positions_sound:
  "length (positions_from n s w i) \<le> n \<and> (\<forall>p \<in> set (positions_from n s w i). occurs s w p)"
  by (induction n s w i rule: positions_from.induct) (auto dest: index_from_Some split: option.splits)

text \<open>With room left over, every occurrence overlaps one that was found.\<close>

lemma positions_cover:
  assumes "length (positions_from n s w i) < n" "occurs s w k" "i \<le> k"
  shows "\<exists>p \<in> set (positions_from n s w i). p \<le> k \<and> k < p + max 1 (length w)"
  using assms
proof (induction n s w i rule: positions_from.induct)
  case (2 n s w i)
  show ?case
  proof (cases "index_from s w i")
    case None
    with 2(3,4) index_from_None show ?thesis by blast
  next
    case (Some j)
    have le: "j \<le> k" using index_from_first [OF Some 2(4)] 2(3) by (meson not_le)
    show ?thesis
    proof (cases "k < j + max 1 (length w)")
      case True
      with Some le show ?thesis by auto
    next
      case False
      with Some 2 show ?thesis by (auto simp: not_less)
    qed
  qed
qed simp

lemma has_sub_iff: "has_sub s w \<longleftrightarrow> (\<exists>i \<le> length s. starts_with (drop i s) w)"
proof (induction s)
  case (Cons c s)
  have "(\<exists>i \<le> length (c # s). starts_with (drop i (c # s)) w) \<longleftrightarrow>
      starts_with (c # s) w \<or> (\<exists>i \<le> length s. starts_with (drop i s) w)"
    by (metis Suc_le_mono drop0 drop_Suc_Cons length_Cons not0_implies_Suc zero_le)
  with Cons show ?case by simp
qed (auto simp: starts_with_def)

lemma starts_with_iff: "starts_with s w \<longleftrightarrow> (\<exists>t. s = w @ t)"
  unfolding starts_with_def by (metis append_eq_conv_conj append_take_drop_id)

lemma split_on_prefix: "d \<notin> set w \<Longrightarrow> split_on d (w @ t) = (w @ hd (split_on d t)) # tl (split_on d t)"
  by (induction w) (auto split: list.splits)

lemma occurrence_line:
  assumes "starts_with (drop i s) w" "newline \<notin> set w" "i \<le> length s"
  shows "line_of_index s i \<le> length (split_on newline s) \<and>
    has_sub (split_on newline s ! (line_of_index s i - 1)) w"
  using assms
proof (induction s arbitrary: i)
  case Nil
  then show ?case by (simp add: line_of_index_def starts_with_def)
next
  case (Cons c s)
  show ?case
  proof (cases i)
    case 0
    then obtain t where "c # s = w @ t" using Cons.prems(1) starts_with_iff by auto
    then have "split_on newline (c # s) = (w @ hd (split_on newline t)) # tl (split_on newline t)"
      using split_on_prefix Cons.prems(2) by simp
    moreover have "has_sub (w @ u) w" for u by (auto simp: has_sub_iff starts_with_iff intro: exI [of _ 0])
    ultimately show ?thesis using 0 by (simp add: line_of_index_def Suc_le_eq del: split_on.simps(2))
  next
    case (Suc j)
    then have IH: "line_of_index s j \<le> length (split_on newline s) \<and>
      has_sub (split_on newline s ! (line_of_index s j - 1)) w" using Cons by simp
    obtain l ls where sp: "split_on newline s = l # ls" by (cases "split_on newline s") auto
    obtain l' ls' where sp': "split_on newline (take j s) = l' # ls'" by (cases "split_on newline (take j s)") auto
    show ?thesis
    proof (cases "c = newline")
      case True
      then show ?thesis using IH Suc sp' by (simp add: line_of_index_def)
    next
      case False
      have "has_sub l w \<Longrightarrow> has_sub (c # l) w" by simp
      then show ?thesis using IH Suc sp sp' False by (cases ls') (auto simp: line_of_index_def nth_Cons')
    qed
  qed
qed

lemma line_occurrence:
  assumes "n < length (split_on newline s)" "has_sub (split_on newline s ! n) w" "w \<noteq> []" "newline \<notin> set w"
  shows "\<exists>i. occurs s w i \<and> line_of_index s i = Suc n"
  using assms(1,2)
proof (induction s arbitrary: n)
  case Nil
  then show ?case using assms(3) by simp
next
  case (Cons c s)
  obtain l ls where sp: "split_on newline s = l # ls" by (cases "split_on newline s") auto
  have shift: "occurs (c # s) w (Suc i) \<and> line_of_index (c # s) (Suc i) = line_of_index s i + (if c = newline then 1 else 0)"
    if "occurs s w i" for i using that by (auto simp: occurs_def line_of_index_def split: list.split)
  show ?case
  proof (cases "c = newline")
    case True
    then obtain m where m: "n = Suc m" using Cons.prems(2) assms(3) by (cases n) auto
    with True Cons.prems obtain i where i: "occurs s w i" "line_of_index s i = Suc m" using Cons.IH [of m] by auto
    with shift [OF i(1)] True m show ?thesis by auto
  next
    case False
    show ?thesis
    proof (cases "n = 0 \<and> starts_with (c # l) w")
      case True
      then obtain t where "c # l = w @ t" using starts_with_iff by blast
      moreover have "\<exists>u. c # s = (c # l) @ u"
        using join_split_on [of newline "c # s"] False sp by (cases ls) (auto simp: join_Cons_char)
      ultimately have "starts_with (c # s) w" using starts_with_iff by (metis append_assoc)
      with True show ?thesis by (intro exI [of _ 0]) (simp add: occurs_def line_of_index_def)
    next
      case other: False
      have "n < length (split_on newline s)" "has_sub (split_on newline s ! n) w"
        using Cons.prems False sp other by (cases n; auto)+
      then obtain i where i: "occurs s w i" "line_of_index s i = Suc n" using Cons.IH by blast
      with shift [OF i(1)] False show ?thesis by auto
    qed
  qed
qed

text \<open>Occurrences that overlap stand on one line.\<close>

lemma overlapping_lines:
  assumes "occurs s w p" "p \<le> k" "k < p + max 1 (length w)" "newline \<notin> set w"
  shows "line_of_index s k = line_of_index s p"
proof -
  obtain t where t: "drop p s = w @ t" using assms(1) starts_with_iff unfolding occurs_def by blast
  have "k - p \<le> length w" using assms(2,3) by auto
  have "take k s = take p s @ take (k - p) (drop p s)" using assms(2) by (metis le_add_diff_inverse take_add)
  then have "take k s = take p s @ take (k - p) w" using t \<open>k - p \<le> length w\<close> by simp
  moreover have "newline \<notin> set (take (k - p) w)" using assms(4) in_set_takeD by metis
  moreover have "length (split_on d (a @ b)) = length (split_on d a)" if "d \<notin> set b" for a b and d :: char
  proof (induction a)
    case Nil
    then show ?case using split_on_prefix [OF that, of "[]"] by simp
  next
    case (Cons c a)
    then show ?case by (auto split: list.splits)
  qed
  ultimately show ?thesis by (simp add: line_of_index_def)
qed

lemma match_get [simp]:
  "get (match_for_index f i kind w) ''file'' = JStr (sf_rel f)"
  "get (match_for_index f i kind w) ''line'' = jint (int (line_of_index (sf_text f) i))"
  by (simp_all add: match_for_index_def Let_def)

lemma matches_in_length: "length (matches_in n kind w fs) \<le> n"
proof (induction fs arbitrary: n)
  case (Cons f fs)
  let ?k = "length (positions_from n (sf_text f) w 0)"
  have "?k \<le> n" using positions_sound by blast
  moreover have "length (matches_in (n - ?k) kind w fs) \<le> n - ?k" by (rule Cons)
  ultimately show ?case by (simp add: Let_def)
qed simp

lemma matches_in_sound:
  "m \<in> set (matches_in n kind w fs) \<Longrightarrow> \<exists>f \<in> set fs. \<exists>i. occurs (sf_text f) w i \<and> m = match_for_index f i kind w"
  by (induction n kind w fs rule: matches_in.induct) (use positions_sound in \<open>force simp: Let_def\<close>)+

lemma matches_in_cover:
  assumes "length (matches_in n kind w fs) < n" "f \<in> set fs" "occurs (sf_text f) w k"
  shows "\<exists>p. p \<le> k \<and> k < p + max 1 (length w) \<and> occurs (sf_text f) w p \<and> match_for_index f p kind w \<in> set (matches_in n kind w fs)"
  using assms
proof (induction n kind w fs rule: matches_in.induct)
  case (2 n kind w g fs)
  let ?ps = "positions_from n (sf_text g) w 0"
  show ?case
  proof (cases "f = g")
    case True
    have "length ?ps < n" using 2(2) by (simp add: Let_def)
    then show ?thesis using positions_cover [of n "sf_text g" w 0 k] 2(4) True positions_sound [of n "sf_text g" w 0]
      by (force simp: Let_def)
  next
    case False
    with 2 show ?thesis by (fastforce simp: Let_def)
  qed
qed simp

text \<open>
  C10. The literal matches given to the agent for a text of one line: at most as many
  as the limit, each naming a searched file and the number of a line that shows
  the text; and when there are fewer, every line of every searched file that
  shows it is named.
\<close>

theorem literal_matches_are_the_lines:
  assumes "w \<noteq> []" "newline \<notin> set w"
  shows "length (find_literal_matches fs w limit) \<le> limit \<and>
    (\<forall>m \<in> set (find_literal_matches fs w limit). \<exists>f \<in> set fs. \<exists>n < length (sf_lines f). has_sub (sf_lines f ! n) w \<and>
       get m ''file'' = JStr (sf_rel f) \<and> get m ''line'' = jint (int (Suc n))) \<and>
    (length (find_literal_matches fs w limit) < limit \<longrightarrow>
      (\<forall>f \<in> set fs. \<forall>n < length (sf_lines f). has_sub (sf_lines f ! n) w \<longrightarrow>
        (\<exists>m \<in> set (find_literal_matches fs w limit). get m ''file'' = JStr (sf_rel f) \<and> get m ''line'' = jint (int (Suc n)))))"
proof -
  have eq: "find_literal_matches fs w limit = matches_in limit ''text'' w fs"
    using assms(1) by (simp add: find_literal_matches_def find_matches_def)
  have sound: "\<exists>f \<in> set fs. \<exists>n < length (sf_lines f). has_sub (sf_lines f ! n) w \<and>
       get m ''file'' = JStr (sf_rel f) \<and> get m ''line'' = jint (int (Suc n))" if m: "m \<in> set (matches_in limit ''text'' w fs)" for m
  proof -
    obtain f i where f: "f \<in> set fs" "occurs (sf_text f) w i" "m = match_for_index f i ''text'' w"
      using matches_in_sound [OF m] by blast
    have l: "line_of_index (sf_text f) i \<le> length (sf_lines f) \<and> has_sub (sf_lines f ! (line_of_index (sf_text f) i - 1)) w"
      unfolding sf_lines_def using f(2) assms(2) by (intro occurrence_line) (auto simp: occurs_def)
    obtain n where n: "line_of_index (sf_text f) i = Suc n"
      by (cases "line_of_index (sf_text f) i") (auto simp: line_of_index_def)
    show ?thesis using f l n by (intro bexI [of _ f] exI [of _ n]) auto
  qed
  have complete: "\<exists>m \<in> set (matches_in limit ''text'' w fs). get m ''file'' = JStr (sf_rel f) \<and> get m ''line'' = jint (int (Suc n))"
    if a: "length (matches_in limit ''text'' w fs) < limit" "f \<in> set fs" "n < length (sf_lines f)" "has_sub (sf_lines f ! n) w" for f n
  proof -
    obtain k where k: "occurs (sf_text f) w k" "line_of_index (sf_text f) k = Suc n"
      using line_occurrence [of n "sf_text f" w] a(3,4) assms unfolding sf_lines_def by blast
    obtain p where p: "p \<le> k" "k < p + max 1 (length w)" "occurs (sf_text f) w p"
      "match_for_index f p ''text'' w \<in> set (matches_in limit ''text'' w fs)"
      using matches_in_cover [OF a(1,2) k(1)] by blast
    have "line_of_index (sf_text f) p = Suc n" using overlapping_lines [OF p(3,1,2) assms(2)] k(2) by simp
    with p(4) show ?thesis by (intro bexI [of _ "match_for_index f p ''text'' w"]) simp_all
  qed
  from matches_in_length sound complete show ?thesis unfolding eq by blast
qed

theorem literal_matches_are_the_lines_witness:
  "\<exists>m \<in> set (find_literal_matches [\<lparr>sf_rel = ''a'', sf_text = ''x'' @ newline # ''hi you''\<rparr>] ''hi'' 8).
    get m ''file'' = JStr ''a'' \<and> get m ''line'' = jint (int (Suc 1))"
proof -
  let ?f = "\<lparr>sf_rel = ''a'', sf_text = ''x'' @ newline # ''hi you''\<rparr>"
  have "length (find_literal_matches [?f] ''hi'' 8) < 8" "newline \<notin> set ''hi''" by code_simp+
  then have "\<forall>f \<in> set [?f]. \<forall>n < length (sf_lines f). has_sub (sf_lines f ! n) ''hi'' \<longrightarrow>
      (\<exists>m \<in> set (find_literal_matches [?f] ''hi'' 8). get m ''file'' = JStr (sf_rel f) \<and> get m ''line'' = jint (int (Suc n)))"
    using literal_matches_are_the_lines [of "''hi''" "[?f]" 8] by blast
  then have "1 < length (sf_lines ?f) \<Longrightarrow> has_sub (sf_lines ?f ! 1) ''hi'' \<Longrightarrow>
      (\<exists>m \<in> set (find_literal_matches [?f] ''hi'' 8). get m ''file'' = JStr (sf_rel ?f) \<and> get m ''line'' = jint (int (Suc 1)))"
    by (meson list.set_intros(1))
  moreover have "1 < length (sf_lines ?f)" "has_sub (sf_lines ?f ! 1) ''hi''" "sf_rel ?f = ''a''" by code_simp+
  ultimately show ?thesis by metis
qed

end
