(* ===== verification/Manual_Commit.thy ===== *)
theory Manual_Commit
  imports Edit_Evidence Commit_Run
begin

text \<open>
  The Apply route, \<open>/manual-edit-commit\<close> of \<open>live/manual-edit-routes.mjs\<close>: what
  it does before it waits for \<open>commitManualEdits\<close>, what it does with the outcome,
  and the two put together. Between them the server goes on serving, so the state
  a commit ends in is any later one.
\<close>

section \<open>Before the commit\<close>

text \<open>
  The process's environment: \<open>ce_mode\<close> and \<open>ce_attempts\<close> are the two variables
  read, \<open>ce_tx_id\<close> the random id drawn for a transaction, \<open>ce_buffer_path\<close> the path
  of the staged edits below the root.
\<close>

record commit_env =
  ce_project :: project
  ce_mode :: jsval
  ce_attempts :: jsval
  ce_tx_id :: string
  ce_buffer_path :: string

record commit_job =
  cj_page :: jsval
  cj_async :: bool
  cj_repair :: bool
  cj_transaction :: "apply_transaction option"
  cj_existing :: "apply_transaction option"
  cj_batch :: jsval
  cj_chat :: bool
  cj_mode :: string

definition is_flag :: "jsval \<Rightarrow> bool" where
  \<comment> \<open>\<open>/^(1|true|yes)$/i\<close>\<close>
  "is_flag v = (map lower_char (str_of v) \<in> {''1'', ''true'', ''yes''})"

definition recovered_log :: "string \<Rightarrow> jsval \<Rightarrow> js_error + jsval" where
  "recovered_log cwd recovered =
    (if \<not> truthy recovered then Inr JNull
     else bindE (summarize_manual_diagnostics cwd (get recovered ''rollbackFailures'')) (\<lambda>failed.
       Inr (JObj [(''id'', get recovered ''id''), (''reason'', get recovered ''reason''), (''skipped'', get recovered ''skipped''),
         (''rolledBackFiles'', get recovered ''rolledBackFiles''), (''rollbackFailures'', failed)])))"

definition summarize_pending_manual_edit_batch :: "jsval \<Rightarrow> server \<Rightarrow> props" where
  "summarize_pending_manual_edit_batch page s =
    (let entries = filter (\<lambda>e. \<not> truthy page \<or> strict_eq (be_page e) page) (read_buffer (lv_buffer s)) in
     [(''pendingEntryCount'', jint (int (length entries))),
      (''pendingOpCount'', jint (int (sum_list (map (\<lambda>e. length (be_ops e)) entries))))])"

definition provider_name :: "commit_job \<Rightarrow> jsval" where
  "provider_name job = JStr (if cj_chat job then ''chat'' else ''subprocess'')"

definition transaction_id :: "apply_transaction option \<Rightarrow> jsval" where
  "transaction_id tx = (case tx of None \<Rightarrow> JNull | Some x \<Rightarrow> js_or (JStr (tx_id x)) JNull)"

definition clear_job_transaction :: "commit_job \<Rightarrow> server \<Rightarrow> server" where
  \<comment> \<open>\<open>manualApply.clearTransaction(transaction.id)\<close>, where there is one\<close>
  "clear_job_transaction job s = (case cj_transaction job of None \<Rightarrow> s
     | Some x \<Rightarrow> s\<lparr>lv_transaction := snd (clear_manual_apply_transaction (Some (tx_id x)) (lv_transaction s))\<rparr>)"

definition commit_failed :: "host \<Rightarrow> commit_job \<Rightarrow> string \<Rightarrow> server \<Rightarrow> js_error + (reply option \<times> server)" where
  \<comment> \<open>the exception path and the clearing after it\<close>
  "commit_failed h job err s =
    bindE (if cj_transaction job = None then Inr (JNull, s)
           else rollback_transaction h (cj_page job) ''manual_edit_commit_exception'' s) (\<lambda>(_, s).
      let s = record_manual_edit_activity h ''manual_edit_commit_failed''
            [(''pageUrl'', cj_page job), (''provider'', provider_name job), (''error'', JStr ''manual_edit_commit_failed''),
             (''message'', JStr err), (''transactionId'', transaction_id (cj_transaction job))] s
      in Inr (if cj_async job then None
              else Some (Json 500 (error_body ''manual_edit_commit_failed'' [(''message'', JStr err)])),
            clear_job_transaction job s))"

definition commit_agent :: "host \<Rightarrow> commit_env \<Rightarrow> server \<Rightarrow> commit_job \<Rightarrow> commit_job" where
  \<comment> \<open>who applies the edits: the chat agent or a runner of this process\<close>
  "commit_agent h env s job = (let m = copy_agent_mode (ce_mode env) in job\<lparr>cj_mode := m,
     cj_chat := (m = ''chat'' \<or> (m = ''auto'' \<and> chat_agent_likely_active h (lv_bus s)))\<rparr>)"

definition open_transaction :: "commit_env \<Rightarrow> commit_job \<Rightarrow> jsval \<Rightarrow> server \<Rightarrow> js_error + (commit_job \<times> server)" where
  \<comment> \<open>the batch of the staged edits, and the transaction that covers it\<close>
  "open_transaction env job pending s =
    (if \<not> js_gt pending (JNum 0) then Inr (job, s)
     else bindE (build_manual_edit_evidence (ce_project env) (ce_buffer_path env) (cj_page job) (lv_tree s) (lv_buffer s)) (\<lambda>batch.
       let job = job\<lparr>cj_batch := batch\<rparr> in
       if \<not> cj_repair job \<and> count_manual_apply_ops batch > 0
       then bindE (write_manual_apply_transaction (ce_tx_id env) (lv_root s) (cj_page job) batch (lv_tree s)) (\<lambda>tx.
         Inr (job\<lparr>cj_transaction := Some tx\<rparr>, s\<lparr>lv_transaction := Some tx\<rparr>))
       else if cj_repair job \<and> cj_existing job \<noteq> None
       then Inr (job\<lparr>cj_transaction := cj_existing job\<rparr>, s)
       else Inr (job, s)))"

definition commit_begin :: "host \<Rightarrow> commit_env \<Rightarrow> request \<Rightarrow> server \<Rightarrow>
    js_error + (reply option \<times> commit_job option \<times> server)" where
  \<comment> \<open>the ans if there is one yet, and the job if the commit goes on\<close>
  "commit_begin h env r s =
    (if \<not> token_ok s (param r ''token'') then Inr (Some unauthorized_text, None, s)
     else let page = param r ''pageUrl''; async = is_flag (param r ''async''); repair = is_flag (param r ''repair'');
              existing = lv_transaction s in
       if repair \<and> existing = None
       then Inr (Some (Json 409 (error_body ''manual_edit_repair_transaction_missing'' [])), None, s)
       else bindE (if repair then Inr (JNull, s)
              else rollback_transaction h page ''manual_edit_commit_recovered_abandoned_transaction'' s) (\<lambda>(recovered, s).
         bindE (recovered_log (lv_root s) recovered) (\<lambda>log.
         let pending = pending_on page s; before = counts s;
             s = record_manual_edit_activity h ''manual_edit_commit_started''
               ([(''pageUrl'', page), (''repairOnly'', JBool repair), (''pendingCount'', pending),
                 (''totalCount'', total_staged s), (''recoveredTransaction'', log)] @
                summarize_pending_manual_edit_batch page s) s;
             started = (if async then Some (Json 202 (JObj ([(''status'', JStr ''started''), (''pendingCount'', pending)] @ before)))
               else None);
             job = \<lparr>cj_page = page, cj_async = async, cj_repair = repair, cj_transaction = None, cj_existing = existing,
               cj_batch = JNull, cj_chat = False, cj_mode = []\<rparr>
         in case open_transaction env job pending s of
              Inr (job, s) \<Rightarrow> Inr (started, Some (commit_agent h env s job), s)
            | Inl err \<Rightarrow> bindE (commit_failed h job (str_of (error_text err)) s) (\<lambda>(ans, s).
                Inr (if async then started else ans, None, s)))))"

section \<open>The commit of a job\<close>

text \<open>
  \<open>reply\<close> is what the agents do and ans, call after call, and \<open>pick\<close> what
  \<open>chooseCopyEditAgent\<close> finds installed when the environment names no runner.
\<close>

definition job_args :: "commit_env \<Rightarrow> (nat \<Rightarrow> string option) \<Rightarrow>
    (nat \<Rightarrow> jsval \<Rightarrow> tree \<Rightarrow> buffer_file \<Rightarrow> (string + jsval option) \<times> tree \<times> buffer_file) \<Rightarrow> commit_job \<Rightarrow> commit_args" where
  "job_args env pick reply job = \<lparr>ca_project = ce_project env,
     ca_provider = (if cj_chat job then (\<lambda>_. Some ''chat'')
       else if cj_mode job \<in> {''codex'', ''claude'', ''mock''} then (\<lambda>_. Some (cj_mode job)) else pick),
     ca_reply = reply,
     ca_evidence = (\<lambda>t b. case build_manual_edit_evidence (ce_project env) (ce_buffer_path env) (cj_page job) t b of
        Inl _ \<Rightarrow> JNull | Inr batch \<Rightarrow> batch),
     ca_page = cj_page job, ca_attempts = ce_attempts env, ca_repair_only = cj_repair job,
     ca_transaction = js_or (transaction_id (cj_transaction job)) (transaction_id (cj_existing job)),
     ca_batch = cj_batch job\<rparr>"

definition run_job :: "commit_args \<Rightarrow> server \<Rightarrow> jsval \<times> server" where
  \<comment> \<open>\<open>commitManualEdits\<close> on the files and the buffer of the server\<close>
  "run_job c s =
    (let (result, w) = commit_manual_edits c \<lparr>cw_tree = lv_tree s, cw_buffer = lv_buffer s, cw_calls = 0\<rparr>
     in (result, s\<lparr>lv_tree := cw_tree w, lv_buffer := cw_buffer w\<rparr>))"

section \<open>After the commit\<close>

definition log_twenty :: "string \<Rightarrow> jsval \<Rightarrow> jsval \<Rightarrow> jsval" where
  "log_twenty cwd v other = (if is_arr v then JArr (filter truthy (map (summarize_log_file cwd) (take 20 (elems v)))) else other)"

definition done_activity :: "commit_job \<Rightarrow> jsval \<Rightarrow> server \<Rightarrow> js_error + (string \<times> props)" where
  "done_activity job result s =
    (let cwd = lv_root s; page = cj_page job; count_of = (\<lambda>k. jint (int (length (elems (get result k))))) in
     bindE (summarize_manual_apply_failures cwd (get result ''failed'')) (\<lambda>failed.
     if truthy (get result ''needsManualDecision'')
     then Inr (''manual_edit_repair_needs_decision'', [(''pageUrl'', page), (''provider'', provider_name job),
       (''transactionId'', js_or (transaction_id (cj_transaction job)) (transaction_id (cj_existing job))),
       (''repair'', js_or (get result ''repair'') JNull), (''failed'', failed),
       (''files'', log_twenty cwd (get result ''files'') (JArr [])),
       (''remainingCount'', pending_on page s), (''totalCount'', total_staged s)])
     else bindE (summarize_manual_diagnostics cwd (get result ''warnings'')) (\<lambda>warnings.
       bindE (summarize_manual_diagnostics cwd (get result ''rollbackFailures'')) (\<lambda>failures. Inr (''manual_edit_commit_done'',
       [(''pageUrl'', page), (''provider'', provider_name job), (''reason'', js_or (get result ''reason'') JNull),
        (''repair'', js_or (get result ''repair'') JNull), (''appliedCount'', count_of ''applied''),
        (''failedCount'', count_of ''failed''), (''failed'', failed),
        (''files'', log_twenty cwd (get result ''files'') (JArr [])), (''warnings'', warnings),
        (''rolledBackFiles'', log_twenty cwd (get result ''rolledBackFiles'') (JArr [])), (''rollbackFailures'', failures),
        (''unreportedFiles'', log_twenty cwd (get result ''unreportedFiles'') JUndef), (''noteCount'', count_of ''notes''),
        (''cleared'', js_or (get result ''cleared'') (JNum 0)),
        (''remainingCount'', pending_on page s), (''totalCount'', total_staged s)])))))"

definition commit_end :: "host \<Rightarrow> commit_job \<Rightarrow> string + jsval \<Rightarrow> server \<Rightarrow> js_error + (reply option \<times> server)" where
  \<comment> \<open>the outcome is the message of an exception or the commit's result\<close>
  "commit_end h job outcome s =
    (case outcome of
       Inl err \<Rightarrow> commit_failed h job err s
     | Inr result \<Rightarrow>
       let s = (if get result ''needsManualDecision'' = JBool True then s else clear_job_transaction job s)
       in bindE (done_activity job result s) (\<lambda>(name, details).
         Inr (if cj_async job then None else Some (Json 200 (with_props result (counts s))),
           record_manual_edit_activity h name details s)))"

definition commit_route :: "host \<Rightarrow> commit_env \<Rightarrow> (nat \<Rightarrow> string option) \<Rightarrow>
    (nat \<Rightarrow> jsval \<Rightarrow> tree \<Rightarrow> buffer_file \<Rightarrow> (string + jsval option) \<times> tree \<times> buffer_file) \<Rightarrow>
    request \<Rightarrow> server \<Rightarrow> js_error + (reply option \<times> server)" where
  \<comment> \<open>a commit that nothing but its agents interrupts\<close>
  "commit_route h env pick reply r s =
    bindE (commit_begin h env r s) (\<lambda>(first, job, s). case job of
       None \<Rightarrow> Inr (first, s)
     | Some job \<Rightarrow> let (result, s) = run_job (job_args env pick reply job) s
         in bindE (commit_end h job (Inr result) s) (\<lambda>(ans, s). Inr (if cj_async job then first else ans, s)))"

section \<open>What the steps touch\<close>

definition file_state :: "server \<Rightarrow> tree \<times> apply_transaction option \<times> buffer_file \<times> string" where
  "file_state s = (lv_tree s, lv_transaction s, lv_buffer s, lv_root s)"

lemma files_activity [simp]: "file_state (record_manual_edit_activity h name details s) = file_state s"
  by (simp add: file_state_def record_manual_edit_activity_def on_bus_def Let_def)

lemma lv_activity [simp]:
  "lv_tree (record_manual_edit_activity h name details s) = lv_tree s"
  "lv_transaction (record_manual_edit_activity h name details s) = lv_transaction s"
  "lv_buffer (record_manual_edit_activity h name details s) = lv_buffer s"
  "lv_root (record_manual_edit_activity h name details s) = lv_root s"
  using files_activity [of h name details s] by (simp_all add: file_state_def)

lemma clear_job_files [simp]:
  "lv_tree (clear_job_transaction job s) = lv_tree s" "lv_root (clear_job_transaction job s) = lv_root s"
  "lv_buffer (clear_job_transaction job s) = lv_buffer s"
  by (simp_all add: clear_job_transaction_def split: option.split)

lemma rollback_transaction_files:
  assumes "rollback_transaction h page reason s = Inr (v, s')"
  shows "\<exists>result. rollback_manual_apply_transaction (lv_root s) page (lv_buffer s) (lv_transaction s) (lv_tree s) =
    (result, lv_transaction s', lv_tree s') \<and> lv_buffer s' = lv_buffer s \<and> lv_root s' = lv_root s"
proof -
  obtain result tx' t where r: "rollback_manual_apply_transaction (lv_root s) page (lv_buffer s) (lv_transaction s)
      (lv_tree s) = (result, tx', t)" by (rule prod_cases3)
  show ?thesis
  proof (cases "lv_transaction s")
    case None
    with assms r show ?thesis by (auto simp: rollback_transaction_def)
  next
    case (Some tx)
    with assms r show ?thesis
      by (cases result) (auto simp: rollback_transaction_def Let_def bindE_Inr_iff split: prod.splits if_splits)
  qed
qed

lemma commit_failed_keeps_tree:
  assumes "commit_failed h job err s = Inr (ans, s')" "cj_transaction job = None"
  shows "lv_tree s' = lv_tree s \<and> lv_transaction s' = lv_transaction s"
  using assms by (auto simp: commit_failed_def clear_job_transaction_def Let_def)

lemma open_transaction_effect:
  assumes "open_transaction env job pending s = Inr (job', s')" "cj_transaction job = None"
  shows "lv_tree s' = lv_tree s \<and> lv_root s' = lv_root s \<and> lv_buffer s' = lv_buffer s \<and>
    cj_page job' = cj_page job \<and> cj_repair job' = cj_repair job \<and>
    (\<not> cj_repair job \<longrightarrow> (\<forall>tx. cj_transaction job' = Some tx \<longrightarrow> lv_transaction s' = Some tx \<and>
      write_manual_apply_transaction (ce_tx_id env) (lv_root s) (cj_page job) (cj_batch job') (lv_tree s) = Inr tx \<and>
      build_manual_edit_evidence (ce_project env) (ce_buffer_path env) (cj_page job) (lv_tree s) (lv_buffer s) = Inr (cj_batch job')))"
proof -
  let ?evidence = "build_manual_edit_evidence (ce_project env) (ce_buffer_path env) (cj_page job) (lv_tree s) (lv_buffer s)"
  consider "job' = job" "s' = s" | batch where "?evidence = Inr batch" "job' = job\<lparr>cj_batch := batch\<rparr>" "s' = s"
    | batch where "?evidence = Inr batch" "cj_repair job" "job' = job\<lparr>cj_batch := batch, cj_transaction := cj_existing job\<rparr>" "s' = s"
    | batch tx where "?evidence = Inr batch" "job' = job\<lparr>cj_batch := batch, cj_transaction := Some tx\<rparr>"
      "write_manual_apply_transaction (ce_tx_id env) (lv_root s) (cj_page job) batch (lv_tree s) = Inr tx" "s' = s\<lparr>lv_transaction := Some tx\<rparr>"
  proof (cases "js_gt pending (JNum 0)")
    case False
    with assms(1) that(1) show thesis by (simp add: open_transaction_def)
  next
    case True
    have notnot: "\<not> \<not> P" if P for P using that by simp
    obtain batch where batch: "?evidence = Inr batch"
      using assms(1) True by (cases ?evidence) (simp_all add: open_transaction_def)
    note run = assms(1) [unfolded open_transaction_def batch bindE_simps if_not_P [OF notnot [OF True]]]
    show thesis
    proof (cases "\<not> cj_repair job \<and> count_manual_apply_ops batch > 0")
      case c: True
      then obtain tx where w: "write_manual_apply_transaction (ce_tx_id env) (lv_root s) (cj_page job) batch (lv_tree s) = Inr tx"
        using run by (cases "write_manual_apply_transaction (ce_tx_id env) (lv_root s) (cj_page job) batch (lv_tree s)") (simp_all add: Let_def)
      show thesis by (rule that(4) [OF batch _ w]) (use run c w in \<open>auto simp: Let_def\<close>)
    next
      case c: False
      show thesis
      proof (cases "cj_repair job \<and> cj_existing job \<noteq> None")
        case True
        show thesis by (rule that(3) [OF batch]) (use run True in \<open>auto simp: Let_def\<close>)
      next
        case False
        show thesis by (rule that(2) [OF batch]) (use run c False in \<open>auto simp: Let_def\<close>)
      qed
    qed
  qed
  then show ?thesis
  proof cases
    case 1
    with assms(2) show ?thesis by simp
  next
    case 2
    with assms(2) show ?thesis by simp
  next
    case 3
    then show ?thesis by simp
  next
    case 4
    then show ?thesis by simp
  qed
qed

lemma commit_agent_fields [simp]:
  "cj_transaction (commit_agent h env s job) = cj_transaction job" "cj_page (commit_agent h env s job) = cj_page job"
  "cj_batch (commit_agent h env s job) = cj_batch job" "cj_repair (commit_agent h env s job) = cj_repair job"
  by (simp_all add: commit_agent_def Let_def)

text \<open>A commit that gets past its guards recovers first, and changes no file after that.\<close>

lemma commit_begin_recovers:
  assumes "commit_begin h env r s = Inr (first, job, s')" "token_ok s (param r ''token'')" "\<not> is_flag (param r ''repair'')"
  shows "\<exists>v s1. rollback_transaction h (param r ''pageUrl'') ''manual_edit_commit_recovered_abandoned_transaction'' s = Inr (v, s1) \<and>
    lv_tree s' = lv_tree s1 \<and> (\<forall>j. job = Some j \<longrightarrow> cj_page j = param r ''pageUrl'' \<and>
      (\<forall>tx. cj_transaction j = Some tx \<longrightarrow> lv_transaction s' = Some tx \<and>
        write_manual_apply_transaction (ce_tx_id env) (lv_root s) (cj_page j) (cj_batch j) (lv_tree s') = Inr tx \<and>
        build_manual_edit_evidence (ce_project env) (ce_buffer_path env) (cj_page j) (lv_tree s') (lv_buffer s) = Inr (cj_batch j)))"
proof -
  obtain v s1 where rb: "rollback_transaction h (param r ''pageUrl'') ''manual_edit_commit_recovered_abandoned_transaction'' s = Inr (v, s1)"
    using assms by (auto simp: commit_begin_def Let_def bindE_Inr_iff)
  then have keep: "lv_root s1 = lv_root s" "lv_buffer s1 = lv_buffer s" using rollback_transaction_files by blast+
  let ?job = "\<lparr>cj_page = param r ''pageUrl'', cj_async = is_flag (param r ''async''), cj_repair = False, cj_transaction = None,
    cj_existing = lv_transaction s, cj_batch = JNull, cj_chat = False, cj_mode = []\<rparr>"
  obtain log where log: "recovered_log (lv_root s1) v = Inr log"
    using assms rb by (auto simp: commit_begin_def Let_def bindE_Inr_iff)
  obtain pending name details started where o: "(case open_transaction env ?job pending (record_manual_edit_activity h name details s1) of
        Inr (job, s) \<Rightarrow> Inr (started, Some (commit_agent h env s job), s)
      | Inl err \<Rightarrow> bindE (commit_failed h ?job (str_of (error_text err)) (record_manual_edit_activity h name details s1)) (\<lambda>(ans, s).
          Inr (if is_flag (param r ''async'') then started else ans, None, s))) = Inr (first, job, s')"
    using assms rb log by (auto simp: commit_begin_def Let_def)
  let ?s2 = "record_manual_edit_activity h name details s1"
  show ?thesis
  proof (cases "open_transaction env ?job pending ?s2")
    case (Inl err)
    with o obtain ans where "commit_failed h ?job (str_of (error_text err)) ?s2 = Inr (ans, s')" "job = None"
      by (auto simp: bindE_Inr_iff)
    with commit_failed_keeps_tree [OF this(1)] rb show ?thesis by auto
  next
    case (Inr js)
    obtain j s3 where js: "js = (j, s3)" by (cases js)
    note eff = open_transaction_effect [OF Inr [unfolded js]]
    from o Inr js have res: "job = Some (commit_agent h env s3 j)" "s' = s3" by auto
    show ?thesis
      by (rule exI [of _ v], rule exI [of _ s1]) (use eff res keep rb in auto)
  qed
qed

section \<open>Transactions\<close>

lemma collected_normalizes:
  assumes "is_absolute cwd" "rel \<in> set (collect_manual_apply_files cwd batch extra)"
  shows "normalize_project_file cwd (JStr rel) = Some rel"
proof -
  obtain f where "project_file cwd f = Some rel" using collected_is_project_file [OF assms(2)] by blast
  with project_file_idem [OF assms(1)] project_file_nonempty show ?thesis by (simp add: normalize_project_file_def)
qed

lemma written_transaction_restores:
  assumes "is_absolute cwd" "write_manual_apply_transaction i cwd page batch t0 = Inr tx" "\<forall>p. tr_writable t p"
    and "truthy page' \<Longrightarrow> truthy page \<Longrightarrow> strict_eq page page'" "\<exists>i \<in> set (tx_entries tx). i \<in> set (map be_id (read_buffer b))"
    and "rollback_manual_apply_transaction cwd page' b (Some tx) t = (result, tx', t')"
  shows "tx' = None \<and> (\<forall>p. file_at t' p =
    (if p \<in> resolve cwd ` set (collect_manual_apply_files cwd batch []) then file_at t0 p else file_at t p))"
proof -
  let ?rels = "collect_manual_apply_files cwd batch []"
  let ?snap = "map (\<lambda>rel. (rel, save_file t0 cwd rel)) ?rels"
  have tx: "tx_page tx = page" "tx_files tx = ?snap" "tx_entries tx = filter truthy (map (\<lambda>e. get e ''id'') (entries_of batch))"
    using assms(2) by (auto simp: write_manual_apply_transaction_def Let_def split: if_splits)
  have pending: "\<exists>i \<in> set (tx_entries tx). i \<in> set (filter truthy (map be_id (read_buffer b)))" using assms(5) tx(3) by auto
  have snap: "map_of ?snap rel = (if rel \<in> set ?rels then Some (save_file t0 cwd rel) else None)" for rel
    by (simp add: map_of_map_restrict restrict_map_def)
  have writable: "tr_writable t p" for p using assms(3) by blast
  have sv: "c = save_file t0 cwd rel" if "map_of ?snap rel = Some c" for rel c using that unfolding snap by (simp split: if_splits)
  have same: "fold (\<lambda>(f, before) s. case normalize_project_file cwd (JStr f) of None \<Rightarrow> s | Some rel \<Rightarrow> restore_one cwd rel before s) ?snap st =
      fold (\<lambda>rel s. case map_of ?snap rel of None \<Rightarrow> s | Some before \<Rightarrow> restore_one cwd rel before s) ?rels st" for st
    unfolding fold_map by (rule fold_cong) (use collected_normalizes [OF assms(1)] snap in \<open>auto simp: fun_eq_iff\<close>)
  obtain t1 rb fl where f: "fold (\<lambda>(f, before) s. case normalize_project_file cwd (JStr f) of None \<Rightarrow> s
      | Some rel \<Rightarrow> restore_one cwd rel before s) ?snap (t, [], []) = (t1, rb, fl)" by (rule prod_cases3)
  have "\<not> (truthy page' \<and> truthy (tx_page tx) \<and> \<not> strict_eq (tx_page tx) page')" using assms(4) tx(1) by auto
  moreover have "\<not> \<not> (\<exists>i \<in> set (tx_entries tx). i \<in> set (filter truthy (map be_id (read_buffer b))))" using pending by blast
  ultimately have "(Some (rb, fl, False), snd (clear_manual_apply_transaction (Some (tx_id tx)) (Some tx)), t1) = (result, tx', t')"
    using assms(6) [unfolded rollback_manual_apply_transaction_def option.case Let_def] f [folded tx(2)] by (simp only: if_False prod.case if_not_P)
  then have "t' = t1" "tx' = None" by (auto simp: clear_manual_apply_transaction_def)
  moreover have "\<forall>p. file_at t1 p = (if p \<in> resolve cwd ` {rel \<in> set ?rels. rel \<in> dom (map_of ?snap)} then file_at t0 p else file_at t p)"
    using restore_all [OF writable sv f [unfolded same]] by blast
  moreover have "{rel \<in> set ?rels. rel \<in> dom (map_of ?snap)} = set ?rels" using snap by (auto simp: dom_def)
  ultimately show ?thesis by simp
qed

lemma evidence_entries:
  assumes "build_manual_edit_evidence pj bp page t b = Inr batch" "e \<in> set (entries_of batch)"
  shows "get e ''id'' \<in> set (map be_id (read_buffer b))"
  using assms by (auto simp: build_manual_edit_evidence_def Let_def entries_of_def bindE_Inr_iff entry_obj_def split: if_splits)

section \<open>Properties\<close>


text \<open>
  C9. A commit closes its transaction: once it is over, by a result or by an
  exception, no transaction of it is left, except when the user has to decide;
  then it is the one that was there.
\<close>

theorem commit_closes_its_transaction:
  assumes "commit_end h job outcome s = Inr (ans, s')" "cj_transaction job = Some tx"
    and "lv_transaction s = Some tx \<or> lv_transaction s = None"
  shows "lv_transaction s' = (case outcome of Inl _ \<Rightarrow> None
    | Inr result \<Rightarrow> if get result ''needsManualDecision'' = JBool True then lv_transaction s else None)"
proof (cases outcome)
  case (Inl err)
  with assms(1) have f: "commit_failed h job err s = Inr (ans, s')" by (simp add: commit_end_def)
  then obtain v s1 where rb: "rollback_transaction h (cj_page job) ''manual_edit_commit_exception'' s = Inr (v, s1)"
    and s': "lv_transaction s' = snd (clear_manual_apply_transaction (Some (tx_id tx)) (lv_transaction s1))"
    using assms(2) by (auto simp: commit_failed_def bindE_Inr_iff Let_def clear_job_transaction_def)
  obtain result where "rollback_manual_apply_transaction (lv_root s) (cj_page job) (lv_buffer s) (lv_transaction s) (lv_tree s) =
      (result, lv_transaction s1, lv_tree s1)" using rollback_transaction_files [OF rb] by auto
  then have "lv_transaction s1 = Some tx \<or> lv_transaction s1 = None"
    using assms(3) by (auto simp: rollback_manual_apply_transaction_def clear_manual_apply_transaction_def Let_def split: if_splits prod.splits)
  then show ?thesis using s' Inl by (auto simp: clear_manual_apply_transaction_def)
next
  case (Inr result)
  let ?s1 = "if get result ''needsManualDecision'' = JBool True then s else clear_job_transaction job s"
  obtain name details where "s' = record_manual_edit_activity h name details ?s1"
    using assms(1) Inr by (auto simp: commit_end_def bindE_Inr_iff Let_def)
  then have "lv_transaction s' = lv_transaction ?s1" by simp
  moreover have "lv_transaction (clear_job_transaction job s) = None"
    using assms(2,3) by (auto simp: clear_job_transaction_def clear_manual_apply_transaction_def)
  ultimately show ?thesis using Inr by simp
qed

text \<open>
  One transaction for all pages: a commit of another page does not roll the
  transaction of a lost commit back, and overwrites it with its own. What the
  lost commit left in the files then stays for good.
\<close>

theorem other_pages_transaction_is_lost:
  assumes "commit_begin h env r s = Inr (first, Some job, s')" "token_ok s (param r ''token'')" "\<not> is_flag (param r ''repair'')"
    and "lv_transaction s = Some x" "truthy (tx_page x)" "truthy (param r ''pageUrl'')" "\<not> strict_eq (tx_page x) (param r ''pageUrl'')"
    and "cj_transaction job = Some tx"
  shows "lv_transaction s' = Some tx \<and> tx_page tx = param r ''pageUrl'' \<and> lv_tree s' = lv_tree s"
proof -
  obtain v s1 where rb: "rollback_transaction h (param r ''pageUrl'') ''manual_edit_commit_recovered_abandoned_transaction'' s = Inr (v, s1)"
    and tree: "lv_tree s' = lv_tree s1"
    and w: "lv_transaction s' = Some tx" "write_manual_apply_transaction (ce_tx_id env) (lv_root s) (cj_page job) (cj_batch job) (lv_tree s') = Inr tx"
    and page: "cj_page job = param r ''pageUrl''"
    using commit_begin_recovers [OF assms(1-3)] assms(8) by blast
  have "lv_tree s1 = lv_tree s"
  proof -
    have c: "truthy (param r ''pageUrl'') \<and> truthy (tx_page x) \<and> \<not> strict_eq (tx_page x) (param r ''pageUrl'')"
      using assms(5-7) by blast
    obtain result where "rollback_manual_apply_transaction (lv_root s) (param r ''pageUrl'') (lv_buffer s) (Some x) (lv_tree s) =
        (result, lv_transaction s1, lv_tree s1)" using rollback_transaction_files [OF rb] assms(4) by auto
    from this [unfolded rollback_manual_apply_transaction_def option.case if_P [OF c]] show ?thesis by simp
  qed
  moreover have "tx_page tx = cj_page job" using w(2) by (auto simp: write_manual_apply_transaction_def Let_def split: if_splits)
  ultimately show ?thesis using tree w(1) page by simp
qed

section \<open>Runs\<close>

text \<open>A server with one staged edit of the page \<open>/\<close>, and its file.\<close>

definition staged_edit :: buf_entry where
  "staged_edit = \<lparr>be_id = JStr ''e'', be_page = JStr ''/'', be_element = JNull, be_ops = [JObj [(''ref'', JStr ''r''),
     (''originalText'', JStr ''old''), (''newText'', JStr ''new''), (''sourceHint'', JObj [(''file'', JStr ''a'')])]], be_staged = JNull\<rparr>"

definition staged_tree :: "string \<Rightarrow> tree" where
  "staged_tree body = \<lparr>tr_files = [(''/app/a'', body)], tr_readable = (\<lambda>_. True), tr_writable = (\<lambda>_. True), tr_error = []\<rparr>"

definition staged_server :: "string \<Rightarrow> apply_transaction option \<Rightarrow> server" where
  "staged_server body tx = \<lparr>lv_bus = empty_bus sample_store, lv_token = ''secret'', lv_port = 8400, lv_root = ''/app'',
     lv_live_dir = ''/app/.impeccable/live'', lv_soft = JUndef, lv_edit_seq = 1, lv_activity = JNull,
     lv_deferreds = [], lv_timed_out = [], lv_settled = [], lv_tree = staged_tree body,
     lv_evidence = [], lv_exit_at = None, lv_buffer = Buffer [staged_edit], lv_transaction = tx,
     lv_session_dir = None, lv_has_context = True\<rparr>"

definition commit_request :: "(string \<times> string) list \<Rightarrow> request" where
  "commit_request q = \<lparr>rq_id = 7, rq_query = (''token'', ''secret'') # q, rq_content_type = [], rq_chunks = [], rq_json = None\<rparr>"

definition apply_env :: commit_env where
  "apply_env = \<lparr>ce_project = \<lparr>pj_root = ''/app'', pj_ignored = (\<lambda>_. False),
     pj_checks = \<lparr>ck_json = (\<lambda>_. None), ck_js = (\<lambda>_ _. None), ck_syntax = None, ck_script = (\<lambda>_. None)\<rparr>\<rparr>,
     ce_mode = JStr ''chat'', ce_attempts = JUndef, ce_tx_id = ''t1'', ce_buffer_path = ''.impeccable/live/pending-manual-edits.json''\<rparr>"

definition lost_transaction :: "string \<Rightarrow> apply_transaction" where
  "lost_transaction page = \<lparr>tx_id = ''t1'', tx_page = JStr page, tx_entries = [JStr ''e''],
     tx_files = [(''a'', \<lparr>sv_exists = True, sv_content = ''old''\<rparr>)]\<rparr>"

definition begun :: "apply_transaction option \<Rightarrow> string \<Rightarrow> js_error + (reply option \<times> commit_job option \<times> server)" where
  "begun tx body = commit_begin sample_host apply_env (commit_request [(''pageUrl'', ''/'')]) (staged_server body tx)"

definition begins_well :: "apply_transaction option \<Rightarrow> string \<Rightarrow> bool" where
  "begins_well tx body = (case begun tx body of Inr (first, Some job, s1) \<Rightarrow>
       cj_transaction job = Some (lost_transaction ''/'') \<and> collect_manual_apply_files ''/app'' (cj_batch job) [] = [''a''] \<and>
       file_at (lv_tree s1) ''/app/a'' = Some ''old''
     | _ \<Rightarrow> False)"

lemma begins_wellE:
  assumes "begins_well tx body"
  obtains first job s1 where "commit_begin sample_host apply_env (commit_request [(''pageUrl'', ''/'')]) (staged_server body tx) = Inr (first, Some job, s1)"
    "cj_transaction job = Some (lost_transaction ''/'')" "collect_manual_apply_files ''/app'' (cj_batch job) [] = [''a'']"
    "file_at (lv_tree s1) ''/app/a'' = Some ''old''"
  using assms by (auto simp: begins_well_def begun_def split: sum.splits prod.splits option.splits)

lemma sample_begins: "begins_well None ''old''" "begins_well (Some (lost_transaction ''/'')) ''bad''"
  "begins_well (Some (lost_transaction ''/b'')) ''old''"
  by code_simp+

lemma commit_request_params:
  "token_ok (staged_server body tx) (param (commit_request [(''pageUrl'', ''/'')]) ''token'')"
  "\<not> is_flag (param (commit_request [(''pageUrl'', ''/'')]) ''repair'')"
  "param (commit_request [(''pageUrl'', ''/'')]) ''pageUrl'' = JStr ''/''"
  "is_absolute (lv_root (staged_server body tx))" "\<forall>p. tr_writable (lv_tree (staged_server body tx)) p"
  "lv_root (staged_server body tx) = ''/app''" "lv_buffer (staged_server body tx) = Buffer [staged_edit]"
  "lv_transaction (staged_server body tx) = tx"
  by (simp_all add: commit_request_def staged_server_def staged_tree_def param_def token_ok_def is_flag_def is_absolute_def)


definition sample_job :: commit_job where
  "sample_job = \<lparr>cj_page = JStr ''/'', cj_async = False, cj_repair = False, cj_transaction = Some (lost_transaction ''/''),
     cj_existing = None, cj_batch = JNull, cj_chat = True, cj_mode = ''chat''\<rparr>"

theorem commit_closes_its_transaction_witness:
  "\<exists>ans s'. commit_end sample_host sample_job (Inl ''stopped'') (staged_server ''bad'' (Some (lost_transaction ''/''))) = Inr (ans, s') \<and>
    lv_transaction s' = None"
proof -
  let ?s = "staged_server ''bad'' (Some (lost_transaction ''/''))"
  have "case commit_end sample_host sample_job (Inl ''stopped'') ?s of Inl _ \<Rightarrow> False | Inr _ \<Rightarrow> True" by code_simp
  then obtain ans s' where "commit_end sample_host sample_job (Inl ''stopped'') ?s = Inr (ans, s')" by (auto split: sum.splits)
  with commit_closes_its_transaction [OF this] show ?thesis by (auto simp: sample_job_def commit_request_params)
qed

theorem other_pages_transaction_is_lost_witness:
  "\<exists>first job s'. commit_begin sample_host apply_env (commit_request [(''pageUrl'', ''/'')])
      (staged_server ''old'' (Some (lost_transaction ''/b''))) = Inr (first, job, s') \<and> lv_transaction s' = Some (lost_transaction ''/'')"
proof -
  let ?s = "staged_server ''old'' (Some (lost_transaction ''/b''))"
  obtain first job s' where b: "commit_begin sample_host apply_env (commit_request [(''pageUrl'', ''/'')]) ?s = Inr (first, Some job, s')"
    "cj_transaction job = Some (lost_transaction ''/'')" using begins_wellE [OF sample_begins(3)] by metis
  have "truthy (tx_page (lost_transaction ''/b''))" "truthy (param (commit_request [(''pageUrl'', ''/'')]) ''pageUrl'')"
    "\<not> strict_eq (tx_page (lost_transaction ''/b'')) (param (commit_request [(''pageUrl'', ''/'')]) ''pageUrl'')"
    by (simp_all add: lost_transaction_def commit_request_params)
  from other_pages_transaction_is_lost [OF b(1) commit_request_params(1,2,8) this b(2)] b(1) show ?thesis by blast
qed

end
