(* ===== verification/Tag_Scan.thy ===== *)
theory Tag_Scan
  imports Commit_Rollback
begin

text \<open>
  Tags in source text, as the regular expressions of \<open>live-accept.mjs\<close> and
  \<open>live-wrap.mjs\<close> find them. A matcher gives the length of its match at a
  position, 0 for none; a search goes through the text and skips what it matched.
\<close>

abbreviation line_feed :: char where
  "line_feed \<equiv> char_of (10 :: nat)"

abbreviation quote_mark :: char where
  "quote_mark \<equiv> char_of (34 :: nat)"

section \<open>Texts\<close>

lemma quote_mark_char: "quote_mark = CHR 0x22" and newline_char: "line_feed = CHR 0x0A"
  by code_simp+

lemma starts_with_Cons: "starts_with (d # s) (c # w) \<longleftrightarrow> d = c \<and> starts_with s w"
  by (auto simp: starts_with_def)

lemma starts_with_Nil [simp]: "starts_with s []"
  by (simp add: starts_with_def)

lemma starts_with_self: "starts_with (w @ t) w"
  by (simp add: starts_with_def)

lemma has_sub_skip: "c \<notin> set p \<Longrightarrow> has_sub (p @ t) (c # w) = has_sub t (c # w)"
  by (induction p) (auto simp: starts_with_Cons)

lemma has_sub_none: "c \<notin> set p \<Longrightarrow> \<not> has_sub p (c # w)"
  using has_sub_skip [of c p "[]" w] by simp

lemma has_sub_split: "has_sub s w \<longleftrightarrow> (\<exists>a b. s = a @ w @ b)"
proof (induction s)
  case (Cons c s)
  show ?case
  proof
    assume "has_sub (c # s) w"
    then consider "starts_with (c # s) w" | "has_sub s w" by auto
    then show "\<exists>a b. c # s = a @ w @ b"
    proof cases
      case 1
      then have "c # s = [] @ w @ drop (length w) (c # s)" unfolding starts_with_def by (metis append_Nil append_take_drop_id)
      then show ?thesis by blast
    next
      case 2
      with Cons obtain a b where "s = a @ w @ b" by blast
      then have "c # s = (c # a) @ w @ b" by simp
      then show ?thesis by blast
    qed
  next
    assume "\<exists>a b. c # s = a @ w @ b"
    then obtain a b where ab: "c # s = a @ w @ b" by blast
    show "has_sub (c # s) w"
    proof (cases a)
      case Nil
      with ab have "starts_with (c # s) w" by (simp add: starts_with_self)
      then show ?thesis by simp
    next
      case (Cons d a')
      with ab have "s = a' @ w @ b" by simp
      with Cons.IH show ?thesis by auto
    qed
  qed
qed auto

lemma has_sub_part: "has_sub s (u @ v @ w) \<Longrightarrow> has_sub s v"
  unfolding has_sub_split by (metis append.assoc)

lemma has_sub_drop: "has_sub (drop n s) w \<Longrightarrow> has_sub s w"
  unfolding has_sub_split by (metis append_take_drop_id append.assoc)

lemma starts_with_split: "starts_with s w \<longleftrightarrow> (\<exists>t. s = w @ t)"
  unfolding starts_with_def by (metis append_take_drop_id append_eq_conv_conj)

section \<open>Matching at a position\<close>

definition tag_end :: "string \<Rightarrow> (string \<times> string) option" where
  \<comment> \<open>\<open>[^>]*>\<close>: what stands before the angle bracket and what comes after it\<close>
  "tag_end s = (if CHR ''>'' \<in> set s then Some (takeWhile (\<lambda>c. c \<noteq> CHR ''>'') s, tl (dropWhile (\<lambda>c. c \<noteq> CHR ''>'') s)) else None)"

definition matched :: "string \<Rightarrow> string option \<Rightarrow> nat" where
  \<comment> \<open>the length of a match, from what follows it\<close>
  "matched s after = (case after of None \<Rightarrow> 0 | Some t \<Rightarrow> length s - length t)"

definition tag_after :: "string \<Rightarrow> string \<Rightarrow> (string \<times> string) option" where
  \<comment> \<open>a literal, a word boundary and the rest of the tag\<close>
  "tag_after w s = Option.bind (Option.bind (strip w s) word_end) tag_end"

definition closed_by :: "string \<Rightarrow> string \<Rightarrow> string option" where
  \<comment> \<open>a literal, white space and the angle bracket\<close>
  "closed_by w s = Option.bind (strip w s) (\<lambda>t. strip ''>'' (skip_ws t))"

definition ends_in_slash :: "string \<Rightarrow> bool" where
  \<comment> \<open>\<open>/\<close> and white space at the end\<close>
  "ends_in_slash s = (case dropWhile is_ws (rev s) of c # _ \<Rightarrow> c = CHR ''/'' | [] \<Rightarrow> False)"

fun replace_matches :: "(string \<Rightarrow> nat) \<Rightarrow> string \<Rightarrow> nat \<Rightarrow> string \<Rightarrow> string" where
  \<comment> \<open>\<open>s.replace(/.../g, r)\<close>; the number counts the characters of a match still to skip\<close>
  "replace_matches m r k [] = []"
| "replace_matches m r (Suc k) (c # s) = replace_matches m r k s"
| "replace_matches m r 0 (c # s) =
    (case m (c # s) of 0 \<Rightarrow> c # replace_matches m r 0 s | Suc k \<Rightarrow> r @ replace_matches m r k s)"

fun first_at :: "(string \<Rightarrow> nat) \<Rightarrow> string \<Rightarrow> nat option" where
  \<comment> \<open>\<open>s.search(/.../)\<close>\<close>
  "first_at m [] = None"
| "first_at m (c # s) = (if m (c # s) > 0 then Some 0 else map_option Suc (first_at m s))"

section \<open>Styles\<close>

definition style_open :: "string \<Rightarrow> nat" where
  \<comment> \<open>\<open><style\b\<close>\<close>
  "style_open s = matched s (Option.bind (strip ''<style'' s) word_end)"

definition style_close :: "string \<Rightarrow> nat" where
  "style_close s = matched s (closed_by ''</style'' s)"

definition style_element :: "string \<Rightarrow> nat" where
  \<comment> \<open>\<open><style\b[^>]*>[\s\S]*?</style\s*>\<close>\<close>
  "style_element s = (case tag_after ''<style'' s of None \<Rightarrow> 0
     | Some (_, body) \<Rightarrow> (case first_at style_close body of None \<Rightarrow> 0
         | Some i \<Rightarrow> length s - length body + i + style_close (drop i body)))"

definition style_self :: "string \<Rightarrow> nat" where
  \<comment> \<open>\<open><style\b[^>]*/\s*>\<close>\<close>
  "style_self s = (case tag_after ''<style'' s of None \<Rightarrow> 0
     | Some (inside, rest) \<Rightarrow> if ends_in_slash inside then length s - length rest else 0)"

fun strip_style :: "bool \<Rightarrow> string list \<Rightarrow> string list" where
  \<comment> \<open>the lines without their style elements; inside one that runs over lines the flag is set\<close>
  "strip_style inStyle [] = []"
| "strip_style False (l # ls) =
    (let l = replace_matches style_self [] 0 (replace_matches style_element [] 0 l) in
     case first_at style_open l of
       None \<Rightarrow> l # strip_style False ls
     | Some i \<Rightarrow> take i l # strip_style True ls)"
| "strip_style True (l # ls) =
    (case first_at style_close l of
       None \<Rightarrow> strip_style True ls
     | Some i \<Rightarrow> drop (i + style_close (drop i l)) l # strip_style False ls)"

section \<open>Tags of one name\<close>

datatype tag_kind = Opening | Self_closing | Closing

definition named_tag :: "string \<Rightarrow> string \<Rightarrow> (tag_kind \<times> nat) option" where
  \<comment> \<open>\<open><(?:/)?NAME\b[^>]*>\<close> with the length of the match\<close>
  "named_tag name s =
    (case tag_after (''</'' @ name) s of
       Some (inside, rest) \<Rightarrow> Some (Closing, length s - length rest)
     | None \<Rightarrow> (case tag_after (CHR ''<'' # name) s of
         Some (inside, rest) \<Rightarrow> Some (if ends_in_slash inside then Self_closing else Opening, length s - length rest)
       | None \<Rightarrow> None))"

fun inner_until :: "string \<Rightarrow> nat \<Rightarrow> nat \<Rightarrow> string \<Rightarrow> string option" where
  \<comment> \<open>the text up to the tag that closes the element, from a depth and with characters to skip\<close>
  "inner_until name depth k [] = None"
| "inner_until name depth (Suc k) (c # s) = map_option (Cons c) (inner_until name depth k s)"
| "inner_until name depth 0 (c # s) =
    (case named_tag name (c # s) of
       None \<Rightarrow> map_option (Cons c) (inner_until name depth 0 s)
     | Some (Closing, n) \<Rightarrow> if depth \<le> 1 then Some [] else map_option (Cons c) (inner_until name (depth - 1) (n - 1) s)
     | Some (Opening, n) \<Rightarrow> map_option (Cons c) (inner_until name (Suc depth) (n - 1) s)
     | Some (Self_closing, n) \<Rightarrow> map_option (Cons c) (inner_until name depth (n - 1) s))"

definition is_alpha :: "char \<Rightarrow> bool" where
  "is_alpha c = (is_word c \<and> \<not> is_digit c \<and> c \<noteq> CHR ''_'')"

definition opener_with :: "string \<Rightarrow> string \<Rightarrow> (string \<times> string) option" where
  \<comment> \<open>\<open><([A-Za-z][A-Za-z0-9]*)\b[^>]*ATTR[^>]*>\<close>: the name and what follows the tag\<close>
  "opener_with attr s =
    (case s of [] \<Rightarrow> None
     | c # t \<Rightarrow> if c \<noteq> CHR ''<'' \<or> t = [] \<or> \<not> is_alpha (hd t) then None
       else let name = takeWhile (\<lambda>d. is_alpha d \<or> is_digit d) t in
         (case tag_after name t of None \<Rightarrow> None
          | Some (inside, rest) \<Rightarrow> if has_sub inside attr then Some (name, rest) else None))"

fun first_opener :: "string \<Rightarrow> string \<Rightarrow> (string \<times> string) option" where
  "first_opener attr [] = None"
| "first_opener attr (c # s) =
    (case opener_with attr (c # s) of Some r \<Rightarrow> Some r | None \<Rightarrow> first_opener attr s)"

definition extract_inner_by_attr :: "string \<Rightarrow> string \<Rightarrow> string option" where
  "extract_inner_by_attr s attr =
    (case first_opener attr s of None \<Rightarrow> None | Some (name, rest) \<Rightarrow> inner_until name 1 0 rest)"

section \<open>Indentation\<close>

definition leading_ws :: "string \<Rightarrow> string" where
  "leading_ws l = takeWhile is_ws l"

definition blank :: "string \<Rightarrow> bool" where
  \<comment> \<open>\<open>line.trim() === ''\<close>\<close>
  "blank l = list_all is_ws l"

definition min_indent :: "string list \<Rightarrow> nat" where
  \<comment> \<open>the least indentation of the lines that are not blank, 0 when all are\<close>
  "min_indent ls = (case filter (\<lambda>l. \<not> blank l) ls of [] \<Rightarrow> 0
     | l # ks \<Rightarrow> fold min (map (length \<circ> leading_ws) ks) (length (leading_ws l)))"

definition deindent_content :: "string list \<Rightarrow> string \<Rightarrow> string list" where
  "deindent_content ls base = (let n = min_indent ls in map (\<lambda>l. if blank l then [] else base @ drop n l) ls)"

end
