(* ===== verification/Live_Accept.thy ===== *)
theory Live_Accept
  imports Tag_Scan
begin

text \<open>
  \<open>live-accept.mjs\<close>: taking a session's wrapper out of a source file again, by
  restoring the original element or by putting the chosen variant in its place,
  with the receipt that makes a repeated call harmless. Sessions of component
  previews, which keep the source untouched, are left out.
\<close>

section \<open>The block of a session\<close>

definition lines_with :: "string \<Rightarrow> string list \<Rightarrow> nat option" where
  "lines_with w ls = map_option fst (find (\<lambda>(i, l). has_sub l w) (enumerate 0 ls))"

definition find_marker_block :: "string \<Rightarrow> string list \<Rightarrow> (nat \<times> nat) option" where
  \<comment> \<open>the first line with the end marker, and the first with the start marker up to there\<close>
  "find_marker_block i ls =
    (case lines_with (''impeccable-variants-end '' @ i) ls of None \<Rightarrow> None
     | Some e \<Rightarrow> (case lines_with (''impeccable-variants-start '' @ i) (take (Suc e) ls) of
         None \<Rightarrow> None | Some s \<Rightarrow> Some (s, e)))"

definition block_lines :: "nat \<times> nat \<Rightarrow> string list \<Rightarrow> string list" where
  "block_lines block ls = drop (fst block) (take (Suc (snd block)) ls)"

definition strip_style_and_join :: "string list \<Rightarrow> nat \<times> nat \<Rightarrow> string" where
  "strip_style_and_join ls block = join [line_feed] (strip_style False (block_lines block ls))"

definition quoted_attr :: "string \<Rightarrow> string \<Rightarrow> string" where
  \<comment> \<open>\<open>name="value"\<close>\<close>
  "quoted_attr name v = name @ ''='' @ [quote_mark] @ v @ [quote_mark]"

definition extract_original :: "string list \<Rightarrow> nat \<times> nat \<Rightarrow> string list" where
  "extract_original ls block =
    (case extract_inner_by_attr (strip_style_and_join ls block) (quoted_attr ''data-impeccable-variant'' ''original'') of
       None \<Rightarrow> [] | Some inner \<Rightarrow> split_on line_feed inner)"

fun drop_blank :: "string list \<Rightarrow> string list" where
  \<comment> \<open>blank lines in front, as long as another line follows\<close>
  "drop_blank (l # k # ls) = (if blank l then drop_blank (k # ls) else l # k # ls)"
| "drop_blank ls = ls"

definition extract_variant :: "string list \<Rightarrow> nat \<times> nat \<Rightarrow> string \<Rightarrow> string list option" where
  "extract_variant ls block variantNum =
    map_option (\<lambda>inner. rev (drop_blank (rev (drop_blank (split_on line_feed inner)))))
      (extract_inner_by_attr (strip_style_and_join ls block) (quoted_attr ''data-impeccable-variant'' variantNum))"

section \<open>The style sheet of the variants\<close>

definition template_open :: string where "template_open = [CHR ''{'', char_of (96 :: nat)]"
definition template_close :: string where "template_close = [char_of (96 :: nat), CHR ''}'']"

definition cut_first :: "string \<Rightarrow> string \<Rightarrow> string" where
  \<comment> \<open>without the first occurrence of two characters\<close>
  "cut_first w l = (case first_at (\<lambda>s. if starts_with s w then 2 else 0) l of None \<Rightarrow> l | Some i \<Rightarrow> take i l @ drop (i + 2) l)"

definition cut_last :: "string \<Rightarrow> string \<Rightarrow> string" where
  "cut_last w l = rev (cut_first (rev w) (rev l))"

definition strip_template_open :: "string list \<Rightarrow> string list" where
  "strip_template_open ls = (case ls of [] \<Rightarrow> [] | l # rest \<Rightarrow>
     (let t = dropWhile is_ws l in
      if t = template_open then rest
      else if starts_with t template_open
      then (let l' = cut_first template_open l in if blank l' then rest else l' # rest)
      else ls))"

definition strip_template_close :: "string list \<Rightarrow> string list" where
  "strip_template_close ls = (case rev ls of [] \<Rightarrow> [] | l # rest \<Rightarrow>
     (let t = rev (dropWhile is_ws (rev l)) in
      if t = template_close then rev rest
      else if ends_with t template_close
      then (let l' = cut_last template_close l in if blank l' then rev rest else rev (l' # rest))
      else ls))"

definition strip_jsx_template_lines :: "string list \<Rightarrow> string list option" where
  "strip_jsx_template_lines body =
    (let ls = rev (dropWhile blank (rev (dropWhile blank body)));
         ls = strip_template_close (strip_template_open ls)
     in if ls = [] then None else Some ls)"

definition strip_jsx_template_wrap :: "string \<Rightarrow> string" where
  "strip_jsx_template_wrap s = (case strip_jsx_template_lines (split_on line_feed s) of None \<Rightarrow> [] | Some ls \<Rightarrow> join [line_feed] ls)"

definition same_line_style :: "string \<Rightarrow> string option" where
  \<comment> \<open>the text of the first style element that opens and closes on the line\<close>
  "same_line_style l = (case first_at style_element l of None \<Rightarrow> None
     | Some i \<Rightarrow> (case tag_after ''<style'' (drop i l) of None \<Rightarrow> None
         | Some (_, body) \<Rightarrow> map_option (\<lambda>j. take j body) (first_at style_close body)))"

definition style_lines :: "string list \<Rightarrow> string list option" where
  \<comment> \<open>the lines from an opening tag to the line with the closing one\<close>
  "style_lines ls = (let body = takeWhile (\<lambda>l. \<not> has_sub l ''</style>'') ls in
     if body = [] then None else strip_jsx_template_lines body)"

fun css_of :: "string \<Rightarrow> string list \<Rightarrow> string list option" where
  "css_of attr [] = None"
| "css_of attr (l # ls) =
    (if \<not> has_sub l attr then css_of attr ls
     else if first_at style_self l \<noteq> None then None
     else (case same_line_style l of
         Some t \<Rightarrow> (let inner = strip_jsx_template_wrap t in if inner = [] then None else Some (split_on line_feed inner))
       | None \<Rightarrow> style_lines ls))"

definition extract_css :: "string list \<Rightarrow> nat \<times> nat \<Rightarrow> string \<Rightarrow> string list option" where
  "extract_css ls block i = css_of (quoted_attr ''data-impeccable-css'' i) (block_lines block ls)"

section \<open>The lines to replace\<close>

definition is_jsx :: "string \<Rightarrow> bool" where
  \<comment> \<open>\<open>detectCommentSyntax(file).open === '{/*'\<close>\<close>
  "is_jsx file = (map lower_char (extname_of (last (segs file))) \<in> {''.jsx'', ''.tsx''})"

definition comment :: "bool \<Rightarrow> string \<Rightarrow> string" where
  "comment jsx t = (if jsx then ''{/* '' @ t @ '' */}'' else ''<!-- '' @ t @ '' -->'')"

definition end_marker_here :: "string \<Rightarrow> char option \<Rightarrow> string \<Rightarrow> unit option" where
  "end_marker_here i before s = Option.bind (strip ''impeccable-variants-end'' s) (\<lambda>t. Option.bind (skip_ws1 t) (\<lambda>t.
     Option.bind (strip i t) (\<lambda>t. if t = [] \<or> is_ws (hd t) \<or> starts_with t ''--'' \<or> starts_with t ''*/'' then Some () else None)))"

definition is_variant_end_marker_line :: "string \<Rightarrow> string \<Rightarrow> bool" where
  "is_variant_end_marker_line i l = matches (end_marker_here i) l"

definition wrapper_attr_here :: "string \<Rightarrow> char option \<Rightarrow> string \<Rightarrow> unit option" where
  "wrapper_attr_here i before s = Option.bind (strip ''data-impeccable-variants'' s) (\<lambda>t.
     Option.bind (strip ''='' (skip_ws t)) (\<lambda>t. let t = skip_ws t; single = char_of (39 :: nat) in
       if \<exists>w \<in> {[quote_mark] @ i @ [quote_mark], [single] @ i @ [single]}. starts_with t w then Some ()
       else if \<exists>a \<in> {quote_mark, single}. \<exists>b \<in> {quote_mark, single}. starts_with t (''{'' @ [a] @ i @ [b] @ ''}'') then Some ()
       else None))"

definition has_variant_wrapper_attr :: "string \<Rightarrow> string \<Rightarrow> bool" where
  "has_variant_wrapper_attr i l = matches (wrapper_attr_here i) l"

definition div_open :: "string \<Rightarrow> nat" where
  \<comment> \<open>\<open><div\b\<close>\<close>
  "div_open s = matched s (Option.bind (strip ''<div'' s) word_end)"

definition opens_div :: "string \<Rightarrow> bool" where
  "opens_div l = (first_at div_open l \<noteq> None)"

fun walk_to_div :: "string \<Rightarrow> string list \<Rightarrow> nat \<Rightarrow> nat" where
  \<comment> \<open>up to a line with the opening tag\<close>
  "walk_to_div i ls 0 = 0"
| "walk_to_div i ls (Suc n) =
    (if opens_div (ls ! Suc n) \<or> is_variant_end_marker_line i (ls ! Suc n) then Suc n else walk_to_div i ls n)"

fun wrapper_start :: "string \<Rightarrow> string list \<Rightarrow> nat \<Rightarrow> nat \<Rightarrow> nat" where
  \<comment> \<open>among the lines before the marker, the last first\<close>
  "wrapper_start i ls mark 0 = mark"
| "wrapper_start i ls mark (Suc n) =
    (if is_variant_end_marker_line i (ls ! n) then mark
     else if has_variant_wrapper_attr i (ls ! n)
     then (let opener = walk_to_div i ls n in if opens_div (ls ! opener) then opener else mark)
     else wrapper_start i ls mark n)"

definition div_tag :: "string \<Rightarrow> (tag_kind \<times> nat) option" where
  \<comment> \<open>\<open><div\b[^>]*?(/?)>|</div\s*>\<close>\<close>
  "div_tag s = (case tag_after ''<div'' s of
       Some (inside, rest) \<Rightarrow> Some (if inside \<noteq> [] \<and> last inside = CHR ''/'' then Self_closing else Opening, length s - length rest)
     | None \<Rightarrow> (case closed_by ''</div'' s of Some rest \<Rightarrow> Some (Closing, length s - length rest) | None \<Rightarrow> None))"

definition newlines :: "string \<Rightarrow> nat" where
  "newlines s = length (filter (\<lambda>c. c = line_feed) s)"

fun wrapper_end :: "nat \<Rightarrow> int \<Rightarrow> nat \<Rightarrow> nat \<Rightarrow> string \<Rightarrow> nat" where
  \<comment> \<open>the line of the tag that closes the wrapper: the least acceptable line, the depth, the
    line reached, the characters to skip\<close>
  "wrapper_end least depth line k [] = least"
| "wrapper_end least depth line (Suc k) (c # s) =
    wrapper_end least depth (if c = line_feed then Suc line else line) k s"
| "wrapper_end least depth line 0 (c # s) =
    (let line' = (if c = line_feed then Suc line else line) in
     case div_tag (c # s) of None \<Rightarrow> wrapper_end least depth line' 0 s
     | Some (kind, n) \<Rightarrow>
       let depth = (case kind of Closing \<Rightarrow> depth - 1 | Opening \<Rightarrow> depth + 1 | Self_closing \<Rightarrow> depth);
           closer = line + newlines (take n (c # s))
       in if depth \<le> 0 \<and> closer \<ge> least then closer else wrapper_end least depth line' (n - 1) s)"

definition expand_replace_range :: "string \<Rightarrow> nat \<times> nat \<Rightarrow> string list \<Rightarrow> bool \<Rightarrow> nat \<times> nat" where
  "expand_replace_range i block ls jsx =
    (if \<not> jsx then block
     else let top = wrapper_start i ls (fst block) (fst block)
          in (top, wrapper_end (snd block) 0 top 0 (join [line_feed] (drop top ls))))"

definition replace_lines :: "nat \<times> nat \<Rightarrow> string list \<Rightarrow> string list \<Rightarrow> string list" where
  "replace_lines bounds new ls = take (fst bounds) ls @ new @ drop (Suc (snd bounds)) ls"

section \<open>Discarding\<close>

definition handle_discard_unlocked :: "string \<Rightarrow> string list \<Rightarrow> string \<Rightarrow> string + string" where
  \<comment> \<open>the new text of the file\<close>
  "handle_discard_unlocked i ls file =
    (case find_marker_block i ls of None \<Rightarrow> Inl ''Markers not found''
     | Some block \<Rightarrow> let bounds = expand_replace_range i block ls (is_jsx file)
         in Inr (join [line_feed] (replace_lines bounds
              (deindent_content (extract_original ls block) (leading_ws (ls ! fst bounds))) ls)))"

section \<open>Accepting\<close>

definition reindent_content :: "string list \<Rightarrow> string \<Rightarrow> string \<Rightarrow> string list" where
  "reindent_content ls from_indent to_indent = map (\<lambda>l. if blank l then []
     else to_indent @ (if starts_with l from_indent then drop (length from_indent) l else dropWhile is_ws l)) ls"

definition carbonize_body :: "bool \<Rightarrow> string \<Rightarrow> string \<Rightarrow> string list \<Rightarrow> string option \<Rightarrow> string list \<Rightarrow> string \<Rightarrow> string \<Rightarrow> string list" where
  "carbonize_body jsx i variantNum css params restored indent bodyIndent =
    [bodyIndent @ comment jsx (''impeccable-carbonize-start '' @ i),
     bodyIndent @ ''<style '' @ quoted_attr ''data-impeccable-css'' i @ ''>'' @ (if jsx then template_open else [])] @
    map (\<lambda>l. bodyIndent @ dropWhile is_ws l) css @
    [bodyIndent @ (if jsx then template_close @ ''</style>'' else ''</style>'')] @
    (case params of None \<Rightarrow> [] | Some t \<Rightarrow> [bodyIndent @ comment jsx (''impeccable-param-values '' @ i @ '': '' @ t)]) @
    [bodyIndent @ comment jsx (''impeccable-carbonize-end '' @ i),
     bodyIndent @ ''<div '' @ quoted_attr ''data-impeccable-variant'' variantNum @ '' '' @
       (if jsx then ''style={{ display: '' @ [char_of (39 :: nat)] @ ''contents'' @ [char_of (39 :: nat)] @ '' }}''
        else quoted_attr ''style'' ''display: contents'') @ ''>''] @
    reindent_content restored indent (bodyIndent @ ''  '') @ [bodyIndent @ ''</div>'']"

text \<open>\<open>params\<close> is the JSON text of the parameter values, where there are any.\<close>

definition build_carbonize_replacement ::
  "bool \<Rightarrow> string \<Rightarrow> string \<Rightarrow> string list option \<Rightarrow> string option \<Rightarrow> string list \<Rightarrow> string \<Rightarrow> string list" where
  "build_carbonize_replacement jsx i variantNum css params restored indent =
    (case css of None \<Rightarrow> restored
     | Some css \<Rightarrow> if jsx
         then [indent @ ''<div '' @ quoted_attr ''data-impeccable-carbonize'' i @ '' style={{ display: '' @
                 [quote_mark] @ ''contents'' @ [quote_mark] @ '' }}>''] @
           carbonize_body jsx i variantNum css params restored indent (indent @ ''  '') @ [indent @ ''</div>'']
         else carbonize_body jsx i variantNum css params restored indent indent)"

record accepted =
  ac_content :: string
  ac_carbonize :: bool
  ac_original :: string

definition build_accepted_wrapped_source ::
  "string \<Rightarrow> string \<Rightarrow> string list \<Rightarrow> string \<Rightarrow> string option \<Rightarrow> string + accepted" where
  "build_accepted_wrapped_source i variantNum ls file params =
    (case find_marker_block i ls of None \<Rightarrow> Inl ''Markers not found''
     | Some block \<Rightarrow>
       let jsx = is_jsx file; bounds = expand_replace_range i block ls jsx; indent = leading_ws (ls ! fst bounds) in
       (case extract_variant ls block variantNum of
          None \<Rightarrow> Inl (''Variant '' @ variantNum @ '' not found'')
        | Some variant \<Rightarrow>
          let css = extract_css ls block i
          in Inr \<lparr>ac_content = join [line_feed] (replace_lines bounds
                 (build_carbonize_replacement jsx i variantNum css params (deindent_content variant indent) indent) ls),
               ac_carbonize = (css \<noteq> None \<or> has_sub (join [line_feed] variant) ''data-impeccable-variant''),
               ac_original = join [line_feed] (extract_original ls block)\<rparr>))"

section \<open>Staged edits that an accept embodies\<close>

definition tag_text :: "string \<Rightarrow> nat" where
  \<comment> \<open>\<open><[^>]*>\<close>\<close>
  "tag_text s = matched s (map_option snd (Option.bind (strip ''<'' s) tag_end))"

definition until_text :: "string \<Rightarrow> string \<Rightarrow> string \<Rightarrow> nat" where
  \<comment> \<open>from one literal to the next occurrence of another\<close>
  "until_text a b s = (case strip a s of None \<Rightarrow> 0
     | Some t \<Rightarrow> (case first_at (\<lambda>u. if starts_with u b then 1 else 0) t of None \<Rightarrow> 0
         | Some i \<Rightarrow> length a + i + length b))"

definition manual_edit_text_segments :: "string \<Rightarrow> string list" where
  "manual_edit_text_segments source =
    filter (\<lambda>t. t \<noteq> []) (map normalize_verification_text (split_on line_feed
      (replace_matches (until_text ''<!--'' ''-->'') [line_feed] 0
        (replace_matches (until_text ''{/*'' ''*/}'') [line_feed] 0 (replace_matches tag_text [line_feed] 0 source)))))"

definition original_block_has_exact_manual_text :: "string \<Rightarrow> string \<Rightarrow> bool" where
  "original_block_has_exact_manual_text block t =
    (normalize_verification_text t \<noteq> [] \<and> normalize_verification_text t \<in> set (manual_edit_text_segments block))"

definition manual_edit_op_appears_in_block :: "jsval \<Rightarrow> string \<Rightarrow> bool" where
  "manual_edit_op_appears_in_block op block =
    (\<exists>t \<in> set (filter (\<lambda>t. t \<noteq> []) (map str_of [get op ''newText'', get op ''originalText''])).
       original_block_has_exact_manual_text block t)"

definition scrub_entry :: "string \<Rightarrow> jsval \<Rightarrow> buf_entry \<Rightarrow> buf_entry" where
  "scrub_entry block page e = (if \<not> strict_eq (be_page e) page then e
     else e\<lparr>be_ops := filter (\<lambda>op. \<not> manual_edit_op_appears_in_block op block) (be_ops e)\<rparr>)"

definition scrub_manual_edits_against_original_block :: "string \<Rightarrow> jsval \<Rightarrow> buffer_file \<Rightarrow> buffer_file" where
  "scrub_manual_edits_against_original_block block page b =
    (let es = read_buffer b; scrubbed = map (scrub_entry block page) es in
     if block = [] \<or> \<not> truthy page \<or> es = [] \<or> (\<forall>e \<in> set es. length (be_ops (scrub_entry block page e)) = length (be_ops e))
     then b else write_buffer (filter (\<lambda>e. be_ops e \<noteq> []) scrubbed))"

end
