(* ===== verification/Live_Wrap.thy ===== *)
theory Live_Wrap
  imports Live_Accept
begin

text \<open>
  \<open>live-wrap.mjs\<close>: locating the picked element in a source file and wrapping it
  for a session. The line tests read the source as the regular expressions of the
  script do. A numeric line of a staged edit is an integer. Component previews
  and the choice of the file (\<open>Template_Search\<close>) stand apart.
\<close>

section \<open>Queries\<close>

fun cut_at :: "(char \<Rightarrow> bool) \<Rightarrow> string \<Rightarrow> string list" where
  "cut_at p [] = [[]]"
| "cut_at p (c # s) = (if p c then [] # cut_at p s
     else (case cut_at p s of [] \<Rightarrow> [[c]] | w # ws \<Rightarrow> (c # w) # ws))"

definition split_class_list :: "string \<Rightarrow> string list" where
  "split_class_list classes = filter (\<lambda>w. w \<noteq> []) (cut_at (\<lambda>c. c = CHR '','' \<or> is_ws c) classes)"

definition class_queries :: "string \<Rightarrow> string list" where
  "class_queries classes =
    (case split_class_list classes of
       [] \<Rightarrow> []
     | [c] \<Rightarrow> [c]
     | cs \<Rightarrow> [quoted_attr ''class'' (join '' '' cs), quoted_attr ''className'' (join '' '' cs)] @
         sort_key (\<lambda>c. - int (length c)) cs)"

definition build_search_queries :: "string \<Rightarrow> string \<Rightarrow> string \<Rightarrow> string \<Rightarrow> string list" where
  \<comment> \<open>an argument that is not given is empty\<close>
  "build_search_queries elementId classes tag query =
    (if elementId \<noteq> [] then [quoted_attr ''id'' elementId] else []) @
    (if classes \<noteq> [] then class_queries classes else []) @
    (if tag \<noteq> [] \<and> classes \<noteq> []
     then (let c = (case split_class_list classes of [] \<Rightarrow> ''undefined'' | c # _ \<Rightarrow> c) in
       [''<'' @ tag @ '' class='' @ [quote_mark] @ c, ''<'' @ tag @ '' className='' @ [quote_mark] @ c]) else []) @
    (if query \<noteq> [] then [query] else [])"

section \<open>Elements\<close>

definition ends_name :: "string \<Rightarrow> bool" where
  \<comment> \<open>\<open>(?=[\s/>]|$)\<close>\<close>
  "ends_name s = (case s of [] \<Rightarrow> True | c # _ \<Rightarrow> is_ws c \<or> c = CHR ''/'' \<or> c = CHR ''>'')"

definition opener_here :: "char option \<Rightarrow> string \<Rightarrow> string option" where
  "opener_here before s = (case s of c # d # t \<Rightarrow>
      if c = CHR ''<'' \<and> is_alpha d
      then (let name = takeWhile (\<lambda>e. is_alpha e \<or> is_digit e) (d # t)
            in if ends_name (drop (length name) (d # t)) then Some name else None)
      else None
    | _ \<Rightarrow> None)"

definition opener_name :: "string \<Rightarrow> string option" where
  "opener_name l = find_match opener_here None l"

fun count_matches :: "(string \<Rightarrow> nat) \<Rightarrow> nat \<Rightarrow> string \<Rightarrow> nat" where
  \<comment> \<open>\<open>(s.match(/.../g) || []).length\<close>\<close>
  "count_matches m k [] = 0"
| "count_matches m (Suc k) (c # s) = count_matches m k s"
| "count_matches m 0 (c # s) = (case m (c # s) of 0 \<Rightarrow> count_matches m 0 s | Suc k \<Rightarrow> Suc (count_matches m k s))"

definition opens_at :: "string \<Rightarrow> string \<Rightarrow> nat" where
  "opens_at name s = matched s (Option.bind (strip (CHR ''<'' # name) s) (\<lambda>t. if ends_name t then Some t else None))"

definition self_closes_at :: "string \<Rightarrow> string \<Rightarrow> nat" where
  \<comment> \<open>\<open><NAME[^>]*/>\<close>, with nothing asked of what follows the name\<close>
  "self_closes_at name s = matched s (Option.bind (Option.bind (strip (CHR ''<'' # name) s) tag_end)
     (\<lambda>(inside, rest). if inside \<noteq> [] \<and> last inside = CHR ''/'' then Some rest else None))"

definition closes_at :: "string \<Rightarrow> string \<Rightarrow> nat" where
  "closes_at name s = matched s (closed_by (''</'' @ name) s)"

definition depth_change :: "string \<Rightarrow> string \<Rightarrow> int" where
  "depth_change name l = int (count_matches (opens_at name) 0 l) - int (count_matches (self_closes_at name) 0 l)
     - int (count_matches (closes_at name) 0 l)"

fun closing_from :: "string \<Rightarrow> int \<Rightarrow> nat \<Rightarrow> string list \<Rightarrow> nat option" where
  "closing_from name depth i [] = None"
| "closing_from name depth i (l # ls) =
    (let depth = depth + depth_change name l in if depth \<le> 0 then Some i else closing_from name depth (Suc i) ls)"

definition find_closing_line :: "string list \<Rightarrow> nat \<Rightarrow> nat" where
  "find_closing_line ls first =
    (case opener_name (ls ! first) of None \<Rightarrow> first
     | Some name \<Rightarrow> (case closing_from name 0 first (drop first ls) of Some i \<Rightarrow> i
         | None \<Rightarrow> min (first + 50) (length ls - 1)))"

definition max_backwalk :: nat where "max_backwalk = 10"

fun walk_back :: "string list \<Rightarrow> string \<Rightarrow> nat list \<Rightarrow> nat option" where
  "walk_back ls tag [] = None"
| "walk_back ls tag (i # is) =
    (case opener_name (ls ! i) of None \<Rightarrow> walk_back ls tag is
     | Some name \<Rightarrow> if tag = [] \<or> name = tag then Some i else None)"

definition find_opener_line :: "string list \<Rightarrow> nat \<Rightarrow> string \<Rightarrow> nat option" where
  "find_opener_line ls i tag =
    (case opener_name (ls ! i) of
       Some name \<Rightarrow> if tag = [] \<or> name = tag then Some i else None
     | None \<Rightarrow> walk_back ls tag (rev [i - max_backwalk..<i]))"

definition eligible_line :: "string \<Rightarrow> string \<Rightarrow> bool" where
  \<comment> \<open>a line with the query that is no comment and not part of a wrapper\<close>
  "eligible_line query l =
    (has_sub l query \<and> \<not> (\<exists>w \<in> {''<!--'', ''{/*'', ''//''}. starts_with (js_trim l) w) \<and> \<not> has_sub l ''data-impeccable-variant'')"

definition element_openers :: "string list \<Rightarrow> string \<Rightarrow> string \<Rightarrow> nat list" where
  "element_openers ls query tag =
    List.map_filter (\<lambda>i. if eligible_line query (ls ! i) then find_opener_line ls i tag else None) [0..<length ls]"

definition find_element :: "string list \<Rightarrow> string \<Rightarrow> string \<Rightarrow> (nat \<times> nat) option" where
  "find_element ls query tag =
    (case element_openers ls query tag of [] \<Rightarrow> None | i # _ \<Rightarrow> Some (i, find_closing_line ls i))"

definition find_all_elements :: "string list \<Rightarrow> string \<Rightarrow> string \<Rightarrow> (nat \<times> nat) list" where
  "find_all_elements ls query tag =
    map (\<lambda>i. (i, find_closing_line ls i))
      (fold (\<lambda>i out. if i \<in> set out then out else out @ [i]) (element_openers ls query tag) [])"

definition block_text :: "string list \<Rightarrow> nat \<times> nat \<Rightarrow> string" where
  "block_text ls c = join '' '' (drop (fst c) (take (Suc (snd c)) ls))"

definition brace_text :: "string \<Rightarrow> nat" where
  \<comment> \<open>\<open>\{[^}]*\}\<close>\<close>
  "brace_text s = until_text ''{'' ''}'' s"

definition filter_by_text :: "(nat \<times> nat) list \<Rightarrow> string list \<Rightarrow> string \<Rightarrow> (nat \<times> nat) list" where
  "filter_by_text candidates ls text =
    (let spaced = take 80 (map lower_char (normalize_verification_text text)); compact = filter (\<lambda>c. \<not> is_ws c) spaced in
     if length spaced < 8 then []
     else filter (\<lambda>c. let inner = map lower_char (replace_matches brace_text '' '' 0 (replace_matches tag_text '' '' 0 (block_text ls c)))
         in has_sub (normalize_verification_text inner) spaced \<or> has_sub (filter (\<lambda>c. \<not> is_ws c) inner) compact) candidates)"

section \<open>The picked element\<close>

datatype wrap_failure =
    Not_located
  | Ambiguous bool "(nat \<times> nat) list"
  | Missing_page_url nat
  | Buffer_apply_failed "jsval list"

fun collect_candidates :: "string list \<Rightarrow> string \<Rightarrow> (nat \<times> nat) list \<Rightarrow> string list \<Rightarrow> (nat \<times> nat) list" where
  "collect_candidates ls tag found [] = found"
| "collect_candidates ls tag found (q # qs) =
    (let found = fold (\<lambda>c out. if fst c \<in> fst ` set out then out else out @ [c]) (find_all_elements ls q tag) found
     in if length found = 1 then found else collect_candidates ls tag found qs)"

definition shown_range :: "nat \<times> nat \<Rightarrow> nat \<times> nat" where
  "shown_range c = (Suc (fst c), Suc (snd c))"

definition locate_element :: "string list \<Rightarrow> string list \<Rightarrow> string \<Rightarrow> string \<Rightarrow> wrap_failure + nat \<times> nat" where
  "locate_element ls queries tag text =
    (if text = []
     then (case List.map_filter (\<lambda>q. find_element ls q tag) queries of [] \<Rightarrow> Inl Not_located | c # _ \<Rightarrow> Inr c)
     else (case collect_candidates ls tag [] queries of
         [] \<Rightarrow> Inl Not_located
       | [c] \<Rightarrow> Inr c
       | c # cs \<Rightarrow> (case filter_by_text (c # cs) ls text of
             [d] \<Rightarrow> Inr d
           | [] \<Rightarrow> if length (normalize_verification_text text) < 8 then Inr c else Inl (Ambiguous True (map shown_range (c # cs)))
           | ds \<Rightarrow> Inl (Ambiguous False (map shown_range ds)))))"

section \<open>Staged edits in the element\<close>

definition replace_once :: "string \<Rightarrow> string \<Rightarrow> string \<Rightarrow> string" where
  "replace_once s needle r = (case first_at (\<lambda>t. if starts_with t needle then 1 else 0) s of
     None \<Rightarrow> s | Some i \<Rightarrow> take i s @ r @ drop (i + length needle) s)"

definition count_occurrences :: "string \<Rightarrow> string \<Rightarrow> nat" where
  "count_occurrences s needle = count_matches (\<lambda>t. if starts_with t needle then length needle else 0) 0 s"

definition hinted_index :: "jsval \<Rightarrow> nat \<Rightarrow> string list \<Rightarrow> nat option" where
  \<comment> \<open>the line of the hint in the selection, where it shows the old text\<close>
  "hinted_index op first ls =
    (case to_number (get (get op ''sourceHint'') ''line'') of
       JNum q \<Rightarrow> (let i = \<lfloor>q\<rfloor> - 1 - int first in
         if 0 \<le> i \<and> i < int (length ls) \<and> is_str (get op ''originalText'') \<and> has_sub (ls ! nat i) (text_prop op ''originalText'')
         then Some (nat i) else None)
     | _ \<Rightarrow> None)"

definition hint_falls_inside :: "jsval \<Rightarrow> string \<Rightarrow> string \<Rightarrow> string list \<Rightarrow> nat \<Rightarrow> bool" where
  "hint_falls_inside op cwd target ls first =
    (let file = get (get op ''sourceHint'') ''file'' in
     truthy file \<and> resolve cwd (js_string file) = resolve cwd target \<and> hinted_index op first ls \<noteq> None)"

definition locator_lines :: "jsval \<Rightarrow> string list \<Rightarrow> nat list" where
  "locator_lines op ls = filter (\<lambda>i. has_sub (ls ! i) (text_prop op ''originalText'') \<and>
     line_matches_manual_edit_locator (ls ! i) op) [0..<length ls]"

definition manual_edit_may_affect_wrap :: "jsval \<Rightarrow> string \<Rightarrow> string \<Rightarrow> string list \<Rightarrow> nat \<Rightarrow> bool" where
  "manual_edit_may_affect_wrap op cwd target ls first =
    (hint_falls_inside op cwd target ls first \<or>
     text_prop op ''originalText'' \<noteq> [] \<and>
       (locator_lines op ls \<noteq> [] \<or> has_sub (join [line_feed] ls) (text_prop op ''originalText'')))"

definition pending_entries_that_may_affect_wrap :: "buf_entry list \<Rightarrow> string \<Rightarrow> string \<Rightarrow> string list \<Rightarrow> nat \<Rightarrow> buf_entry list" where
  "pending_entries_that_may_affect_wrap es cwd target ls first =
    filter (\<lambda>e. \<exists>op \<in> set (be_ops e). manual_edit_may_affect_wrap op cwd target ls first) es"

definition apply_buffered_manual_edit_to_lines :: "string list \<Rightarrow> nat \<Rightarrow> jsval \<Rightarrow> string list option" where
  \<comment> \<open>the changed lines, if the edit could be placed\<close>
  "apply_buffered_manual_edit_to_lines ls first op =
    (let old = text_prop op ''originalText''; new = str_of (get op ''newText'') in
     if old = [] \<or> \<not> is_str (get op ''newText'') then None
     else (case hinted_index op first ls of
         Some i \<Rightarrow> Some (ls[i := replace_once (ls ! i) old new])
       | None \<Rightarrow> (case locator_lines op ls of
             [i] \<Rightarrow> Some (ls[i := replace_once (ls ! i) old new])
           | _ \<Rightarrow> if count_occurrences (join [line_feed] ls) old = 1
               then Some (split_on line_feed (replace_once (join [line_feed] ls) old new)) else None)))"

definition failed_buffered_op :: "buf_entry \<Rightarrow> jsval \<Rightarrow> jsval" where
  "failed_buffered_op e op = JObj [(''entryId'', be_id e), (''ref'', js_or (get op ''ref'') JNull),
     (''originalText'', js_or (get op ''originalText'') JNull), (''reason'', JStr ''ambiguous_or_unmatched_pending_edit'')]"

definition buffer_one :: "string \<Rightarrow> string \<Rightarrow> nat \<Rightarrow> buf_entry \<times> jsval \<Rightarrow> string list \<times> jsval list \<Rightarrow> string list \<times> jsval list" where
  "buffer_one cwd target first eo st =
    (case apply_buffered_manual_edit_to_lines (fst st) first (snd eo) of
       Some ls \<Rightarrow> (ls, snd st)
     | None \<Rightarrow> if manual_edit_may_affect_wrap (snd eo) cwd target (fst st) first
         then (fst st, snd st @ [failed_buffered_op (fst eo) (snd eo)]) else st)"

definition buffered_original ::
  "buf_entry list \<Rightarrow> jsval \<Rightarrow> string \<Rightarrow> string \<Rightarrow> string list \<Rightarrow> nat \<Rightarrow> wrap_failure + string list" where
  \<comment> \<open>the picked lines as the user sees them, with the staged edits of the page\<close>
  "buffered_original es page cwd target ls first =
    (if \<not> truthy page
     then (let n = length (pending_entries_that_may_affect_wrap es cwd target ls first) in
       if n > 0 then Inl (Missing_page_url n) else Inr ls)
     else (let (ls', failed) = fold (buffer_one cwd target first)
         (concat (map (\<lambda>e. map (Pair e) (be_ops e)) (filter (\<lambda>e. strict_eq (be_page e) page) es))) (ls, [])
       in if failed \<noteq> [] then Inl (Buffer_apply_failed failed) else Inr ls'))"

section \<open>The wrapper\<close>

definition reindent_original :: "string list \<Rightarrow> string \<Rightarrow> string list" where
  "reindent_original ls indent = (let n = min_indent ls in map (\<lambda>l. if blank l then [] else indent @ ''    '' @ drop n l) ls)"

definition wrapper_div :: "bool \<Rightarrow> string \<Rightarrow> string \<Rightarrow> string" where
  "wrapper_div jsx i variants = ''<div '' @ quoted_attr ''data-impeccable-variants'' i @ '' '' @
     quoted_attr ''data-impeccable-variant-count'' variants @ '' '' @
     (if jsx then ''style={{ display: '' @ [quote_mark] @ ''contents'' @ [quote_mark] @ '' }}'' else quoted_attr ''style'' ''display: contents'') @ ''>''"

definition wrapper_inside :: "bool \<Rightarrow> string \<Rightarrow> string list \<Rightarrow> string list" where
  "wrapper_inside jsx indent original =
    [indent @ ''  '' @ comment jsx ''Original'', indent @ ''  <div '' @ quoted_attr ''data-impeccable-variant'' ''original'' @ ''>''] @
    reindent_original original indent @
    [indent @ ''  </div>'', indent @ ''  '' @ comment jsx ''Variants: insert below this line'']"

definition wrapper_lines :: "bool \<Rightarrow> string \<Rightarrow> string \<Rightarrow> string \<Rightarrow> string list \<Rightarrow> string list" where
  \<comment> \<open>one line for each of the original\<close>
  "wrapper_lines jsx i variants indent original =
    (let first = comment jsx (''impeccable-variants-start '' @ i); final = comment jsx (''impeccable-variants-end '' @ i) in
     if jsx
     then [indent @ wrapper_div jsx i variants, indent @ ''  '' @ first] @ wrapper_inside jsx indent original @
       [indent @ ''  '' @ final, indent @ ''</div>'']
     else [indent @ first, indent @ wrapper_div jsx i variants] @ wrapper_inside jsx indent original @
       [indent @ ''</div>'', indent @ final])"

record wrapped =
  wr_lines :: "string list"
  wr_start :: nat
  wr_end :: nat
  wr_insert :: nat

definition wrap_element :: "bool \<Rightarrow> string \<Rightarrow> string \<Rightarrow> string list \<Rightarrow> nat \<times> nat \<Rightarrow> string list \<Rightarrow> wrapped" where
  "wrap_element jsx i variants ls c original =
    (let w = wrapper_lines jsx i variants (leading_ws (ls ! fst c)) original in
     \<lparr>wr_lines = take (fst c) ls @ w @ drop (Suc (snd c)) ls, wr_start = Suc (fst c), wr_end = fst c + length w,
      wr_insert = fst c + 6 + (length original - 1) + 1\<rparr>)"

record wrap_request =
  wq_id :: string
  wq_variants :: string
  wq_queries :: "string list"
  wq_tag :: string
  wq_text :: string
  wq_page :: jsval

definition wrap_source :: "wrap_request \<Rightarrow> buf_entry list \<Rightarrow> string \<Rightarrow> string \<Rightarrow> string \<Rightarrow> wrap_failure + wrapped" where
  \<comment> \<open>in the text of the file found\<close>
  "wrap_source q es cwd file source =
    (let ls = split_on line_feed source in
     case locate_element ls (wq_queries q) (wq_tag q) (wq_text q) of Inl e \<Rightarrow> Inl e
     | Inr c \<Rightarrow> (case buffered_original es (wq_page q) cwd file (drop (fst c) (take (Suc (snd c)) ls)) (fst c) of Inl e \<Rightarrow> Inl e
         | Inr original \<Rightarrow> Inr (wrap_element (is_jsx file) (wq_id q) (wq_variants q) ls c original)))"

end
