(* ===== verification/Wrap_Accept.thy ===== *)
theory Wrap_Accept
  imports Live_Wrap
begin

text \<open>
  Wrapping an element and discarding the session: what \<open>live-accept.mjs\<close> leaves of
  what \<open>live-wrap.mjs\<close> wrote. The lemmas follow the text of the wrapper: which of
  its lines hold a marker, which tags it opens, and where the original ends.
\<close>

section \<open>Joined lines\<close>

lemma join_Cons: "ys \<noteq> [] \<Longrightarrow> join s (x # ys) = x @ s @ join s ys"
  by (cases ys) simp_all

lemma join_append: "xs \<noteq> [] \<Longrightarrow> ys \<noteq> [] \<Longrightarrow> join s (xs @ ys) = join s xs @ s @ join s ys"
proof (induction xs rule: list_nonempty_induct)
  case (cons x xs)
  then show ?case by (simp add: join_Cons)
qed (simp add: join_Cons)

lemma join3: "a \<noteq> [] \<Longrightarrow> b \<noteq> [] \<Longrightarrow> c \<noteq> [] \<Longrightarrow> join s (a @ b @ c) = join s a @ s @ join s b @ s @ join s c"
  by (simp add: join_append)

section \<open>Tags\<close>

lemma tag_end_found: "CHR ''>'' \<notin> set s \<Longrightarrow> tag_end (s @ CHR ''>'' # t) = Some (s, t)"
  by (simp add: tag_end_def takeWhile_append dropWhile_append)

lemma first_opener_skip: "CHR ''<'' \<notin> set p \<Longrightarrow> first_opener a (p @ t) = first_opener a t"
  by (induction p) (auto simp: opener_with_def)

lemma first_opener_comment: "first_opener a (''<!--'' @ t) = first_opener a t"
  by (simp add: opener_with_def is_alpha_def is_word_def)

lemma named_tag_other: "c \<noteq> CHR ''<'' \<Longrightarrow> named_tag name (c # s) = None"
  by (simp add: named_tag_def tag_after_def strip_def starts_with_def)

lemma inner_skip:
  "CHR ''<'' \<notin> set p \<Longrightarrow> inner_until name d 0 (p @ t) = map_option ((@) p) (inner_until name d 0 t)"
proof (induction p)
  case Nil
  then show ?case by (cases "inner_until name d 0 t") simp_all
next
  case (Cons c p)
  then have c: "named_tag name (c # p @ t) = None" by (intro named_tag_other) auto
  from Cons have "inner_until name d 0 (p @ t) = map_option ((@) p) (inner_until name d 0 t)" by simp
  then show ?case by (cases "inner_until name d 0 t") (simp_all add: c)
qed

lemma opener_with_div:
  assumes "CHR ''>'' \<notin> set s"
  shows "opener_with a (''<div '' @ s @ CHR ''>'' # t) = (if has_sub (CHR '' '' # s) a then Some (''div'', t) else None)"
proof -
  have "tag_end (CHR '' '' # s @ CHR ''>'' # t) = Some (CHR '' '' # s, t)"
    using tag_end_found [of "CHR '' '' # s" t] assms by simp
  then show ?thesis
    by (simp add: opener_with_def is_alpha_def is_word_def is_digit_def tag_after_def strip_def starts_with_def
      word_end_def at_boundary_def)
qed


lemma named_tag_closes: "named_tag ''div'' (''</div>'' @ t) = Some (Closing, 6)"
proof -
  have "tag_end (CHR ''>'' # t) = Some ([], t)" using tag_end_found [of "[]" t] by simp
  then show ?thesis
    by (simp add: named_tag_def tag_after_def strip_def starts_with_def word_end_def at_boundary_def is_word_def)
qed

lemma inner_closes: "inner_until ''div'' 1 0 (''</div>'' @ t) = Some []"
  using named_tag_closes [of t] by simp

definition begins_tag :: "string \<Rightarrow> string \<Rightarrow> bool" where
  "begins_tag name s = (\<exists>w \<in> {''</'' @ name, CHR ''<'' # name}. Option.bind (strip w s) word_end \<noteq> None)"

fun well_nested :: "string \<Rightarrow> nat \<Rightarrow> nat \<Rightarrow> string \<Rightarrow> bool" where
  \<comment> \<open>every tag of the name is complete, and what is opened is closed\<close>
  "well_nested name depth k [] = (depth = 1 \<and> k = 0)"
| "well_nested name depth (Suc k) (c # s) = well_nested name depth k s"
| "well_nested name depth 0 (c # s) =
    (case named_tag name (c # s) of
       None \<Rightarrow> \<not> begins_tag name (c # s) \<and> well_nested name depth 0 s
     | Some (Closing, n) \<Rightarrow> 1 < depth \<and> well_nested name (depth - 1) (n - 1) s
     | Some (Opening, n) \<Rightarrow> well_nested name (Suc depth) (n - 1) s
     | Some (Self_closing, n) \<Rightarrow> well_nested name depth (n - 1) s)"

lemma strip_before_newline:
  assumes "line_feed \<notin> set w"
  shows "strip w (s @ line_feed # t) = map_option (\<lambda>r. r @ line_feed # t) (strip w s)"
proof (cases "starts_with s w")
  case True
  then show ?thesis by (auto simp: strip_def starts_with_split)
next
  case False
  have "\<not> starts_with (s @ line_feed # t) w"
  proof
    assume "starts_with (s @ line_feed # t) w"
    then have w: "take (length w) (s @ line_feed # t) = w" by (simp add: starts_with_def)
    show False
    proof (cases "length w \<le> length s")
      case True
      with w False show False by (simp add: starts_with_def)
    next
      case longer: False
      then have "line_feed \<in> set (take (length w) (s @ line_feed # t))" by (cases "length w - length s") auto
      with w assms show False by simp
    qed
  qed
  with False show ?thesis by (simp add: strip_def)
qed

lemma word_end_before_newline: "word_end (s @ line_feed # t) = map_option (\<lambda>r. r @ line_feed # t) (word_end s)"
  by (cases s) (simp_all add: word_end_def at_boundary_def is_word_def)

lemma tag_end_append: "tag_end s = Some (a, r) \<Longrightarrow> tag_end (s @ t) = Some (a, r @ t)"
  by (auto simp: tag_end_def split: if_splits)

lemma tag_after_before_newline:
  assumes "line_feed \<notin> set w" "tag_after w s \<noteq> None \<or> Option.bind (strip w s) word_end = None"
  shows "tag_after w (s @ line_feed # t) = map_option (\<lambda>(a, r). (a, r @ line_feed # t)) (tag_after w s)"
proof -
  have w: "Option.bind (strip w (s @ line_feed # t)) word_end = map_option (\<lambda>r. r @ line_feed # t) (Option.bind (strip w s) word_end)"
    using assms(1) by (cases "strip w s") (simp_all add: strip_before_newline word_end_before_newline)
  show ?thesis
  proof (cases "Option.bind (strip w s) word_end")
    case None
    with w show ?thesis by (simp add: tag_after_def)
  next
    case (Some r)
    with assms(2) obtain a r' where "tag_end r = Some (a, r')" by (auto simp: tag_after_def)
    with Some w tag_end_append [OF this] show ?thesis by (simp add: tag_after_def)
  qed
qed

lemma newline_not_in_tags: "line_feed \<notin> set ''</div''" "line_feed \<notin> set ''<div''"
  by code_simp+

lemma named_tag_before_newline:
  assumes "named_tag ''div'' s \<noteq> None \<or> \<not> begins_tag ''div'' s"
  shows "named_tag ''div'' (s @ line_feed # t) = named_tag ''div'' s"
proof (cases "tag_after ''</div'' s")
  case (Some ar)
  then show ?thesis using tag_after_before_newline [OF newline_not_in_tags(1), of s t]
    by (cases ar) (simp add: named_tag_def)
next
  case None
  have "Option.bind (strip ''</div'' s) word_end = None"
  proof (cases "named_tag ''div'' s = None")
    case True
    with assms show ?thesis by (auto simp: begins_tag_def)
  next
    case False
    with None have "strip ''<div'' s \<noteq> None"
      by (cases "strip ''<div'' s") (simp_all add: named_tag_def tag_after_def)
    then obtain t where "s = ''<div'' @ t" by (auto simp: strip_def starts_with_split split: if_splits)
    then have "strip ''</div'' s = None" by (simp add: strip_def starts_with_def)
    then show ?thesis by simp
  qed
  with None have closing: "tag_after ''</div'' (s @ line_feed # t) = None"
    using tag_after_before_newline [OF newline_not_in_tags(1), of s t] by simp
  have "tag_after ''<div'' s \<noteq> None \<or> Option.bind (strip ''<div'' s) word_end = None"
    using assms None by (auto simp: named_tag_def begins_tag_def split: option.splits)
  with closing None show ?thesis using tag_after_before_newline [OF newline_not_in_tags(2), of s t]
    by (auto simp: named_tag_def split: option.splits)
qed

lemma inner_nested:
  assumes "inner_until ''div'' 1 0 (line_feed # t) = Some r"
  shows "well_nested ''div'' d k s \<Longrightarrow> inner_until ''div'' d k (s @ line_feed # t) = Some (s @ r)"
proof (induction "''div''" d k s rule: well_nested.induct)
  case (1 d k)
  with assms show ?case by simp
next
  case (2 d k c s)
  then show ?case by simp
next
  case (3 d c s)
  show ?case
  proof (cases "named_tag ''div'' (c # s)")
    case None
    with 3 have n: "named_tag ''div'' ((c # s) @ line_feed # t) = None"
      by (subst named_tag_before_newline) auto
    with None 3 show ?thesis by simp
  next
    case (Some kn)
    obtain kind n where kn: "kn = (kind, n)" by (cases kn)
    have n: "named_tag ''div'' ((c # s) @ line_feed # t) = Some (kind, n)"
      using Some kn by (subst named_tag_before_newline) auto
    show ?thesis
      using 3 Some kn n by (cases kind) simp_all
  qed
qed


lemma first_opener_past_comment:
  assumes "CHR ''<'' \<notin> set p" "CHR ''<'' \<notin> set q"
  shows "first_opener a (p @ ''<!--'' @ q @ t) = first_opener a t"
  using first_opener_skip [OF assms(1)] first_opener_comment [of a "q @ t"] first_opener_skip [OF assms(2)] by metis

lemma first_opener_Cons: "first_opener a (c # s) = (case opener_with a (c # s) of Some r \<Rightarrow> Some r | None \<Rightarrow> first_opener a s)"
  by simp

lemma first_opener_past_div:
  assumes "CHR ''>'' \<notin> set s" "CHR ''<'' \<notin> set s" "\<not> has_sub (CHR '' '' # s) a"
  shows "first_opener a (''<div '' @ s @ CHR ''>'' # t) = first_opener a t"
proof -
  have "first_opener a (''<div '' @ s @ CHR ''>'' # t) = first_opener a ((''div '' @ s @ ''>'') @ t)"
    using opener_with_div [OF assms(1), of a t] assms(3) first_opener_Cons [of a "CHR ''<''" "''div '' @ s @ CHR ''>'' # t"] by simp
  also have "\<dots> = first_opener a t" by (rule first_opener_skip) (use assms(2) in simp)
  finally show ?thesis .
qed

lemma opener_here_found:
  assumes "CHR ''>'' \<notin> set s" "has_sub (CHR '' '' # s) a"
  shows "first_opener a (''<div '' @ s @ CHR ''>'' # t) = Some (''div'', t)"
  using opener_with_div [OF assms(1), of a t] assms(2) first_opener_Cons [of a "CHR ''<''" "''div '' @ s @ CHR ''>'' # t"] by simp

section \<open>The block and its lines\<close>

lemma find_enumerate:
  "(\<forall>l \<in> set pre. \<not> P l) \<Longrightarrow> P l \<Longrightarrow> find (\<lambda>(i, l). P l) (enumerate n (pre @ l # post)) = Some (n + length pre, l)"
  by (induction pre arbitrary: n) simp_all

lemma lines_with_found:
  "(\<forall>l \<in> set pre. \<not> has_sub l w) \<Longrightarrow> has_sub l w \<Longrightarrow> lines_with w (pre @ l # post) = Some (length pre)"
  unfolding lines_with_def using find_enumerate [of pre "\<lambda>l. has_sub l w" l 0 post] by simp

lemma block_found:
  assumes "\<forall>l \<in> set pre. \<not> has_sub l (''impeccable-variants-start '' @ i)"
    and "\<forall>l \<in> set (pre @ first # mid). \<not> has_sub l (''impeccable-variants-end '' @ i)"
    and "has_sub first (''impeccable-variants-start '' @ i)" "has_sub final (''impeccable-variants-end '' @ i)"
  shows "find_marker_block i (pre @ first # mid @ final # post) = Some (length pre, length pre + Suc (length mid))"
proof -
  have e: "lines_with (''impeccable-variants-end '' @ i) (pre @ first # mid @ final # post) = Some (length pre + Suc (length mid))"
    using lines_with_found [OF assms(2,4), of post] by simp
  have "take (Suc (length pre + Suc (length mid))) (pre @ first # mid @ final # post) = pre @ first # mid @ [final]" by simp
  then have "lines_with (''impeccable-variants-start '' @ i) (take (Suc (length pre + Suc (length mid))) (pre @ first # mid @ final # post))
      = Some (length pre)"
    using lines_with_found [OF assms(1,3)] by simp
  with e show ?thesis by (simp add: find_marker_block_def)
qed

lemma style_matchers:
  assumes "\<not> has_sub s ''<style''"
  shows "style_open (drop k s) = 0" "style_element (drop k s) = 0" "style_self (drop k s) = 0"
proof -
  have "strip ''<style'' (drop k s) = None"
  proof -
    have "\<not> starts_with (drop k s) ''<style''"
    proof
      assume "starts_with (drop k s) ''<style''"
      then obtain t where "drop k s = [] @ ''<style'' @ t" unfolding starts_with_split by auto
      then have "has_sub (drop k s) ''<style''" unfolding has_sub_split by blast
      with assms has_sub_drop show False by blast
    qed
    then show ?thesis by (simp add: strip_def)
  qed
  then show "style_open (drop k s) = 0" "style_element (drop k s) = 0" "style_self (drop k s) = 0"
    by (simp_all add: style_open_def style_element_def style_self_def tag_after_def matched_def)
qed

lemma replace_nothing: "(\<And>k. m (drop k s) = 0) \<Longrightarrow> replace_matches m r 0 s = s"
proof (induction s)
  case (Cons c s)
  have "m (drop k s) = 0" for k using Cons.prems [of "Suc k"] by simp
  with Cons.IH Cons.prems [of 0] show ?case by simp
qed simp

lemma first_at_nothing: "(\<And>k. m (drop k s) = 0) \<Longrightarrow> first_at m s = None"
proof (induction s)
  case (Cons c s)
  have "m (drop k s) = 0" for k using Cons.prems [of "Suc k"] by simp
  with Cons.IH Cons.prems [of 0] show ?case by simp
qed simp

lemma strip_style_keeps: "(\<forall>l \<in> set ls. \<not> has_sub l ''<style'') \<Longrightarrow> strip_style False ls = ls"
  by (induction ls) (simp_all add: replace_nothing first_at_nothing style_matchers Let_def)

section \<open>Indentation\<close>

lemma blank_Nil [simp]: "blank []"
  by (simp add: blank_def)

lemma leading_ws_ws: "\<forall>c \<in> set (leading_ws l). is_ws c"
  unfolding leading_ws_def by (meson set_takeWhileD)

lemma leading_ws_append: "\<forall>c \<in> set p. is_ws c \<Longrightarrow> leading_ws (p @ l) = p @ leading_ws l"
  by (simp add: leading_ws_def takeWhile_append)

lemma blank_append: "\<forall>c \<in> set p. is_ws c \<Longrightarrow> blank (p @ l) = blank l"
  by (auto simp: blank_def list_all_iff)

lemma fold_min_le: "fold min ns (m :: nat) \<le> m \<and> (\<forall>n \<in> set ns. fold min ns m \<le> n) \<and> (fold min ns m = m \<or> fold min ns m \<in> set ns)"
proof (induction ns arbitrary: m)
  case (Cons n ns)
  from Cons.IH [of "min n m"] show ?case by (auto simp: min_def split: if_splits)
qed simp

lemma min_indent_le: "l \<in> set ls \<Longrightarrow> \<not> blank l \<Longrightarrow> min_indent ls \<le> length (leading_ws l)"
proof -
  assume l: "l \<in> set ls" "\<not> blank l"
  then have f: "l \<in> set (filter (\<lambda>l. \<not> blank l) ls)" by simp
  then obtain a as where as: "filter (\<lambda>l. \<not> blank l) ls = a # as" by (cases "filter (\<lambda>l. \<not> blank l) ls") auto
  have "\<forall>n \<in> set (map (length \<circ> leading_ws) as). min_indent ls \<le> n" "min_indent ls \<le> length (leading_ws a)"
    using fold_min_le [of "map (length \<circ> leading_ws) as" "length (leading_ws a)"] by (auto simp: min_indent_def as)
  with f as show ?thesis by auto
qed

lemma min_indent_attained: "l \<in> set ls \<Longrightarrow> \<not> blank l \<Longrightarrow> \<exists>k \<in> set ls. \<not> blank k \<and> min_indent ls = length (leading_ws k)"
proof -
  assume l: "l \<in> set ls" "\<not> blank l"
  then have f: "l \<in> set (filter (\<lambda>l. \<not> blank l) ls)" by simp
  then obtain a as where as: "filter (\<lambda>l. \<not> blank l) ls = a # as" by (cases "filter (\<lambda>l. \<not> blank l) ls") auto
  have "min_indent ls = length (leading_ws a) \<or> min_indent ls \<in> set (map (length \<circ> leading_ws) as)"
    using fold_min_le [of "map (length \<circ> leading_ws) as" "length (leading_ws a)"] by (simp add: min_indent_def as)
  then obtain k where "k \<in> set (a # as)" "min_indent ls = length (leading_ws k)" by auto
  moreover have "set (a # as) \<subseteq> {k \<in> set ls. \<not> blank k}" using arg_cong [OF as, of set] by auto
  ultimately show ?thesis by blast
qed

lemma leading_ws_drop:
  assumes "k \<le> length (leading_ws l)"
  shows "leading_ws (drop k l) = drop k (leading_ws l)"
proof -
  have "l = leading_ws l @ dropWhile is_ws l" by (simp add: leading_ws_def)
  then have d: "drop k l = drop k (leading_ws l) @ dropWhile is_ws l"
    using assms by (metis append_eq_append_conv_if drop_append diff_is_0_eq drop_0)
  have "\<forall>c \<in> set (drop k (leading_ws l)). is_ws c" using leading_ws_ws in_set_dropD by metis
  moreover have "leading_ws (dropWhile is_ws l) = []"
    unfolding leading_ws_def by (induction l) simp_all
  ultimately show ?thesis unfolding d by (simp add: leading_ws_append)
qed


lemma blank_drop:
  assumes "k \<le> length (leading_ws l)"
  shows "blank (drop k l) = blank l"
proof -
  have "blank l = blank (take k l @ drop k l)" by simp
  also have "\<dots> = blank (drop k l)"
  proof (rule blank_append)
    have "take k l = take k (leading_ws l @ dropWhile is_ws l)" by (simp add: leading_ws_def)
    then have "set (take k l) \<subseteq> set (leading_ws l)" using assms by (simp add: set_take_subset)
    then show "\<forall>c \<in> set (take k l). is_ws c" using leading_ws_ws by blast
  qed
  finally show ?thesis by simp
qed

definition at_indent :: "string \<Rightarrow> string list \<Rightarrow> string list" where
  \<comment> \<open>the lines with their common indentation replaced, blank ones emptied\<close>
  "at_indent indent ls = map (\<lambda>l. if blank l then [] else indent @ drop (min_indent ls) l) ls"

lemma deindent_reindent:
  assumes "\<forall>c \<in> set indent. is_ws c" "\<forall>l \<in> set pad. blank l" "\<forall>l \<in> set pad'. blank l"
  shows "deindent_content (pad @ reindent_original ls indent @ pad') indent =
    map (\<lambda>_. []) pad @ at_indent indent ls @ map (\<lambda>_. []) pad'"
proof -
  let ?R = "reindent_original ls indent" and ?m = "min_indent ls"
  let ?n = "min_indent (pad @ ?R @ pad')"
  have ind: "\<forall>c \<in> set (indent @ ''    ''). is_ws c" using assms(1) by (simp add: is_ws_def)
  have line: "\<not> blank (indent @ ''    '' @ drop ?m l)" "length (leading_ws (indent @ ''    '' @ drop ?m l)) = length indent + 4 + (length (leading_ws l) - ?m)"
    if l: "l \<in> set ls" "\<not> blank l" for l
  proof -
    have d: "leading_ws (drop ?m l) = drop ?m (leading_ws l)" by (rule leading_ws_drop [OF min_indent_le [OF l]])
    show "\<not> blank (indent @ ''    '' @ drop ?m l)"
      using blank_append [OF ind, of "drop ?m l"] blank_drop [OF min_indent_le [OF l]] l(2) by simp
    show "length (leading_ws (indent @ ''    '' @ drop ?m l)) = length indent + 4 + (length (leading_ws l) - ?m)"
      using leading_ws_append [OF ind, of "drop ?m l"] d by simp
  qed
  have keep: "drop ?n (indent @ ''    '' @ drop ?m l) = drop ?m l" if l: "l \<in> set ls" "\<not> blank l" for l
  proof -
    have mem: "indent @ ''    '' @ drop ?m k \<in> set (pad @ ?R @ pad')" if "k \<in> set ls" "\<not> blank k" for k
      using that by (auto simp: reindent_original_def Let_def)
    have low: "length indent + 4 \<le> ?n"
    proof -
      obtain k where k: "k \<in> set (pad @ ?R @ pad')" "\<not> blank k" "?n = length (leading_ws k)"
        using min_indent_attained [OF mem [OF l] line(1) [OF l]] by blast
      then have "k \<in> set ?R" using assms(2,3) by auto
      then obtain l' where "l' \<in> set ls" "\<not> blank l'" "k = indent @ ''    '' @ drop ?m l'"
        using k(2) by (auto simp: reindent_original_def Let_def split: if_splits)
      with line(2) k(3) show ?thesis by simp
    qed
    obtain k where "k \<in> set ls" "\<not> blank k" "?m = length (leading_ws k)" using min_indent_attained [OF l] by blast
    then have "?n \<le> length indent + 4" using min_indent_le [OF mem line(1)] line(2) by fastforce
    with low have "?n = length (indent @ ''    '')" by simp
    then show ?thesis using append_eq_conv_conj [of "indent @ ''    ''" "drop ?m l"] by simp
  qed
  have "map (\<lambda>l. if blank l then [] else indent @ drop N l) ?R = at_indent indent ls"
    if N: "\<And>l. l \<in> set ls \<Longrightarrow> \<not> blank l \<Longrightarrow> drop N (indent @ ''    '' @ drop ?m l) = drop ?m l" for N
    unfolding reindent_original_def at_indent_def Let_def map_map o_def
  proof (rule map_cong [OF refl])
    fix l assume l: "l \<in> set ls"
    show "(if blank (if blank l then [] else indent @ ''    '' @ drop ?m l) then []
        else indent @ drop N (if blank l then [] else indent @ ''    '' @ drop ?m l)) = (if blank l then [] else indent @ drop ?m l)"
      using N [OF l] line(1) [OF l] by (cases "blank l") simp_all
  qed
  from this [OF keep] assms(2,3) show ?thesis by (simp add: deindent_content_def Let_def)
qed

section \<open>Discarding what was wrapped\<close>

definition plain_text :: "string \<Rightarrow> bool" where
  \<comment> \<open>word characters only, as in an identifier or a number\<close>
  "plain_text s = (\<forall>c \<in> set s. is_word c)"

definition unmarked :: "string \<Rightarrow> string \<Rightarrow> bool" where
  \<comment> \<open>a line without a marker of the session\<close>
  "unmarked i l = (line_feed \<notin> set l \<and> \<not> has_sub l (''impeccable-variants-start '' @ i) \<and> \<not> has_sub l (''impeccable-variants-end '' @ i))"

lemma plain_text_lacks: "plain_text s \<Longrightarrow> \<not> is_word c \<Longrightarrow> c \<notin> set s"
  by (auto simp: plain_text_def)

lemma no_words: "\<not> is_word CHR ''-''" "\<not> is_word CHR ''<''" "\<not> is_word CHR ''>''" "\<not> is_word line_feed"
  by code_simp+

lemma ws_lacks: "\<forall>c \<in> set s. is_ws c \<Longrightarrow> \<not> is_ws c \<Longrightarrow> c \<notin> set s"
  by blast

lemma no_ws: "\<not> is_ws CHR ''-''" "\<not> is_ws CHR ''<''" "\<not> is_ws CHR ''>''"
  by code_simp+

lemma wrapper_div_text:
  "wrapper_div False i n = ''<div '' @ (''data-impeccable-variants='' @ [quote_mark] @ i @ [quote_mark] @
     '' data-impeccable-variant-count='' @ [quote_mark] @ n @ [quote_mark] @ '' style='' @ [quote_mark] @ ''display: contents'' @ [quote_mark]) @ ''>''"
  by (simp add: wrapper_div_def quoted_attr_def)

definition frame_before :: "string \<Rightarrow> string \<Rightarrow> string \<Rightarrow> string list" where
  "frame_before i n indent =
    [indent @ comment False (''impeccable-variants-start '' @ i), indent @ wrapper_div False i n,
     indent @ ''  '' @ comment False ''Original'',
     indent @ ''  <div '' @ quoted_attr ''data-impeccable-variant'' ''original'' @ ''>'']"

definition frame_after :: "string \<Rightarrow> string list" where
  "frame_after indent =
    [indent @ ''  </div>'', indent @ ''  '' @ comment False ''Variants: insert below this line'', indent @ ''</div>'']"

definition end_line :: "string \<Rightarrow> string \<Rightarrow> string" where
  "end_line i indent = indent @ comment False (''impeccable-variants-end '' @ i)"

lemma wrapper_lines_frame:
  "wrapper_lines False i n indent original = frame_before i n indent @ reindent_original original indent @ frame_after indent @ [end_line i indent]"
  by (simp add: wrapper_lines_def wrapper_inside_def frame_before_def frame_after_def end_line_def Let_def)

lemmas frame_defs = frame_before_def frame_after_def end_line_def comment_def wrapper_div_def quoted_attr_def

lemma frame_lacks_end:
  assumes "plain_text i" "plain_text n" "\<forall>c \<in> set indent. is_ws c" "l \<in> set (frame_before i n indent @ frame_after indent)"
  shows "\<not> has_sub l ''-end''"
proof -
  note skip = has_sub_skip [OF plain_text_lacks [OF assms(1) no_words(1)]] has_sub_skip [OF plain_text_lacks [OF assms(2) no_words(1)]]
    has_sub_skip [OF ws_lacks [OF assms(3) no_ws(1)]]
  from assms(4) show ?thesis
    by (simp add: frame_defs) (elim disjE; simp add: skip starts_with_Cons quote_mark_char)
qed

lemma frame_lacks_style:
  assumes "plain_text i" "plain_text n" "\<forall>c \<in> set indent. is_ws c"
    "l \<in> set (frame_before i n indent @ frame_after indent @ [end_line i indent])"
  shows "\<not> has_sub l ''<style''"
proof -
  note skip = has_sub_skip [OF plain_text_lacks [OF assms(1) no_words(2)]] has_sub_skip [OF plain_text_lacks [OF assms(2) no_words(2)]]
    has_sub_skip [OF ws_lacks [OF assms(3) no_ws(2)]]
  from assms(4) show ?thesis
    by (simp add: frame_defs) (elim disjE; simp add: skip starts_with_Cons quote_mark_char)
qed

lemma frame_lacks_newline:
  assumes "plain_text i" "plain_text n" "line_feed \<notin> set indent"
    "l \<in> set (frame_before i n indent @ frame_after indent @ [end_line i indent])"
  shows "line_feed \<notin> set l"
proof -
  note lacks = plain_text_lacks [OF assms(1) no_words(4)] plain_text_lacks [OF assms(2) no_words(4)] assms(3)
  from assms(4) lacks show ?thesis
    by (simp add: frame_defs) (elim disjE; simp add: quote_mark_char newline_char)
qed

lemma frame_marks:
  "has_sub (hd (frame_before i n indent)) (''impeccable-variants-start '' @ i)" "has_sub (end_line i indent) (''impeccable-variants-end '' @ i)"
proof -
  show "has_sub (hd (frame_before i n indent)) (''impeccable-variants-start '' @ i)"
    unfolding has_sub_split frame_before_def comment_def
    by (intro exI [of _ "indent @ ''<!-- ''"] exI [of _ "'' -->''"]) simp
  show "has_sub (end_line i indent) (''impeccable-variants-end '' @ i)"
    unfolding has_sub_split end_line_def comment_def
    by (intro exI [of _ "indent @ ''<!-- ''"] exI [of _ "'' -->''"]) simp
qed

lemma original_opener:
  assumes "plain_text i" "plain_text n" "\<forall>c \<in> set indent. is_ws c"
  shows "first_opener (quoted_attr ''data-impeccable-variant'' ''original'') (join [line_feed] (frame_before i n indent) @ t) = Some (''div'', t)"
proof -
  let ?a = "quoted_attr ''data-impeccable-variant'' ''original''"
  note lacks = plain_text_lacks [OF assms(1)] plain_text_lacks [OF assms(2)] ws_lacks [OF assms(3)]
  define s where "s = ''data-impeccable-variants='' @ [quote_mark] @ i @ [quote_mark] @
     '' data-impeccable-variant-count='' @ [quote_mark] @ n @ [quote_mark] @ '' style='' @ [quote_mark] @ ''display: contents'' @ [quote_mark]"
  have gt: "CHR ''>'' \<notin> set s" using lacks no_words by (simp add: s_def quote_mark_char)
  have lt: "CHR ''<'' \<notin> set s" using lacks no_words by (simp add: s_def quote_mark_char)
  have "\<not> has_sub (CHR '' '' # s) ''-variant=''"
    using has_sub_skip [OF lacks(1) [OF no_words(1)]] has_sub_skip [OF lacks(2) [OF no_words(1)]]
    by (simp add: s_def starts_with_Cons quote_mark_char)
  moreover have "has_sub (CHR '' '' # s) ?a \<Longrightarrow> has_sub (CHR '' '' # s) ''-variant=''"
    using has_sub_part [of "CHR '' '' # s" "''data-impeccable''" "''-variant=''" "[quote_mark] @ ''original'' @ [quote_mark]"]
    by (simp add: quoted_attr_def)
  ultimately have none: "\<not> has_sub (CHR '' '' # s) ?a" by blast
  have layout: "join [line_feed] (frame_before i n indent) @ t =
     indent @ ''<!--'' @ ('' impeccable-variants-start '' @ i @ '' -->'' @ [line_feed] @ indent) @ ''<div '' @ s @ CHR ''>'' #
       (line_feed # indent @ ''  '') @ ''<!--'' @ ('' Original -->'' @ [line_feed] @ indent @ ''  '') @ ''<div '' @ ?a @ CHR ''>'' # t"
    by (simp add: frame_before_def comment_def wrapper_div_def s_def quoted_attr_def)
  have "first_opener ?a (''<div '' @ ?a @ CHR ''>'' # t) = Some (''div'', t)"
  proof (rule opener_here_found)
    show "CHR ''>'' \<notin> set ?a" by (simp add: quoted_attr_def quote_mark_char)
    show "has_sub (CHR '' '' # ?a) ?a" using has_sub_split [of "CHR '' '' # ?a" ?a] by (metis append_Cons append_Nil append_Nil2)
  qed
  moreover have p: "CHR ''<'' \<notin> set indent" "CHR ''<'' \<notin> set ('' impeccable-variants-start '' @ i @ '' -->'' @ [line_feed] @ indent)"
      "CHR ''<'' \<notin> set (line_feed # indent @ ''  '')" "CHR ''<'' \<notin> set ('' Original -->'' @ [line_feed] @ indent @ ''  '')"
    using lacks no_words no_ws by (simp_all add: newline_char)
  ultimately show ?thesis
    by (simp only: layout first_opener_past_comment [OF p(1,2)] first_opener_past_div [OF gt lt none] first_opener_past_comment [OF p(3,4)])
qed


lemma reindent_lines:
  assumes "l \<in> set (reindent_original original indent)" "\<forall>k \<in> set original. unmarked i k \<and> \<not> has_sub k ''<style''"
    and "\<forall>c \<in> set indent. is_ws c" "line_feed \<notin> set indent"
  shows "line_feed \<notin> set l" "\<not> has_sub l ''<style''" "\<not> has_sub l (''impeccable-variants-end '' @ i)"
proof -
  have "line_feed \<notin> set l \<and> \<not> has_sub l ''<style'' \<and> \<not> has_sub l (''impeccable-variants-end '' @ i)"
  proof (cases "l = []")
    case False
    then obtain k m where k: "k \<in> set original" "l = (indent @ ''    '') @ drop m k"
      using assms(1) by (auto simp: reindent_original_def Let_def split: if_splits)
    then have u: "unmarked i k" "\<not> has_sub k ''<style''" using assms(2) by auto
    have lack: "c \<notin> set (indent @ ''    '')" if "\<not> is_ws c" for c using assms(3) that by (auto simp: is_ws_def)
    have "line_feed \<notin> set l"
      using assms(4) u(1) in_set_dropD [of line_feed m k] by (auto simp: k(2) unmarked_def newline_char)
    moreover have "\<not> has_sub l ''<style''"
      unfolding k(2) using has_sub_skip [OF lack [OF no_ws(2)]] has_sub_drop [of m k] u(2) by blast
    moreover have "\<not> has_sub l (''impeccable-variants-end '' @ i)"
    proof
      have i: "CHR ''i'' \<notin> set (indent @ ''    '')" by (rule lack) code_simp
      assume "has_sub l (''impeccable-variants-end '' @ i)"
      then have "has_sub (drop m k) (''impeccable-variants-end '' @ i)" unfolding k(2) by (simp only: append_Cons has_sub_skip [OF i])
      with has_sub_drop u(1) show False by (auto simp: unmarked_def)
    qed
    ultimately show ?thesis by blast
  qed simp
  then show "line_feed \<notin> set l" "\<not> has_sub l ''<style''" "\<not> has_sub l (''impeccable-variants-end '' @ i)" by blast+
qed

lemma original_extracted:
  assumes frame: "plain_text i" "plain_text n" "\<forall>c \<in> set indent. is_ws c" "line_feed \<notin> set indent"
    and original: "original \<noteq> []" "\<forall>k \<in> set original. unmarked i k \<and> \<not> has_sub k ''<style''"
    and nested: "well_nested ''div'' 1 0 (join [line_feed] (reindent_original original indent))"
    and block: "block_lines block ls = wrapper_lines False i n indent original"
  shows "extract_original ls block = [] # reindent_original original indent @ [indent @ ''  '']"
proof -
  let ?R = "reindent_original original indent"
  note R = reindent_lines [OF _ original(2) frame(3,4)]
  have nonempty: "?R \<noteq> []" using original(1) by (simp add: reindent_original_def Let_def)
  have "\<forall>l \<in> set (wrapper_lines False i n indent original). \<not> has_sub l ''<style''"
    using frame_lacks_style [OF frame(1-3)] R(2) by (auto simp: wrapper_lines_frame)
  then have stripped: "strip_style_and_join ls block = join [line_feed] (wrapper_lines False i n indent original)"
    by (simp add: strip_style_and_join_def block strip_style_keeps)
  obtain u where u: "join [line_feed] (frame_after indent @ [end_line i indent]) = (indent @ ''  '') @ ''</div>'' @ u"
    by (simp add: frame_after_def)
  have layout: "join [line_feed] (wrapper_lines False i n indent original) =
      join [line_feed] (frame_before i n indent) @ [line_feed] @ join [line_feed] ?R @ line_feed # (indent @ ''  '') @ ''</div>'' @ u"
  proof -
    have "frame_before i n indent \<noteq> []" "frame_after indent @ [end_line i indent] \<noteq> []" by (simp_all add: frame_before_def)
    with nonempty show ?thesis unfolding wrapper_lines_frame u [symmetric] by (subst join3) simp_all
  qed
  have lt: "CHR ''<'' \<notin> set (line_feed # indent @ ''  '')" "CHR ''<'' \<notin> set [line_feed]"
    using ws_lacks [OF frame(3) no_ws(2)] by (simp_all add: newline_char)
  have close: "inner_until ''div'' 1 0 (line_feed # (indent @ ''  '') @ ''</div>'' @ u) = Some (line_feed # indent @ ''  '')"
    using inner_skip [OF lt(1), of "''div''" 1 "''</div>'' @ u"] inner_closes [of u] by simp
  have "inner_until ''div'' 1 0 ([line_feed] @ join [line_feed] ?R @ line_feed # (indent @ ''  '') @ ''</div>'' @ u)
      = Some (line_feed # join [line_feed] ?R @ line_feed # indent @ ''  '')"
    using inner_skip [OF lt(2), of "''div''" 1 "join [line_feed] ?R @ line_feed # (indent @ ''  '') @ ''</div>'' @ u"] inner_nested [OF close nested] by simp
  then have inner: "extract_inner_by_attr (strip_style_and_join ls block) (quoted_attr ''data-impeccable-variant'' ''original'')
      = Some (line_feed # join [line_feed] ?R @ line_feed # indent @ ''  '')"
    unfolding extract_inner_by_attr_def stripped layout original_opener [OF frame(1-3)] by simp
  have whole: "line_feed # join [line_feed] ?R @ line_feed # indent @ ''  '' = join [line_feed] ([] # ?R @ [indent @ ''  ''])"
    using nonempty by (simp add: join_append join_Cons)
  have "split_on line_feed (join [line_feed] ([] # ?R @ [indent @ ''  ''])) = [] # ?R @ [indent @ ''  '']"
    by (rule split_on_join) (use R(1) frame(4) in \<open>auto simp: newline_char\<close>)
  with inner whole show ?thesis by (simp add: extract_original_def)
qed


lemma discard_wrapped:
  assumes frame: "plain_text i" "plain_text n" "\<forall>c \<in> set indent. is_ws c" "line_feed \<notin> set indent"
    and original: "original \<noteq> []" "\<forall>k \<in> set original. unmarked i k \<and> \<not> has_sub k ''<style''"
    and nested: "well_nested ''div'' 1 0 (join [line_feed] (reindent_original original indent))"
    and pre: "\<forall>l \<in> set pre. unmarked i l" and html: "\<not> is_jsx file"
  shows "handle_discard_unlocked i (pre @ wrapper_lines False i n indent original @ post) file =
    Inr (join [line_feed] (pre @ [[]] @ at_indent indent original @ [[]] @ post))"
proof -
  let ?R = "reindent_original original indent" and ?W = "wrapper_lines False i n indent original"
  define mid where "mid = tl (frame_before i n indent) @ ?R @ frame_after indent"
  have W: "?W = hd (frame_before i n indent) # mid @ [end_line i indent]"
    by (simp add: wrapper_lines_frame mid_def frame_before_def)
  have no_end: "\<not> has_sub l (''impeccable-variants-end '' @ i)" if "l \<in> set (pre @ hd (frame_before i n indent) # mid)" for l
  proof -
    have "l \<in> set pre \<or> l \<in> set (frame_before i n indent @ frame_after indent) \<or> l \<in> set ?R"
      using that by (auto simp: mid_def frame_before_def)
    then consider "l \<in> set pre" | "l \<in> set (frame_before i n indent @ frame_after indent)" | "l \<in> set ?R" by blast
    then show ?thesis
    proof cases
      case 2
      from frame_lacks_end [OF frame(1-3) 2]
      show ?thesis using has_sub_part [of l "''impeccable-variants''" "''-end''" "CHR '' '' # i"] by auto
    qed (use pre reindent_lines [OF _ original(2) frame(3,4)] in \<open>auto simp: unmarked_def\<close>)
  qed
  let ?ls = "pre @ ?W @ post" and ?block = "(length pre, Suc (length pre + length mid))"
  have found: "find_marker_block i ?ls = Some ?block"
    using block_found [of pre i "hd (frame_before i n indent)" mid "end_line i indent" post] pre no_end frame_marks
    by (simp add: W unmarked_def)
  have "block_lines ?block ?ls = ?W" by (simp add: block_lines_def W)
  from original_extracted [OF frame original nested this]
  have ex: "extract_original ?ls ?block = [[]] @ ?R @ [indent @ ''  '']" by simp
  have first: "leading_ws (?ls ! length pre) = indent"
    using leading_ws_append [OF frame(3), of "comment False (''impeccable-variants-start '' @ i)"]
    by (simp add: W frame_before_def nth_append) (simp add: comment_def leading_ws_def is_ws_def)
  have "deindent_content ([[]] @ ?R @ [indent @ ''  '']) indent = [[]] @ at_indent indent original @ [[]]"
    using deindent_reindent [OF frame(3), of "[[]]" "[indent @ ''  '']" original] frame(3)
    by (auto simp: blank_def list_all_iff is_ws_def)
  moreover have "replace_lines ?block new ?ls = pre @ new @ post" for new by (simp add: replace_lines_def W)
  ultimately show ?thesis
    by (simp add: handle_discard_unlocked_def found expand_replace_range_def html first ex)
qed

lemma at_indent_keeps:
  assumes "first \<in> set ls" "\<not> blank first" "\<forall>l \<in> set ls. blank l \<or> starts_with l (leading_ws first)"
  shows "at_indent (leading_ws first) ls = map (\<lambda>l. if blank l then [] else l) ls"
proof -
  have "length (leading_ws first) \<le> min_indent ls"
  proof -
    obtain k where k: "k \<in> set ls" "\<not> blank k" "min_indent ls = length (leading_ws k)"
      using min_indent_attained [OF assms(1,2)] by blast
    then obtain t where "k = leading_ws first @ t" using assms(3) by (auto simp: starts_with_split)
    with leading_ws_append [OF leading_ws_ws, of first t] k(3) show ?thesis by simp
  qed
  with min_indent_le [OF assms(1,2)] have m: "min_indent ls = length (leading_ws first)" by simp
  have "leading_ws first @ drop (length (leading_ws first)) l = l" if "l \<in> set ls" "\<not> blank l" for l
    using assms(3) that by (auto simp: starts_with_split)
  with m show ?thesis by (simp add: at_indent_def)
qed


definition page_lines :: "string list" where
  "page_lines = [''<main>'', ''  <section>'', ''    <div>Hi</div>'', [], ''    <p>Text</p>'', ''  </section>'', ''</main>'']"


section \<open>Where the wrapper stands\<close>

theorem wrapper_is_where_reported:
  assumes "original \<noteq> []" "first < length ls" "w = wrap_element jsx i n ls (first, final) original"
  shows "drop (wr_start w - 1) (take (wr_end w) (wr_lines w)) = wrapper_lines jsx i n (leading_ws (ls ! first)) original"
    and "wr_lines w ! (wr_insert w - 1) = leading_ws (ls ! first) @ ''  '' @ comment jsx ''Variants: insert below this line''"
proof -
  show "drop (wr_start w - 1) (take (wr_end w) (wr_lines w)) = wrapper_lines jsx i n (leading_ws (ls ! first)) original"
    using assms(2) by (simp add: assms(3) wrap_element_def Let_def)
  obtain k where k: "length original = Suc k" using assms(1) by (cases original) auto
  have len: "length (reindent_original original (leading_ws (ls ! first))) = Suc k"
    by (simp add: reindent_original_def Let_def k)
  show "wr_lines w ! (wr_insert w - 1) = leading_ws (ls ! first) @ ''  '' @ comment jsx ''Variants: insert below this line''"
    using assms(2) by (simp add: assms(3) wrap_element_def Let_def nth_append k len wrapper_lines_def wrapper_inside_def)
qed

section \<open>Where an element ends\<close>

lemma closing_from_Some:
  "closing_from name d i ls = Some k \<Longrightarrow> \<exists>m < length ls. k = i + m \<and>
     d + sum_list (map (depth_change name) (take (Suc m) ls)) \<le> 0 \<and>
     (\<forall>j < m. d + sum_list (map (depth_change name) (take (Suc j) ls)) > 0)"
proof (induction ls arbitrary: d i)
  case (Cons l ls)
  show ?case
  proof (cases "d + depth_change name l \<le> 0")
    case True
    with Cons.prems show ?thesis by (intro exI [of _ 0]) (simp add: Let_def)
  next
    case False
    with Cons.prems have "closing_from name (d + depth_change name l) (Suc i) ls = Some k" by (simp add: Let_def)
    from Cons.IH [OF this] obtain m where m: "m < length ls" "k = Suc i + m"
      "d + depth_change name l + sum_list (map (depth_change name) (take (Suc m) ls)) \<le> 0"
      "\<forall>j < m. d + depth_change name l + sum_list (map (depth_change name) (take (Suc j) ls)) > 0" by blast
    have "d + sum_list (map (depth_change name) (take (Suc j) (l # ls))) > 0" if "j < Suc m" for j
      using that m(4) False by (cases j) (simp_all add: add.assoc)
    with m show ?thesis by (intro exI [of _ "Suc m"]) (simp add: add.assoc)
  qed
qed simp

theorem closing_line_balances:
  assumes "opener_name (ls ! first) = Some name" "closing_from name 0 first (drop first ls) \<noteq> None"
  shows "\<exists>m. find_closing_line ls first = first + m \<and> first + m < length ls \<and>
     sum_list (map (depth_change name) (take (Suc m) (drop first ls))) \<le> 0 \<and>
     (\<forall>j < m. sum_list (map (depth_change name) (take (Suc j) (drop first ls))) > 0)"
proof -
  obtain k where k: "closing_from name 0 first (drop first ls) = Some k" using assms(2) by blast
  from closing_from_Some [OF this] show ?thesis
    using assms(1) k by (auto simp: find_closing_line_def)
qed

section \<open>What goes wrong\<close>

theorem component_prefix_closes_early:
  "find_closing_line [''<Card>'', ''  <CardIcon />'', ''  text'', ''</Card>''] 0 = 1"
  by code_simp

theorem void_element_takes_fifty_lines:
  "find_closing_line (''<img src=a>'' # replicate 60 ''text'') 0 = 50"
  by code_simp

theorem marker_of_a_longer_id:
  "find_marker_block ''s1'' [''<!-- impeccable-variants-start s10 -->'', ''<!-- impeccable-variants-end s10 -->'',
     ''<!-- impeccable-variants-start s1 -->'', ''<!-- impeccable-variants-end s1 -->''] = Some (0, 1)"
  by code_simp

definition styled_lines :: "string list" where
  "styled_lines = [''<section>'', ''  <style>p { color: red }</style>'', ''  <p>Hi</p>'', ''</section>'']"

theorem discard_loses_styles:
  "handle_discard_unlocked ''ab12'' (wr_lines (wrap_element False ''ab12'' ''3'' styled_lines (0, 3) styled_lines)) ''src/a.html'' =
   Inr (join [line_feed] [[], ''<section>'', [], ''  <p>Hi</p>'', ''</section>'', []])"
  by code_simp

end
