(* ===== verification/Accept_Run.thy ===== *)
theory Accept_Run
  imports Live_Accept
begin

text \<open>
  One run of \<open>live-accept.mjs\<close>, from its arguments to its answer: the receipt of an
  earlier run, the file that holds the session, the write under the source lock,
  and the staged edits an accept makes redundant. A run is one step; the lock says
  whether it was got. Sessions previewed as components are not modelled, so a
  session without markers in a file is answered as not found.
\<close>

section \<open>Arguments\<close>

fun arg_val :: "string list \<Rightarrow> string \<Rightarrow> string" where
  \<comment> \<open>what follows the flag, empty where there is none\<close>
  "arg_val (a # b # args) flag = (if a = flag then b else arg_val (b # args) flag)"
| "arg_val args flag = []"

definition variant_num :: "string \<Rightarrow> bool" where
  \<comment> \<open>\<open>^[0-9]{1,3}$\<close>\<close>
  "variant_num s = (1 \<le> length s \<and> length s \<le> 3 \<and> list_all is_digit s)"

datatype operation = Discard | Accept string

definition op_name :: "operation \<Rightarrow> string" where
  "op_name oper = (case oper of Discard \<Rightarrow> ''discard'' | Accept _ \<Rightarrow> ''accept'')"

datatype requested = Help | Usage string | Run string operation

definition requested_of :: "string list \<Rightarrow> requested" where
  "requested_of args =
    (let i = arg_val args ''--id''; v = arg_val args ''--variant''; discard = (''--discard'' \<in> set args) in
     if ''--help'' \<in> set args \<or> ''-h'' \<in> set args then Help
     else if i = [] then Usage ''Missing --id''
     else if \<not> safe_id i then Usage ''Invalid --id''
     else if \<not> discard \<and> v = [] then Usage ''Need --discard or --variant N''
     else if \<not> discard \<and> \<not> variant_num v then Usage ''Invalid --variant''
     else Run i (if discard then Discard else Accept v))"

section \<open>A deprecated preview\<close>

fun shadow_tag :: "string \<Rightarrow> string \<Rightarrow> string option" where
  \<comment> \<open>the first tag with the attribute \<open>data-impeccable-variants\<close> of the session\<close>
  "shadow_tag i [] = None"
| "shadow_tag i (c # s) =
    (case tag_end s of None \<Rightarrow> shadow_tag i s
     | Some (inside, rest) \<Rightarrow>
       if c = CHR ''<'' \<and> inside \<noteq> [] \<and>
         (\<exists>q \<in> html_quotes. has_sub (tl inside) (''data-impeccable-variants='' @ [q] @ i @ [q]))
       then Some (''<'' @ inside @ ''>'') else shadow_tag i s)"

definition attr_here :: "string \<Rightarrow> string \<Rightarrow> string option" where
  \<comment> \<open>\<open>\sNAME\s*=\s*(["'])(.*?)\1\<close>\<close>
  "attr_here name s = (case s of [] \<Rightarrow> None | c # t \<Rightarrow> if \<not> is_ws c then None
     else Option.bind (strip name t) (\<lambda>t. Option.bind (strip ''='' (skip_ws t)) (\<lambda>t.
       (case skip_ws t of [] \<Rightarrow> None | q # t \<Rightarrow>
         let v = takeWhile (\<lambda>d. d \<noteq> q) t in
         if q \<in> html_quotes \<and> q \<in> set t \<and> line_feed \<notin> set v \<and> char_of (13 :: nat) \<notin> set v then Some v else None))))"

fun html_attr :: "string \<Rightarrow> string \<Rightarrow> string option" where
  "html_attr name [] = None"
| "html_attr name (c # s) = (case attr_here name (c # s) of Some v \<Rightarrow> Some v | None \<Rightarrow> html_attr name s)"

definition entity :: "string \<Rightarrow> char \<Rightarrow> string \<Rightarrow> string" where
  "entity w c s = replace_matches (\<lambda>t. if starts_with t w then length w else 0) [c] 0 s"

definition decode_html_attr :: "string \<Rightarrow> string" where
  "decode_html_attr s = entity ''&amp;'' CHR ''&'' (entity ''&gt;'' CHR ''>'' (entity ''&lt;'' CHR ''<'' (entity ''&quot;'' quote_mark s)))"

definition read_html_attr :: "string \<Rightarrow> string \<Rightarrow> string option" where
  "read_html_attr tag name = map_option decode_html_attr (html_attr name tag)"

definition line_number :: "string option \<Rightarrow> bool" where
  \<comment> \<open>\<open>Number.isFinite(Number(v))\<close>, null being 0\<close>
  "line_number v = (case v of None \<Rightarrow> True | Some s \<Rightarrow> (case to_number (JStr s) of JNum _ \<Rightarrow> True | _ \<Rightarrow> False))"

definition source_shadow_preview :: "string \<Rightarrow> string \<Rightarrow> bool" where
  \<comment> \<open>\<open>readSourceShadowPreviewMeta(content, id) !== null\<close>\<close>
  "source_shadow_preview source i =
    (case shadow_tag i source of None \<Rightarrow> False
     | Some tag \<Rightarrow> read_html_attr tag ''data-impeccable-preview'' = Some ''source-shadow'' \<and>
         (case read_html_attr tag ''data-impeccable-source-file'' of None \<Rightarrow> False | Some f \<Rightarrow> f \<noteq> []) \<and>
         line_number (read_html_attr tag ''data-impeccable-source-start'') \<and>
         line_number (read_html_attr tag ''data-impeccable-source-end''))"

section \<open>State and surroundings\<close>

record accept_state =
  as_tree :: tree
  as_receipts :: "(string \<times> jsval) list"
  as_buffer :: buffer_file

text \<open>
  \<open>ae_find\<close> is the search for the session's start marker, \<open>ae_lock\<close> the message of
  a lock that was not got, \<open>ae_params\<close> the JSON text of the parameter values where
  the argument parses and has any.
\<close>

record accept_env =
  ae_project :: project
  ae_find :: "tree \<Rightarrow> string \<Rightarrow> string option"
  ae_lock :: "string \<Rightarrow> string option"
  ae_params :: "string \<Rightarrow> string option"
  ae_now :: string

datatype accept_output = Shown_help | Rejected string | Answer jsval

definition with_default :: "props \<Rightarrow> props \<Rightarrow> jsval" where
  \<comment> \<open>\<open>{ ...a, ...b }\<close>\<close>
  "with_default a b = with_props (JObj a) b"

definition operation_failure :: "string \<Rightarrow> props \<Rightarrow> jsval" where
  "operation_failure text extra =
    with_default [(''handled'', JBool False), (''mode'', JStr ''error''), (''error'', JStr text)] extra"

definition receipt_of :: "accept_state \<Rightarrow> string \<Rightarrow> jsval" where
  \<comment> \<open>null for one that is missing or cannot be read\<close>
  "receipt_of st i = (case map_of (as_receipts st) i of None \<Rightarrow> JNull | Some r \<Rightarrow> r)"

definition variant_id :: "operation \<Rightarrow> jsval" where
  "variant_id oper = (case oper of Discard \<Rightarrow> JNull | Accept v \<Rightarrow> JStr v)"

definition same_operation :: "jsval \<Rightarrow> operation \<Rightarrow> bool" where
  "same_operation prior oper =
    (get prior ''operation'' = JStr (op_name oper) \<and>
     (case oper of Discard \<Rightarrow> True | Accept v \<Rightarrow> js_string (get prior ''variantId'') = v))"

definition receipt_answer :: "jsval \<Rightarrow> operation \<Rightarrow> jsval" where
  "receipt_answer prior oper =
    (if same_operation prior oper
     then with_props (JObj (props_of (get prior ''result''))) [(''handled'', JBool True), (''alreadyApplied'', JBool True)]
     else JObj [(''handled'', JBool False), (''mode'', JStr ''error''), (''error'', JStr ''accept_receipt_conflict''),
       (''priorOperation'', get prior ''operation''), (''priorVariantId'', js_coalesce (get prior ''variantId'') JNull)])"

definition write_accept_receipt :: "accept_env \<Rightarrow> string \<Rightarrow> operation \<Rightarrow> jsval \<Rightarrow> accept_state \<Rightarrow> accept_state" where
  "write_accept_receipt env i oper result st =
    st\<lparr>as_receipts := alset i (JObj [(''id'', JStr i), (''operation'', JStr (op_name oper)), (''variantId'', variant_id oper),
       (''result'', result), (''completedAt'', JStr (ae_now env))]) (as_receipts st)\<rparr>"

definition emit_result :: "accept_env \<Rightarrow> string \<Rightarrow> operation \<Rightarrow> jsval \<Rightarrow> accept_state \<Rightarrow> accept_output \<times> accept_state" where
  "emit_result env i oper result st =
    (Answer result, if get result ''handled'' \<noteq> JBool False then write_accept_receipt env i oper result st else st)"

section \<open>Discard and accept\<close>

definition write_source :: "tree \<Rightarrow> string \<Rightarrow> string \<Rightarrow> string + tree" where
  "write_source t target text =
    (if tr_writable t target then Inr (t\<lparr>tr_files := alset target text (tr_files t)\<rparr>) else Inl (tr_error t))"

definition run_discard :: "accept_env \<Rightarrow> string \<Rightarrow> string \<Rightarrow> string \<Rightarrow> string \<Rightarrow> accept_state \<Rightarrow> accept_output \<times> accept_state" where
  "run_discard env i target rel source st =
    (case handle_discard_unlocked i (split_on line_feed source) target of
       Inl e \<Rightarrow> emit_result env i Discard
         (with_default [(''handled'', JBool True), (''file'', JStr rel), (''carbonize'', JBool False)]
            [(''handled'', JBool False), (''error'', JStr e)]) st
     | Inr text \<Rightarrow> (case write_source (as_tree st) target text of
           Inl e \<Rightarrow> emit_result env i Discard (operation_failure e [(''file'', JStr rel)]) st
         | Inr t \<Rightarrow> emit_result env i Discard
             (with_default [(''handled'', JBool True), (''file'', JStr rel), (''carbonize'', JBool False)] []) (st\<lparr>as_tree := t\<rparr>)))"

definition carbonize_todo :: "string \<Rightarrow> string" where
  "carbonize_todo rel = ''REQUIRED before next poll: carbonize cleanup in '' @ rel @ ''. See reference/live.md '' @
     [quote_mark] @ ''Required after accept'' @ [quote_mark] @ ''.''"

definition accepted_answer :: "string \<Rightarrow> accepted \<Rightarrow> jsval" where
  "accepted_answer rel acc = with_default [(''handled'', JBool True), (''file'', JStr rel)]
    ((''carbonize'', JBool (ac_carbonize acc)) # (if ac_carbonize acc then [(''todo'', JStr (carbonize_todo rel))] else []))"

definition run_accept ::
  "accept_env \<Rightarrow> string \<Rightarrow> string \<Rightarrow> string option \<Rightarrow> jsval \<Rightarrow> string \<Rightarrow> string \<Rightarrow> string \<Rightarrow> accept_state \<Rightarrow> accept_output \<times> accept_state" where
  "run_accept env i v params page target rel source st =
    (case build_accepted_wrapped_source i v (split_on line_feed source) target params of
       Inl e \<Rightarrow> emit_result env i (Accept v)
         (with_default [(''handled'', JBool True), (''file'', JStr rel)] [(''handled'', JBool False), (''error'', JStr e)]) st
     | Inr acc \<Rightarrow> (case write_source (as_tree st) target (ac_content acc) of
           Inl e \<Rightarrow> emit_result env i (Accept v) (operation_failure e [(''file'', JStr rel)]) st
         | Inr t \<Rightarrow> emit_result env i (Accept v) (accepted_answer rel acc)
             (st\<lparr>as_tree := t,
                 as_buffer := scrub_manual_edits_against_original_block (ac_original acc) page (as_buffer st)\<rparr>)))"

definition run_found :: "accept_env \<Rightarrow> string list \<Rightarrow> string \<Rightarrow> operation \<Rightarrow> string \<Rightarrow> string \<Rightarrow> accept_state \<Rightarrow> accept_output \<times> accept_state" where
  "run_found env args i oper target source st =
    (let pj = ae_project env; rel = relative (pj_root pj) target in
     if find_marker_block i (split_on line_feed source) \<noteq> None \<and> source_shadow_preview source i
     then (Answer (JObj [(''handled'', JBool False), (''error'', JStr ''source_shadow_preview_deprecated''),
       (''hint'', JStr ''Svelte live mode now uses svelte-component injection. Re-wrap the element and regenerate variants.'')]), st)
     else if is_generated_file (pj_ignored pj) (as_tree st) target
     then (Answer (JObj [(''handled'', JBool False), (''mode'', JStr ''fallback''), (''file'', JStr rel),
       (''hint'', JStr ''Session is in a generated file. Persist the accepted variant in source; do not rely on this script.'')]), st)
     else (case ae_lock env target of
         Some e \<Rightarrow> emit_result env i oper (operation_failure e [(''file'', JStr rel)]) st
       | None \<Rightarrow> (case oper of Discard \<Rightarrow> run_discard env i target rel source st
           | Accept v \<Rightarrow> run_accept env i v (ae_params env (arg_val args ''--param-values''))
               (let page = arg_val args ''--page-url'' in if page = [] then JNull else JStr page) target rel source st)))"

definition accept_cli :: "accept_env \<Rightarrow> string list \<Rightarrow> accept_state \<Rightarrow> accept_output \<times> accept_state" where
  "accept_cli env args st =
    (case requested_of args of Help \<Rightarrow> (Shown_help, st) | Usage text \<Rightarrow> (Rejected text, st)
     | Run i oper \<Rightarrow>
       let prior = receipt_of st i in
       if truthy prior then (Answer (receipt_answer prior oper), st)
       else (case Option.bind (ae_find env (as_tree st) i) (\<lambda>p. map_option (Pair p) (file_at (as_tree st) p)) of
           None \<Rightarrow> (Answer (JObj [(''handled'', JBool False), (''error'', JStr (''Session markers not found for id: '' @ i))]), st)
         | Some (target, source) \<Rightarrow> run_found env args i oper target source st))"

section \<open>What a run does\<close>

lemmas run_defs = run_found_def run_discard_def run_accept_def emit_result_def Let_def

definition receipt :: "accept_env \<Rightarrow> string \<Rightarrow> operation \<Rightarrow> jsval \<Rightarrow> jsval" where
  "receipt env i oper result = JObj [(''id'', JStr i), (''operation'', JStr (op_name oper)), (''variantId'', variant_id oper),
     (''result'', result), (''completedAt'', JStr (ae_now env))]"

definition settled :: "accept_env \<Rightarrow> string \<Rightarrow> operation \<Rightarrow> accept_state \<Rightarrow> jsval \<Rightarrow> accept_state \<Rightarrow> bool" where
  \<comment> \<open>refused and unchanged, or handled with a receipt\<close>
  "settled env i oper st r st' =
    (get r ''handled'' = JBool False \<and> st' = st \<or>
     get r ''handled'' = JBool True \<and> map_of (as_receipts st') i = Some (receipt env i oper r))"

lemmas answer_props = with_default_def with_props_def spread_def operation_failure_def accepted_answer_def

lemma emit_refused:
  "get r ''handled'' = JBool False \<Longrightarrow> emit_result env i oper r st = (Answer r, st)"
  by (simp add: emit_result_def)

lemma emit_settled:
  "emit_result env i oper r st = (Answer r', st') \<Longrightarrow> get r ''handled'' = JBool True \<Longrightarrow> settled env i oper st0 r' st'"
  by (auto simp: emit_result_def settled_def write_accept_receipt_def receipt_def)

lemma refused_settled: "get r ''handled'' = JBool False \<Longrightarrow> settled env i oper st r st"
  by (simp add: settled_def)

lemma handled_values:
  "get (operation_failure e [(''file'', f)]) ''handled'' = JBool False"
  "get (with_default [(''handled'', JBool True), (''file'', f), (''carbonize'', c)] [(''handled'', JBool False), (''error'', e')]) ''handled'' = JBool False"
  "get (with_default [(''handled'', JBool True), (''file'', f)] [(''handled'', JBool False), (''error'', e')]) ''handled'' = JBool False"
  "get (with_default [(''handled'', JBool True), (''file'', f), (''carbonize'', c)] []) ''handled'' = JBool True"
  "get (accepted_answer rel acc) ''handled'' = JBool True"
  by (simp_all add: answer_props field_def)

lemma run_discard_settled: "run_discard env i target rel source st = (Answer r, st') \<Longrightarrow> settled env i Discard st r st'"
  unfolding run_discard_def
  by (auto simp: emit_refused handled_values split: sum.splits intro: refused_settled emit_settled)

lemma run_accept_settled: "run_accept env i v params page target rel source st = (Answer r, st') \<Longrightarrow> settled env i (Accept v) st r st'"
  unfolding run_accept_def
  by (auto simp: emit_refused handled_values split: sum.splits intro: refused_settled emit_settled)

lemma run_found_settled:
  assumes "run_found env args i oper target source st = (Answer r, st')"
  shows "settled env i oper st r st'"
proof -
  let ?rel = "relative (pj_root (ae_project env)) target"
  from assms consider "st' = st" "get r ''handled'' = JBool False"
    | "(case oper of Discard \<Rightarrow> run_discard env i target ?rel source st
        | Accept v \<Rightarrow> run_accept env i v (ae_params env (arg_val args ''--param-values''))
            (let page = arg_val args ''--page-url'' in if page = [] then JNull else JStr page) target ?rel source st) = (Answer r, st')"
    unfolding run_found_def Let_def
    by (auto simp: emit_refused handled_values field_def split: if_splits option.splits)
  then show ?thesis
  proof cases
    case 2
    then show ?thesis by (cases oper) (auto intro: run_discard_settled run_accept_settled)
  qed (simp add: settled_def)
qed

text \<open>
  C26. A run that answers that it handled nothing has written nothing: neither a source file nor
  a receipt.
\<close>

theorem unhandled_run_changes_nothing:
  assumes "accept_cli env args st = (Answer r, st')" "get r ''handled'' = JBool False"
  shows "st' = st"
proof -
  obtain i oper where q: "requested_of args = Run i oper" using assms(1) by (auto simp: accept_cli_def split: requested.splits)
  show ?thesis
  proof (cases "st' = st")
    case False
    with assms(1) q obtain target source where "run_found env args i oper target source st = (Answer r, st')"
      by (auto simp: accept_cli_def Let_def split: if_splits option.splits)
    from run_found_settled [OF this] assms(2) show ?thesis by (simp add: settled_def)
  qed
qed

lemma same_operation_unique: "same_operation prior oper \<Longrightarrow> same_operation prior oper' \<longleftrightarrow> oper' = oper"
  by (cases oper; cases oper') (auto simp: same_operation_def op_name_def)

lemma same_operation_receipt: "same_operation (receipt env i oper r) oper"
  by (cases oper) (simp_all add: same_operation_def receipt_def op_name_def variant_id_def field_def)

lemma receipt_answers:
  "same_operation prior oper \<Longrightarrow> get (receipt_answer prior oper) ''alreadyApplied'' = JBool True"
  "\<not> same_operation prior oper \<Longrightarrow> get (receipt_answer prior oper) ''error'' = JStr ''accept_receipt_conflict''"
  "\<not> same_operation prior oper \<Longrightarrow> get (receipt_answer prior oper) ''handled'' = JBool False"
  by (simp_all add: receipt_answer_def with_props_def spread_def field_def)

lemma accept_cli_receipt:
  "requested_of args = Run i oper \<Longrightarrow> truthy (receipt_of st i) \<Longrightarrow> accept_cli env args st = (Answer (receipt_answer (receipt_of st i) oper), st)"
  by (simp add: accept_cli_def Let_def)

text \<open>
  C25. Accepting is done at most once: after a run that was handled, every later run for the session,
  with whatever arguments and in whatever environment, writes nothing. It reports the same
  operation as already applied and refuses any other.
\<close>

theorem later_runs_change_nothing:
  assumes run: "accept_cli env args st = (Answer r, st')" "get r ''handled'' = JBool True" "requested_of args = Run i oper"
    and later: "requested_of args' = Run i oper'"
  shows "\<exists>r'. accept_cli env' args' st' = (Answer r', st') \<and>
    (if oper' = oper then get r' ''alreadyApplied'' = JBool True
     else get r' ''error'' = JStr ''accept_receipt_conflict'')"
proof -
  have "truthy (receipt_of st' i) \<and> same_operation (receipt_of st' i) oper"
  proof (cases "truthy (receipt_of st i)")
    case True
    from accept_cli_receipt [OF run(3) True, of env] run(1,2) receipt_answers(3) [of "receipt_of st i" oper] True show ?thesis by fastforce
  next
    case False
    with run obtain target source where "run_found env args i oper target source st = (Answer r, st')"
      by (auto simp: accept_cli_def Let_def field_def split: option.splits)
    from run_found_settled [OF this] run(2) have "map_of (as_receipts st') i = Some (receipt env i oper r)"
      by (simp add: settled_def)
    then show ?thesis using same_operation_receipt by (simp add: receipt_of_def) (simp add: receipt_def)
  qed
  then show ?thesis
    using accept_cli_receipt [OF later, of st' env'] receipt_answers same_operation_unique by auto
qed

lemma write_source_frame: "write_source t target text = Inr t' \<Longrightarrow> file_at t' p = (if p = target then Some text else file_at t p)"
  by (auto simp: write_source_def file_at_def split: if_splits)

lemma run_found_frame:
  assumes "run_found env args i oper target source st = (out, st')" "p \<noteq> target"
  shows "file_at (as_tree st') p = file_at (as_tree st) p"
  using assms unfolding run_defs
  by (auto simp: write_accept_receipt_def write_source_frame split: if_splits option.splits operation.splits sum.splits)

section \<open>A sample session\<close>

definition sample_page :: string where
  "sample_page = join [line_feed] [''impeccable-variants-start s1'', ''impeccable-variants-end s1'']"

definition sample_accept_env :: accept_env where
  "sample_accept_env = \<lparr>ae_project = \<lparr>pj_root = ''/p'', pj_ignored = (\<lambda>_. False),
     pj_checks = \<lparr>ck_json = (\<lambda>_. None), ck_js = (\<lambda>_ _. None), ck_syntax = None, ck_script = (\<lambda>_. None)\<rparr>\<rparr>,
     ae_find = (\<lambda>t i. if i = ''s1'' then Some ''/p/a.html'' else None), ae_lock = (\<lambda>_. None), ae_params = (\<lambda>_. None), ae_now = ''now''\<rparr>"

definition sample_accept_state :: accept_state where
  "sample_accept_state = \<lparr>as_tree = \<lparr>tr_files = [(''/p/a.html'', sample_page)], tr_readable = (\<lambda>_. True), tr_writable = (\<lambda>_. True),
     tr_error = ''EACCES''\<rparr>, as_receipts = [], as_buffer = No_file\<rparr>"

abbreviation sample_discarded :: accept_state where
  "sample_discarded \<equiv> snd (accept_cli sample_accept_env [''--id'', ''s1'', ''--discard''] sample_accept_state)"

lemma sample_requests:
  "requested_of [''--id'', ''s1'', ''--discard''] = Run ''s1'' Discard"
  "requested_of [''--id'', ''s1'', ''--variant'', ''2''] = Run ''s1'' (Accept ''2'')"
  "requested_of [''--id'', ''s2'', ''--discard''] = Run ''s2'' Discard"
  by code_simp+

lemma sample_discard:
  "fst (accept_cli sample_accept_env [''--id'', ''s1'', ''--discard''] sample_accept_state) =
    Answer (JObj [(''handled'', JBool True), (''file'', JStr ''a.html''), (''carbonize'', JBool False)])"
proof -
  have g: "\<not> is_generated_file (pj_ignored (ae_project sample_accept_env)) (as_tree sample_accept_state) ''/p/a.html''"
    by code_simp
  have "accept_cli sample_accept_env [''--id'', ''s1'', ''--discard''] sample_accept_state =
    run_found sample_accept_env [''--id'', ''s1'', ''--discard''] ''s1'' Discard ''/p/a.html'' sample_page sample_accept_state"
    by (simp add: accept_cli_def sample_requests receipt_of_def sample_accept_env_def sample_accept_state_def file_at_def)
  also have "\<dots> = run_discard sample_accept_env ''s1'' ''/p/a.html'' (relative (pj_root (ae_project sample_accept_env)) ''/p/a.html'') sample_page sample_accept_state"
  proof -
    have "\<not> source_shadow_preview sample_page ''s1''" by code_simp
    moreover have "ae_lock sample_accept_env ''/p/a.html'' = None" by (simp add: sample_accept_env_def)
    ultimately show ?thesis using g by (simp add: run_found_def Let_def)
  qed
  finally have run: "accept_cli sample_accept_env [''--id'', ''s1'', ''--discard''] sample_accept_state =
    run_discard sample_accept_env ''s1'' ''/p/a.html'' (relative (pj_root (ae_project sample_accept_env)) ''/p/a.html'') sample_page sample_accept_state" .
  show ?thesis unfolding run by code_simp
qed

lemma later_runs_change_nothing_witness:
  "\<exists>r'. accept_cli sample_accept_env [''--id'', ''s1'', ''--variant'', ''2''] sample_discarded = (Answer r', sample_discarded) \<and>
    get r' ''error'' = JStr ''accept_receipt_conflict''"
proof -
  have "accept_cli sample_accept_env [''--id'', ''s1'', ''--discard''] sample_accept_state =
    (Answer (JObj [(''handled'', JBool True), (''file'', JStr ''a.html''), (''carbonize'', JBool False)]), sample_discarded)"
    using sample_discard by (metis prod.collapse)
  from later_runs_change_nothing [OF this _ sample_requests(1,2), of sample_accept_env] show ?thesis by (simp add: field_def)
qed

lemma unhandled_run_changes_nothing_witness:
  "snd (accept_cli sample_accept_env [''--id'', ''s2'', ''--discard''] sample_accept_state) = sample_accept_state"
proof -
  have "fst (accept_cli sample_accept_env [''--id'', ''s2'', ''--discard''] sample_accept_state) =
    Answer (JObj [(''handled'', JBool False), (''error'', JStr ''Session markers not found for id: s2'')])"
    by (simp add: accept_cli_def sample_requests receipt_of_def sample_accept_env_def sample_accept_state_def)
  then have "accept_cli sample_accept_env [''--id'', ''s2'', ''--discard''] sample_accept_state =
    (Answer (JObj [(''handled'', JBool False), (''error'', JStr ''Session markers not found for id: s2'')]),
     snd (accept_cli sample_accept_env [''--id'', ''s2'', ''--discard''] sample_accept_state))" by (metis prod.collapse)
  from unhandled_run_changes_nothing [OF this] show ?thesis by (simp add: field_def)
qed

end
