(* ===== verification/Template_Search.thy ===== *)
theory Template_Search
  imports Commit_Rollback "HOL-Library.Sublist"
begin

text \<open>
  Finding the one project file that contains a text: \<open>lib/template-extensions.mjs\<close>
  (which files hold markup) and \<open>live/source-search.mjs\<close> (the walk that wrap and
  accept share). The file system is read through four functions; a path is a list
  of segments below the root.
\<close>

section \<open>Template extensions\<close>

definition live_template_extensions :: "string list" where
  "live_template_extensions = [''.html'', ''.jsx'', ''.tsx'', ''.vue'', ''.svelte'', ''.astro'', ''.ex'', ''.heex'', ''.eex'']"

record extension_entry =
  ee_ext :: string
  ee_engine :: string

definition normalize_extension_entry :: "jsval \<Rightarrow> extension_entry option" where
  "normalize_extension_entry entry =
    (let raw = (if is_str entry then entry else get entry ''ext'') in
     if \<not> is_str raw then None
     else let ext = map lower_char (js_trim (str_of raw)) in
       if ext = [] then None
       else Some \<lparr>ee_ext = (if starts_with ext ''.'' then ext else CHR ''.'' # ext),
                  ee_engine = (if \<not> is_str entry \<and> get entry ''engine'' = JStr ''text'' then ''text'' else ''html'')\<rparr>)"

definition normalize_extension_entries :: "jsval \<Rightarrow> extension_entry list" where
  "normalize_extension_entries entries = List.map_filter normalize_extension_entry (elems entries)"

definition merge_extensions :: "jsval \<Rightarrow> jsval \<Rightarrow> extension_entry list" where
  "merge_extensions existing incoming =
    map snd (fold (\<lambda>e m. alset (ee_ext e) e m)
      (normalize_extension_entries existing @ normalize_extension_entries incoming) [])"

definition has_suffix :: "string \<Rightarrow> string \<Rightarrow> bool" where
  \<comment> \<open>a name that ends in the extension and is more than it\<close>
  "has_suffix name ext = (length ext < length name \<and> ends_with name ext)"

definition better_match :: "string \<Rightarrow> extension_entry \<Rightarrow> extension_entry option \<Rightarrow> extension_entry option" where
  "better_match name e best =
    (if has_suffix name (ee_ext e) \<and> (case best of None \<Rightarrow> True | Some b \<Rightarrow> length (ee_ext b) < length (ee_ext e))
     then Some e else best)"

definition match_configured_extension :: "string \<Rightarrow> jsval \<Rightarrow> extension_entry option" where
  "match_configured_extension name extensions =
    fold (better_match (map lower_char name)) (normalize_extension_entries extensions) None"

definition matches_template_extension :: "string \<Rightarrow> string list \<Rightarrow> bool" where
  \<comment> \<open>of a base name\<close>
  "matches_template_extension name extensions = (\<exists>ext \<in> set extensions. has_suffix (map lower_char name) ext)"

definition read_live_template_extensions :: "jsval list \<Rightarrow> string list" where
  \<comment> \<open>from the parsed configuration files, null for one that is missing or malformed\<close>
  "read_live_template_extensions configs =
    fold (\<lambda>e out. if e \<in> set out then out else out @ [e])
      (concat (map (\<lambda>raw. let detector = get raw ''detector'' in
         if is_objty detector \<and> \<not> is_arr detector
         then map ee_ext (normalize_extension_entries (get detector ''extensions'')) else []) configs))
      live_template_extensions"

subsection \<open>The longest suffix\<close>

definition longest_among :: "string \<Rightarrow> extension_entry set \<Rightarrow> extension_entry option \<Rightarrow> bool" where
  "longest_among name es r = (case r of None \<Rightarrow> \<forall>e \<in> es. \<not> has_suffix name (ee_ext e)
     | Some b \<Rightarrow> b \<in> es \<and> has_suffix name (ee_ext b) \<and>
         (\<forall>e \<in> es. has_suffix name (ee_ext e) \<longrightarrow> length (ee_ext e) \<le> length (ee_ext b)))"

lemma better_match_longest:
  "longest_among name es best \<Longrightarrow> longest_among name (insert e es) (better_match name e best)"
  by (auto simp: longest_among_def better_match_def split: option.splits)

lemma fold_longest:
  "longest_among name seen best \<Longrightarrow> longest_among name (seen \<union> set es) (fold (better_match name) es best)"
proof (induction es arbitrary: seen best)
  case (Cons e es)
  from Cons.IH [OF better_match_longest [OF Cons.prems, of e]] show ?case by simp
qed simp

theorem configured_match_is_longest:
  "longest_among (map lower_char name) (set (normalize_extension_entries extensions)) (match_configured_extension name extensions)"
  unfolding match_configured_extension_def
  using fold_longest [of "map lower_char name" "{}" None] by (simp add: longest_among_def)

lemma fold_keeps_builtins:
  "set out \<subseteq> set (fold (\<lambda>e out. if e \<in> set out then out else out @ [e]) es out)"
proof (induction es arbitrary: out)
  case (Cons e es)
  from Cons.IH [of "if e \<in> set out then out else out @ [e]"] show ?case by (auto split: if_splits)
qed simp

lemma fold_distinct:
  "distinct out \<Longrightarrow> distinct (fold (\<lambda>e out. if e \<in> set out then out else out @ [e]) es out)"
  by (induction es arbitrary: out) simp_all

theorem live_extensions_extend_the_builtins:
  "set live_template_extensions \<subseteq> set (read_live_template_extensions configs) \<and> distinct (read_live_template_extensions configs)"
  unfolding read_live_template_extensions_def
  by (intro conjI fold_keeps_builtins fold_distinct) (simp add: live_template_extensions_def)

section \<open>The walk\<close>

datatype dirent = File_entry (entry_name: string) | Dir_entry (entry_name: string) | Other_entry (entry_name: string)

record source_disk =
  sd_exists :: "string list \<Rightarrow> bool"
  sd_real :: "string list \<Rightarrow> string list option"
  sd_entries :: "string list \<Rightarrow> dirent list option"
  sd_text :: "string list \<Rightarrow> string option"

text \<open>
  Whether a path exists, its real path (none for a broken link), the entries of a
  directory in the order they are listed, and the text of a file that can be read.
\<close>

record search_request =
  sr_query :: string
  sr_extensions :: "string list"
  sr_skip :: "string list"
  sr_filter :: "string list \<Rightarrow> bool"

definition privileged_dirs :: "string list" where
  "privileged_dirs = [''src'', ''app'', ''pages'', ''components'', ''public'', ''views'', ''templates'', ''lib'']"

definition source_search_dirs :: "string list list" where
  \<comment> \<open>the last one is the root itself\<close>
  "source_search_dirs = map (\<lambda>d. [d]) privileged_dirs @ [[]]"

definition never_source_dirs :: "string list" where
  "never_source_dirs = [''node_modules'', ''.git'', ''.impeccable'']"

definition max_depth :: nat where "max_depth = 5"

definition candidate_matches :: "source_disk \<Rightarrow> search_request \<Rightarrow> string list \<Rightarrow> string \<Rightarrow> bool" where
  "candidate_matches sd q dir name =
    (matches_template_extension name (sr_extensions q) \<and> sr_filter q (dir @ [name]) \<and>
     (case sd_text sd (dir @ [name]) of None \<Rightarrow> False | Some text \<Rightarrow> has_sub text (sr_query q)))"

fun file_here :: "source_disk \<Rightarrow> search_request \<Rightarrow> string list \<Rightarrow> dirent list \<Rightarrow> string option" where
  "file_here sd q dir [] = None"
| "file_here sd q dir (File_entry name # es) = (if candidate_matches sd q dir name then Some name else file_here sd q dir es)"
| "file_here sd q dir (e # es) = file_here sd q dir es"

fun folders :: "search_request \<Rightarrow> dirent list \<Rightarrow> string list" where
  "folders q [] = []"
| "folders q (Dir_entry name # es) = (if name \<in> set (sr_skip q) then folders q es else name # folders q es)"
| "folders q (e # es) = folders q es"

fun search_each :: "('a \<Rightarrow> 's \<Rightarrow> 'r option \<times> 's) \<Rightarrow> 'a list \<Rightarrow> 's \<Rightarrow> 'r option \<times> 's" where
  \<comment> \<open>the first result, the state passed from one to the next\<close>
  "search_each f [] seen = (None, seen)"
| "search_each f (x # xs) seen = (case f x seen of (Some r, seen) \<Rightarrow> (Some r, seen) | (None, seen) \<Rightarrow> search_each f xs seen)"

primrec walk :: "nat \<Rightarrow> source_disk \<Rightarrow> search_request \<Rightarrow> string list \<Rightarrow> string list list \<Rightarrow> string list option \<times> string list list" where
  \<comment> \<open>the levels left, the directory, the real directories already walked\<close>
  "walk 0 sd q dir seen = (None, seen)"
| "walk (Suc n) sd q dir seen =
    (case sd_real sd dir of None \<Rightarrow> (None, seen)
     | Some here \<Rightarrow> if here \<in> set seen then (None, seen)
       else (case sd_entries sd dir of None \<Rightarrow> (None, here # seen)
         | Some es \<Rightarrow> (case file_here sd q dir es of
             Some name \<Rightarrow> (Some (dir @ [name]), here # seen)
           | None \<Rightarrow> search_each (\<lambda>name. walk n sd q (dir @ [name])) (folders q es) (here # seen))))"

definition search_root :: "source_disk \<Rightarrow> search_request \<Rightarrow> string list \<Rightarrow> string list list \<Rightarrow> string list option \<times> string list list" where
  "search_root sd q dir seen = (if sd_exists sd dir then walk (Suc max_depth) sd q dir seen else (None, seen))"

definition find_source_file :: "source_disk \<Rightarrow> search_request \<Rightarrow> string list option" where
  "find_source_file sd q = fst (search_each (search_root sd q) source_search_dirs [])"

section \<open>The searches of accept and wrap\<close>

definition search_skip_dirs :: "string list" where
  "search_skip_dirs = never_source_dirs @ [''dist'', ''build'']"

definition session_search :: "string \<Rightarrow> string list \<Rightarrow> search_request" where
  "session_search i extensions = \<lparr>sr_query = ''impeccable-variants-start '' @ i, sr_extensions = extensions,
     sr_skip = search_skip_dirs, sr_filter = (\<lambda>_. True)\<rparr>"

definition find_session_file :: "source_disk \<Rightarrow> string list \<Rightarrow> string \<Rightarrow> (string list \<times> string) option" where
  "find_session_file sd extensions i =
    Option.bind (find_source_file sd (session_search i extensions)) (\<lambda>p. map_option (Pair p) (sd_text sd p))"

definition query_search :: "string \<Rightarrow> string list \<Rightarrow> (string list \<Rightarrow> bool) \<Rightarrow> bool \<Rightarrow> search_request" where
  "query_search query extensions generated includeGenerated = \<lparr>sr_query = query, sr_extensions = extensions,
     sr_skip = never_source_dirs, sr_filter = (\<lambda>p. includeGenerated \<or> \<not> generated p)\<rparr>"

definition find_file_with_query :: "source_disk \<Rightarrow> string list \<Rightarrow> (string list \<Rightarrow> bool) \<Rightarrow> bool \<Rightarrow> string \<Rightarrow> string list option" where
  "find_file_with_query sd extensions generated includeGenerated query =
    find_source_file sd (query_search query extensions generated includeGenerated)"

datatype wrap_target = In_source "string list" | Only_generated "string list" | Not_found

definition find_target :: "source_disk \<Rightarrow> string list \<Rightarrow> (string list \<Rightarrow> bool) \<Rightarrow> string list \<Rightarrow> wrap_target" where
  \<comment> \<open>the queries in order, in the sources first, then in generated files\<close>
  "find_target sd extensions generated queries =
    (case List.map_filter (find_file_with_query sd extensions generated False) queries of p # _ \<Rightarrow> In_source p
     | [] \<Rightarrow> (case List.map_filter (find_file_with_query sd extensions generated True) queries of p # _ \<Rightarrow> Only_generated p
         | [] \<Rightarrow> Not_found))"

section \<open>What the walk finds\<close>

definition names_a_match :: "source_disk \<Rightarrow> search_request \<Rightarrow> nat \<Rightarrow> string list \<Rightarrow> string list \<Rightarrow> bool" where
  \<comment> \<open>a file below a directory, by folders that are not skipped and at most that many\<close>
  "names_a_match sd q n dir p = (\<exists>below name. p = dir @ below @ [name] \<and> length below \<le> n \<and>
     (\<forall>d \<in> set below. d \<notin> set (sr_skip q)) \<and> candidate_matches sd q (dir @ below) name)"

lemma file_here_matches: "file_here sd q dir es = Some name \<Longrightarrow> candidate_matches sd q dir name"
  by (induction sd q dir es rule: file_here.induct) (auto split: if_splits)

lemma folders_not_skipped: "name \<in> set (folders q es) \<Longrightarrow> name \<notin> set (sr_skip q)"
  by (induction q es rule: folders.induct) (auto split: if_splits)

lemma search_each_found:
  "search_each f xs seen = (Some r, seen') \<Longrightarrow> \<exists>x s s'. x \<in> set xs \<and> f x s = (Some r, s')"
  by (induction f xs seen rule: search_each.induct) (force split: prod.splits option.splits)+

lemma walk_found: "walk (Suc n) sd q dir seen = (Some p, seen') \<Longrightarrow> names_a_match sd q n dir p"
proof (induction n arbitrary: dir seen seen')
  case (Suc n)
  then obtain here es where w: "sd_entries sd dir = Some es" and
      r: "(case file_here sd q dir es of Some name \<Rightarrow> (Some (dir @ [name]), here # seen)
           | None \<Rightarrow> search_each (\<lambda>name. walk (Suc n) sd q (dir @ [name])) (folders q es) (here # seen)) = (Some p, seen')"
    by (auto simp del: walk.simps(2) simp: walk.simps(2) [of "Suc n"] split: option.splits if_splits)
  show ?case
  proof (cases "file_here sd q dir es")
    case None
    with r have "search_each (\<lambda>name. walk (Suc n) sd q (dir @ [name])) (folders q es) (here # seen) = (Some p, seen')" by simp
    from search_each_found [OF this] obtain name s s' where
      n: "name \<in> set (folders q es)" "walk (Suc n) sd q (dir @ [name]) s = (Some p, s')" by blast
    from Suc.IH [OF n(2)] obtain below f where
      "p = (dir @ [name]) @ below @ [f]" "length below \<le> n" "\<forall>d \<in> set below. d \<notin> set (sr_skip q)"
      "candidate_matches sd q ((dir @ [name]) @ below) f" by (auto simp: names_a_match_def)
    then show ?thesis using folders_not_skipped [OF n(1)]
      unfolding names_a_match_def by (intro exI [of _ "name # below"] exI [of _ f]) simp
  next
    case (Some name)
    with r file_here_matches [OF Some] show ?thesis
      unfolding names_a_match_def by (intro exI [of _ "[]"] exI [of _ name]) simp
  qed
next
  case 0
  then obtain name es where "p = dir @ [name]" "file_here sd q dir es = Some name"
    by (auto split: option.splits if_splits elim!: disjE dest!: search_each_found)
  then show ?case using file_here_matches unfolding names_a_match_def
    by (intro exI [of _ "[]"] exI [of _ name]) auto
qed

theorem found_file_matches:
  assumes "find_source_file sd q = Some p"
  shows "\<exists>top \<in> set source_search_dirs. sd_exists sd top \<and> names_a_match sd q max_depth top p"
proof (cases "search_each (search_root sd q) source_search_dirs []")
  case (Pair r seen')
  with assms have "r = Some p" by (simp add: find_source_file_def)
  from search_each_found [OF Pair [unfolded this]] obtain top s s' where
    t: "top \<in> set source_search_dirs" "search_root sd q top s = (Some p, s')" by blast
  then have "sd_exists sd top" "walk (Suc max_depth) sd q top s = (Some p, s')"
    by (simp_all only: search_root_def split: if_splits) simp_all
  with t(1) walk_found show ?thesis by blast
qed

section \<open>What the walk does not miss\<close>

primrec holds_match :: "nat \<Rightarrow> source_disk \<Rightarrow> search_request \<Rightarrow> string list \<Rightarrow> bool" where
  "holds_match 0 sd q dir = False"
| "holds_match (Suc n) sd q dir = (case sd_entries sd dir of None \<Rightarrow> False
     | Some es \<Rightarrow> file_here sd q dir es \<noteq> None \<or> (\<exists>name \<in> set (folders q es). holds_match n sd q (dir @ [name])))"

lemma holds_match_mono: "holds_match n sd q dir \<Longrightarrow> holds_match (Suc n) sd q dir"
proof (induction n arbitrary: dir)
  case (Suc n)
  then obtain es where es: "sd_entries sd dir = Some es" by (auto split: option.splits)
  from Suc.prems es have "file_here sd q dir es \<noteq> None \<or> (\<exists>name \<in> set (folders q es). holds_match n sd q (dir @ [name]))" by simp
  then have "file_here sd q dir es \<noteq> None \<or> (\<exists>name \<in> set (folders q es). holds_match (Suc n) sd q (dir @ [name]))"
    using Suc.IH by blast
  then show ?case using es by (subst holds_match.simps(2)) simp
qed simp

definition no_match_below :: "source_disk \<Rightarrow> search_request \<Rightarrow> nat \<Rightarrow> string list \<Rightarrow> string list list \<Rightarrow> bool" where
  \<comment> \<open>what was walked under a directory holds no match within the levels left there\<close>
  "no_match_below sd q n dir seen = (\<forall>s \<in> set seen. prefix dir s \<longrightarrow> \<not> holds_match (n - (length s - length dir)) sd q s)"

definition adds_below :: "string list \<Rightarrow> string list list \<Rightarrow> string list list \<Rightarrow> bool" where
  "adds_below dir seen seen' = (set seen \<subseteq> set seen' \<and> (\<forall>s \<in> set seen'. s \<in> set seen \<or> prefix dir s))"

lemma search_each_none:
  assumes "search_each f xs seen = (None, seen')" "I seen"
    and "\<And>x s s'. x \<in> set xs \<Longrightarrow> I s \<Longrightarrow> f x s = (None, s') \<Longrightarrow> I s'"
  shows "I seen'"
  using assms by (induction f xs seen rule: search_each.induct) (auto split: prod.splits option.splits)

lemma search_each_all:
  assumes "search_each f xs seen = (None, seen')" "x \<in> set xs"
    and "\<forall>x \<in> set xs. \<forall>s s'. f x s = (None, s') \<longrightarrow> set s \<subseteq> set s'"
  shows "\<exists>s s'. f x s = (None, s') \<and> set s' \<subseteq> set seen'"
  using assms
proof (induction f xs seen rule: search_each.induct)
  case (2 f y xs seen)
  obtain s where s: "f y seen = (None, s)" "search_each f xs s = (None, seen')"
    using "2.prems"(1) by (auto split: prod.splits option.splits)
  have sub: "set s \<subseteq> set seen'"
    by (rule search_each_none [OF s(2), where I = "\<lambda>s'. set s \<subseteq> set s'"]) (use "2.prems"(3) in force)+
  show ?case
  proof (cases "x = y")
    case True
    with s(1) sub show ?thesis by blast
  next
    case False
    with "2.IH" [OF s(1) [symmetric] refl s(2)] "2.prems"(2,3) show ?thesis by simp
  qed
qed simp

lemma search_each_adds:
  assumes "search_each f xs seen = (None, seen')"
    and "\<And>x s s'. x \<in> set xs \<Longrightarrow> f x s = (None, s') \<Longrightarrow> adds_below dir s s'"
  shows "adds_below dir seen seen'"
proof (rule search_each_none [OF assms(1), where I = "adds_below dir seen"])
  show "adds_below dir seen seen" by (simp add: adds_below_def)
  show "adds_below dir seen s'" if "x \<in> set xs" "adds_below dir seen s" "f x s = (None, s')" for x s s'
    using assms(2) [OF that(1,3)] that(2) unfolding adds_below_def by blast
qed

lemma adds_below_up: "adds_below (dir @ [name]) s s' \<Longrightarrow> adds_below dir s s'"
  unfolding adds_below_def by (meson append_prefixD)

lemma walk_step:
  assumes "walk (Suc n) sd q dir seen = (None, seen')" "\<forall>d. sd_real sd d = Some d" "dir \<notin> set seen"
  obtains "sd_entries sd dir = None" "seen' = dir # seen"
    | es where "sd_entries sd dir = Some es" "file_here sd q dir es = None"
        "search_each (\<lambda>name. walk n sd q (dir @ [name])) (folders q es) (dir # seen) = (None, seen')"
  using assms by (auto split: option.splits)

lemma walk_adds:
  assumes real: "\<forall>d. sd_real sd d = Some d"
  shows "walk n sd q dir seen = (None, seen') \<Longrightarrow> adds_below dir seen seen'"
proof (induction n arbitrary: dir seen seen')
  case (Suc n)
  show ?case
  proof (cases "dir \<in> set seen")
    case True
    with Suc.prems real show ?thesis by (simp add: adds_below_def)
  next
    case False
    from Suc.prems real False show ?thesis
    proof (rule walk_step)
      assume "seen' = dir # seen"
      then show ?thesis by (auto simp: adds_below_def)
    next
      fix es assume "search_each (\<lambda>name. walk n sd q (dir @ [name])) (folders q es) (dir # seen) = (None, seen')"
      then have "adds_below dir (dir # seen) seen'"
        by (rule search_each_adds) (blast intro: adds_below_up Suc.IH)
      then show ?thesis by (auto simp: adds_below_def)
    qed
  qed
qed (simp add: adds_below_def)

lemma walk_visits:
  assumes real: "\<forall>d. sd_real sd d = Some d" and w: "walk (Suc n) sd q dir seen = (None, seen')"
  shows "dir \<in> set seen'"
proof (cases "dir \<in> set seen")
  case True
  with w real show ?thesis by simp
next
  case False
  from w real False show ?thesis
  proof (rule walk_step)
    fix es assume "search_each (\<lambda>name. walk n sd q (dir @ [name])) (folders q es) (dir # seen) = (None, seen')"
    then have "adds_below dir (dir # seen) seen'"
      by (rule search_each_adds) (blast intro: adds_below_up walk_adds [OF real])
    then show ?thesis by (simp add: adds_below_def)
  qed simp
qed

lemma no_match_child:
  assumes "no_match_below sd q n (dir @ [name]) s'" "adds_below (dir @ [name]) s s'"
    and "\<forall>d \<in> set s. strict_prefix dir d \<longrightarrow> \<not> holds_match (Suc n - (length d - length dir)) sd q d"
  shows "\<forall>d \<in> set s'. strict_prefix dir d \<longrightarrow> \<not> holds_match (Suc n - (length d - length dir)) sd q d"
proof (intro ballI impI)
  fix d assume d: "d \<in> set s'" "strict_prefix dir d"
  show "\<not> holds_match (Suc n - (length d - length dir)) sd q d"
  proof (cases "prefix (dir @ [name]) d")
    case True
    then have "length d \<ge> Suc (length dir)" using prefix_length_le [OF True] by simp
    then have "Suc n - (length d - length dir) = n - (length d - length (dir @ [name]))" by simp
    moreover have "\<not> holds_match (n - (length d - length (dir @ [name]))) sd q d"
      using True d(1) assms(1) unfolding no_match_below_def by blast
    ultimately show ?thesis by (simp only: not_False_eq_True)
  next
    case False
    with d assms(2,3) show ?thesis by (auto simp: adds_below_def)
  qed
qed

lemma walk_misses_nothing:
  assumes real: "\<forall>d. sd_real sd d = Some d"
  shows "walk n sd q dir seen = (None, seen') \<Longrightarrow> no_match_below sd q n dir seen \<Longrightarrow> no_match_below sd q n dir seen'"
proof (induction n arbitrary: dir seen seen')
  case 0
  then show ?case by simp
next
  case (Suc n)
  show ?case
  proof (cases "dir \<in> set seen")
    case True
    with Suc.prems real show ?thesis by simp
  next
    case False
    let ?J = "\<lambda>s. \<forall>d \<in> set s. strict_prefix dir d \<longrightarrow> \<not> holds_match (Suc n - (length d - length dir)) sd q d"
    have start: "?J (dir # seen)" using Suc.prems(2) by (auto simp: no_match_below_def strict_prefix_def)
    from Suc.prems(1) real False show ?thesis
    proof (rule walk_step)
      assume "sd_entries sd dir = None" "seen' = dir # seen"
      then show ?thesis using start by (auto simp: no_match_below_def strict_prefix_def)
    next
      fix es assume es: "sd_entries sd dir = Some es" "file_here sd q dir es = None"
        and each: "search_each (\<lambda>name. walk n sd q (dir @ [name])) (folders q es) (dir # seen) = (None, seen')"
      have child: "no_match_below sd q n (dir @ [name]) s'"
        if "?J s" "walk n sd q (dir @ [name]) s = (None, s')" for name s s'
      proof (rule Suc.IH [OF that(2)], unfold no_match_below_def, intro ballI impI)
        fix d assume d: "d \<in> set s" "prefix (dir @ [name]) d"
        then have "length d \<ge> Suc (length dir)" "strict_prefix dir d"
          using prefix_length_le [OF d(2)] by (auto simp: strict_prefix_def dest: append_prefixD)
        moreover from this have "Suc n - (length d - length dir) = n - (length d - length (dir @ [name]))" by simp
        ultimately show "\<not> holds_match (n - (length d - length (dir @ [name]))) sd q d"
          using that(1) d(1) by metis
      qed
      have keeps: "?J s'" if "?J s" "walk n sd q (dir @ [name]) s = (None, s')" for name s s'
        by (rule no_match_child [OF child [OF that] walk_adds [OF real that(2)] that(1)])
      have all: "?J seen'" by (rule search_each_none [OF each, where I = ?J]) (use start keeps in blast)+
      have none: "\<not> holds_match n sd q (dir @ [name])" if name: "name \<in> set (folders q es)" for name
      proof (cases n)
        case (Suc m)
        obtain s s' where "walk n sd q (dir @ [name]) s = (None, s')" "set s' \<subseteq> set seen'"
          using search_each_all [OF each name] walk_adds [OF real] unfolding adds_below_def by blast
        with walk_visits [OF real] Suc have "dir @ [name] \<in> set seen'" by blast
        with all show ?thesis by (force simp: strict_prefix_def)
      qed simp
      show ?thesis unfolding no_match_below_def
      proof (intro ballI impI)
        fix d assume d: "d \<in> set seen'" "prefix dir d"
        show "\<not> holds_match (Suc n - (length d - length dir)) sd q d"
        proof (cases "d = dir")
          case True
          with es none show ?thesis by simp
        next
          case False
          with all d show ?thesis by (simp add: strict_prefix_def)
        qed
      qed
    qed
  qed
qed


definition walked_without_match :: "source_disk \<Rightarrow> search_request \<Rightarrow> string list list \<Rightarrow> bool" where
  "walked_without_match sd q seen = (\<forall>s \<in> set seen. s \<noteq> [] \<and> \<not> holds_match (Suc (Suc max_depth) - length s) sd q s)"

lemma root_walked:
  assumes real: "\<forall>d. sd_real sd d = Some d"
    and w: "search_root sd q [r] seen = (None, seen')" "walked_without_match sd q seen"
  shows "walked_without_match sd q seen'"
proof (cases "sd_exists sd [r]")
  case True
  then have walk: "walk (Suc max_depth) sd q [r] seen = (None, seen')" using w(1) by (simp only: search_root_def if_True)
  have below: "no_match_below sd q (Suc max_depth) [r] seen"
    unfolding no_match_below_def
  proof (intro ballI impI)
    fix s assume "s \<in> set seen" "prefix [r] s"
    moreover from this have "Suc max_depth - (length s - length [r]) = Suc (Suc max_depth) - length s"
      using prefix_length_le [of "[r]" s] by simp
    ultimately show "\<not> holds_match (Suc max_depth - (length s - length [r])) sd q s"
      using w(2) unfolding walked_without_match_def by metis
  qed
  note after = walk_misses_nothing [OF real walk below]
  show ?thesis unfolding walked_without_match_def
  proof
    fix s assume s: "s \<in> set seen'"
    show "s \<noteq> [] \<and> \<not> holds_match (Suc (Suc max_depth) - length s) sd q s"
    proof (cases "s \<in> set seen")
      case False
      with s walk_adds [OF real walk] have p: "prefix [r] s" by (auto simp: adds_below_def)
      then have "Suc max_depth - (length s - length [r]) = Suc (Suc max_depth) - length s" "s \<noteq> []"
        using prefix_length_le [OF p] by auto
      with after s p show ?thesis unfolding no_match_below_def by metis
    qed (use w(2) in \<open>auto simp: walked_without_match_def\<close>)
  qed
next
  case False
  with w show ?thesis by (simp add: search_root_def)
qed

lemma search_each_append:
  "search_each f (xs @ ys) seen = (None, seen') \<longleftrightarrow> (\<exists>s. search_each f xs seen = (None, s) \<and> search_each f ys s = (None, seen'))"
  by (induction f xs seen rule: search_each.induct) (auto split: prod.splits option.splits)

lemma search_root_keeps:
  "\<forall>d. sd_real sd d = Some d \<Longrightarrow> search_root sd q dir s = (None, s') \<Longrightarrow> set s \<subseteq> set s'"
  using walk_adds [of sd "Suc max_depth" q dir s s'] by (auto simp only: search_root_def adds_below_def split: if_splits)

lemma no_match_from_root:
  assumes "walked_without_match sd q seen"
  shows "no_match_below sd q (Suc max_depth) [] seen"
  unfolding no_match_below_def
proof (intro ballI impI notI)
  fix s assume "s \<in> set seen" and h: "holds_match (Suc max_depth - (length s - length [])) sd q s"
  with assms have n: "\<not> holds_match (Suc (Suc max_depth) - length s) sd q s" by (simp add: walked_without_match_def)
  show False
  proof (cases "length s \<le> Suc max_depth")
    case True
    then have "Suc (Suc max_depth) - length s = Suc (Suc max_depth - (length s - length []))" by simp
    with n holds_match_mono [OF h] show False by metis
  next
    case False
    with h show False by simp
  qed
qed

theorem search_misses_nothing:
  assumes real: "\<forall>d. sd_real sd d = Some d"
    and base: "base \<in> set source_search_dirs" "sd_exists sd base" "sd_exists sd []"
    and some: "holds_match (Suc max_depth) sd q base"
  shows "find_source_file sd q \<noteq> None"
proof
  assume "find_source_file sd q = None"
  then obtain s2 where "search_each (search_root sd q) (map (\<lambda>d. [d]) privileged_dirs @ [[]]) [] = (None, s2)"
    by (cases "search_each (search_root sd q) source_search_dirs []") (simp add: find_source_file_def source_search_dirs_def)
  then obtain s1 where s1: "search_each (search_root sd q) (map (\<lambda>d. [d]) privileged_dirs) [] = (None, s1)"
    and "search_each (search_root sd q) [[]] s1 = (None, s2)"
    unfolding search_each_append by blast
  then have s2: "walk (Suc max_depth) sd q [] s1 = (None, s2)"
    using base(3) by (auto simp: search_root_def simp del: walk.simps split: prod.splits option.splits)
  have walked: "walked_without_match sd q s1"
  proof (rule search_each_none [OF s1, where I = "walked_without_match sd q"])
    show "walked_without_match sd q []" by (simp add: walked_without_match_def)
    show "walked_without_match sd q s'"
      if "dir \<in> set (map (\<lambda>d. [d]) privileged_dirs)" "walked_without_match sd q s" "search_root sd q dir s = (None, s')" for dir s s'
      using that root_walked [OF real] by auto
  qed
  show False
  proof (cases "base = []")
    case True
    have "no_match_below sd q (Suc max_depth) [] s1"
      using no_match_from_root [OF walked] .
    from walk_misses_nothing [OF real s2 this] walk_visits [OF real s2] some True show False
      unfolding no_match_below_def by auto
  next
    case False
    then have "base \<in> set (map (\<lambda>d. [d]) privileged_dirs)" using base(1) by (auto simp: source_search_dirs_def)
    then obtain s s' where "search_root sd q base s = (None, s')" "set s' \<subseteq> set s1"
      using search_each_all [OF s1] search_root_keeps [OF real] by blast
    moreover from this base(2) have "walk (Suc max_depth) sd q base s = (None, s')" by (simp only: search_root_def if_True)
    ultimately have "base \<in> set s1" using walk_visits [OF real] by blast
    moreover have "length base = 1" using False base(1) by (auto simp: source_search_dirs_def)
    ultimately show False using walked some by (auto simp: walked_without_match_def)
  qed
qed

text \<open>
  C27. The search is complete and correct within its depth: when a file that matches lies below an
  existing search directory, outside the skipped directories and no deeper than the limit, some
  file is found, and what is found is such a file.
\<close>

theorem search_finds_a_source:
  assumes "\<forall>d. sd_real sd d = Some d"
    and "base \<in> set source_search_dirs" "sd_exists sd base" "sd_exists sd []" "holds_match (Suc max_depth) sd q base"
  shows "\<exists>p. find_source_file sd q = Some p \<and>
    (\<exists>base \<in> set source_search_dirs. sd_exists sd base \<and> names_a_match sd q max_depth base p)"
  using search_misses_nothing [OF assms] found_file_matches by blast

definition sample_source_disk :: source_disk where
  "sample_source_disk = \<lparr>sd_exists = (\<lambda>d. d = [] \<or> d = [''lib'']), sd_real = Some,
     sd_entries = (\<lambda>d. if d = [] then Some [Dir_entry ''.impeccable'', Dir_entry ''lib'']
       else if d = [''lib''] then Some [Dir_entry ''web'', File_entry ''mix.exs'']
       else if d = [''lib'', ''web''] then Some [File_entry ''page.heex''] else None),
     sd_text = (\<lambda>p. if p = [''lib'', ''web'', ''page.heex''] then Some ''<p>here</p>'' else None)\<rparr>"

definition heex_request :: search_request where
  "heex_request = query_search ''here'' live_template_extensions (\<lambda>_. False) False"

lemma search_finds_a_source_witness:
  "\<exists>p. find_source_file sample_source_disk heex_request = Some p \<and>
    (\<exists>base \<in> set source_search_dirs. sd_exists sample_source_disk base \<and> names_a_match sample_source_disk heex_request max_depth base p)"
proof (rule search_finds_a_source [of _ "[''lib'']"])
  show "\<forall>d. sd_real sample_source_disk d = Some d" by (simp add: sample_source_disk_def)
  show "[''lib''] \<in> set source_search_dirs" "sd_exists sample_source_disk [''lib'']" "sd_exists sample_source_disk []"
    "holds_match (Suc max_depth) sample_source_disk heex_request [''lib'']" by code_simp+
qed

end
