(* ===== verification/Inject_Tag.thy ===== *)
theory Inject_Tag
  imports Live_Wrap
begin

text \<open>
  \<open>live/frameworks/tag-strategy.mjs\<close> and \<open>script-src.mjs\<close>: the block with the live
  script that is put into a page and taken out again, and the origins added to a
  content security policy in the page. The token of a script address is already
  percent-encoded; a policy holds no dollar signs, which the replacement texts of
  \<open>replace\<close> would interpret.
\<close>

section \<open>The script block\<close>

definition marker_open_text :: string where "marker_open_text = ''impeccable-live-start''"
definition marker_close_text :: string where "marker_close_text = ''impeccable-live-end''"

definition csp_marker_attr :: string where "csp_marker_attr = ''data-impeccable-csp-original''"

definition tag_patch_markers :: "string list" where
  "tag_patch_markers = [marker_open_text, csp_marker_attr]"

definition build_live_script_src :: "string \<Rightarrow> string \<Rightarrow> string" where
  \<comment> \<open>an empty token is none\<close>
  "build_live_script_src port token =
    ''http://localhost:'' @ port @ ''/live.js'' @ (if token = [] then [] else ''?token='' @ token)"

definition build_tag_block :: "bool \<Rightarrow> string \<Rightarrow> string \<Rightarrow> string \<Rightarrow> string" where
  "build_tag_block jsx port token scriptAttrs =
    comment jsx marker_open_text @ [line_feed] @
    ''<script '' @ scriptAttrs @ quoted_attr ''src'' (build_live_script_src port token) @ ''></script>'' @ [line_feed] @
    comment jsx marker_close_text @ [line_feed]"

abbreviation carriage_return :: char where
  "carriage_return \<equiv> char_of (13 :: nat)"

definition detect_line_ending :: "string \<Rightarrow> string" where
  "detect_line_ending s =
    (if has_sub s [carriage_return, line_feed] then [carriage_return, line_feed]
     else if carriage_return \<in> set s then [carriage_return] else [line_feed])"

definition normalize_line_endings :: "string \<Rightarrow> string \<Rightarrow> string" where
  "normalize_line_endings s ending = (if ending = [line_feed] then s else concat (map (\<lambda>c. if c = line_feed then ending else [c]) s))"

definition read_line_ending :: "string \<Rightarrow> string" where
  \<comment> \<open>at the beginning of the text\<close>
  "read_line_ending s = (if starts_with s [carriage_return, line_feed] then [carriage_return, line_feed]
     else case s of c # _ \<Rightarrow> if c = line_feed \<or> c = carriage_return then [c] else [] | [] \<Rightarrow> [])"

definition index_of :: "string \<Rightarrow> string \<Rightarrow> nat option" where
  "index_of s w = (if w = [] then Some 0 else first_at (\<lambda>t. if starts_with t w then 1 else 0) s)"

definition last_index_of :: "string \<Rightarrow> string \<Rightarrow> nat option" where
  "last_index_of s w = map_option (\<lambda>i. length s - i - length w) (index_of (rev s) (rev w))"

record inject_config =
  ic_before :: string
  ic_after :: string
  ic_jsx :: bool

text \<open>An anchor that is not configured is empty; one of the two is.\<close>

definition insert_tag :: "string \<Rightarrow> inject_config \<Rightarrow> string \<Rightarrow> string \<Rightarrow> string \<Rightarrow> string" where
  "insert_tag s cfg port token scriptAttrs =
    (let ending = detect_line_ending s;
         block = normalize_line_endings (build_tag_block (ic_jsx cfg) port token scriptAttrs) ending in
     if ic_before cfg \<noteq> []
     then (case last_index_of s (ic_before cfg) of None \<Rightarrow> s | Some i \<Rightarrow> take i s @ block @ drop i s)
     else (case index_of s (ic_after cfg) of None \<Rightarrow> s
         | Some i \<Rightarrow>
           let after = i + length (ic_after cfg); existing = read_line_ending (drop after s) in
           take after s @ (if existing \<noteq> [] then existing else ending) @ block @ drop (after + length existing) s))"

lemma tab_char: "char_of (9 :: nat) = CHR 0x09" and return_char: "carriage_return = CHR 0x0D" and newline_char: "line_feed = CHR 0x0A"
  by code_simp+

section \<open>Taking it out\<close>

definition is_blank :: "char \<Rightarrow> bool" where
  \<comment> \<open>a space or a tabulator\<close>
  "is_blank c = (c = CHR '' '' \<or> c = char_of (9 :: nat))"

definition marker_comment :: "bool \<Rightarrow> string \<Rightarrow> string \<Rightarrow> string option" where
  \<comment> \<open>a comment that holds the marker, with any white space around it\<close>
  "marker_comment jsx marker s =
    Option.bind (strip (if jsx then ''{/*'' else ''<!--'') s) (\<lambda>s. Option.bind (strip marker (skip_ws s)) (\<lambda>s.
      strip (if jsx then ''*/}'' else ''-->'') (skip_ws s)))"

fun after_close :: "bool \<Rightarrow> string \<Rightarrow> string option" where
  \<comment> \<open>what follows the first closing marker\<close>
  "after_close jsx [] = None"
| "after_close jsx (c # s) =
    (case marker_comment jsx marker_close_text (c # s) of Some r \<Rightarrow> Some r | None \<Rightarrow> after_close jsx s)"

definition trailing_end :: "string \<Rightarrow> string \<times> string" where
  \<comment> \<open>\<open>[ \t]*(?:\r\n|\n|\r|$)?\<close>: what it matches and what comes after\<close>
  "trailing_end s = (let blanks = takeWhile is_blank s; r = dropWhile is_blank s; ending = read_line_ending r
     in (blanks @ ending, drop (length ending) r))"

definition block_replacement :: "string \<Rightarrow> string \<Rightarrow> string" where
  "block_replacement indent trailing =
    (if line_feed \<in> set trailing \<or> carriage_return \<in> set trailing \<or> indent \<noteq> [] then indent else trailing)"

definition live_block :: "bool \<Rightarrow> string \<Rightarrow> (string \<times> string) option" where
  \<comment> \<open>a block at the position: what replaces it, and what comes after it\<close>
  "live_block jsx s =
    Option.bind (marker_comment jsx marker_open_text (dropWhile is_blank s)) (\<lambda>t. Option.bind (after_close jsx t) (\<lambda>t.
      Some (block_replacement (takeWhile is_blank s) (fst (trailing_end t)), snd (trailing_end t))))"

fun remove_block :: "bool \<Rightarrow> string \<Rightarrow> string option" where
  \<comment> \<open>without the first block\<close>
  "remove_block jsx [] = None"
| "remove_block jsx (c # s) =
    (case live_block jsx (c # s) of Some (r, t) \<Rightarrow> Some (r @ t) | None \<Rightarrow> map_option (Cons c) (remove_block jsx s))"

lemma strip_iff: "strip w s = Some r \<longleftrightarrow> s = w @ r"
  by (auto simp: strip_def starts_with_split)

lemma strip_length: "strip w s = Some r \<Longrightarrow> length r + length w = length s"
  by (simp add: strip_iff)

lemma marker_comment_shorter: "marker_comment jsx m s = Some r \<Longrightarrow> length r < length s"
proof -
  assume "marker_comment jsx m s = Some r"
  then obtain a b where "strip (if jsx then ''{/*'' else ''<!--'') s = Some a" "strip m (skip_ws a) = Some b"
    "strip (if jsx then ''*/}'' else ''-->'') (skip_ws b) = Some r"
    by (auto simp: marker_comment_def bind_eq_Some_conv)
  from this [THEN strip_length] show ?thesis
    using length_dropWhile_le [of is_ws a] length_dropWhile_le [of is_ws b] by (auto simp: skip_ws_def split: if_splits)
qed

lemma after_close_shorter: "after_close jsx s = Some r \<Longrightarrow> length r < length s"
  by (induction jsx s rule: after_close.induct) (auto split: option.splits dest: marker_comment_shorter)

lemma trailing_end_split: "fst (trailing_end s) @ snd (trailing_end s) = s"
proof -
  have "read_line_ending r @ drop (length (read_line_ending r)) r = r" for r
    by (auto simp: read_line_ending_def starts_with_split split: list.splits)
  then show ?thesis by (simp add: trailing_end_def Let_def)
qed

lemma live_block_shorter: "live_block jsx s = Some (r, t) \<Longrightarrow> length r + length t < length s"
proof -
  assume b: "live_block jsx s = Some (r, t)"
  let ?i = "takeWhile is_blank s"
  obtain a c where a: "marker_comment jsx marker_open_text (dropWhile is_blank s) = Some a" and c: "after_close jsx a = Some c"
    and t: "t = snd (trailing_end c)" "r \<in> {?i, fst (trailing_end c)}"
    using b by (auto simp: live_block_def bind_eq_Some_conv block_replacement_def)
  have "length s = length ?i + length (dropWhile is_blank s)" by (metis length_append takeWhile_dropWhile_id)
  moreover have "length (fst (trailing_end c)) + length t = length c"
    using arg_cong [OF trailing_end_split [of c], of length] t(1) by simp
  ultimately show ?thesis using marker_comment_shorter [OF a] after_close_shorter [OF c] t(2) by auto
qed

lemma remove_block_shorter: "remove_block jsx s = Some t \<Longrightarrow> length t < length s"
  by (induction jsx s arbitrary: t rule: remove_block.induct) (auto split: option.splits prod.splits dest: live_block_shorter)

function remove_blocks :: "bool \<Rightarrow> string \<Rightarrow> string" where
  \<comment> \<open>until there is none\<close>
  "remove_blocks jsx s = (case remove_block jsx s of None \<Rightarrow> s | Some t \<Rightarrow> remove_blocks jsx t)"
  by auto

termination
  by (relation "measure (\<lambda>(jsx, s). length s)") (simp_all add: remove_block_shorter)

declare remove_blocks.simps [simp del]

definition remove_tag :: "string \<Rightarrow> string" where
  \<comment> \<open>blocks with either comment syntax, whatever the configuration says\<close>
  "remove_tag s = (if remove_block False s \<noteq> None then remove_blocks False s else remove_blocks True s)"

section \<open>Inserting and removing\<close>

definition holds_marker :: "string \<Rightarrow> bool" where
  "holds_marker s = has_sub s marker_open_text"

lemma no_block_without_marker: "\<not> holds_marker s \<Longrightarrow> remove_block jsx s = None"
proof (induction s)
  case (Cons c s)
  have "live_block jsx (c # s) = None"
  proof (rule ccontr)
    assume "live_block jsx (c # s) \<noteq> None"
    then obtain a where "marker_comment jsx marker_open_text (dropWhile is_blank (c # s)) = Some a"
      by (auto simp: live_block_def Let_def bind_eq_Some_conv)
    then obtain x y where x: "strip (if jsx then ''{/*'' else ''<!--'') (dropWhile is_blank (c # s)) = Some x"
      "strip marker_open_text (skip_ws x) = Some y" by (auto simp: marker_comment_def bind_eq_Some_conv)
    then have "skip_ws x = [] @ marker_open_text @ y" by (simp add: strip_iff)
    then have "has_sub (skip_ws x) marker_open_text" unfolding has_sub_split by blast
    then have "has_sub x marker_open_text" unfolding skip_ws_def dropWhile_eq_drop by (rule has_sub_drop)
    moreover have "x = drop (length (if jsx then ''{/*'' else ''<!--'')) (dropWhile is_blank (c # s))"
      using x(1) by (simp add: strip_iff)
    ultimately have "has_sub (dropWhile is_blank (c # s)) marker_open_text" using has_sub_drop by metis
    then have "has_sub (c # s) marker_open_text" unfolding dropWhile_eq_drop by (rule has_sub_drop)
    with Cons.prems show False by (simp add: holds_marker_def)
  qed
  moreover have "\<not> holds_marker s" using Cons.prems by (simp add: holds_marker_def)
  ultimately show ?case using Cons.IH by simp
qed simp

theorem remove_tag_without_marker: "\<not> holds_marker s \<Longrightarrow> remove_tag s = s"
  by (simp add: remove_tag_def no_block_without_marker remove_blocks.simps [of True s])

lemma marker_not_across:
  assumes "\<not> has_sub d m" "d \<noteq> []" "m \<in> {marker_open_text, marker_close_text}" "h = hd (if jsx then ''{/*'' else ''<!--'')"
  shows "marker_comment jsx m (d @ h # x) = None"
proof (rule ccontr)
  let ?o = "if jsx then ''{/*'' else ''<!--''"
  assume "marker_comment jsx m (d @ h # x) \<noteq> None"
  then obtain a y where "strip ?o (d @ h # x) = Some a" "strip m (skip_ws a) = Some y"
    by (auto simp: marker_comment_def bind_eq_Some_conv)
  then have "d @ h # x = (?o @ takeWhile is_ws a @ m) @ y"
    using takeWhile_dropWhile_id [of is_ws a] by (auto simp: strip_iff skip_ws_def)
  moreover define p where "p = ?o @ takeWhile is_ws a @ m"
  ultimately have "d @ h # x = p @ y" by simp
  then consider u where "d = p @ u" | u where "p = d @ u" "u @ y = h # x" by (auto simp: append_eq_append_conv2)
  then have "(\<exists>u. d = (?o @ takeWhile is_ws a @ m) @ u) \<or> (\<exists>u. ?o @ takeWhile is_ws a @ m = d @ u \<and> u @ y = h # x)"
    unfolding p_def by cases blast+
  then consider u where "d = (?o @ takeWhile is_ws a @ m) @ u" | u where "?o @ takeWhile is_ws a @ m = d @ u" "u @ y = h # x"
    by blast
  then show False
  proof cases
    case 1
    then have "has_sub d m" unfolding has_sub_split by (metis append.assoc)
    with assms(1) show False by simp
  next
    case 2
    show False
    proof (cases u)
      case Nil
      with 2(1) have "d = (?o @ takeWhile is_ws a) @ m @ []" by simp
      then have "has_sub d m" unfolding has_sub_split by blast
      with assms(1) show False by simp
    next
      case (Cons c u')
      with 2(2) have "c = h" by simp
      moreover have "tl (?o @ takeWhile is_ws a @ m) = tl d @ u" using 2(1) assms(2) by (metis tl_append2)
      ultimately have h: "h \<in> set (tl (?o @ takeWhile is_ws a @ m))" using Cons by simp
      have "\<not> is_ws h" using assms(4) by (cases jsx) (simp_all add: is_ws_def)
      then have "h \<notin> set (takeWhile is_ws a)" by (meson set_takeWhileD)
      moreover have "h \<notin> set m" using assms(3,4) by (cases jsx) (auto simp: marker_open_text_def marker_close_text_def)
      moreover have "h \<notin> set (tl ?o)" using assms(4) by (cases jsx) simp_all
      ultimately show False using h by (cases jsx) auto
    qed
  qed
qed

lemma marker_comment_found:
  assumes "m \<in> {marker_open_text, marker_close_text}"
  shows "marker_comment jsx m (comment jsx m @ t) = Some t"
proof -
  have "skip_ws (CHR '' '' # m @ u) = m @ u" for u using assms by (auto simp: skip_ws_def is_ws_def marker_open_text_def marker_close_text_def)
  moreover have "skip_ws (CHR '' '' # ''*/}'' @ u) = ''*/}'' @ u" "skip_ws (CHR '' '' # ''-->'' @ u) = ''-->'' @ u" for u
    by (simp_all add: skip_ws_def is_ws_def)
  ultimately show ?thesis by (cases jsx) (auto simp: marker_comment_def comment_def bind_eq_Some_conv strip_iff)
qed

lemma comment_head: "\<exists>x. comment jsx m @ t = hd (if jsx then ''{/*'' else ''<!--'') # x"
  by (simp add: comment_def)

lemma after_close_skips:
  "\<not> has_sub p marker_close_text \<Longrightarrow> after_close jsx (p @ comment jsx marker_close_text @ t) = Some t"
proof (induction p)
  case Nil
  obtain c x where cx: "comment jsx marker_close_text @ t = c # x" using comment_head by blast
  then show ?case using marker_comment_found [of marker_close_text jsx t] by simp
next
  case (Cons c p)
  have "marker_comment jsx marker_close_text ((c # p) @ comment jsx marker_close_text @ t) = None"
    using marker_not_across [OF Cons.prems] comment_head [of jsx marker_close_text t] by fastforce
  moreover have "\<not> has_sub p marker_close_text" using Cons.prems by simp
  ultimately show ?case using Cons.IH by simp
qed

lemma trailing_newline:
  assumes "ending \<in> {[line_feed], [carriage_return, line_feed]}"
  shows "trailing_end (ending @ t) = (ending, t)"
  using assms by (auto simp: trailing_end_def is_blank_def read_line_ending_def starts_with_def newline_char return_char tab_char)

lemma live_block_found:
  assumes "\<forall>c \<in> set a. is_blank c" "\<not> has_sub mid marker_close_text" "ending \<in> {[line_feed], [carriage_return, line_feed]}"
  shows "live_block jsx (a @ comment jsx marker_open_text @ mid @ comment jsx marker_close_text @ ending @ t) = Some (a, t)"
proof -
  let ?b = "comment jsx marker_open_text @ mid @ comment jsx marker_close_text @ ending @ t"
  obtain x where x: "?b = hd (if jsx then ''{/*'' else ''<!--'') # x" using comment_head by blast
  have "\<not> is_blank (hd (if jsx then ''{/*'' else ''<!--''))" by (cases jsx) (simp_all add: is_blank_def tab_char)
  then have "dropWhile is_blank (a @ ?b) = ?b" "takeWhile is_blank (a @ ?b) = a"
    unfolding x using assms(1) by (simp_all add: dropWhile_append takeWhile_append)
  moreover have "marker_comment jsx marker_open_text ?b = Some (mid @ comment jsx marker_close_text @ ending @ t)"
    by (rule marker_comment_found) simp
  moreover have "line_feed \<in> set ending" using assms(3) by auto
  ultimately show ?thesis
    using after_close_skips [OF assms(2)] trailing_newline [OF assms(3)] by (simp add: live_block_def block_replacement_def)
qed

lemma remove_block_found:
  assumes "\<not> holds_marker a" "\<not> has_sub mid marker_close_text" "ending \<in> {[line_feed], [carriage_return, line_feed]}"
  shows "remove_block jsx (a @ comment jsx marker_open_text @ mid @ comment jsx marker_close_text @ ending @ t) = Some (a @ t)"
  using assms(1)
proof (induction a)
  case Nil
  obtain c x where cx: "comment jsx marker_open_text @ mid @ comment jsx marker_close_text @ ending @ t = c # x"
    using comment_head by blast
  then show ?case using live_block_found [of "[]", OF _ assms(2,3), of jsx t] by simp
next
  case (Cons c a)
  let ?b = "comment jsx marker_open_text @ mid @ comment jsx marker_close_text @ ending @ t"
  show ?case
  proof (cases "\<forall>d \<in> set (c # a). is_blank d")
    case True
    from live_block_found [OF this assms(2,3), of jsx t] show ?thesis by simp
  next
    case False
    let ?d = "dropWhile is_blank (c # a)"
    have "dropWhile is_blank ((c # a) @ ?b) = ?d @ ?b" using False dropWhile_append1 [of _ "c # a" is_blank ?b] by blast
    moreover have "?d \<noteq> []" using False by (simp add: dropWhile_eq_Nil_conv)
    moreover have "\<not> has_sub ?d marker_open_text"
      using Cons.prems has_sub_drop unfolding holds_marker_def dropWhile_eq_drop by blast
    ultimately have "live_block jsx ((c # a) @ ?b) = None"
      using marker_not_across [of ?d marker_open_text] comment_head [of jsx marker_open_text "mid @ comment jsx marker_close_text @ ending @ t"]
      by (fastforce simp: live_block_def)
    moreover have "\<not> holds_marker a" using Cons.prems by (simp add: holds_marker_def)
    ultimately show ?thesis using Cons.IH by simp
  qed
qed

lemma normalized_block:
  assumes "line_feed \<notin> set s" "ending \<in> {[line_feed], [carriage_return, line_feed]}"
  shows "normalize_line_endings s ending = s"
proof -
  have "concat (map (\<lambda>c. if c = line_feed then ending else [c]) s) = s" using assms(1) by (induction s) auto
  then show ?thesis by (simp add: normalize_line_endings_def)
qed

definition script_line :: "string \<Rightarrow> string \<Rightarrow> string \<Rightarrow> string" where
  "script_line port token scriptAttrs = ''<script '' @ scriptAttrs @ quoted_attr ''src'' (build_live_script_src port token) @ ''></script>''"

lemma inserted_before:
  assumes "ic_before cfg \<noteq> []" "insert_tag s cfg port token scriptAttrs \<noteq> s"
  shows "\<exists>i. insert_tag s cfg port token scriptAttrs =
    take i s @ normalize_line_endings (build_tag_block (ic_jsx cfg) port token scriptAttrs) (detect_line_ending s) @ drop i s"
  using assms by (auto simp: insert_tag_def Let_def split: option.splits)

lemma normalize_append: "normalize_line_endings (a @ b) e = normalize_line_endings a e @ normalize_line_endings b e"
  by (simp add: normalize_line_endings_def)

lemma normalize_feed: "normalize_line_endings (line_feed # s) e = e @ normalize_line_endings s e" "normalize_line_endings [] e = []"
  by (simp_all add: normalize_line_endings_def)

lemma normal_tag_block:
  assumes "line_feed \<notin> set (script_line port token scriptAttrs)" "ending \<in> {[line_feed], [carriage_return, line_feed]}"
  shows "normalize_line_endings (build_tag_block jsx port token scriptAttrs) ending =
    comment jsx marker_open_text @ (ending @ script_line port token scriptAttrs @ ending) @ comment jsx marker_close_text @ ending"
proof -
  have c: "line_feed \<notin> set (comment jsx m)" if "m \<in> {marker_open_text, marker_close_text}" for m
    using that by (auto simp: comment_def marker_open_text_def marker_close_text_def newline_char)
  have "build_tag_block jsx port token scriptAttrs = comment jsx marker_open_text @ [line_feed] @ script_line port token scriptAttrs @
      [line_feed] @ comment jsx marker_close_text @ [line_feed]"
    by (simp add: build_tag_block_def script_line_def)
  then show ?thesis
    using normalized_block [OF c assms(2)] normalized_block [OF assms] by (simp add: normalize_append normalize_feed)
qed

lemma has_sub_before:
  assumes "has_sub (l @ e) m" "m \<noteq> []" "set e \<inter> set m = {}"
  shows "has_sub l m"
proof -
  obtain a b where "l @ e = a @ m @ b" using assms(1) by (auto simp: has_sub_split)
  then consider u where "u @ m @ b = e" | u where "l = a @ u" "u @ e = m @ b" by (auto simp: append_eq_append_conv2)
  then show ?thesis
  proof cases
    case 1
    with assms(2,3) show ?thesis by (cases m) auto
  next
    case 2
    then consider v where "u = m @ v" | v where "m = u @ v" "v @ b = e" by (auto simp: append_eq_append_conv2)
    then show ?thesis
    proof cases
      case 1
      with 2 show ?thesis unfolding has_sub_split by blast
    next
      case vb: 2
      then have "set v \<subseteq> set e \<inter> set m" by auto
      with assms(3) have "v = []" by auto
      with vb 2 show ?thesis unfolding has_sub_split by (metis append_Nil2)
    qed
  qed
qed

lemma no_comment_no_block: "\<not> has_sub s ''<!--'' \<Longrightarrow> remove_block False s = None"
proof (induction s)
  case (Cons c s)
  have "live_block False (c # s) = None"
  proof (rule ccontr)
    assume "live_block False (c # s) \<noteq> None"
    then obtain x where "strip ''<!--'' (dropWhile is_blank (c # s)) = Some x"
      by (auto simp: live_block_def marker_comment_def bind_eq_Some_conv)
    then have "dropWhile is_blank (c # s) = [] @ ''<!--'' @ x" by (simp add: strip_iff)
    then have "has_sub (dropWhile is_blank (c # s)) ''<!--''" unfolding has_sub_split by blast
    then have "has_sub (c # s) ''<!--''" unfolding dropWhile_eq_drop by (rule has_sub_drop)
    with Cons.prems show False by simp
  qed
  moreover have "\<not> has_sub s ''<!--''" using Cons.prems by simp
  ultimately show ?case using Cons.IH by simp
qed simp

text \<open>
  Removing the live script undoes inserting it before an anchor: the page is again what it was,
  character for character, with line feeds or with carriage returns and line feeds, whichever
  comment syntax the configuration names.
\<close>

theorem remove_undoes_insert:
  assumes clean: "\<not> holds_marker s" and before: "ic_before cfg \<noteq> []" and ending: "detect_line_ending s \<noteq> [carriage_return]"
    and script: "\<not> has_sub (script_line port token scriptAttrs) marker_close_text" "line_feed \<notin> set (script_line port token scriptAttrs)"
    and jsx: "ic_jsx cfg \<longrightarrow> \<not> has_sub (insert_tag s cfg port token scriptAttrs) ''<!--''"
  shows "remove_tag (insert_tag s cfg port token scriptAttrs) = s"
proof (cases "insert_tag s cfg port token scriptAttrs = s")
  case True
  then show ?thesis using remove_tag_without_marker [OF clean] by simp
next
  case False
  let ?e = "detect_line_ending s" and ?l = "script_line port token scriptAttrs"
  have e: "?e \<in> {[line_feed], [carriage_return, line_feed]}" using ending by (auto simp: detect_line_ending_def split: if_splits)
  obtain i where i: "insert_tag s cfg port token scriptAttrs =
      take i s @ comment (ic_jsx cfg) marker_open_text @ (?e @ ?l @ ?e) @ comment (ic_jsx cfg) marker_close_text @ ?e @ drop i s"
    using inserted_before [OF before False] normal_tag_block [OF script(2) e] by auto
  have apart: "set ?e \<inter> set marker_close_text = {}" "CHR ''i'' \<notin> set ?e"
    using e by (auto simp: marker_close_text_def newline_char return_char)
  have "\<not> has_sub (?l @ ?e) marker_close_text" using has_sub_before [OF _ _ apart(1)] script(1) by (auto simp: marker_close_text_def)
  then have mid: "\<not> has_sub (?e @ ?l @ ?e) marker_close_text"
    using has_sub_skip [OF apart(2)] by (simp add: marker_close_text_def)
  have left: "\<not> holds_marker (take i s)"
    using clean unfolding holds_marker_def has_sub_split by (metis append.assoc append_take_drop_id)
  note found = remove_block_found [OF left mid e, of "ic_jsx cfg" "drop i s"]
  show ?thesis
  proof (cases "ic_jsx cfg")
    case True
    with jsx have "remove_block False (insert_tag s cfg port token scriptAttrs) = None" by (intro no_comment_no_block) simp
    with True found show ?thesis using no_block_without_marker [OF clean, of True]
      by (simp add: i remove_tag_def remove_blocks.simps)
  next
    case False
    then show ?thesis using found no_block_without_marker [OF clean, of False]
      by (simp add: i remove_tag_def remove_blocks.simps)
  qed
qed

definition body_config :: inject_config where
  "body_config = \<lparr>ic_before = ''</body>'', ic_after = [], ic_jsx = True\<rparr>"

definition body_page :: string where
  "body_page = ''<body>'' @ [line_feed] @ ''  Hello'' @ [line_feed] @ ''  </body>'' @ [line_feed]"

lemma remove_undoes_insert_witness:
  "insert_tag body_page body_config ''8400'' ''ab'' [] \<noteq> body_page \<and>
   remove_tag (insert_tag body_page body_config ''8400'' ''ab'' []) = body_page"
proof -
  have h: "insert_tag body_page body_config ''8400'' ''ab'' [] \<noteq> body_page"
      "\<not> holds_marker body_page" "ic_before body_config \<noteq> []" "detect_line_ending body_page \<noteq> [carriage_return]"
      "\<not> has_sub (script_line ''8400'' ''ab'' []) marker_close_text" "line_feed \<notin> set (script_line ''8400'' ''ab'' [])"
      "ic_jsx body_config \<longrightarrow> \<not> has_sub (insert_tag body_page body_config ''8400'' ''ab'' []) ''<!--''"
    by code_simp+
  then show ?thesis using remove_undoes_insert [OF h(2-7)] by blast
qed

end
