(* ===== verification/Inject_Csp.thy ===== *)
theory Inject_Csp
  imports Inject_Tag
begin

text \<open>
  The content security policy of a page, as \<open>live/frameworks/tag-strategy.mjs\<close>
  patches and reverts it: the meta tags with a policy, the origins added to its
  directives, the original kept in base 64 in an attribute of the tag. A value to
  revert is one that the patch wrote.
\<close>

section \<open>Meta tags and their attributes\<close>

record meta_tag =
  mt_start :: nat
  mt_full :: string
  mt_attrs :: string

definition meta_here :: "string \<Rightarrow> (string \<times> string) option" where
  \<comment> \<open>\<open><meta\s+([^>]*?)\/?>\<close>: the attributes and what follows the tag\<close>
  "meta_here s = Option.bind (strip_ci ''<meta'' s) (\<lambda>s. Option.bind (skip_ws1 s) (\<lambda>s.
     map_option (\<lambda>(inside, rest). (if inside \<noteq> [] \<and> last inside = CHR ''/'' then butlast inside else inside, rest)) (tag_end s)))"

fun meta_tags :: "nat \<Rightarrow> nat \<Rightarrow> string \<Rightarrow> meta_tag list" where
  \<comment> \<open>from an offset, with characters to skip\<close>
  "meta_tags i k [] = []"
| "meta_tags i (Suc k) (c # s) = meta_tags (Suc i) k s"
| "meta_tags i 0 (c # s) =
    (case meta_here (c # s) of None \<Rightarrow> meta_tags (Suc i) 0 s
     | Some (attrs, rest) \<Rightarrow> let n = length (c # s) - length rest in
         \<lparr>mt_start = i, mt_full = take n (c # s), mt_attrs = attrs\<rparr> # meta_tags (Suc i) (n - 1) s)"

definition policy_here :: "char option \<Rightarrow> string \<Rightarrow> unit option" where
  "policy_here before s =
    Option.bind (case strip_ci ''http-equiv'' s of Some t \<Rightarrow> Some t | None \<Rightarrow> strip_ci ''httpEquiv'' s) (\<lambda>t.
      Option.bind (strip ''='' (skip_ws t)) (\<lambda>t. case skip_ws t of [] \<Rightarrow> None
        | q # t \<Rightarrow> if q \<notin> html_quotes then None
          else Option.bind (strip_ci ''Content-Security-Policy'' t) (\<lambda>t. if starts_with t [q] then Some () else None)))"

definition find_csp_meta_tags :: "string \<Rightarrow> meta_tag list" where
  "find_csp_meta_tags s = filter (\<lambda>m. matches policy_here (mt_attrs m)) (meta_tags 0 0 s)"

record attr_match =
  am_quote :: char
  am_value :: string
  am_full :: string

definition attr_match_here :: "string \<Rightarrow> char option \<Rightarrow> string \<Rightarrow> attr_match option" where
  \<comment> \<open>\<open>\bNAME\s*=\s*(['"])([\s\S]*?)\1\<close>\<close>
  "attr_match_here name before s = (if \<not> at_boundary before s then None
     else Option.bind (strip_ci name s) (\<lambda>t. Option.bind (strip ''='' (skip_ws t)) (\<lambda>t. case skip_ws t of [] \<Rightarrow> None
       | q # t \<Rightarrow> if q \<notin> html_quotes \<or> q \<notin> set t then None
         else (let v = takeWhile (\<lambda>c. c \<noteq> q) t in
           Some \<lparr>am_quote = q, am_value = v, am_full = take (length s - length t + length v + 1) s\<rparr>))))"

definition get_attr :: "string \<Rightarrow> string \<Rightarrow> attr_match option" where
  "get_attr attrs name = find_match (attr_match_here name) None attrs"

section \<open>Adding an origin to a directive\<close>

definition directive_here :: "string \<Rightarrow> string \<Rightarrow> (string \<times> string \<times> string) option" where
  \<comment> \<open>white space, the name and its values: what is kept, the values, what follows\<close>
  "directive_here name s =
    (let t = dropWhile is_ws s in
     Option.bind (strip_ci name t) (\<lambda>u. Option.bind (skip_ws1 u) (\<lambda>u.
       Some (take (length s - length t + length name) s, takeWhile (\<lambda>c. c \<noteq> CHR '';'') u, dropWhile (\<lambda>c. c \<noteq> CHR '';'') u))))"

fun after_semicolon :: "string \<Rightarrow> string \<Rightarrow> (string \<times> string \<times> string) option" where
  "after_semicolon name [] = None"
| "after_semicolon name (c # s) =
    (case (if c = CHR '';'' then directive_here name s else None) of
       Some (kept, values, rest) \<Rightarrow> Some (c # kept, values, rest)
     | None \<Rightarrow> map_option (\<lambda>(kept, values, rest). (c # kept, values, rest)) (after_semicolon name s))"

definition find_directive :: "string \<Rightarrow> string \<Rightarrow> (string \<times> string \<times> string) option" where
  "find_directive name csp = (case directive_here name csp of Some d \<Rightarrow> Some d | None \<Rightarrow> after_semicolon name csp)"

definition value_tokens :: "string \<Rightarrow> string list" where
  \<comment> \<open>\<open>trim().split(/\s+/)\<close>\<close>
  "value_tokens s = (case filter (\<lambda>w. w \<noteq> []) (cut_at is_ws s) of [] \<Rightarrow> [[]] | ws \<Rightarrow> ws)"

definition without_semicolon :: "string \<Rightarrow> string" where
  "without_semicolon s = (if s \<noteq> [] \<and> last s = CHR '';'' then butlast s else s)"

definition append_origin_to_directive :: "string \<Rightarrow> string \<Rightarrow> string \<Rightarrow> string" where
  "append_origin_to_directive csp directive origin =
    (case find_directive directive csp of
       Some (kept, values, rest) \<Rightarrow>
         if origin \<in> set (value_tokens values) then csp
         else kept @ '' '' @ join '' '' (value_tokens values @ [origin]) @ rest
     | None \<Rightarrow> without_semicolon (js_trim csp) @ ''; '' @ directive @ '' '' @ [char_of (39 :: nat)] @ ''self'' @ [char_of (39 :: nat)] @ '' '' @ origin)"

section \<open>Base 64\<close>

fun utf8 :: "string \<Rightarrow> nat list" where
  "utf8 [] = []"
| "utf8 (c # s) = (let n = of_char c in (if n < 128 then [n] else [192 + n div 64, 128 + n mod 64]) @ utf8 s)"

fun from_utf8 :: "nat list \<Rightarrow> string" where
  \<comment> \<open>of what \<open>utf8\<close> gives\<close>
  "from_utf8 [] = []"
| "from_utf8 [n] = [char_of n]"
| "from_utf8 (n # m # ns) = (if n < 128 then char_of n # from_utf8 (m # ns) else char_of ((n - 192) * 64 + (m - 128)) # from_utf8 ns)"

definition digit64 :: "nat \<Rightarrow> char" where
  "digit64 n = (if n < 26 then char_of (65 + n) else if n < 52 then char_of (71 + n) else if n < 62 then char_of (n - 4)
     else if n = 62 then CHR ''+'' else CHR ''/'')"

definition value64 :: "char \<Rightarrow> nat option" where
  "value64 c = (let n = of_char c :: nat in
     if 65 \<le> n \<and> n \<le> 90 then Some (n - 65) else if 97 \<le> n \<and> n \<le> 122 then Some (n - 71)
     else if 48 \<le> n \<and> n \<le> 57 then Some (n + 4) else if n = 43 then Some 62 else if n = 47 then Some 63 else None)"

fun base64 :: "nat list \<Rightarrow> string" where
  "base64 [] = []"
| "base64 [a] = [digit64 (a div 4), digit64 (a mod 4 * 16), CHR ''='', CHR ''='']"
| "base64 [a, b] = [digit64 (a div 4), digit64 (a mod 4 * 16 + b div 16), digit64 (b mod 16 * 4), CHR ''='']"
| "base64 (a # b # c # ns) = [digit64 (a div 4), digit64 (a mod 4 * 16 + b div 16), digit64 (b mod 16 * 4 + c div 64), digit64 (c mod 64)] @ base64 ns"

fun from_values :: "nat list \<Rightarrow> nat list" where
  "from_values (p # q # r # s # vs) = [p * 4 + q div 16, q mod 16 * 16 + r div 4, r mod 4 * 64 + s] @ from_values vs"
| "from_values [p, q, r] = [p * 4 + q div 16, q mod 16 * 16 + r div 4]"
| "from_values [p, q] = [p * 4 + q div 16]"
| "from_values _ = []"

definition from_base64 :: "string \<Rightarrow> nat list" where
  "from_base64 s = from_values (List.map_filter value64 s)"

section \<open>Patching and reverting\<close>

definition quoted_content :: "char \<Rightarrow> string \<Rightarrow> string" where
  "quoted_content q v = ''content='' @ [q] @ v @ [q]"

definition patched_policy :: "string \<Rightarrow> string \<Rightarrow> string" where
  "patched_policy port csp =
    (let origin = ''http://localhost:'' @ port in
     append_origin_to_directive (append_origin_to_directive (append_origin_to_directive csp ''script-src'' origin)
       ''connect-src'' origin) ''img-src'' ''blob:'')"

definition patch_tag :: "string \<Rightarrow> meta_tag \<Rightarrow> string option" where
  \<comment> \<open>the tag to put in its place\<close>
  "patch_tag port m =
    (let attrs = mt_attrs m in
     if get_attr attrs csp_marker_attr \<noteq> None then None
     else (case get_attr attrs ''content'' of None \<Rightarrow> None
       | Some a \<Rightarrow>
         let patched = patched_policy port (am_value a);
             trailing = rev (takeWhile is_blank (rev attrs));
             body = take (length attrs - length trailing) attrs;
             newAttrs = replace_once body (am_full a) (quoted_content (am_quote a) patched) @ '' '' @
               quoted_attr csp_marker_attr (base64 (utf8 (am_value a))) @ trailing
         in if patched = am_value a then None else Some (replace_once (mt_full m) attrs newAttrs)))"

definition splice :: "(meta_tag \<Rightarrow> string option) \<Rightarrow> meta_tag \<Rightarrow> string \<Rightarrow> string" where
  "splice f m s = (case f m of None \<Rightarrow> s | Some t \<Rightarrow> take (mt_start m) s @ t @ drop (mt_start m + length (mt_full m)) s)"

definition patch_csp_meta :: "string \<Rightarrow> string \<Rightarrow> string" where
  \<comment> \<open>the last tag first\<close>
  "patch_csp_meta s port = fold (splice (patch_tag port)) (rev (find_csp_meta_tags s)) s"

fun as_pattern :: "string \<Rightarrow> string \<Rightarrow> string option" where
  \<comment> \<open>a text read as a regular expression, in which a plus sign repeats: what follows its match\<close>
  "as_pattern [] s = Some s"
| "as_pattern p [] = None"
| "as_pattern (c # p) (d # s) =
    (if c \<noteq> d then None
     else if p \<noteq> [] \<and> hd p = CHR ''+''
     then (case as_pattern (c # p) s of Some r \<Rightarrow> Some r | None \<Rightarrow> as_pattern (tl p) s)
     else as_pattern p s)"

definition spaced_pattern :: "string \<Rightarrow> string \<Rightarrow> nat" where
  "spaced_pattern p s = matched s (as_pattern p (dropWhile is_ws s))"

definition remove_pattern :: "string \<Rightarrow> string \<Rightarrow> string" where
  \<comment> \<open>without the first match of white space and the pattern\<close>
  "remove_pattern p s = (case first_at (spaced_pattern p) s of None \<Rightarrow> s | Some i \<Rightarrow> take i s @ drop (i + spaced_pattern p (drop i s)) s)"

definition revert_tag :: "meta_tag \<Rightarrow> string option" where
  "revert_tag m =
    (case (get_attr (mt_attrs m) csp_marker_attr, get_attr (mt_attrs m) ''content'') of
       (Some original, Some a) \<Rightarrow>
         let newAttrs = replace_once (mt_attrs m) (am_full a) (quoted_content (am_quote a) (from_utf8 (from_base64 (am_value original))))
         in Some (replace_once (mt_full m) (mt_attrs m) (remove_pattern (am_full original) newAttrs))
     | _ \<Rightarrow> None)"

definition revert_csp_meta :: "string \<Rightarrow> string" where
  "revert_csp_meta s = fold (splice revert_tag) (rev (find_csp_meta_tags s)) s"

definition unpatch_tag_file :: "string \<Rightarrow> string" where
  "unpatch_tag_file s = revert_csp_meta (remove_tag s)"

section \<open>Facts\<close>

definition policy_page :: "string \<Rightarrow> string" where
  "policy_page csp = ''<meta http-equiv='' @ [quote_mark] @ ''Content-Security-Policy'' @ [quote_mark] @ '' '' @ quoted_content quote_mark csp @ ''>''"

lemma value_of_digit: "n < 64 \<Longrightarrow> value64 (digit64 n) = Some n"
proof -
  assume n: "n < 64"
  then consider "n < 26" | "26 \<le> n \<and> n < 52" | "52 \<le> n \<and> n < 62" | "n = 62" | "n = 63" by linarith
  then show ?thesis by cases (auto simp: digit64_def value64_def Let_def)
qed

lemma value_of_padding: "value64 CHR ''='' = None"
  by (simp add: value64_def)

lemma two_digits: "b < 256 \<Longrightarrow> b div 16 < 16 \<and> b div 16 * 16 + b mod 16 = (b :: nat)"
  by simp

lemma four_digits: "c < 256 \<Longrightarrow> c div 64 < 4 \<and> c div 64 * 64 + c mod 64 = (c :: nat)"
  by simp

lemma first_values:
  fixes a b c :: nat
  assumes "a < 256" "b < 256" "c < 256"
  shows "a div 4 * 4 + (a mod 4 * 16 + b div 16) div 16 = a" "a div 4 * 4 + (a mod 4 * 16) div 16 = a"
    "(a mod 4 * 16 + b div 16) mod 16 * 16 + (b mod 16 * 4 + c div 64) div 4 = b"
    "(a mod 4 * 16 + b div 16) mod 16 * 16 + (b mod 16 * 4) div 4 = b"
    "(b mod 16 * 4 + c div 64) mod 4 * 64 + c mod 64 = c"
  using two_digits [OF assms(2)] four_digits [OF assms(3)] by simp_all

lemma first_digits:
  fixes a b c :: nat
  assumes "a < 256" "b < 256" "c < 256"
  shows "a div 4 < 64" "a mod 4 * 16 < 64" "a mod 4 * 16 + b div 16 < 64" "b mod 16 * 4 < 64" "b mod 16 * 4 + c div 64 < 64" "c mod 64 < 64"
  using two_digits [OF assms(2)] four_digits [OF assms(3)] assms(1) by auto

lemma base64_inverse: "(\<forall>n \<in> set ns. n < 256) \<Longrightarrow> from_base64 (base64 ns) = ns"
proof (induction ns rule: base64.induct)
  case (2 a)
  then have a: "a < 256" by simp
  show ?case
    by (simp only: base64.simps from_base64_def map_filter_simps value_of_padding option.case
        value_of_digit [OF first_digits(1) [OF a a a]] value_of_digit [OF first_digits(2) [OF a a a]]
        from_values.simps first_values [OF a a a])
next
  case (3 a b)
  then have ab: "a < 256" "b < 256" by simp_all
  show ?case
    by (simp only: base64.simps from_base64_def map_filter_simps value_of_padding option.case
        value_of_digit [OF first_digits(1) [OF ab ab(2)]] value_of_digit [OF first_digits(3) [OF ab ab(2)]]
        value_of_digit [OF first_digits(4) [OF ab ab(2)]] from_values.simps first_values [OF ab ab(2)])
next
  case (4 a b c ns)
  then have abc: "a < 256" "b < 256" "c < 256" and ns: "from_base64 (base64 ns) = ns" by simp_all
  show ?case
    using ns
    by (simp only: base64.simps from_base64_def map_filter_simps append_Cons append_Nil option.case
        value_of_digit [OF first_digits(1) [OF abc]] value_of_digit [OF first_digits(3) [OF abc]]
        value_of_digit [OF first_digits(5) [OF abc]] value_of_digit [OF first_digits(6) [OF abc]] from_values.simps first_values [OF abc])
qed (simp add: from_base64_def map_filter_simps)

lemma char_code: "of_char c < (256 :: nat)"
  by (metis mod_less_divisor of_char_mod_256 zero_less_numeral)

lemma utf8_bytes: "\<forall>n \<in> set (utf8 s). n < 256"
proof (induction s)
  case (Cons c s)
  then show ?case using char_code [of c] four_digits [OF char_code [of c]] by (auto simp: Let_def)
qed simp

lemma utf8_inverse: "from_utf8 (utf8 s) = s"
proof (induction s)
  case (Cons c s)
  show ?case
  proof (cases "of_char c < (128 :: nat)")
    case True
    with Cons show ?thesis by (cases "utf8 s") (auto simp: Let_def)
  next
    case False
    then have "(192 + of_char c div 64 - 192) * 64 + (128 + of_char c mod 64 - 128) = (of_char c :: nat)" by simp
    with False Cons show ?thesis by (simp add: Let_def)
  qed
qed simp

theorem kept_policy_is_the_original: "from_utf8 (from_base64 (base64 (utf8 s))) = s"
  by (simp add: base64_inverse [OF utf8_bytes] utf8_inverse)

lemma no_policy_tags:
  "find_csp_meta_tags s = [] \<Longrightarrow> patch_csp_meta s port = s" "find_csp_meta_tags s = [] \<Longrightarrow> revert_csp_meta s = s"
  by (simp_all add: patch_csp_meta_def revert_csp_meta_def)

theorem reverted_policy_keeps_its_mark:
  "revert_csp_meta (patch_csp_meta (policy_page ''aa~'') ''1'') \<noteq> policy_page ''aa~''"
  by code_simp

end
