(* ===== verification/Inject_Journal.thy ===== *)
theory Inject_Journal
  imports Inject_Csp
begin

text \<open>
  \<open>live/frameworks/journal.mjs\<close>: the record of what an injection wrote, and the
  healing of what it left behind. The journal is kept apart from the other files,
  as the value its text parses to; it can always be written. The functions that
  undo a patch are an argument, as in the code.
\<close>

section \<open>The disk\<close>

record inject_disk =
  ij_tree :: tree
  ij_dirs :: "string list"
  ij_journal :: "jsval option"

definition inject_journal_relpath :: string where
  "inject_journal_relpath = ''.impeccable/live/inject-journal.json''"

definition inject_journal_path :: "string \<Rightarrow> string" where
  "inject_journal_path cwd = resolve cwd inject_journal_relpath"

definition read_inject_journal :: "inject_disk \<Rightarrow> jsval option" where
  "read_inject_journal d = Option.bind (ij_journal d) (\<lambda>raw.
     if truthy raw \<and> is_objty raw \<and> is_arr (get raw ''artifacts'') then Some raw else None)"

definition artifacts_of :: "inject_disk \<Rightarrow> jsval list" where
  "artifacts_of d = (case read_inject_journal d of None \<Rightarrow> [] | Some j \<Rightarrow> elems (get j ''artifacts''))"

definition clear_inject_journal :: "inject_disk \<Rightarrow> inject_disk" where
  "clear_inject_journal d = d\<lparr>ij_journal := None\<rparr>"

definition write_inject_journal :: "jsval \<Rightarrow> inject_disk \<Rightarrow> inject_disk" where
  "write_inject_journal journal d = d\<lparr>ij_journal := Some journal\<rparr>"

record injection_record =
  rc_root :: string
  rc_framework :: jsval
  rc_port :: jsval
  rc_pid :: jsval
  rc_at :: string

definition record_injection :: "injection_record \<Rightarrow> jsval list \<Rightarrow> inject_disk \<Rightarrow> inject_disk" where
  \<comment> \<open>nothing to record: no journal\<close>
  "record_injection r artifacts d =
    (if artifacts = [] then clear_inject_journal d
     else write_inject_journal (JObj [(''version'', jint 1), (''appRoot'', JStr (rc_root r)), (''framework'', js_or (rc_framework r) JNull),
       (''port'', if is_finite (to_number (rc_port r)) then to_number (rc_port r) else JNull), (''pid'', rc_pid r),
       (''recordedAt'', JStr (rc_at r)), (''artifacts'', JArr artifacts)]) d)"

definition normalize_rel :: "string \<Rightarrow> jsval \<Rightarrow> string" where
  "normalize_rel cwd rel = resolve cwd (if truthy rel then js_string rel else [])"

definition read_if_present :: "tree \<Rightarrow> string \<Rightarrow> string option" where
  "read_if_present t p = (if tr_readable t p then file_at t p else None)"

section \<open>Healing\<close>

definition has_entry :: "string \<Rightarrow> inject_disk \<Rightarrow> string \<Rightarrow> bool" where
  \<comment> \<open>a directory is not empty\<close>
  "has_entry cwd d p =
    (\<exists>q \<in> set (inject_journal_path cwd # map fst (tr_files (ij_tree d)) @ ij_dirs d). starts_with q (p @ ''/''))"

primrec prune_empty_dirs :: "string \<Rightarrow> string \<Rightarrow> string list \<Rightarrow> inject_disk \<Rightarrow> inject_disk" where
  \<comment> \<open>upwards from a directory, whose segments are given last first\<close>
  "prune_empty_dirs cwd stop [] d = d"
| "prune_empty_dirs cwd stop (x # xs) d =
    (let current = path_of (rev (x # xs)) in
     if current \<noteq> stop \<and> starts_with current (stop @ ''/'') \<and> current \<in> set (ij_dirs d) \<and>
       \<not> has_entry cwd d current \<and> tr_writable (ij_tree d) current
     then prune_empty_dirs cwd stop xs (d\<lparr>ij_dirs := filter (\<lambda>q. q \<noteq> current) (ij_dirs d)\<rparr>)
     else d)"

definition inside_project :: "string \<Rightarrow> string \<Rightarrow> bool" where
  "inside_project cwd p = (project_file cwd p \<noteq> None)"

datatype healing = Refused_Outside | Absent | Disowned | Removed | Unpatched | Failed | Threw

type_synonym undoers = "string \<Rightarrow> (string \<Rightarrow> string) option"

definition prune_after :: "string \<Rightarrow> jsval \<Rightarrow> inject_disk \<Rightarrow> healing \<times> inject_disk" where
  \<comment> \<open>what happens once a created file is gone\<close>
  "prune_after cwd a d =
    (let to = get a ''pruneTo''; target = js_or to (JStr ''.'') in
     if to = JUndef then (Removed, d)
     else if \<not> is_str target then (Threw, d)
     else if inside_project cwd (str_of target) \<or> resolve cwd (str_of target) = resolve cwd cwd
     then (Removed, prune_empty_dirs cwd (resolve cwd (str_of target)) (rev (butlast (resolve_segs cwd (str_of (get a ''path''))))) d)
     else (Removed, d))"

definition heal_created :: "string \<Rightarrow> jsval \<Rightarrow> string \<Rightarrow> string \<Rightarrow> inject_disk \<Rightarrow> healing \<times> inject_disk" where
  "heal_created cwd a p text d =
    (if \<not> truthy (get a ''marker'') \<or> \<not> has_sub text (js_string (get a ''marker'')) then (Disowned, d)
     else if \<not> tr_writable (ij_tree d) p then (Failed, d)
     else prune_after cwd a (d\<lparr>ij_tree := (ij_tree d)\<lparr>tr_files := aldel p (tr_files (ij_tree d))\<rparr>\<rparr>))"

definition markers_of :: "jsval \<Rightarrow> jsval list" where
  "markers_of a = (if is_arr (get a ''markers'') then elems (get a ''markers'') else [])"

definition heal_patched :: "undoers \<Rightarrow> jsval \<Rightarrow> string \<Rightarrow> string \<Rightarrow> inject_disk \<Rightarrow> healing \<times> inject_disk" where
  "heal_patched undoers a p text d =
    (let markers = markers_of a in
     if markers \<noteq> [] \<and> \<not> (\<exists>m \<in> set markers. has_sub text (js_string m)) then (Disowned, d)
     else (case undoers (js_string (get a ''patch'')) of None \<Rightarrow> (Failed, d)
       | Some undo \<Rightarrow>
         if undo text = text then (Disowned, d)
         else if \<not> tr_writable (ij_tree d) p then (Failed, d)
         else (Unpatched, d\<lparr>ij_tree := (ij_tree d)\<lparr>tr_files := alset p (undo text) (tr_files (ij_tree d))\<rparr>\<rparr>)))"

definition heal_artifact :: "undoers \<Rightarrow> string \<Rightarrow> jsval \<Rightarrow> inject_disk \<Rightarrow> healing \<times> inject_disk" where
  "heal_artifact undoers cwd a d =
    (let p = resolve cwd (str_of (get a ''path'')) in
     if \<not> inside_project cwd p then (Refused_Outside, d)
     else (case read_if_present (ij_tree d) p of None \<Rightarrow> (Absent, d)
       | Some text \<Rightarrow>
         if get a ''kind'' = JStr ''created'' then heal_created cwd a p text d
         else if get a ''kind'' = JStr ''patched'' then heal_patched undoers a p text d
         else (Failed, d)))"

text \<open>The healed paths with what was done, the artifacts kept, and whether the run was not cut short.\<close>

record heal_progress =
  hp_healed :: "(string \<times> healing) list"
  hp_kept :: "jsval list"
  hp_thrown :: bool

definition heal_one :: "undoers \<Rightarrow> string \<Rightarrow> string set \<Rightarrow> jsval \<Rightarrow> heal_progress \<times> inject_disk \<Rightarrow> heal_progress \<times> inject_disk" where
  "heal_one undoers cwd keep a s =
    (let (h, d) = s in
     if hp_thrown h \<or> \<not> is_str (get a ''path'') then s
     else if normalize_rel cwd (get a ''path'') \<in> keep then (h\<lparr>hp_kept := hp_kept h @ [a]\<rparr>, d)
     else (case heal_artifact undoers cwd a d of (x, d') \<Rightarrow>
       (if x = Threw then h\<lparr>hp_thrown := True\<rparr>
        else if x \<in> {Removed, Unpatched} then h\<lparr>hp_healed := hp_healed h @ [(str_of (get a ''path''), x)]\<rparr> else h, d')))"

definition no_healing :: heal_progress where
  "no_healing = \<lparr>hp_healed = [], hp_kept = [], hp_thrown = False\<rparr>"

definition heal_inject_journal :: "undoers \<Rightarrow> string \<Rightarrow> jsval list \<Rightarrow> inject_disk \<Rightarrow> heal_progress \<times> inject_disk" where
  "heal_inject_journal undoers cwd keep d =
    (case read_inject_journal d of None \<Rightarrow> (no_healing, d)
     | Some journal \<Rightarrow>
       (case fold (heal_one undoers cwd (normalize_rel cwd ` set keep)) (elems (get journal ''artifacts'')) (no_healing, d) of (h, d') \<Rightarrow>
         (h, if hp_thrown h then d'
             else if hp_kept h \<noteq> [] then write_inject_journal (with_props journal [(''artifacts'', JArr (hp_kept h))]) d'
             else clear_inject_journal d')))"

section \<open>Healing touches only what is its own\<close>

definition owns :: "jsval \<Rightarrow> string \<Rightarrow> bool" where
  \<comment> \<open>a text carries the artifact's mark\<close>
  "owns a text =
    ((get a ''kind'' = JStr ''created'' \<and> truthy (get a ''marker'') \<and> has_sub text (js_string (get a ''marker''))) \<or>
     (get a ''kind'' = JStr ''patched'' \<and> (markers_of a = [] \<or> (\<exists>m \<in> set (markers_of a). has_sub text (js_string m)))))"

lemma prune_keeps [simp]:
  "ij_tree (prune_empty_dirs cwd stop xs d) = ij_tree d" "ij_journal (prune_empty_dirs cwd stop xs d) = ij_journal d"
  by (induction xs arbitrary: d) (simp_all add: Let_def)

lemma prune_after_keeps:
  "prune_after cwd a d = (x, d') \<Longrightarrow> ij_tree d' = ij_tree d \<and> ij_journal d' = ij_journal d"
  by (auto simp: prune_after_def Let_def split: if_splits)

lemma heal_artifact_journal: "heal_artifact undoers cwd a d = (x, d') \<Longrightarrow> ij_journal d' = ij_journal d"
  by (auto simp: heal_artifact_def heal_created_def heal_patched_def Let_def split: if_splits option.splits
      dest: prune_after_keeps)

lemma heal_artifact_frame:
  assumes "heal_artifact undoers cwd a d = (x, d')" "file_at (ij_tree d') p \<noteq> file_at (ij_tree d) p"
  shows "p = resolve cwd (str_of (get a ''path'')) \<and> inside_project cwd p \<and> (\<exists>text. file_at (ij_tree d) p = Some text \<and> owns a text)"
  using assms
  by (auto simp: heal_artifact_def heal_created_def heal_patched_def read_if_present_def file_at_def owns_def Let_def
      split: if_splits option.splits dest!: prune_after_keeps)

lemma heal_one_frame:
  assumes "heal_one undoers cwd keep a s = s'" "file_at (ij_tree (snd s')) p \<noteq> file_at (ij_tree (snd s)) p"
  shows "p = resolve cwd (str_of (get a ''path'')) \<and> inside_project cwd p \<and> p \<notin> keep \<and>
    (\<exists>text. file_at (ij_tree (snd s)) p = Some text \<and> owns a text)"
proof -
  obtain h d where s: "s = (h, d)" by (cases s)
  obtain x d' where x: "heal_artifact undoers cwd a d = (x, d')" by fastforce
  have live: "\<not> hp_thrown h" "is_str (get a ''path'')" "normalize_rel cwd (get a ''path'') \<notin> keep"
    using assms by (auto simp: heal_one_def s split: if_splits)
  then have "snd s' = d'" using assms(1) x by (auto simp: heal_one_def s split: if_splits)
  with assms(2) x s have p: "p = resolve cwd (str_of (get a ''path'')) \<and> inside_project cwd p \<and>
      (\<exists>text. file_at (ij_tree d) p = Some text \<and> owns a text)"
    by (intro heal_artifact_frame) auto
  have "normalize_rel cwd (get a ''path'') = resolve cwd (str_of (get a ''path''))"
    using live(2) by (cases "get a ''path''") (auto simp: normalize_rel_def)
  with p live(3) have "p \<notin> keep" by simp
  with p show ?thesis unfolding s snd_conv by blast
qed

lemma heal_all_frame:
  assumes "file_at (ij_tree (snd (fold (heal_one undoers cwd keep) as s))) p \<noteq> file_at (ij_tree (snd s)) p"
  shows "\<exists>a text. a \<in> set as \<and> p = resolve cwd (str_of (get a ''path'')) \<and> inside_project cwd p \<and> p \<notin> keep \<and>
    file_at (ij_tree (snd s)) p = Some text \<and> owns a text"
  using assms
proof (induction "as" arbitrary: s)
  case (Cons a "as")
  show ?case
  proof (cases "file_at (ij_tree (snd (heal_one undoers cwd keep a s))) p = file_at (ij_tree (snd s)) p")
    case True
    with Cons show ?thesis by (metis fold_simps(2) list.set_intros(2))
  next
    case False
    from heal_one_frame [OF refl this] show ?thesis by auto
  qed
qed simp


definition created_disk :: inject_disk where
  "created_disk = \<lparr>ij_tree = \<lparr>tr_files = [(''/p/x.ts'', ''// mark'')], tr_readable = (\<lambda>_. True), tr_writable = (\<lambda>_. True),
     tr_error = ''EACCES''\<rparr>, ij_dirs = [''/p''],
     ij_journal = Some (JObj [(''artifacts'', JArr [JObj [(''kind'', JStr ''created''), (''path'', JStr ''x.ts''), (''marker'', JStr ''mark'')]])])\<rparr>"


section \<open>A second healing finds nothing\<close>

lemma kept_from:
  "\<not> hp_thrown (fst (fold (heal_one undoers cwd keep) as s)) \<Longrightarrow>
   (\<forall>a \<in> set (hp_kept (fst s)). is_str (get a ''path'') \<and> normalize_rel cwd (get a ''path'') \<in> keep) \<Longrightarrow>
   \<forall>a \<in> set (hp_kept (fst (fold (heal_one undoers cwd keep) as s))). is_str (get a ''path'') \<and> normalize_rel cwd (get a ''path'') \<in> keep"
proof (induction "as" arbitrary: s)
  case (Cons a "as")
  have "\<forall>b \<in> set (hp_kept (fst (heal_one undoers cwd keep a s))). is_str (get b ''path'') \<and> normalize_rel cwd (get b ''path'') \<in> keep"
    using Cons.prems(2) by (auto simp: heal_one_def Let_def split: prod.splits if_splits)
  from Cons.IH [OF _ this] Cons.prems(1) show ?case unfolding fold_simps(2) by blast
qed simp

lemma alset_twice: "alset k v (alset k v kvs) = alset k v kvs"
  by (induction kvs) auto

lemma heal_all_kept:
  "(\<forall>a \<in> set as. is_str (get a ''path'') \<and> normalize_rel cwd (get a ''path'') \<in> keep) \<Longrightarrow> \<not> hp_thrown h \<Longrightarrow>
   fold (heal_one undoers cwd keep) as (h, d) = (h\<lparr>hp_kept := hp_kept h @ as\<rparr>, d)"
  by (induction "as" arbitrary: h) (simp_all add: heal_one_def)

theorem heal_is_idempotent:
  assumes "heal_inject_journal undoers cwd keep d = (h, d')" "\<not> hp_thrown h"
  shows "heal_inject_journal undoers cwd keep d' = (no_healing\<lparr>hp_kept := hp_kept h\<rparr>, d')"
proof (cases "read_inject_journal d")
  case None
  with assms show ?thesis by (auto simp: heal_inject_journal_def no_healing_def)
next
  case (Some j)
  let ?K = "normalize_rel cwd ` set keep"
  obtain d1 where s: "fold (heal_one undoers cwd ?K) (elems (get j ''artifacts'')) (no_healing, d) = (h, d1)"
    and d': "d' = (if hp_kept h \<noteq> [] then write_inject_journal (with_props j [(''artifacts'', JArr (hp_kept h))]) d1 else clear_inject_journal d1)"
    using assms Some by (auto simp: heal_inject_journal_def split: prod.splits)
  have kept: "\<forall>a \<in> set (hp_kept h). is_str (get a ''path'') \<and> normalize_rel cwd (get a ''path'') \<in> ?K"
    using kept_from [of undoers cwd ?K "elems (get j ''artifacts'')" "(no_healing, d)"] assms(2)
    unfolding s by (simp add: no_healing_def)
  show ?thesis
  proof (cases "hp_kept h = []")
    case True
    then show ?thesis by (simp add: d' heal_inject_journal_def read_inject_journal_def clear_inject_journal_def no_healing_def)
  next
    case False
    have "is_arr (get j ''artifacts'')" using Some by (auto simp: read_inject_journal_def bind_eq_Some_conv split: if_splits)
    then obtain ps where j: "j = JObj ps" by (cases j) auto
    let ?j = "with_props j [(''artifacts'', JArr (hp_kept h))]"
    have r: "read_inject_journal d' = Some ?j" "get ?j ''artifacts'' = JArr (hp_kept h)"
      using False by (simp_all add: d' read_inject_journal_def write_inject_journal_def j with_props_def spread_def)
    have "with_props ?j [(''artifacts'', JArr (hp_kept h))] = ?j"
      by (simp add: j with_props_def spread_def alset_twice)
    then have w: "write_inject_journal (with_props ?j [(''artifacts'', JArr (hp_kept h))]) d' = d'"
      using False by (simp add: d' write_inject_journal_def)
    have "fold (heal_one undoers cwd ?K) (hp_kept h) (no_healing, d') = (no_healing\<lparr>hp_kept := hp_kept h\<rparr>, d')"
      using heal_all_kept [OF kept, where h = no_healing and d = d'] by (simp add: no_healing_def)
    with r False w show ?thesis by (simp add: heal_inject_journal_def no_healing_def)
  qed
qed

text \<open>An artifact that could not be healed is dropped from the journal all the same.\<close>

theorem failed_healing_is_forgotten:
  assumes "read_inject_journal d = Some j" "elems (get j ''artifacts'') = [a]" "is_str (get a ''path'')"
    and "heal_artifact undoers cwd a d = (Failed, d)"
  shows "heal_inject_journal undoers cwd [] d = (no_healing, clear_inject_journal d)"
  using assms by (simp add: heal_inject_journal_def heal_one_def no_healing_def)

end
