(* ===== verification/Inject_Config.thy ===== *)
theory Inject_Config
  imports Inject_Tag
begin

text \<open>
  The configuration of an injection in \<open>live-inject.mjs\<close>: its validation, the files
  its patterns name with what is never named by one, and the block of ignore patterns
  kept in the project's ignore file. What \<open>fs.globSync\<close> finds for a pattern is an
  argument, none where it throws.
\<close>

section \<open>Validation\<close>

definition nonempty_strings :: "jsval \<Rightarrow> bool" where
  "nonempty_strings v = (\<forall>x \<in> set (elems v). is_str x \<and> str_of x \<noteq> [])"

definition validate_config :: "jsval \<Rightarrow> string option" where
  \<comment> \<open>the text of the error\<close>
  "validate_config cfg =
    (if \<not> truthy cfg \<or> \<not> is_objty cfg then Some ''config.json must be an object''
     else if \<not> is_arr (get cfg ''files'') \<or> elems (get cfg ''files'') = []
     then Some ''config.files (non-empty string array) required''
     else if \<not> nonempty_strings (get cfg ''files'') then Some ''config.files must contain only non-empty strings''
     else if get cfg ''exclude'' \<noteq> JUndef \<and> \<not> is_arr (get cfg ''exclude'')
     then Some ''config.exclude, if present, must be a string array''
     else if get cfg ''exclude'' \<noteq> JUndef \<and> \<not> nonempty_strings (get cfg ''exclude'')
     then Some ''config.exclude must contain only non-empty strings''
     else if \<not> is_str (get cfg ''insertBefore'') \<and> \<not> is_str (get cfg ''insertAfter'')
     then Some ''config.insertBefore or config.insertAfter (string) required''
     else if get cfg ''commentSyntax'' \<noteq> JStr ''html'' \<and> get cfg ''commentSyntax'' \<noteq> JStr ''jsx''
     then Some (''config.commentSyntax must be '' @ [char_of (39 :: nat)] @ ''html'' @ [char_of (39 :: nat)] @
       '' or '' @ [char_of (39 :: nat)] @ ''jsx'' @ [char_of (39 :: nat)])
     else if get cfg ''cspChecked'' \<noteq> JUndef \<and> \<not> (\<exists>b. get cfg ''cspChecked'' = JBool b)
     then Some ''config.cspChecked, if present, must be a boolean''
     else None)"

section \<open>Glob patterns\<close>

datatype glob_token = Any_Dirs | Any_Text | Any_Name | One_Char | Literal char

fun glob_tokens :: "string \<Rightarrow> glob_token list" where
  \<comment> \<open>the parts of the regular expression\<close>
  "glob_tokens [] = []"
| "glob_tokens (c # s) =
    (if c = CHR ''*''
     then (case s of [] \<Rightarrow> [Any_Name]
       | d # t \<Rightarrow>
         if d \<noteq> CHR ''*'' then Any_Name # glob_tokens s
         else if t \<noteq> [] \<and> hd t = CHR ''/'' then Any_Dirs # glob_tokens (tl t)
         else Any_Text # glob_tokens t)
     else if c = CHR ''?'' then One_Char # glob_tokens s
     else Literal c # glob_tokens s)"

definition line_end :: "char \<Rightarrow> bool" where
  \<comment> \<open>what a dot does not match\<close>
  "line_end c = (c = line_feed \<or> c = carriage_return)"

primrec token_weight :: "glob_token \<Rightarrow> nat" where
  "token_weight Any_Dirs = 3" | "token_weight Any_Text = 1" | "token_weight Any_Name = 1"
| "token_weight One_Char = 1" | "token_weight (Literal c) = 1"

function glob_match :: "glob_token list \<Rightarrow> string \<Rightarrow> bool" where
  "glob_match [] s = (s = [])"
| "glob_match (Any_Dirs # ts) s = (glob_match ts s \<or> glob_match (Any_Text # Literal CHR ''/'' # ts) s)"
| "glob_match (Any_Text # ts) s = (glob_match ts s \<or> (case s of [] \<Rightarrow> False | c # s \<Rightarrow> \<not> line_end c \<and> glob_match (Any_Text # ts) s))"
| "glob_match (Any_Name # ts) s = (glob_match ts s \<or> (case s of [] \<Rightarrow> False | c # s \<Rightarrow> c \<noteq> CHR ''/'' \<and> glob_match (Any_Name # ts) s))"
| "glob_match (One_Char # ts) s = (case s of [] \<Rightarrow> False | c # s \<Rightarrow> c \<noteq> CHR ''/'' \<and> glob_match ts s)"
| "glob_match (Literal c # ts) s = (case s of [] \<Rightarrow> False | d # s \<Rightarrow> c = d \<and> glob_match ts s)"
  by pat_completeness auto

termination
  by (relation "measures [\<lambda>(ts, s). sum_list (map token_weight ts), \<lambda>(ts, s). length s]") auto

definition glob_test :: "string \<Rightarrow> string \<Rightarrow> bool" where
  \<comment> \<open>\<open>globToRegex(pattern).test(path)\<close>\<close>
  "glob_test pattern p = glob_match (glob_tokens pattern) p"

section \<open>The files of a configuration\<close>

definition hard_excludes :: "string list" where
  "hard_excludes = [''**/node_modules/**'', ''**/.git/**'']"

definition is_glob :: "string \<Rightarrow> bool" where
  "is_glob s = (\<exists>c \<in> set s. c \<in> {CHR ''*'', CHR ''?'', CHR ''[''})"

record glob_entry =
  ge_dir :: string
  ge_name :: string
  ge_file :: bool

definition add_once :: "'a \<Rightarrow> 'a list \<Rightarrow> 'a list" where
  "add_once x xs = (if x \<in> set xs then xs else xs @ [x])"

definition expand_entry :: "string \<Rightarrow> string list \<Rightarrow> glob_entry \<Rightarrow> string list \<Rightarrow> string list" where
  "expand_entry rootDir excludes ent out =
    (let rel = relative rootDir (resolve (ge_dir ent) (ge_name ent)) in
     if \<not> ge_file ent \<or> (\<exists>x \<in> set excludes. glob_test x rel) then out else add_once rel out)"

definition expand_pattern :: "string \<Rightarrow> string list \<Rightarrow> (string \<Rightarrow> glob_entry list option) \<Rightarrow> string \<Rightarrow> string list \<Rightarrow> string list" where
  \<comment> \<open>a literal path is not subject to the excludes\<close>
  "expand_pattern rootDir excludes globSync pat out =
    (if \<not> is_glob pat then add_once pat out
     else (case globSync pat of None \<Rightarrow> out | Some entries \<Rightarrow> fold (expand_entry rootDir excludes) entries out))"

definition resolve_files :: "string \<Rightarrow> (string \<Rightarrow> glob_entry list option) \<Rightarrow> jsval \<Rightarrow> string list" where
  "resolve_files rootDir globSync cfg =
    (let userExcludes = (if is_arr (get cfg ''exclude'') then map str_of (elems (get cfg ''exclude'')) else []) in
     fold (expand_pattern rootDir (hard_excludes @ userExcludes) globSync) (map str_of (elems (get cfg ''files''))) [])"

section \<open>What a pattern never names\<close>

lemma any_text_skips: "(\<forall>c \<in> set a. \<not> line_end c) \<Longrightarrow> glob_match ts b \<Longrightarrow> glob_match (Any_Text # ts) (a @ b)"
  by (induction a) simp_all

lemma literals_match: "glob_match (map Literal w @ ts) (w @ s) = glob_match ts s"
  by (induction w) simp_all

lemma dirs_pattern:
  assumes "w \<noteq> []" "\<forall>c \<in> set w. c \<noteq> CHR ''*'' \<and> c \<noteq> CHR ''?''"
  shows "glob_tokens (''**/'' @ w @ ''/**'') = Any_Dirs # map Literal (w @ ''/'') @ [Any_Text]"
proof -
  have "glob_tokens (w @ ''/**'') = map Literal (w @ ''/'') @ [Any_Text]"
    using assms(2) by (induction w) simp_all
  then show ?thesis by simp
qed

lemma dirs_pattern_matches:
  assumes "w \<noteq> []" "\<forall>c \<in> set w. c \<noteq> CHR ''*'' \<and> c \<noteq> CHR ''?''"
    and "rel = a @ w @ ''/'' @ b" "a = [] \<or> last a = CHR ''/''" "\<forall>c \<in> set rel. \<not> line_end c"
  shows "glob_test (''**/'' @ w @ ''/**'') rel"
proof -
  have b: "glob_match [Any_Text] b" using any_text_skips [of b "[]" "[]"] assms(3,5) by simp
  then have tail: "glob_match (map Literal (w @ ''/'') @ [Any_Text]) ((w @ ''/'') @ b)" by (simp only: literals_match)
  show ?thesis
  proof (cases "a = []")
    case True
    with tail show ?thesis unfolding glob_test_def dirs_pattern [OF assms(1,2)] assms(3) by simp
  next
    case False
    then have a: "a = butlast a @ ''/''" using assms(4) append_butlast_last_id [of a] by simp
    have "glob_match (Literal CHR ''/'' # map Literal (w @ ''/'') @ [Any_Text]) (''/'' @ (w @ ''/'') @ b)"
      using tail by simp
    moreover have "\<forall>c \<in> set (butlast a). \<not> line_end c" using assms(3,5) by (auto dest: in_set_butlastD)
    ultimately have "glob_match (Any_Text # Literal CHR ''/'' # map Literal (w @ ''/'') @ [Any_Text]) (butlast a @ ''/'' @ (w @ ''/'') @ b)"
      by (intro any_text_skips)
    moreover have "rel = butlast a @ ''/'' @ (w @ ''/'') @ b" using a assms(3) by (metis append.assoc)
    ultimately show ?thesis unfolding glob_test_def dirs_pattern [OF assms(1,2)] by simp
  qed
qed

lemma expand_entry_new:
  "f \<in> set (fold (expand_entry rootDir excludes) ents out) \<Longrightarrow> f \<in> set out \<or> (\<forall>x \<in> set excludes. \<not> glob_test x f)"
proof (induction ents arbitrary: out)
  case (Cons e ents)
  then have "f \<in> set (expand_entry rootDir excludes e out) \<or> (\<forall>x \<in> set excludes. \<not> glob_test x f)" by simp
  then show ?case by (auto simp: expand_entry_def add_once_def Let_def split: if_splits)
qed simp

lemma expand_patterns_new:
  "f \<in> set (fold (expand_pattern rootDir excludes globSync) pats out) \<Longrightarrow>
   f \<in> set out \<or> (f \<in> set pats \<and> \<not> is_glob f) \<or> (\<forall>x \<in> set excludes. \<not> glob_test x f)"
proof (induction pats arbitrary: out)
  case (Cons p pats)
  from Cons.IH [of "expand_pattern rootDir excludes globSync p out"] Cons.prems
  consider "f \<in> set (expand_pattern rootDir excludes globSync p out)" | "f \<in> set pats \<and> \<not> is_glob f"
    | "\<forall>x \<in> set excludes. \<not> glob_test x f" by auto
  then show ?case
    by cases (auto simp: expand_pattern_def add_once_def split: if_splits option.splits dest: expand_entry_new)
qed simp

text \<open>
  C30. A pattern never names a file below a \<open>node_modules\<close> or \<open>.git\<close> directory, at any depth: such a
  file is injected only when the configuration spells out its path. Paths hold no line ends.
\<close>

theorem patterns_avoid_dependencies:
  assumes "f \<in> set (resolve_files rootDir globSync cfg)" "JStr f \<notin> set (elems (get cfg ''files''))" "nonempty_strings (get cfg ''files'')"
    and "w \<in> {''node_modules'', ''.git''}" "\<forall>c \<in> set f. \<not> line_end c"
  shows "\<not> (\<exists>a b. f = a @ w @ ''/'' @ b \<and> (a = [] \<or> last a = CHR ''/''))"
proof
  assume "\<exists>a b. f = a @ w @ ''/'' @ b \<and> (a = [] \<or> last a = CHR ''/'')"
  then obtain a b where ab: "f = a @ w @ ''/'' @ b" "a = [] \<or> last a = CHR ''/''" by blast
  have "f \<notin> set (map str_of (elems (get cfg ''files'')))"
    using assms(2,3) by (force simp: nonempty_strings_def elim: is_str.elims)
  then have "\<forall>x \<in> set hard_excludes. \<not> glob_test x f"
    using assms(1) expand_patterns_new unfolding resolve_files_def Let_def by fastforce
  moreover have "''**/'' @ w @ ''/**'' \<in> set hard_excludes" using assms(4) by (auto simp: hard_excludes_def)
  moreover have "glob_test (''**/'' @ w @ ''/**'') f"
    using assms(4) by (intro dirs_pattern_matches [OF _ _ ab assms(5)]) auto
  ultimately show False by blast
qed

definition glob_config :: jsval where
  "glob_config = JObj [(''files'', JArr [JStr ''**/*.html''])]"

definition globbed :: "string \<Rightarrow> glob_entry list option" where
  "globbed pat = Some [\<lparr>ge_dir = ''/p/docs'', ge_name = ''a.html'', ge_file = True\<rparr>,
     \<lparr>ge_dir = ''/p/node_modules/x'', ge_name = ''b.html'', ge_file = True\<rparr>]"

lemma patterns_avoid_dependencies_witness:
  "resolve_files ''/p'' globbed glob_config = [''docs/a.html''] \<and>
   \<not> (\<exists>a b. ''docs/a.html'' = a @ ''node_modules'' @ ''/'' @ b \<and> (a = [] \<or> last a = CHR ''/''))"
proof -
  have h: "resolve_files ''/p'' globbed glob_config = [''docs/a.html'']" "JStr ''docs/a.html'' \<notin> set (elems (get glob_config ''files''))"
      "nonempty_strings (get glob_config ''files'')" "\<forall>c \<in> set ''docs/a.html''. \<not> line_end c"
    by code_simp+
  have "''docs/a.html'' \<in> set (resolve_files ''/p'' globbed glob_config)" unfolding h(1) by simp
  from patterns_avoid_dependencies [OF this h(2,3) _ h(4), of "''node_modules''"] h(1) show ?thesis by blast
qed

end
