(* ===== verification/Git_Ignore.thy ===== *)
theory Git_Ignore
  imports Inject_Config
begin

text \<open>
  The ignore patterns that \<open>live-inject.mjs\<close> keeps between two marks in the ignore
  file of the project: which file that is, the block, and what a second run does.
  Patterns hold no dollar signs, which the replacement text of \<open>replace\<close> would
  interpret.
\<close>

section \<open>The block\<close>

definition ignore_marker_open :: string where "ignore_marker_open = ''# impeccable-live-ignore-start''"
definition ignore_marker_close :: string where "ignore_marker_close = ''# impeccable-live-ignore-end''"

definition live_ignore_patterns :: "string list" where
  "live_ignore_patterns =
  [''.impeccable/hook.cache.json'',
   ''.impeccable/hook.pending.json'',
   ''.impeccable/config.local.json'',
   ''.impeccable/live/server.json'',
   ''.impeccable/live/roots.json'',
   ''.impeccable/live/app-root.json'',
   ''.impeccable/live/inject-journal.json'',
   ''.impeccable/live/sessions/'',
   ''.impeccable/live/previews/'',
   ''.impeccable/live/annotations/'',
   ''.impeccable/live/artifacts/'',
   ''.impeccable/live/accept-receipts/'',
   ''.impeccable/live/locks/'',
   ''.impeccable/live/cache/'',
   ''.impeccable/live/manual-edit-apply-transaction.json'',
   ''.impeccable/live/manual-edit-events.jsonl'',
   ''.impeccable/live/manual-edit-evidence/'',
   ''.impeccable/live/pending-manual-edits.json'',
   ''.impeccable/live/deferred-svelte-component-accepts.json'',
   ''.impeccable-live.json'',
   ''.impeccable-live/'',
   ''app/.impeccable-live/'',
   ''src/.impeccable-live/'',
   ''node_modules/.impeccable-live/'',
   ''src/lib/impeccable/ImpeccableLiveRoot.svelte'',
   ''src/lib/impeccable/__runtime.js'',
   ''src/lib/impeccable/[0-9a-f]*/'',
   ''plugins/impeccable-live.client.ts'',
   ''app/plugins/impeccable-live.client.ts'',
   ''src/plugins/impeccable-live.client.ts'']"

definition ignore_patterns :: "string list \<Rightarrow> string list" where
  \<comment> \<open>each once, in the order of their first appearance\<close>
  "ignore_patterns extra = fold add_once (live_ignore_patterns @ extra) []"

definition ignore_block :: "string list \<Rightarrow> string" where
  "ignore_block extra = join [line_feed] (ignore_marker_open # ignore_patterns extra @ [ignore_marker_close])"

definition marked_region :: "string \<Rightarrow> (string \<times> string) option" where
  \<comment> \<open>what stands before the first block and after it\<close>
  "marked_region s = Option.bind (index_of s ignore_marker_open) (\<lambda>i.
     let rest = drop (i + length ignore_marker_open) s in
     map_option (\<lambda>j. (take i s, drop (j + length ignore_marker_close) rest)) (index_of rest ignore_marker_close))"

definition updated_ignores :: "string list \<Rightarrow> string \<Rightarrow> string" where
  "updated_ignores extra existing =
    (case marked_region existing of
       Some (before, after) \<Rightarrow> before @ ignore_block extra @ after
     | None \<Rightarrow>
       let prefix = (if existing = [] then [] else if ends_with existing [line_feed] then existing else existing @ [line_feed]) in
       prefix @ (if ends_with prefix [line_feed, line_feed] \<or> prefix = [] then [] else [line_feed]) @ ignore_block extra @ [line_feed])"

section \<open>The ignore file\<close>

text \<open>What \<open>.git\<close> is, in a worktree or a submodule a file that names the directory.\<close>

datatype dot_git = No_Git | Git_Dir | Git_File string | Git_Other

definition gitdir_of :: "string \<Rightarrow> string option" where
  \<comment> \<open>\<open>^gitdir:\s*(.+)$\<close> on the trimmed text\<close>
  "gitdir_of body = Option.bind (strip_ci ''gitdir:'' (js_trim body)) (\<lambda>s.
     let name = skip_ws s in if name = [] \<or> (\<exists>c \<in> set name. line_end c) then None else Some name)"

definition resolve_git_info_exclude_path :: "string \<Rightarrow> dot_git \<Rightarrow> string option" where
  "resolve_git_info_exclude_path cwd git =
    (case git of
       No_Git \<Rightarrow> None
     | Git_Other \<Rightarrow> None
     | Git_Dir \<Rightarrow> Some (resolve cwd ''.git/info/exclude'')
     | Git_File body \<Rightarrow> map_option (\<lambda>g. resolve (resolve cwd g) ''info/exclude'') (gitdir_of body))"

definition resolve_ignore_target :: "string \<Rightarrow> dot_git \<Rightarrow> string \<times> string" where
  \<comment> \<open>the path and the mode\<close>
  "resolve_ignore_target cwd git =
    (case resolve_git_info_exclude_path cwd git of
       Some p \<Rightarrow> (p, ''git-info-exclude'') | None \<Rightarrow> (resolve cwd ''.gitignore'', ''gitignore''))"

definition ensure_live_git_ignores :: "string \<Rightarrow> dot_git \<Rightarrow> string list \<Rightarrow> tree \<Rightarrow> jsval \<times> tree" where
  "ensure_live_git_ignores cwd git extra t =
    (let (p, mode) = resolve_ignore_target cwd git;
         existing = (case file_at t p of None \<Rightarrow> [] | Some s \<Rightarrow> s);
         updated = updated_ignores extra existing in
     (JObj [(''file'', JStr (relative cwd p)), (''mode'', JStr mode), (''changed'', JBool (updated \<noteq> existing)),
        (''patterns'', JArr (map JStr (ignore_patterns extra)))],
      if updated \<noteq> existing then t\<lparr>tr_files := alset p updated (tr_files t)\<rparr> else t))"

section \<open>A second run\<close>

lemma index_of_first:
  assumes "c \<notin> set u"
  shows "\<not> has_sub p (c # u) \<Longrightarrow> index_of (p @ (c # u) @ t) (c # u) = Some (length p)"
proof (induction p)
  case Nil
  then show ?case by (simp add: index_of_def starts_with_def)
next
  case (Cons d p)
  have "\<not> starts_with (d # p @ (c # u) @ t) (c # u)"
  proof
    assume "starts_with (d # p @ (c # u) @ t) (c # u)"
    then obtain x where x: "(d # p) @ (c # u) @ t = (c # u) @ x" by (auto simp: starts_with_split)
    then obtain v where v: "d # p = (c # u) @ v \<or> ((d # p) @ v = c # u \<and> (c # u) @ t = v @ x)"
      unfolding append_eq_append_conv2 [of "d # p"] by metis
    have "(d # p) @ [] = d # p" by simp
    with v consider v where "d # p = (c # u) @ v" | v where "c # u = (d # p) @ v" "v \<noteq> []" "(c # u) @ t = v @ x"
      by (metis append_Nil2)
    then show False
    proof cases
      case 1
      then have "has_sub (d # p) (c # u)" unfolding has_sub_split by (metis append_Nil)
      with Cons.prems show False by simp
    next
      case 2
      then have "hd v = c" by (metis append_Cons hd_append2 list.sel(1))
      moreover have "u = p @ v" using 2(1) by simp
      ultimately show False using 2(2) assms by (cases v) auto
    qed
  qed
  moreover have "\<not> has_sub p (c # u)" using Cons.prems by simp
  ultimately show ?case using Cons.IH by (simp add: index_of_def)
qed

lemma index_of_none: "w \<noteq> [] \<Longrightarrow> \<not> has_sub s w \<Longrightarrow> index_of s w = None"
  by (induction s) (auto simp: index_of_def)

lemma index_of_found: "w \<noteq> [] \<Longrightarrow> index_of s w = Some i \<Longrightarrow> \<not> has_sub (take i s) w"
proof (induction s arbitrary: i)
  case (Cons c s)
  show ?case
  proof (cases "starts_with (c # s) w")
    case True
    with Cons.prems show ?thesis by (simp add: index_of_def)
  next
    case False
    with Cons.prems obtain j where j: "i = Suc j" "index_of s w = Some j" by (auto simp: index_of_def)
    have "\<not> starts_with (c # take j s) w"
    proof
      assume "starts_with (c # take j s) w"
      then obtain t where "c # take j s = w @ t" by (auto simp: starts_with_split)
      then have "c # s = w @ t @ drop j s" by (metis append.assoc append_Cons append_take_drop_id)
      with False show False by (auto simp: starts_with_split)
    qed
    with Cons j show ?thesis by simp
  qed
qed (simp add: index_of_def)

lemma feeds_at_the_end: "line_feed \<notin> set w \<Longrightarrow> w \<noteq> [] \<Longrightarrow> has_sub (s @ replicate n line_feed) w \<Longrightarrow> has_sub s w"
proof (induction n)
  case (Suc n)
  have "replicate (Suc n) line_feed = replicate n line_feed @ [line_feed]" by (simp add: replicate_append_same)
  then have "has_sub ((s @ replicate n line_feed) @ [line_feed]) w" using Suc.prems(3) by (simp only: append.assoc)
  then obtain a b where ab: "(s @ replicate n line_feed) @ [line_feed] = (a @ w) @ b"
    unfolding has_sub_split by (metis append.assoc)
  have "\<exists>b'. s @ replicate n line_feed = a @ w @ b'"
  proof (cases b rule: rev_cases)
    case Nil
    then have "last (a @ w) = line_feed" using ab by (metis append_Nil2 last_snoc)
    with Suc.prems(1,2) show ?thesis by (simp add: last_append split: if_splits) (metis last_in_set)
  next
    case (snoc b' c)
    have "(s @ replicate n line_feed) @ [line_feed] = (a @ w @ b') @ [c]" unfolding ab snoc by (simp only: append.assoc)
    then have "s @ replicate n line_feed = a @ w @ b'" unfolding append1_eq_conv by (rule conjunct1)
    then show ?thesis by (rule exI)
  qed
  with Suc show ?case unfolding has_sub_split by blast
qed simp

lemma join_ends: "join [d] (a # xs @ [b]) = a @ concat (map (\<lambda>x. d # x) xs) @ d # b"
  by (induction xs arbitrary: a) simp_all

lemma add_once_from: "set (fold add_once xs out) = set out \<union> set xs"
  by (induction xs arbitrary: out) (auto simp: add_once_def)

lemma block_parts:
  assumes "\<forall>p \<in> set extra. CHR ''#'' \<notin> set p"
  shows "\<exists>mid. ignore_block extra = ignore_marker_open @ mid @ ignore_marker_close \<and> CHR ''#'' \<notin> set mid"
proof -
  have "\<forall>p \<in> set live_ignore_patterns. CHR ''#'' \<notin> set p" by code_simp
  with assms have "\<forall>p \<in> set (ignore_patterns extra). CHR ''#'' \<notin> set p"
    by (auto simp: ignore_patterns_def add_once_from)
  then have "CHR ''#'' \<notin> set (concat (map (\<lambda>x. line_feed # x) (ignore_patterns extra)) @ [line_feed])"
    by (auto simp: newline_char)
  then show ?thesis
    by (intro exI [of _ "concat (map (\<lambda>x. line_feed # x) (ignore_patterns extra)) @ [line_feed]"]) (simp add: ignore_block_def join_ends)
qed

lemma region_of_block:
  assumes "\<not> has_sub a ignore_marker_open" "\<forall>p \<in> set extra. CHR ''#'' \<notin> set p"
  shows "marked_region (a @ ignore_block extra @ b) = Some (a, b)"
proof -
  obtain mid where mid: "ignore_block extra = ignore_marker_open @ mid @ ignore_marker_close" "CHR ''#'' \<notin> set mid"
    using block_parts [OF assms(2)] by blast
  have o: "index_of (a @ ignore_marker_open @ t) ignore_marker_open = Some (length a)" for t
    using index_of_first [of "CHR ''#''" "tl ignore_marker_open" a t] assms(1) by (simp add: ignore_marker_open_def)
  have "\<not> has_sub mid ignore_marker_close" using has_sub_none [OF mid(2)] by (simp add: ignore_marker_close_def)
  then have c: "index_of (mid @ ignore_marker_close @ b) ignore_marker_close = Some (length mid)"
    using index_of_first [of "CHR ''#''" "tl ignore_marker_close" mid b] by (simp add: ignore_marker_close_def)
  show ?thesis using c by (simp add: marked_region_def mid(1) o)
qed

lemma fresh_block:
  assumes "marked_region existing = None"
  shows "\<exists>n. updated_ignores extra existing = (existing @ replicate n line_feed) @ ignore_block extra @ [line_feed]"
proof (cases "existing = []")
  case True
  then have "updated_ignores extra existing = (existing @ replicate 0 line_feed) @ ignore_block extra @ [line_feed]"
    using assms by (simp add: updated_ignores_def)
  then show ?thesis by blast
next
  case False
  let ?n = "(if ends_with existing [line_feed] then 0 else 1) +
    (if ends_with (existing @ (if ends_with existing [line_feed] then [] else [line_feed])) [line_feed, line_feed] then 0 else (1::nat))"
  have "updated_ignores extra existing = (existing @ replicate ?n line_feed) @ ignore_block extra @ [line_feed]"
    using False assms by (simp add: updated_ignores_def Let_def numeral_2_eq_2)
  then show ?thesis by blast
qed

text \<open>
  Keeping the ignore block is idempotent: a second run finds the block it wrote and changes
  nothing. The file has a whole block or no beginning of one, and patterns hold no hash signs.
\<close>

theorem ignores_settle:
  assumes "marked_region existing \<noteq> None \<or> \<not> has_sub existing ignore_marker_open" "\<forall>p \<in> set extra. CHR ''#'' \<notin> set p"
  shows "updated_ignores extra (updated_ignores extra existing) = updated_ignores extra existing"
proof -
  have "\<exists>a b. updated_ignores extra existing = a @ ignore_block extra @ b \<and> \<not> has_sub a ignore_marker_open"
  proof (cases "marked_region existing")
    case (Some r)
    obtain a b where r: "r = (a, b)" by (cases r)
    with Some obtain i where "index_of existing ignore_marker_open = Some i" "a = take i existing"
      by (auto simp: marked_region_def Let_def bind_eq_Some_conv)
    then have "\<not> has_sub a ignore_marker_open" using index_of_found [of ignore_marker_open] by (auto simp: ignore_marker_open_def)
    with Some r show ?thesis by (auto simp: updated_ignores_def)
  next
    case None
    with assms(1) have no: "\<not> has_sub existing ignore_marker_open" by simp
    have "line_feed \<notin> set ignore_marker_open" unfolding ignore_marker_open_def newline_char by simp
    then have feeds: "\<not> has_sub (existing @ replicate n line_feed) ignore_marker_open" for n
      using no feeds_at_the_end [of ignore_marker_open] by (auto simp: ignore_marker_open_def)
    from fresh_block [OF None] obtain n where "updated_ignores extra existing = (existing @ replicate n line_feed) @ ignore_block extra @ [line_feed]"
      by blast
    with feeds [of n] show ?thesis by metis
  qed
  then obtain a b where u: "updated_ignores extra existing = a @ ignore_block extra @ b" "\<not> has_sub a ignore_marker_open" by blast
  show ?thesis unfolding u(1) using region_of_block [OF u(2) assms(2)] by (simp add: updated_ignores_def)
qed

lemma ignores_settle_witness:
  "updated_ignores [''/gen''] (updated_ignores [''/gen''] ''dist'') = updated_ignores [''/gen''] ''dist''"
proof -
  have "\<not> has_sub ''dist'' ignore_marker_open" "\<forall>p \<in> set [''/gen'']. CHR ''#'' \<notin> set p" by code_simp+
  then show ?thesis by (intro ignores_settle) simp_all
qed

text \<open>
  The beginning of a block without its end makes the second run take everything up to the end of
  the block that the first run added: the lines between are lost.
\<close>

theorem lines_after_an_open_block_are_lost:
  assumes "CHR ''#'' \<notin> set rest" "\<forall>p \<in> set extra. CHR ''#'' \<notin> set p"
  shows "updated_ignores extra (updated_ignores extra (ignore_marker_open @ rest)) = ignore_block extra @ [line_feed]"
proof -
  obtain mid where mid: "ignore_block extra = ignore_marker_open @ mid @ ignore_marker_close" "CHR ''#'' \<notin> set mid"
    using block_parts [OF assms(2)] by blast
  have o: "index_of (ignore_marker_open @ t) ignore_marker_open = Some 0" for t
    using index_of_first [of "CHR ''#''" "tl ignore_marker_open" "[]" t] by (simp add: ignore_marker_open_def)
  have c: "index_of (p @ ignore_marker_close @ t) ignore_marker_close = Some (length p)" if "\<not> has_sub p ignore_marker_close" for p t
    using index_of_first [of "CHR ''#''" "tl ignore_marker_close" p t] that by (simp add: ignore_marker_close_def)
  have lone: "\<not> has_sub s ignore_marker_close" if "CHR ''#'' \<notin> set s" for s
    using has_sub_none [OF that] by (simp add: ignore_marker_close_def)
  have "marked_region (ignore_marker_open @ rest) = None"
    using index_of_none [OF _ lone [OF assms(1)]] by (simp add: marked_region_def o) (simp add: ignore_marker_close_def)
  from fresh_block [OF this] obtain n where n: "updated_ignores extra (ignore_marker_open @ rest) =
      ((ignore_marker_open @ rest) @ replicate n line_feed) @ ignore_block extra @ [line_feed]" by blast
  define feeds where "feeds = replicate n line_feed"
  have u: "updated_ignores extra (ignore_marker_open @ rest) = ignore_marker_open @ (rest @ feeds @ ignore_marker_open @ mid) @ ignore_marker_close @ [line_feed]"
      "set feeds \<subseteq> {line_feed}"
    by (simp only: n mid(1) feeds_def append.assoc) (auto simp: feeds_def)
  have "\<not> has_sub (ignore_marker_open @ mid) ignore_marker_close"
    using lone [of "tl ignore_marker_open @ mid"] mid(2) by (simp add: ignore_marker_open_def ignore_marker_close_def starts_with_Cons)
  moreover have "CHR ''#'' \<notin> set (rest @ feeds)" using assms(1) u(2) by (auto simp: newline_char)
  ultimately have "\<not> has_sub (rest @ feeds @ ignore_marker_open @ mid) ignore_marker_close"
    using has_sub_skip [of "CHR ''#''" "rest @ feeds"] by (simp add: ignore_marker_close_def)
  then have "index_of ((rest @ feeds @ ignore_marker_open @ mid) @ ignore_marker_close @ [line_feed]) ignore_marker_close =
      Some (length (rest @ feeds @ ignore_marker_open @ mid))"
    by (rule c)
  then have "marked_region (updated_ignores extra (ignore_marker_open @ rest)) = Some ([], [line_feed])"
    unfolding u(1) marked_region_def o by simp
  then show ?thesis by (simp add: updated_ignores_def [of extra "updated_ignores extra (ignore_marker_open @ rest)"])
qed

end
