(* ===== verification/Live_Inject.thy ===== *)
theory Live_Inject
  imports Inject_Journal Git_Ignore Live_Server
begin

text \<open>
  A run of \<open>live-inject.mjs\<close>, inserting or removing, with the registry of
  \<open>live/frameworks/index.mjs\<close>: the strategy of the framework that was detected, the
  files of the configuration, the journal. A framework's adapter and the detection are
  arguments; a configuration has been validated. A run that an exception ends has no
  answer, but what it wrote stays.
\<close>

section \<open>The registry\<close>

record source_traits =
  sx_framework :: "string option"
  sx_preview :: string
  sx_style_mode :: string
  sx_style_tag :: string
  sx_comment :: string
  sx_script_attrs :: string

definition style_tag :: "string \<Rightarrow> string" where
  "style_tag attrs = ''<style '' @ attrs @ quoted_attr ''data-impeccable-css'' ''SESSION_ID'' @ ''>''"

definition source_trait_defaults :: source_traits where
  "source_trait_defaults = \<lparr>sx_framework = None, sx_preview = ''source'', sx_style_mode = ''scoped'', sx_style_tag = style_tag [],
     sx_comment = ''html'', sx_script_attrs = []\<rparr>"

definition source_frameworks :: "(string list \<times> source_traits) list" where
  \<comment> \<open>the extensions and traits of each framework, in the order of the registry\<close>
  "source_frameworks =
    (let D = source_trait_defaults in
     [([''.svelte''], D\<lparr>sx_framework := Some ''sveltekit'', sx_preview := ''component''\<rparr>),
      ([''.vue''], D\<lparr>sx_framework := Some ''nuxt''\<rparr>),
      ([''.tsx'', ''.jsx''], D\<lparr>sx_framework := Some ''tanstack-start'', sx_comment := ''jsx''\<rparr>),
      ([''.astro''], D\<lparr>sx_framework := Some ''astro'', sx_style_mode := ''astro-global-prefixed'', sx_style_tag := style_tag ''is:inline '',
         sx_script_attrs := ''is:inline ''\<rparr>),
      ([''.tsx'', ''.jsx''], D\<lparr>sx_framework := Some ''nextjs'', sx_comment := ''jsx''\<rparr>),
      ([''.tsx'', ''.jsx''], D\<lparr>sx_framework := Some ''vite-generic'', sx_comment := ''jsx''\<rparr>),
      ([''.html'', ''.htm''], D\<lparr>sx_framework := Some ''static-html''\<rparr>)])"

definition resolve_source_traits :: "string \<Rightarrow> source_traits" where
  "resolve_source_traits p =
    (case List.find (\<lambda>f. map lower_char (extname_of (last (segs p))) \<in> set (fst f)) source_frameworks of
       Some (_, traits) \<Rightarrow> traits | None \<Rightarrow> source_trait_defaults)"

definition tag_patch_kind :: string where "tag_patch_kind = ''live-tag''"

record adapter =
  ad_name :: string
  ad_apply :: "inject_disk \<Rightarrow> jsval \<times> inject_disk"
  ad_remove :: "inject_disk \<Rightarrow> jsval \<times> inject_disk"
  ad_artifacts :: "jsval list"
  ad_ignores :: "string list"

datatype strategy = Tag_Strategy jsval | Adapter adapter

text \<open>The tag strategy carries the name of the framework, an adapter what it does in this project.\<close>

definition framework_ignore_patterns :: "strategy \<Rightarrow> string list" where
  "framework_ignore_patterns w = (case w of Tag_Strategy _ \<Rightarrow> [] | Adapter ad \<Rightarrow> ad_ignores ad)"

definition tag_artifact :: "string \<Rightarrow> jsval" where
  "tag_artifact f = JObj [(''kind'', JStr ''patched''), (''path'', JStr f), (''patch'', JStr tag_patch_kind),
     (''markers'', JArr (map JStr tag_patch_markers))]"

definition describe_inject_artifacts :: "strategy \<Rightarrow> string list \<Rightarrow> jsval list" where
  "describe_inject_artifacts w names =
    (case w of Tag_Strategy _ \<Rightarrow> map tag_artifact names
     | Adapter ad \<Rightarrow> filter (\<lambda>a. truthy a \<and> truthy (get a ''path'')) (ad_artifacts ad))"

section \<open>One file\<close>

definition anchor_of :: "jsval \<Rightarrow> string" where
  "anchor_of v = (if truthy v then js_string v else [])"

definition page_config :: "jsval \<Rightarrow> inject_config" where
  "page_config cfg = \<lparr>ic_before = anchor_of (get cfg ''insertBefore''), ic_after = anchor_of (get cfg ''insertAfter''),
     ic_jsx = (get cfg ''commentSyntax'' = JStr ''jsx'')\<rparr>"

datatype file_result = Not_Found string | No_Anchor string string | Inserted string bool | Not_Tagged string | Untagged string bool bool

definition inject_file :: "string \<Rightarrow> inject_config \<Rightarrow> string \<Rightarrow> string \<Rightarrow> string \<Rightarrow> tree \<Rightarrow> file_result option \<times> tree" where
  "inject_file cwd cfg port token f t =
    (let p = resolve cwd f in
     case file_at t p of None \<Rightarrow> (Some (Not_Found f), t)
     | Some text \<Rightarrow>
       if \<not> tr_readable t p then (None, t)
       else
         let withoutOld = revert_csp_meta (remove_tag text);
             withTag = insert_tag withoutOld cfg port token (sx_script_attrs (resolve_source_traits f));
             updated = patch_csp_meta withTag port in
         if withTag = withoutOld then (Some (No_Anchor f (if ic_before cfg \<noteq> [] then ic_before cfg else ic_after cfg)), t)
         else if \<not> tr_writable t p then (None, t)
         else (Some (Inserted f (updated \<noteq> withTag)), t\<lparr>tr_files := alset p updated (tr_files t)\<rparr>))"

definition remove_file :: "string \<Rightarrow> string \<Rightarrow> tree \<Rightarrow> file_result option \<times> tree" where
  "remove_file cwd f t =
    (let p = resolve cwd f in
     case file_at t p of None \<Rightarrow> (Some (Not_Found f), t)
     | Some text \<Rightarrow>
       if \<not> tr_readable t p then (None, t)
       else
         let detagged = remove_tag text; updated = revert_csp_meta detagged in
         if updated = text then (Some (Not_Tagged f), t)
         else if \<not> tr_writable t p then (None, t)
         else (Some (Untagged f (detagged \<noteq> text) (updated \<noteq> detagged)), t\<lparr>tr_files := alset p updated (tr_files t)\<rparr>))"

fun over_files :: "(string \<Rightarrow> tree \<Rightarrow> 'r option \<times> tree) \<Rightarrow> string list \<Rightarrow> tree \<Rightarrow> 'r list option \<times> tree" where
  \<comment> \<open>in order, until one throws\<close>
  "over_files g [] t = (Some [], t)"
| "over_files g (f # fs) t =
    (case g f t of (None, t) \<Rightarrow> (None, t)
     | (Some r, t) \<Rightarrow> (case over_files g fs t of (None, t) \<Rightarrow> (None, t) | (Some rs, t) \<Rightarrow> (Some (r # rs), t)))"

definition written_files :: "file_result list \<Rightarrow> string set" where
  "written_files rs = {f. \<exists>b. Inserted f b \<in> set rs}"

section \<open>A run\<close>

record inject_env =
  ie_cwd :: string
  ie_config :: jsval
  ie_files :: "string list"
  ie_strategy :: strategy
  ie_undoers :: undoers
  ie_git :: dot_git
  ie_repo :: "(string \<times> dot_git) option"
  ie_pid :: jsval
  ie_now :: string

text \<open>
  \<open>ie_files\<close> is what \<open>resolve_files\<close> gives, \<open>ie_repo\<close> the root of an enclosing repository
  where the manifest of the live mode names one other than the project.
\<close>

record inject_answer =
  ia_ok :: bool
  ia_results :: "file_result list"
  ia_adapter :: "jsval option"
  ia_ignore :: jsval
  ia_healed :: "(string \<times> healing) list"

definition adapter_ok :: "jsval \<Rightarrow> bool" where
  "adapter_ok r = (\<not> (truthy r \<and> truthy (get r ''error'')))"

definition keep_ignores :: "inject_env \<Rightarrow> tree \<Rightarrow> jsval \<times> tree" where
  "keep_ignores env t =
    (let (r, t) = ensure_live_git_ignores (ie_cwd env) (ie_git env) (framework_ignore_patterns (ie_strategy env)) t in
     (r, case ie_repo env of None \<Rightarrow> t | Some (repo, git) \<Rightarrow> snd (ensure_live_git_ignores repo git [] t)))"

definition injection_of :: "inject_env \<Rightarrow> jsval \<Rightarrow> string \<Rightarrow> injection_record" where
  "injection_of env framework port =
    \<lparr>rc_root = resolve (ie_cwd env) [], rc_framework = framework, rc_port = JStr port, rc_pid = ie_pid env, rc_at = ie_now env\<rparr>"

definition insert_run :: "inject_env \<Rightarrow> string \<Rightarrow> string \<Rightarrow> inject_disk \<Rightarrow> inject_answer option \<times> inject_disk" where
  "insert_run env port token d =
    (let planned = describe_inject_artifacts (ie_strategy env) (ie_files env);
         (h, d) = heal_inject_journal (ie_undoers env) (ie_cwd env) (map (\<lambda>a. get a ''path'') planned) d in
     if hp_thrown h then (None, d)
     else let (ignored, t) = keep_ignores env (ij_tree d); d = d\<lparr>ij_tree := t\<rparr> in
     case ie_strategy env of
       Adapter ad \<Rightarrow>
         let (r, d) = ad_apply ad d in
         (Some \<lparr>ia_ok = adapter_ok r, ia_results = [], ia_adapter = Some r, ia_ignore = ignored, ia_healed = hp_healed h\<rparr>,
          if adapter_ok r then record_injection (injection_of env (JStr (ad_name ad)) port) planned d else d)
     | Tag_Strategy framework \<Rightarrow>
         (case over_files (inject_file (ie_cwd env) (page_config (ie_config env)) port token) (ie_files env) (ij_tree d) of
            (None, t) \<Rightarrow> (None, d\<lparr>ij_tree := t\<rparr>)
          | (Some rs, t) \<Rightarrow>
            (Some \<lparr>ia_ok = (written_files rs \<noteq> {}), ia_results = rs, ia_adapter = None, ia_ignore = ignored, ia_healed = hp_healed h\<rparr>,
             record_injection (injection_of env framework port)
               (filter (\<lambda>a. str_of (get a ''path'') \<in> written_files rs) planned) (d\<lparr>ij_tree := t\<rparr>))))"

definition finish_removal :: "inject_env \<Rightarrow> bool \<Rightarrow> file_result list \<Rightarrow> jsval option \<Rightarrow> inject_disk \<Rightarrow> inject_answer option \<times> inject_disk" where
  "finish_removal env ok rs r d =
    (let (h, d) = heal_inject_journal (ie_undoers env) (ie_cwd env) [] d in
     if hp_thrown h then (None, d)
     else (Some \<lparr>ia_ok = ok, ia_results = rs, ia_adapter = r, ia_ignore = JUndef, ia_healed = hp_healed h\<rparr>, clear_inject_journal d))"

definition remove_run :: "inject_env \<Rightarrow> inject_disk \<Rightarrow> inject_answer option \<times> inject_disk" where
  "remove_run env d =
    (case ie_strategy env of
       Adapter ad \<Rightarrow> let (r, d) = ad_remove ad d in finish_removal env (adapter_ok r) [] (Some r) d
     | Tag_Strategy _ \<Rightarrow>
         (case over_files (remove_file (ie_cwd env)) (ie_files env) (ij_tree d) of
            (None, t) \<Rightarrow> (None, d\<lparr>ij_tree := t\<rparr>)
          | (Some rs, t) \<Rightarrow> finish_removal env True rs None (d\<lparr>ij_tree := t\<rparr>)))"

section \<open>The arguments of a run\<close>

datatype inject_request = Show_Help | Check_Config | Remove_Run | Missing_Port | Insert_Run int string

definition adopted_token :: "jsval \<Rightarrow> int \<Rightarrow> string" where
  \<comment> \<open>the token of a running helper, whose record is undefined where it cannot be read\<close>
  "adopted_token info port =
    (if truthy (get info ''token'') \<and> to_number (get info ''port'') = jint port then js_string (get info ''token'') else [])"

fun arg_after :: "string \<Rightarrow> string list \<Rightarrow> string option" where
  \<comment> \<open>what follows the first occurrence of a flag\<close>
  "arg_after flag [] = None"
| "arg_after flag (a # args) = (if a = flag then (case args of [] \<Rightarrow> None | b # _ \<Rightarrow> Some b) else arg_after flag args)"

definition inject_request_of :: "jsval \<Rightarrow> string list \<Rightarrow> inject_request" where
  "inject_request_of info args =
    (if ''--help'' \<in> set args \<or> ''-h'' \<in> set args then Show_Help
     else if ''--check'' \<in> set args then Check_Config
     else if ''--remove'' \<in> set args then Remove_Run
     else (case Option.bind (arg_after ''--port'' args) parse_int of None \<Rightarrow> Missing_Port
       | Some port \<Rightarrow>
         Insert_Run port (case arg_after ''--token'' args of Some token \<Rightarrow> if token \<noteq> [] then token else adopted_token info port
           | None \<Rightarrow> adopted_token info port)))"

definition check_config :: "(string + jsval) option \<Rightarrow> string \<Rightarrow> jsval" where
  \<comment> \<open>no configuration, one that is no JSON with the error's text, or the value\<close>
  "check_config loaded p =
    (let invalid = (\<lambda>text. JObj [(''ok'', JBool False), (''error'', JStr ''config_invalid''), (''message'', JStr text), (''path'', JStr p)]) in
     case loaded of
       None \<Rightarrow> JObj [(''ok'', JBool False), (''error'', JStr ''config_missing''), (''path'', JStr p)]
     | Some (Inl text) \<Rightarrow> invalid text
     | Some (Inr cfg) \<Rightarrow> (case validate_config cfg of Some text \<Rightarrow> invalid text
         | None \<Rightarrow> JObj [(''ok'', JBool True), (''config'', cfg), (''path'', JStr p)]))"

section \<open>Healing a run that was lost\<close>

abbreviation tagged_page :: "inject_config \<Rightarrow> string \<Rightarrow> string \<Rightarrow> string \<Rightarrow> string \<Rightarrow> string" where
  "tagged_page cfg port token f text \<equiv> insert_tag text cfg port token (sx_script_attrs (resolve_source_traits f))"

definition injectable :: "inject_config \<Rightarrow> string \<Rightarrow> string \<Rightarrow> string \<Rightarrow> string \<Rightarrow> bool" where
  \<comment> \<open>a page without traces of an earlier run and without a policy, for a script put before an anchor\<close>
  "injectable cfg port token f text =
    (let line = script_line port token (sx_script_attrs (resolve_source_traits f)); new = tagged_page cfg port token f text in
     \<not> holds_marker text \<and> ic_before cfg \<noteq> [] \<and> detect_line_ending text \<noteq> [carriage_return] \<and>
     \<not> has_sub line marker_close_text \<and> line_feed \<notin> set line \<and>
     (ic_jsx cfg \<longrightarrow> \<not> has_sub new ''<!--'') \<and> find_csp_meta_tags text = [] \<and> find_csp_meta_tags new = [])"

lemma tagged_page_holds_marker:
  assumes "injectable cfg port token f text" "tagged_page cfg port token f text \<noteq> text"
  shows "has_sub (tagged_page cfg port token f text) marker_open_text"
proof -
  have e: "detect_line_ending text \<in> {[line_feed], [carriage_return, line_feed]}"
    using assms(1) by (auto simp: injectable_def Let_def detect_line_ending_def split: if_splits)
  have "ic_before cfg \<noteq> []" "line_feed \<notin> set (script_line port token (sx_script_attrs (resolve_source_traits f)))"
    using assms(1) by (simp_all add: injectable_def Let_def)
  from inserted_before [OF this(1) assms(2)] normal_tag_block [OF this(2) e] obtain a b where
    "tagged_page cfg port token f text = a @ comment (ic_jsx cfg) marker_open_text @ b" by (metis append.assoc)
  moreover have "\<exists>x y. comment (ic_jsx cfg) marker_open_text = x @ marker_open_text @ y"
    by (intro exI [of _ "(if ic_jsx cfg then ''{/*'' else ''<!--'') @ '' ''"] exI [of _ "'' '' @ (if ic_jsx cfg then ''*/}'' else ''-->'')"])
      (simp add: comment_def)
  then obtain x y where "comment (ic_jsx cfg) marker_open_text = x @ marker_open_text @ y" by blast
  ultimately have "tagged_page cfg port token f text = (a @ x) @ marker_open_text @ (y @ b)" by simp
  then show ?thesis unfolding has_sub_split by blast
qed

lemma injected_page:
  assumes "injectable cfg port token f text"
  shows "revert_csp_meta (remove_tag text) = text"
    "patch_csp_meta (tagged_page cfg port token f text) port = tagged_page cfg port token f text"
    "unpatch_tag_file (tagged_page cfg port token f text) = text"
proof -
  have clean: "remove_tag text = text" using assms by (simp add: injectable_def Let_def remove_tag_without_marker)
  have gone: "remove_tag (tagged_page cfg port token f text) = text"
    using assms by (intro remove_undoes_insert) (auto simp: injectable_def Let_def)
  show "revert_csp_meta (remove_tag text) = text"
    "patch_csp_meta (tagged_page cfg port token f text) port = tagged_page cfg port token f text"
    "unpatch_tag_file (tagged_page cfg port token f text) = text"
    using assms clean gone by (simp_all add: injectable_def Let_def unpatch_tag_file_def no_policy_tags)
qed

definition ready :: "string \<Rightarrow> inject_config \<Rightarrow> string \<Rightarrow> string \<Rightarrow> tree \<Rightarrow> string \<Rightarrow> bool" where
  "ready cwd cfg port token t f =
    (inside_project cwd (resolve cwd f) \<and>
     (case file_at t (resolve cwd f) of None \<Rightarrow> True
      | Some text \<Rightarrow> tr_readable t (resolve cwd f) \<and> tr_writable t (resolve cwd f) \<and> injectable cfg port token f text))"

definition tagged_from :: "string \<Rightarrow> inject_config \<Rightarrow> string \<Rightarrow> string \<Rightarrow> string set \<Rightarrow> tree \<Rightarrow> tree \<Rightarrow> bool" where
  \<comment> \<open>the second tree is the first with the script in these files\<close>
  "tagged_from cwd cfg port token fs t t' =
    (tr_readable t' = tr_readable t \<and> tr_writable t' = tr_writable t \<and>
     (\<forall>q. q \<notin> resolve cwd ` fs \<longrightarrow> file_at t' q = file_at t q) \<and>
     (\<forall>f \<in> fs. \<exists>text. file_at t (resolve cwd f) = Some text \<and> injectable cfg port token f text \<and>
        tagged_page cfg port token f text \<noteq> text \<and> file_at t' (resolve cwd f) = Some (tagged_page cfg port token f text)))"

lemma inject_ready_file:
  assumes "ready cwd cfg port token t f"
  shows "\<exists>r t'. inject_file cwd cfg port token f t = (Some r, t') \<and> written_files [r] \<subseteq> {f} \<and>
    tagged_from cwd cfg port token (written_files [r]) t t'"
proof (cases "file_at t (resolve cwd f)")
  case None
  then show ?thesis by (simp add: inject_file_def written_files_def tagged_from_def)
next
  case (Some page)
  let ?new = "tagged_page cfg port token f page"
  have r: "tr_readable t (resolve cwd f)" "tr_writable t (resolve cwd f)" "injectable cfg port token f page"
    using assms Some by (simp_all add: ready_def)
  show ?thesis
  proof (cases "?new = page")
    case True
    then show ?thesis using Some r(1) injected_page(1) [OF r(3)]
      by (simp add: inject_file_def Let_def written_files_def tagged_from_def)
  next
    case False
    then have "inject_file cwd cfg port token f t =
        (Some (Inserted f False), t\<lparr>tr_files := alset (resolve cwd f) ?new (tr_files t)\<rparr>)"
      using Some r injected_page(1,2) [OF r(3)] by (simp add: inject_file_def Let_def)
    moreover have "written_files [Inserted f False] = {f}" by (auto simp: written_files_def)
    ultimately show ?thesis using False Some r(3) by (simp add: tagged_from_def) (simp add: file_at_def)
  qed
qed

lemma written_files_Cons: "written_files (r # rs) = written_files [r] \<union> written_files rs"
  by (auto simp: written_files_def)

lemma inject_ready_files:
  "distinct (map (resolve cwd) fs) \<Longrightarrow> (\<forall>f \<in> set fs. ready cwd cfg port token t f) \<Longrightarrow>
   \<exists>rs t'. over_files (inject_file cwd cfg port token) fs t = (Some rs, t') \<and> written_files rs \<subseteq> set fs \<and>
     tagged_from cwd cfg port token (written_files rs) t t'"
proof (induction fs arbitrary: t)
  case Nil
  then show ?case by (simp add: written_files_def tagged_from_def)
next
  case (Cons f fs)
  obtain r t1 where 1: "inject_file cwd cfg port token f t = (Some r, t1)" "written_files [r] \<subseteq> {f}"
      "tagged_from cwd cfg port token (written_files [r]) t t1"
    using inject_ready_file Cons.prems(2) by (metis list.set_intros(1))
  have same: "file_at t1 q = file_at t q" if "q \<noteq> resolve cwd f" for q using 1(2,3) that by (auto simp: tagged_from_def)
  have apart: "resolve cwd g \<noteq> resolve cwd f" if "g \<in> set fs" for g using Cons.prems(1) that by (metis distinct.simps(2) image_eqI list.set_map list.simps(9))
  have access: "tr_readable t1 = tr_readable t" "tr_writable t1 = tr_writable t" using 1(3) by (simp_all add: tagged_from_def)
  have "ready cwd cfg port token t1 g" if "g \<in> set fs" for g
  proof -
    have "ready cwd cfg port token t g" using Cons.prems(2) that by simp
    then show ?thesis unfolding ready_def same [OF apart [OF that]] access .
  qed
  with Cons.IH [of t1] Cons.prems(1) obtain rs t2 where 2: "over_files (inject_file cwd cfg port token) fs t1 = (Some rs, t2)"
      "written_files rs \<subseteq> set fs" "tagged_from cwd cfg port token (written_files rs) t1 t2" by auto
  have "tagged_from cwd cfg port token (written_files [r] \<union> written_files rs) t t2"
    unfolding tagged_from_def
  proof (intro conjI allI ballI impI)
    show "tr_readable t2 = tr_readable t" "tr_writable t2 = tr_writable t" using 1(3) 2(3) by (simp_all add: tagged_from_def)
  next
    fix q assume "q \<notin> resolve cwd ` (written_files [r] \<union> written_files rs)"
    then show "file_at t2 q = file_at t q" using 1(3) 2(3) by (simp add: tagged_from_def image_Un)
  next
    fix g assume "g \<in> written_files [r] \<union> written_files rs"
    then consider "g \<in> written_files [r]" | "g \<in> written_files rs" by blast
    then show "\<exists>text. file_at t (resolve cwd g) = Some text \<and> injectable cfg port token g text \<and>
        tagged_page cfg port token g text \<noteq> text \<and> file_at t2 (resolve cwd g) = Some (tagged_page cfg port token g text)"
    proof cases
      case 1
      then have "resolve cwd g \<notin> resolve cwd ` written_files rs" using apart \<open>written_files [r] \<subseteq> {f}\<close> 2(2) by fastforce
      then have "file_at t2 (resolve cwd g) = file_at t1 (resolve cwd g)" using 2(3) by (simp add: tagged_from_def)
      with 1 \<open>tagged_from cwd cfg port token (written_files [r]) t t1\<close> show ?thesis by (simp add: tagged_from_def)
    next
      case 2
      then have eq: "file_at t1 (resolve cwd g) = file_at t (resolve cwd g)" using same apart \<open>written_files rs \<subseteq> set fs\<close> by blast
      have "\<exists>text. file_at t1 (resolve cwd g) = Some text \<and> injectable cfg port token g text \<and>
          tagged_page cfg port token g text \<noteq> text \<and> file_at t2 (resolve cwd g) = Some (tagged_page cfg port token g text)"
        using 2 \<open>tagged_from cwd cfg port token (written_files rs) t1 t2\<close> unfolding tagged_from_def by blast
      then show ?thesis unfolding eq .
    qed
  qed
  moreover have "written_files [r] \<union> written_files rs \<subseteq> set (f # fs)" using 1(2) 2(2) by auto
  ultimately show ?case using 1(1) 2(1) written_files_Cons [of r rs] by auto
qed

lemma heal_tag_artifact:
  assumes "undoers tag_patch_kind = Some unpatch_tag_file" "inside_project cwd (resolve cwd f)"
    and "tr_readable (ij_tree d) (resolve cwd f)" "tr_writable (ij_tree d) (resolve cwd f)"
    and page: "file_at (ij_tree d) (resolve cwd f) = Some new" "has_sub new marker_open_text" "unpatch_tag_file new = old" "new \<noteq> old"
  shows "heal_artifact undoers cwd (tag_artifact f) d =
    (Unpatched, d\<lparr>ij_tree := (ij_tree d)\<lparr>tr_files := alset (resolve cwd f) old (tr_files (ij_tree d))\<rparr>\<rparr>)"
proof -
  have a: "get (tag_artifact f) ''path'' = JStr f" "get (tag_artifact f) ''kind'' = JStr ''patched''"
      "get (tag_artifact f) ''patch'' = JStr tag_patch_kind" "markers_of (tag_artifact f) = map JStr tag_patch_markers"
    by (simp_all add: tag_artifact_def markers_of_def)
  have "\<exists>m \<in> set (map JStr tag_patch_markers). has_sub new (js_string m)" using page(2) by (simp add: tag_patch_markers_def)
  then show ?thesis using assms
    by (simp add: heal_artifact_def a read_if_present_def heal_patched_def Let_def)
qed

lemma heal_tagged_files:
  assumes "undoers tag_patch_kind = Some unpatch_tag_file" and "distinct (map (resolve cwd) fs)" "\<not> hp_thrown h"
    and "\<forall>f \<in> set fs. inside_project cwd (resolve cwd f) \<and> tr_readable t (resolve cwd f) \<and> tr_writable t (resolve cwd f)"
    and "tagged_from cwd cfg port token (set fs) t (ij_tree d)"
  shows "\<exists>h' d'. fold (heal_one undoers cwd {}) (map tag_artifact fs) (h, d) = (h', d') \<and> \<not> hp_thrown h' \<and>
    (\<forall>q. file_at (ij_tree d') q = file_at t q)"
  using assms(2-5)
proof (induction fs arbitrary: h d)
  case Nil
  then show ?case by (simp add: tagged_from_def)
next
  case (Cons f fs)
  let ?p = "resolve cwd f"
  obtain old where old: "file_at t ?p = Some old" "injectable cfg port token f old" "tagged_page cfg port token f old \<noteq> old"
      "file_at (ij_tree d) ?p = Some (tagged_page cfg port token f old)"
    using Cons.prems(4) by (auto simp: tagged_from_def)
  have access: "tr_readable (ij_tree d) = tr_readable t" "tr_writable (ij_tree d) = tr_writable t"
    using Cons.prems(4) by (simp_all add: tagged_from_def)
  let ?d = "d\<lparr>ij_tree := (ij_tree d)\<lparr>tr_files := alset ?p old (tr_files (ij_tree d))\<rparr>\<rparr>"
  have heal: "heal_artifact undoers cwd (tag_artifact f) d = (Unpatched, ?d)"
    by (rule heal_tag_artifact [where new = "tagged_page cfg port token f old"])
      (use Cons.prems(3) access assms(1) old(3,4) tagged_page_holds_marker [OF old(2,3)] injected_page(3) [OF old(2)] in auto)
  have "is_str (get (tag_artifact f) ''path'')" by (simp add: tag_artifact_def)
  then obtain h1 where step: "heal_one undoers cwd {} (tag_artifact f) (h, d) = (h1, ?d)" "\<not> hp_thrown h1"
    using heal Cons.prems(2) by (auto simp: heal_one_def)
  have apart: "resolve cwd g \<noteq> ?p" if "g \<in> set fs" for g
    using Cons.prems(1) that by (metis distinct.simps(2) image_eqI list.set_map list.simps(9))
  have q: "file_at (ij_tree ?d) q = (if q = ?p then Some old else file_at (ij_tree d) q)" for q by (simp add: file_at_def)
  have "tagged_from cwd cfg port token (set fs) t (ij_tree ?d)"
    unfolding tagged_from_def
  proof (intro conjI allI ballI impI)
    show "tr_readable (ij_tree ?d) = tr_readable t" "tr_writable (ij_tree ?d) = tr_writable t" using access by simp_all
  next
    fix p assume "p \<notin> resolve cwd ` set fs"
    then show "file_at (ij_tree ?d) p = file_at t p" unfolding q using Cons.prems(4) old(1) by (simp add: tagged_from_def)
  next
    fix g assume g: "g \<in> set fs"
    then show "\<exists>text. file_at t (resolve cwd g) = Some text \<and> injectable cfg port token g text \<and>
        tagged_page cfg port token g text \<noteq> text \<and> file_at (ij_tree ?d) (resolve cwd g) = Some (tagged_page cfg port token g text)"
      unfolding q using Cons.prems(4) apart [OF g] by (simp add: tagged_from_def)
  qed
  with Cons.IH [of h1 ?d] Cons.prems(1,3) step(2) show ?case by (simp add: step(1))
qed

lemma recorded_artifacts:
  "artifacts \<noteq> [] \<Longrightarrow> \<exists>j. read_inject_journal (record_injection r artifacts d) = Some j \<and> elems (get j ''artifacts'') = artifacts"
  by (simp add: record_injection_def write_inject_journal_def read_inject_journal_def)

lemma record_injection_tree [simp]: "ij_tree (record_injection r artifacts d) = ij_tree d"
  by (simp add: record_injection_def write_inject_journal_def clear_inject_journal_def)


text \<open>
  A second run that no longer finds its anchor leaves the old script in the page and
  takes the page off the journal.
\<close>

theorem missed_anchor_forgets_the_page:
  assumes "ie_strategy env = Tag_Strategy framework" "ie_files env = [f]"
    and "read_inject_journal d = Some j" "elems (get j ''artifacts'') = [tag_artifact f]"
    and "snd (keep_ignores env (ij_tree d)) = t" "file_at t (resolve (ie_cwd env) f) = Some page" "tr_readable t (resolve (ie_cwd env) f)"
    and "tagged_page (page_config (ie_config env)) port token f (revert_csp_meta (remove_tag page)) = revert_csp_meta (remove_tag page)"
  shows "\<exists>r d1. insert_run env port token d = (Some r, d1) \<and> ij_journal d1 = None \<and> ij_tree d1 = t"
proof -
  have path: "get (tag_artifact f) ''path'' = JStr f" by (simp add: tag_artifact_def)
  obtain g where k: "keep_ignores env (ij_tree d) = (g, t)" using assms(5) by (cases "keep_ignores env (ij_tree d)") simp
  have "heal_inject_journal (ie_undoers env) (ie_cwd env) [JStr f] d =
      (no_healing\<lparr>hp_kept := [tag_artifact f]\<rparr>, write_inject_journal (with_props j [(''artifacts'', JArr [tag_artifact f])]) d)"
    by (simp add: heal_inject_journal_def assms(3,4) heal_one_def path) (simp add: no_healing_def)
  with k assms(6-8) show ?thesis
    by (simp add: insert_run_def describe_inject_artifacts_def assms(1,2) path write_inject_journal_def no_healing_def inject_file_def Let_def
        written_files_def record_injection_def clear_inject_journal_def)
qed

text \<open>A run that throws on a later page has recorded none of those it wrote before.\<close>

theorem thrown_run_is_not_recorded:
  assumes "ie_strategy env = Tag_Strategy framework" "ij_journal d = None"
    and "over_files (inject_file (ie_cwd env) (page_config (ie_config env)) port token) (ie_files env) (snd (keep_ignores env (ij_tree d))) = (None, t)"
  shows "insert_run env port token d = (None, d\<lparr>ij_tree := t\<rparr>)"
proof -
  obtain g t0 where k: "keep_ignores env (ij_tree d) = (g, t0)" by fastforce
  have "read_inject_journal d = None" using assms(2) by (simp add: read_inject_journal_def)
  then have "heal_inject_journal (ie_undoers env) (ie_cwd env) keep d = (no_healing, d)" for keep by (simp add: heal_inject_journal_def)
  with k assms(3) show ?thesis by (simp add: insert_run_def assms(1) no_healing_def Let_def)
qed

definition sample_inject_env :: inject_env where
  "sample_inject_env = \<lparr>ie_cwd = ''/p'',
     ie_config = JObj [(''files'', JArr [JStr ''index.html'']), (''insertBefore'', JStr ''</body>''), (''commentSyntax'', JStr ''html'')],
     ie_files = [''index.html''], ie_strategy = Tag_Strategy (JStr ''static-html''),
     ie_undoers = (\<lambda>k. if k = tag_patch_kind then Some unpatch_tag_file else None),
     ie_git = No_Git, ie_repo = None, ie_pid = jint 7, ie_now = ''2026-01-01''\<rparr>"

definition sample_inject_disk :: inject_disk where
  "sample_inject_disk = \<lparr>ij_tree = \<lparr>tr_files = [(''/p/index.html'', body_page)], tr_readable = (\<lambda>_. True), tr_writable = (\<lambda>_. True),
     tr_error = ''EACCES''\<rparr>, ij_dirs = [''/p''], ij_journal = None\<rparr>"

lemma sample_page_is_ready:
  "injectable (page_config (ie_config sample_inject_env)) ''8400'' ''ab'' ''index.html'' body_page"
  by code_simp

lemma sample_ignores: "snd (keep_ignores sample_inject_env (ij_tree sample_inject_disk)) =
  (ij_tree sample_inject_disk)\<lparr>tr_files := [(''/p/index.html'', body_page), (''/p/.gitignore'', ignore_block [] @ [line_feed])]\<rparr>"
proof -
  have t: "resolve_ignore_target ''/p'' No_Git = (''/p/.gitignore'', ''gitignore'')" by code_simp
  have u: "updated_ignores [] [] = ignore_block [] @ [line_feed]"
    by (simp add: updated_ignores_def marked_region_def index_of_def ignore_marker_open_def)
  have "ignore_block [] \<noteq> []" using block_parts [of "[]"] by (auto simp: ignore_marker_open_def)
  then show ?thesis
    by (simp add: keep_ignores_def ensure_live_git_ignores_def sample_inject_env_def sample_inject_disk_def t u file_at_def
        framework_ignore_patterns_def)
qed


end
