(* ===== verification/Hook_Config.thy ===== *)
theory Hook_Config
  imports Template_Search Live_Wrap
begin

text \<open>
  The configuration of the design hook, \<open>hook-lib.mjs\<close>: what a project ignores, how
  rules and values are normalized, colors that count as equal, and the merge of the
  shared and the local file over the defaults.
\<close>

section \<open>Normal forms\<close>

definition or_string :: "jsval \<Rightarrow> string" where
  \<comment> \<open>\<open>String(v || '')\<close>\<close>
  "or_string v = (if truthy v then js_string v else [])"

definition unquote :: "string \<Rightarrow> string" where
  \<comment> \<open>\<open>replace(/^["']|["']$/g, '')\<close>\<close>
  "unquote s =
    (let t = (if s \<noteq> [] \<and> hd s \<in> html_quotes then tl s else s) in
     if t \<noteq> [] \<and> last t \<in> html_quotes then butlast t else t)"

definition clean_ignore_value_display :: "jsval \<Rightarrow> string" where
  "clean_ignore_value_display v =
    squeeze_ws (map (\<lambda>c. if c = CHR ''+'' then CHR '' '' else c) (unquote (js_trim (or_string v))))"

definition normalize_ignore_value :: "jsval \<Rightarrow> string" where
  "normalize_ignore_value v = map lower_char (clean_ignore_value_display v)"

definition normalize_ignore_rule :: "jsval \<Rightarrow> string" where
  "normalize_ignore_rule v = map lower_char (js_trim (or_string v))"

definition first_once :: "'a list \<Rightarrow> 'a list" where
  \<comment> \<open>\<open>Array.from(new Set(xs))\<close>\<close>
  "first_once xs = rev (remdups (rev xs))"

definition once_each_text :: "jsval list \<Rightarrow> string list" where
  "once_each_text vs = first_once (map js_string vs)"

section \<open>Colors\<close>

type_synonym color = "int \<times> int \<times> int \<times> rat"

definition round_half :: "rat \<Rightarrow> int" where
  \<comment> \<open>\<open>Math.round\<close>\<close>
  "round_half q = \<lfloor>q + 1 / 2\<rfloor>"

definition decimal_number :: "string \<Rightarrow> (rat \<times> string) option" where
  \<comment> \<open>\<open>-?\d*\.?\d+\<close> at the beginning, and what follows\<close>
  "decimal_number s =
    (let neg = starts_with s ''-''; t = (if neg then tl s else s);
         whole = takeWhile is_digit t; r = dropWhile is_digit t;
         frac = (case r of [] \<Rightarrow> [] | c # u \<Rightarrow> if c = CHR ''.'' then takeWhile is_digit u else []);
         q = of_nat (digits_val (whole @ frac)) / 10 ^ length frac
     in if whole = [] \<and> frac = [] then None
        else Some (if neg then - q else q, if frac = [] then r else drop (Suc (length frac)) r))"

definition parse_rgb_channel :: "string \<Rightarrow> int option" where
  "parse_rgb_channel raw = Option.bind (decimal_number (js_trim raw)) (\<lambda>(q, rest).
     if rest \<noteq> [] \<and> rest \<noteq> ''%'' then None
     else let scaled = (if rest = [] then q else q * 255 / 100) in if scaled < 0 \<or> 255 < scaled then None else Some (round_half scaled))"

definition parse_alpha_channel :: "string \<Rightarrow> rat option" where
  "parse_alpha_channel raw = Option.bind (decimal_number (js_trim raw)) (\<lambda>(q, rest).
     if rest \<noteq> [] \<and> rest \<noteq> ''%'' then None
     else let alpha = (if rest = [] then q else q / 100) in if 0 \<le> alpha \<and> alpha \<le> 1 then Some alpha else None)"

definition math_pi :: rat where
  \<comment> \<open>the double \<open>Math.PI\<close>\<close>
  "math_pi = 884279719003555 / 281474976710656"

definition parse_hue_channel :: "string \<Rightarrow> rat option" where
  "parse_hue_channel raw = Option.bind (decimal_number (js_trim raw)) (\<lambda>(q, unit).
     if unit = [] \<or> unit = ''deg'' then Some q
     else if unit = ''turn'' then Some (q * 360)
     else if unit = ''rad'' then Some (q * (180 / math_pi))
     else if unit = ''grad'' then Some (q * 9 / 10)
     else None)"

definition parse_percent_channel :: "string \<Rightarrow> rat option" where
  "parse_percent_channel raw = Option.bind (decimal_number (js_trim raw)) (\<lambda>(q, rest).
     if rest = ''%'' \<and> 0 \<le> q \<and> q \<le> 100 then Some (q / 100) else None)"

definition clamp_byte :: "int \<Rightarrow> int" where
  "clamp_byte n = min 255 (max 0 n)"

definition to_rgb :: "rat \<Rightarrow> rat \<Rightarrow> rat \<Rightarrow> rat" where
  "to_rgb p q t =
    (let a = (if t < 0 then t + 1 else t); channel = (if 1 < a then a - 1 else a) in
     if channel < 1 / 6 then p + (q - p) * 6 * channel
     else if channel < 1 / 2 then q
     else if channel < 2 / 3 then p + (q - p) * (2 / 3 - channel) * 6
     else p)"

definition hsl_to_rgb :: "rat \<Rightarrow> rat \<Rightarrow> rat \<Rightarrow> rat \<Rightarrow> color" where
  "hsl_to_rgb hue saturation lightness alpha =
    (let h = hue / 360 - of_int \<lfloor>hue / 360\<rfloor> in
     if saturation = 0 then let gray = clamp_byte (round_half (lightness * 255)) in (gray, gray, gray, alpha)
     else
       let q = (if lightness < 1 / 2 then lightness * (1 + saturation) else lightness + saturation - lightness * saturation);
           p = 2 * lightness - q;
           byte = (\<lambda>t. clamp_byte (round_half (to_rgb p q t * 255)))
       in (byte (h + 1 / 3), byte h, byte (h - 1 / 3), alpha))"

definition hex_number :: "string \<Rightarrow> nat" where
  "hex_number s = foldl (\<lambda>n c. 16 * n + the (hex_val c)) 0 s"

definition parse_hex_ignore_color :: "string \<Rightarrow> color" where
  "parse_hex_ignore_color hex =
    (let pair = (\<lambda>i. if length hex \<le> 4 then hex_number [hex ! i, hex ! i] else hex_number [hex ! (2 * i), hex ! (2 * i + 1)]);
         alpha = (if length hex = 4 \<or> length hex = 8 then of_nat (pair 3) / 255 else 1)
     in (int (pair 0), int (pair 1), int (pair 2), alpha))"

definition trimmed_parts :: "char \<Rightarrow> string \<Rightarrow> string list" where
  "trimmed_parts d s = filter (\<lambda>w. w \<noteq> []) (map js_trim (split_on d s))"

definition split_color_args :: "string \<Rightarrow> string list" where
  "split_color_args body =
    (let s = js_trim body in
     if CHR '','' \<in> set s
     then let parts = trimmed_parts CHR '','' s in
       if parts \<noteq> [] \<and> CHR ''/'' \<in> set (last parts) then butlast parts @ trimmed_parts CHR ''/'' (last parts) else parts
     else filter (\<lambda>w. w \<noteq> []) (cut_at (\<lambda>c. is_ws c \<or> c = CHR ''/'') s))"

definition call_body :: "string \<Rightarrow> string \<Rightarrow> string option" where
  \<comment> \<open>\<open>^NAMEa?\((.*)\)$\<close>\<close>
  "call_body name s = Option.bind (strip name s) (\<lambda>t.
     Option.bind (strip ''('' (if starts_with t ''a'' then tl t else t)) (\<lambda>u.
       if u \<noteq> [] \<and> last u = CHR '')'' \<and> line_feed \<notin> set u \<and> char_of (13 :: nat) \<notin> set u then Some (butlast u) else None))"

definition channels :: "(string \<Rightarrow> 'a option) \<Rightarrow> (string \<Rightarrow> 'b option) \<Rightarrow> string list \<Rightarrow> ('a \<times> 'b \<times> 'b \<times> rat) option" where
  \<comment> \<open>three channels and an alpha that may be left out\<close>
  "channels first rest parts =
    (case parts of
       a # b # c # others \<Rightarrow>
         if 1 < length others then None
         else Option.bind (first a) (\<lambda>x. Option.bind (rest b) (\<lambda>y. Option.bind (rest c) (\<lambda>z.
           map_option (\<lambda>w. (x, y, z, w)) (case others of [] \<Rightarrow> Some 1 | d # _ \<Rightarrow> parse_alpha_channel d))))
     | _ \<Rightarrow> None)"

definition parse_ignore_color :: "string \<Rightarrow> color option" where
  "parse_ignore_color value =
    (let s = map lower_char (js_trim value) in
     case strip ''#'' s of
       Some hex \<Rightarrow> if length hex \<in> {3, 4, 6, 8} \<and> list_all (\<lambda>c. hex_val c \<noteq> None) hex then Some (parse_hex_ignore_color hex) else None
     | None \<Rightarrow>
       (case call_body ''rgb'' s of
          Some body \<Rightarrow> channels parse_rgb_channel parse_rgb_channel (split_color_args body)
        | None \<Rightarrow>
          (case call_body ''hsl'' s of
             Some body \<Rightarrow> map_option (\<lambda>(h, s, l, a). hsl_to_rgb h s l a) (channels parse_hue_channel parse_percent_channel (split_color_args body))
           | None \<Rightarrow> None)))"

definition color_ignore_key :: "string \<Rightarrow> (int \<times> int \<times> int \<times> int) option" where
  "color_ignore_key value = map_option (\<lambda>(r, g, b, a). (r, g, b, round_half (a * 255))) (parse_ignore_color value)"

definition ignore_value_matches :: "string \<Rightarrow> string \<Rightarrow> string \<Rightarrow> bool" where
  "ignore_value_matches rule entryValue findingValue =
    (entryValue = findingValue \<or>
     (rule = ''design-system-color'' \<and> color_ignore_key entryValue \<noteq> None \<and> color_ignore_key entryValue = color_ignore_key findingValue))"

section \<open>Ignored values\<close>

record ignore_value =
  iv_rule :: string
  iv_value :: string
  iv_files :: "string list"
  iv_created :: string
  iv_reason :: string

text \<open>Optional texts that are missing are empty.\<close>

definition text_or_none :: "jsval \<Rightarrow> string" where
  "text_or_none v = (if is_str v then js_trim (str_of v) else [])"

definition normalize_ignore_entry :: "jsval \<Rightarrow> ignore_value option" where
  "normalize_ignore_entry entry =
    (let rule = normalize_ignore_rule (get entry ''rule''); value = normalize_ignore_value (get entry ''value'');
         one = text_or_none (get entry ''file'');
         many = filter (\<lambda>f. f \<noteq> []) (map text_or_none (elems (get entry ''files''))) in
     if \<not> truthy entry \<or> \<not> is_objty entry \<or> rule = [] \<or> value = [] then None
     else Some \<lparr>iv_rule = rule, iv_value = value, iv_files = first_once ((if one \<noteq> [] then [one] else []) @ many),
       iv_created = text_or_none (get entry ''createdAt''), iv_reason = text_or_none (get entry ''reason'')\<rparr>)"

definition normalize_ignore_value_entries :: "jsval list \<Rightarrow> ignore_value list" where
  "normalize_ignore_value_entries entries = List.map_filter normalize_ignore_entry entries"

definition entry_json :: "ignore_value \<Rightarrow> jsval" where
  \<comment> \<open>an entry as the object it is in the code\<close>
  "entry_json e = JObj ([(''rule'', JStr (iv_rule e)), (''value'', JStr (iv_value e))] @
     (if iv_files e = [] then [] else [(''files'', JArr (map JStr (iv_files e)))]) @
     (if iv_created e = [] then [] else [(''createdAt'', JStr (iv_created e))]) @
     (if iv_reason e = [] then [] else [(''reason'', JStr (iv_reason e))]))"

definition ignore_key :: "ignore_value \<Rightarrow> string \<times> string \<times> string list" where
  \<comment> \<open>the files of an entry are a set\<close>
  "ignore_key e = (iv_rule e, iv_value e, sort (iv_files e))"

definition merge_ignore_values :: "ignore_value list \<Rightarrow> jsval list \<Rightarrow> ignore_value list" where
  "merge_ignore_values existing incoming =
    map snd (fold (\<lambda>e m. alset (ignore_key e) e m)
      (normalize_ignore_value_entries (map entry_json existing) @ normalize_ignore_value_entries incoming) [])"

section \<open>The configuration\<close>

record hook_config =
  hc_enabled :: bool
  hc_quiet :: bool
  hc_audit :: "string option"
  hc_design :: bool
  hc_rules :: "string list"
  hc_files :: "string list"
  hc_values :: "ignore_value list"
  hc_extensions :: "extension_entry list"
  hc_per_edit :: string
  hc_advisory :: string
  hc_max_findings :: rat
  hc_max_chars :: rat
  hc_max_bytes :: rat

definition default_config :: hook_config where
  "default_config = \<lparr>hc_enabled = True, hc_quiet = False, hc_audit = None, hc_design = True, hc_rules = [], hc_files = [],
     hc_values = [], hc_extensions = [], hc_per_edit = ''immediate'', hc_advisory = ''exclude'',
     hc_max_findings = 5, hc_max_chars = 8000, hc_max_bytes = 131072\<rparr>"

definition plain_object :: "jsval \<Rightarrow> bool" where
  "plain_object v = (truthy v \<and> is_objty v \<and> \<not> is_arr v)"

definition section_of :: "string \<Rightarrow> jsval \<Rightarrow> jsval" where
  \<comment> \<open>\<open>hookSection\<close> and \<open>detectorSection\<close>\<close>
  "section_of name raw = (if truthy raw \<and> is_objty raw \<and> plain_object (get raw name) then get raw name else JNull)"

definition number_or :: "jsval \<Rightarrow> rat \<Rightarrow> rat" where
  "number_or v fallback = (case v of JNum q \<Rightarrow> if 0 < q then q else fallback | _ \<Rightarrow> fallback)"

definition extension_json :: "extension_entry \<Rightarrow> jsval" where
  "extension_json e = JObj [(''ext'', JStr (ee_ext e)), (''engine'', JStr (ee_engine e))]"

definition apply_detector_config_source :: "hook_config \<Rightarrow> jsval \<Rightarrow> hook_config" where
  "apply_detector_config_source cfg raw =
    (if \<not> truthy raw \<or> \<not> is_objty raw then cfg
     else cfg
       \<lparr>hc_advisory := (if get raw ''advisoryRules'' \<in> {JStr ''include'', JStr ''exclude''} then str_of (get raw ''advisoryRules'') else hc_advisory cfg),
        hc_design := (if plain_object (get raw ''designSystem'') then get (get raw ''designSystem'') ''enabled'' \<noteq> JBool False else hc_design cfg),
        hc_rules := (if is_arr (get raw ''ignoreRules'') then once_each_text (map JStr (hc_rules cfg) @ elems (get raw ''ignoreRules'')) else hc_rules cfg),
        hc_files := (if is_arr (get raw ''ignoreFiles'') then once_each_text (map JStr (hc_files cfg) @ elems (get raw ''ignoreFiles'')) else hc_files cfg),
        hc_values := (if is_arr (get raw ''ignoreValues'') then merge_ignore_values (hc_values cfg) (elems (get raw ''ignoreValues'')) else hc_values cfg),
        hc_extensions := (if is_arr (get raw ''extensions'') then merge_extensions (JArr (map extension_json (hc_extensions cfg))) (get raw ''extensions'') else hc_extensions cfg)\<rparr>)"

definition apply_limits :: "hook_config \<Rightarrow> jsval \<Rightarrow> hook_config" where
  "apply_limits cfg limits =
    (if \<not> truthy limits \<or> \<not> is_objty limits then cfg
     else cfg\<lparr>hc_max_findings := number_or (get limits ''maxFindings'') (hc_max_findings cfg),
       hc_max_chars := number_or (get limits ''maxChars'') (hc_max_chars cfg),
       hc_max_bytes := number_or (get limits ''maxFileBytes'') (hc_max_bytes cfg)\<rparr>)"

definition apply_hook_settings :: "hook_config \<Rightarrow> jsval \<Rightarrow> hook_config" where
  "apply_hook_settings cfg raw =
    (let audit = text_or_none (get raw ''auditLog'') in cfg
       \<lparr>hc_enabled := (if has_key raw ''enabled'' then get raw ''enabled'' \<noteq> JBool False else hc_enabled cfg),
        hc_quiet := (if has_key raw ''quiet'' then get raw ''quiet'' = JBool True else hc_quiet cfg),
        hc_per_edit := (if get raw ''perEditRules'' \<in> {JStr ''all'', JStr ''immediate''} then str_of (get raw ''perEditRules'') else hc_per_edit cfg),
        hc_audit := (if audit \<noteq> [] then Some audit else hc_audit cfg)\<rparr>)"

definition apply_config_source :: "hook_config \<Rightarrow> jsval \<Rightarrow> hook_config" where
  "apply_config_source cfg raw =
    (if \<not> truthy raw \<or> \<not> is_objty raw then cfg
     else apply_limits (apply_detector_config_source (apply_hook_settings cfg raw) raw) (get raw ''limits''))"

definition apply_file :: "jsval \<Rightarrow> hook_config \<Rightarrow> hook_config" where
  "apply_file raw cfg = apply_detector_config_source (apply_config_source cfg (section_of ''hook'' raw)) (section_of ''detector'' raw)"

definition read_hook_config :: "jsval \<Rightarrow> jsval \<Rightarrow> hook_config" where
  \<comment> \<open>of the shared and the local file, null for one that cannot be read\<close>
  "read_hook_config shared local = apply_file local (apply_file shared default_config)"

section \<open>A configuration only adds\<close>

lemma once_each_text_set: "set (once_each_text (map JStr xs @ vs)) = set xs \<union> js_string ` set vs"
  by (auto simp: once_each_text_def first_once_def)

lemma apply_detector_grows:
  "set (hc_rules cfg) \<subseteq> set (hc_rules (apply_detector_config_source cfg raw)) \<and>
   set (hc_files cfg) \<subseteq> set (hc_files (apply_detector_config_source cfg raw))"
  by (simp add: apply_detector_config_source_def once_each_text_set)

lemma apply_hook_settings_keeps [simp]: "hc_rules (apply_hook_settings cfg l) = hc_rules cfg" "hc_files (apply_hook_settings cfg l) = hc_files cfg"
  by (simp_all add: apply_hook_settings_def Let_def)

lemma apply_limits_keeps [simp]: "hc_rules (apply_limits cfg l) = hc_rules cfg" "hc_files (apply_limits cfg l) = hc_files cfg"
  by (simp_all add: apply_limits_def)

lemma apply_config_grows:
  "set (hc_rules cfg) \<subseteq> set (hc_rules (apply_config_source cfg raw)) \<and>
   set (hc_files cfg) \<subseteq> set (hc_files (apply_config_source cfg raw))"
  using apply_detector_grows [of "apply_hook_settings cfg raw" raw] by (simp add: apply_config_source_def)

lemma apply_file_grows:
  "set (hc_rules cfg) \<subseteq> set (hc_rules (apply_file raw cfg)) \<and> set (hc_files cfg) \<subseteq> set (hc_files (apply_file raw cfg))"
  unfolding apply_file_def using apply_config_grows apply_detector_grows by (meson subset_trans)

text \<open>A local file cannot take back what the shared one ignores.\<close>

theorem local_config_keeps_shared_ignores:
  "set (hc_rules (read_hook_config shared JNull)) \<subseteq> set (hc_rules (read_hook_config shared local)) \<and>
   set (hc_files (read_hook_config shared JNull)) \<subseteq> set (hc_files (read_hook_config shared local))"
proof -
  have "read_hook_config shared JNull = apply_file shared default_config"
    by (simp add: read_hook_config_def apply_file_def [of JNull] section_of_def apply_config_source_def apply_detector_config_source_def)
  then show ?thesis using apply_file_grows by (simp add: read_hook_config_def)
qed

end
