(* ===== verification/Hook_Filter.thy ===== *)
theory Hook_Filter
  imports Hook_Config
begin

text \<open>
  Which findings the design hook reports, \<open>hook-lib.mjs\<close>: globs, ignored rules and
  values, the value a finding is about, its key in the cache, the tier of a rule, and
  the files that are never scanned. Alternatives in the braces of a glob are literal; a
  family name in an address decodes to characters below U+0100.
\<close>

section \<open>Globs\<close>

datatype hook_glob = Glob_Text | Glob_Name | Glob_Char | Glob_Literal char | Glob_Choice "string list"

function hook_globs :: "string \<Rightarrow> hook_glob list" where
  "hook_globs [] = []"
| "hook_globs (c # s) =
    (if c = CHR ''*''
     then (if s \<noteq> [] \<and> hd s = CHR ''*''
       then Glob_Text # hook_globs (if tl s \<noteq> [] \<and> hd (tl s) = CHR ''/'' then tl (tl s) else tl s)
       else Glob_Name # hook_globs s)
     else if c = CHR ''?'' then Glob_Char # hook_globs s
     else if c = CHR ''{'' \<and> CHR ''}'' \<in> set s
     then Glob_Choice (split_on CHR '','' (takeWhile (\<lambda>d. d \<noteq> CHR ''}'') s)) # hook_globs (tl (dropWhile (\<lambda>d. d \<noteq> CHR ''}'') s))
     else Glob_Literal c # hook_globs s)"
  by pat_completeness auto

termination
  by (relation "measure length") (auto simp: less_Suc_eq_le intro: le_trans [OF diff_le_self length_dropWhile_le])

definition no_dot :: "char \<Rightarrow> bool" where
  "no_dot c = (c = line_feed \<or> c = char_of (13 :: nat))"

fun any_split :: "(char \<Rightarrow> bool) \<Rightarrow> (string \<Rightarrow> bool) \<Rightarrow> string \<Rightarrow> bool" where
  \<comment> \<open>a run of such characters, then the rest\<close>
  "any_split p k [] = k []"
| "any_split p k (c # s) = (k (c # s) \<or> (p c \<and> any_split p k s))"

fun hook_glob_match :: "hook_glob list \<Rightarrow> string \<Rightarrow> bool" where
  "hook_glob_match [] s = (s = [])"
| "hook_glob_match (Glob_Text # ts) s = any_split (\<lambda>c. \<not> no_dot c) (hook_glob_match ts) s"
| "hook_glob_match (Glob_Name # ts) s = any_split (\<lambda>c. c \<noteq> CHR ''/'') (hook_glob_match ts) s"
| "hook_glob_match (Glob_Char # ts) s = (case s of [] \<Rightarrow> False | c # s \<Rightarrow> c \<noteq> CHR ''/'' \<and> hook_glob_match ts s)"
| "hook_glob_match (Glob_Literal c # ts) s = (case s of [] \<Rightarrow> False | d # s \<Rightarrow> c = d \<and> hook_glob_match ts s)"
| "hook_glob_match (Glob_Choice ws # ts) s = (\<exists>w \<in> set ws. starts_with s w \<and> hook_glob_match ts (drop (length w) s))"

definition matches_any_glob :: "string \<Rightarrow> string list \<Rightarrow> bool" where
  \<comment> \<open>the path or its last segment\<close>
  "matches_any_glob p globs = (\<exists>g \<in> set globs. hook_glob_match (hook_globs g) p \<or> hook_glob_match (hook_globs g) (last (segs p)))"

section \<open>The value a finding is about\<close>

definition labelled :: "string \<Rightarrow> (string \<Rightarrow> string option) \<Rightarrow> (char \<Rightarrow> bool) \<Rightarrow> char option \<Rightarrow> string \<Rightarrow> string option" where
  \<comment> \<open>a label, what follows it, white space, and a run that is not empty; a run of the white space alone is cut to nothing\<close>
  "labelled label after p before s = Option.bind (strip_ci label s) (\<lambda>t. Option.bind (after t) (\<lambda>t.
     let run = takeWhile p (skip_ws t) in
     if run \<noteq> [] then Some run else if (\<exists>c \<in> set (takeWhile is_ws t). p c) then Some [] else None))"

definition colon :: "string \<Rightarrow> string option" where
  "colon s = strip '':'' (skip_ws s)"

definition family_here :: "char option \<Rightarrow> string \<Rightarrow> string option" where
  \<comment> \<open>\<open>font-family\s*:\s*["']?([^'",;\n]+)\<close>\<close>
  "family_here before s =
    (let p = (\<lambda>c. c \<notin> html_quotes \<and> c \<notin> {CHR '','', CHR '';'', line_feed}) in
     Option.bind (strip_ci ''font-family'' s) (\<lambda>t. Option.bind (colon t) (\<lambda>t.
       let u = skip_ws t; run = takeWhile p (if u \<noteq> [] \<and> hd u \<in> html_quotes then tl u else u) in
       if run \<noteq> [] then Some run else if (\<exists>c \<in> set (takeWhile is_ws t). p c) then Some [] else None)))"

definition google_here :: "char option \<Rightarrow> string \<Rightarrow> string option" where
  \<comment> \<open>\<open>[?&]family=([^&:;\n]+)\<close>\<close>
  "google_here before s = (case s of [] \<Rightarrow> None | c # t \<Rightarrow>
     if c \<notin> {CHR ''?'', CHR ''&''} then None
     else Option.bind (strip_ci ''family='' t) (\<lambda>u.
       let run = takeWhile (\<lambda>d. d \<notin> {CHR ''&'', CHR '':'', CHR '';'', line_feed}) u in if run = [] then None else Some run))"

fun uri_bytes :: "string \<Rightarrow> nat list option" where
  \<comment> \<open>the bytes of an escaped text\<close>
  "uri_bytes [] = Some []"
| "uri_bytes (c # s) =
    (if c = CHR ''%''
     then (case s of a # b # t \<Rightarrow> (case (hex_val a, hex_val b) of
         (Some m, Some n) \<Rightarrow> map_option (Cons (16 * m + n)) (uri_bytes t) | _ \<Rightarrow> None) | _ \<Rightarrow> None)
     else map_option ((@) (let n = of_char c in if n < 128 then [n] else [192 + n div 64, 128 + n mod 64])) (uri_bytes s))"

fun utf8_text :: "nat list \<Rightarrow> string option" where
  "utf8_text [] = Some []"
| "utf8_text (n # ns) =
    (if n < 128 then map_option (Cons (char_of n)) (utf8_text ns)
     else (case ns of m # ms \<Rightarrow> if n \<in> {194, 195} \<and> 128 \<le> m \<and> m < 192
       then map_option (Cons (char_of ((n - 192) * 64 + (m - 128)))) (utf8_text ms) else None | [] \<Rightarrow> None))"

definition decode_uri_component :: "string \<Rightarrow> string option" where
  "decode_uri_component s = Option.bind (uri_bytes s) utf8_text"

definition bounce_word :: "string \<Rightarrow> bool" where
  "bounce_word w = (\<exists>k \<in> {''bounce'', ''elastic'', ''wobble'', ''jiggle'', ''spring''}. has_sub (map lower_char w) k)"

definition tailwind_here :: "char option \<Rightarrow> string \<Rightarrow> string option" where
  \<comment> \<open>\<open>\banimate-bounce\b\<close>\<close>
  "tailwind_here before s = (if \<not> at_boundary before s then None
     else Option.bind (strip_ci ''animate-bounce'' s) (\<lambda>t. Option.bind (word_end t) (\<lambda>_. Some (take 14 s))))"

definition bezier_here :: "char option \<Rightarrow> string \<Rightarrow> string option" where
  \<comment> \<open>\<open>cubic-bezier\([^)]+\)\<close>\<close>
  "bezier_here before s = Option.bind (strip_ci ''cubic-bezier('' s) (\<lambda>t.
     let args = takeWhile (\<lambda>c. c \<noteq> CHR '')'') t in
     if args = [] \<or> CHR '')'' \<notin> set t then None else Some (take (length ''cubic-bezier('' + length args + 1) s))"

definition animation_here :: "char option \<Rightarrow> string \<Rightarrow> string option" where
  \<comment> \<open>\<open>animation(?:-name)?\s*:\s*([^;\n]+)\<close>\<close>
  "animation_here = labelled ''animation'' (\<lambda>t. colon (case strip_ci ''-name'' t of None \<Rightarrow> t | Some u \<Rightarrow> u)) (\<lambda>c. c \<notin> {CHR '';'', line_feed})"

definition shown_value :: "string \<Rightarrow> string" where
  "shown_value s = clean_ignore_value_display (JStr s)"

definition extract_motion_ignore_value :: "string \<Rightarrow> string" where
  "extract_motion_ignore_value s =
    (case find_match tailwind_here None s of Some v \<Rightarrow> shown_value v
     | None \<Rightarrow> (case find_match bezier_here None s of Some v \<Rightarrow> shown_value v
     | None \<Rightarrow> (case find_match animation_here None s of None \<Rightarrow> []
     | Some v \<Rightarrow> (case List.find bounce_word (cut_at (\<lambda>c. c = CHR '','' \<or> is_ws c) v) of None \<Rightarrow> [] | Some w \<Rightarrow> shown_value w))))"

definition font_value :: "string \<Rightarrow> string option" where
  \<comment> \<open>the font a text names, none when it names none\<close>
  "font_value s =
    (let plain = (\<lambda>c. c \<notin> {CHR ''('', CHR '')'', CHR '';'', line_feed}) in
     case find_match (labelled ''Primary font:'' Some plain) None s of Some v \<Rightarrow> Some (shown_value v)
     | None \<Rightarrow> (case find_match (labelled ''Google Fonts:'' Some plain) None s of Some v \<Rightarrow> Some (shown_value v)
     | None \<Rightarrow> (case find_match family_here None s of Some v \<Rightarrow> Some (shown_value v)
     | None \<Rightarrow> (case find_match google_here None s of None \<Rightarrow> None
     | Some v \<Rightarrow> Some (shown_value (case decode_uri_component v of None \<Rightarrow> v | Some d \<Rightarrow> d))))))"

fun value_in :: "bool \<Rightarrow> string list \<Rightarrow> string" where
  \<comment> \<open>of the detail and the snippet, for a rule on motion or on fonts\<close>
  "value_in motion [] = []"
| "value_in motion (s # ss) =
    (if motion then (let v = extract_motion_ignore_value s in if v \<noteq> [] then v else value_in motion ss)
     else (case font_value s of Some v \<Rightarrow> v | None \<Rightarrow> value_in motion ss))"

definition finding_rule :: "jsval \<Rightarrow> string" where
  "finding_rule f = normalize_ignore_rule (get f ''antipattern'')"

definition extract_finding_ignore_value_raw :: "jsval \<Rightarrow> string" where
  "extract_finding_ignore_value_raw f =
    (let direct = clean_ignore_value_display (js_or (get f ''ignoreValue'') (js_or (get f ''value'') (JStr []))) in
     if direct \<noteq> [] then direct
     else value_in (finding_rule f = ''bounce-easing'')
       (filter (\<lambda>s. s \<noteq> []) (map str_of [get f ''detail'', get f ''snippet''])))"

definition direct_value_rules :: "string list" where
  "direct_value_rules = [''overused-font'', ''bounce-easing'', ''design-system-font'', ''design-system-color'',
     ''design-system-radius'', ''design-system-font-size'']"

definition extract_finding_ignore_value :: "jsval \<Rightarrow> string" where
  "extract_finding_ignore_value f =
    (if \<not> truthy f \<or> \<not> is_objty f \<or> finding_rule f \<notin> set direct_value_rules then []
     else normalize_ignore_value (JStr (extract_finding_ignore_value_raw f)))"

section \<open>Filtering\<close>

definition advisory_rules :: "string list" where "advisory_rules = [''em-dash-overuse'']"

definition is_advisory_finding :: "jsval \<Rightarrow> bool" where
  "is_advisory_finding f = (finding_rule f \<noteq> [] \<and> (finding_rule f \<in> set advisory_rules \<or> get f ''advisory'' = JBool True))"

definition suffixes_of :: "string \<Rightarrow> string list" where
  \<comment> \<open>the trailing parts of a path\<close>
  "suffixes_of p = (let ws = filter (\<lambda>w. w \<noteq> []) (segs p) in map (\<lambda>i. join ''/'' (drop i ws)) [0..<length ws])"

definition finding_matches_scoped_ignore_file :: "jsval \<Rightarrow> string list \<Rightarrow> bool" where
  "finding_matches_scoped_ignore_file f globs =
    (let p = js_trim (or_string (get f ''file'')) in
     p \<noteq> [] \<and> (matches_any_glob p globs \<or> (\<exists>q \<in> set (suffixes_of p). matches_any_glob q globs)))"

definition ignored_by :: "jsval \<Rightarrow> ignore_value \<Rightarrow> bool" where
  "ignored_by f e =
    (let rule = finding_rule f; value = extract_finding_ignore_value f; wildcard = (iv_value e = ''*'') in
     iv_rule e = rule \<and> (wildcard \<or> (value \<noteq> [] \<and> ignore_value_matches rule (iv_value e) value)) \<and>
     (if iv_files e = [] then \<not> wildcard else finding_matches_scoped_ignore_file f (iv_files e)))"

definition is_ignored_finding_value :: "jsval \<Rightarrow> ignore_value list \<Rightarrow> bool" where
  "is_ignored_finding_value f entries = (finding_rule f \<noteq> [] \<and> (\<exists>e \<in> set entries. ignored_by f e))"

definition finding_passes :: "hook_config \<Rightarrow> jsval \<Rightarrow> bool" where
  "finding_passes cfg f =
    (truthy f \<and> is_objty f \<and> (hc_advisory cfg = ''include'' \<or> \<not> is_advisory_finding f) \<and>
     finding_rule f \<notin> set (map (\<lambda>r. normalize_ignore_rule (JStr r)) (hc_rules cfg)) \<and>
     \<not> is_ignored_finding_value f (normalize_ignore_value_entries (map entry_json (hc_values cfg))))"

definition filter_findings :: "hook_config \<Rightarrow> jsval \<Rightarrow> jsval list" where
  \<comment> \<open>nothing of what is no list\<close>
  "filter_findings cfg findings = filter (finding_passes cfg) (elems findings)"

section \<open>Tiers\<close>

definition immediate_tier_rules :: "string list" where
  "immediate_tier_rules = [''broken-image'', ''text-overflow'', ''clipped-overflow-container'', ''body-text-viewport-edge'',
     ''low-contrast'', ''gray-on-color'', ''tiny-text'', ''gradient-text'', ''dark-glow'', ''design-system-font'',
     ''design-system-color'', ''design-system-radius'', ''design-system-font-size'']"

definition immediate_finding :: "jsval \<Rightarrow> bool" where
  "immediate_finding f = (truthy f \<and> finding_rule f \<in> set immediate_tier_rules)"

definition split_findings_by_tier :: "jsval list \<Rightarrow> jsval list \<times> jsval list" where
  "split_findings_by_tier fs = (filter immediate_finding fs, filter (\<lambda>f. \<not> immediate_finding f) fs)"

definition per_edit_tiering_active :: "hook_config \<Rightarrow> string \<Rightarrow> bool" where
  "per_edit_tiering_active cfg harness = (harness \<noteq> ''cursor'' \<and> harness \<noteq> ''github'' \<and> hc_per_edit cfg \<noteq> ''all'')"

section \<open>The key of a finding\<close>

definition finding_cache_key :: "jsval \<Rightarrow> string" where
  "finding_cache_key f =
    (let line = js_or (get f ''line'') (JNum 0); value = extract_finding_ignore_value f;
         rule = js_string (get f ''antipattern''); snippet = take 80 (js_trim (or_string (get f ''snippet''))) in
     if js_gt line (JNum 0) \<and> value \<noteq> [] then rule @ '':'' @ js_string line @ '':'' @ value
     else if js_gt line (JNum 0) then rule @ '':'' @ js_string line
     else if value \<noteq> [] then rule @ '':0:'' @ value
     else if snippet \<noteq> [] then rule @ '':0:'' @ snippet
     else rule @ '':0'')"

section \<open>Files that are never scanned\<close>

definition path_parts :: "string \<Rightarrow> string list" where
  "path_parts p = cut_at (\<lambda>c. c = CHR ''/'' \<or> c = char_of (92 :: nat)) (map lower_char p)"

definition name_mark :: "char \<Rightarrow> bool" where
  "name_mark c = (c \<in> {CHR ''.'', CHR ''_'', CHR ''-''})"

definition secret_words :: "string list" where
  "secret_words = [''secret'', ''secrets'', ''credential'', ''credentials'']"

definition secret_extensions :: "string list" where
  "secret_extensions = [''json'', ''yaml'', ''yml'', ''toml'', ''ini'', ''conf'', ''config'', ''env'', ''txt'', ''key'', ''cert'',
     ''crt'', ''pem'', ''js'', ''ts'']"

definition secret_at :: "string \<Rightarrow> nat \<Rightarrow> bool" where
  \<comment> \<open>a secret word at the position, between marks, before an extension\<close>
  "secret_at w i =
    ((i = 0 \<or> name_mark (w ! (i - 1))) \<and>
     (\<exists>k \<in> set secret_words. starts_with (drop i w) k \<and>
        (let rest = drop (i + length k) w in
         rest \<noteq> [] \<and> name_mark (hd rest) \<and> (\<exists>e \<in> set secret_extensions. ends_with rest (CHR ''.'' # e)))))"

definition sensitive_path :: "string \<Rightarrow> bool" where
  "sensitive_path p =
    (let parts = path_parts p; name = last parts in
     (\<exists>w \<in> set parts. starts_with w ''.env.'') \<or> name = ''.env'' \<or>
     ''.git'' \<in> set parts \<or>
     (starts_with name ''id_rsa'' \<and> (name = ''id_rsa'' \<or> name_mark (name ! 6))) \<or>
     ends_with name ''.pem'' \<or>
     (\<exists>i \<in> set [0..<length name]. secret_at name i))"

definition built_dirs :: "string list" where
  "built_dirs = [''node_modules'', ''generated'', ''dist'', ''build'', ''out'', ''.next'', ''.cache'', ''coverage'']"

definition marked_extension :: "string \<Rightarrow> string \<Rightarrow> bool" where
  \<comment> \<open>the mark, then letters to the end\<close>
  "marked_extension mark p =
    (let letters = takeWhile (\<lambda>c. CHR ''a'' \<le> c \<and> c \<le> CHR ''z'') (rev p) in
     letters \<noteq> [] \<and> ends_with (take (length p - length letters) p) mark)"

definition generated_path :: "string \<Rightarrow> bool" where
  "generated_path p =
    (let parts = path_parts p; q = map lower_char p; name = last parts in
     marked_extension ''.generated.'' q \<or> ends_with q ''.d.ts'' \<or> marked_extension ''.min.'' q \<or>
     (\<exists>w \<in> set (butlast (tl parts)). w \<in> set built_dirs) \<or>
     (\<exists>e \<in> {''.lock'', ''.lock.json''}. ends_with name e \<and> length e < length name))"

definition allowed_exts :: "string list" where
  "allowed_exts = [''.tsx'', ''.jsx'', ''.html'', ''.htm'', ''.vue'', ''.svelte'', ''.astro'', ''.css'', ''.scss'', ''.sass'', ''.less'',
     ''.ts'', ''.js'']"

definition ack_exts :: "string list" where
  "ack_exts = [''.tsx'', ''.jsx'', ''.html'', ''.htm'', ''.vue'', ''.svelte'', ''.astro'', ''.css'', ''.scss'', ''.sass'', ''.less'']"

definition base_name :: "string \<Rightarrow> string" where
  \<comment> \<open>\<open>path.basename\<close>\<close>
  "base_name p = last (segs (rev (dropWhile (\<lambda>c. c = CHR ''/'') (rev p))))"

definition lower_ext :: "string \<Rightarrow> string" where
  "lower_ext p = map lower_char (extname_of (base_name p))"

definition configured_extension :: "hook_config \<Rightarrow> string \<Rightarrow> extension_entry option" where
  "configured_extension cfg p = match_configured_extension (base_name p) (JArr (map extension_json (hc_extensions cfg)))"

definition should_emit_ack_for_file :: "hook_config \<Rightarrow> string \<Rightarrow> bool" where
  "should_emit_ack_for_file cfg p =
    (lower_ext p \<in> set ack_exts \<or> (case configured_extension cfg p of None \<Rightarrow> False | Some e \<Rightarrow> ee_engine e = ''html''))"

definition relativize :: "string \<Rightarrow> string \<Rightarrow> string" where
  "relativize p cwd = (let rel = relative cwd p in if rel = [] \<or> starts_with rel ''..'' then p else rel)"

definition has_path_traversal :: "string \<Rightarrow> bool" where
  "has_path_traversal p = has_sub p ''..''"

definition skip_reason :: "hook_config \<Rightarrow> string \<Rightarrow> string \<Rightarrow> string option" where
  \<comment> \<open>why a path is not looked at, before the disk is\<close>
  "skip_reason cfg cwd p =
    (if has_path_traversal p \<or> sensitive_path p then Some ''sensitive''
     else if generated_path p then Some ''generated''
     else if lower_ext p \<notin> set allowed_exts \<and> configured_extension cfg p = None then Some ''extension''
     else if matches_any_glob (relativize p cwd) (hc_files cfg) \<or> matches_any_glob p (hc_files cfg) then Some ''config-ignore-file''
     else None)"

definition uses_html_engine :: "hook_config \<Rightarrow> string \<Rightarrow> bool" where
  "uses_html_engine cfg p = (case configured_extension cfg p of Some e \<Rightarrow> ee_engine e = ''html''
     | None \<Rightarrow> lower_ext p \<in> {''.html'', ''.htm''})"

end
