(* ===== verification/Hook_Targets.thy ===== *)
theory Hook_Targets
  imports Hook_Filter Inject_Config
begin

text \<open>
  Which files a run of the design hook looks at, \<open>hook-lib.mjs\<close>: the harness an event
  comes from, its common shape, the files it names, the stylesheets scanned along with
  a component, and the project whose cache counts. \<open>parse\<close> is \<open>JSON.parse\<close>, none where it
  throws; the working directory is absolute.
\<close>

section \<open>The harness\<close>

definition some_text :: "jsval \<Rightarrow> bool" where
  "some_text v = (is_str v \<and> str_of v \<noteq> [])"

definition resolve_harness :: "(string \<Rightarrow> string option) \<Rightarrow> jsval \<Rightarrow> string" where
  "resolve_harness env ev =
    (let named = env ''IMPECCABLE_HOOK_HARNESS'' in
     if named = Some ''cursor'' then ''cursor''
     else if named = Some ''github'' then ''github''
     else if named = Some ''claude'' \<or> named = Some ''codex'' then ''claude''
     else if truthy ev \<and> is_objty ev \<and> (is_str (get ev ''toolName'') \<or> get ev ''toolArgs'' \<noteq> JUndef) \<and>
       get ev ''tool_name'' = JUndef \<and> get ev ''tool_input'' = JUndef then ''github''
     else if some_text (get ev ''conversation_id'') then ''cursor''
     else ''claude'')"

section \<open>The shape of an event\<close>

definition env_project_dir :: "(string \<Rightarrow> string option) \<Rightarrow> jsval \<Rightarrow> jsval" where
  "env_project_dir env fallback =
    (case env ''CURSOR_PROJECT_DIR'' of Some d \<Rightarrow> if d \<noteq> [] then JStr d else fallback | None \<Rightarrow> fallback)"

definition parse_github_tool_args :: "(string \<Rightarrow> jsval option) \<Rightarrow> jsval \<Rightarrow> jsval" where
  "parse_github_tool_args parse args =
    (if plain_object args then args
     else if is_str args \<and> js_trim (str_of args) \<noteq> []
     then (case parse (str_of args) of Some v \<Rightarrow> if plain_object v then v else JObj [] | None \<Rightarrow> JObj [])
     else JObj [])"

definition patch_marker :: "string \<Rightarrow> bool" where
  "patch_marker s = (\<exists>w \<in> {''Begin Patch'', ''Add File:'', ''Update File:'', ''Delete File:''}. has_sub s (''*** '' @ w))"

definition looks_like_apply_patch :: "(string \<Rightarrow> jsval option) \<Rightarrow> jsval \<Rightarrow> bool" where
  "looks_like_apply_patch parse args =
    (is_str args \<and> patch_marker (str_of args) \<and>
     (case parse (str_of args) of Some v \<Rightarrow> \<not> (truthy v \<and> is_objty v) | None \<Rightarrow> True))"

definition patch_field :: "jsval \<Rightarrow> jsval" where
  "patch_field v = js_or (get v ''patch'') (js_or (get v ''input'') (js_or (get v ''command'') (JStr [])))"

definition apply_patch_text :: "(string \<Rightarrow> jsval option) \<Rightarrow> jsval \<Rightarrow> jsval" where
  "apply_patch_text parse args =
    (if is_str args then (if patch_marker (str_of args) then args else patch_field (parse_github_tool_args parse args))
     else if plain_object args then patch_field args
     else JStr [])"

definition normalize_github_event :: "(string \<Rightarrow> jsval option) \<Rightarrow> (string \<Rightarrow> string option) \<Rightarrow> jsval \<Rightarrow> string \<Rightarrow> jsval" where
  "normalize_github_event parse env ev cwd =
    (let tool = js_or (get ev ''toolName'') (js_or (get ev ''tool_name'') JNull);
         input = (if truthy (get ev ''tool_input'') \<and> is_objty (get ev ''tool_input'') then get ev ''tool_input'' else JObj []);
         args = get ev ''toolArgs'';
         (name, put) =
           (if tool = JStr ''apply_patch'' \<or> looks_like_apply_patch parse args
            then (let patch = apply_patch_text parse args in
              if truthy patch then (JStr ''apply_patch'', [(''command'', patch)]) else (tool, []))
            else
              (let a = parse_github_tool_args parse args;
                   p = js_or (get a ''path'') (js_or (get a ''file_path'') (js_or (get a ''filePath'') (get a ''target_file''))) in
               (tool, if some_text p then [(''file_path'', p)] else [])))
     in with_props ev
       [(''cwd'', js_or (get ev ''cwd'') (js_or (env_project_dir env (JStr cwd)) (JStr cwd))),
        (''session_id'', js_or (get ev ''sessionId'') (js_or (get ev ''session_id'') (JStr ''unknown''))),
        (''tool_name'', name), (''tool_input'', with_props input put)])"

definition first_root :: "jsval \<Rightarrow> jsval" where
  "first_root v = (if is_arr v then (case elems v of [] \<Rightarrow> JUndef | r # _ \<Rightarrow> r) else JBool False)"

definition normalize_hook_event :: "(string \<Rightarrow> jsval option) \<Rightarrow> (string \<Rightarrow> string option) \<Rightarrow> jsval \<Rightarrow> string \<Rightarrow> string \<Rightarrow> jsval" where
  "normalize_hook_event parse env ev cwd harness =
    (if \<not> truthy ev \<or> \<not> is_objty ev then ev
     else if harness = ''github'' then normalize_github_event parse env ev cwd
     else if harness \<noteq> ''cursor'' then ev
     else
       let dir = js_or (get ev ''cwd'') (js_or (first_root (get ev ''workspace_roots'')) (js_or (env_project_dir env (JStr cwd)) (JStr cwd)));
           session = js_or (get ev ''session_id'') (js_or (get ev ''conversation_id'') (JStr ''unknown''));
           input = (if truthy (get ev ''tool_input'') \<and> is_objty (get ev ''tool_input'') then get ev ''tool_input'' else JObj []);
           p = js_or (get input ''file_path'') (js_or (get input ''path'') (get ev ''file_path''))
       in with_props ev ([(''cwd'', dir), (''session_id'', session)] @
            (if truthy p then [(''tool_input'', with_props input [(''file_path'', p)])] else [])))"

section \<open>The files of an event\<close>

definition patch_path :: "string \<Rightarrow> string option" where
  \<comment> \<open>of a line; none without a name\<close>
  "patch_path w =
    (case strip ''*** Update File: '' w of Some p \<Rightarrow> if js_trim p = [] then None else Some (js_trim p)
     | None \<Rightarrow> (case strip ''*** Add File: '' w of Some p \<Rightarrow> if js_trim p = [] then None else Some (js_trim p) | None \<Rightarrow> None))"

definition absolute_in :: "string \<Rightarrow> string \<Rightarrow> string" where
  "absolute_in cwd p = (if is_absolute p then p else resolve cwd p)"

definition parse_apply_patch_paths :: "string \<Rightarrow> string \<Rightarrow> string list" where
  "parse_apply_patch_paths command cwd = map (absolute_in cwd) (List.map_filter patch_path (cut_at line_end command))"

definition add_target :: "jsval \<Rightarrow> string list \<Rightarrow> string list" where
  "add_target v out = (if some_text v \<and> str_of v \<notin> set out then out @ [str_of v] else out)"

definition resolve_target_files :: "jsval \<Rightarrow> string \<Rightarrow> string list" where
  "resolve_target_files ev cwd =
    (let input = get ev ''tool_input'';
         patched = (if get ev ''tool_name'' = JStr ''apply_patch'' \<and> is_str (get input ''command'')
           then map JStr (parse_apply_patch_paths (str_of (get input ''command'')) cwd) else []) in
     fold add_target (patched @ [get input ''file_path'', get input ''path'', get ev ''file_path'']) [])"

section \<open>Stylesheets scanned along\<close>

definition max_scan_targets :: nat where "max_scan_targets = 6"

definition ui_code_exts :: "string list" where
  "ui_code_exts = [''.jsx'', ''.tsx'', ''.vue'', ''.svelte'', ''.astro'']"

definition style_exts :: "string list" where
  "style_exts = [''.css'', ''.scss'', ''.sass'', ''.less'']"

definition co_scan_style_names :: "string list" where
  "co_scan_style_names = concat (map (\<lambda>w. map (\<lambda>e. w @ e) style_exts) [''styles'', ''index'', ''global'', ''globals''])"

definition is_inside_project :: "string \<Rightarrow> string \<Rightarrow> bool" where
  "is_inside_project p cwd =
    (p \<noteq> [] \<and> cwd \<noteq> [] \<and> \<not> has_path_traversal p \<and>
     (let rel = relative cwd p in rel = [] \<or> (\<not> starts_with rel ''..'' \<and> \<not> is_absolute rel)))"

definition import_char :: "char \<Rightarrow> bool" where
  \<comment> \<open>\<open>[\w*{}\s,$]\<close>\<close>
  "import_char c = (is_word c \<or> is_ws c \<or> c \<in> {CHR ''*'', CHR ''{'', CHR ''}'', CHR '','', CHR ''$''})"

definition import_clause :: "string \<Rightarrow> bool" where
  \<comment> \<open>white space, or names between white space, then \<open>from\<close> and white space\<close>
  "import_clause run =
    (run \<noteq> [] \<and>
     (list_all is_ws run \<or>
      (let back = rev run; t = dropWhile is_ws back in
       t \<noteq> back \<and>
       (case strip_ci ''morf'' t of None \<Rightarrow> False
        | Some names \<Rightarrow> 3 \<le> length names \<and> is_ws (hd names) \<and> is_ws (last names)))))"

definition style_import_here :: "string \<Rightarrow> (string \<times> nat) option" where
  \<comment> \<open>the value and the length of \<open>import ... from "x.css"\<close>\<close>
  "style_import_here s = Option.bind (strip_ci ''import'' s) (\<lambda>t.
     let run = takeWhile import_char t; rest = dropWhile import_char t in
     if rest = [] \<or> hd rest \<notin> html_quotes \<or> \<not> import_clause run then None
     else
       let v = takeWhile (\<lambda>c. c \<notin> html_quotes) (tl rest) in
       if length v + 1 < length rest \<and> (\<exists>e \<in> set style_exts. has_suffix (map lower_char v) e)
       then Some (v, 6 + length run + length v + 2) else None)"

fun style_imports :: "nat \<Rightarrow> string \<Rightarrow> string list" where
  \<comment> \<open>all of them, the number of characters of the last one still to pass\<close>
  "style_imports k [] = []"
| "style_imports (Suc k) (c # s) = style_imports k s"
| "style_imports 0 (c # s) =
    (case style_import_here (c # s) of Some (v, n) \<Rightarrow> v # style_imports (n - 1) s | None \<Rightarrow> style_imports 0 s)"

definition dir_name :: "string \<Rightarrow> string" where
  \<comment> \<open>\<open>path.dirname\<close>\<close>
  "dir_name p =
    (case p of [] \<Rightarrow> ''.''
     | c # s \<Rightarrow>
       let r = dropWhile (\<lambda>d. d \<noteq> CHR ''/'') (dropWhile (\<lambda>d. d = CHR ''/'') (rev s)) in
       if r = [] then (if c = CHR ''/'' then ''/'' else ''.'')
       else if c = CHR ''/'' \<and> length r = 1 then ''//''
       else c # rev (tl r))"

definition import_target :: "string \<Rightarrow> string \<Rightarrow> string \<Rightarrow> string option" where
  "import_target p cwd v =
    (let w = js_trim v in
     if w = [] then None
     else let q = (if hd w = CHR ''.'' then resolve (dir_name p) w else absolute_in cwd w) in
       if is_inside_project q cwd then Some q else None)"

definition parse_static_style_imports :: "string \<Rightarrow> string \<Rightarrow> string \<Rightarrow> string list" where
  "parse_static_style_imports text p cwd = List.map_filter (import_target p cwd) (style_imports 0 text)"

definition co_located_names :: "string \<Rightarrow> string list" where
  "co_located_names p =
    (let name = base_name p; e = extname_of name; stem = take (length name - length e) name in
     concat (map (\<lambda>s. [stem @ s, stem @ ''.module'' @ s]) style_exts) @ co_scan_style_names)"

definition co_located_stylesheets :: "(string \<Rightarrow> bool) \<Rightarrow> string \<Rightarrow> string list" where
  \<comment> \<open>of an absolute path\<close>
  "co_located_stylesheets exists p = filter exists (first_once (map (resolve (dir_name p)) (co_located_names p)))"

section \<open>Scan targets\<close>

definition normalize_target :: "string \<Rightarrow> string \<Rightarrow> string" where
  "normalize_target cwd p = (if has_path_traversal p then p else absolute_in cwd p)"

definition add_scan_target :: "string \<Rightarrow> string \<Rightarrow> string list \<Rightarrow> string list" where
  "add_scan_target cwd p out =
    (if length out \<ge> max_scan_targets \<or> normalize_target cwd p \<in> set out then out else out @ [normalize_target cwd p])"

definition normalize_scan_targets :: "string list \<Rightarrow> string \<Rightarrow> string list" where
  "normalize_scan_targets ps cwd = fold (add_scan_target cwd) ps []"

definition style_targets :: "(string \<Rightarrow> bool) \<Rightarrow> (string \<Rightarrow> string option) \<Rightarrow> string \<Rightarrow> string \<Rightarrow> string list" where
  \<comment> \<open>of a component inside the project; the text of one that cannot be read is empty\<close>
  "style_targets exists text_at cwd p =
    (if is_inside_project p cwd \<and> lower_ext p \<in> set ui_code_exts
     then parse_static_style_imports (case text_at p of Some t \<Rightarrow> t | None \<Rightarrow> []) p cwd @ co_located_stylesheets exists p
     else [])"

definition expand_scan_targets :: "(string \<Rightarrow> bool) \<Rightarrow> (string \<Rightarrow> string option) \<Rightarrow> string list \<Rightarrow> string \<Rightarrow> string list" where
  "expand_scan_targets exists text_at primary cwd =
    (let ps = normalize_scan_targets primary cwd in
     fold (add_scan_target cwd) (concat (map (style_targets exists text_at cwd) ps)) ps)"

section \<open>The project of a file\<close>

definition looks_like_project_root :: "(string \<Rightarrow> bool) \<Rightarrow> string \<Rightarrow> bool" where
  "looks_like_project_root exists dir = (\<exists>m \<in> {''.git'', ''package.json'', ''.impeccable''}. exists (resolve dir m))"

fun climb_to_root :: "(string \<Rightarrow> bool) \<Rightarrow> string \<Rightarrow> string \<Rightarrow> string list \<Rightarrow> string" where
  \<comment> \<open>from a directory, its segments last first\<close>
  "climb_to_root exists home base up =
    (let dir = path_of (rev up) in
     if dir = home then base
     else if looks_like_project_root exists dir then dir
     else (case up of [] \<Rightarrow> base | _ # outer \<Rightarrow> climb_to_root exists home base outer))"

definition resolve_cache_cwd :: "(string \<Rightarrow> bool) \<Rightarrow> string \<Rightarrow> string option \<Rightarrow> string \<Rightarrow> string" where
  "resolve_cache_cwd exists home primary cwd =
    (let base = resolve cwd cwd in
     case primary of None \<Rightarrow> base
     | Some p \<Rightarrow>
       if p = [] \<or> has_path_traversal p \<or> looks_like_project_root exists base then base
       else climb_to_root exists home base (tl (rev (resolve_segs cwd p))))"

section \<open>What is added stays in the project\<close>

lemma add_scan_targets:
  "\<exists>extra. fold (add_scan_target cwd) qs out = out @ extra \<and> set extra \<subseteq> normalize_target cwd ` set qs \<and>
     (distinct out \<longrightarrow> distinct (out @ extra)) \<and> (length out \<le> max_scan_targets \<longrightarrow> length (out @ extra) \<le> max_scan_targets)"
proof (induction qs arbitrary: out)
  case (Cons q qs)
  obtain one where one: "add_scan_target cwd q out = out @ one" "set one \<subseteq> {normalize_target cwd q}"
      "distinct out \<longrightarrow> distinct (out @ one)" "length out \<le> max_scan_targets \<longrightarrow> length (out @ one) \<le> max_scan_targets"
  proof (cases "length out \<ge> max_scan_targets \<or> normalize_target cwd q \<in> set out")
    case True
    then show ?thesis by (intro that [of "[]"]) (auto simp: add_scan_target_def)
  next
    case False
    then show ?thesis by (intro that [of "[normalize_target cwd q]"]) (auto simp: add_scan_target_def)
  qed
  from Cons.IH [of "out @ one"] obtain extra where "fold (add_scan_target cwd) qs (out @ one) = (out @ one) @ extra"
    "set extra \<subseteq> normalize_target cwd ` set qs" "distinct (out @ one) \<longrightarrow> distinct ((out @ one) @ extra)"
    "length (out @ one) \<le> max_scan_targets \<longrightarrow> length ((out @ one) @ extra) \<le> max_scan_targets" by blast
  with one show ?case by (intro exI [of _ "one @ extra"]) auto
qed simp

lemma resolve_absolute [simp]: "is_absolute (resolve cwd p)"
  by (simp add: resolve_def path_of_def is_absolute_def)

lemma resolve_segs_absolute: "is_absolute p \<Longrightarrow> resolve_segs d p = norm_segs [] (segs p)"
  by (simp add: resolve_segs_def)

lemma resolve_segs_resolve [simp]: "resolve_segs c (resolve d p) = resolve_segs d p"
  unfolding resolve_def by (rule resolve_segs_path_of) (rule resolve_segs_plain)

lemma absolute_in_segs [simp]: "resolve_segs c (absolute_in cwd p) = resolve_segs cwd p"
  by (auto simp: absolute_in_def) (simp add: resolve_segs_absolute)

lemma absolute_in_absolute [simp]: "is_absolute (absolute_in cwd p)"
  by (simp add: absolute_in_def)

lemma inside_below:
  assumes "is_inside_project p cwd" "is_absolute p"
  shows "\<exists>down. resolve_segs cwd p = resolve_segs cwd cwd @ down"
proof -
  obtain up down where c: "strip_common (resolve_segs cwd cwd) (resolve_segs p p) = (up, down)" by fastforce
  then have rel: "relative cwd p = join ''/'' (replicate (length up) ''..'' @ down)" by (simp add: relative_def)
  have "up = []"
  proof (rule ccontr)
    assume "up \<noteq> []"
    then obtain n where "length up = Suc n" by (cases up) auto
    with rel have "starts_with (relative cwd p) ''..''" using join_dotdot by simp
    moreover from this have "relative cwd p \<noteq> []" by (auto simp: starts_with_def)
    ultimately show False using assms(1) by (simp add: is_inside_project_def Let_def)
  qed
  with strip_common_spec [OF c] show ?thesis using assms(2) by (auto simp: resolve_segs_absolute)
qed

lemma segs_append: "segs (x @ CHR ''/'' # y) = segs x @ segs y"
  unfolding segs_def by (induction x) (auto split: list.splits)

lemma segs_slashes: "set w \<subseteq> {CHR ''/''} \<Longrightarrow> segs w = replicate (Suc (length w)) []"
  unfolding segs_def by (induction w) auto

lemma norm_segs_blank: "norm_segs acc (replicate n [] @ ss) = norm_segs acc ss"
  by (induction n) auto

lemma parts_of_path:
  assumes "CHR ''/'' \<notin> set v" "set w \<subseteq> {CHR ''/''}"
  shows "segs (v @ w) = v # replicate (length w) []"
proof (cases w)
  case Nil
  then show ?thesis using assms(1) by (simp add: segs_def split_on_plain)
next
  case (Cons c w')
  then have "c = CHR ''/''" "set w' \<subseteq> {CHR ''/''}" using assms(2) by auto
  with Cons segs_append [of v w'] segs_slashes [of w'] assms(1) show ?thesis
    by (simp add: segs_def split_on_plain)
qed

lemma path_decomposed:
  fixes s :: string
  obtains u v w where "s = u @ v @ w" "set w \<subseteq> {CHR ''/''}" "CHR ''/'' \<notin> set v" "u = [] \<or> last u = CHR ''/''" "v = [] \<longrightarrow> u = []"
    "rev u = dropWhile (\<lambda>d. d \<noteq> CHR ''/'') (dropWhile (\<lambda>d. d = CHR ''/'') (rev s))"
proof -
  define w where "w = takeWhile (\<lambda>d. d = CHR ''/'') (rev s)"
  define t where "t = dropWhile (\<lambda>d. d = CHR ''/'') (rev s)"
  define v where "v = takeWhile (\<lambda>d. d \<noteq> CHR ''/'') t"
  define u where "u = dropWhile (\<lambda>d. d \<noteq> CHR ''/'') t"
  have "rev s = w @ v @ u" by (simp add: w_def t_def v_def u_def)
  then have "s = rev u @ rev v @ rev w" by (metis append.assoc rev_append rev_rev_ident)
  moreover have "set (rev w) \<subseteq> {CHR ''/''}" by (auto simp: w_def dest: set_takeWhileD)
  moreover have "CHR ''/'' \<notin> set (rev v)" by (auto simp: v_def dest: set_takeWhileD)
  moreover have "rev u = [] \<or> last (rev u) = CHR ''/''"
    using hd_dropWhile [of "\<lambda>d. d \<noteq> CHR ''/''" t] by (cases "u = []") (auto simp: u_def last_rev)
  moreover have "rev v = [] \<longrightarrow> rev u = []"
    using hd_dropWhile [of "\<lambda>d. d = CHR ''/''" "rev s"] by (cases t) (auto simp: t_def [symmetric] v_def u_def)
  moreover have "rev (rev u) = dropWhile (\<lambda>d. d \<noteq> CHR ''/'') (dropWhile (\<lambda>d. d = CHR ''/'') (rev s))" by (simp add: u_def t_def)
  ultimately show thesis by (rule that)
qed

lemma dir_and_base:
  assumes "is_absolute p" "base_name p \<notin> {[], ''.'', ''..''}"
  shows "resolve_segs c p = resolve_segs c (dir_name p) @ [base_name p]" "CHR ''/'' \<notin> set (base_name p)" "is_absolute (dir_name p)"
proof -
  obtain s where p: "p = CHR ''/'' # s" using assms(1) by (cases p) (auto simp: is_absolute_def)
  obtain u v w where s: "s = u @ v @ w" "set w \<subseteq> {CHR ''/''}" "CHR ''/'' \<notin> set v" "u = [] \<or> last u = CHR ''/''" "v = [] \<longrightarrow> u = []"
    "rev u = dropWhile (\<lambda>d. d \<noteq> CHR ''/'') (dropWhile (\<lambda>d. d = CHR ''/'') (rev s))"
    by (rule path_decomposed)
  define x where "x = butlast (CHR ''/'' # u)"
  have x: "CHR ''/'' # u = x @ [CHR ''/'']" using s(4) by (cases u rule: rev_cases) (auto simp: x_def)
  have sw: "dropWhile (\<lambda>d. d = CHR ''/'') (rev w @ t) = dropWhile (\<lambda>d. d = CHR ''/'') t" for t
    using s(2) by (intro dropWhile_append2) auto
  have v: "v \<noteq> []"
  proof
    assume "v = []"
    then have "rev p = rev w @ [CHR ''/'']" using p s(1,5) by simp
    have "base_name p = []" unfolding base_name_def \<open>rev p = rev w @ [CHR ''/'']\<close> sw by (simp add: segs_def)
    with assms(2) show False by simp
  qed
  have "rev p = rev w @ rev v @ rev (CHR ''/'' # u)" using p s(1) by simp
  moreover have "dropWhile (\<lambda>d. d = CHR ''/'') (rev v @ rev (CHR ''/'' # u)) = rev v @ rev (CHR ''/'' # u)"
  proof (cases v rule: rev_cases)
    case (snoc v' a)
    with s(3) show ?thesis by auto
  qed (use v in simp)
  ultimately have "rev (dropWhile (\<lambda>d. d = CHR ''/'') (rev p)) = x @ CHR ''/'' # v"
    using sw x by (metis append.assoc append_Cons append_Nil rev_append rev_rev_ident)
  then have b: "base_name p = v" using s(3) by (simp add: base_name_def segs_append) (simp add: segs_def split_on_plain)
  have d: "is_absolute (dir_name p)" "norm_segs [] (segs (dir_name p)) = norm_segs [] (segs x)"
  proof -
    have "dir_name p = (if u = [] then ''/'' else if length u = 1 then ''//'' else CHR ''/'' # butlast u)"
      unfolding p dir_name_def list.case s(6) [symmetric] by (cases u rule: rev_cases) (simp_all add: Let_def)
    moreover have "u = [] \<Longrightarrow> x = []" "length u = 1 \<Longrightarrow> x = ''/''" "u \<noteq> [] \<Longrightarrow> x = CHR ''/'' # butlast u"
      by (auto simp: x_def length_Suc_conv)
    moreover have "norm_segs [] (segs ''/'') = norm_segs [] (segs [])" "norm_segs [] (segs ''//'') = norm_segs [] (segs ''/'')"
      by (simp_all add: segs_def)
    ultimately show "is_absolute (dir_name p)" "norm_segs [] (segs (dir_name p)) = norm_segs [] (segs x)"
      by (auto simp: is_absolute_def)
  qed
  have "segs p = segs x @ v # replicate (length w) []"
    using x parts_of_path [OF s(3,2)] segs_append [of x "v @ w"] p s(1) by (metis append.assoc append_Cons append_Nil)
  moreover have "plain_seg v" using v s(3) b assms(2) by (auto simp: plain_seg_def)
  ultimately have "norm_segs [] (segs p) = norm_segs [] (segs x) @ [v]"
    using norm_segs_blank [of _ _ "[]"] by (simp add: norm_segs_append plain_seg_def)
  then show "resolve_segs c p = resolve_segs c (dir_name p) @ [base_name p]" "CHR ''/'' \<notin> set (base_name p)" "is_absolute (dir_name p)"
    using d b assms(1) s(3) by (simp_all add: resolve_segs_absolute)
qed

lemma below_directory:
  assumes "is_absolute p" "resolve_segs cwd p = resolve_segs cwd cwd @ down" "down \<noteq> []"
    and "base_name p \<notin> {[], ''.'', ''..''}" "plain_seg name"
  shows "resolve_segs cwd (resolve (dir_name p) name) = resolve_segs cwd cwd @ butlast down @ [name]"
proof -
  note d = dir_and_base [OF assms(1,4)]
  have "resolve_segs cwd (dir_name p) = resolve_segs cwd cwd @ butlast down"
    using d(1) [of cwd] assms(2,3) by (metis butlast_append butlast_snoc)
  moreover have "segs name = [name]" "\<not> is_absolute name"
    using assms(5) by (auto simp: plain_seg_def segs_def split_on_plain is_absolute_def) (cases name; auto)
  ultimately have "resolve_segs (dir_name p) name = resolve_segs cwd cwd @ butlast down @ [name]"
    using assms(5) d(3) resolve_segs_absolute [OF d(3)] by (simp add: resolve_segs_def [of _ name] norm_segs_append plain_seg_def)
  then show ?thesis by simp
qed

lemma co_located_plain:
  assumes "CHR ''/'' \<notin> set (base_name p)" "name \<in> set (co_located_names p)"
  shows "plain_seg name"
proof -
  let ?stem = "take (length (base_name p) - length (extname_of (base_name p))) (base_name p)"
  have "CHR ''/'' \<notin> set ?stem" using assms(1) by (auto dest: in_set_takeD)
  then show ?thesis
    using assms(2) by (auto simp: co_located_names_def Let_def co_scan_style_names_def style_exts_def plain_seg_def append_eq_Cons_conv)
qed

lemma component_name: "lower_ext p \<in> set ui_code_exts \<Longrightarrow> base_name p \<notin> {[], ''.'', ''..''}"
  by (auto simp: lower_ext_def ui_code_exts_def extname_of_def)

lemma style_targets_below:
  assumes "q \<in> set (style_targets exists text_at cwd p)" "is_absolute p" "resolve_segs cwd p \<noteq> resolve_segs cwd cwd"
  shows "is_absolute q \<and> (\<exists>down. resolve_segs cwd q = resolve_segs cwd cwd @ down)"
proof -
  from assms(1) have p: "is_inside_project p cwd" "lower_ext p \<in> set ui_code_exts" by (auto simp: style_targets_def split: if_splits)
  then consider (imported) v where "import_target p cwd v = Some q" | (beside) name where "name \<in> set (co_located_names p)" "q = resolve (dir_name p) name"
    using assms(1) by (auto simp: style_targets_def parse_static_style_imports_def co_located_stylesheets_def List.map_filter_def first_once_def)
  then show ?thesis
  proof cases
    case imported
    then have "is_absolute q" "is_inside_project q cwd" by (auto simp: import_target_def Let_def split: if_splits)
    then show ?thesis using inside_below by blast
  next
    case beside
    note b = component_name [OF p(2)]
    obtain down where down: "resolve_segs cwd p = resolve_segs cwd cwd @ down" using inside_below [OF p(1) assms(2)] by blast
    with assms(3) have "down \<noteq> []" by auto
    from below_directory [OF assms(2) down this b co_located_plain [OF dir_and_base(2) [OF assms(2) b] beside(1)]] beside(2)
    show ?thesis by simp
  qed
qed

text \<open>
  C33. The files a run looks at are the ones the event names, each once and at most six, and after them
  stylesheets that all lie in the project, unless the event names the directory of the project itself.
\<close>

theorem targets_stay_in_the_project:
  assumes "\<forall>p \<in> set primary. resolve_segs cwd p \<noteq> resolve_segs cwd cwd"
  shows "\<exists>extra. expand_scan_targets exists text_at primary cwd = normalize_scan_targets primary cwd @ extra \<and>
    distinct (expand_scan_targets exists text_at primary cwd) \<and>
    length (expand_scan_targets exists text_at primary cwd) \<le> max_scan_targets \<and>
    set (normalize_scan_targets primary cwd) \<subseteq> normalize_target cwd ` set primary \<and>
    (\<forall>q \<in> set extra. \<exists>down. resolve_segs cwd q = resolve_segs cwd cwd @ down)"
proof -
  let ?ps = "normalize_scan_targets primary cwd"
  have ps: "set ?ps \<subseteq> normalize_target cwd ` set primary" "distinct ?ps" "length ?ps \<le> max_scan_targets"
    using add_scan_targets [of cwd primary "[]"] by (auto simp: normalize_scan_targets_def)
  from add_scan_targets [of cwd "concat (map (style_targets exists text_at cwd) ?ps)" ?ps] obtain extra where
    e: "expand_scan_targets exists text_at primary cwd = ?ps @ extra"
      "set extra \<subseteq> normalize_target cwd ` set (concat (map (style_targets exists text_at cwd) ?ps))"
      "distinct (?ps @ extra)" "length (?ps @ extra) \<le> max_scan_targets"
    using ps(2,3) by (auto simp: expand_scan_targets_def)
  have "\<exists>down. resolve_segs cwd q = resolve_segs cwd cwd @ down" if "q \<in> set extra" for q
  proof -
    from that e(2) obtain r p where r: "q = normalize_target cwd r" "r \<in> set (style_targets exists text_at cwd p)" "p \<in> set ?ps" by auto
    from r(3) ps(1) obtain o' where o: "o' \<in> set primary" "p = normalize_target cwd o'" by auto
    have "\<not> has_path_traversal p" using r(2) by (auto simp: style_targets_def is_inside_project_def split: if_splits)
    with o(2) have "p = absolute_in cwd o'" by (auto simp: normalize_target_def split: if_splits)
    then have "is_absolute p" "resolve_segs cwd p = resolve_segs cwd o'" by simp_all
    with style_targets_below [OF r(2)] assms o(1) have "is_absolute r" "\<exists>down. resolve_segs cwd r = resolve_segs cwd cwd @ down" by auto
    with r(1) show ?thesis by (auto simp: normalize_target_def absolute_in_def)
  qed
  with e ps(1) show ?thesis by auto
qed

lemma targets_stay_in_the_project_witness:
  "\<exists>extra. expand_scan_targets (\<lambda>q. q = ''/w/src/App.css'') (\<lambda>_. None) [''src/App.tsx''] ''/w'' =
      normalize_scan_targets [''src/App.tsx''] ''/w'' @ extra \<and>
    distinct (expand_scan_targets (\<lambda>q. q = ''/w/src/App.css'') (\<lambda>_. None) [''src/App.tsx''] ''/w'') \<and>
    length (expand_scan_targets (\<lambda>q. q = ''/w/src/App.css'') (\<lambda>_. None) [''src/App.tsx''] ''/w'') \<le> max_scan_targets \<and>
    set (normalize_scan_targets [''src/App.tsx''] ''/w'') \<subseteq> normalize_target ''/w'' ` set [''src/App.tsx''] \<and>
    (\<forall>q \<in> set extra. \<exists>down. resolve_segs ''/w'' q = resolve_segs ''/w'' ''/w'' @ down)"
proof -
  have "\<forall>p \<in> set [''src/App.tsx'']. resolve_segs ''/w'' p \<noteq> resolve_segs ''/w'' ''/w''" by code_simp
  from targets_stay_in_the_project [OF this] show ?thesis .
qed

lemma stylesheet_beside_is_a_target:
  "expand_scan_targets (\<lambda>q. q = ''/w/src/App.css'') (\<lambda>_. Some ''import { a } from \"../ui.css\"'') [''src/App.tsx''] ''/w'' =
   [''/w/src/App.tsx'', ''/w/ui.css'', ''/w/src/App.css'']"
  by code_simp

end
