(* ===== verification/Hook_Scan.thy ===== *)
theory Hook_Scan
  imports Hook_Filter
begin

text \<open>
  The cache of the design hook and the two scans of \<open>hook-lib.mjs\<close>: the one after an
  edit, which reports the immediate tier of the edited files, and the one at the end of
  a turn, which reports the full rule set of the files touched in the session. The cache
  file is one that the hook wrote. The detector and the disk are arguments.
\<close>

section \<open>The cache\<close>

record file_entry =
  fe_edits :: nat
  fe_findings :: "string list"
  fe_acked :: bool

record hook_session =
  hs_updated :: int
  hs_files :: "(string \<times> file_entry) list"

type_synonym hook_cache = "(string \<times> hook_session) list"

definition cache_max_sessions :: nat where "cache_max_sessions = 8"
definition edit_count_threshold :: nat where "edit_count_threshold = 6"

definition new_entry :: file_entry where
  "new_entry = \<lparr>fe_edits = 0, fe_findings = [], fe_acked = False\<rparr>"

definition session_of :: "hook_cache \<Rightarrow> string \<Rightarrow> hook_session" where
  "session_of cache i = (case map_of cache i of None \<Rightarrow> \<lparr>hs_updated = 0, hs_files = []\<rparr> | Some s \<Rightarrow> s)"

definition entry_of :: "hook_cache \<Rightarrow> string \<Rightarrow> string \<Rightarrow> file_entry" where
  \<comment> \<open>\<open>ensureFile\<close>, without putting it in\<close>
  "entry_of cache i p = (case map_of (hs_files (session_of cache i)) p of None \<Rightarrow> new_entry | Some e \<Rightarrow> e)"

definition set_entry_of :: "int \<Rightarrow> hook_cache \<Rightarrow> string \<Rightarrow> string \<Rightarrow> file_entry \<Rightarrow> hook_cache" where
  "set_entry_of now cache i p e = alset i \<lparr>hs_updated = now, hs_files = alset p e (hs_files (session_of cache i))\<rparr> cache"

definition bump_edit_count :: "int \<Rightarrow> string \<Rightarrow> string \<Rightarrow> hook_cache \<Rightarrow> nat \<times> hook_cache" where
  "bump_edit_count now i p cache =
    (let e = entry_of cache i p; n = fe_edits e + 1 in (n, set_entry_of now cache i p (e\<lparr>fe_edits := n\<rparr>)))"

definition touch_file :: "int \<Rightarrow> string \<Rightarrow> string \<Rightarrow> hook_cache \<Rightarrow> hook_cache" where
  "touch_file now i p cache = set_entry_of now cache i p (entry_of cache i p)"

fun dedupe_against :: "string list \<Rightarrow> jsval list \<Rightarrow> jsval list" where
  \<comment> \<open>the findings with a key that is neither remembered nor that of an earlier one\<close>
  "dedupe_against old [] = []"
| "dedupe_against old (f # fs) =
    (if finding_cache_key f \<in> set old then dedupe_against old fs
     else f # dedupe_against (finding_cache_key f # old) fs)"

definition remember_findings :: "int \<Rightarrow> string \<Rightarrow> string \<Rightarrow> jsval list \<Rightarrow> hook_cache \<Rightarrow> hook_cache" where
  \<comment> \<open>replaces what was remembered\<close>
  "remember_findings now i p fs cache =
    set_entry_of now cache i p ((entry_of cache i p)\<lparr>fe_findings := first_once (map finding_cache_key fs)\<rparr>)"

definition persisted_cache :: "hook_cache \<Rightarrow> hook_cache" where
  \<comment> \<open>the most recent sessions only\<close>
  "persisted_cache cache =
    (if length cache > cache_max_sessions then take cache_max_sessions (sort_key (\<lambda>(i, s). - hs_updated s) cache) else cache)"

section \<open>Detecting\<close>

text \<open>A detector that throws gives none; the first argument says whether the project's design system is passed on.\<close>

record detector =
  dt_text :: "bool \<Rightarrow> string \<Rightarrow> string \<Rightarrow> jsval option"
  dt_html :: "(bool \<Rightarrow> string \<Rightarrow> jsval option) option"
  dt_note :: bool

record hook_disk =
  hk_exists :: "string \<Rightarrow> bool"
  hk_text :: "string \<Rightarrow> string option"
  hk_size :: "string \<Rightarrow> nat"

record hook_scan =
  sn_config :: hook_config
  sn_cwd :: string
  sn_session :: string
  sn_now :: int
  sn_detector :: detector
  sn_disk :: hook_disk

definition detected :: "hook_scan \<Rightarrow> string \<Rightarrow> string \<Rightarrow> jsval option" where
  "detected n text p =
    (case (if uses_html_engine (sn_config n) p then dt_html (sn_detector n) else None) of
       Some html \<Rightarrow> html (hc_design (sn_config n)) p
     | None \<Rightarrow> dt_text (sn_detector n) (hc_design (sn_config n)) text p)"

section \<open>After an edit\<close>

record scan_state =
  ss_cache :: hook_cache
  ss_fresh :: "(string \<times> jsval list) list"
  ss_pending :: "(string \<times> string list) option"
  ss_clean :: "string option"
  ss_suppressed :: "string option"
  ss_ack_deduped :: bool
  ss_threw :: bool
  ss_skip :: string
  ss_bytes :: nat
  ss_hit :: bool
  ss_dirty :: bool
  ss_deferred :: nat

definition scan_begin :: "hook_cache \<Rightarrow> scan_state" where
  "scan_begin cache = \<lparr>ss_cache = cache, ss_fresh = [], ss_pending = None, ss_clean = None, ss_suppressed = None,
     ss_ack_deduped = False, ss_threw = False, ss_skip = ''no-scannable-file'', ss_bytes = 0, ss_hit = False,
     ss_dirty = False, ss_deferred = 0\<rparr>"

definition too_large :: "hook_scan \<Rightarrow> string \<Rightarrow> bool" where
  "too_large n p = (0 < hc_max_bytes (sn_config n) \<and> hc_max_bytes (sn_config n) < of_nat (hk_size (sn_disk n) p))"

definition count_edit :: "hook_scan \<Rightarrow> bool \<Rightarrow> string \<Rightarrow> scan_state \<Rightarrow> bool \<times> scan_state" where
  \<comment> \<open>an edited file counts; whether it was edited too often\<close>
  "count_edit n primary p s =
    (if \<not> primary then (False, s)
     else
       let (k, cache) = bump_edit_count (sn_now n) (sn_session n) p (ss_cache s); s = s\<lparr>ss_cache := cache, ss_dirty := True\<rparr> in
       if k \<le> edit_count_threshold then (False, s)
       else (True, s\<lparr>ss_suppressed := (if k = edit_count_threshold + 1 \<and> ss_suppressed s = None then Some p else ss_suppressed s),
               ss_skip := ''suppressed'', ss_hit := True\<rparr>))"

definition acknowledge :: "hook_scan \<Rightarrow> bool \<Rightarrow> string \<Rightarrow> scan_state \<Rightarrow> scan_state" where
  \<comment> \<open>a file without findings, told once in a session\<close>
  "acknowledge n quiet p s =
    (let e = entry_of (ss_cache s) (sn_session n) p in
     if quiet \<or> \<not> should_emit_ack_for_file (sn_config n) p then s\<lparr>ss_clean := Some p\<rparr>
     else if fe_acked e then s\<lparr>ss_ack_deduped := True\<rparr>
     else s\<lparr>ss_cache := alset (sn_session n) ((session_of (ss_cache s) (sn_session n))
               \<lparr>hs_files := alset p (e\<lparr>fe_acked := True\<rparr>) (hs_files (session_of (ss_cache s) (sn_session n)))\<rparr>) (ss_cache s),
            ss_clean := Some p, ss_ack_deduped := False\<rparr>)"

definition report_edit :: "hook_scan \<Rightarrow> bool \<Rightarrow> string \<Rightarrow> jsval list \<Rightarrow> jsval list \<Rightarrow> scan_state \<Rightarrow> scan_state" where
  \<comment> \<open>after a scan that did not throw, with the immediate findings and the fresh ones among them\<close>
  "report_edit n quiet p immediate fresh s =
    (let s = s\<lparr>ss_cache := remember_findings (sn_now n) (sn_session n) p immediate (ss_cache s), ss_dirty := True\<rparr> in
     if fresh \<noteq> [] then s\<lparr>ss_fresh := ss_fresh s @ [(p, fresh)]\<rparr>
     else if immediate \<noteq> [] \<and> ss_pending s = None then s\<lparr>ss_pending := Some (p, map finding_cache_key immediate)\<rparr>
     else if immediate = [] \<and> ss_clean s = None then acknowledge n quiet p s
     else s)"

definition immediate_of :: "hook_scan \<Rightarrow> bool \<Rightarrow> jsval \<Rightarrow> jsval list \<times> jsval list" where
  \<comment> \<open>the findings to report now and the ones left for the end of the turn\<close>
  "immediate_of n tiered found =
    (let filtered = filter_findings (sn_config n) found in
     if tiered then split_findings_by_tier filtered else (filtered, []))"

definition scan_text :: "hook_scan \<Rightarrow> bool \<Rightarrow> bool \<Rightarrow> string \<Rightarrow> string \<Rightarrow> scan_state \<Rightarrow> scan_state" where
  "scan_text n tiered quiet p text s =
    (case detected n text p of
       None \<Rightarrow> s\<lparr>ss_threw := True\<rparr>
     | Some found \<Rightarrow>
       let (immediate, deferred) = immediate_of n tiered found;
           s = (if deferred = [] then s
                else s\<lparr>ss_cache := touch_file (sn_now n) (sn_session n) p (ss_cache s), ss_dirty := True,
                       ss_deferred := ss_deferred s + length deferred\<rparr>)
       in report_edit n quiet p immediate
            (dedupe_against (fe_findings (entry_of (ss_cache s) (sn_session n) p)) immediate) s)"

definition scan_edit :: "hook_scan \<Rightarrow> bool \<Rightarrow> bool \<Rightarrow> string set \<Rightarrow> string \<Rightarrow> scan_state \<Rightarrow> scan_state option" where
  \<comment> \<open>none where reading the file throws\<close>
  "scan_edit n tiered quiet primary p s =
    (case skip_reason (sn_config n) (sn_cwd n) p of
       Some reason \<Rightarrow> Some (s\<lparr>ss_skip := reason\<rparr>)
     | None \<Rightarrow>
       if \<not> hk_exists (sn_disk n) p then Some (s\<lparr>ss_skip := ''file-missing''\<rparr>)
       else if too_large n p then Some (s\<lparr>ss_bytes := hk_size (sn_disk n) p, ss_skip := ''too-large''\<rparr>)
       else (case count_edit n (p \<in> primary) p s of
           (True, s) \<Rightarrow> Some s
         | (False, s) \<Rightarrow> map_option (\<lambda>text. scan_text n tiered quiet p text s) (hk_text (sn_disk n) p)))"

fun scan_edits :: "hook_scan \<Rightarrow> bool \<Rightarrow> bool \<Rightarrow> string set \<Rightarrow> string list \<Rightarrow> scan_state \<Rightarrow> scan_state option" where
  "scan_edits n tiered quiet primary [] s = Some s"
| "scan_edits n tiered quiet primary (p # ps) s = Option.bind (scan_edit n tiered quiet primary p s) (scan_edits n tiered quiet primary ps)"

section \<open>At the end of a turn\<close>

definition stop_max_files :: nat where "stop_max_files = 20"

record stop_state =
  st_cache :: hook_cache
  st_fresh :: "(string \<times> jsval list) list"
  st_scanned :: nat

definition scan_stop :: "hook_scan \<Rightarrow> string \<Rightarrow> stop_state \<Rightarrow> stop_state" where
  "scan_stop n p s =
    (if st_scanned s \<ge> stop_max_files \<or> skip_reason (sn_config n) (sn_cwd n) p \<noteq> None \<or> \<not> hk_exists (sn_disk n) p then s
     else
       let s = s\<lparr>st_scanned := st_scanned s + 1\<rparr> in
       (case hk_text (sn_disk n) p of None \<Rightarrow> s
        | Some text \<Rightarrow>
          let filtered = filter_findings (sn_config n) (case detected n text p of None \<Rightarrow> JArr [] | Some found \<Rightarrow> found);
              fresh = dedupe_against (fe_findings (entry_of (st_cache s) (sn_session n) p)) filtered in
          if fresh = [] then s
          else s\<lparr>st_cache := remember_findings (sn_now n) (sn_session n) p fresh (st_cache s), st_fresh := st_fresh s @ [(p, fresh)]\<rparr>))"

definition scan_stops :: "hook_scan \<Rightarrow> string list \<Rightarrow> hook_cache \<Rightarrow> stop_state" where
  "scan_stops n touched cache = fold (scan_stop n) touched \<lparr>st_cache = cache, st_fresh = [], st_scanned = 0\<rparr>"

definition touched_files :: "hook_cache \<Rightarrow> string \<Rightarrow> string list" where
  "touched_files cache i = map fst (hs_files (session_of cache i))"

section \<open>What is reported\<close>

lemma dedupe_Nil: "dedupe_against old fs = [] \<longleftrightarrow> finding_cache_key ` set fs \<subseteq> set old"
  by (induction old fs rule: dedupe_against.induct) auto

lemma dedupe_new: "f \<in> set (dedupe_against old fs) \<Longrightarrow> f \<in> set fs \<and> finding_cache_key f \<notin> set old"
  by (induction old fs rule: dedupe_against.induct) (auto split: if_splits)

lemma dedupe_keys: "finding_cache_key ` set (dedupe_against old fs) = finding_cache_key ` set fs - set old"
  by (induction old fs rule: dedupe_against.induct) auto

lemma session_of_set [simp]:
  "session_of (set_entry_of now cache i p e) j =
    (if i = j then \<lparr>hs_updated = now, hs_files = alset p e (hs_files (session_of cache i))\<rparr> else session_of cache j)"
  by (simp add: set_entry_of_def session_of_def)

lemma entry_of_set [simp]:
  "entry_of (set_entry_of now cache i p e) j q = (if i = j \<and> p = q then e else entry_of cache j q)"
  by (simp add: entry_of_def)

lemma entry_of_acknowledge:
  "entry_of (ss_cache (acknowledge n quiet p s)) i q = entry_of (ss_cache s) i q \<or>
   (i = sn_session n \<and> q = p \<and> entry_of (ss_cache (acknowledge n quiet p s)) i q = (entry_of (ss_cache s) i q)\<lparr>fe_acked := True\<rparr>)"
  by (simp add: acknowledge_def Let_def entry_of_def session_of_def)

lemma remembered: "set (fe_findings (entry_of (remember_findings now i p fs cache) i p)) = finding_cache_key ` set fs"
  by (simp add: remember_findings_def first_once_def)

text \<open>
  What the scan leaves for a file it looked at: its findings are those of the disk now, its
  count one more where it was edited, and no other file is touched.
\<close>

lemma report_edit_entries:
  "fe_findings (entry_of (ss_cache (report_edit n quiet p immediate fresh s)) (sn_session n) q) =
     (if q = p then first_once (map finding_cache_key immediate) else fe_findings (entry_of (ss_cache s) (sn_session n) q))"
  "fe_edits (entry_of (ss_cache (report_edit n quiet p immediate fresh s)) (sn_session n) q) =
     fe_edits (entry_of (ss_cache s) (sn_session n) q)"
proof -
  let ?s = "s\<lparr>ss_cache := remember_findings (sn_now n) (sn_session n) p immediate (ss_cache s), ss_dirty := True\<rparr>"
  have "entry_of (ss_cache (acknowledge n quiet p ?s)) (sn_session n) q = entry_of (ss_cache ?s) (sn_session n) q \<or>
      entry_of (ss_cache (acknowledge n quiet p ?s)) (sn_session n) q = (entry_of (ss_cache ?s) (sn_session n) q)\<lparr>fe_acked := True\<rparr>"
    using entry_of_acknowledge by blast
  then show "fe_findings (entry_of (ss_cache (report_edit n quiet p immediate fresh s)) (sn_session n) q) =
     (if q = p then first_once (map finding_cache_key immediate) else fe_findings (entry_of (ss_cache s) (sn_session n) q))"
    "fe_edits (entry_of (ss_cache (report_edit n quiet p immediate fresh s)) (sn_session n) q) =
     fe_edits (entry_of (ss_cache s) (sn_session n) q)"
    by (auto simp: report_edit_def remember_findings_def Let_def)
qed

section \<open>A finding is reported once\<close>

definition settled :: "hook_scan \<Rightarrow> bool \<Rightarrow> string set \<Rightarrow> file_entry \<Rightarrow> string \<Rightarrow> bool" where
  \<comment> \<open>nothing of the file would be reported: it is not looked at, or everything found in it is remembered\<close>
  "settled n tiered primary e p =
    (skip_reason (sn_config n) (sn_cwd n) p \<noteq> None \<or> \<not> hk_exists (sn_disk n) p \<or> too_large n p \<or>
     (p \<in> primary \<and> edit_count_threshold \<le> fe_edits e) \<or>
     (case hk_text (sn_disk n) p of None \<Rightarrow> True | Some text \<Rightarrow> (case detected n text p of None \<Rightarrow> True
       | Some found \<Rightarrow> finding_cache_key ` set (fst (immediate_of n tiered found)) \<subseteq> set (fe_findings e))))"

lemma count_edit_entries:
  "count_edit n primary p s = (b, s') \<Longrightarrow>
   fe_findings (entry_of (ss_cache s') (sn_session n) q) = fe_findings (entry_of (ss_cache s) (sn_session n) q) \<and>
   fe_edits (entry_of (ss_cache s') (sn_session n) q) =
     fe_edits (entry_of (ss_cache s) (sn_session n) q) + (if primary \<and> q = p then 1 else 0) \<and>
   b = (primary \<and> edit_count_threshold \<le> fe_edits (entry_of (ss_cache s) (sn_session n) p)) \<and> ss_fresh s' = ss_fresh s"
  by (auto simp: count_edit_def bump_edit_count_def Let_def split: if_splits)

lemma scan_text_entries:
  "fe_findings (entry_of (ss_cache (scan_text n tiered quiet p text s)) (sn_session n) q) =
     (case detected n text p of None \<Rightarrow> fe_findings (entry_of (ss_cache s) (sn_session n) q)
      | Some found \<Rightarrow> if q = p then first_once (map finding_cache_key (fst (immediate_of n tiered found)))
          else fe_findings (entry_of (ss_cache s) (sn_session n) q))"
  "fe_edits (entry_of (ss_cache (scan_text n tiered quiet p text s)) (sn_session n) q) = fe_edits (entry_of (ss_cache s) (sn_session n) q)"
  by (auto simp: scan_text_def report_edit_entries touch_file_def split: option.splits prod.splits)

lemma acknowledge_fresh [simp]: "ss_fresh (acknowledge n quiet p s) = ss_fresh s"
  by (simp add: acknowledge_def Let_def)

lemma report_edit_fresh: "ss_fresh (report_edit n quiet p immediate [] s) = ss_fresh s"
  by (simp add: report_edit_def Let_def)

lemma scan_text_fresh:
  assumes "case detected n page p of None \<Rightarrow> True
    | Some found \<Rightarrow> finding_cache_key ` set (fst (immediate_of n tiered found)) \<subseteq> set (fe_findings (entry_of (ss_cache s) (sn_session n) p))"
  shows "ss_fresh (scan_text n tiered quiet p page s) = ss_fresh s"
proof (cases "detected n page p")
  case (Some found)
  obtain immediate deferred where f: "immediate_of n tiered found = (immediate, deferred)" by fastforce
  then have "finding_cache_key ` set immediate \<subseteq> set (fe_findings (entry_of (ss_cache s) (sn_session n) p))" using assms Some by simp
  then have d: "dedupe_against (fe_findings (entry_of (ss_cache s) (sn_session n) p)) immediate = []" by (simp add: dedupe_Nil)
  then show ?thesis by (cases "deferred = []") (simp_all add: scan_text_def Some f report_edit_fresh touch_file_def)
qed (simp add: scan_text_def)

lemma scan_edit_cases:
  assumes "scan_edit n tiered quiet primary p s = Some s'"
  obtains (skipped) "ss_cache s' = ss_cache s" "ss_fresh s' = ss_fresh s"
      "skip_reason (sn_config n) (sn_cwd n) p \<noteq> None \<or> \<not> hk_exists (sn_disk n) p \<or> too_large n p"
    | (suppressed) "count_edit n (p \<in> primary) p s = (True, s')"
    | (scanned) s1 page where "count_edit n (p \<in> primary) p s = (False, s1)" "hk_text (sn_disk n) p = Some page"
      "s' = scan_text n tiered quiet p page s1" "skip_reason (sn_config n) (sn_cwd n) p = None" "hk_exists (sn_disk n) p" "\<not> too_large n p"
  using assms by (auto simp: scan_edit_def split: option.splits if_splits prod.splits bool.splits)

lemma scan_edit_settles:
  assumes "scan_edit n tiered quiet primary p s = Some s'"
  shows "settled n tiered primary (entry_of (ss_cache s') (sn_session n) p) p"
  using assms
proof (cases rule: scan_edit_cases)
  case skipped
  then show ?thesis by (auto simp: settled_def)
next
  case suppressed
  from count_edit_entries [OF this, of p] show ?thesis by (auto simp: settled_def)
next
  case (scanned s1 page)
  show ?thesis
    using scan_text_entries(1) [of n tiered quiet p page s1 p] scanned(2,3)
    by (auto simp: settled_def first_once_def split: option.splits)
qed

lemma scan_edit_others:
  assumes "scan_edit n tiered quiet primary p s = Some s'" "q \<noteq> p"
  shows "fe_findings (entry_of (ss_cache s') (sn_session n) q) = fe_findings (entry_of (ss_cache s) (sn_session n) q) \<and>
    fe_edits (entry_of (ss_cache s') (sn_session n) q) = fe_edits (entry_of (ss_cache s) (sn_session n) q)"
  using assms(1)
proof (cases rule: scan_edit_cases)
  case skipped
  then show ?thesis by simp
next
  case suppressed
  from count_edit_entries [OF this, of q] assms(2) show ?thesis by simp
next
  case (scanned s1 page)
  have "fe_findings (entry_of (ss_cache s') (sn_session n) q) = fe_findings (entry_of (ss_cache s1) (sn_session n) q)"
    unfolding scanned(3) scan_text_entries(1) using assms(2) by (simp split: option.splits)
  with count_edit_entries [OF scanned(1), of q] scanned(3) scan_text_entries(2) [of n tiered quiet p page s1 q] assms(2)
  show ?thesis by simp
qed

lemma settled_cong:
  "fe_findings e = fe_findings e' \<Longrightarrow> fe_edits e = fe_edits e' \<Longrightarrow> settled n tiered primary e p = settled n tiered primary e' p"
  by (auto simp: settled_def split: option.splits)

lemma scan_edit_keeps_settled:
  "scan_edit n tiered quiet primary p s = Some s' \<Longrightarrow> settled n tiered primary (entry_of (ss_cache s) (sn_session n) q) q \<Longrightarrow>
   settled n tiered primary (entry_of (ss_cache s') (sn_session n) q) q"
  using scan_edit_settles scan_edit_others settled_cong by (cases "q = p") metis+

lemma scan_edit_reports_nothing:
  assumes "scan_edit n tiered quiet primary p s = Some s'" "settled n tiered primary (entry_of (ss_cache s) (sn_session n) p) p"
  shows "ss_fresh s' = ss_fresh s"
  using assms(1)
proof (cases rule: scan_edit_cases)
  case skipped
  then show ?thesis by simp
next
  case suppressed
  then show ?thesis using count_edit_entries by blast
next
  case (scanned s1 page)
  note c = count_edit_entries [OF scanned(1), of p]
  have "ss_fresh (scan_text n tiered quiet p page s1) = ss_fresh s1"
    by (rule scan_text_fresh) (use assms(2) scanned(2,4-6) c in \<open>auto simp: settled_def split: option.splits\<close>)
  with c scanned(3) show ?thesis by simp
qed

lemma scan_edits_settle:
  "scan_edits n tiered quiet primary ps s = Some s' \<Longrightarrow>
   (q \<in> set ps \<or> settled n tiered primary (entry_of (ss_cache s) (sn_session n) q) q) \<Longrightarrow>
   settled n tiered primary (entry_of (ss_cache s') (sn_session n) q) q"
proof (induction ps arbitrary: s)
  case (Cons p ps)
  then obtain s1 where s1: "scan_edit n tiered quiet primary p s = Some s1" "scan_edits n tiered quiet primary ps s1 = Some s'"
    by (auto simp: bind_eq_Some_conv)
  with Cons show ?case using scan_edit_settles scan_edit_keeps_settled by (metis set_ConsD)
qed simp

lemma scan_edits_report_nothing:
  "scan_edits n tiered quiet primary ps s = Some s' \<Longrightarrow>
   (\<forall>q \<in> set ps. settled n tiered primary (entry_of (ss_cache s) (sn_session n) q) q) \<Longrightarrow> ss_fresh s' = ss_fresh s"
proof (induction ps arbitrary: s)
  case (Cons p ps)
  then obtain s1 where s1: "scan_edit n tiered quiet primary p s = Some s1" "scan_edits n tiered quiet primary ps s1 = Some s'"
    by (auto simp: bind_eq_Some_conv)
  have "\<forall>q \<in> set ps. settled n tiered primary (entry_of (ss_cache s1) (sn_session n) q) q"
    using Cons.prems(2) scan_edit_keeps_settled [OF s1(1)] by simp
  with Cons.IH [OF s1(2)] scan_edit_reports_nothing [OF s1(1)] Cons.prems(2) show ?case by simp
qed simp

lemma settled_at: "settled (n\<lparr>sn_now := t\<rparr>) tiered primary e p = settled n tiered primary e p"
proof -
  have "sn_config (n\<lparr>sn_now := t\<rparr>) = sn_config n" "sn_detector (n\<lparr>sn_now := t\<rparr>) = sn_detector n"
    "sn_disk (n\<lparr>sn_now := t\<rparr>) = sn_disk n" "sn_cwd (n\<lparr>sn_now := t\<rparr>) = sn_cwd n" by simp_all
  note n = this
  have "detected (n\<lparr>sn_now := t\<rparr>) = detected n" by (intro ext) (simp only: detected_def n)
  moreover have "immediate_of (n\<lparr>sn_now := t\<rparr>) = immediate_of n" by (intro ext) (simp only: immediate_of_def n)
  moreover have "too_large (n\<lparr>sn_now := t\<rparr>) = too_large n" by (intro ext) (simp only: too_large_def n)
  ultimately show ?thesis by (simp only: settled_def n)
qed

text \<open>
  A finding is reported once: a second scan of the same files, whenever it comes, reports
  nothing as fresh while neither the files nor what the detector finds in them has changed.
\<close>

theorem second_scan_reports_nothing:
  assumes "scan_edits n tiered quiet primary ps (scan_begin cache) = Some s"
    and "scan_edits (n\<lparr>sn_now := t\<rparr>) tiered quiet' primary ps (scan_begin (ss_cache s)) = Some s'"
  shows "ss_fresh s' = []"
proof -
  have "settled n tiered primary (entry_of (ss_cache s) (sn_session n) q) q" if "q \<in> set ps" for q
    using scan_edits_settle [OF assms(1)] that by blast
  then show ?thesis
    using scan_edits_report_nothing [OF assms(2)] by (simp add: settled_at) (simp add: scan_begin_def)
qed

section \<open>A sample\<close>

definition sample_finding :: "string \<Rightarrow> jsval" where
  "sample_finding rule = JObj [(''antipattern'', JStr rule), (''line'', JNum 3)]"

definition sample_detector :: "string \<Rightarrow> detector" where
  "sample_detector rule = \<lparr>dt_text = (\<lambda>_ _ _. Some (JArr [sample_finding rule])), dt_html = None, dt_note = False\<rparr>"

definition sample_hook_disk :: hook_disk where
  "sample_hook_disk = \<lparr>hk_exists = (\<lambda>p. p \<in> {''/w/a.css'', ''/w/package.json''}), hk_text = (\<lambda>p. if p = ''/w/a.css'' then Some ''a'' else None),
     hk_size = (\<lambda>_. 1)\<rparr>"

definition sample_hook_scan :: "string \<Rightarrow> hook_scan" where
  "sample_hook_scan rule = \<lparr>sn_config = default_config, sn_cwd = ''/w'', sn_session = ''s'', sn_now = 5, sn_detector = sample_detector rule,
     sn_disk = sample_hook_disk\<rparr>"

lemma default_fields: "hc_quiet default_config = False" "hc_max_bytes default_config = 131072"
  by (simp_all add: default_config_def)

lemma sample_skip: "skip_reason default_config ''/w'' ''/w/a.css'' = None" "skip_reason default_config ''/w'' ''/w/.env'' = Some ''sensitive''"
  by code_simp+

lemma hook_sample_fields:
  "sn_config (sample_hook_scan rule) = default_config" "sn_cwd (sample_hook_scan rule) = ''/w''" "sn_session (sample_hook_scan rule) = ''s''"
  "sn_now (sample_hook_scan rule) = 5" "sn_disk (sample_hook_scan rule) = sample_hook_disk"
  by (simp_all add: sample_hook_scan_def)

lemma hook_sample_file: "hk_exists sample_hook_disk ''/w/a.css''" "hk_text sample_hook_disk ''/w/a.css'' = Some ''a''"
  "\<not> too_large (sample_hook_scan rule) ''/w/a.css''"
  by (simp_all add: sample_hook_disk_def too_large_def default_fields hook_sample_fields)

lemma sample_detected: "detected (sample_hook_scan rule) page ''/w/a.css'' = Some (JArr [sample_finding rule])"
proof -
  have "\<not> uses_html_engine default_config ''/w/a.css''" by code_simp
  then show ?thesis by (simp add: detected_def hook_sample_fields) (simp add: sample_hook_scan_def sample_detector_def)
qed

lemma sample_tiers:
  "immediate_of (sample_hook_scan ''low-contrast'') True (JArr [sample_finding ''low-contrast'']) = ([sample_finding ''low-contrast''], [])"
  "immediate_of (sample_hook_scan ''side-tab'') True (JArr [sample_finding ''side-tab'']) = ([], [sample_finding ''side-tab''])"
proof -
  have "filter_findings default_config (JArr [sample_finding ''low-contrast'']) = [sample_finding ''low-contrast'']"
    "filter_findings default_config (JArr [sample_finding ''side-tab'']) = [sample_finding ''side-tab'']" by code_simp+
  moreover have "split_findings_by_tier [sample_finding ''low-contrast''] = ([sample_finding ''low-contrast''], [])"
    "split_findings_by_tier [sample_finding ''side-tab''] = ([], [sample_finding ''side-tab''])" by code_simp+
  ultimately show
    "immediate_of (sample_hook_scan ''low-contrast'') True (JArr [sample_finding ''low-contrast'']) = ([sample_finding ''low-contrast''], [])"
    "immediate_of (sample_hook_scan ''side-tab'') True (JArr [sample_finding ''side-tab'']) = ([], [sample_finding ''side-tab''])"
    by (simp_all add: immediate_of_def hook_sample_fields)
qed

lemma hook_sample_count:
  "count_edit (sample_hook_scan rule) True ''/w/a.css'' (scan_begin []) =
   (False, (scan_begin [])\<lparr>ss_cache := set_entry_of 5 [] ''s'' ''/w/a.css'' (new_entry\<lparr>fe_edits := 1\<rparr>), ss_dirty := True\<rparr>)"
  by (simp add: count_edit_def bump_edit_count_def hook_sample_fields scan_begin_def edit_count_threshold_def entry_of_def session_of_def new_entry_def)

lemma scan_begin_fields: "ss_cache (scan_begin cache) = cache" "ss_fresh (scan_begin cache) = []" "ss_pending (scan_begin cache) = None"
  "ss_clean (scan_begin cache) = None"
  by (simp_all add: scan_begin_def)

lemma sample_scan_reports:
  "\<exists>s. scan_edits (sample_hook_scan ''low-contrast'') True False {''/w/a.css''} [''/w/a.css''] (scan_begin []) = Some s \<and>
     ss_fresh s = [(''/w/a.css'', [sample_finding ''low-contrast''])]"
  by (simp add: scan_edit_def hook_sample_fields sample_skip hook_sample_file hook_sample_count scan_text_def sample_detected sample_tiers report_edit_def
      Let_def new_entry_def scan_begin_fields)

section \<open>What is left for the end of the turn\<close>

lemma alset_keys: "set (map fst (alset k v kvs)) = insert k (set (map fst kvs))"
  by (induction kvs) auto

lemma touched_set_entry [simp]:
  "set (touched_files (set_entry_of now cache i p e) i) = insert p (set (touched_files cache i))"
  by (simp add: touched_files_def alset_keys)

lemma touched_acknowledge: "set (touched_files (ss_cache s) (sn_session n)) \<subseteq> set (touched_files (ss_cache (acknowledge n quiet p s)) (sn_session n))"
  by (auto simp: acknowledge_def Let_def touched_files_def session_of_def alset_keys)

lemma touched_report:
  "insert p (set (touched_files (ss_cache s) (sn_session n))) \<subseteq>
   set (touched_files (ss_cache (report_edit n quiet p immediate fresh s)) (sn_session n))"
proof -
  let ?s = "s\<lparr>ss_cache := remember_findings (sn_now n) (sn_session n) p immediate (ss_cache s), ss_dirty := True\<rparr>"
  have "insert p (set (touched_files (ss_cache s) (sn_session n))) = set (touched_files (ss_cache ?s) (sn_session n))"
    by (simp add: remember_findings_def)
  then show ?thesis using touched_acknowledge [of ?s n quiet p] by (auto simp: report_edit_def Let_def)
qed

lemma touched_scan_text:
  "set (touched_files (ss_cache s) (sn_session n)) \<union> (if detected n page p = None then {} else {p}) \<subseteq>
   set (touched_files (ss_cache (scan_text n tiered quiet p page s)) (sn_session n))"
proof (cases "detected n page p")
  case None
  then show ?thesis by (simp add: scan_text_def)
next
  case (Some found)
  obtain immediate deferred where f: "immediate_of n tiered found = (immediate, deferred)" by fastforce
  let ?s = "if deferred = [] then s else s\<lparr>ss_cache := touch_file (sn_now n) (sn_session n) p (ss_cache s), ss_dirty := True,
    ss_deferred := ss_deferred s + length deferred\<rparr>"
  have "set (touched_files (ss_cache s) (sn_session n)) \<subseteq> set (touched_files (ss_cache ?s) (sn_session n))"
    by (auto simp: touch_file_def)
  with touched_report show ?thesis unfolding scan_text_def Some option.case f Let_def prod.case by fastforce
qed

lemma touched_count: "count_edit n primary p s = (b, s') \<Longrightarrow>
    set (touched_files (ss_cache s) (sn_session n)) \<subseteq> set (touched_files (ss_cache s') (sn_session n))"
  by (auto simp: count_edit_def bump_edit_count_def Let_def split: if_splits)

lemma touched_scan_edit:
  assumes "scan_edit n tiered quiet primary p s = Some s'"
  shows "set (touched_files (ss_cache s) (sn_session n)) \<subseteq> set (touched_files (ss_cache s') (sn_session n))"
  using assms
proof (cases rule: scan_edit_cases)
  case (scanned s1 page)
  from touched_count [OF scanned(1)] touched_scan_text [of s1 n page p tiered quiet] scanned(3) show ?thesis by auto
qed (auto dest: touched_count)

definition looked_at :: "hook_scan \<Rightarrow> string \<Rightarrow> jsval \<Rightarrow> bool" where
  \<comment> \<open>the file is scanned, with these findings\<close>
  "looked_at n p found =
    (skip_reason (sn_config n) (sn_cwd n) p = None \<and> hk_exists (sn_disk n) p \<and> \<not> too_large n p \<and>
     Option.bind (hk_text (sn_disk n) p) (\<lambda>page. detected n page p) = Some found)"

definition knows_immediate :: "hook_scan \<Rightarrow> bool \<Rightarrow> string \<Rightarrow> jsval \<Rightarrow> hook_cache \<Rightarrow> bool" where
  "knows_immediate n tiered p found cache =
    (fe_findings (entry_of cache (sn_session n) p) = first_once (map finding_cache_key (fst (immediate_of n tiered found))) \<and>
     p \<in> set (touched_files cache (sn_session n)))"

lemma scan_edit_looked_at:
  assumes "scan_edit n tiered quiet primary p s = Some s'" "looked_at n p found"
    and "p \<in> primary \<longrightarrow> fe_edits (entry_of (ss_cache s) (sn_session n) p) < edit_count_threshold"
  shows "knows_immediate n tiered p found (ss_cache s')"
  using assms(1)
proof (cases rule: scan_edit_cases)
  case skipped
  with assms(2) show ?thesis by (auto simp: looked_at_def)
next
  case suppressed
  from count_edit_entries [OF this, of p] assms(3) show ?thesis by simp
next
  case (scanned s1 page)
  with assms(2) have "detected n page p = Some found" by (simp add: looked_at_def)
  with scan_text_entries(1) [of n tiered quiet p page s1 p] touched_scan_text [of s1 n page p tiered quiet] scanned(3)
  show ?thesis by (auto simp: knows_immediate_def)
qed

lemma scan_edit_keeps_knowledge:
  assumes "scan_edit n tiered quiet primary q s = Some s'" "q \<noteq> p" "knows_immediate n tiered p found (ss_cache s)"
  shows "knows_immediate n tiered p found (ss_cache s')"
  using scan_edit_others [OF assms(1)] assms(2,3) touched_scan_edit [OF assms(1)] by (auto simp: knows_immediate_def)

lemma scan_edits_keep_knowledge:
  "scan_edits n tiered quiet primary ps s = Some s' \<Longrightarrow> p \<notin> set ps \<Longrightarrow> knows_immediate n tiered p found (ss_cache s) \<Longrightarrow>
   knows_immediate n tiered p found (ss_cache s')"
proof (induction ps arbitrary: s)
  case (Cons q ps)
  then obtain s1 where s1: "scan_edit n tiered quiet primary q s = Some s1" "scan_edits n tiered quiet primary ps s1 = Some s'"
    by (auto simp: bind_eq_Some_conv)
  with Cons scan_edit_keeps_knowledge [OF s1(1), of p found] show ?case by auto
qed simp

lemma scan_edits_know:
  "scan_edits n tiered quiet primary ps s = Some s' \<Longrightarrow> distinct ps \<Longrightarrow> p \<in> set ps \<Longrightarrow> looked_at n p found \<Longrightarrow>
   (p \<in> primary \<longrightarrow> fe_edits (entry_of (ss_cache s) (sn_session n) p) < edit_count_threshold) \<Longrightarrow>
   knows_immediate n tiered p found (ss_cache s')"
proof (induction ps arbitrary: s)
  case (Cons q ps)
  then obtain s1 where s1: "scan_edit n tiered quiet primary q s = Some s1" "scan_edits n tiered quiet primary ps s1 = Some s'"
    by (auto simp: bind_eq_Some_conv)
  show ?case
  proof (cases "q = p")
    case True
    with Cons.prems scan_edit_looked_at [OF s1(1)] scan_edits_keep_knowledge [OF s1(2)] show ?thesis by simp
  next
    case False
    with Cons.IH [OF s1(2)] Cons.prems scan_edit_others [OF s1(1), of p] show ?thesis by auto
  qed
qed simp

lemma scan_stop_others:
  "q \<noteq> p \<Longrightarrow> fe_findings (entry_of (st_cache (scan_stop n q s)) (sn_session n) p) = fe_findings (entry_of (st_cache s) (sn_session n) p)"
  by (simp add: scan_stop_def Let_def remember_findings_def split: option.split)

lemma scan_stop_counts: "st_scanned (scan_stop n q s) \<le> Suc (st_scanned s)"
  by (simp add: scan_stop_def Let_def split: option.split)

lemma scan_stop_adds: "set (st_fresh s) \<subseteq> set (st_fresh (scan_stop n q s))"
  by (auto simp: scan_stop_def Let_def split: option.split)

lemma fold_scan_stop:
  "set (st_fresh s) \<subseteq> set (st_fresh (fold (scan_stop n) qs s))"
  "p \<notin> set qs \<Longrightarrow> fe_findings (entry_of (st_cache (fold (scan_stop n) qs s)) (sn_session n) p) = fe_findings (entry_of (st_cache s) (sn_session n) p)"
  "st_scanned (fold (scan_stop n) qs s) \<le> length qs + st_scanned s"
proof (induction qs arbitrary: s)
  case (Cons q qs)
  { case 1 show ?case using Cons(1) [of "scan_stop n q s"] scan_stop_adds [of s n q] by (simp add: subset_trans) }
  { case 2 then show ?case using Cons(2) [of "scan_stop n q s"] scan_stop_others [of q p] by auto }
  { case 3 show ?case using Cons(3) [of "scan_stop n q s"] scan_stop_counts [of n q s] by auto }
qed simp_all


lemma sample_scan_defers:
  "\<exists>s. scan_edits (sample_hook_scan ''side-tab'') True False {''/w/a.css''} [''/w/a.css''] (scan_begin []) = Some s \<and>
     touched_files (ss_cache s) ''s'' = [''/w/a.css'']"
  by (simp add: scan_edit_def hook_sample_fields sample_skip hook_sample_file hook_sample_count scan_text_def sample_detected sample_tiers report_edit_def
      Let_def new_entry_def scan_begin_fields acknowledge_def touched_files_def remember_findings_def touch_file_def session_of_def set_entry_of_def)


section \<open>What is never looked at\<close>

definition same_where_scanned :: "hook_scan \<Rightarrow> hook_scan \<Rightarrow> bool" where
  \<comment> \<open>the two differ in what is on the disk and detected at paths that are skipped\<close>
  "same_where_scanned n n' =
    (sn_config n' = sn_config n \<and> sn_cwd n' = sn_cwd n \<and> sn_session n' = sn_session n \<and> sn_now n' = sn_now n \<and>
     (\<forall>p. skip_reason (sn_config n) (sn_cwd n) p = None \<longrightarrow>
        hk_exists (sn_disk n') p = hk_exists (sn_disk n) p \<and> hk_text (sn_disk n') p = hk_text (sn_disk n) p \<and>
        hk_size (sn_disk n') p = hk_size (sn_disk n) p \<and> (\<forall>page. detected n' page p = detected n page p)))"

lemma scan_text_same:
  assumes "same_where_scanned n n'" "skip_reason (sn_config n) (sn_cwd n) p = None"
  shows "scan_text n' tiered quiet p page s = scan_text n tiered quiet p page s"
proof -
  have n: "sn_config n' = sn_config n" "sn_session n' = sn_session n" "sn_now n' = sn_now n" "detected n' page p = detected n page p"
    using assms by (auto simp: same_where_scanned_def)
  have a: "acknowledge n' = acknowledge n" by (intro ext) (simp only: acknowledge_def n)
  have "report_edit n' = report_edit n" by (intro ext) (simp only: report_edit_def n a)
  moreover have "immediate_of n' = immediate_of n" by (intro ext) (simp only: immediate_of_def n)
  ultimately show ?thesis by (simp only: scan_text_def n)
qed

lemma scan_edit_same:
  assumes "same_where_scanned n n'"
  shows "scan_edit n' tiered quiet primary p s = scan_edit n tiered quiet primary p s"
proof (cases "skip_reason (sn_config n) (sn_cwd n) p")
  case None
  have n: "sn_config n' = sn_config n" "sn_cwd n' = sn_cwd n" "sn_session n' = sn_session n" "sn_now n' = sn_now n"
    "hk_exists (sn_disk n') p = hk_exists (sn_disk n) p" "hk_text (sn_disk n') p = hk_text (sn_disk n) p"
    "hk_size (sn_disk n') p = hk_size (sn_disk n) p"
    using assms None by (auto simp: same_where_scanned_def)
  have "count_edit n' = count_edit n" by (intro ext) (simp only: count_edit_def n)
  moreover have "too_large n' p = too_large n p" by (simp only: too_large_def n)
  ultimately show ?thesis by (simp only: scan_edit_def n scan_text_same [OF assms None])
qed (use assms in \<open>simp add: scan_edit_def same_where_scanned_def\<close>)

lemma scan_stop_same:
  assumes "same_where_scanned n n'"
  shows "scan_stop n' p s = scan_stop n p s"
proof (cases "skip_reason (sn_config n) (sn_cwd n) p")
  case None
  have n: "sn_config n' = sn_config n" "sn_cwd n' = sn_cwd n" "sn_session n' = sn_session n" "sn_now n' = sn_now n"
    "hk_exists (sn_disk n') p = hk_exists (sn_disk n) p" "hk_text (sn_disk n') p = hk_text (sn_disk n) p"
    "detected n' page p = detected n page p" for page
    using assms None by (auto simp: same_where_scanned_def)
  show ?thesis by (simp only: scan_stop_def n)
qed (use assms in \<open>simp add: scan_stop_def same_where_scanned_def\<close>)

text \<open>
  Neither scan looks at a sensitive, generated or ignored file: what such files hold, and what the
  detector would say of them, has no influence on what is reported or remembered.
\<close>

theorem skipped_files_have_no_influence:
  assumes "same_where_scanned n n'"
  shows "scan_edits n' tiered quiet primary ps s = scan_edits n tiered quiet primary ps s \<and>
    scan_stops n' touched cache = scan_stops n touched cache"
proof
  have "scan_edits n' tiered quiet primary ps = scan_edits n tiered quiet primary ps" for ps
  proof (induction ps)
    case (Cons p ps)
    then show ?case by (intro ext) (simp add: scan_edit_same [OF assms])
  qed (intro ext, simp)
  then show "scan_edits n' tiered quiet primary ps s = scan_edits n tiered quiet primary ps s" by simp
  have "scan_stop n' = scan_stop n" using scan_stop_same [OF assms] by (intro ext)
  then show "scan_stops n' touched cache = scan_stops n touched cache" by (simp add: scan_stops_def)
qed

definition sample_secret_disk :: hook_disk where
  \<comment> \<open>with another file, a sensitive one\<close>
  "sample_secret_disk = sample_hook_disk\<lparr>hk_exists := (\<lambda>p. p = ''/w/.env'' \<or> hk_exists sample_hook_disk p),
     hk_text := (hk_text sample_hook_disk)(''/w/.env'' := Some ''KEY'')\<rparr>"

lemma skipped_files_have_no_influence_witness:
  "scan_edits ((sample_hook_scan ''side-tab'')\<lparr>sn_disk := sample_secret_disk\<rparr>) True False {} [''/w/.env'', ''/w/a.css''] (scan_begin []) =
   scan_edits (sample_hook_scan ''side-tab'') True False {} [''/w/.env'', ''/w/a.css''] (scan_begin [])"
proof -
  have "same_where_scanned (sample_hook_scan ''side-tab'') ((sample_hook_scan ''side-tab'')\<lparr>sn_disk := sample_secret_disk\<rparr>)"
    using sample_skip(2) by (auto simp: same_where_scanned_def sample_secret_disk_def sample_hook_scan_def detected_def cong: option.case_cong)
  from skipped_files_have_no_influence [OF this] show ?thesis by blast
qed

section \<open>The end of a turn\<close>

text \<open>
  The scan at the end of a turn remembers only what it has just reported and forgets what it
  knew: with two findings in a file, one of them known, it reports the other, and on the
  unchanged file the next scan reports the first one again.
\<close>

theorem stop_scans_alternate:
  assumes "skip_reason (sn_config n) (sn_cwd n) p = None" "hk_exists (sn_disk n) p" "hk_text (sn_disk n) p = Some page"
    and "detected n page p = Some found" "filter_findings (sn_config n) found = [a, b]" "finding_cache_key a \<noteq> finding_cache_key b"
    and "fe_findings (entry_of cache (sn_session n) p) = [finding_cache_key a]"
  shows "st_fresh (scan_stops n [p] cache) = [(p, [b])] \<and>
    st_fresh (scan_stops n [p] (st_cache (scan_stops n [p] cache))) = [(p, [a])]"
proof -
  have s: "scan_stop n p \<lparr>st_cache = c, st_fresh = [], st_scanned = 0\<rparr> =
      \<lparr>st_cache = remember_findings (sn_now n) (sn_session n) p fs c, st_fresh = [(p, fs)], st_scanned = 1\<rparr>"
    if "dedupe_against (fe_findings (entry_of c (sn_session n) p)) [a, b] = fs" "fs \<noteq> []" for c fs
    using that(2) by (simp add: scan_stop_def stop_max_files_def Let_def assms(1-5) that(1) del: dedupe_against.simps)
  have 1: "scan_stops n [p] cache =
      \<lparr>st_cache = remember_findings (sn_now n) (sn_session n) p [b] cache, st_fresh = [(p, [b])], st_scanned = 1\<rparr>"
    using s [of cache "[b]"] assms(6,7) by (simp add: scan_stops_def)
  have "dedupe_against (fe_findings (entry_of (remember_findings (sn_now n) (sn_session n) p [b] cache) (sn_session n) p)) [a, b] = [a]"
    using assms(6) by (simp add: remember_findings_def first_once_def)
  from s [OF this] have "st_fresh (scan_stops n [p] (remember_findings (sn_now n) (sn_session n) p [b] cache)) = [(p, [a])]"
    by (simp add: scan_stops_def)
  with 1 show ?thesis by simp
qed

section \<open>Old sessions\<close>

text \<open>
  The file of the cache holds at most eight sessions, and none that was dropped is more recent
  than one that was kept.
\<close>

theorem persisted_sessions_are_the_latest:
  "length (persisted_cache cache) \<le> cache_max_sessions \<and> set (persisted_cache cache) \<subseteq> set cache \<and>
   (\<forall>x \<in> set cache. x \<notin> set (persisted_cache cache) \<longrightarrow> (\<forall>y \<in> set (persisted_cache cache). hs_updated (snd x) \<le> hs_updated (snd y)))"
proof (cases "length cache > cache_max_sessions")
  case True
  let ?k = "\<lambda>(i :: string, s). - hs_updated s" and ?c = "sort_key (\<lambda>(i, s). - hs_updated s) cache"
  have p: "persisted_cache cache = take cache_max_sessions ?c" using True by (simp add: persisted_cache_def)
  have "hs_updated (snd x) \<le> hs_updated (snd y)"
    if "x \<in> set cache" "x \<notin> set (take cache_max_sessions ?c)" "y \<in> set (take cache_max_sessions ?c)" for x y
  proof -
    have "x \<in> set (drop cache_max_sessions ?c)" using that(1,2) set_take_disj_set_drop_if_distinct
      by (metis Un_iff append_take_drop_id set_append set_sort)
    moreover have "sorted_wrt (\<lambda>x y. ?k x \<le> ?k y) (take cache_max_sessions ?c @ drop cache_max_sessions ?c)"
      using sorted_sort_key [of ?k cache] by (simp add: sorted_wrt_map)
    ultimately have "?k y \<le> ?k x" using that(3) unfolding sorted_wrt_append by blast
    then show ?thesis by (simp add: case_prod_beta)
  qed
  then show ?thesis unfolding p by (auto dest: in_set_takeD)
qed (simp add: persisted_cache_def)

end
