(* ===== verification/Web_Sort.thy ===== *)
theory Web_Sort
  imports Prelude "HOL-Library.Multiset" "HOL-Library.List_Lexorder"
begin

text \<open>
  \<open>Array.prototype.sort\<close> with a comparison function, as the web client uses it:
  a stable sort. The interface \<open>comparator\<close> is what a comparison function owes
  to \<open>sort\<close>; every comparison of the client interprets it. Names and keys are
  compared by their UTF-16 code units, so a text is a list of numbers.
\<close>

type_synonym ustring = "nat list"

definition ascii :: "string \<Rightarrow> ustring" where
  "ascii s = map of_char s"

section \<open>Sorting\<close>

fun js_insert :: "('a \<Rightarrow> 'a \<Rightarrow> rat) \<Rightarrow> 'a \<Rightarrow> 'a list \<Rightarrow> 'a list" where
  "js_insert cmp x [] = [x]"
| "js_insert cmp x (y # ys) = (if cmp x y \<le> 0 then x # y # ys else y # js_insert cmp x ys)"

definition js_sort :: "('a \<Rightarrow> 'a \<Rightarrow> rat) \<Rightarrow> 'a list \<Rightarrow> 'a list" where
  \<comment> \<open>\<open>[...xs].sort(cmp)\<close>\<close>
  "js_sort cmp xs = foldr (js_insert cmp) xs []"

lemma mset_js_insert [simp]: "mset (js_insert cmp x ys) = add_mset x (mset ys)"
  by (induction ys) auto

lemma mset_js_sort [simp]: "mset (js_sort cmp xs) = mset xs"
  by (induction xs) (simp_all add: js_sort_def)

lemma set_js_sort [simp]: "set (js_sort cmp xs) = set xs"
  using mset_eq_setD [OF mset_js_sort] .

lemma length_js_sort [simp]: "length (js_sort cmp xs) = length xs"
  using mset_eq_length [OF mset_js_sort] .

lemma js_sort_Nil [simp]: "js_sort cmp [] = []"
  by (simp add: js_sort_def)

lemma sorted_wrt_same_elements:
  assumes "sorted_wrt R xs" "sorted_wrt R ys" "mset xs = mset ys"
    and "\<And>a b. a \<in> set xs \<Longrightarrow> b \<in> set xs \<Longrightarrow> R a b \<Longrightarrow> R b a \<Longrightarrow> a = b"
  shows "xs = ys"
  using assms
proof (induction xs arbitrary: ys)
  case (Cons x xs)
  obtain y ys' where ys: "ys = y # ys'" using Cons.prems(3) by (cases ys) auto
  have sets: "set (x # xs) = set ys" using mset_eq_setD [OF Cons.prems(3)] .
  have "x = y"
  proof (rule ccontr)
    assume "x \<noteq> y"
    with sets ys have "y \<in> set xs" "x \<in> set ys'" by auto
    then have "R x y" "R y x" using Cons.prems(1,2) ys by auto
    with Cons.prems(4) [of x y] \<open>y \<in> set xs\<close> \<open>x \<noteq> y\<close> show False by simp
  qed
  moreover have "xs = ys'"
    using Cons.prems ys \<open>x = y\<close> by (intro Cons.IH) auto
  ultimately show ?case using ys by simp
qed simp

section \<open>What a comparison function owes\<close>

locale comparator =
  fixes ok :: "'a \<Rightarrow> bool" and cmp :: "'a \<Rightarrow> 'a \<Rightarrow> rat"
  assumes sign: "ok a \<Longrightarrow> ok b \<Longrightarrow> sgn (cmp b a) = - sgn (cmp a b)"
    and trans: "ok a \<Longrightarrow> ok b \<Longrightarrow> ok c \<Longrightarrow> cmp a b \<le> 0 \<Longrightarrow> cmp b c \<le> 0 \<Longrightarrow> cmp a c \<le> 0"
begin

lemma refl: "ok a \<Longrightarrow> cmp a a = 0"
  using sign [of a a] by (simp add: sgn_if split: if_splits)

lemma flip: "ok a \<Longrightarrow> ok b \<Longrightarrow> \<not> cmp a b \<le> 0 \<Longrightarrow> cmp b a \<le> 0"
  using sign [of a b] by (simp add: sgn_if split: if_splits)

lemma zero_flip: "ok a \<Longrightarrow> ok b \<Longrightarrow> cmp a b = 0 \<Longrightarrow> cmp b a = 0"
  using sign [of a b] by (simp add: sgn_if split: if_splits)

lemma sorted_insert:
  "ok x \<Longrightarrow> list_all ok ys \<Longrightarrow> sorted_wrt (\<lambda>a b. cmp a b \<le> 0) ys \<Longrightarrow>
   sorted_wrt (\<lambda>a b. cmp a b \<le> 0) (js_insert cmp x ys)"
proof (induction ys)
  case (Cons y ys)
  show ?case
  proof (cases "cmp x y \<le> 0")
    case True
    have "cmp x z \<le> 0" if "z \<in> set ys" for z
      using Cons.prems that by (intro trans [OF _ _ _ True]) (auto simp: list_all_iff)
    with True Cons.prems show ?thesis by simp
  next
    case False
    then have "cmp y x \<le> 0" using Cons.prems flip by simp
    moreover have "set (js_insert cmp x ys) = insert x (set ys)"
      using mset_eq_setD [of "js_insert cmp x ys" "x # ys"] by simp
    ultimately show ?thesis using False Cons by simp
  qed
qed simp

lemma sorted: "list_all ok xs \<Longrightarrow> sorted_wrt (\<lambda>a b. cmp a b \<le> 0) (js_sort cmp xs)"
proof (induction xs)
  case (Cons x xs)
  have "list_all ok (js_sort cmp xs)" using Cons.prems by (simp add: list_all_iff)
  with Cons show ?case using sorted_insert [of x "js_sort cmp xs"] by (simp add: js_sort_def)
qed simp

text \<open>Stability: among elements that compare equal to one another, the order stays.\<close>

lemma filter_insert:
  assumes "ok a" "ok x" "list_all ok ys" "sorted_wrt (\<lambda>a b. cmp a b \<le> 0) ys"
  shows "filter (\<lambda>z. cmp a z = 0) (js_insert cmp x ys) =
    (if cmp a x = 0 then x # filter (\<lambda>z. cmp a z = 0) ys else filter (\<lambda>z. cmp a z = 0) ys)"
  using assms(3,4)
proof (induction ys)
  case (Cons y ys)
  show ?case
  proof (cases "cmp x y \<le> 0")
    case False
    have "\<not> (cmp a x = 0 \<and> cmp a y = 0)"
    proof
      assume "cmp a x = 0 \<and> cmp a y = 0"
      moreover from this have "cmp x a = 0" using assms zero_flip by blast
      ultimately have "cmp x y \<le> 0" using trans [of x a y] assms Cons.prems by simp
      with False show False ..
    qed
    with False Cons show ?thesis by auto
  qed simp
qed simp

lemma stable:
  "ok a \<Longrightarrow> list_all ok xs \<Longrightarrow> filter (\<lambda>z. cmp a z = 0) (js_sort cmp xs) = filter (\<lambda>z. cmp a z = 0) xs"
proof (induction xs)
  case (Cons x xs)
  have "list_all ok (js_sort cmp xs)" using Cons.prems by (simp add: list_all_iff)
  with Cons show ?case
    using filter_insert [of a x "js_sort cmp xs"] sorted [of xs] by (simp add: js_sort_def)
qed simp

text \<open>A sort that tells all its elements apart depends on the elements only, not on their order.\<close>

lemma order_free:
  assumes "list_all ok xs" "mset xs = mset ys"
    and strict: "\<And>a b. a \<in> set xs \<Longrightarrow> b \<in> set xs \<Longrightarrow> cmp a b = 0 \<Longrightarrow> a = b"
  shows "js_sort cmp xs = js_sort cmp ys"
proof (rule sorted_wrt_same_elements)
  have "set ys = set xs" using mset_eq_setD [OF assms(2)] by simp
  then have "list_all ok ys" using assms(1) by (simp add: list_all_iff)
  then show "sorted_wrt (\<lambda>a b. cmp a b \<le> 0) (js_sort cmp ys)" by (rule sorted)
  show "sorted_wrt (\<lambda>a b. cmp a b \<le> 0) (js_sort cmp xs)" using assms(1) by (rule sorted)
  show "mset (js_sort cmp xs) = mset (js_sort cmp ys)" using assms(2) by simp
  fix a b
  assume e: "a \<in> set (js_sort cmp xs)" "b \<in> set (js_sort cmp xs)" "cmp a b \<le> 0" "cmp b a \<le> 0"
  then have "ok a" "ok b" using assms(1) by (auto simp: list_all_iff)
  then have "cmp a b = 0" using sign [of a b] e(3,4) by (simp add: sgn_if split: if_splits)
  with strict e(1,2) show "a = b" by simp
qed

end

section \<open>Building comparison functions\<close>

definition by_num :: "('a \<Rightarrow> rat) \<Rightarrow> 'a \<Rightarrow> 'a \<Rightarrow> rat" where
  "by_num f a b = f a - f b"

definition lex :: "ustring \<Rightarrow> ustring \<Rightarrow> rat" where
  "lex a b = (if a < b then -1 else if a > b then 1 else 0)"

definition by_text :: "('a \<Rightarrow> ustring) \<Rightarrow> 'a \<Rightarrow> 'a \<Rightarrow> rat" where
  "by_text f a b = lex (f a) (f b)"

definition then_by :: "('a \<Rightarrow> 'a \<Rightarrow> rat) \<Rightarrow> ('a \<Rightarrow> 'a \<Rightarrow> rat) \<Rightarrow> 'a \<Rightarrow> 'a \<Rightarrow> rat" where
  \<comment> \<open>\<open>c(a, b) || d(a, b)\<close>\<close>
  "then_by c d a b = (if c a b \<noteq> 0 then c a b else d a b)"

lemma lex_zero [simp]: "lex a b = 0 \<longleftrightarrow> a = b"
  by (auto simp: lex_def)

lemma by_text_zero [simp]: "by_text f a b = 0 \<longleftrightarrow> f a = f b"
  by (simp add: by_text_def)

lemma by_num_zero [simp]: "by_num f a b = 0 \<longleftrightarrow> f a = f b"
  by (simp add: by_num_def)

lemma comparator_num: "comparator ok (by_num f)"
  by unfold_locales (auto simp: by_num_def sgn_if)

lemma comparator_text: "comparator ok (by_text f)"
  by unfold_locales (auto simp: by_text_def lex_def split: if_splits)

lemma comparator_negate: "comparator ok c \<Longrightarrow> comparator ok (\<lambda>a b. - c a b)"
proof
  assume c: "comparator ok c"
  show "sgn (- c b a) = - sgn (- c a b)" if "ok a" "ok b" for a b
    using comparator.sign [OF c that] by (simp add: sgn_minus)
  show "- c a b \<le> 0 \<Longrightarrow> - c b d \<le> 0 \<Longrightarrow> - c a d \<le> 0" if "ok a" "ok b" "ok d" for a b d
    using comparator.trans [OF c, of d b a] comparator.sign [OF c, of a b] comparator.sign [OF c, of b d]
      comparator.sign [OF c, of a d] that by (auto simp: sgn_if split: if_splits)
qed

lemma comparator_then_by:
  assumes c: "comparator ok c" and d: "comparator ok d"
  shows "comparator ok (then_by c d)"
proof
  show "sgn (then_by c d b a) = - sgn (then_by c d a b)" if "ok a" "ok b" for a b
    using comparator.sign [OF c that] comparator.sign [OF d that] by (auto simp: then_by_def sgn_if split: if_splits)
  show "then_by c d x z \<le> 0" if k: "ok x" "ok y" "ok z" and le: "then_by c d x y \<le> 0" "then_by c d y z \<le> 0" for x y z
  proof -
    have c1: "c x y \<le> 0" "c y z \<le> 0" using le by (auto simp: then_by_def split: if_splits)
    then have c2: "c x z \<le> 0" using comparator.trans [OF c k] by blast
    show ?thesis
    proof (cases "c x z = 0")
      case True
      then have z: "c z x = 0" using comparator.zero_flip [OF c k(1,3)] by simp
      have "c y x \<le> 0" using comparator.trans [OF c k(2,3,1) c1(2)] z by simp
      moreover have "c z y \<le> 0" using comparator.trans [OF c k(3,1,2) _ c1(1)] z by simp
      ultimately have "c x y = 0" "c y z = 0"
        using c1 comparator.sign [OF c k(1,2)] comparator.sign [OF c k(2,3)] by (auto simp: sgn_if split: if_splits)
      with True le comparator.trans [OF d k] show ?thesis by (simp add: then_by_def)
    next
      case False
      with c2 show ?thesis by (simp add: then_by_def)
    qed
  qed
qed

lemma then_by_zero [simp]: "then_by c d a b = 0 \<longleftrightarrow> c a b = 0 \<and> d a b = 0"
  by (simp add: then_by_def)

lemma then_by_le: "then_by c d a b \<le> 0 \<Longrightarrow> c a b \<le> 0"
  by (auto simp: then_by_def split: if_splits)

end
