(* ===== verification/Hook_Report.thy ===== *)
theory Hook_Report
  imports Hook_Targets Hook_Scan Web_Sort
begin

text \<open>
  What the design hook tells the model, \<open>hook-lib.mjs\<close>: the line of a finding, the report
  on one file or several within the budget of characters, and the notes for a file that
  is clean, pending or no longer reported on. A report is a list of UTF-16 code units.
  The texts of a finding are strings where they are present.
\<close>

section \<open>A finding\<close>

definition impeccable_command :: string where "impeccable_command = ''/impeccable''"
definition envelope_prefix :: string where "envelope_prefix = ''[impeccable@1]''"

definition bare_arg_char :: "char \<Rightarrow> bool" where
  "bare_arg_char c = (let n = of_char c :: nat in
     48 \<le> n \<and> n \<le> 57 \<or> 65 \<le> n \<and> n \<le> 90 \<or> 97 \<le> n \<and> n \<le> 122 \<or> c \<in> {CHR ''.'', CHR ''_'', CHR '':'', CHR ''-''})"

definition quoted_char :: "char \<Rightarrow> string" where
  "quoted_char c = (if c = char_of (92 :: nat) \<or> c = quote_mark then [char_of (92 :: nat), c] else [c])"

definition quote_command_arg :: "string \<Rightarrow> string" where
  "quote_command_arg v =
    (let s = js_trim v in
     if s \<noteq> [] \<and> list_all bare_arg_char s then s else [quote_mark] @ concat (map quoted_char s) @ [quote_mark])"

definition format_finding_ignore_command :: "jsval \<Rightarrow> string" where
  "format_finding_ignore_command f =
    (if \<not> truthy f \<or> \<not> is_objty f \<or> finding_rule f = [] \<or> extract_finding_ignore_value f = [] then []
     else
       let v = extract_finding_ignore_value_raw f in
       impeccable_command @ '' hooks ignore-value '' @ finding_rule f @ '' '' @ quote_command_arg v @ '' --shared --reason '' @
       quote_command_arg (''User confirmed '' @ v @ '' is intentional''))"

definition format_finding_line :: "jsval \<Rightarrow> string" where
  "format_finding_line f =
    (let line = get f ''line'';
         mark = (if truthy line \<and> js_gt line (JNum 0) then ''- L'' @ js_string line else ''-'');
         desc = js_trim (str_of (get f ''description''));
         name = js_trim (str_of (get f ''name''));
         shown = (if name \<noteq> [] then rev (dropWhile (\<lambda>c. c = CHR ''.'') (rev name)) @ ''.'' else []);
         command = format_finding_ignore_command f;
         hint = (if command \<noteq> [] then '' If the user explicitly confirms this value is intentional: `'' @ command @ ''`.'' else [])
     in js_trim (squeeze_ws (mark @ '' ['' @ js_string (get f ''antipattern'') @ ''] '' @ shown @ '' '' @ desc @ hint)))"

section \<open>What to do about them\<close>

definition directive_footer :: "string \<Rightarrow> bool \<Rightarrow> string" where
  \<comment> \<open>for the file shown, or for several\<close>
  "directive_footer display grouped =
    (let target = (if grouped then ''<path>'' else quote_command_arg display);
         guidance =
      ''run `'' @
      impeccable_command @
      '' hooks ignore-value <id> \"*\" --file '' @
      target @
      ''` to scope just that rule to the file, or `'' @
      impeccable_command @
      '' hooks ignore-file '' @
      target @
      ''` only when the whole file is out of scope for design review (a fixture, a generated artifact, a deliberate demo)''
     in join [line_feed]
     [''Handle these before finalizing: fix findings that are real design problems, or explicitly classify contextually intentional findings as false positives. Acknowledge what you changed or why you are leaving a finding unchanged.'',
      [],
      ''Use context judgment before editing. A finding is not automatically a defect; literal or domain-appropriate motion, intentional demos or fixtures, documentation of bad design, and user-confirmed choices can be valid as-is.'',
      [],
      ''Do not change intentional design just to satisfy the hook, and do not silence a real finding with an inline ignore comment to skip fixing it. Suppress a finding only after the user explicitly confirms it is intentional. Prefer a config ignore (one reviewable place, the commands below); reach for an inline `impeccable-disable <rule>` comment only when the waiver must travel with a file that leaves the repo, such as an exported or standalone document. Prefer the narrowest persisted exception: run the exact `'' @
      impeccable_command @
      '' hooks ignore-value ... --shared` command shown next to a value-specific finding. For `overused-font`, use `ignore-value` for a specific font and use `'' @
      impeccable_command @
      '' hooks ignore-rule overused-font --all-values` only when the user asks to ignore overused fonts generally. For a finding whose line shows no exact ignore-value command, such as `side-tab`, '' @
      guidance @
      ''; use `'' @
      impeccable_command @
      '' hooks ignore-rule <id>` only when the user asks to suppress the whole non-value-specific rule. Run '' @
      impeccable_command @
      '' audit for the full pass.''])"

section \<open>The budget\<close>

definition newline :: ustring where "newline = ascii [line_feed]"
definition ellipsis :: nat where "ellipsis = 0x2026"

fun ujoin :: "ustring list \<Rightarrow> ustring" where
  \<comment> \<open>lines, joined\<close>
  "ujoin [] = []"
| "ujoin [w] = w"
| "ujoin (w # v # ws) = w @ newline @ ujoin (v # ws)"

definition finding_cap :: "hook_config \<Rightarrow> nat" where
  "finding_cap cfg = nat \<lfloor>max 1 (if hc_max_findings cfg = 0 then 5 else hc_max_findings cfg)\<rfloor>"

definition char_budget :: "hook_config \<Rightarrow> rat" where
  "char_budget cfg = max 500 (if hc_max_chars cfg = 0 then 8000 else hc_max_chars cfg)"

definition fits :: "rat \<Rightarrow> ustring \<Rightarrow> bool" where
  "fits budget s = (of_nat (length s) \<le> budget)"

fun drop_lines :: "(ustring list \<Rightarrow> ustring) \<Rightarrow> rat \<Rightarrow> ustring list \<Rightarrow> nat \<Rightarrow> ustring" where
  \<comment> \<open>the text with the lines that are left, one fewer at a time until it fits\<close>
  "drop_lines assemble budget lines 0 = assemble []"
| "drop_lines assemble budget lines (Suc k) =
    (if fits budget (assemble (take (Suc k) lines)) \<or> k = 0 then assemble (take (Suc k) lines)
     else drop_lines assemble budget lines k)"

definition cut_to :: "rat \<Rightarrow> ustring \<Rightarrow> ustring" where
  "cut_to budget s = (if fits budget s then s else take (nat \<lfloor>budget - 1\<rfloor>) s @ [ellipsis])"

definition clamp_to_budget :: "(ustring list \<Rightarrow> ustring) \<Rightarrow> (ustring list \<Rightarrow> ustring) \<Rightarrow> rat \<Rightarrow> ustring list \<Rightarrow> ustring" where
  \<comment> \<open>the complete text, or the one that says that there is more\<close>
  "clamp_to_budget whole omitting budget lines =
    (if fits budget (whole lines) then whole lines
     else cut_to budget (if length lines \<le> 1 then whole lines else drop_lines omitting budget lines (length lines - 1)))"

definition and_more :: ustring where
  "and_more = ascii (''... and more (see '' @ impeccable_command @ '' audit).'')"

definition report_text :: "ustring \<Rightarrow> ustring \<Rightarrow> ustring list \<Rightarrow> ustring list \<Rightarrow> ustring" where
  \<comment> \<open>header, lines, what is said of the others, footer\<close>
  "report_text header footer others lines = ujoin (header # lines @ others @ [[], footer])"

section \<open>Reports\<close>

definition issue_count :: "nat \<Rightarrow> string" where
  "issue_count n = ''('' @ nat_str n @ '' issue(s)):''"

definition render_template :: "hook_config \<Rightarrow> string \<Rightarrow> string \<Rightarrow> jsval list \<Rightarrow> ustring" where
  "render_template cfg cwd p fs =
    (if fs = [] then []
     else
       let display = relativize p cwd;
           shown = take (finding_cap cfg) fs;
           remaining = length fs - length shown;
           header = ascii (envelope_prefix @ '' Design hook findings requiring review in '' @ display @ '' '' @ issue_count (length fs));
           others = (if 0 < remaining
             then [ascii (''... and '' @ nat_str remaining @ '' more (see '' @ impeccable_command @ '' audit).'')] else []);
           footer = ascii (directive_footer display False)
       in clamp_to_budget (report_text header footer others) (report_text header footer [and_more])
            (char_budget cfg) (map (ascii \<circ> format_finding_line) shown))"

fun group_lines :: "nat \<Rightarrow> string \<Rightarrow> nat \<Rightarrow> (string \<times> jsval list) list \<Rightarrow> ustring list" where
  \<comment> \<open>the number of findings shown so far\<close>
  "group_lines cap cwd shown [] = []"
| "group_lines cap cwd shown ((p, fs) # groups) =
    (let display = relativize p cwd; here = take (cap - shown) fs; hidden = length fs - length here in
     [ascii (display @ '' '' @ issue_count (length fs))] @ map (ascii \<circ> format_finding_line) here @
     (if 0 < hidden then [ascii (''- ... '' @ nat_str hidden @ '' more in '' @ display @ '' (see '' @ impeccable_command @ '' audit).'')] else []) @
     group_lines cap cwd (shown + length here) groups)"

definition render_grouped_template :: "hook_config \<Rightarrow> string \<Rightarrow> (string \<times> jsval list) list \<Rightarrow> ustring" where
  "render_grouped_template cfg cwd groups =
    (case filter (\<lambda>(p, fs). fs \<noteq> []) groups of
       [] \<Rightarrow> []
     | [(p, fs)] \<Rightarrow> render_template cfg cwd p fs
     | several \<Rightarrow>
       let total = sum_list (map (\<lambda>(p, fs). length fs) several);
           header = ascii (envelope_prefix @ '' Design hook findings requiring review across '' @ nat_str (length several) @ '' files '' @ issue_count total);
           footer = ascii (directive_footer ''the affected files'' True)
       in clamp_to_budget (report_text header footer []) (report_text header footer [and_more])
            (char_budget cfg) (group_lines (finding_cap cfg) cwd 0 several))"

section \<open>Notes\<close>

definition steer_line :: string where
  "steer_line = ''That does not mean the design is good: keep following the project design system and the impeccable skill guidance.''"

definition render_clean_ack :: "string \<Rightarrow> string \<Rightarrow> ustring" where
  "render_clean_ack cwd p =
    ascii (envelope_prefix @ '' Design hook scanned '' @ relativize p cwd @ ''. No deterministic design-quality issues found. '' @ steer_line)"

definition render_pending_ack :: "string \<Rightarrow> string \<Rightarrow> string list \<Rightarrow> ustring" where
  "render_pending_ack cwd p old =
    ascii (envelope_prefix @ '' Design hook scanned '' @ relativize p cwd @ ''. Still has '' @ nat_str (length old) @
      '' finding(s) flagged earlier this session ('' @ join '', '' (take 3 old) @
      (if 3 < length old then '', +'' @ nat_str (length old - 3) @ '' more'' else []) @ ''). Handle them before finalizing '') @
    [0x2014] @ ascii '' the previous reminder still applies.''"

definition suppression_notice :: "string \<Rightarrow> ustring" where
  "suppression_notice display =
    ascii (envelope_prefix @ '' Suppressing further design hints on '' @ display @ ''. More than '' @ nat_str edit_count_threshold @
      '' edits in this session reached. Run '' @ impeccable_command @ '' audit to revisit.'')"

definition design_system_note :: ustring where
  "design_system_note = newline @ newline @ ascii (envelope_prefix @ '' DESIGN.md is newer than .impeccable/design.json. Run '' @
     impeccable_command @ '' document to refresh the design-system sidecar.'')"

definition append_design_system_note :: "bool \<Rightarrow> ustring \<Rightarrow> ustring" where
  \<comment> \<open>the note when the design system passed to the detector says that it is out of date\<close>
  "append_design_system_note stale s = (if s = [] \<or> \<not> stale then s else s @ design_system_note)"

definition payload :: "ustring \<Rightarrow> string \<Rightarrow> string \<Rightarrow> (string list \<times> ustring) list" where
  \<comment> \<open>the texts of the object written, with the way to each\<close>
  "payload s event harness =
    (if harness = ''cursor'' then [([''additional_context''], s)]
     else if harness = ''github'' then [([''additionalContext''], s)]
     else [([''hookSpecificOutput'', ''hookEventName''], ascii event), ([''hookSpecificOutput'', ''additionalContext''], s)])"

section \<open>A report fits\<close>

lemma cut_to_fits:
  assumes "1 \<le> budget"
  shows "fits budget (cut_to budget s)"
proof (cases "fits budget s")
  case False
  have "0 \<le> \<lfloor>budget - 1\<rfloor>" using assms by simp
  moreover have "of_int \<lfloor>budget - 1\<rfloor> \<le> budget - 1" by (rule of_int_floor_le)
  ultimately have "of_nat (nat \<lfloor>budget - 1\<rfloor>) + 1 \<le> budget" by simp
  moreover have "of_nat (length (take (nat \<lfloor>budget - 1\<rfloor>) s)) \<le> (of_nat (nat \<lfloor>budget - 1\<rfloor>) :: rat)" by simp
  ultimately show ?thesis using False by (simp add: cut_to_def fits_def del: length_take)
qed (simp add: cut_to_def)

lemma clamp_fits: "1 \<le> budget \<Longrightarrow> fits budget (clamp_to_budget whole omitting budget lines)"
  using cut_to_fits by (simp add: clamp_to_budget_def)

lemma budget_positive: "1 \<le> char_budget cfg"
  by (simp add: char_budget_def)

lemma drop_lines_longest:
  "1 \<le> k \<Longrightarrow> k \<le> n \<Longrightarrow> fits budget (assemble (take k lines)) \<Longrightarrow>
   \<exists>m. k \<le> m \<and> m \<le> n \<and> drop_lines assemble budget lines n = assemble (take m lines) \<and> fits budget (assemble (take m lines))"
proof (induction n)
  case (Suc n)
  show ?case
  proof (cases "fits budget (assemble (take (Suc n) lines))")
    case True
    with Suc.prems show ?thesis by (intro exI [of _ "Suc n"]) simp
  next
    case False
    with Suc.prems have "k \<le> n" by (cases "k = Suc n") auto
    with Suc obtain m where "k \<le> m" "m \<le> n" "drop_lines assemble budget lines n = assemble (take m lines)" "fits budget (assemble (take m lines))" by auto
    with False \<open>k \<le> n\<close> Suc.prems(1) show ?thesis by (intro exI [of _ m]) auto
  qed
qed simp

text \<open>
  When the lines do not all fit, as many as fit are kept, in their order, and the report says
  that there are more: no line that would have fitted is dropped.
\<close>

theorem no_line_is_dropped_needlessly:
  assumes "\<not> fits budget (whole lines)" "1 \<le> k" "k < length lines" "fits budget (omitting (take k lines))"
  shows "\<exists>m. k \<le> m \<and> m < length lines \<and> clamp_to_budget whole omitting budget lines = omitting (take m lines)"
proof -
  have "k \<le> length lines - 1" using assms(3) by simp
  then obtain m where "k \<le> m" "m \<le> length lines - 1" "drop_lines omitting budget lines (length lines - 1) = omitting (take m lines)"
    "fits budget (omitting (take m lines))"
    using drop_lines_longest [where assemble = omitting and budget = budget and lines = lines and k = k, OF assms(2) _ assms(4)] by blast
  with assms show ?thesis by (intro exI [of _ m]) (auto simp: clamp_to_budget_def cut_to_def)
qed

text \<open>A report takes at most the characters that the project allows, or 500 where it allows fewer.\<close>

theorem report_fits_the_budget:
  "of_nat (length (render_grouped_template cfg cwd groups)) \<le> (if hc_max_chars cfg = 0 then 8000 else max 500 (hc_max_chars cfg))"
proof -
  have one: "fits (char_budget cfg) (render_template cfg cwd p fs)" for p fs
    using clamp_fits [OF budget_positive] budget_positive [of cfg] by (simp add: render_template_def Let_def fits_def)
  have "fits (char_budget cfg) (render_grouped_template cfg cwd groups)"
    using clamp_fits [OF budget_positive] one budget_positive [of cfg]
    by (auto simp: render_grouped_template_def Let_def fits_def split: list.split)
  then show ?thesis by (simp add: fits_def char_budget_def split: if_splits)
qed

end
