(* ===== verification/Hook_Run.thy ===== *)
theory Hook_Run
  imports Hook_Report
begin

text \<open>
  A run of the design hook, \<open>hook.mjs\<close> with \<open>runHook\<close> and \<open>runStopHook\<close> of
  \<open>hook-lib.mjs\<close>: when it says nothing, what it scans, what it answers and what it
  leaves in the cache. The product file that \<open>context.mjs\<close> finds, the parser of JSON,
  the disk, the cache files and the detector belong to the world. A run that an exception
  ends is silent. The audit log and the exclude file (\<open>Hook_Excludes\<close>) stand apart.
\<close>

section \<open>The platform\<close>

definition section_heading :: "string \<Rightarrow> string \<Rightarrow> bool" where
  \<comment> \<open>\<open>^##\s+NAME\s*$\<close> on a trimmed line\<close>
  "section_heading name w = (Option.bind (strip ''##'' w) skip_ws1 \<noteq> None \<and>
     (case Option.bind (strip ''##'' w) skip_ws1 of Some t \<Rightarrow> map lower_char t = map lower_char name | None \<Rightarrow> False))"

definition any_heading :: "string \<Rightarrow> bool" where
  \<comment> \<open>\<open>^#{1,6}\s\<close>\<close>
  "any_heading w =
    (let n = length (takeWhile (\<lambda>c. c = CHR ''#'') w) in 1 \<le> n \<and> n \<le> 6 \<and> n < length w \<and> is_ws (w ! n))"

definition extract_section_value :: "string \<Rightarrow> string \<Rightarrow> string option" where
  \<comment> \<open>the first line with a text after the heading, none where another heading comes first\<close>
  "extract_section_value product name =
    (case dropWhile (\<lambda>w. \<not> section_heading name w) (map js_trim (split_on line_feed product)) of
       [] \<Rightarrow> None
     | _ # rest \<Rightarrow> (case dropWhile (\<lambda>w. w = []) rest of [] \<Rightarrow> None | w # _ \<Rightarrow> if any_heading w then None else Some w))"

definition extract_platform :: "string \<Rightarrow> string option" where
  "extract_platform product =
    (case extract_section_value product ''Platform'' of None \<Rightarrow> None
     | Some v \<Rightarrow>
       let value = map lower_char v;
           tokens = filter (\<lambda>w. w \<noteq> [] \<and> w \<noteq> ''and'') (cut_at (\<lambda>c. is_ws c \<or> c \<in> {CHR '','', CHR ''+'', CHR ''&'', CHR ''/''}) value) in
       if value \<in> {''web'', ''ios'', ''android'', ''adaptive''} then Some value
       else if 2 \<le> length tokens \<and> set tokens = {''ios'', ''android''} then Some ''adaptive''
       else None)"

definition is_native_platform :: "string option \<Rightarrow> bool" where
  "is_native_platform platform = (platform \<in> {Some ''ios'', Some ''android'', Some ''adaptive''})"

section \<open>The world of a run\<close>

record hook_world =
  hw_env :: "string \<Rightarrow> string option"
  hw_stdin :: string
  hw_parse :: "string \<Rightarrow> jsval option"
  hw_cwd :: string
  hw_home :: string
  hw_disk :: hook_disk
  hw_product :: "string \<Rightarrow> string"
  hw_cache :: "string \<Rightarrow> hook_cache"
  hw_detector :: "detector option"
  hw_now :: int

text \<open>
  What was said: the kind, the findings that were reported file by file, and the texts of the object
  on standard output; and the cache that was written, with the project it is of.
\<close>

record hook_result =
  hr_kind :: string
  hr_fresh :: "(string \<times> jsval list) list"
  hr_payload :: "(string list \<times> ustring) list"
  hr_saved :: "(string \<times> hook_cache) option"

definition silent :: "string \<Rightarrow> hook_result" where
  "silent why = \<lparr>hr_kind = why, hr_fresh = [], hr_payload = [], hr_saved = None\<rparr>"

definition env_flag :: "string option \<Rightarrow> bool" where
  "env_flag v = (case v of None \<Rightarrow> False | Some s \<Rightarrow> map lower_char s \<in> {''1'', ''true'', ''yes'', ''on''})"

definition depth_is_set :: "string option \<Rightarrow> bool" where
  "depth_is_set v =
    (case v of None \<Rightarrow> False
     | Some s \<Rightarrow> let t = js_trim s in env_flag (Some t) \<or> (t \<noteq> [] \<and> list_all is_digit t \<and> 0 < digits_val t))"

definition read_json :: "hook_world \<Rightarrow> string \<Rightarrow> jsval" where
  "read_json w p = (case Option.bind (hk_text (hw_disk w) p) (hw_parse w) of None \<Rightarrow> JNull | Some v \<Rightarrow> v)"

definition config_in :: "hook_world \<Rightarrow> string \<Rightarrow> hook_config" where
  "config_in w dir = read_hook_config (read_json w (resolve dir ''.impeccable/config.json'')) (read_json w (resolve dir ''.impeccable/config.local.json''))"

definition session_id_of :: "jsval \<Rightarrow> string" where
  "session_id_of ev = js_string (js_or (get ev ''session_id'') (JStr ''unknown''))"

definition stale_note :: "hook_config \<Rightarrow> detector \<Rightarrow> bool" where
  "stale_note cfg det = (hc_design cfg \<and> dt_note det)"

text \<open>Both kinds of run begin alike: guards, then the event.\<close>

definition run_guard :: "hook_world \<Rightarrow> string option" where
  "run_guard w =
    (if depth_is_set (hw_env w ''IMPECCABLE_HOOK_DEPTH'') \<or> depth_is_set (hw_env w ''CLAUDE_HOOK_DEPTH'') then Some ''reentrant''
     else if env_flag (hw_env w ''IMPECCABLE_HOOK_DISABLED'') then Some ''env-disabled''
     else (case hw_parse w (hw_stdin w) of None \<Rightarrow> Some ''stdin-malformed''
       | Some ev \<Rightarrow> if \<not> truthy ev \<or> \<not> is_objty ev then Some ''stdin-empty'' else None))"

definition project_guard :: "hook_world \<Rightarrow> string \<Rightarrow> hook_config \<Rightarrow> string option" where
  "project_guard w dir cfg =
    (if \<not> hc_enabled cfg then Some ''config-disabled''
     else if is_native_platform (extract_platform (hw_product w dir)) then Some ''native-platform''
     else None)"

section \<open>After an edit\<close>

record edit_targets =
  et_harness :: string
  et_session :: string
  et_project :: string
  et_primary :: "string list"
  et_files :: "string list"

definition edit_targets_of :: "hook_world \<Rightarrow> jsval \<Rightarrow> edit_targets option" where
  \<comment> \<open>none where the directory an event names is no path, which throws\<close>
  "edit_targets_of w raw =
    (let harness = resolve_harness (hw_env w) raw;
         ev = normalize_hook_event (hw_parse w) (hw_env w) raw (hw_cwd w) harness;
         dir = js_or (get ev ''cwd'') (JStr (hw_cwd w)) in
     if \<not> is_str dir then None
     else
       let base = absolute_in (hw_cwd w) (str_of dir);
           primary = normalize_scan_targets (resolve_target_files ev base) base;
           project = resolve_cache_cwd (hk_exists (hw_disk w)) (hw_home w) (case primary of [] \<Rightarrow> None | p # _ \<Rightarrow> Some p) base
       in Some \<lparr>et_harness = harness, et_session = session_id_of ev, et_project = project, et_primary = primary,
            et_files = expand_scan_targets (hk_exists (hw_disk w)) (hk_text (hw_disk w)) primary project\<rparr>)"

definition scan_of :: "hook_world \<Rightarrow> hook_config \<Rightarrow> string \<Rightarrow> string \<Rightarrow> detector \<Rightarrow> hook_scan" where
  "scan_of w cfg dir session det = \<lparr>sn_config = cfg, sn_cwd = dir, sn_session = session, sn_now = hw_now w, sn_detector = det, sn_disk = hw_disk w\<rparr>"

definition edit_saved :: "hook_world \<Rightarrow> string \<Rightarrow> scan_state \<Rightarrow> (string \<times> hook_cache) option" where
  \<comment> \<open>the cache is written when there is something to remember, or the project has the directory already\<close>
  "edit_saved w dir s =
    (if ss_fresh s \<noteq> [] \<or> 0 < ss_deferred s \<or> (ss_dirty s \<and> hk_exists (hw_disk w) (resolve dir ''.impeccable''))
     then Some (dir, persisted_cache (ss_cache s)) else None)"

definition edit_answer :: "hook_config \<Rightarrow> string \<Rightarrow> string \<Rightarrow> bool \<Rightarrow> bool \<Rightarrow> scan_state \<Rightarrow> string \<times> (string list \<times> ustring) list" where
  \<comment> \<open>the kind and the texts, none where the run is silent\<close>
  "edit_answer cfg dir harness stale quiet s =
    (let say = (\<lambda>kind body. (kind, payload body ''PostToolUse'' harness)) in
     if ss_fresh s \<noteq> [] then say ''fresh'' (append_design_system_note stale (render_grouped_template cfg dir (ss_fresh s)))
     else if ss_threw s \<and> ss_pending s = None \<and> ss_clean s = None then (''detector-threw'', [])
     else if quiet then (''quiet'', [])
     else
       (case (ss_pending s, ss_suppressed s, ss_clean s) of
          (pending, suppressed, clean) \<Rightarrow>
            if (case pending of Some (p, _) \<Rightarrow> should_emit_ack_for_file cfg p | None \<Rightarrow> False)
            then (case pending of Some (p, old) \<Rightarrow> say ''pending'' (append_design_system_note stale (render_pending_ack dir p old)) | None \<Rightarrow> ('''', []))
            else (case suppressed of Some p \<Rightarrow> say ''suppression'' (suppression_notice (relativize p dir))
              | None \<Rightarrow>
                if \<not> ss_ack_deduped s \<and> (case clean of Some p \<Rightarrow> should_emit_ack_for_file cfg p | None \<Rightarrow> False)
                then (case clean of Some p \<Rightarrow> say ''clean'' (append_design_system_note stale (render_clean_ack dir p)) | None \<Rightarrow> ('''', []))
                else if pending \<noteq> None \<or> clean \<noteq> None then (''non-ui-ack'', [])
                else if ss_ack_deduped s then (''clean-ack-deduped'', [])
                else if ss_hit s then (''suppressed'', [])
                else (ss_skip s, []))))"

definition run_hook :: "hook_world \<Rightarrow> hook_result" where
  "run_hook w =
    (case run_guard w of Some why \<Rightarrow> silent why
     | None \<Rightarrow>
       (case edit_targets_of w (the (hw_parse w (hw_stdin w))) of None \<Rightarrow> silent ''error''
        | Some e \<Rightarrow>
          let dir = et_project e; cfg = config_in w dir; quiet = (env_flag (hw_env w ''IMPECCABLE_HOOK_QUIET'') \<or> hc_quiet cfg) in
          if et_files e = [] then silent ''no-file-path''
          else
            (case project_guard w dir cfg of Some why \<Rightarrow> silent why
             | None \<Rightarrow>
               (case hw_detector w of None \<Rightarrow> silent ''detector-missing''
                | Some det \<Rightarrow>
                  (case scan_edits (scan_of w cfg dir (et_session e) det) (per_edit_tiering_active cfg (et_harness e)) quiet
                      (set (et_primary e)) (et_files e) (scan_begin (hw_cache w dir)) of
                     None \<Rightarrow> silent ''error''
                   | Some s \<Rightarrow>
                     let (kind, texts) = edit_answer cfg dir (et_harness e) (stale_note cfg det) quiet s
                     in \<lparr>hr_kind = kind, hr_fresh = ss_fresh s, hr_payload = texts, hr_saved = edit_saved w dir s\<rparr>)))))"

section \<open>At the end of a turn\<close>

definition run_stop_hook :: "hook_world \<Rightarrow> hook_result" where
  "run_stop_hook w =
    (case run_guard w of Some why \<Rightarrow> silent why
     | None \<Rightarrow>
       let ev = the (hw_parse w (hw_stdin w)); at_dir = js_or (get ev ''cwd'') (JStr (hw_cwd w)) in
       if get ev ''stop_hook_active'' = JBool True then silent ''stop-hook-active''
       else if \<not> is_str at_dir then silent ''error''
       else
         let harness = resolve_harness (hw_env w) ev; dir = resolve (hw_cwd w) (str_of at_dir);
             session = session_id_of ev; cfg = config_in w dir; cache = hw_cache w dir in
         if \<not> hc_enabled cfg then silent ''config-disabled''
         else if touched_files cache session = [] then silent ''no-touched-files''
         else (case project_guard w dir cfg of Some why \<Rightarrow> silent why
           | None \<Rightarrow>
             (case hw_detector w of None \<Rightarrow> silent ''detector-missing''
              | Some det \<Rightarrow>
                let s = scan_stops (scan_of w cfg dir session det) (touched_files cache session) cache in
                if st_fresh s = [] then silent ''stop-clean''
                else \<lparr>hr_kind = ''stop-deep-pass'', hr_fresh = st_fresh s,
                  hr_payload = payload (append_design_system_note (stale_note cfg det) (render_grouped_template cfg dir (st_fresh s))) ''Stop'' harness,
                  hr_saved = Some (dir, persisted_cache (st_cache s))\<rparr>)))"

section \<open>The entry point\<close>

definition is_stop_event :: "hook_world \<Rightarrow> bool" where
  "is_stop_event w = (case hw_parse w (hw_stdin w) of None \<Rightarrow> False
     | Some ev \<Rightarrow> truthy ev \<and> is_objty ev \<and> get ev ''hook_event_name'' = JStr ''Stop'')"

definition run_event :: "hook_world \<Rightarrow> hook_result" where
  "run_event w = (if is_stop_event w then run_stop_hook w else run_hook w)"

definition after_run :: "hook_world \<Rightarrow> hook_result \<Rightarrow> hook_world" where
  \<comment> \<open>the world with the cache that was written\<close>
  "after_run w r = (case hr_saved r of None \<Rightarrow> w | Some (dir, cache) \<Rightarrow> w\<lparr>hw_cache := (hw_cache w)(dir := cache)\<rparr>)"

section \<open>The cache that is kept\<close>

definition scan_keeps :: "hook_scan \<Rightarrow> hook_cache \<Rightarrow> scan_state \<Rightarrow> bool" where
  \<comment> \<open>a scan changes the cache only where its own session is, which is then the latest\<close>
  "scan_keeps n old s =
    ((ss_dirty s \<longrightarrow> map_option hs_updated (map_of (ss_cache s) (sn_session n)) = Some (sn_now n)) \<and>
     (ss_fresh s \<noteq> [] \<longrightarrow> ss_dirty s) \<and> (\<forall>j. j \<noteq> sn_session n \<longrightarrow> map_of (ss_cache s) j = map_of old j) \<and>
     distinct (map fst (ss_cache s)))"

lemma map_of_set_entry: "map_of (set_entry_of now cache i p e) =
    (map_of cache)(i \<mapsto> \<lparr>hs_updated = now, hs_files = alset p e (hs_files (session_of cache i))\<rparr>)"
  by (simp add: set_entry_of_def)

lemma distinct_set_entry: "distinct (map fst cache) \<Longrightarrow> distinct (map fst (set_entry_of now cache i p e))"
  by (simp add: set_entry_of_def)

lemma scan_keeps_same:
  "scan_keeps n old s \<Longrightarrow> ss_cache s' = ss_cache s \<Longrightarrow> ss_fresh s' = ss_fresh s \<Longrightarrow> ss_dirty s' = ss_dirty s \<Longrightarrow> scan_keeps n old s'"
  by (simp add: scan_keeps_def del: map_of_eq_Some_iff)

lemma scan_keeps_if: "scan_keeps n old a \<Longrightarrow> scan_keeps n old b \<Longrightarrow> scan_keeps n old (if c then a else b)"
  by simp

lemma scan_keeps_set:
  "scan_keeps n old s \<Longrightarrow> ss_cache s' = set_entry_of (sn_now n) (ss_cache s) (sn_session n) p e \<Longrightarrow> ss_dirty s' \<Longrightarrow> scan_keeps n old s'"
  unfolding scan_keeps_def by (simp add: map_of_set_entry distinct_set_entry del: map_of_eq_Some_iff)

lemma acknowledge_keeps:
  assumes "ss_dirty s" "scan_keeps n old s"
  shows "scan_keeps n old (acknowledge n quiet p s)"
proof -
  from assms obtain e where "map_of (ss_cache s) (sn_session n) = Some e" "hs_updated e = sn_now n" by (auto simp: scan_keeps_def simp del: map_of_eq_Some_iff)
  with assms show ?thesis
    by (simp add: acknowledge_def Let_def scan_keeps_def session_of_def del: map_of_eq_Some_iff)
qed

lemma report_edit_keeps:
  assumes "scan_keeps n old s"
  shows "scan_keeps n old (report_edit n quiet p immediate fresh s)"
proof -
  let ?s = "s\<lparr>ss_cache := remember_findings (sn_now n) (sn_session n) p immediate (ss_cache s), ss_dirty := True\<rparr>"
  have k: "scan_keeps n old ?s" by (rule scan_keeps_set [OF assms]) (simp_all add: remember_findings_def)
  have "scan_keeps n old (?s\<lparr>ss_fresh := f\<rparr>)" "scan_keeps n old (?s\<lparr>ss_pending := q\<rparr>)" for f q
    by (rule scan_keeps_set [OF assms], simp_all add: remember_findings_def)+
  moreover have "scan_keeps n old (acknowledge n quiet p ?s)" by (rule acknowledge_keeps [OF _ k]) simp
  ultimately show ?thesis unfolding report_edit_def Let_def using k by (intro scan_keeps_if)
qed

lemma scan_text_keeps:
  assumes "scan_keeps n old s"
  shows "scan_keeps n old (scan_text n tiered quiet p page s)"
proof (cases "detected n page p")
  case None
  have "scan_keeps n old (s\<lparr>ss_threw := True\<rparr>)" by (rule scan_keeps_same [OF assms]) simp_all
  then show ?thesis using None by (simp add: scan_text_def)
next
  case (Some found)
  obtain immediate deferred where f: "immediate_of n tiered found = (immediate, deferred)" by fastforce
  let ?t = "s\<lparr>ss_cache := touch_file (sn_now n) (sn_session n) p (ss_cache s), ss_dirty := True, ss_deferred := ss_deferred s + length deferred\<rparr>"
  have "scan_keeps n old ?t" by (rule scan_keeps_set [OF assms]) (simp_all add: touch_file_def)
  with assms have "scan_keeps n old (if deferred = [] then s else ?t)" by simp
  then show ?thesis unfolding scan_text_def Some option.case f Let_def prod.case by (rule report_edit_keeps)
qed

lemma count_edit_keeps:
  assumes "count_edit n primary p s = (b, s')" "scan_keeps n old s"
  shows "scan_keeps n old s'"
proof (cases primary)
  case True
  have "scan_keeps n old s'"
    by (rule scan_keeps_set [OF assms(2)]) (use True assms(1) in \<open>auto simp: count_edit_def bump_edit_count_def Let_def split: if_splits\<close>)
  then show ?thesis .
qed (use assms in \<open>simp add: count_edit_def\<close>)

lemma scan_edit_keeps:
  assumes "scan_edit n tiered quiet primary p s = Some s'" "scan_keeps n old s"
  shows "scan_keeps n old s'"
proof (cases "skip_reason (sn_config n) (sn_cwd n) p \<noteq> None \<or> \<not> hk_exists (sn_disk n) p \<or> too_large n p")
  case True
  then have "ss_cache s' = ss_cache s" "ss_fresh s' = ss_fresh s" "ss_dirty s' = ss_dirty s"
    using assms(1) by (auto simp: scan_edit_def split: option.splits if_splits)
  with assms(2) show ?thesis by (rule scan_keeps_same)
next
  case False
  obtain b s1 where s1: "count_edit n (p \<in> primary) p s = (b, s1)" by fastforce
  have "scan_keeps n old s1" using count_edit_keeps [OF s1 assms(2)] .
  with False assms(1) s1 scan_text_keeps show ?thesis by (cases b) (auto simp: scan_edit_def)
qed

lemma scan_edits_keep: "scan_edits n tiered quiet primary ps s = Some s' \<Longrightarrow> scan_keeps n old s \<Longrightarrow> scan_keeps n old s'"
proof (induction ps arbitrary: s)
  case (Cons p ps)
  then obtain s1 where "scan_edit n tiered quiet primary p s = Some s1" "scan_edits n tiered quiet primary ps s1 = Some s'"
    by (auto simp: bind_eq_Some_conv)
  with Cons scan_edit_keeps show ?case by blast
qed simp

lemma latest_session_is_kept:
  assumes "distinct (map fst cache)" "map_of cache i = Some e" "\<forall>(j, d) \<in> set cache. j \<noteq> i \<longrightarrow> hs_updated d < hs_updated e"
  shows "map_of (persisted_cache cache) i = Some e"
proof (cases "length cache > cache_max_sessions")
  case True
  let ?c = "sort_key (\<lambda>(i, s). - hs_updated s) cache"
  have l: "length ?c > 8" using True by (simp add: cache_max_sessions_def)
  then obtain j d rest where c: "?c = (j, d) # rest" by (cases ?c) auto
  have m: "(i, e) \<in> set ?c" using map_of_SomeD [OF assms(2)] by simp
  have "- hs_updated d \<le> - hs_updated e"
    using sorted_sort_key [of "\<lambda>(i, s). - hs_updated s" cache] m unfolding c by (auto simp: case_prod_beta)
  moreover have "(j, d) \<in> set cache" using c by (metis list.set_intros(1) set_sort)
  ultimately have "j = i" using assms(3) by force
  with \<open>(j, d) \<in> set cache\<close> assms(1,2) have "d = e" by (metis map_of_eq_Some_iff option.inject)
  then show ?thesis using True \<open>j = i\<close> by (simp add: persisted_cache_def c cache_max_sessions_def numeral_eq_Suc)
qed (use assms(2) in \<open>simp add: persisted_cache_def\<close>)

section \<open>Once said\<close>

lemma entry_of_kept:
  assumes "map_of cache' i = map_of cache i"
  shows "entry_of cache' i p = entry_of cache i p"
  using assms by (simp add: entry_of_def session_of_def)

lemma scan_at_another_time:
  "scan_of (w\<lparr>hw_cache := c, hw_now := t\<rparr>) cfg dir session det = (scan_of w cfg dir session det)\<lparr>sn_now := t\<rparr>"
  by (simp add: scan_of_def)

lemma reported_once:
  assumes "scan_edits n tiered quiet primary ps (scan_begin cache) = Some s" "ss_fresh s \<noteq> []"
    and "distinct (map fst cache)" "\<forall>(j, d) \<in> set cache. hs_updated d < sn_now n"
    and "scan_edits (n\<lparr>sn_now := t\<rparr>) tiered quiet' primary ps (scan_begin (persisted_cache (ss_cache s))) = Some s'"
  shows "ss_fresh s' = []"
proof -
  have k: "scan_keeps n cache s"
    by (rule scan_edits_keep [OF assms(1)]) (use assms(3) in \<open>simp add: scan_keeps_def scan_begin_def\<close>)
  then have d: "distinct (map fst (ss_cache s))" and o: "\<forall>j. j \<noteq> sn_session n \<longrightarrow> map_of (ss_cache s) j = map_of cache j"
    by (simp_all add: scan_keeps_def del: map_of_eq_Some_iff)
  from k assms(2) obtain e where e: "map_of (ss_cache s) (sn_session n) = Some e" "hs_updated e = sn_now n"
    by (auto simp: scan_keeps_def simp del: map_of_eq_Some_iff)
  have "\<forall>(j, x) \<in> set (ss_cache s). j \<noteq> sn_session n \<longrightarrow> hs_updated x < hs_updated e"
  proof clarify
    fix j x assume "(j, x) \<in> set (ss_cache s)" "j \<noteq> sn_session n"
    then have "map_of cache j = Some x" using o d by (metis map_of_eq_Some_iff)
    then have "(j, x) \<in> set cache" by (rule map_of_SomeD)
    with assms(4) e(2) show "hs_updated x < hs_updated e" by auto
  qed
  from latest_session_is_kept [OF d e(1) this]
  have "entry_of (persisted_cache (ss_cache s)) (sn_session n) q = entry_of (ss_cache s) (sn_session n) q" for q
    using e(1) by (intro entry_of_kept) simp
  moreover have "settled n tiered primary (entry_of (ss_cache s) (sn_session n) q) q" if "q \<in> set ps" for q
    using scan_edits_settle [OF assms(1)] that by blast
  ultimately show ?thesis
    using scan_edits_report_nothing [OF assms(5)] by (simp add: settled_at) (simp add: scan_begin_def)
qed

lemma run_hook_fresh:
  assumes "hr_fresh (run_hook w) \<noteq> []"
  obtains e cfg det s where "run_guard w = None" "edit_targets_of w (the (hw_parse w (hw_stdin w))) = Some e" "cfg = config_in w (et_project e)"
    "hw_detector w = Some det"
    "scan_edits (scan_of w cfg (et_project e) (et_session e) det) (per_edit_tiering_active cfg (et_harness e))
       (env_flag (hw_env w ''IMPECCABLE_HOOK_QUIET'') \<or> hc_quiet cfg) (set (et_primary e)) (et_files e) (scan_begin (hw_cache w (et_project e))) = Some s"
    "hr_fresh (run_hook w) = ss_fresh s" "hr_saved (run_hook w) = edit_saved w (et_project e) s"
  using assms by (auto simp: run_hook_def Let_def silent_def split: option.splits if_splits prod.splits)

lemma at_a_later_time:
  defines "w' \<equiv> \<lambda>w c t. w\<lparr>hw_cache := c, hw_now := t\<rparr>"
  shows "run_guard (w' w c t) = run_guard w" "edit_targets_of (w' w c t) ev = edit_targets_of w ev" "config_in (w' w c t) dir = config_in w dir"
    "hw_detector (w' w c t) = hw_detector w" "hw_parse (w' w c t) = hw_parse w" "hw_stdin (w' w c t) = hw_stdin w" "hw_env (w' w c t) = hw_env w"
    "hw_cache (w' w c t) = c"
  by (simp_all add: w'_def run_guard_def edit_targets_of_def config_in_def read_json_def Let_def)

text \<open>
  C31. What a run has just reported the next one does not report again: the same event on the same files, whenever
  it comes, finds everything in the cache that the first run wrote, whichever of the
  sessions were dropped from it.
\<close>

theorem findings_are_reported_once:
  assumes "hr_fresh (run_hook w) \<noteq> []" "distinct (map fst (hw_cache w dir))" "\<forall>(j, d) \<in> set (hw_cache w dir). hs_updated d < hw_now w"
    and "hr_saved (run_hook w) = Some (dir, cache)"
  shows "hr_fresh (run_hook ((after_run w (run_hook w))\<lparr>hw_now := t\<rparr>)) = []"
proof (rule ccontr)
  assume again: "hr_fresh (run_hook ((after_run w (run_hook w))\<lparr>hw_now := t\<rparr>)) \<noteq> []"
  let ?w = "w\<lparr>hw_cache := (hw_cache w)(dir := cache), hw_now := t\<rparr>"
  have w': "(after_run w (run_hook w))\<lparr>hw_now := t\<rparr> = ?w" using assms(4) by (simp add: after_run_def)
  from run_hook_fresh [OF assms(1)] obtain e cfg det s where
    r: "edit_targets_of w (the (hw_parse w (hw_stdin w))) = Some e" "cfg = config_in w (et_project e)" "hw_detector w = Some det"
      "scan_edits (scan_of w cfg (et_project e) (et_session e) det) (per_edit_tiering_active cfg (et_harness e))
         (env_flag (hw_env w ''IMPECCABLE_HOOK_QUIET'') \<or> hc_quiet cfg) (set (et_primary e)) (et_files e) (scan_begin (hw_cache w (et_project e))) = Some s"
      "hr_fresh (run_hook w) = ss_fresh s" "hr_saved (run_hook w) = edit_saved w (et_project e) s" by metis
  from r(6) assms(4) have dir: "et_project e = dir" "cache = persisted_cache (ss_cache s)"
    by (auto simp: edit_saved_def split: if_splits)
  from run_hook_fresh [OF again [unfolded w']] obtain e' cfg' det' s' where
    r': "edit_targets_of ?w (the (hw_parse ?w (hw_stdin ?w))) = Some e'" "cfg' = config_in ?w (et_project e')" "hw_detector ?w = Some det'"
      "scan_edits (scan_of ?w cfg' (et_project e') (et_session e') det') (per_edit_tiering_active cfg' (et_harness e'))
         (env_flag (hw_env ?w ''IMPECCABLE_HOOK_QUIET'') \<or> hc_quiet cfg') (set (et_primary e')) (et_files e') (scan_begin (hw_cache ?w (et_project e'))) = Some s'"
      "hr_fresh (run_hook ?w) = ss_fresh s'" by metis
  have e': "e' = e" "cfg' = cfg" "det' = det" using r(1-3) r'(1-3) by (simp_all only: at_a_later_time option.inject)
  have "scan_edits ((scan_of w cfg dir (et_session e) det)\<lparr>sn_now := t\<rparr>) (per_edit_tiering_active cfg (et_harness e))
      (env_flag (hw_env w ''IMPECCABLE_HOOK_QUIET'') \<or> hc_quiet cfg) (set (et_primary e)) (et_files e) (scan_begin (persisted_cache (ss_cache s))) = Some s'"
    using r'(4) unfolding e' at_a_later_time scan_at_another_time dir by simp
  from reported_once [OF r(4) [unfolded dir] _ assms(2) _ this] have "ss_fresh s' = []"
    using assms(1,3) r(5) by (simp add: scan_of_def)
  with r'(5) again w' show False by simp
qed

definition sample_event :: jsval where
  "sample_event = JObj [(''cwd'', JStr ''/w''), (''session_id'', JStr ''s''), (''tool_input'', JObj [(''file_path'', JStr ''/w/a.css'')])]"

definition sample_hook_world :: hook_world where
  "sample_hook_world =
    \<lparr>hw_env = (\<lambda>_. None), hw_stdin = [], hw_parse = (\<lambda>_. Some sample_event), hw_cwd = ''/w'', hw_home = ''/home'',
      hw_disk = sample_hook_disk, hw_product = (\<lambda>_. []), hw_cache = (\<lambda>_. []),
      hw_detector = Some (sample_detector ''low-contrast''), hw_now = 5\<rparr>"

definition sample_targets :: edit_targets where
  "sample_targets = \<lparr>et_harness = ''claude'', et_session = ''s'', et_project = ''/w'', et_primary = [''/w/a.css''], et_files = [''/w/a.css'']\<rparr>"

lemma sample_guards:
  "run_guard sample_hook_world = None" "edit_targets_of sample_hook_world sample_event = Some sample_targets"
  "config_in sample_hook_world ''/w'' = default_config" "project_guard sample_hook_world ''/w'' default_config = None"
  "per_edit_tiering_active default_config ''claude''"
  by code_simp+

lemma hook_world_fields:
  "hw_parse sample_hook_world = (\<lambda>_. Some sample_event)" "hw_detector sample_hook_world = Some (sample_detector ''low-contrast'')"
  "hw_now sample_hook_world = 5" "hw_cache sample_hook_world = (\<lambda>_. [])" "hw_env sample_hook_world = (\<lambda>_. None)"
  by (simp_all add: sample_hook_world_def)

lemma sample_scan_of:
  "scan_of sample_hook_world default_config ''/w'' ''s'' (sample_detector ''low-contrast'') = sample_hook_scan ''low-contrast''"
  by (simp add: scan_of_def sample_hook_scan_def sample_hook_world_def)

lemma sample_run_reports:
  "hr_fresh (run_hook sample_hook_world) = [(''/w/a.css'', [sample_finding ''low-contrast''])] \<and>
   (\<exists>cache. hr_saved (run_hook sample_hook_world) = Some (''/w'', cache))"
proof -
  obtain s where s: "scan_edits (sample_hook_scan ''low-contrast'') True False {''/w/a.css''} [''/w/a.css''] (scan_begin []) = Some s"
      "ss_fresh s = [(''/w/a.css'', [sample_finding ''low-contrast''])]" using sample_scan_reports by blast
  have "et_harness sample_targets = ''claude''" "et_session sample_targets = ''s''" "et_project sample_targets = ''/w''"
    "et_primary sample_targets = [''/w/a.css'']" "et_files sample_targets = [''/w/a.css'']" by (simp_all add: sample_targets_def)
  with s have "run_hook sample_hook_world =
      (let (kind, texts) = edit_answer default_config ''/w'' ''claude'' (stale_note default_config (sample_detector ''low-contrast'')) False s
       in \<lparr>hr_kind = kind, hr_fresh = ss_fresh s, hr_payload = texts, hr_saved = edit_saved sample_hook_world ''/w'' s\<rparr>)"
    by (simp add: run_hook_def Let_def hook_world_fields sample_guards sample_scan_of env_flag_def default_fields del: scan_edits.simps)
  then show ?thesis using s(2) by (simp add: edit_saved_def case_prod_beta Let_def)
qed

lemma findings_are_reported_once_witness:
  "hr_fresh (run_hook ((after_run sample_hook_world (run_hook sample_hook_world))\<lparr>hw_now := 9\<rparr>)) = []"
proof -
  obtain cache where c: "hr_saved (run_hook sample_hook_world) = Some (''/w'', cache)" using sample_run_reports by blast
  show ?thesis
    by (rule findings_are_reported_once [OF _ _ _ c]) (simp_all add: sample_run_reports hook_world_fields)
qed

end
