(* ===== verification/Hook_Excludes.thy ===== *)
theory Hook_Excludes
  imports Hook_Targets Git_Ignore
begin

text \<open>
  The block of patterns that \<open>hook-lib.mjs\<close> keeps in the exclude file of the
  repository before it writes its cache: which file that is, the block of a directory
  of the repository, and what a second run does. Failures of the disk are left out.
\<close>

section \<open>The block of a directory\<close>

definition hook_local_ignore_patterns :: "string list" where
  "hook_local_ignore_patterns = [''.impeccable/hook.cache.json'', ''.impeccable/hook.pending.json'', ''.impeccable/config.local.json'']"

definition exclude_open :: "string \<Rightarrow> string" where
  "exclude_open pre = ''# impeccable-hook-ignore-start '' @ (if pre = [] then ''.'' else pre)"

definition exclude_close :: "string \<Rightarrow> string" where
  "exclude_close pre = ''# impeccable-hook-ignore-end '' @ (if pre = [] then ''.'' else pre)"

definition exclude_patterns :: "string \<Rightarrow> string list" where
  "exclude_patterns pre =
    (if pre = [] then hook_local_ignore_patterns else map (\<lambda>p. pre @ ''/'' @ p) hook_local_ignore_patterns)"

definition exclude_block :: "string \<Rightarrow> string" where
  "exclude_block pre = join [line_feed] (exclude_open pre # exclude_patterns pre @ [exclude_close pre])"

definition region_between :: "string \<Rightarrow> string \<Rightarrow> string \<Rightarrow> (string \<times> string \<times> string) option" where
  \<comment> \<open>what stands before the first region between the marks, the region, and what stands after it\<close>
  "region_between o' c s = Option.bind (index_of s o') (\<lambda>i.
     let rest = drop (i + length o') s in
     map_option (\<lambda>j. (take i s, take (length o' + j + length c) (drop i s), drop (j + length c) rest)) (index_of rest c))"

fun replacement :: "string \<Rightarrow> string \<Rightarrow> string \<Rightarrow> string \<Rightarrow> string" where
  \<comment> \<open>the text that \<open>replace\<close> puts in, with its dollar signs interpreted\<close>
  "replacement before region after [] = []"
| "replacement before region after (c # s) =
    (if c = CHR ''$''
     then (case s of [] \<Rightarrow> ''$''
       | d # t \<Rightarrow>
         if d = CHR ''$'' then CHR ''$'' # replacement before region after t
         else if d = CHR ''&'' then region @ replacement before region after t
         else if d = CHR ''`'' then before @ replacement before region after t
         else if d = char_of (39 :: nat) then after @ replacement before region after t
         else CHR ''$'' # replacement before region after (d # t))
     else c # replacement before region after s)"

definition updated_excludes :: "string \<Rightarrow> string \<Rightarrow> string" where
  "updated_excludes pre existing =
    (case region_between (exclude_open pre) (exclude_close pre) existing of
       Some (before, region, after) \<Rightarrow> before @ replacement before region after (exclude_block pre) @ after
     | None \<Rightarrow>
       let lead = (if existing = [] then [] else if ends_with existing [line_feed] then existing else existing @ [line_feed]) in
       lead @ (if ends_with lead [line_feed, line_feed] \<or> lead = [] then [] else [line_feed]) @ exclude_block pre @ [line_feed])"

section \<open>The exclude file\<close>

definition resolve_git_dir :: "string \<Rightarrow> dot_git \<Rightarrow> string option" where
  "resolve_git_dir dir git =
    (case git of Git_Dir \<Rightarrow> Some (resolve dir ''.git'') | Git_File body \<Rightarrow> map_option (absolute_in dir) (gitdir_of body) | _ \<Rightarrow> None)"

fun resolve_hook_git_exclude_target :: "(string \<Rightarrow> dot_git) \<Rightarrow> string \<Rightarrow> string list \<Rightarrow> (string \<times> string) option" where
  \<comment> \<open>the file and the way from the repository to where the search began; the directory's segments last first\<close>
  "resolve_hook_git_exclude_target git begun up =
    (let dir = path_of (rev up) in
     if git dir = No_Git then (case up of [] \<Rightarrow> None | _ # outer \<Rightarrow> resolve_hook_git_exclude_target git begun outer)
     else map_option (\<lambda>g. (resolve g ''info/exclude'', relative dir begun)) (resolve_git_dir dir (git dir)))"

definition ensure_hook_git_excludes :: "(string \<Rightarrow> dot_git) \<Rightarrow> string \<Rightarrow> tree \<Rightarrow> jsval \<times> tree" where
  "ensure_hook_git_excludes git cwd t =
    (let patterns = (\<lambda>ps. (''patterns'', JArr (map JStr ps))) in
     case resolve_hook_git_exclude_target git (resolve cwd cwd) (rev (resolve_segs cwd cwd)) of
       None \<Rightarrow> (JObj [(''mode'', JStr ''none''), (''changed'', JBool False), patterns hook_local_ignore_patterns], t)
     | Some (p, pre) \<Rightarrow>
       let existing = (case file_at t p of None \<Rightarrow> [] | Some s \<Rightarrow> s); updated = updated_excludes pre existing in
       (JObj [(''mode'', JStr ''git-info-exclude''), (''file'', JStr (relative cwd p)), (''changed'', JBool (updated \<noteq> existing)),
          patterns (exclude_patterns pre)],
        if updated \<noteq> existing then t\<lparr>tr_files := alset p updated (tr_files t)\<rparr> else t))"

section \<open>A second run\<close>

lemma replacement_plain: "CHR ''$'' \<notin> set w \<Longrightarrow> replacement before region after w = w"
  by (induction before region after w rule: replacement.induct) auto

lemma region_at:
  assumes "CHR ''#'' \<notin> set u" "CHR ''#'' \<notin> set v" "CHR ''#'' \<notin> set mid" "\<not> has_sub a (CHR ''#'' # u)"
  shows "region_between (CHR ''#'' # u) (CHR ''#'' # v) (a @ (CHR ''#'' # u) @ mid @ (CHR ''#'' # v) @ b) =
    Some (a, (CHR ''#'' # u) @ mid @ (CHR ''#'' # v), b)"
proof -
  have o: "index_of (a @ (CHR ''#'' # u) @ t) (CHR ''#'' # u) = Some (length a)" for t
    using index_of_first [OF assms(1,4)] .
  have c: "index_of (mid @ (CHR ''#'' # v) @ b) (CHR ''#'' # v) = Some (length mid)"
    using index_of_first [OF assms(2) has_sub_none [OF assms(3)]] .
  have "drop (length a + length (CHR ''#'' # u)) (a @ (CHR ''#'' # u) @ mid @ (CHR ''#'' # v) @ b) = mid @ (CHR ''#'' # v) @ b" by simp
  then show ?thesis unfolding region_between_def o Let_def by (simp only: Option.bind.simps c option.map) simp
qed

definition open_words :: "string \<Rightarrow> string" where "open_words pre = tl (exclude_open pre)"
definition close_words :: "string \<Rightarrow> string" where "close_words pre = tl (exclude_close pre)"

lemma exclude_words:
  "exclude_open pre = CHR ''#'' # open_words pre" "exclude_close pre = CHR ''#'' # close_words pre"
  by (simp_all add: exclude_open_def exclude_close_def open_words_def close_words_def)

lemma no_hash_words:
  "CHR ''#'' \<notin> set pre \<Longrightarrow> CHR ''#'' \<notin> set (open_words pre)" "CHR ''#'' \<notin> set pre \<Longrightarrow> CHR ''#'' \<notin> set (close_words pre)"
  by (simp_all add: exclude_open_def exclude_close_def open_words_def close_words_def)

definition between_marks :: "string \<Rightarrow> string" where
  "between_marks pre = concat (map (\<lambda>x. line_feed # x) (exclude_patterns pre)) @ [line_feed]"

lemma block_is: "exclude_block pre = exclude_open pre @ between_marks pre @ exclude_close pre"
  by (simp add: exclude_block_def between_marks_def join_ends)

lemma no_sign_inside:
  "CHR ''#'' \<notin> set pre \<Longrightarrow> CHR ''#'' \<notin> set (between_marks pre)"
  "CHR ''$'' \<notin> set pre \<Longrightarrow> CHR ''$'' \<notin> set (exclude_block pre)"
  by (auto simp: block_is between_marks_def exclude_patterns_def hook_local_ignore_patterns_def newline_char
      exclude_open_def exclude_close_def)

lemma region_of_exclude_block:
  assumes "CHR ''#'' \<notin> set pre" "\<not> has_sub a (exclude_open pre)"
  shows "region_between (exclude_open pre) (exclude_close pre) (a @ exclude_block pre @ b) = Some (a, exclude_block pre, b)"
  using region_at [OF no_hash_words [OF assms(1)] no_sign_inside(1) [OF assms(1)], of a b] assms(2)
  by (simp add: block_is exclude_words)

lemma updated_excludes_shape:
  assumes "CHR ''$'' \<notin> set pre" "line_feed \<notin> set pre"
    and "region_between (exclude_open pre) (exclude_close pre) existing \<noteq> None \<or> \<not> has_sub existing (exclude_open pre)"
  shows "\<exists>a b. updated_excludes pre existing = a @ exclude_block pre @ b \<and> \<not> has_sub a (exclude_open pre)"
proof (cases "region_between (exclude_open pre) (exclude_close pre) existing")
  case (Some r)
  obtain a m b where r: "r = (a, m, b)" by (cases r)
  with Some obtain i where "index_of existing (exclude_open pre) = Some i" "a = take i existing"
    by (auto simp: region_between_def Let_def bind_eq_Some_conv)
  then have "\<not> has_sub a (exclude_open pre)" using index_of_found [of "exclude_open pre"] by (auto simp: exclude_words)
  with Some r replacement_plain [OF no_sign_inside(2) [OF assms(1)]] show ?thesis by (auto simp: updated_excludes_def)
next
  case None
  with assms(3) have no: "\<not> has_sub existing (exclude_open pre)" by simp
  let ?n = "if existing = [] then 0 else (if ends_with existing [line_feed] then 0 else 1) +
    (if ends_with (existing @ (if ends_with existing [line_feed] then [] else [line_feed])) [line_feed, line_feed] then 0 else (1::nat))"
  have "updated_excludes pre existing = (existing @ replicate ?n line_feed) @ exclude_block pre @ [line_feed]"
    using None by (simp add: updated_excludes_def Let_def numeral_2_eq_2)
  moreover have "\<not> has_sub (existing @ replicate n line_feed) (exclude_open pre)" for n
    using no feeds_at_the_end [of "exclude_open pre"] assms(2) by (auto simp: exclude_open_def newline_char)
  ultimately show ?thesis by metis
qed

text \<open>
  Keeping the block is idempotent: the second run finds the block of the directory and changes
  nothing. The name of the directory has no hash, dollar sign or line feed, and the file a whole
  block or no beginning of one.
\<close>

theorem excludes_settle:
  assumes "set pre \<inter> {CHR ''#'', CHR ''$'', line_feed} = {}"
    and "region_between (exclude_open pre) (exclude_close pre) existing \<noteq> None \<or> \<not> has_sub existing (exclude_open pre)"
  shows "updated_excludes pre (updated_excludes pre existing) = updated_excludes pre existing"
proof -
  from assms(1) have n: "CHR ''#'' \<notin> set pre" "CHR ''$'' \<notin> set pre" "line_feed \<notin> set pre" by auto
  obtain a b where u: "updated_excludes pre existing = a @ exclude_block pre @ b" "\<not> has_sub a (exclude_open pre)"
    using updated_excludes_shape [OF n(2,3) assms(2)] by blast
  show ?thesis unfolding u(1)
    using region_of_exclude_block [OF n(1) u(2)] replacement_plain [OF no_sign_inside(2) [OF n(2)]] by (simp add: updated_excludes_def)
qed

text \<open>
  The marks of a directory begin those of every directory whose name goes on: a run for
  \<open>web\<close> takes the block of \<open>web2\<close> for its own and replaces it, and the patterns of
  \<open>web2\<close> are gone until its next run.
\<close>

theorem block_of_a_longer_name_is_replaced:
  assumes "p \<noteq> []" "(set p \<union> set x) \<inter> {CHR ''#'', CHR ''$'', line_feed} = {}"
  shows "updated_excludes p (updated_excludes (p @ x) []) = exclude_block p @ x @ [line_feed]"
proof -
  from assms(2) have n: "CHR ''#'' \<notin> set p" "CHR ''$'' \<notin> set p" "CHR ''#'' \<notin> set (p @ x)" by auto
  have o: "exclude_open (p @ x) = exclude_open p @ x" "exclude_close (p @ x) = exclude_close p @ x"
    using assms(1) by (simp_all add: exclude_open_def exclude_close_def)
  have "index_of [] (exclude_open (p @ x)) = None" by (simp add: exclude_words index_of_def)
  then have "updated_excludes (p @ x) [] = exclude_block (p @ x) @ [line_feed]"
    by (simp add: updated_excludes_def region_between_def)
  then have u: "updated_excludes (p @ x) [] = [] @ exclude_open p @ (x @ between_marks (p @ x)) @ exclude_close p @ x @ [line_feed]"
    by (simp add: block_is o)
  have "CHR ''#'' \<notin> set (x @ between_marks (p @ x))" using no_sign_inside(1) [OF n(3)] n(3) by simp
  from region_at [OF no_hash_words [OF n(1)] this, of "[]" "x @ [line_feed]"]
  have "region_between (exclude_open p) (exclude_close p) (updated_excludes (p @ x) []) =
      Some ([], exclude_open p @ (x @ between_marks (p @ x)) @ exclude_close p, x @ [line_feed])"
    unfolding u exclude_words by simp
  then show ?thesis using replacement_plain [OF no_sign_inside(2) [OF n(2)]] by (simp add: updated_excludes_def [of p "updated_excludes (p @ x) []"])
qed

lemma block_of_a_longer_name_example:
  "updated_excludes ''web'' (updated_excludes ''web2'' []) = exclude_block ''web'' @ ''2'' @ [line_feed]"
  using block_of_a_longer_name_is_replaced [of "''web''" "''2''"] by (simp add: newline_char)

end
