(* ===== verification/Web_Types.thy ===== *)
theory Web_Types
  imports Web_Sort
begin

text \<open>
  The payload of \<open>GET /api/overview\<close> as \<open>web/src/api/types.ts\<close> declares it.
  Statuses, protocols and degrade causes are the strings the wire carries, so a
  value outside the declared unions is representable; a status that names a
  property every JavaScript object inherits (such as \<open>constructor\<close>) is not
  considered. Numbers are exact: counts and ids are integers, rates and
  latencies rationals, and rounding of binary fractions is not modelled.
\<close>

record dot =
  dt_bucket :: ustring
  dt_total :: int
  dt_failures :: int
  dt_p50 :: "rat option"

record overview_entry =
  en_id :: int
  en_model :: ustring
  en_protocol :: ustring
  en_enabled :: bool
  en_status :: string
  en_reason :: ustring
  en_causes :: "string list"
  en_rate :: "rat option"
  en_p50 :: "rat option"
  en_p95 :: "rat option"
  en_last_probe :: "ustring option"
  en_family :: ustring
  en_capability :: ustring
  en_score :: "rat option"
  en_score_reasons :: "ustring list"
  en_dots :: "dot list"
  en_eval_score :: "rat option"
  en_baseline :: "rat option"

definition sample_entry :: "int \<Rightarrow> string \<Rightarrow> string \<Rightarrow> overview_entry" where
  "sample_entry i model status = \<lparr>en_id = i, en_model = ascii model, en_protocol = ascii ''openai'',
     en_enabled = True, en_status = status, en_reason = [], en_causes = [], en_rate = None, en_p50 = None,
     en_p95 = None, en_last_probe = None, en_family = ascii ''f'', en_capability = ascii ''chat'',
     en_score = None, en_score_reasons = [], en_dots = [], en_eval_score = None, en_baseline = None\<rparr>"

section \<open>Grouping in insertion order\<close>

text \<open>
  The idiom \<open>map.get(key)\<close>, \<open>push\<close> or \<open>set(key, [e])\<close> of a \<open>Map\<close> whose
  values are lists: keys in the order of their first element, elements in order.
\<close>

definition bucket_add :: "('a \<Rightarrow> 'k) \<Rightarrow> 'a \<Rightarrow> ('k \<times> 'a list) list \<Rightarrow> ('k \<times> 'a list) list" where
  "bucket_add key e m = (case map_of m (key e) of
     Some es \<Rightarrow> alset (key e) (es @ [e]) m
   | None \<Rightarrow> m @ [(key e, [e])])"

definition buckets :: "('a \<Rightarrow> 'k) \<Rightarrow> 'a list \<Rightarrow> ('k \<times> 'a list) list" where
  "buckets key es = fold (bucket_add key) es []"

lemma map_of_append_fresh: "map_of m k = None \<Longrightarrow> map_of (m @ [(k, v)]) = (map_of m)(k \<mapsto> v)"
  by (simp add: fun_eq_iff map_add_def split: option.split)

lemma map_of_bucket_add:
  "map_of (bucket_add key e m) = (map_of m)(key e \<mapsto> (case map_of m (key e) of None \<Rightarrow> [e] | Some es \<Rightarrow> es @ [e]))"
  by (simp add: bucket_add_def map_of_append_fresh del: map_of_append split: option.split)

lemma distinct_bucket_add: "distinct (map fst m) \<Longrightarrow> distinct (map fst (bucket_add key e m))"
  by (auto simp: bucket_add_def map_of_eq_None_iff split: option.split)

lemma distinct_buckets: "distinct (map fst (buckets key es))"
proof -
  have "distinct (map fst m) \<Longrightarrow> distinct (map fst (fold (bucket_add key) es m))" for m
    by (induction es arbitrary: m) (auto simp: distinct_bucket_add)
  then show ?thesis by (simp add: buckets_def)
qed

lemma map_of_buckets:
  "map_of (buckets key es) k = (if k \<in> key ` set es then Some (filter (\<lambda>e. key e = k) es) else None)"
proof -
  have "map_of (fold (bucket_add key) es m) k =
    (if k \<in> key ` set es then Some ((case map_of m k of None \<Rightarrow> [] | Some xs \<Rightarrow> xs) @ filter (\<lambda>e. key e = k) es)
     else map_of m k)" for m
    by (induction es arbitrary: m) (auto simp: map_of_bucket_add filter_empty_conv eq_commute [of "[]"] image_iff split: option.split)
  then show ?thesis by (simp add: buckets_def)
qed

lemma in_buckets:
  "(k, xs) \<in> set (buckets key es) \<longleftrightarrow> k \<in> key ` set es \<and> xs = filter (\<lambda>e. key e = k) es"
  using map_of_buckets [of key es k] distinct_buckets [of key es]
  by (metis map_of_eq_Some_iff option.distinct(1) option.inject)

lemma keys_buckets: "fst ` set (buckets key es) = key ` set es"
  by (simp add: dom_def map_of_buckets flip: dom_map_of_conv_image_fst)

lemma buckets_partition: "mset (concat (map snd (buckets key es))) = mset es"
proof -
  have add: "mset (concat (map snd (bucket_add key e m))) = add_mset e (mset (concat (map snd m)))" for e m
  proof (cases "map_of m (key e)")
    case (Some xs)
    have "map_of m k = Some xs \<Longrightarrow> mset (concat (map snd (alset k (xs @ [e]) m))) = add_mset e (mset (concat (map snd m)))" for k
      by (induction m) auto
    with Some show ?thesis by (simp add: bucket_add_def)
  qed (simp add: bucket_add_def)
  have "mset (concat (map snd (fold (bucket_add key) es m))) = mset es + mset (concat (map snd m))" for m
    by (induction es arbitrary: m) (simp_all add: add)
  then show ?thesis by (simp add: buckets_def)
qed

end
