(* ===== verification/Severity_Sort.thy ===== *)
theory Severity_Sort
  imports Web_Types
begin

text \<open>
  \<open>web/src/utils/severitySort.ts\<close>: the severity ranks of the status board and
  the sorts of its entries and groups. A rank is \<open>None\<close> where the code reads
  \<open>undefined\<close> (a status outside the table) or computes \<open>NaN\<close>; a comparison that
  yields \<open>NaN\<close> counts as zero.
\<close>

section \<open>Ranks\<close>

definition severity_rank :: "string \<Rightarrow> rat option" where
  "severity_rank s =
    (if s = ''failing'' then Some 0 else if s = ''down'' then Some 1 else if s = ''degraded'' then Some 2
     else if s = ''unverified'' then Some 3 else if s = ''healthy'' then Some 4 else None)"

definition severity_order :: "string list" where
  "severity_order = [''failing'', ''down'', ''degraded'', ''unverified'', ''healthy'']"

definition disabled_rank :: rat where
  "disabled_rank = 5"

definition entry_rank :: "overview_entry \<Rightarrow> rat option" where
  "entry_rank e = (if en_enabled e then severity_rank (en_status e) else Some disabled_rank)"

definition min_rank :: "rat option \<Rightarrow> rat option \<Rightarrow> rat option" where
  \<comment> \<open>\<open>Math.min\<close>, \<open>NaN\<close> when an argument is\<close>
  "min_rank a b = (case (a, b) of (Some x, Some y) \<Rightarrow> Some (min x y) | _ \<Rightarrow> None)"

definition group_rank :: "overview_entry list \<Rightarrow> rat option" where
  "group_rank es = fold (\<lambda>e rank. if en_enabled e then min_rank rank (severity_rank (en_status e)) else rank)
     es (Some disabled_rank)"

definition rank_diff :: "rat option \<Rightarrow> rat option \<Rightarrow> rat" where
  "rank_diff a b = (case (a, b) of (Some x, Some y) \<Rightarrow> x - y | _ \<Rightarrow> 0)"

section \<open>Sorts\<close>

definition tie_cmp :: "overview_entry \<Rightarrow> overview_entry \<Rightarrow> rat" where
  "tie_cmp = then_by (by_text en_model) (then_by (by_text en_protocol) (by_num (\<lambda>e. of_int (en_id e))))"

definition severity_cmp :: "overview_entry \<Rightarrow> overview_entry \<Rightarrow> rat" where
  "severity_cmp a b =
    (if entry_rank a \<noteq> entry_rank b then rank_diff (entry_rank a) (entry_rank b) else tie_cmp a b)"

definition sort_entries_by_severity :: "overview_entry list \<Rightarrow> overview_entry list" where
  "sort_entries_by_severity = js_sort severity_cmp"

record group_section =
  gs_key :: ustring
  gs_entries :: "overview_entry list"

definition section_cmp :: "group_section \<Rightarrow> group_section \<Rightarrow> rat" where
  "section_cmp a b =
    (let ra = group_rank (gs_entries a); rb = group_rank (gs_entries b) in
     if ra = None \<or> rb = None \<or> ra \<noteq> rb then rank_diff ra rb else by_text gs_key a b)"

definition sort_group_sections :: "group_section list \<Rightarrow> group_section list" where
  "sort_group_sections sections =
    js_sort section_cmp (map (\<lambda>s. s\<lparr>gs_entries := sort_entries_by_severity (gs_entries s)\<rparr>) sections)"

section \<open>The comparisons\<close>

definition known :: "overview_entry \<Rightarrow> bool" where
  "known e \<longleftrightarrow> en_status e \<in> set severity_order"

definition rank_of :: "overview_entry \<Rightarrow> rat" where
  "rank_of e = the (entry_rank e)"

lemma severity_rank_simps [simp]:
  "severity_rank ''failing'' = Some 0" "severity_rank ''down'' = Some 1" "severity_rank ''degraded'' = Some 2"
  "severity_rank ''unverified'' = Some 3" "severity_rank ''healthy'' = Some 4"
  by (simp_all add: severity_rank_def)

lemma known_severity: "known e \<Longrightarrow> \<exists>r \<in> {0, 1, 2, 3, 4}. severity_rank (en_status e) = Some r"
  unfolding known_def severity_order_def list.set insert_iff empty_iff by (elim disjE) simp_all

lemma known_rank [simp]: "known e \<Longrightarrow> entry_rank e = Some (rank_of e)"
  using known_severity by (force simp: entry_rank_def rank_of_def)

lemma rank_of_bounds: "known e \<Longrightarrow> 0 \<le> rank_of e \<and> rank_of e \<le> disabled_rank \<and>
    (rank_of e = disabled_rank \<longleftrightarrow> \<not> en_enabled e)"
proof -
  assume "known e"
  then have "\<exists>r \<in> {0, 1, 2, 3, 4}. severity_rank (en_status e) = Some r" by (rule known_severity)
  then show ?thesis by (cases "en_enabled e") (auto simp: rank_of_def entry_rank_def disabled_rank_def simp del: known_rank)
qed

lemma severity_cmp_known:
  "known a \<Longrightarrow> known b \<Longrightarrow> severity_cmp a b = then_by (by_num rank_of) tie_cmp a b"
  by (simp add: severity_cmp_def then_by_def rank_diff_def by_num_def)

lemma comparator_cong:
  assumes "comparator ok d" "\<And>a b. ok a \<Longrightarrow> ok b \<Longrightarrow> c a b = d a b"
  shows "comparator ok c"
proof
  show "sgn (c b a) = - sgn (c a b)" if "ok a" "ok b" for a b
    using comparator.sign [OF assms(1) that] assms(2) that by simp
  show "c a e \<le> 0" if k: "ok a" "ok b" "ok e" and le: "c a b \<le> 0" "c b e \<le> 0" for a b e
    using comparator.trans [OF assms(1) k] le unfolding assms(2) [OF k(1,2)] assms(2) [OF k(2,3)] assms(2) [OF k(1,3)] .
qed

lemma comparator_tie: "comparator ok tie_cmp"
  unfolding tie_cmp_def by (intro comparator_then_by comparator_text comparator_num)

interpretation board: comparator known severity_cmp
proof (rule comparator_cong)
  show "comparator known (then_by (by_num rank_of) tie_cmp)"
    by (intro comparator_then_by comparator_num comparator_tie)
qed (rule severity_cmp_known)

lemma tie_cmp_zero: "tie_cmp a b = 0 \<longleftrightarrow> en_model a = en_model b \<and> en_protocol a = en_protocol b \<and> en_id a = en_id b"
  by (simp add: tie_cmp_def)

lemma severity_cmp_le: "known a \<Longrightarrow> known b \<Longrightarrow> severity_cmp a b \<le> 0 \<Longrightarrow> rank_of a \<le> rank_of b"
  by (auto simp: severity_cmp_known by_num_def dest!: then_by_le)

lemma Min_insert_min: "finite S \<Longrightarrow> Min (insert (min r x) S) = min (x :: rat) (Min (insert r S))"
  by (cases "S = {}") (simp_all add: min.assoc min.left_commute)

text \<open>The rank of a group is the least rank of its enabled entries.\<close>

definition least_rank :: "overview_entry list \<Rightarrow> rat" where
  "least_rank es = Min (insert disabled_rank (rank_of ` set (filter en_enabled es)))"

lemma group_rank_least:
  assumes "list_all known es"
  shows "group_rank es = Some (least_rank es)"
proof -
  have "fold (\<lambda>e rank. if en_enabled e then min_rank rank (severity_rank (en_status e)) else rank) es (Some r)
      = Some (Min (insert r (rank_of ` set (filter en_enabled es))))" for r
    using assms
  proof (induction es arbitrary: r)
    case (Cons e es)
    show ?case
    proof (cases "en_enabled e")
      case True
      with Cons.prems have "severity_rank (en_status e) = Some (rank_of e)"
        using known_rank [of e] by (simp add: entry_rank_def)
      with True Cons show ?thesis
        by (simp add: min_rank_def Min_insert_min insert_commute [of r])
    next
      case False
      with Cons show ?thesis by simp
    qed
  qed simp
  then show ?thesis by (simp add: group_rank_def least_rank_def)
qed

definition known_section :: "group_section \<Rightarrow> bool" where
  "known_section s \<longleftrightarrow> list_all known (gs_entries s)"

lemma section_cmp_known:
  "known_section a \<Longrightarrow> known_section b \<Longrightarrow> section_cmp a b =
    then_by (by_num (\<lambda>s. least_rank (gs_entries s))) (by_text gs_key) a b"
  by (simp add: section_cmp_def known_section_def group_rank_least then_by_def rank_diff_def by_num_def)

interpretation sections: comparator known_section section_cmp
proof (rule comparator_cong)
  show "comparator known_section (then_by (by_num (\<lambda>s. least_rank (gs_entries s))) (by_text gs_key))"
    by (intro comparator_then_by comparator_num comparator_text)
qed (rule section_cmp_known)

lemma sorted_by_rank:
  assumes "list_all known es"
  shows "sorted_wrt (\<lambda>a b. rank_of a \<le> rank_of b) (sort_entries_by_severity es)"
proof (rule sorted_wrt_mono_rel)
  show "sorted_wrt (\<lambda>a b. severity_cmp a b \<le> 0) (sort_entries_by_severity es)"
    unfolding sort_entries_by_severity_def using assms by (rule board.sorted)
  fix a b
  assume "a \<in> set (sort_entries_by_severity es)" "b \<in> set (sort_entries_by_severity es)" "severity_cmp a b \<le> 0"
  then show "rank_of a \<le> rank_of b"
    using assms by (intro severity_cmp_le) (auto simp: sort_entries_by_severity_def list_all_iff)
qed

lemma least_rank_mset: "set es = set es' \<Longrightarrow> least_rank es = least_rank es'"
  by (simp add: least_rank_def)

lemma least_rank_hd:
  assumes "list_all known es" "sorted_wrt (\<lambda>a b. rank_of a \<le> rank_of b) es" "\<exists>e \<in> set es. en_enabled e"
  shows "en_enabled (hd es) \<and> rank_of (hd es) = least_rank es"
proof -
  obtain e es' where es: "es = e # es'" using assms(3) by (cases es) auto
  obtain e' where e': "e' \<in> set es" "en_enabled e'" using assms(3) by blast
  have le: "rank_of e \<le> rank_of x" if "x \<in> set es" for x using assms(2) that es by auto
  have k: "known e" "known e'" using assms(1) es e' by (auto simp: list_all_iff)
  have on: "en_enabled e" using rank_of_bounds [OF k(1)] rank_of_bounds [OF k(2)] le [OF e'(1)] e'(2) by linarith
  moreover have "least_rank es = rank_of e"
    unfolding least_rank_def using es on le rank_of_bounds [OF k(1)] by (intro Min_eqI) auto
  ultimately show ?thesis using es by simp
qed

section \<open>Properties\<close>

text \<open>
  The board leads with the most severe entries: sorting keeps exactly the
  entries it is given, puts them in the order of their severity ranks, a disabled
  entry never before an enabled one, and the result does not depend on the order
  in which the server sent them.
\<close>

theorem severity_sort_correct:
  assumes "list_all known es" and "distinct (map en_id es)"
  shows "mset (sort_entries_by_severity es) = mset es \<and>
    sorted_wrt (\<lambda>a b. rank_of a \<le> rank_of b \<and> (en_enabled b \<longrightarrow> en_enabled a)) (sort_entries_by_severity es) \<and>
    (\<forall>es'. mset es' = mset es \<longrightarrow> sort_entries_by_severity es' = sort_entries_by_severity es)"
proof (intro conjI allI impI)
  have k: "x \<in> set (sort_entries_by_severity es) \<Longrightarrow> known x" for x
    using assms(1) by (simp add: sort_entries_by_severity_def list_all_iff)
  show "sorted_wrt (\<lambda>a b. rank_of a \<le> rank_of b \<and> (en_enabled b \<longrightarrow> en_enabled a)) (sort_entries_by_severity es)"
    using sorted_by_rank [OF assms(1)]
  proof (rule sorted_wrt_mono_rel [rotated])
    fix a b
    assume "a \<in> set (sort_entries_by_severity es)" "b \<in> set (sort_entries_by_severity es)" "rank_of a \<le> rank_of b"
    then show "rank_of a \<le> rank_of b \<and> (en_enabled b \<longrightarrow> en_enabled a)"
      using rank_of_bounds [OF k, of a] rank_of_bounds [OF k, of b] by auto
  qed
  fix es'
  assume m: "mset es' = mset es"
  show "sort_entries_by_severity es' = sort_entries_by_severity es"
    unfolding sort_entries_by_severity_def
  proof (rule board.order_free [symmetric, OF assms(1)])
    show "mset es = mset es'" using m by simp
    show "a = b" if "a \<in> set es" "b \<in> set es" "severity_cmp a b = 0" for a b
      using that assms by (auto simp: severity_cmp_known list_all_iff tie_cmp_zero distinct_map dest: inj_onD)
  qed
qed (simp add: sort_entries_by_severity_def)

definition sample_board :: "overview_entry list" where
  "sample_board = [sample_entry 1 ''a'' ''healthy'', (sample_entry 2 ''b'' ''failing'')\<lparr>en_enabled := False\<rparr>,
     sample_entry 3 ''c'' ''down'']"

lemma sample_board_known: "list_all known sample_board" "distinct (map en_id sample_board)"
  by (simp_all add: sample_board_def sample_entry_def known_def severity_order_def)

theorem severity_sort_correct_witness:
  "sort_entries_by_severity (rev sample_board) = sort_entries_by_severity sample_board \<and>
   map en_id (sort_entries_by_severity sample_board) = [3, 1, 2]"
proof -
  have "map en_id (sort_entries_by_severity sample_board) = [3, 1, 2]" by code_simp
  moreover have "sort_entries_by_severity (rev sample_board) = sort_entries_by_severity sample_board"
    by (rule severity_sort_correct [OF sample_board_known, THEN conjunct2, THEN conjunct2, rule_format]) simp
  ultimately show ?thesis by blast
qed

text \<open>
  Groups follow their most severe enabled entry: sorting the sections keeps
  the groups, each with the same entries in the order of severity, and puts them
  in the order of the least rank of their enabled entries; when any enabled entry
  of the board is failing, the first entry of the first section is.
\<close>

theorem group_sections_lead_with_failures:
  assumes "\<forall>s \<in> set sections. list_all known (gs_entries s)"
  shows "mset (sort_group_sections sections) =
      mset (map (\<lambda>s. s\<lparr>gs_entries := sort_entries_by_severity (gs_entries s)\<rparr>) sections) \<and>
    sorted_wrt (\<lambda>a b. least_rank (gs_entries a) \<le> least_rank (gs_entries b)) (sort_group_sections sections) \<and>
    ((\<exists>s \<in> set sections. \<exists>e \<in> set (gs_entries s). en_enabled e \<and> en_status e = ''failing'') \<longrightarrow>
      (let first = hd (gs_entries (hd (sort_group_sections sections)))
       in en_enabled first \<and> en_status first = ''failing''))"
proof (intro conjI impI)
  let ?f = "\<lambda>s. s\<lparr>gs_entries := sort_entries_by_severity (gs_entries s)\<rparr>"
  let ?out = "sort_group_sections sections"
  show m: "mset ?out = mset (map ?f sections)" by (simp add: sort_group_sections_def)
  have mem: "s \<in> set ?out \<longleftrightarrow> s \<in> ?f ` set sections" for s using mset_eq_setD [OF m] by simp
  have known: "s \<in> set ?out \<Longrightarrow> list_all known (gs_entries s)" for s
    using assms by (auto simp: mem sort_entries_by_severity_def list_all_iff)
  have sec: "list_all known_section (map ?f sections)"
    using assms by (auto simp: list_all_iff known_section_def sort_entries_by_severity_def)
  show sorted: "sorted_wrt (\<lambda>a b. least_rank (gs_entries a) \<le> least_rank (gs_entries b)) ?out"
    using sections.sorted [OF sec] unfolding sort_group_sections_def
  proof (rule sorted_wrt_mono_rel [rotated])
    fix a b
    assume "a \<in> set (js_sort section_cmp (map ?f sections))" "b \<in> set (js_sort section_cmp (map ?f sections))"
      "section_cmp a b \<le> 0"
    then have "known_section a" "known_section b" "section_cmp a b \<le> 0" using sec by (auto simp: list_all_iff)
    then show "least_rank (gs_entries a) \<le> least_rank (gs_entries b)"
      by (auto simp: section_cmp_known by_num_def dest!: then_by_le)
  qed
  assume "\<exists>s \<in> set sections. \<exists>e \<in> set (gs_entries s). en_enabled e \<and> en_status e = ''failing''"
  then obtain s e where se: "s \<in> set sections" "e \<in> set (gs_entries s)" "en_enabled e" "en_status e = ''failing''"
    by blast
  have e0: "rank_of e = 0" using se by (simp add: rank_of_def entry_rank_def)
  have s: "?f s \<in> set ?out" "e \<in> set (gs_entries (?f s))" using se by (auto simp: mem sort_entries_by_severity_def)
  obtain t ts where out: "?out = t # ts" using s(1) by (cases ?out) auto
  have le: "least_rank (gs_entries t) \<le> least_rank (gs_entries (?f s))" using sorted s(1) unfolding out by auto
  have "least_rank (gs_entries (?f s)) \<le> 0"
    unfolding least_rank_def using s(2) se(3) e0 by (intro Min_le) force+
  with le have t0: "least_rank (gs_entries t) \<le> 0" by simp
  have kt: "list_all known (gs_entries t)" using known out by simp
  have "least_rank (gs_entries t) \<in> insert disabled_rank (rank_of ` set (filter en_enabled (gs_entries t)))"
    unfolding least_rank_def by (intro Min_in) auto
  with t0 have on: "\<exists>x \<in> set (gs_entries t). en_enabled x" by (auto simp: disabled_rank_def)
  have st: "sorted_wrt (\<lambda>a b. rank_of a \<le> rank_of b) (gs_entries t)"
  proof -
    obtain s' where "s' \<in> set sections" "t = ?f s'" using mem [of t] out by auto
    with assms sorted_by_rank show ?thesis by simp
  qed
  note first = least_rank_hd [OF kt st on]
  have kh: "known (hd (gs_entries t))" using kt on by (cases "gs_entries t") auto
  then have "rank_of (hd (gs_entries t)) = 0" using first t0 rank_of_bounds [OF kh] by simp
  then have "en_status (hd (gs_entries t)) = ''failing''"
    using first kh by (auto simp: known_def severity_order_def rank_of_def entry_rank_def)
  with first out show "let first = hd (gs_entries (hd ?out)) in en_enabled first \<and> en_status first = ''failing''"
    by simp
qed

theorem group_sections_lead_with_failures_witness:
  "en_status (hd (gs_entries (hd (sort_group_sections
     [\<lparr>gs_key = ascii ''a'', gs_entries = sample_board\<rparr>,
      \<lparr>gs_key = ascii ''b'', gs_entries = [sample_entry 4 ''d'' ''healthy'', sample_entry 5 ''e'' ''failing'']\<rparr>])))) = ''failing''"
proof -
  let ?other = "[sample_entry 4 ''d'' ''healthy'', sample_entry 5 ''e'' ''failing'']"
  let ?ss = "[\<lparr>gs_key = ascii ''a'', gs_entries = sample_board\<rparr>, \<lparr>gs_key = ascii ''b'', gs_entries = ?other\<rparr>]"
  have other: "list_all known ?other" by (simp add: sample_entry_def known_def severity_order_def)
  have k: "\<forall>s \<in> set ?ss. list_all known (gs_entries s)" using other sample_board_known(1) by simp
  have "\<exists>e \<in> set ?other. en_enabled e \<and> en_status e = ''failing''" by (simp add: sample_entry_def)
  then have "\<exists>s \<in> set ?ss. \<exists>e \<in> set (gs_entries s). en_enabled e \<and> en_status e = ''failing''" by simp
  with group_sections_lead_with_failures [OF k] show ?thesis unfolding Let_def by blast
qed

end
