(* ===== verification/Web_Format.thy ===== *)
theory Web_Format
  imports Web_Types Js_Value
begin

text \<open>
  \<open>web/src/utils/format.ts\<close>: how the client renders numbers, durations and
  times. \<open>null\<close> is \<open>None\<close>. The standard library's date functions are the
  \<open>zone\<close>: parsing a timestamp to milliseconds, the local date and time of a
  moment, the moment of a local midnight (year, month from zero, day, with days out
  of range carried over) and the weekday of a moment. The Chinese words are lists of UTF-16 code units.
\<close>

section \<open>Digits\<close>

definition dec :: "int \<Rightarrow> ustring" where
  \<comment> \<open>\<open>String(n)\<close> of an integer\<close>
  "dec n = ascii (int_str n)"

definition pad_start :: "nat \<Rightarrow> ustring \<Rightarrow> ustring" where
  \<comment> \<open>\<open>s.padStart(n, '0')\<close>\<close>
  "pad_start n s = replicate (n - length s) 0x30 @ s"

definition js_round :: "rat \<Rightarrow> int" where
  \<comment> \<open>\<open>Math.round\<close>\<close>
  "js_round q = \<lfloor>q + 1 / 2\<rfloor>"

definition to_fixed :: "nat \<Rightarrow> rat \<Rightarrow> ustring" where
  \<comment> \<open>\<open>q.toFixed(d)\<close> for positive \<open>d\<close>: the nearest multiple of the last place, ties away from zero\<close>
  "to_fixed d q =
    (let n = nat \<lfloor>\<bar>q\<bar> * 10 ^ d + 1 / 2\<rfloor>
     in (if q < 0 then ascii ''-'' else []) @ ascii (nat_str (n div 10 ^ d)) @ ascii ''.'' @
        pad_start d (ascii (nat_str (n mod 10 ^ d))))"

section \<open>Times\<close>

record civil =
  cv_year :: int
  cv_month :: int
  cv_day :: int
  cv_hour :: int
  cv_minute :: int
  cv_second :: int

record zone =
  zn_parse :: "ustring \<Rightarrow> rat option"
  zn_local :: "rat \<Rightarrow> civil"
  zn_date :: "int \<Rightarrow> int \<Rightarrow> int \<Rightarrow> rat"
  zn_weekday :: "rat \<Rightarrow> int"

definition pad2 :: "int \<Rightarrow> ustring" where
  "pad2 n = pad_start 2 (dec n)"

definition local_parts :: "zone \<Rightarrow> ustring option \<Rightarrow> civil option" where
  "local_parts z v = (case v of None \<Rightarrow> None
     | Some s \<Rightarrow> if s = [] then None else map_option (zn_local z) (zn_parse z s))"

definition with_parts :: "zone \<Rightarrow> ustring option \<Rightarrow> (civil \<Rightarrow> ustring) \<Rightarrow> ustring" where
  \<comment> \<open>the shared shape: a dash without a value, the value itself when it does not parse\<close>
  "with_parts z v f = (case v of None \<Rightarrow> ascii ''-''
     | Some s \<Rightarrow> if s = [] then ascii ''-''
         else case local_parts z v of None \<Rightarrow> s | Some p \<Rightarrow> f p)"

definition format_time :: "zone \<Rightarrow> ustring option \<Rightarrow> ustring" where
  "format_time z v = with_parts z v (\<lambda>p. dec (cv_year p) @ ascii ''-'' @ pad2 (cv_month p) @ ascii ''-'' @
     pad2 (cv_day p) @ ascii '' '' @ pad2 (cv_hour p) @ ascii '':'' @ pad2 (cv_minute p) @ ascii '':'' @ pad2 (cv_second p))"

definition format_time_minute :: "zone \<Rightarrow> ustring option \<Rightarrow> ustring" where
  "format_time_minute z v = with_parts z v (\<lambda>p. dec (cv_year p) @ ascii ''-'' @ pad2 (cv_month p) @ ascii ''-'' @
     pad2 (cv_day p) @ ascii '' '' @ pad2 (cv_hour p) @ ascii '':'' @ pad2 (cv_minute p))"

definition format_clock_time :: "zone \<Rightarrow> ustring option \<Rightarrow> ustring" where
  "format_clock_time z v = with_parts z v (\<lambda>p.
     pad2 (cv_hour p) @ ascii '':'' @ pad2 (cv_minute p) @ ascii '':'' @ pad2 (cv_second p))"

definition format_clock_minute :: "zone \<Rightarrow> ustring option \<Rightarrow> ustring" where
  "format_clock_minute z v = with_parts z v (\<lambda>p. pad2 (cv_hour p) @ ascii '':'' @ pad2 (cv_minute p))"

definition format_bucket_time :: "zone \<Rightarrow> ustring \<Rightarrow> ustring" where
  "format_bucket_time z v = (case zn_parse z v of None \<Rightarrow> v
     | Some t \<Rightarrow> let p = zn_local z t in
         pad2 (cv_month p) @ ascii ''-'' @ pad2 (cv_day p) @ ascii '' '' @ pad2 (cv_hour p) @ ascii '':00'')"

definition format_hour :: "int \<Rightarrow> ustring" where
  "format_hour h = pad2 h @ ascii '':00''"

section \<open>Numbers\<close>

definition dash_or :: "('a \<Rightarrow> ustring) \<Rightarrow> 'a option \<Rightarrow> ustring" where
  "dash_or f v = (case v of None \<Rightarrow> ascii ''-'' | Some x \<Rightarrow> f x)"

definition format_metric :: "rat option \<Rightarrow> ustring" where
  "format_metric = dash_or (\<lambda>q. ascii (num_str q))"

definition format_percent :: "rat option \<Rightarrow> ustring" where
  "format_percent = dash_or (\<lambda>q. to_fixed 1 (q * 100) @ ascii ''%'')"

definition format_percent_digits :: "rat option \<Rightarrow> ustring" where
  "format_percent_digits = dash_or (\<lambda>q. to_fixed 1 (q * 100))"

definition format_score :: "rat option \<Rightarrow> ustring" where
  "format_score = dash_or (to_fixed 1)"

definition format_score_delta :: "rat option \<Rightarrow> ustring" where
  "format_score_delta = dash_or (\<lambda>q. (if q > 0 then ascii ''+'' else []) @ to_fixed 1 q)"

definition format_ms :: "rat option \<Rightarrow> ustring" where
  "format_ms = dash_or (\<lambda>q. if q < 1000 then dec (js_round q) @ ascii ''ms'' else to_fixed 2 (q / 1000) @ ascii ''s'')"

definition word_minutes :: ustring where
  \<comment> \<open>minutes, with spaces\<close>
  "word_minutes = (ascii '' '' @ [0x5206] @ ascii '' '')"

definition word_seconds :: ustring where
  "word_seconds = (ascii '' '' @ [0x79D2])"

definition word_hours :: ustring where
  "word_hours = (ascii '' '' @ [0x5C0F, 0x65F6] @ ascii '' '')"

definition word_minutes_end :: ustring where
  "word_minutes_end = (ascii '' '' @ [0x5206])"

definition rat_mod :: "rat \<Rightarrow> int \<Rightarrow> rat" where
  \<comment> \<open>\<open>q % n\<close> for a non-negative number\<close>
  "rat_mod q n = q - of_int (n * \<lfloor>q / of_int n\<rfloor>)"

definition minute_parts :: "rat \<Rightarrow> int \<times> int" where
  \<comment> \<open>the minutes and seconds shown\<close>
  "minute_parts seconds = (\<lfloor>seconds / 60\<rfloor>, js_round (rat_mod seconds 60))"

definition hour_parts :: "rat \<Rightarrow> int \<times> int" where
  \<comment> \<open>the hours and minutes shown\<close>
  "hour_parts seconds = (\<lfloor>seconds / 3600\<rfloor>, js_round (rat_mod seconds 3600 / 60))"

definition format_duration :: "rat option \<Rightarrow> ustring" where
  "format_duration = dash_or (\<lambda>ms. let seconds = ms / 1000 in
     if seconds < 60 then to_fixed 1 seconds @ ascii ''s''
     else if seconds < 3600
     then (let (m, s) = minute_parts seconds in dec m @ word_minutes @ dec s @ word_seconds)
     else (let (h, m) = hour_parts seconds in dec h @ word_hours @ dec m @ word_minutes_end))"

definition format_tokens :: "rat option \<Rightarrow> ustring" where
  "format_tokens = dash_or (\<lambda>q. if q < 1000 then ascii (num_str q)
     else if q < 1000000 then to_fixed 1 (q / 1000) @ ascii ''k'' else to_fixed 1 (q / 1000000) @ ascii ''M'')"

definition format_count :: "rat option \<Rightarrow> ustring" where
  "format_count = dash_or (\<lambda>q. if q < 1000 then dec (js_round q)
     else if q < 1000000 then to_fixed 1 (q / 1000) @ ascii ''k'' else to_fixed 1 (q / 1000000) @ ascii ''M'')"

section \<open>Facts\<close>

lemma js_round_near: "of_int (js_round q) - 1 / 2 \<le> q \<and> q < of_int (js_round q) + 1 / 2"
  unfolding js_round_def by linarith

lemma rat_mod_bounds:
  assumes "0 < n"
  shows "0 \<le> rat_mod q n \<and> rat_mod q n < of_int n"
proof -
  have p: "(0 :: rat) < of_int n" using assms by simp
  have "of_int \<lfloor>q / of_int n\<rfloor> \<le> q / of_int n" "q / of_int n < of_int \<lfloor>q / of_int n\<rfloor> + 1" by linarith+
  then have "of_int \<lfloor>q / of_int n\<rfloor> * of_int n \<le> q" "q < (of_int \<lfloor>q / of_int n\<rfloor> + 1) * of_int n"
    using p by (simp_all only: pos_le_divide_eq pos_divide_less_eq)
  moreover have "rat_mod q n = q - of_int \<lfloor>q / of_int n\<rfloor> * of_int n" by (simp add: rat_mod_def mult.commute)
  moreover have "(of_int \<lfloor>q / of_int n\<rfloor> + 1) * of_int n = of_int \<lfloor>q / of_int n\<rfloor> * of_int n + (of_int n :: rat)"
    by (simp only: distrib_right mult_1_left)
  ultimately show ?thesis by linarith
qed

lemma rat_mod_split: "q = of_int (n * \<lfloor>q / of_int n\<rfloor>) + rat_mod q n"
  by (simp add: rat_mod_def)

lemma shown_parts_near:
  fixes q f r s u v :: rat
  assumes "q = f + r" "s - 1 / 2 \<le> r / v" "r / v < s + 1 / 2" "0 < v"
  shows "\<bar>(f + v * s) - q\<bar> \<le> v / 2"
proof -
  have "(s - 1 / 2) * v \<le> r" "r < (s + 1 / 2) * v" using assms(2-4) by (simp_all only: pos_le_divide_eq pos_divide_less_eq)
  then have "v * s - r \<le> v / 2" "r - v * s \<le> v / 2" by (simp_all add: algebra_simps)
  moreover have "(f + v * s) - q = v * s - r" using assms(1) by simp
  ultimately show ?thesis by (metis abs_le_iff minus_diff_eq)
qed

section \<open>Properties\<close>

text \<open>
  A duration between one minute and one hour is shown as minutes and seconds
  that differ from it by at most half a second; the seconds shown lie between 0
  and 60, and 60 is shown for the last half second of every minute. Likewise for
  hours and minutes.
\<close>

theorem duration_parts_bounds:
  "case minute_parts q of (m, s) \<Rightarrow>
     \<bar>of_int (60 * m + s) - q\<bar> \<le> 1 / 2 \<and> 0 \<le> s \<and> s \<le> 60 \<and> (s = 60 \<longleftrightarrow> rat_mod q 60 \<ge> 119 / 2) \<and>
   (case hour_parts q of (h, mm) \<Rightarrow>
     \<bar>of_int (3600 * h + 60 * mm) - q\<bar> \<le> 30 \<and> 0 \<le> mm \<and> mm \<le> 60 \<and> (mm = 60 \<longleftrightarrow> rat_mod q 3600 \<ge> 3570))"
proof -
  have r: "0 \<le> rat_mod q 60" "rat_mod q 60 < 60" "0 \<le> rat_mod q 3600" "rat_mod q 3600 < 3600"
    using rat_mod_bounds [of 60 q] rat_mod_bounds [of 3600 q] by simp_all
  have s: "0 \<le> js_round (rat_mod q 60)" "js_round (rat_mod q 60) \<le> 60"
      "js_round (rat_mod q 60) = 60 \<longleftrightarrow> rat_mod q 60 \<ge> 119 / 2"
    using r unfolding js_round_def by linarith+
  have m: "0 \<le> js_round (rat_mod q 3600 / 60)" "js_round (rat_mod q 3600 / 60) \<le> 60"
      "js_round (rat_mod q 3600 / 60) = 60 \<longleftrightarrow> rat_mod q 3600 \<ge> 3570"
    using r unfolding js_round_def by linarith+
  have "\<bar>of_int (60 * \<lfloor>q / 60\<rfloor> + js_round (rat_mod q 60)) - q\<bar> \<le> 1 / 2"
    using shown_parts_near [OF rat_mod_split [of q 60], of "of_int (js_round (rat_mod q 60))" 1]
      js_round_near [of "rat_mod q 60"] by simp
  moreover have "\<bar>of_int (3600 * \<lfloor>q / 3600\<rfloor> + 60 * js_round (rat_mod q 3600 / 60)) - q\<bar> \<le> 30"
    using shown_parts_near [OF rat_mod_split [of q 3600], of "of_int (js_round (rat_mod q 3600 / 60))" 60]
      js_round_near [of "rat_mod q 3600 / 60"] by simp
  ultimately show ?thesis
    using s m unfolding minute_parts_def hour_parts_def case_prod_conv by blast
qed

end
