(* ===== verification/Status_Display.thy ===== *)
theory Status_Display
  imports Severity_Sort Web_Format
begin

text \<open>
  The status vocabulary of the web client and what it concludes from a list of
  entries: \<open>statusDisplay.ts\<close> and \<open>degradeCauses.ts\<close> (domain status to display
  state), \<open>healthConclusion.ts\<close> (counts, tone, sentence, chips), and the
  per-model counts of \<open>overviewMetrics.ts\<close>.
\<close>

section \<open>Display states\<close>

datatype display_status = Stable | Degraded | Incident | Unverified
datatype display_tone = Tone_Success | Tone_Warning | Tone_Danger | Tone_Neutral

record status_display =
  sd_status :: display_status
  sd_label :: ustring
  sd_tone :: display_tone
  sd_cause_suffix :: ustring

definition degrade_cause_label :: "string \<Rightarrow> ustring" where
  \<comment> \<open>\<open>DEGRADE_CAUSE_LABELS[c]\<close>; a word outside the union joins as the empty text\<close>
  "degrade_cause_label c = (if c = ''availability'' then [0x53EF, 0x7528, 0x6027]
     else if c = ''latency'' then [0x5EF6, 0x8FDF] else [])"

fun join_texts :: "ustring \<Rightarrow> ustring list \<Rightarrow> ustring" where
  \<comment> \<open>\<open>xs.join(sep)\<close>\<close>
  "join_texts sep [] = []"
| "join_texts sep [x] = x"
| "join_texts sep (x # y # ys) = x @ sep @ join_texts sep (y # ys)"

definition degrade_cause_suffix :: "string list \<Rightarrow> ustring" where
  "degrade_cause_suffix causes = (if causes = [] then []
     else ([0x00B7] @ ascii '' '') @ join_texts (ascii '' + '') (map degrade_cause_label causes))"

definition display_info :: "display_status \<Rightarrow> ustring \<times> display_tone" where
  "display_info d = (case d of
     Stable \<Rightarrow> ([0x7A33, 0x5B9A], Tone_Success)
   | Degraded \<Rightarrow> ([0x964D, 0x7EA7], Tone_Warning)
   | Incident \<Rightarrow> ([0x5F02, 0x5E38], Tone_Danger)
   | Unverified \<Rightarrow> ([0x672A, 0x9A8C, 0x8BC1], Tone_Neutral))"

definition domain_to_display :: "string \<Rightarrow> display_status option" where
  "domain_to_display s =
    (if s = ''healthy'' then Some Stable else if s = ''degraded'' then Some Degraded
     else if s = ''down'' then Some Incident else if s = ''failing'' then Some Incident
     else if s = ''unverified'' then Some Unverified else None)"

definition display_of_name :: "string \<Rightarrow> display_status option" where
  "display_of_name s =
    (if s = ''stable'' then Some Stable else if s = ''degraded'' then Some Degraded
     else if s = ''incident'' then Some Incident else if s = ''unverified'' then Some Unverified else None)"

definition unknown_display :: status_display where
  "unknown_display = \<lparr>sd_status = Degraded, sd_label = [0x672A, 0x77E5], sd_tone = Tone_Warning, sd_cause_suffix = []\<rparr>"

definition display_severity_order :: "display_status list" where
  "display_severity_order = [Incident, Degraded, Unverified, Stable]"

definition to_display_status :: "string \<Rightarrow> display_status option" where
  "to_display_status s = (case domain_to_display s of Some d \<Rightarrow> Some d | None \<Rightarrow> display_of_name s)"

definition status_display_of :: "string \<Rightarrow> string list \<Rightarrow> status_display" where
  "status_display_of status causes = (case to_display_status status of
     None \<Rightarrow> unknown_display
   | Some d \<Rightarrow> \<lparr>sd_status = d, sd_label = fst (display_info d), sd_tone = snd (display_info d),
       sd_cause_suffix = (if d = Degraded \<and> causes \<noteq> [] then degrade_cause_suffix causes else [])\<rparr>)"

definition status_label :: "string \<Rightarrow> ustring" where
  "status_label s = sd_label (status_display_of s [])"

definition status_tone :: "string \<Rightarrow> display_tone" where
  "status_tone s = sd_tone (status_display_of s [])"

section \<open>Counts by status\<close>

record health_counts =
  hc_healthy :: int
  hc_degraded :: int
  hc_down :: int
  hc_failing :: int
  hc_unverified :: int

definition empty_health_counts :: health_counts where
  "empty_health_counts = \<lparr>hc_healthy = 0, hc_degraded = 0, hc_down = 0, hc_failing = 0, hc_unverified = 0\<rparr>"

definition count_one :: "overview_entry \<Rightarrow> health_counts \<Rightarrow> health_counts" where
  \<comment> \<open>\<open>if (entry.status in counts) counts[entry.status] += 1\<close>\<close>
  "count_one e c =
    (if en_status e = ''healthy'' then c\<lparr>hc_healthy := hc_healthy c + 1\<rparr>
     else if en_status e = ''degraded'' then c\<lparr>hc_degraded := hc_degraded c + 1\<rparr>
     else if en_status e = ''down'' then c\<lparr>hc_down := hc_down c + 1\<rparr>
     else if en_status e = ''failing'' then c\<lparr>hc_failing := hc_failing c + 1\<rparr>
     else if en_status e = ''unverified'' then c\<lparr>hc_unverified := hc_unverified c + 1\<rparr> else c)"

definition count_by_status :: "overview_entry list \<Rightarrow> health_counts" where
  "count_by_status es = fold count_one es empty_health_counts"

definition display_status_counts :: "health_counts \<Rightarrow> display_status \<Rightarrow> int" where
  "display_status_counts c d = (case d of Stable \<Rightarrow> hc_healthy c | Degraded \<Rightarrow> hc_degraded c
     | Unverified \<Rightarrow> hc_unverified c | Incident \<Rightarrow> hc_down c + hc_failing c)"

datatype health_tone = Ht_Healthy | Ht_Degraded | Ht_Abnormal | Ht_Neutral

definition tone_of :: "health_counts \<Rightarrow> health_tone" where
  "tone_of c = (if hc_down c + hc_failing c > 0 then Ht_Abnormal
     else if hc_degraded c > 0 then Ht_Degraded else Ht_Healthy)"

definition conclusion_text :: "health_tone \<Rightarrow> health_counts \<Rightarrow> bool \<Rightarrow> ustring" where
  "conclusion_text tone c emp =
    (if emp then [0x6682, 0x65E0, 0x6570, 0x636E]
     else if tone = Ht_Abnormal then dec (hc_down c + hc_failing c) @ (ascii '' '' @ [0x4E2A, 0x7AEF, 0x70B9]) @ status_label ''incident''
     else if tone = Ht_Degraded then dec (hc_degraded c) @ (ascii '' '' @ [0x4E2A, 0x7AEF, 0x70B9]) @ status_label ''degraded''
     else [0x5168, 0x90E8] @ status_label ''stable'')"

definition unverified_note :: "health_counts \<Rightarrow> ustring option" where
  "unverified_note c = (if hc_unverified c \<le> 0 then None
     else Some (dec (hc_unverified c) @ (ascii '' '' @ [0x4E2A]) @ status_label ''unverified''))"

definition verdict_unverified_note :: "health_tone \<Rightarrow> health_counts \<Rightarrow> ustring option" where
  "verdict_unverified_note tone c = (if tone = Ht_Healthy then unverified_note c else None)"

section \<open>Chips of the abnormal endpoints\<close>

definition max_abnormal_chips :: nat where
  "max_abnormal_chips = 5"

record abnormal_chip =
  ch_id :: int
  ch_model :: ustring
  ch_protocol :: ustring
  ch_status :: string

definition chip_of :: "overview_entry \<Rightarrow> abnormal_chip" where
  "chip_of e = \<lparr>ch_id = en_id e, ch_model = en_model e, ch_protocol = en_protocol e, ch_status = en_status e\<rparr>"

definition is_abnormal :: "overview_entry \<Rightarrow> bool" where
  "is_abnormal e \<longleftrightarrow> to_display_status (en_status e) = Some Incident \<or> to_display_status (en_status e) = Some Degraded"

definition abnormal_entries :: "overview_entry list \<Rightarrow> overview_entry list" where
  "abnormal_entries es = sort_entries_by_severity (filter is_abnormal es)"

definition abnormal_chips :: "overview_entry list \<Rightarrow> abnormal_chip list \<times> int" where
  \<comment> \<open>the chips and the overflow count\<close>
  "abnormal_chips es = (let ab = abnormal_entries es in
     (map chip_of (take max_abnormal_chips ab), max 0 (int (length ab) - int max_abnormal_chips)))"

section \<open>Models at risk\<close>

record abnormal_counts =
  ac_incident :: int
  ac_degraded :: int
  ac_unverified :: int
  ac_total :: int

definition worst_step :: "overview_entry \<Rightarrow> (ustring \<times> display_status) list \<Rightarrow> (ustring \<times> display_status) list" where
  \<comment> \<open>one turn of the loop over the entries\<close>
  "worst_step e m =
    (if \<not> en_enabled e then m
     else case to_display_status (en_status e) of None \<Rightarrow> m
       | Some d \<Rightarrow> if d = Stable then m
           else let cur = map_of m (en_model e) in
             if cur = Some Incident then m
             else if d = Incident \<or> cur = None then alset (en_model e) d m
             else if d = Degraded \<and> cur = Some Unverified then alset (en_model e) d m else m)"

definition abnormal_model_counts :: "overview_entry list \<Rightarrow> abnormal_counts" where
  "abnormal_model_counts es =
    (let ds = map snd (fold worst_step es []);
         i = int (length (filter (\<lambda>d. d = Incident) ds));
         g = int (length (filter (\<lambda>d. d = Degraded) ds));
         u = int (length (filter (\<lambda>d. d \<noteq> Incident \<and> d \<noteq> Degraded) ds))
     in \<lparr>ac_incident = i, ac_degraded = g, ac_unverified = u, ac_total = i + g\<rparr>)"

section \<open>Facts\<close>

lemma display_counts_add:
  "display_status_counts (fold count_one es c) d =
   display_status_counts c d + int (length (filter (\<lambda>e. domain_to_display (en_status e) = Some d) es))"
proof (induction es arbitrary: c)
  case (Cons e es)
  have "display_status_counts (count_one e c) d =
    display_status_counts c d + (if domain_to_display (en_status e) = Some d then 1 else 0)"
    by (cases d) (simp_all add: display_status_counts_def count_one_def domain_to_display_def)
  with Cons.IH [of "count_one e c"] show ?case by simp
qed simp

lemma display_counts_of:
  "display_status_counts (count_by_status es) d =
   int (length (filter (\<lambda>e. domain_to_display (en_status e) = Some d) es))"
proof -
  have "display_status_counts empty_health_counts d = 0"
    by (simp add: display_status_counts_def empty_health_counts_def split: display_status.split)
  then show ?thesis by (simp add: count_by_status_def display_counts_add)
qed

lemma filter_pos: "0 < int (length (filter P xs)) \<longleftrightarrow> list_ex P xs"
  by (induction xs) auto

lemma tone_of_counts:
  "tone_of (count_by_status es) =
    (if list_ex (\<lambda>e. domain_to_display (en_status e) = Some Incident) es then Ht_Abnormal
     else if list_ex (\<lambda>e. domain_to_display (en_status e) = Some Degraded) es then Ht_Degraded else Ht_Healthy)"
proof -
  have "hc_down c + hc_failing c = display_status_counts c Incident" "hc_degraded c = display_status_counts c Degraded" for c
    by (simp_all add: display_status_counts_def)
  then show ?thesis by (simp only: tone_of_def display_counts_of filter_pos)
qed

lemma abnormal_rank: "known e \<Longrightarrow> is_abnormal e \<longleftrightarrow> the (severity_rank (en_status e)) \<le> 2"
  by (auto simp: known_def severity_order_def is_abnormal_def to_display_status_def domain_to_display_def)

lemma abnormal_entries_sorted:
  assumes "list_all known es" "list_all en_enabled es"
  shows "sorted_wrt (\<lambda>a b. the (severity_rank (en_status a)) \<le> the (severity_rank (en_status b))) (abnormal_entries es)"
proof -
  have k: "list_all known (filter is_abnormal es)" using assms(1) by (simp add: list_all_iff)
  have s: "set (abnormal_entries es) \<subseteq> set es" by (auto simp: abnormal_entries_def sort_entries_by_severity_def)
  show ?thesis
    unfolding abnormal_entries_def sort_entries_by_severity_def
  proof (rule sorted_wrt_mono_rel [OF _ board.sorted [OF k]])
    fix a b
    assume ab: "a \<in> set (js_sort severity_cmp (filter is_abnormal es))" "b \<in> set (js_sort severity_cmp (filter is_abnormal es))"
      and le: "severity_cmp a b \<le> 0"
    then have "known a" "known b" "en_enabled a" "en_enabled b" using assms by (auto simp: list_all_iff)
    with severity_cmp_le [OF _ _ le] show "the (severity_rank (en_status a)) \<le> the (severity_rank (en_status b))"
      by (simp add: rank_of_def entry_rank_def del: known_rank)
  qed
qed

section \<open>The worst state of a model\<close>

definition worst_state :: "overview_entry list \<Rightarrow> ustring \<Rightarrow> display_status option" where
  "worst_state es m =
    (let ds = map (\<lambda>e. to_display_status (en_status e)) (filter (\<lambda>e. en_enabled e \<and> en_model e = m) es) in
     List.find (\<lambda>d. Some d \<in> set ds) [Incident, Degraded, Unverified])"

lemma worst_state_Nil: "worst_state [] m = None"
  by (simp add: worst_state_def)

lemma worst_state_snoc:
  "worst_state (es @ [e]) m =
    (if \<not> en_enabled e \<or> en_model e \<noteq> m then worst_state es m
     else case to_display_status (en_status e) of
       None \<Rightarrow> worst_state es m | Some Stable \<Rightarrow> worst_state es m | Some Incident \<Rightarrow> Some Incident
     | Some Degraded \<Rightarrow> (if worst_state es m = Some Incident then Some Incident else Some Degraded)
     | Some Unverified \<Rightarrow> (if worst_state es m = None then Some Unverified else worst_state es m))"
  by (cases "to_display_status (en_status e)") (auto simp: worst_state_def Let_def split: display_status.splits)

lemma worst_not_stable: "worst_state es m \<noteq> Some Stable"
  by (auto simp: worst_state_def Let_def split: if_splits)

lemma filter_either: "length (filter (\<lambda>d. d = Incident) ds) + length (filter (\<lambda>d. d = Degraded) ds)
      = length (filter (\<lambda>d. d = Incident \<or> d = Degraded) ds)"
  by (induction ds) auto

lemma no_alarm: "d \<noteq> Incident \<and> d \<noteq> Degraded \<longleftrightarrow> d = Unverified \<or> d = Stable"
  by (cases d) simp_all

lemma worst_by_model: "map_of (fold worst_step es []) = worst_state es"
proof (induction es rule: rev_induct)
  case (snoc e es)
  have "map_of (worst_step e m) k = worst_state (es @ [e]) k" if "map_of m = worst_state es" for m k
  proof (cases "map_of m (en_model e)")
    case (Some a)
    with worst_not_stable [of es "en_model e", folded that] show ?thesis
      unfolding worst_state_snoc worst_step_def Let_def that [symmetric]
      by (cases a; cases "to_display_status (en_status e)") (auto split: display_status.splits)
  qed (cases "to_display_status (en_status e)",
      auto simp: worst_state_snoc worst_step_def simp flip: that split: display_status.splits)
  with snoc show ?case by (simp add: fun_eq_iff)
qed (simp add: fun_eq_iff worst_state_Nil)

lemma distinct_worst: "distinct (map fst (fold worst_step es []))"
proof -
  have "distinct (map fst m) \<Longrightarrow> distinct (map fst (worst_step e m))" for e m
    by (auto simp: worst_step_def Let_def split: option.split)
  then have "distinct (map fst m) \<Longrightarrow> distinct (map fst (fold worst_step es m))" for m
    by (induction es arbitrary: m) auto
  then show ?thesis by simp
qed

lemma count_values:
  assumes "distinct (map fst al)"
  shows "length (filter P (map snd al)) = card {k. \<exists>v. map_of al k = Some v \<and> P v}"
proof -
  let ?f = "filter (\<lambda>kv. P (snd kv)) al"
  have "length (filter P (map snd al)) = length (map fst ?f)" by (simp add: filter_map o_def)
  also have "\<dots> = card (set (map fst ?f))" using assms by (simp add: distinct_card distinct_map_filter del: set_map)
  also have "set (map fst ?f) = {k. \<exists>v. map_of al k = Some v \<and> P v}"
    using assms by (force simp: map_of_eq_Some_iff)
  finally show ?thesis .
qed

section \<open>Properties\<close>

text \<open>
  The counts, tone and sentence of the health conclusion are those of the
  entries: each display state is counted once per entry in it; the tone is
  abnormal exactly when some endpoint displays as an incident, degraded when none
  does but some endpoint is degraded, and healthy otherwise; and the sentence
  states the number of endpoints in the state it names.
\<close>

theorem conclusion_reflects_the_entries:
  "display_status_counts (count_by_status es) d =
     int (length (filter (\<lambda>e. domain_to_display (en_status e) = Some d) es)) \<and>
   tone_of (count_by_status es) =
     (if list_ex (\<lambda>e. domain_to_display (en_status e) = Some Incident) es then Ht_Abnormal
      else if list_ex (\<lambda>e. domain_to_display (en_status e) = Some Degraded) es then Ht_Degraded else Ht_Healthy) \<and>
   conclusion_text (tone_of (count_by_status es)) (count_by_status es) False =
     (if list_ex (\<lambda>e. domain_to_display (en_status e) = Some Incident) es
      then dec (int (length (filter (\<lambda>e. domain_to_display (en_status e) = Some Incident) es))) @ (ascii '' '' @ [0x4E2A, 0x7AEF, 0x70B9, 0x5F02, 0x5E38])
      else if list_ex (\<lambda>e. domain_to_display (en_status e) = Some Degraded) es
      then dec (int (length (filter (\<lambda>e. domain_to_display (en_status e) = Some Degraded) es))) @ (ascii '' '' @ [0x4E2A, 0x7AEF, 0x70B9, 0x964D, 0x7EA7])
      else [0x5168, 0x90E8, 0x7A33, 0x5B9A])"
proof -
  have n: "hc_down c + hc_failing c = display_status_counts c Incident" "hc_degraded c = display_status_counts c Degraded" for c
    by (simp_all add: display_status_counts_def)
  have l: "status_label ''incident'' = [0x5F02, 0x5E38]" "status_label ''degraded'' = [0x964D, 0x7EA7]" "status_label ''stable'' = [0x7A33, 0x5B9A]"
    by (simp_all add: status_label_def status_display_of_def to_display_status_def domain_to_display_def display_of_name_def display_info_def)
  show ?thesis
    by (simp add: display_counts_of tone_of_counts conclusion_text_def n l)
qed

text \<open>
  The abnormal chips of the enabled entries name at most five abnormal
  endpoints, the overflow counts the rest, an overflow appears only when all five
  places are taken, and no endpoint left out is more severe than one that is shown.
\<close>

theorem abnormal_chips_show_the_worst:
  assumes "list_all known es" "list_all en_enabled es" "abnormal_chips es = (chips, overflow)"
  shows "length chips \<le> 5 \<and> int (length chips) + overflow = int (length (filter is_abnormal es)) \<and>
    0 \<le> overflow \<and> (0 < overflow \<longrightarrow> length chips = 5) \<and>
    (\<exists>shown hidden. mset (shown @ hidden) = mset (filter is_abnormal es) \<and> chips = map chip_of shown \<and>
      (\<forall>a \<in> set shown. \<forall>b \<in> set hidden. the (severity_rank (en_status a)) \<le> the (severity_rank (en_status b))))"
proof -
  let ?ab = "abnormal_entries es"
  have m: "mset ?ab = mset (filter is_abnormal es)" by (simp add: abnormal_entries_def sort_entries_by_severity_def)
  have len: "length ?ab = length (filter is_abnormal es)" using mset_eq_length [OF m] .
  have c: "chips = map chip_of (take 5 ?ab)" "overflow = max 0 (int (length ?ab) - 5)"
    using assms(3) by (simp_all add: abnormal_chips_def Let_def max_abnormal_chips_def)
  have "sorted_wrt (\<lambda>a b. the (severity_rank (en_status a)) \<le> the (severity_rank (en_status b))) (take 5 ?ab @ drop 5 ?ab)"
    using abnormal_entries_sorted [OF assms(1,2)] by simp
  then have s: "\<forall>a \<in> set (take 5 ?ab). \<forall>b \<in> set (drop 5 ?ab).
      the (severity_rank (en_status a)) \<le> the (severity_rank (en_status b))"
    unfolding sorted_wrt_append by blast
  have "mset (take 5 ?ab @ drop 5 ?ab) = mset (filter is_abnormal es)" using m by simp
  with s c have "\<exists>shown hidden. mset (shown @ hidden) = mset (filter is_abnormal es) \<and> chips = map chip_of shown \<and>
      (\<forall>a \<in> set shown. \<forall>b \<in> set hidden. the (severity_rank (en_status a)) \<le> the (severity_rank (en_status b)))" by blast
  moreover have "length chips \<le> 5" "int (length chips) + overflow = int (length (filter is_abnormal es))" "0 \<le> overflow"
    "0 < overflow \<longrightarrow> length chips = 5" using c len by (simp_all add: min_def max_def)
  ultimately show ?thesis by blast
qed

lemma abnormal_chips_show_the_worst_witness:
  "length (fst (abnormal_chips [sample_entry 1 ''m'' ''down'', sample_entry 2 ''n'' ''healthy'', sample_entry 3 ''o'' ''failing''])) \<le> 5"
proof -
  let ?es = "[sample_entry 1 ''m'' ''down'', sample_entry 2 ''n'' ''healthy'', sample_entry 3 ''o'' ''failing'']"
  have "list_all known ?es" "list_all en_enabled ?es" by (simp_all add: known_def severity_order_def sample_entry_def)
  from abnormal_chips_show_the_worst [OF this surjective_pairing] show ?thesis by simp
qed

text \<open>
  The counts of models at risk count every model once, at its worst state:
  a model is an incident when one of its enabled endpoints is, degraded when none
  is an incident and one is degraded, unverified when nothing worse is known; the
  total is the number of models with an incident or a degradation.
\<close>

theorem models_counted_at_their_worst:
  "ac_incident (abnormal_model_counts es) = int (card {m. worst_state es m = Some Incident}) \<and>
   ac_degraded (abnormal_model_counts es) = int (card {m. worst_state es m = Some Degraded}) \<and>
   ac_unverified (abnormal_model_counts es) = int (card {m. worst_state es m = Some Unverified}) \<and>
   ac_total (abnormal_model_counts es) = int (card {m. worst_state es m \<in> {Some Incident, Some Degraded}})"
proof -
  let ?al = "fold worst_step es []"
  have c: "length (filter P (map snd ?al)) = card {m. \<exists>d. worst_state es m = Some d \<and> P d}" for P
    using count_values [OF distinct_worst, of P es] by (simp add: worst_by_model)
  have u: "{m. \<exists>d. worst_state es m = Some d \<and> d \<noteq> Incident \<and> d \<noteq> Degraded} = {m. worst_state es m = Some Unverified}"
    unfolding no_alarm using worst_not_stable by auto
  note filter_either [of "map snd ?al"]
  moreover have "{m. \<exists>d. worst_state es m = Some d \<and> (d = Incident \<or> d = Degraded)} =
      {m. worst_state es m \<in> {Some Incident, Some Degraded}}" by auto
  ultimately have t: "card {m. worst_state es m = Some Incident} + card {m. worst_state es m = Some Degraded} =
      card {m. worst_state es m \<in> {Some Incident, Some Degraded}}"
    by (simp only: c) simp
  show ?thesis
    unfolding abnormal_model_counts_def Let_def
    using arg_cong [OF t, of int] by (simp add: c u del: filter_map length_filter_map)
qed

end
