(* ===== verification/Overview_Metrics.thy ===== *)
theory Overview_Metrics
  imports Status_Display
begin

text \<open>
  The figures of the overview: \<open>overviewDots.ts\<close> (the 24 hourly buckets summed
  over entries, their tiers and tooltips), \<open>overviewMetrics.ts\<close> (the day-over-day
  delta, the empty state, the hourly series) and the availability functions of
  \<open>statusCardSummary.ts\<close>. Sums are weighted by probes: totals and failures are
  added up before a ratio is taken.
\<close>

section \<open>Hourly buckets\<close>

datatype availability_tier = No_Data | Fail | Partial | Ok

definition dot_tier :: "int \<Rightarrow> int \<Rightarrow> availability_tier" where
  "dot_tier probes failures =
    (if probes = 0 then No_Data else if failures \<ge> probes then Fail
     else if (of_int (probes - failures) :: rat) / of_int probes \<ge> 95 / 100 then Ok else Partial)"

definition dot_at :: "nat \<Rightarrow> overview_entry \<Rightarrow> dot option" where
  \<comment> \<open>\<open>entry.dots_24h[i]\<close>\<close>
  "dot_at i e = (if i < length (en_dots e) then Some (en_dots e ! i) else None)"

definition with_dots :: "overview_entry list \<Rightarrow> overview_entry option" where
  "with_dots es = List.find (\<lambda>e. en_dots e \<noteq> []) es"

definition dots_length :: "overview_entry list \<Rightarrow> nat" where
  "dots_length es = (case with_dots es of None \<Rightarrow> 24 | Some e \<Rightarrow> length (en_dots e))"

definition dots_sum :: "(dot \<Rightarrow> int) \<Rightarrow> nat \<Rightarrow> overview_entry list \<Rightarrow> int" where
  "dots_sum f i es = fold (\<lambda>e acc. case dot_at i e of None \<Rightarrow> acc | Some d \<Rightarrow> acc + f d) es 0"

definition aggregate_dots_24h :: "overview_entry list \<Rightarrow> dot list" where
  "aggregate_dots_24h es = map (\<lambda>i. \<lparr>
       dt_bucket = (case with_dots es of None \<Rightarrow> [] | Some e \<Rightarrow> (case dot_at i e of None \<Rightarrow> [] | Some d \<Rightarrow> dt_bucket d)),
       dt_total = dots_sum dt_total i es, dt_failures = dots_sum dt_failures i es, dt_p50 = None\<rparr>)
     [0..<dots_length es]"

definition dot_tooltip_text :: "zone \<Rightarrow> dot \<Rightarrow> ustring" where
  "dot_tooltip_text z d =
    (let label = (if dt_bucket d \<noteq> [] then format_bucket_time z (dt_bucket d) @ (ascii '' '' @ [0x65F6, 0x6BB5]) else []) in
     if dt_total d = 0 then (if label \<noteq> [] then label @ (ascii '' '' @ [0x00B7] @ ascii '' '' @ [0x65E0, 0x6570, 0x636E]) else [0x65E0, 0x6570, 0x636E])
     else label @ (ascii '' '' @ [0x00B7] @ ascii '' '' @ [0x6210, 0x529F] @ ascii '' '') @ dec (dt_total d - dt_failures d) @ ascii ''/'' @ dec (dt_total d))"

section \<open>The hero figures\<close>

definition health_delta_text :: "rat option \<Rightarrow> ustring" where
  "health_delta_text delta = (case delta of None \<Rightarrow> []
     | Some q \<Rightarrow> let points = q * 100 in
         if \<bar>points\<bar> < 5 / 100 then [0x76F8, 0x6BD4, 0x6628, 0x65E5, 0x6301, 0x5E73]
         else (if points > 0 then [0x2191] else [0x2193]) @ ascii '' '' @ to_fixed 1 \<bar>points\<bar> @ (ascii ''% '' @ [0x76F8, 0x6BD4, 0x6628, 0x65E5]))"

definition health_delta_tone :: "rat option \<Rightarrow> display_tone" where
  "health_delta_tone delta = (case delta of None \<Rightarrow> Tone_Neutral
     | Some q \<Rightarrow> let points = q * 100 in
         if \<bar>points\<bar> < 5 / 100 then Tone_Neutral else if points > 0 then Tone_Success else Tone_Danger)"

definition hero_scope_text :: "int \<Rightarrow> ustring" where
  "hero_scope_text n = [0x7EDF, 0x8BA1, 0x8303, 0x56F4, 0xFF1A] @ dec n @ (ascii '' '' @ [0x4E2A, 0x542F, 0x7528, 0x7AEF, 0x70B9])"

datatype empty_state = Es_Loading | Es_Error | Es_Guide | Es_None

definition empty_state_kind :: "nat \<Rightarrow> ustring option \<Rightarrow> bool \<Rightarrow> empty_state" where
  "empty_state_kind n err loading =
    (if n > 0 then Es_None else if err \<noteq> None then Es_Error else if loading then Es_Loading else Es_Guide)"

definition hourly_availability_series :: "dot list \<Rightarrow> rat option list" where
  "hourly_availability_series = map (\<lambda>d. if dt_total d = 0 then None
     else Some (of_int (dt_total d - dt_failures d) / of_int (dt_total d)))"

definition hourly_probe_series :: "dot list \<Rightarrow> int list" where
  "hourly_probe_series = map dt_total"

definition hour_label :: "zone \<Rightarrow> ustring \<Rightarrow> ustring" where
  "hour_label z b = (if b = [] then [] else case zn_parse z b of None \<Rightarrow> []
     | Some t \<Rightarrow> pad2 (cv_hour (zn_local z t)) @ ascii '':00'')"

definition hero_trend_series :: "zone \<Rightarrow> dot list \<Rightarrow> ustring list \<times> rat option list" where
  "hero_trend_series z ds = (map (\<lambda>d. hour_label z (dt_bucket d)) ds,
     map (map_option (\<lambda>v. v * 100)) (hourly_availability_series ds))"

record tier_piece =
  tp_max :: "rat option"
  tp_gt :: "rat option"
  tp_lt :: "rat option"
  tp_gte :: "rat option"
  tp_color :: display_tone

definition availability_tier_pieces :: "tier_piece list" where
  \<comment> \<open>a color is named by the tone it stands for\<close>
  "availability_tier_pieces =
    [\<lparr>tp_max = Some 0, tp_gt = None, tp_lt = None, tp_gte = None, tp_color = Tone_Danger\<rparr>,
     \<lparr>tp_max = None, tp_gt = Some 0, tp_lt = Some 95, tp_gte = None, tp_color = Tone_Warning\<rparr>,
     \<lparr>tp_max = None, tp_gt = None, tp_lt = None, tp_gte = Some 95, tp_color = Tone_Success\<rparr>]"

definition hourly_failure_series :: "dot list \<Rightarrow> int list" where
  "hourly_failure_series = map dt_failures"

definition latency_step :: "nat \<Rightarrow> overview_entry \<Rightarrow> rat \<times> int \<Rightarrow> rat \<times> int" where
  \<comment> \<open>the weighted sum and the successes of one hour, after one more entry\<close>
  "latency_step i e acc = (case dot_at i e of None \<Rightarrow> acc
     | Some d \<Rightarrow> (case dt_p50 d of None \<Rightarrow> acc
         | Some p \<Rightarrow> let k = dt_total d - dt_failures d in
             if k \<le> 0 then acc else (fst acc + p * of_int k, snd acc + k)))"

definition hourly_latency_series :: "overview_entry list \<Rightarrow> rat option list" where
  "hourly_latency_series es = map (\<lambda>i. let (w, k) = fold (latency_step i) es (0, 0) in
       if k > 0 then Some (w / of_int k) else None) [0..<dots_length es]"

definition availability_rate_tier :: "rat option \<Rightarrow> display_tone option" where
  \<comment> \<open>\<open>'none'\<close> is \<open>None\<close>\<close>
  "availability_rate_tier rate = (case rate of None \<Rightarrow> None
     | Some r \<Rightarrow> if r = 0 then Some Tone_Danger else if r \<ge> 95 / 100 then Some Tone_Success else Some Tone_Warning)"

section \<open>Availability of a scope\<close>

definition availability_tier_of :: "rat option \<Rightarrow> availability_tier" where
  "availability_tier_of rate = (case rate of None \<Rightarrow> No_Data
     | Some r \<Rightarrow> if r \<le> 0 then Fail else if r \<ge> 95 / 100 then Ok else Partial)"

definition scoped_availability :: "overview_entry list \<Rightarrow> rat option" where
  "scoped_availability es =
    (let (probes, good) = fold (\<lambda>e acc. fold (\<lambda>d (t, k). (t + dt_total d, k + (dt_total d - dt_failures d))) (en_dots e) acc)
       es (0, 0)
     in if probes = 0 then None else Some (of_int good / of_int probes))"

definition endpoint_availability_24h :: "overview_entry option \<Rightarrow> rat option" where
  "endpoint_availability_24h e = (case e of None \<Rightarrow> None | Some x \<Rightarrow> scoped_availability [x])"

definition mean_p50_ms :: "overview_entry list \<Rightarrow> rat option" where
  "mean_p50_ms es = (let vs = map the (filter (\<lambda>p. p \<noteq> None) (map en_p50 es)) in
     if vs = [] then None else Some (foldl (+) 0 vs / of_nat (length vs)))"

definition healthy_rate_range :: "overview_entry list \<Rightarrow> (rat \<times> rat) option" where
  "healthy_rate_range es =
    (let vs = map (\<lambda>e. the (en_rate e)) (filter (\<lambda>e. en_status e = ''healthy'' \<and> en_rate e \<noteq> None) es) in
     case vs of [] \<Rightarrow> None | v # ws \<Rightarrow> Some (fold min ws v, fold max ws v))"

section \<open>Facts\<close>

lemma dots_sum_list: "dots_sum f i es = (\<Sum>e \<leftarrow> es. case dot_at i e of None \<Rightarrow> 0 | Some d \<Rightarrow> f d)"
proof -
  have "fold (\<lambda>e acc. case dot_at i e of None \<Rightarrow> acc | Some d \<Rightarrow> acc + f d) es a =
      a + (\<Sum>e \<leftarrow> es. case dot_at i e of None \<Rightarrow> 0 | Some d \<Rightarrow> f d)" for a
    by (induction es arbitrary: a) (auto split: option.split)
  then show ?thesis by (simp add: dots_sum_def)
qed

lemma sum_dots_of_entry:
  assumes "length (en_dots e) \<le> n"
  shows "(\<Sum>i \<leftarrow> [0..<n]. case dot_at i e of None \<Rightarrow> 0 | Some d \<Rightarrow> f d) = (\<Sum>d \<leftarrow> en_dots e. (f d :: int))"
proof -
  have n: "[0..<n] = [0..<length (en_dots e)] @ [length (en_dots e)..<n]"
    using assms upt_add_eq_append [of 0 "length (en_dots e)" "n - length (en_dots e)"] by simp
  have "(\<Sum>i \<leftarrow> [0..<length (en_dots e)]. case dot_at i e of None \<Rightarrow> 0 | Some d \<Rightarrow> f d) = (\<Sum>d \<leftarrow> en_dots e. f d)"
    by (rule arg_cong [where f = sum_list]) (auto intro!: nth_equalityI simp: dot_at_def)
  moreover have "\<forall>i \<in> set xs. length (en_dots e) \<le> i \<Longrightarrow> (\<Sum>i \<leftarrow> xs. case dot_at i e of None \<Rightarrow> 0 | Some d \<Rightarrow> f d) = 0" for xs
    by (induction xs) (auto simp: dot_at_def)
  from this [of "[length (en_dots e)..<n]"]
  have "(\<Sum>i \<leftarrow> [length (en_dots e)..<n]. case dot_at i e of None \<Rightarrow> 0 | Some d \<Rightarrow> f d) = 0" by simp
  ultimately show ?thesis by (simp only: n map_append sum_list_append)
qed

lemma sum_aggregated:
  assumes "\<And>e. e \<in> set es \<Longrightarrow> length (en_dots e) \<le> n"
  shows "(\<Sum>i \<leftarrow> [0..<n]. dots_sum f i es) = (\<Sum>e \<leftarrow> es. \<Sum>d \<leftarrow> en_dots e. f d)"
  using assms
proof (induction es)
  case (Cons e es)
  have "(\<Sum>i \<leftarrow> [0..<n]. dots_sum f i (e # es)) =
      (\<Sum>i \<leftarrow> [0..<n]. case dot_at i e of None \<Rightarrow> 0 | Some d \<Rightarrow> f d) + (\<Sum>i \<leftarrow> [0..<n]. dots_sum f i es)"
    by (simp add: dots_sum_list sum_list_addf)
  with Cons sum_dots_of_entry [of e n f] show ?case by simp
qed (simp add: dots_sum_list)

definition probe_total :: "overview_entry list \<Rightarrow> int" where
  "probe_total es = (\<Sum>e \<leftarrow> es. \<Sum>d \<leftarrow> en_dots e. dt_total d)"

definition probe_failures :: "overview_entry list \<Rightarrow> int" where
  "probe_failures es = (\<Sum>e \<leftarrow> es. \<Sum>d \<leftarrow> en_dots e. dt_failures d)"

lemma scoped_availability_sums:
  "scoped_availability es = (if probe_total es = 0 then None
     else Some (of_int (probe_total es - probe_failures es) / of_int (probe_total es)))"
proof -
  have d: "fold (\<lambda>d (t, k). (t + dt_total d, k + (dt_total d - dt_failures d))) ds (a, b) =
      (a + (\<Sum>d \<leftarrow> ds. dt_total d), b + ((\<Sum>d \<leftarrow> ds. dt_total d) - (\<Sum>d \<leftarrow> ds. dt_failures d)))" for ds a b
    by (induction ds arbitrary: a b) simp_all
  have "fold (\<lambda>e acc. fold (\<lambda>d (t, k). (t + dt_total d, k + (dt_total d - dt_failures d))) (en_dots e) acc) es (a, b) =
      (a + probe_total es, b + (probe_total es - probe_failures es))" for a b
    by (induction es arbitrary: a b) (simp_all add: probe_total_def probe_failures_def d)
  then show ?thesis by (simp add: scoped_availability_def)
qed

lemma failures_within_total:
  "\<forall>e \<in> set es. \<forall>d \<in> set (en_dots e). 0 \<le> dt_failures d \<and> dt_failures d \<le> dt_total d \<Longrightarrow>
   0 \<le> probe_failures es \<and> probe_failures es \<le> probe_total es"
proof (induction es)
  case (Cons e es)
  have "0 \<le> (\<Sum>d \<leftarrow> ds. dt_failures d) \<and> (\<Sum>d \<leftarrow> ds. dt_failures d) \<le> (\<Sum>d \<leftarrow> ds. dt_total d)"
    if "\<forall>d \<in> set ds. 0 \<le> dt_failures d \<and> dt_failures d \<le> dt_total d" for ds
    using that by (induction ds) auto
  from this [of "en_dots e"] Cons show ?case by (simp add: probe_total_def probe_failures_def)
qed (simp add: probe_total_def probe_failures_def)

section \<open>Properties\<close>

text \<open>
  C39. Availability is weighted by probes, whichever way it is computed: summing
  the hourly aggregate that the strips show gives the availability of the scope,
  and, when no bucket fails more probes than it made, it lies between 0 and 1 and
  is 0 only when every probe failed. The entries carry no more buckets than the first
  one that has any.
\<close>

theorem availability_is_probe_weighted:
  assumes "\<forall>e \<in> set es. length (en_dots e) \<le> dots_length es"
    and "\<forall>e \<in> set es. \<forall>d \<in> set (en_dots e). 0 \<le> dt_failures d \<and> dt_failures d \<le> dt_total d"
  shows "(let ds = aggregate_dots_24h es; t = (\<Sum>d \<leftarrow> ds. dt_total d); f = (\<Sum>d \<leftarrow> ds. dt_failures d) in
     scoped_availability es = (if t = 0 then None else Some (of_int (t - f) / of_int t)) \<and> 0 \<le> f \<and> f \<le> t \<and>
     (\<forall>r. scoped_availability es = Some r \<longrightarrow> 0 \<le> r \<and> r \<le> 1 \<and> (r = 0 \<longleftrightarrow> f = t) \<and> (r = 1 \<longleftrightarrow> f = 0)))"
proof -
  have t: "(\<Sum>d \<leftarrow> aggregate_dots_24h es. dt_total d) = probe_total es"
    and f: "(\<Sum>d \<leftarrow> aggregate_dots_24h es. dt_failures d) = probe_failures es"
    using sum_aggregated [of es "dots_length es"] assms(1)
    by (simp_all add: aggregate_dots_24h_def probe_total_def probe_failures_def o_def)
  have le: "0 \<le> probe_failures es" "probe_failures es \<le> probe_total es"
    using failures_within_total [OF assms(2)] by simp_all
  have r: "0 \<le> r \<and> r \<le> 1 \<and> (r = 0 \<longleftrightarrow> probe_failures es = probe_total es) \<and> (r = 1 \<longleftrightarrow> probe_failures es = 0)"
    if "scoped_availability es = Some r" for r
  proof -
    have p: "probe_total es > 0" and "r = of_int (probe_total es - probe_failures es) / of_int (probe_total es)"
      using that le by (auto simp: scoped_availability_sums split: if_splits)
    then show ?thesis using le by (auto simp add: divide_le_eq_1_pos)
  qed
  show ?thesis unfolding Let_def t f using scoped_availability_sums r le by blast
qed

definition sample_dots :: "int \<Rightarrow> int \<Rightarrow> dot list" where
  "sample_dots t f = [\<lparr>dt_bucket = ascii ''h'', dt_total = t, dt_failures = f, dt_p50 = None\<rparr>]"

lemma availability_is_probe_weighted_witness:
  "scoped_availability [(sample_entry 1 ''m'' ''down'')\<lparr>en_dots := sample_dots 90 90\<rparr>,
     (sample_entry 2 ''n'' ''healthy'')\<lparr>en_dots := sample_dots 10 0\<rparr>] = Some (1 / 10)"
proof -
  let ?es = "[(sample_entry 1 ''m'' ''down'')\<lparr>en_dots := sample_dots 90 90\<rparr>,
     (sample_entry 2 ''n'' ''healthy'')\<lparr>en_dots := sample_dots 10 0\<rparr>]"
  have l: "dots_length ?es = 1" by (simp add: dots_length_def with_dots_def sample_dots_def)
  have "\<forall>e \<in> set ?es. length (en_dots e) \<le> dots_length ?es"
    "\<forall>e \<in> set ?es. \<forall>d \<in> set (en_dots e). 0 \<le> dt_failures d \<and> dt_failures d \<le> dt_total d"
    unfolding l by (simp_all add: sample_dots_def)
  from availability_is_probe_weighted [OF this]
  have "scoped_availability ?es = (let ds = aggregate_dots_24h ?es; t = (\<Sum>d \<leftarrow> ds. dt_total d); f = (\<Sum>d \<leftarrow> ds. dt_failures d) in
      if t = 0 then None else Some (of_int (t - f) / of_int t))" by (simp add: Let_def)
  also have "aggregate_dots_24h ?es = [\<lparr>dt_bucket = ascii ''h'', dt_total = 100, dt_failures = 90, dt_p50 = None\<rparr>]"
    unfolding aggregate_dots_24h_def l by (simp add: upt_rec with_dots_def dots_sum_def dot_at_def sample_dots_def)
  finally show ?thesis by (simp add: Let_def)
qed

end
