(* ===== verification/Status_Card.thy ===== *)
theory Status_Card
  imports Overview_Metrics
begin

text \<open>
  The share card: \<open>statusCardSummary.ts\<close> beyond its availability figures, which are in
  \<open>Overview_Metrics\<close>. The roster of healthy endpoints, the longest degraded streak, the
  one-sentence summaries and the distribution segments. \<open>localeCompare\<close> is the
  parameter \<open>collate\<close>.
\<close>

section \<open>Roster and streak\<close>

definition healthy_roster_cap :: nat where
  "healthy_roster_cap = 20"

definition roster_cmp :: "(ustring \<Rightarrow> ustring \<Rightarrow> rat) \<Rightarrow> overview_entry \<Rightarrow> overview_entry \<Rightarrow> rat" where
  "roster_cmp collate a b = (case (en_rate a, en_rate b) of
     (None, None) \<Rightarrow> collate (en_model a) (en_model b)
   | (None, Some _) \<Rightarrow> 1
   | (Some _, None) \<Rightarrow> -1
   | (Some x, Some y) \<Rightarrow> if x - y \<noteq> 0 then x - y else collate (en_model a) (en_model b))"

definition healthy_roster :: "(ustring \<Rightarrow> ustring \<Rightarrow> rat) \<Rightarrow> overview_entry list \<Rightarrow> overview_entry list \<times> int" where
  \<comment> \<open>the rows and the overflow\<close>
  "healthy_roster collate es =
    (let healthy = js_sort (roster_cmp collate) (filter (\<lambda>e. en_status e = ''healthy'') es);
         rows = take healthy_roster_cap healthy
     in (rows, int (length healthy) - int (length rows)))"

definition trailing_hours :: "dot list \<Rightarrow> nat" where
  \<comment> \<open>the inner loop, from the last bucket backwards\<close>
  "trailing_hours ds = length (takeWhile (\<lambda>d. dot_tier (dt_total d) (dt_failures d) \<notin> {Ok, No_Data}) (rev ds))"

definition streak_step :: "overview_entry \<Rightarrow> (ustring \<times> nat) option \<Rightarrow> (ustring \<times> nat) option" where
  \<comment> \<open>one turn of the loop over the entries\<close>
  "streak_step e best =
    (if en_status e \<noteq> ''degraded'' then best
     else let hours = trailing_hours (en_dots e) in
       if hours > 0 \<and> (case best of None \<Rightarrow> True | Some (_, h) \<Rightarrow> hours > h) then Some (en_model e, hours) else best)"

definition longest_degraded_streak :: "overview_entry list \<Rightarrow> (ustring \<times> nat) option" where
  "longest_degraded_streak es = fold streak_step es None"

section \<open>Sentences\<close>

definition no_probe_tail :: "rat option \<Rightarrow> ustring" where
  "no_probe_tail availability = (if availability = None then (ascii '';'' @ [0x6682, 0x65E0] @ ascii '' 24 '' @ [0x5C0F, 0x65F6, 0x63A2, 0x6D4B, 0x6570, 0x636E]) else [])"

definition first_down :: "overview_entry list \<Rightarrow> overview_entry option" where
  "first_down es = List.find (\<lambda>e. en_status e = ''down'') es"

definition summary_text :: "health_counts \<Rightarrow> overview_entry list \<Rightarrow> bool \<Rightarrow> ustring option" where
  "summary_text c es emp =
    (if emp then None
     else let availability = scoped_availability es;
              text =
                (if hc_failing c > 0 then ([0x6709] @ ascii '' '') @ dec (hc_failing c) @ (ascii '' '' @ [0x4E2A, 0x7AEF, 0x70B9, 0x89E6, 0x53D1, 0x544A, 0x8B66] @ ascii '','' @ [0x5EFA, 0x8BAE, 0x7ACB, 0x5373, 0x5904, 0x7406])
                 else if hc_down c > 0 then
                   (case first_down es of
                      Some e \<Rightarrow> dec (hc_down c) @ (ascii '' '' @ [0x4E2A, 0x7AEF, 0x70B9]) @ status_label ''down'' @ (ascii '','' @ [0x5EFA, 0x8BAE, 0x4F18, 0x5148, 0x6392, 0x67E5] @ ascii '' '') @ en_model e
                    | None \<Rightarrow> dec (hc_down c) @ (ascii '' '' @ [0x4E2A, 0x7AEF, 0x70B9]) @ status_label ''down'' @ (ascii '','' @ [0x5EFA, 0x8BAE, 0x4F18, 0x5148, 0x6392, 0x67E5]))
                 else if hc_degraded c > 0 then
                   (case longest_degraded_streak es of
                      Some (m, h) \<Rightarrow> m @ (ascii '' '' @ [0x6301, 0x7EED]) @ status_label ''degraded'' @ ([0x7EA6] @ ascii '' '') @ dec (int h) @ (ascii '' '' @ [0x5C0F, 0x65F6] @ ascii '','' @ [0x5EFA, 0x8BAE, 0x6392, 0x67E5, 0x4E0A, 0x6E38])
                    | None \<Rightarrow> dec (hc_degraded c) @ (ascii '' '' @ [0x4E2A, 0x7AEF, 0x70B9]) @ status_label ''degraded'' @ (ascii '','' @ [0x5EFA, 0x8BAE, 0x5173, 0x6CE8] @ ascii '','' @ [0x6682, 0x4E0D, 0x7D27, 0x6025]))
                 else case availability of
                   Some a \<Rightarrow> if a < 95 / 100
                     then [0x72B6, 0x6001, 0x5168, 0x90E8] @ status_label ''stable'' @ (ascii '','' @ [0x4F46] @ ascii '' 24h '' @ [0x53EF, 0x7528, 0x7387, 0x4EC5] @ ascii '' '') @ format_percent availability @ (ascii '','' @ [0x5EFA, 0x8BAE, 0x6301, 0x7EED, 0x89C2, 0x5BDF])
                     else ([0x8FD1] @ ascii '' 24 '' @ [0x5C0F, 0x65F6, 0x8FD0, 0x884C, 0x5E73, 0x7A33] @ ascii '','' @ [0x65E0, 0x9700, 0x5904, 0x7406])
                 | None \<Rightarrow> [0x5F53, 0x524D, 0x5168, 0x90E8] @ status_label ''stable'');
              note = (if hc_failing c = 0 \<and> hc_down c = 0 \<and> hc_degraded c = 0 \<and> hc_unverified c > 0
                then (ascii '' '' @ [0x00B7] @ ascii '' '') @ (case unverified_note c of Some n \<Rightarrow> n | None \<Rightarrow> ascii ''null'') else [])
       in Some (text @ note @ no_probe_tail availability))"

record single_model_statement =
  sm_text :: ustring
  sm_tone :: health_tone
  sm_chip :: "ustring option"

definition single_model_statement_of :: "overview_entry \<Rightarrow> rat option \<Rightarrow> single_model_statement" where
  "single_model_statement_of e availability =
    (let rate = (if availability \<noteq> None then (ascii ''24h '' @ [0x53EF, 0x7528, 0x7387] @ ascii '' '') @ format_percent availability else (ascii ''24h '' @ [0x5185, 0x65E0, 0x63A2, 0x6D4B, 0x6570, 0x636E]));
         word = status_label (en_status e); plain = word @ (ascii '' '' @ [0x00B7] @ ascii '' '') @ rate; s = en_status e
     in if s = ''healthy'' then
          \<lparr>sm_text = (case availability of
               Some a \<Rightarrow> if a < 95 / 100 then word @ (ascii '' '' @ [0x00B7] @ ascii '' 24h '' @ [0x53EF, 0x7528, 0x7387, 0x4EC5] @ ascii '' '') @ format_percent availability @ (ascii '','' @ [0x4F4E, 0x4E8E] @ ascii '' 95%'') else plain
             | None \<Rightarrow> plain), sm_tone = Ht_Healthy, sm_chip = None\<rparr>
        else if s = ''degraded'' then \<lparr>sm_text = plain, sm_tone = Ht_Degraded, sm_chip = None\<rparr>
        else if s = ''down'' then \<lparr>sm_text = plain, sm_tone = Ht_Abnormal, sm_chip = None\<rparr>
        else if s = ''failing'' then \<lparr>sm_text = plain, sm_tone = Ht_Abnormal, sm_chip = Some [0x542B, 0x544A, 0x8B66]\<rparr>
        else if s = ''unverified'' then \<lparr>sm_text = plain, sm_tone = Ht_Neutral, sm_chip = None\<rparr>
        else \<lparr>sm_text = plain, sm_tone = Ht_Degraded, sm_chip = None\<rparr>)"

definition single_model_summary_text :: "overview_entry \<Rightarrow> rat option \<Rightarrow> ustring" where
  "single_model_summary_text e availability =
    (let s = en_status e in
     if to_display_status s = None then
       (case availability of Some _ \<Rightarrow> ([0x72B6, 0x6001, 0x672A, 0x77E5] @ ascii '',24h '' @ [0x53EF, 0x7528, 0x7387] @ ascii '' '') @ format_percent availability
        | None \<Rightarrow> ([0x72B6, 0x6001, 0x672A, 0x77E5] @ ascii '';'' @ [0x6682, 0x65E0] @ ascii '' 24 '' @ [0x5C0F, 0x65F6, 0x63A2, 0x6D4B, 0x6570, 0x636E]))
     else if s = ''unverified'' then ([0x72B6, 0x6001, 0x672A, 0x9A8C, 0x8BC1] @ ascii '':'' @ [0x8BE5, 0x7AEF, 0x70B9, 0x8D70] @ ascii '' Ping '' @ [0x76D1, 0x6D4B] @ ascii '','' @ [0x4E0D, 0x4EA7, 0x751F, 0x63A2, 0x6D4B, 0x8BB0, 0x5F55] @ ascii '','' @ [0x6682, 0x65E0, 0x5065, 0x5EB7, 0x8BC1, 0x636E])
     else (if s = ''failing'' then ([0x89E6, 0x53D1, 0x544A, 0x8B66] @ ascii '','' @ [0x5EFA, 0x8BAE, 0x7ACB, 0x5373, 0x5904, 0x7406])
           else if s = ''down'' then status_label ''down'' @ (ascii '','' @ [0x5EFA, 0x8BAE, 0x4F18, 0x5148, 0x6392, 0x67E5])
           else if s = ''degraded'' then
             (case longest_degraded_streak [e] of
                Some (_, h) \<Rightarrow> [0x6301, 0x7EED] @ status_label ''degraded'' @ ([0x7EA6] @ ascii '' '') @ dec (int h) @ (ascii '' '' @ [0x5C0F, 0x65F6] @ ascii '','' @ [0x5EFA, 0x8BAE, 0x6392, 0x67E5, 0x4E0A, 0x6E38])
              | None \<Rightarrow> status_label ''degraded'' @ (ascii '','' @ [0x5EFA, 0x8BAE, 0x5173, 0x6CE8] @ ascii '','' @ [0x6682, 0x4E0D, 0x7D27, 0x6025]))
           else case availability of
             Some a \<Rightarrow> if a < 95 / 100
               then [0x72B6, 0x6001] @ status_label ''stable'' @ (ascii '','' @ [0x4F46] @ ascii '' 24h '' @ [0x53EF, 0x7528, 0x7387, 0x4EC5] @ ascii '' '') @ format_percent availability @ (ascii '','' @ [0x5EFA, 0x8BAE, 0x6301, 0x7EED, 0x89C2, 0x5BDF])
               else ([0x8FD1] @ ascii '' 24 '' @ [0x5C0F, 0x65F6, 0x8FD0, 0x884C, 0x5E73, 0x7A33] @ ascii '','' @ [0x65E0, 0x9700, 0x5904, 0x7406])
           | None \<Rightarrow> [0x5F53, 0x524D, 0x72B6, 0x6001] @ status_label ''stable'')
          @ no_probe_tail availability)"

section \<open>Segments\<close>

record distribution_segment =
  ds_status :: display_status
  ds_label :: ustring
  ds_tone :: display_tone
  ds_count :: int

definition distribution_segments :: "health_counts \<Rightarrow> distribution_segment list" where
  "distribution_segments c = map (\<lambda>(d, name). \<lparr>ds_status = d, ds_label = status_label name, ds_tone = status_tone name,
       ds_count = display_status_counts c d\<rparr>)
     [(Stable, ''stable''), (Degraded, ''degraded''), (Incident, ''incident''), (Unverified, ''unverified'')]"

definition healthy_range_text :: "overview_entry list \<Rightarrow> ustring" where
  "healthy_range_text es = (case healthy_rate_range es of
     None \<Rightarrow> (ascii '' (24h '' @ [0x5185, 0x65E0, 0x63A2, 0x6D4B, 0x6570, 0x636E] @ ascii '')'')
   | Some (a, b) \<Rightarrow> if a = b then (ascii '' '' @ [0x00B7] @ ascii '' 24h '' @ [0x53EF, 0x7528, 0x7387] @ ascii '' '') @ format_percent (Some a)
       else (ascii '' '' @ [0x00B7] @ ascii '' 24h '' @ [0x53EF, 0x7528, 0x7387, 0x533A, 0x95F4] @ ascii '' '') @ format_percent_digits (Some a) @ (ascii ''%'' @ [0x2013]) @ format_percent_digits (Some b) @ ascii ''%'')"

section \<open>Facts\<close>

lemma streak_none:
  "longest_degraded_streak es = None \<Longrightarrow> e \<in> set es \<Longrightarrow> en_status e = ''degraded'' \<Longrightarrow> trailing_hours (en_dots e) = 0"
  unfolding longest_degraded_streak_def
  by (induction es arbitrary: e rule: rev_induct) (auto simp: streak_step_def Let_def split: if_splits option.splits)

lemma streak_some:
  "longest_degraded_streak es = Some (m, h) \<Longrightarrow> 0 < h \<and>
    (\<exists>e \<in> set es. en_status e = ''degraded'' \<and> en_model e = m \<and> trailing_hours (en_dots e) = h) \<and>
    (\<forall>e \<in> set es. en_status e = ''degraded'' \<longrightarrow> trailing_hours (en_dots e) \<le> h)"
proof (induction es arbitrary: m h rule: rev_induct)
  case (snoc e es)
  have l: "longest_degraded_streak (es @ [e]) = streak_step e (longest_degraded_streak es)"
    by (simp add: longest_degraded_streak_def)
  show ?case
  proof (cases "longest_degraded_streak es")
    case None
    with snoc.prems streak_none [OF None] show ?thesis
      by (auto simp: l streak_step_def Let_def split: if_splits)
  next
    case (Some best)
    with snoc.IH [of "fst best" "snd best"] snoc.prems show ?thesis
      by (force simp: l streak_step_def Let_def split: if_splits prod.splits)
  qed
qed (simp add: longest_degraded_streak_def)

lemma counts_pos:
  "hc_failing (count_by_status es) > 0 \<longleftrightarrow> list_ex (\<lambda>e. en_status e = ''failing'') es"
  "hc_down (count_by_status es) > 0 \<longleftrightarrow> list_ex (\<lambda>e. en_status e = ''down'') es"
proof -
  have f: "hc_failing (fold count_one es c) = hc_failing c + int (length (filter (\<lambda>e. en_status e = ''failing'') es))" for c
    by (induction es arbitrary: c) (auto simp: count_one_def)
  have d: "hc_down (fold count_one es c) = hc_down c + int (length (filter (\<lambda>e. en_status e = ''down'') es))" for c
    by (induction es arbitrary: c) (auto simp: count_one_def)
  show "hc_failing (count_by_status es) > 0 \<longleftrightarrow> list_ex (\<lambda>e. en_status e = ''failing'') es"
    "hc_down (count_by_status es) > 0 \<longleftrightarrow> list_ex (\<lambda>e. en_status e = ''down'') es"
    by (simp_all add: count_by_status_def f d empty_health_counts_def filter_empty_conv list_ex_iff)
qed

lemma trailing_hours_full:
  assumes "i < trailing_hours ds"
  shows "dot_tier (dt_total (rev ds ! i)) (dt_failures (rev ds ! i)) \<notin> {Ok, No_Data}"
  using assms nth_length_takeWhile set_takeWhileD takeWhile_nth nth_mem
  unfolding trailing_hours_def by (metis (mono_tags, lifting))

section \<open>Properties\<close>

text \<open>
  The streak named on the card is the longest run of bad hours that reaches
  the present among the degraded endpoints, it is positive, every hour of it had probes
  and failed enough of them, and none is named exactly when every degraded
  endpoint ended on a good or an empty hour.
\<close>

theorem longest_streak_correct:
  "case longest_degraded_streak es of
     None \<Rightarrow> \<forall>e \<in> set es. en_status e = ''degraded'' \<longrightarrow> trailing_hours (en_dots e) = 0
   | Some (m, h) \<Rightarrow> 0 < h \<and>
       (\<exists>e \<in> set es. en_status e = ''degraded'' \<and> en_model e = m \<and> trailing_hours (en_dots e) = h \<and>
         (\<forall>i < h. dot_tier (dt_total (rev (en_dots e) ! i)) (dt_failures (rev (en_dots e) ! i)) \<notin> {Ok, No_Data})) \<and>
       (\<forall>e \<in> set es. en_status e = ''degraded'' \<longrightarrow> trailing_hours (en_dots e) \<le> h)"
proof (cases "longest_degraded_streak es")
  case None
  with streak_none show ?thesis by auto
next
  case (Some best)
  with streak_some [of es "fst best" "snd best"] trailing_hours_full show ?thesis
    by (cases best) fastforce
qed

end
