(* ===== verification/Model_List.thy ===== *)
theory Model_List
  imports Status_Display
begin

text \<open>
  \<open>web/src/utils/modelList.ts\<close>: the rows of the model list. Its column sort with
  the click state machine, the stored and the URL form of the sort, the vendor
  initials and filter options, and the grouping into sections with their meta line.
\<close>

section \<open>Vendor tiles and row tones\<close>

definition word_unit :: "nat \<Rightarrow> bool" where
  \<comment> \<open>the complement of the separator class: letters, digits, U+4E00 to U+9FFF\<close>
  "word_unit c \<longleftrightarrow> (0x61 \<le> c \<and> c \<le> 0x7A) \<or> (0x41 \<le> c \<and> c \<le> 0x5A) \<or> (0x30 \<le> c \<and> c \<le> 0x39) \<or>
     (0x4E00 \<le> c \<and> c \<le> 0x9FFF)"

definition latin_unit :: "nat \<Rightarrow> bool" where
  "latin_unit c \<longleftrightarrow> word_unit c \<and> c < 0x4E00"

fun words_of :: "ustring \<Rightarrow> ustring list" where
  \<comment> \<open>splitting at runs of separators and dropping empty pieces\<close>
  "words_of [] = []"
| "words_of (c # cs) = (if word_unit c
     then (case cs of
        d # _ \<Rightarrow> if word_unit d then (case words_of cs of w # ws \<Rightarrow> (c # w) # ws | [] \<Rightarrow> [[c]]) else [c] # words_of cs
      | [] \<Rightarrow> [[c]])
     else words_of cs)"

definition upper :: "ustring \<Rightarrow> ustring" where
  \<comment> \<open>\<open>toUpperCase\<close> on word units\<close>
  "upper = map (\<lambda>c. if 0x61 \<le> c \<and> c \<le> 0x7A then c - 0x20 else c)"

definition family_initials :: "ustring \<Rightarrow> ustring" where
  "family_initials family = (case words_of family of
     [] \<Rightarrow> [0x2014]
   | [w] \<Rightarrow> if length w \<le> 3 then upper w else if latin_unit (w ! 0) then upper [w ! 0, w ! 1] else [w ! 0]
   | ws \<Rightarrow> upper (map hd (take 3 ws)))"

definition entry_latency_series :: "dot list \<Rightarrow> rat option list" where
  "entry_latency_series = map dt_p50"

definition row_sparkline_tone :: "overview_entry \<Rightarrow> display_tone" where
  "row_sparkline_tone e =
    (if \<not> en_enabled e then Tone_Neutral
     else case to_display_status (en_status e) of
       Some Stable \<Rightarrow> Tone_Success | Some Degraded \<Rightarrow> Tone_Warning | Some Incident \<Rightarrow> Tone_Danger | _ \<Rightarrow> Tone_Neutral)"

fun js_set :: "'a list \<Rightarrow> 'a list" where
  \<comment> \<open>\<open>[...new Set(xs)]\<close>\<close>
  "js_set [] = []"
| "js_set (x # xs) = x # filter (\<lambda>y. y \<noteq> x) (js_set xs)"

definition family_options :: "overview_entry list \<Rightarrow> ustring list" where
  "family_options es = js_sort lex (js_set (map en_family es))"

section \<open>The column sort\<close>

datatype sort_key = By_Name | By_Rate | By_P95
datatype sort_dir = Asc | Desc

record list_sort =
  ls_key :: sort_key
  ls_dir :: sort_dir

definition list_sort_default :: list_sort where
  "list_sort_default = \<lparr>ls_key = By_Rate, ls_dir = Desc\<rparr>"

definition column_default_dir :: "sort_key \<Rightarrow> sort_dir" where
  "column_default_dir k = (case k of By_Name \<Rightarrow> Asc | By_Rate \<Rightarrow> Desc | By_P95 \<Rightarrow> Asc)"

definition next_list_sort :: "list_sort \<Rightarrow> sort_key \<Rightarrow> list_sort" where
  "next_list_sort cur clicked =
    (if clicked = ls_key cur then \<lparr>ls_key = clicked, ls_dir = (if ls_dir cur = Desc then Asc else Desc)\<rparr>
     else \<lparr>ls_key = clicked, ls_dir = column_default_dir clicked\<rparr>)"

definition sort_value :: "list_sort \<Rightarrow> overview_entry \<Rightarrow> rat option" where
  "sort_value s e = (case ls_key s of By_Rate \<Rightarrow> en_rate e | By_P95 \<Rightarrow> en_p95 e | By_Name \<Rightarrow> None)"

definition sort_bucket :: "list_sort \<Rightarrow> overview_entry \<Rightarrow> nat" where
  "sort_bucket s e = (if \<not> en_enabled e then 2 else if ls_key s = By_Name then 0
     else if sort_value s e = None then 1 else 0)"

definition sort_primary :: "list_sort \<Rightarrow> overview_entry \<Rightarrow> overview_entry \<Rightarrow> rat" where
  "sort_primary s a b =
    (let cmp = (if ls_key s = By_Name then lex (en_model a) (en_model b)
                else the (sort_value s a) - the (sort_value s b))
     in if ls_dir s = Desc then - cmp else cmp)"

definition list_cmp :: "list_sort \<Rightarrow> overview_entry \<Rightarrow> overview_entry \<Rightarrow> rat" where
  "list_cmp s a b =
    (let ba = sort_bucket s a; bb = sort_bucket s b in
     if ba \<noteq> bb then of_nat ba - of_nat bb
     else if ba = 0 \<and> sort_primary s a b \<noteq> 0 then sort_primary s a b
     else if ba = 0 \<and> ls_key s = By_Rate \<and> (entry_rank a = None \<or> entry_rank a \<noteq> entry_rank b)
       then rank_diff (entry_rank a) (entry_rank b)
     else tie_cmp a b)"

definition sort_list_entries :: "overview_entry list \<Rightarrow> list_sort \<Rightarrow> overview_entry list" where
  "sort_list_entries es s = js_sort (list_cmp s) es"

section \<open>Stored and shared forms\<close>

definition sort_key_name :: "sort_key \<Rightarrow> string" where
  "sort_key_name k = (case k of By_Name \<Rightarrow> ''name'' | By_Rate \<Rightarrow> ''rate'' | By_P95 \<Rightarrow> ''p95'')"

definition sort_dir_name :: "sort_dir \<Rightarrow> string" where
  "sort_dir_name d = (case d of Asc \<Rightarrow> ''asc'' | Desc \<Rightarrow> ''desc'')"

definition sort_keys :: "sort_key list" where
  "sort_keys = [By_Name, By_Rate, By_P95]"

definition sort_dirs :: "sort_dir list" where
  "sort_dirs = [Asc, Desc]"

definition known_key :: "string \<Rightarrow> sort_key option" where
  \<comment> \<open>\<open>SORT_KEYS.includes\<close>, with the key it names\<close>
  "known_key w = List.find (\<lambda>k. sort_key_name k = w) sort_keys"

definition known_dir :: "string \<Rightarrow> sort_dir option" where
  "known_dir w = List.find (\<lambda>d. sort_dir_name d = w) sort_dirs"

definition sort_of_words :: "string \<Rightarrow> string \<Rightarrow> list_sort option" where
  "sort_of_words k d = (case (known_key k, known_dir d) of
     (Some k', Some d') \<Rightarrow> Some \<lparr>ls_key = k', ls_dir = d'\<rparr> | _ \<Rightarrow> None)"

text \<open>
  A storage is absent (\<open>None\<close>), or its \<open>getItem\<close> throws (\<open>Some (Inl ())\<close>) or returns
  a text or \<open>null\<close>; \<open>parse\<close> is \<open>JSON.parse\<close>, \<open>None\<close> where it throws.
\<close>

definition load_list_sort :: "(string \<Rightarrow> jsval option) \<Rightarrow> (unit + string option) option \<Rightarrow> list_sort" where
  "load_list_sort parse storage = (case storage of
     Some (Inr (Some raw)) \<Rightarrow> if raw = [] then list_sort_default
       else (case parse raw of None \<Rightarrow> list_sort_default
         | Some v \<Rightarrow> (case (get v ''key'', get v ''dir'') of
             (JStr k, JStr d) \<Rightarrow> (case sort_of_words k d of Some s \<Rightarrow> s | None \<Rightarrow> list_sort_default)
           | _ \<Rightarrow> list_sort_default))
   | _ \<Rightarrow> list_sort_default)"

definition list_sort_props :: "list_sort \<Rightarrow> jsval" where
  \<comment> \<open>the object that \<open>saveListSort\<close> serializes\<close>
  "list_sort_props s = JObj [(''key'', JStr (sort_key_name (ls_key s))), (''dir'', JStr (sort_dir_name (ls_dir s)))]"

definition save_list_sort :: "(jsval \<Rightarrow> string) \<Rightarrow> list_sort \<Rightarrow> bool \<Rightarrow> (unit + string option) option \<Rightarrow> (unit + string option) option" where
  \<comment> \<open>the storage afterwards; \<open>fails\<close> when \<open>setItem\<close> throws\<close>
  "save_list_sort stringify s fails storage =
    (if storage = None \<or> fails then storage else Some (Inr (Some (stringify (list_sort_props s)))))"

definition list_sort_to_query :: "list_sort \<Rightarrow> string" where
  "list_sort_to_query s = sort_key_name (ls_key s) @ '':'' @ sort_dir_name (ls_dir s)"

fun split_at :: "'a \<Rightarrow> 'a list \<Rightarrow> 'a list list" where
  \<comment> \<open>\<open>raw.split(c)\<close>\<close>
  "split_at c [] = [[]]"
| "split_at c (x # xs) = (case split_at c xs of
     w # ws \<Rightarrow> if x = c then [] # w # ws else (x # w) # ws | [] \<Rightarrow> [[x]])"

definition parse_list_sort_query :: "jsval \<Rightarrow> list_sort option" where
  "parse_list_sort_query raw = (case raw of
     JStr t \<Rightarrow> (case split_at CHR '':'' t of k # d # _ \<Rightarrow> sort_of_words k d | _ \<Rightarrow> None)
   | _ \<Rightarrow> None)"

definition list_sort_note :: "list_sort \<Rightarrow> ustring" where
  "list_sort_note s = (let w = (if ls_dir s = Desc then [0x964D, 0x5E8F] else [0x5347, 0x5E8F]) in
     case ls_key s of
       By_Name \<Rightarrow> [0xFF08, 0x6309, 0x540D, 0x79F0] @ w @ [0xFF09]
     | By_P95 \<Rightarrow> ([0xFF08, 0x6309] @ ascii '' P95 '' @ [0x5EF6, 0x8FDF]) @ w @ [0xFF09]
     | By_Rate \<Rightarrow> [0xFF08, 0x6309, 0x53EF, 0x7528, 0x7387] @ w @ [0xFF09])"

section \<open>Sections\<close>

datatype list_grouping = Group_None | Group_Family | Group_Capability | Group_Protocol

definition list_grouping_label :: "list_grouping \<Rightarrow> ustring" where
  "list_grouping_label g = (case g of Group_None \<Rightarrow> [0x4E0D, 0x5206, 0x7EC4] | Group_Family \<Rightarrow> [0x6309, 0x5382, 0x5546]
     | Group_Capability \<Rightarrow> [0x6309, 0x80FD, 0x529B] | Group_Protocol \<Rightarrow> [0x6309, 0x534F, 0x8BAE])"

definition group_key :: "list_grouping \<Rightarrow> overview_entry \<Rightarrow> ustring" where
  "group_key g e = (case g of Group_Family \<Rightarrow> en_family e | Group_Capability \<Rightarrow> en_capability e | _ \<Rightarrow> en_protocol e)"

definition list_section_cmp :: "group_section \<Rightarrow> group_section \<Rightarrow> rat" where
  "list_section_cmp = then_by (\<lambda>a b. rank_diff (group_rank (gs_entries a)) (group_rank (gs_entries b))) (by_text gs_key)"

definition group_list_sections :: "overview_entry list \<Rightarrow> list_grouping \<Rightarrow> list_sort \<Rightarrow> group_section list" where
  "group_list_sections es g s =
    js_sort list_section_cmp
      (map (\<lambda>(k, xs). \<lparr>gs_key = k, gs_entries = sort_list_entries xs s\<rparr>) (buckets (group_key g) es))"

definition list_section_meta :: "overview_entry list \<Rightarrow> ustring" where
  "list_section_meta es =
    (let c = abnormal_model_counts es; n = dec (int (length es)) @ (ascii '' '' @ [0x4E2A, 0x7AEF, 0x70B9]);
         suffix = (if ac_unverified c > 0 then (ascii '' '' @ [0x00B7] @ ascii '' '') @ status_label ''unverified'' @ ascii '' '' @ dec (ac_unverified c) else [])
     in if ac_total c = 0 then (if ac_unverified c > 0 then n @ suffix else n)
        else n @ (ascii '' '' @ [0x00B7] @ ascii '' '') @ status_label ''incident'' @ ascii '' '' @ dec (ac_incident c) @ (ascii '' '' @ [0x00B7] @ ascii '' '') @
          status_label ''degraded'' @ ascii '' '' @ dec (ac_degraded c) @ suffix)"

section \<open>The comparisons\<close>

definition column_value :: "list_sort \<Rightarrow> overview_entry \<Rightarrow> rat" where
  \<comment> \<open>the value compared inside the first bucket, zero outside\<close>
  "column_value s e = (if sort_bucket s e = 0 \<and> ls_key s \<noteq> By_Name then the (sort_value s e) else 0)"

definition column_name :: "list_sort \<Rightarrow> overview_entry \<Rightarrow> ustring" where
  "column_name s e = (if sort_bucket s e = 0 \<and> ls_key s = By_Name then en_model e else [])"

definition column_cmp :: "list_sort \<Rightarrow> overview_entry \<Rightarrow> overview_entry \<Rightarrow> rat" where
  "column_cmp s = then_by (by_num (column_value s)) (by_text (column_name s))"

definition column_rank :: "list_sort \<Rightarrow> overview_entry \<Rightarrow> rat" where
  "column_rank s e = (if sort_bucket s e = 0 \<and> ls_key s = By_Rate then rank_of e else 0)"

definition list_order :: "list_sort \<Rightarrow> overview_entry \<Rightarrow> overview_entry \<Rightarrow> rat" where
  "list_order s = then_by (by_num (\<lambda>e. of_nat (sort_bucket s e)))
    (then_by (if ls_dir s = Desc then (\<lambda>a b. - column_cmp s a b) else column_cmp s)
      (then_by (by_num (column_rank s)) tie_cmp))"

lemma list_cmp_known: "known a \<Longrightarrow> known b \<Longrightarrow> list_cmp s a b = list_order s a b"
  by (cases "sort_bucket s a = sort_bucket s b"; cases "ls_key s")
    (auto simp: list_cmp_def list_order_def then_by_def by_num_def by_text_def column_cmp_def column_value_def
      column_name_def column_rank_def sort_primary_def Let_def rank_diff_def)

lemma comparator_list: "comparator known (list_cmp s)"
proof (rule comparator_cong)
  show "comparator known (list_order s)"
    unfolding list_order_def column_cmp_def
    by (intro comparator_then_by comparator_num comparator_tie, cases "ls_dir s")
      (simp_all add: comparator_negate comparator_then_by comparator_num comparator_text)
qed (rule list_cmp_known)

interpretation rows: comparator known "list_cmp s" for s
  by (rule comparator_list)

lemma list_cmp_le:
  assumes "known a" "known b" "list_cmp s a b \<le> 0"
  shows "sort_bucket s a \<le> sort_bucket s b"
    and "sort_bucket s a = 0 \<Longrightarrow> sort_bucket s b = 0 \<Longrightarrow> sort_primary s a b \<le> 0"
proof -
  have o: "list_order s a b \<le> 0" using assms by (simp add: list_cmp_known)
  from then_by_le [OF o [unfolded list_order_def]] show "sort_bucket s a \<le> sort_bucket s b" by (simp add: by_num_def)
  assume z: "sort_bucket s a = 0" "sort_bucket s b = 0"
  with assms(3) show "sort_primary s a b \<le> 0" by (auto simp: list_cmp_def split: if_splits)
qed

lemma list_section_known:
  "known_section a \<Longrightarrow> known_section b \<Longrightarrow> list_section_cmp a b = section_cmp a b"
  by (auto simp: list_section_cmp_def section_cmp_def known_section_def group_rank_least then_by_def rank_diff_def Let_def)

interpretation list_sections: comparator known_section list_section_cmp
  by (rule comparator_cong [OF sections.comparator_axioms]) (rule list_section_known)

lemma known_key_name: "known_key w = Some k \<longleftrightarrow> w = sort_key_name k"
  by (cases k) (auto simp: known_key_def sort_keys_def sort_key_name_def)

lemma known_dir_name: "known_dir w = Some d \<longleftrightarrow> w = sort_dir_name d"
  by (cases d) (auto simp: known_dir_def sort_dirs_def sort_dir_name_def)

lemma sort_of_words_iff:
  "sort_of_words k d = Some s \<longleftrightarrow> k = sort_key_name (ls_key s) \<and> d = sort_dir_name (ls_dir s)"
  by (cases s) (auto simp: sort_of_words_def split: option.splits simp flip: known_key_name known_dir_name)

lemma sort_of_words_names [simp]: "sort_of_words (sort_key_name (ls_key s)) (sort_dir_name (ls_dir s)) = Some s"
  by (simp add: sort_of_words_iff)

lemma split_at_nonempty: "split_at c xs \<noteq> []"
  by (induction xs) (auto split: list.split)

lemma split_at_sep: "c \<notin> set xs \<Longrightarrow> split_at c (xs @ c # ys) = xs # split_at c ys"
proof (induction xs)
  case Nil
  then show ?case using split_at_nonempty [of c ys] by (cases "split_at c ys") auto
qed (auto split: list.split)

lemma split_at_none: "c \<notin> set xs \<Longrightarrow> split_at c xs = [xs]"
  by (induction xs) (auto split: list.split)

lemma split_at_join: "split_at c xs = k # d # ws \<Longrightarrow> \<exists>ys. xs = k @ c # d @ ys \<and> (ys = [] \<or> hd ys = c)"
proof -
  have first: "split_at c xs = w # ws \<Longrightarrow> (ws = [] \<and> xs = w) \<or> (\<exists>ys. xs = w @ c # ys \<and> split_at c ys = ws)" for xs w ws
  proof (induction xs arbitrary: w ws)
    case (Cons x xs)
    then obtain v vs where v: "split_at c xs = v # vs" using split_at_nonempty [of c xs] by (cases "split_at c xs") auto
    with Cons.prems Cons.IH [OF v] show ?case by (auto split: if_splits)
  qed simp
  assume "split_at c xs = k # d # ws"
  from first [OF this] obtain ys where ys: "xs = k @ c # ys" "split_at c ys = d # ws" by auto
  from first [OF ys(2)] ys(1) show ?thesis by auto
qed

lemma names_no_colon: "CHR '':'' \<notin> set (sort_key_name k)" "CHR '':'' \<notin> set (sort_dir_name d)"
  by (cases k; simp add: sort_key_name_def) (cases d; simp add: sort_dir_name_def)

section \<open>Properties\<close>


definition rated_rows :: "overview_entry list" where
  "rated_rows = [(sample_entry 1 ''a'' ''down'')\<lparr>en_rate := Some 0\<rparr>, sample_entry 2 ''b'' ''unverified'',
     (sample_entry 3 ''c'' ''healthy'')\<lparr>en_rate := Some 1, en_enabled := False\<rparr>,
     (sample_entry 4 ''d'' ''healthy'')\<lparr>en_rate := Some (9 / 10)\<rparr>]"


text \<open>
  Grouping splits the rows without losing or repeating any: the section keys
  are distinct and are the keys of the rows, every section holds exactly the rows of its
  key in the order of the column sort, together they hold the given rows, and the
  sections come in the order of the most severe of their enabled rows.
\<close>

theorem sections_partition_the_rows:
  assumes "list_all known es"
  shows "distinct (map gs_key (group_list_sections es g s)) \<and>
    set (map gs_key (group_list_sections es g s)) = group_key g ` set es \<and>
    (\<forall>x \<in> set (group_list_sections es g s).
      gs_entries x = sort_list_entries (filter (\<lambda>e. group_key g e = gs_key x) es) s) \<and>
    mset (concat (map gs_entries (group_list_sections es g s))) = mset es \<and>
    sorted_wrt (\<lambda>a b. least_rank (gs_entries a) \<le> least_rank (gs_entries b)) (group_list_sections es g s)"
proof (intro conjI)
  let ?mk = "\<lambda>(k, xs). \<lparr>gs_key = k, gs_entries = sort_list_entries xs s\<rparr>"
  let ?in = "map ?mk (buckets (group_key g) es)"
  have m: "mset (group_list_sections es g s) = mset ?in" by (simp add: group_list_sections_def)
  have keys: "map gs_key ?in = map fst (buckets (group_key g) es)" by (simp add: case_prod_unfold o_def)
  have mk: "mset (map gs_key (group_list_sections es g s)) = mset (map fst (buckets (group_key g) es))"
    unfolding mset_map m keys [symmetric] ..
  then show "distinct (map gs_key (group_list_sections es g s))"
    using distinct_buckets [of "group_key g" es] by (metis mset_eq_imp_distinct_iff)
  show "set (map gs_key (group_list_sections es g s)) = group_key g ` set es"
    unfolding mset_eq_setD [OF mk] by (simp add: keys_buckets)
  have mem: "x \<in> set (group_list_sections es g s) \<Longrightarrow> x \<in> set ?in" for x using mset_eq_setD [OF m] by simp
  then show "\<forall>x \<in> set (group_list_sections es g s). gs_entries x = sort_list_entries (filter (\<lambda>e. group_key g e = gs_key x) es) s"
    by (fastforce simp: in_buckets)
  have c: "mset (concat (map gs_entries xs)) = (\<Sum>x \<in># mset xs. mset (gs_entries x))" for xs by (induction xs) auto
  have "mset (concat (map gs_entries (group_list_sections es g s))) = mset (concat (map gs_entries ?in))" unfolding c m ..
  also have "\<dots> = mset (concat (map snd (buckets (group_key g) es)))"
  proof -
    have "mset (concat (map gs_entries (map ?mk bs))) = mset (concat (map snd bs))" for bs
      by (induction bs) (auto simp: sort_list_entries_def)
    then show ?thesis .
  qed
  finally show "mset (concat (map gs_entries (group_list_sections es g s))) = mset es" by (simp only: buckets_partition)
  have sec: "list_all known_section ?in"
    using assms by (auto simp: list_all_iff known_section_def in_buckets sort_list_entries_def)
  show "sorted_wrt (\<lambda>a b. least_rank (gs_entries a) \<le> least_rank (gs_entries b)) (group_list_sections es g s)"
    unfolding group_list_sections_def
  proof (rule sorted_wrt_mono_rel [OF _ list_sections.sorted [OF sec]])
    fix a b
    assume "a \<in> set (js_sort list_section_cmp ?in)" "b \<in> set (js_sort list_section_cmp ?in)" "list_section_cmp a b \<le> 0"
    then have "known_section a" "known_section b" "list_section_cmp a b \<le> 0" using sec by (auto simp: list_all_iff)
    then show "least_rank (gs_entries a) \<le> least_rank (gs_entries b)"
      by (auto simp: list_section_known section_cmp_known by_num_def dest!: then_by_le)
  qed
qed

lemma sections_partition_the_rows_witness:
  "mset (concat (map gs_entries (group_list_sections rated_rows Group_Family list_sort_default))) = mset rated_rows"
proof -
  have k: "list_all known rated_rows" by (simp add: rated_rows_def sample_entry_def known_def severity_order_def)
  show ?thesis using sections_partition_the_rows [OF k] by blast
qed

text \<open>
  The sort survives its shared and its stored form: parsing the query of a
  sort gives the sort back, only texts that start with such a query (and a colon
  after it, if anything) are accepted, and loading what was saved gives the sort back
  for any JSON parser that reads back the saved object.
\<close>

theorem sort_round_trips:
  "parse_list_sort_query (JStr (list_sort_to_query s)) = Some s \<and>
   (parse_list_sort_query raw = Some s \<longrightarrow>
     (\<exists>rest. raw = JStr (list_sort_to_query s @ rest) \<and> (rest = [] \<or> hd rest = CHR '':''))) \<and>
   (parse (stringify (list_sort_props s)) = Some (list_sort_props s) \<and> stringify (list_sort_props s) \<noteq> [] \<longrightarrow>
     load_list_sort parse (save_list_sort stringify s False (Some old)) = s)"
proof (intro conjI impI)
  show "parse_list_sort_query (JStr (list_sort_to_query s)) = Some s"
    by (simp add: parse_list_sort_query_def list_sort_to_query_def split_at_sep split_at_none names_no_colon)
  show "\<exists>rest. raw = JStr (list_sort_to_query s @ rest) \<and> (rest = [] \<or> hd rest = CHR '':'')"
    if p: "parse_list_sort_query raw = Some s"
  proof -
    obtain t k d ws where t: "raw = JStr t" "split_at CHR '':'' t = k # d # ws" "sort_of_words k d = Some s"
      using p by (auto simp: parse_list_sort_query_def split: jsval.splits list.splits)
    from split_at_join [OF t(2)] t(1,3) show ?thesis by (auto simp: sort_of_words_iff list_sort_to_query_def)
  qed
  show "load_list_sort parse (save_list_sort stringify s False (Some old)) = s"
    if "parse (stringify (list_sort_props s)) = Some (list_sort_props s) \<and> stringify (list_sort_props s) \<noteq> []"
    using that by (auto simp: load_list_sort_def save_list_sort_def list_sort_props_def neq_Nil_conv)
qed

lemma sort_round_trips_witness:
  "parse_list_sort_query (JStr ''p95:asc:x'') = Some \<lparr>ls_key = By_P95, ls_dir = Asc\<rparr> \<and>
   load_list_sort (\<lambda>_. Some (list_sort_props list_sort_default))
     (save_list_sort (\<lambda>_. ''{}'') list_sort_default False (Some (Inl ()))) = list_sort_default"
proof -
  have p: "parse_list_sort_query (JStr ''p95:asc:x'') = Some \<lparr>ls_key = By_P95, ls_dir = Asc\<rparr>" by code_simp
  have "load_list_sort (\<lambda>_. Some (list_sort_props list_sort_default))
      (save_list_sort (\<lambda>_. ''{}'') list_sort_default False (Some (Inl ()))) = list_sort_default"
    by (rule sort_round_trips [THEN conjunct2, THEN conjunct2, rule_format]) simp
  with p show ?thesis by blast
qed

end
