(* ===== verification/Alert_Timeline.thy ===== *)
theory Alert_Timeline
  imports Model_List "HOL-Library.Sublist"
begin

text \<open>
  The incident timeline: \<open>alertKind.ts\<close> (the event vocabulary),
  \<open>alertTimeline.ts\<close> (time ranges, pairing of an outage with its recovery, days,
  weeks and months, the inline detail, the URL codec of the filters) and
  \<open>recentEvents.ts\<close> (the cards of the dashboard). A moment is a rational number
  of milliseconds; a timestamp that does not parse is \<open>None\<close> (\<open>NaN\<close>).
\<close>

section \<open>Event kinds\<close>

record alert_event =
  ev_id :: int
  ev_endpoint :: "int option"
  ev_kind :: string
  ev_message :: ustring
  ev_sent :: bool
  ev_created :: ustring
  ev_group :: "ustring option"
  ev_campaign :: "int option"

definition alert_kind_labels :: "(string \<times> ustring) list" where
  "alert_kind_labels = [(''down'', [0x6545, 0x969C]), (''recovered'', [0x6062, 0x590D]), (''score_drop'', [0x5206, 0x6570, 0x5927, 0x8DCC]),
     (''score_drop_skipped'', [0x5BF9, 0x6BD4, 0x8DF3, 0x8FC7]), (''test'', [0x6D4B, 0x8BD5]), (''group_down'', [0x5382, 0x5546, 0x7EC4, 0x544A, 0x8B66]),
     (''group_recovered'', [0x5382, 0x5546, 0x7EC4, 0x6062, 0x590D]), (''batch'', [0x805A, 0x5408, 0x53D1, 0x9001]), (''quiet_summary'', [0x9759, 0x9ED8, 0x6458, 0x8981]),
     (''retire_pending'', [0x5F85, 0x9000, 0x5F79]), (''retired'', [0x5DF2, 0x9000, 0x5F79])]"

definition alert_kind_tag_types :: "(string \<times> string) list" where
  "alert_kind_tag_types = [(''down'', ''danger''), (''recovered'', ''success''), (''score_drop'', ''warning''),
     (''score_drop_skipped'', ''warning''), (''test'', ''info''), (''group_down'', ''danger''),
     (''group_recovered'', ''success''), (''batch'', ''info''), (''quiet_summary'', ''info''),
     (''retire_pending'', ''warning''), (''retired'', ''info'')]"

definition alert_kinds :: "string list" where
  "alert_kinds = map fst alert_kind_labels"

definition public_alert_kind_set :: "string list" where
  "public_alert_kind_set = [''down'', ''recovered'', ''group_down'', ''group_recovered'']"

definition visible_kind_options :: "bool \<Rightarrow> string list" where
  "visible_kind_options authed =
    (if authed then alert_kinds else filter (\<lambda>k. k \<in> set public_alert_kind_set) alert_kinds)"

definition alert_kind_label :: "string \<Rightarrow> ustring" where
  "alert_kind_label k = (case map_of alert_kind_labels k of Some l \<Rightarrow> l | None \<Rightarrow> [0x672A, 0x77E5, 0x7C7B, 0x578B])"

definition alert_kind_tag_type :: "string \<Rightarrow> string" where
  "alert_kind_tag_type k = (case map_of alert_kind_tag_types k of Some t \<Rightarrow> t | None \<Rightarrow> ''info'')"

section \<open>Time ranges\<close>

datatype alert_range = Today | Last_24h | Last_7d | Last_30d

definition day_ms :: rat where
  "day_ms = 24 * 60 * 60 * 1000"

definition event_time :: "zone \<Rightarrow> alert_event \<Rightarrow> rat option" where
  "event_time z e = zn_parse z (ev_created e)"

definition range_start :: "zone \<Rightarrow> alert_range \<Rightarrow> rat \<Rightarrow> rat" where
  "range_start z r now = (case r of
     Today \<Rightarrow> let p = zn_local z now in zn_date z (cv_year p) (cv_month p - 1) (cv_day p)
   | Last_24h \<Rightarrow> now - 1 * day_ms | Last_7d \<Rightarrow> now - 7 * day_ms | Last_30d \<Rightarrow> now - 30 * day_ms)"

definition filter_events_by_time_range :: "zone \<Rightarrow> alert_event list \<Rightarrow> alert_range \<Rightarrow> rat \<Rightarrow> alert_event list" where
  "filter_events_by_time_range z evs r now =
    filter (\<lambda>e. case event_time z e of None \<Rightarrow> False | Some t \<Rightarrow> range_start z r now \<le> t \<and> t \<le> now) evs"

section \<open>Pairing outages with recoveries\<close>

datatype incident_duration = Paired "rat option" int | Ongoing

definition incident_scope_key :: "alert_event \<Rightarrow> ustring option" where
  "incident_scope_key e =
    (if ev_kind e = ''down'' \<or> ev_kind e = ''recovered''
     then map_option (\<lambda>i. ascii ''endpoint:'' @ dec i) (ev_endpoint e)
     else if ev_kind e = ''group_down'' \<or> ev_kind e = ''group_recovered''
     then map_option (\<lambda>g. ascii ''group:'' @ g) (ev_group e) else None)"

definition is_opener :: "alert_event \<Rightarrow> bool" where
  "is_opener e \<longleftrightarrow> ev_kind e = ''down'' \<or> ev_kind e = ''group_down''"

definition ascending_cmp :: "zone \<Rightarrow> alert_event \<Rightarrow> alert_event \<Rightarrow> rat" where
  "ascending_cmp z a b = (case (event_time z a, event_time z b) of
     (Some s, Some t) \<Rightarrow> if s - t \<noteq> 0 then s - t else of_int (ev_id a) - of_int (ev_id b)
   | _ \<Rightarrow> 0)"

definition span_ms :: "zone \<Rightarrow> alert_event \<Rightarrow> alert_event \<Rightarrow> rat option" where
  \<comment> \<open>\<open>Math.max(0, closed - opened)\<close>\<close>
  "span_ms z down e = (case (event_time z e, event_time z down) of
     (Some t, Some s) \<Rightarrow> Some (max 0 (t - s)) | _ \<Rightarrow> None)"

type_synonym durations = "(int \<times> incident_duration) list"

fun close_scope :: "zone \<Rightarrow> alert_event list \<Rightarrow> alert_event list \<Rightarrow> durations \<Rightarrow> durations" where
  \<comment> \<open>the loop over the ascending events of a scope, with its queue of open outages\<close>
  "close_scope z downs [] res = fold (\<lambda>d. alset (ev_id d) Ongoing) downs res"
| "close_scope z downs (e # es) res =
    (if is_opener e then close_scope z (downs @ [e]) es res
     else case downs of
       [] \<Rightarrow> close_scope z [] es res
     | d # ds \<Rightarrow> close_scope z ds es (alset (ev_id d) (Paired (span_ms z d e) (ev_id e)) res))"

definition scoped_events :: "alert_event list \<Rightarrow> (ustring \<times> alert_event list) list" where
  \<comment> \<open>\<open>byScope\<close>\<close>
  "scoped_events evs = buckets (\<lambda>e. the (incident_scope_key e)) (filter (\<lambda>e. incident_scope_key e \<noteq> None) evs)"

definition pair_incident_durations :: "zone \<Rightarrow> alert_event list \<Rightarrow> durations" where
  "pair_incident_durations z evs =
    fold (\<lambda>(k, xs). close_scope z [] (js_sort (ascending_cmp z) xs)) (scoped_events evs) []"

section \<open>Days, weeks and months\<close>

record alert_day_group =
  dg_key :: ustring
  dg_label :: ustring
  dg_events :: "alert_event list"

definition local_day_key :: "civil \<Rightarrow> ustring" where
  "local_day_key p = dec (cv_year p) @ ascii ''-'' @ pad2 (cv_month p) @ ascii ''-'' @ pad2 (cv_day p)"

definition event_day :: "zone \<Rightarrow> alert_event \<Rightarrow> civil" where
  "event_day z e = zn_local z (the (event_time z e))"

definition day_label :: "zone \<Rightarrow> rat \<Rightarrow> ustring \<Rightarrow> civil \<Rightarrow> ustring" where
  "day_label z now key p =
    (let anchor = (if key = local_day_key (zn_local z now) then ([0x4ECA, 0x5929] @ ascii '' '' @ [0x00B7] @ ascii '' '')
           else if key = local_day_key (zn_local z (now - day_ms)) then ([0x6628, 0x5929] @ ascii '' '' @ [0x00B7] @ ascii '' '') else []);
         month_day = dec (cv_month p) @ (ascii '' '' @ [0x6708] @ ascii '' '') @ dec (cv_day p) @ (ascii '' '' @ [0x65E5])
     in anchor @ (if cv_year p = cv_year (zn_local z now) then month_day
                  else dec (cv_year p) @ (ascii '' '' @ [0x5E74] @ ascii '' '') @ month_day))"

definition newest_key_first :: "('a \<Rightarrow> ustring) \<Rightarrow> 'a \<Rightarrow> 'a \<Rightarrow> rat" where
  "newest_key_first key a b = (if key a < key b then 1 else -1)"

definition group_events_by_date :: "zone \<Rightarrow> alert_event list \<Rightarrow> rat \<Rightarrow> alert_day_group list" where
  \<comment> \<open>the label of a day is made by its first event\<close>
  "group_events_by_date z evs now =
    js_sort (newest_key_first dg_key)
      (map (\<lambda>(k, xs). \<lparr>dg_key = k, dg_label = day_label z now k (event_day z (hd xs)), dg_events = xs\<rparr>)
        (buckets (\<lambda>e. local_day_key (event_day z e)) (filter (\<lambda>e. event_time z e \<noteq> None) evs)))"

record alert_week_group =
  wg_key :: ustring
  wg_label :: ustring
  wg_days :: "alert_day_group list"

record alert_month_group =
  mg_key :: ustring
  mg_label :: ustring
  mg_weeks :: "alert_week_group list"

definition monday_of :: "zone \<Rightarrow> rat \<Rightarrow> rat" where
  "monday_of z d = (let p = zn_local z d; day = zn_date z (cv_year p) (cv_month p - 1) (cv_day p) in
     zn_date z (cv_year p) (cv_month p - 1) (cv_day p - (zn_weekday z day + 6) mod 7))"

definition week_label :: "zone \<Rightarrow> rat \<Rightarrow> ustring" where
  "week_label z monday =
    (let p = zn_local z monday; q = zn_local z (zn_date z (cv_year p) (cv_month p - 1) (cv_day p + 6));
         cross = (cv_year p \<noteq> cv_year q);
         fmt = (\<lambda>r. (if cross then dec (cv_year r) @ ascii ''/'' else []) @ dec (cv_month r) @ ascii ''/'' @ dec (cv_day r))
     in fmt p @ [0x2013] @ fmt q)"

definition digits_value :: "ustring \<Rightarrow> int" where
  \<comment> \<open>\<open>Number\<close> of a run of digits\<close>
  "digits_value w = fold (\<lambda>c n. 10 * n + (int c - 0x30)) w 0"

definition day_numbers :: "ustring \<Rightarrow> int \<times> int \<times> int" where
  \<comment> \<open>\<open>day.key.split('-').map(Number)\<close>\<close>
  "day_numbers key = (case split_at 0x2D key of
     y # m # d # _ \<Rightarrow> (digits_value y, digits_value m, digits_value d) | _ \<Rightarrow> (0, 0, 0))"

definition month_key :: "alert_day_group \<Rightarrow> ustring" where
  "month_key day = (case day_numbers (dg_key day) of (y, m, _) \<Rightarrow> dec y @ ascii ''-'' @ pad2 m)"

definition day_monday :: "zone \<Rightarrow> alert_day_group \<Rightarrow> rat" where
  "day_monday z day = (case day_numbers (dg_key day) of (y, m, d) \<Rightarrow> monday_of z (zn_date z y (m - 1) d))"

definition week_key :: "zone \<Rightarrow> alert_day_group \<Rightarrow> ustring" where
  "week_key z day = local_day_key (zn_local z (day_monday z day))"

definition month_label :: "zone \<Rightarrow> rat \<Rightarrow> alert_day_group \<Rightarrow> ustring" where
  "month_label z now day = (case day_numbers (dg_key day) of (y, m, _) \<Rightarrow>
     if y = cv_year (zn_local z now) then dec m @ (ascii '' '' @ [0x6708]) else dec y @ (ascii '' '' @ [0x5E74] @ ascii '' '') @ dec m @ (ascii '' '' @ [0x6708]))"

definition weeks_of :: "zone \<Rightarrow> alert_day_group list \<Rightarrow> alert_week_group list" where
  "weeks_of z days = js_sort (newest_key_first wg_key)
     (map (\<lambda>(k, ds). \<lparr>wg_key = k, wg_label = week_label z (day_monday z (hd ds)), wg_days = ds\<rparr>)
       (buckets (week_key z) days))"

definition group_events_by_month_week_day :: "zone \<Rightarrow> alert_event list \<Rightarrow> rat \<Rightarrow> alert_month_group list" where
  "group_events_by_month_week_day z evs now = js_sort (newest_key_first mg_key)
     (map (\<lambda>(k, ds). \<lparr>mg_key = k, mg_label = month_label z now (hd ds), mg_weeks = weeks_of z ds\<rparr>)
       (buckets month_key (group_events_by_date z evs now)))"

section \<open>Details and cards\<close>

definition alert_sent_label :: "alert_event \<Rightarrow> ustring" where
  "alert_sent_label e = (if ev_kind e = ''score_drop_skipped'' then [0x672A, 0x53D1, 0x9001]
     else if ev_sent e then [0x6210, 0x529F] else [0x5931, 0x8D25])"

datatype pairing_text = Pairing_Paired ustring | Pairing_Ongoing ustring | Pairing_None ustring

record alert_event_detail =
  ad_message :: ustring
  ad_timestamp :: ustring
  ad_id_text :: ustring
  ad_endpoint :: "int option"
  ad_pairing :: pairing_text
  ad_sent_text :: ustring

definition format_span :: "rat option \<Rightarrow> ustring" where
  \<comment> \<open>\<open>formatDuration\<close> of a number that may be \<open>NaN\<close>: no comparison holds, so it reads as hours\<close>
  "format_span ms = (case ms of Some q \<Rightarrow> format_duration (Some q) | None \<Rightarrow> (ascii ''NaN '' @ [0x5C0F, 0x65F6] @ ascii '' NaN '' @ [0x5206]))"

definition build_event_detail :: "zone \<Rightarrow> alert_event \<Rightarrow> alert_event list \<Rightarrow> durations \<Rightarrow> alert_event_detail" where
  "build_event_detail z e evs ds = \<lparr>
     ad_message = ev_message e,
     ad_timestamp = format_time z (Some (ev_created e)),
     ad_id_text = ([0x4E8B, 0x4EF6] @ ascii '' ID #'') @ dec (ev_id e) @
       (case ev_endpoint e of None \<Rightarrow> [] | Some i \<Rightarrow> (ascii '' '' @ [0x00B7] @ ascii '' '' @ [0x7AEF, 0x70B9] @ ascii '' ID #'') @ dec i) @
       (case ev_group e of None \<Rightarrow> [] | Some g \<Rightarrow> (ascii '' '' @ [0x00B7] @ ascii '' '' @ [0x5382, 0x5546, 0x7EC4] @ ascii '' '') @ g),
     ad_endpoint = ev_endpoint e,
     ad_pairing = (case map_of ds (ev_id e) of
         None \<Rightarrow> Pairing_None [0x2014]
       | Some Ongoing \<Rightarrow> Pairing_Ongoing [0x8FDB, 0x884C, 0x4E2D]
       | Some (Paired ms c) \<Rightarrow> Pairing_Paired (case List.find (\<lambda>x. ev_id x = c) evs of
             Some x \<Rightarrow> ([0x6062, 0x590D, 0x4E8E] @ ascii '' '') @ format_time z (Some (ev_created x)) @ (ascii '' '' @ [0x00B7] @ ascii '' '' @ [0x6301, 0x7EED] @ ascii '' '') @ format_span ms
           | None \<Rightarrow> ([0x6301, 0x7EED] @ ascii '' '') @ format_span ms)),
     ad_sent_text = alert_sent_label e @ (ascii '' '' @ [0x00B7] @ ascii '' sent_ok='') @ (if ev_sent e then ascii ''true'' else ascii ''false'')\<rparr>"

definition select_recent_events :: "alert_event list \<Rightarrow> nat \<Rightarrow> alert_event list" where
  "select_recent_events evs limit = take limit evs"

definition endpoint_model_map :: "overview_entry list \<Rightarrow> (int \<times> ustring) list" where
  "endpoint_model_map es = fold (\<lambda>e. alset (en_id e) (en_model e)) es []"

definition impact_text :: "alert_event \<Rightarrow> (int \<times> ustring) list \<Rightarrow> ustring" where
  "impact_text e models = (case ev_group e of Some g \<Rightarrow> ([0x5F71, 0x54CD] @ ascii '' '') @ g
     | None \<Rightarrow> (case ev_endpoint e of
         Some i \<Rightarrow> ([0x5F71, 0x54CD] @ ascii '' '') @ (case map_of models i of Some m \<Rightarrow> m | None \<Rightarrow> ascii ''#'' @ dec i)
       | None \<Rightarrow> alert_kind_label (ev_kind e)))"

definition event_chip :: "alert_event \<Rightarrow> durations \<Rightarrow> ustring \<times> string" where
  "event_chip e ds = (case map_of ds (ev_id e) of
       Some Ongoing \<Rightarrow> [0x8FDB, 0x884C, 0x4E2D] | Some (Paired _ _) \<Rightarrow> [0x5DF2, 0x6062, 0x590D] | None \<Rightarrow> alert_kind_label (ev_kind e),
     alert_kind_tag_type (ev_kind e))"

definition incident_duration_text :: "zone \<Rightarrow> alert_event \<Rightarrow> durations \<Rightarrow> rat \<Rightarrow> ustring" where
  "incident_duration_text z e ds now = (case map_of ds (ev_id e) of
     None \<Rightarrow> []
   | Some (Paired ms _) \<Rightarrow> ([0x6301, 0x7EED] @ ascii '' '') @ format_span ms
   | Some Ongoing \<Rightarrow> ([0x5DF2, 0x6301, 0x7EED] @ ascii '' '') @ format_duration (Some
       (case event_time z e of None \<Rightarrow> 0 | Some t \<Rightarrow> max 0 (now - t))))"

section \<open>The URL codec\<close>

record alerts_filter =
  af_model :: "string option"
  af_kind :: "string option"
  af_range :: alert_range

definition alerts_filter_default :: alerts_filter where
  "alerts_filter_default = \<lparr>af_model = None, af_kind = None, af_range = Last_7d\<rparr>"

definition range_name :: "alert_range \<Rightarrow> string" where
  "range_name r = (case r of Today \<Rightarrow> ''today'' | Last_24h \<Rightarrow> ''24h'' | Last_7d \<Rightarrow> ''7d'' | Last_30d \<Rightarrow> ''30d'')"

definition alert_time_ranges :: "alert_range list" where
  "alert_time_ranges = [Today, Last_24h, Last_7d, Last_30d]"

definition query_text :: "string \<Rightarrow> string option \<Rightarrow> props" where
  \<comment> \<open>\<open>if (v) query.k = v\<close>\<close>
  "query_text k v = (case v of None \<Rightarrow> [] | Some t \<Rightarrow> if t = [] then [] else [(k, JStr t)])"

definition alerts_filter_to_query :: "alerts_filter \<Rightarrow> props" where
  "alerts_filter_to_query f = query_text ''model'' (af_model f) @ query_text ''kind'' (af_kind f) @
     (if af_range f \<noteq> af_range alerts_filter_default then [(''range'', JStr (range_name (af_range f)))] else [])"

definition first_query_string :: "jsval \<Rightarrow> string option" where
  "first_query_string raw =
    (let first = (if is_arr raw then (case elems raw of [] \<Rightarrow> JUndef | x # _ \<Rightarrow> x) else raw) in
     case first of JStr t \<Rightarrow> Some t | _ \<Rightarrow> None)"

definition parse_alerts_filter_query :: "props \<Rightarrow> alerts_filter" where
  "parse_alerts_filter_query q =
    (let m = first_query_string (field q ''model''); k = first_query_string (field q ''kind'');
         r = first_query_string (field q ''range'')
     in \<lparr>af_model = (case m of Some t \<Rightarrow> if t = [] then None else Some t | None \<Rightarrow> None),
         af_kind = (case k of Some t \<Rightarrow> if t \<in> set alert_kinds then Some t else None | None \<Rightarrow> None),
         af_range = (case r of
             Some t \<Rightarrow> (case List.find (\<lambda>x. range_name x = t) alert_time_ranges of Some x \<Rightarrow> x | None \<Rightarrow> af_range alerts_filter_default)
           | None \<Rightarrow> af_range alerts_filter_default)\<rparr>)"

section \<open>First in, first out\<close>

text \<open>The pairs a scope produces, and the outages left open.\<close>

fun pairs :: "alert_event list \<Rightarrow> alert_event list \<Rightarrow> (alert_event \<times> alert_event) list \<times> alert_event list" where
  "pairs ds [] = ([], ds)"
| "pairs ds (e # es) =
    (if is_opener e then pairs (ds @ [e]) es
     else case ds of [] \<Rightarrow> pairs [] es | d # ds' \<Rightarrow> (case pairs ds' es of (ps, left) \<Rightarrow> ((d, e) # ps, left)))"

lemma pairs_openers: "pairs ds es = (ps, left) \<Longrightarrow> map fst ps @ left = ds @ filter is_opener es"
  by (induction ds es arbitrary: ps left rule: pairs.induct) (auto split: if_splits list.splits prod.splits)

lemma pairs_closers: "pairs ds es = (ps, left) \<Longrightarrow> subseq (map snd ps) (filter (\<lambda>e. \<not> is_opener e) es)"
  by (induction ds es arbitrary: ps left rule: pairs.induct) (auto split: if_splits list.splits prod.splits)

lemma pairs_ordered:
  "pairs ds es = (ps, left) \<Longrightarrow> sorted_wrt R (ds @ es) \<Longrightarrow> \<forall>(d, e) \<in> set ps. R d e"
proof (induction ds es arbitrary: ps left rule: pairs.induct)
  case (2 ds e es)
  show ?case
  proof (cases "is_opener e")
    case True
    with 2 show ?thesis by auto
  next
    case False
    with 2 show ?thesis
      by (cases ds) (fastforce simp: sorted_wrt_append split: prod.splits)+
  qed
qed simp

definition scope_entries :: "zone \<Rightarrow> alert_event list \<Rightarrow> durations" where
  "scope_entries z es = (case pairs [] es of (ps, left) \<Rightarrow>
     map (\<lambda>(d, e). (ev_id d, Paired (span_ms z d e) (ev_id e))) ps @ map (\<lambda>d. (ev_id d, Ongoing)) left)"

definition set_all :: "('k \<times> 'v) list \<Rightarrow> ('k \<times> 'v) list \<Rightarrow> ('k \<times> 'v) list" where
  "set_all kvs m = fold (\<lambda>(k, v). alset k v) kvs m"

lemma close_scope_pairs:
  "pairs ds es = (ps, left) \<Longrightarrow> close_scope z ds es res =
    set_all (map (\<lambda>(d, e). (ev_id d, Paired (span_ms z d e) (ev_id e))) ps @ map (\<lambda>d. (ev_id d, Ongoing)) left) res"
proof (induction ds es arbitrary: ps left res rule: pairs.induct)
  case (1 ds)
  have "fold (\<lambda>d. alset (ev_id d) Ongoing) ds res = fold (\<lambda>(k, v). alset k v) (map (\<lambda>d. (ev_id d, Ongoing)) ds) res"
    by (induction ds arbitrary: res) auto
  with 1 show ?case by (simp add: set_all_def)
next
  case (2 ds e es)
  then show ?case by (cases ds) (auto simp: set_all_def split: if_splits prod.splits)
qed

lemma close_scope_entries: "close_scope z [] es res = set_all (scope_entries z es) res"
  using close_scope_pairs [of "[]" es] by (cases "pairs [] es") (simp add: scope_entries_def)

lemma map_of_set_all: "distinct (map fst kvs) \<Longrightarrow> map_of (set_all kvs m) = map_of m ++ map_of kvs"
proof (induction kvs arbitrary: m)
  case (Cons kv kvs)
  obtain k v where kv: "kv = (k, v)" by force
  have "map_of (set_all (kv # kvs) m) = (map_of m)(k \<mapsto> v) ++ map_of kvs"
    using Cons by (simp add: set_all_def kv)
  moreover have "map_of kvs k = None" using Cons.prems by (simp add: kv map_of_eq_None_iff)
  ultimately show ?case by (auto simp: kv fun_eq_iff map_add_def split: option.splits)
qed (simp add: set_all_def)

lemma set_all_concat: "fold (\<lambda>(k, xs). set_all (f xs)) ks m = set_all (concat (map (\<lambda>(k, xs). f xs) ks)) m"
  by (induction ks arbitrary: m) (auto simp: set_all_def)

lemma scope_entries_keys: "map fst (scope_entries z es) = map ev_id (filter is_opener es)"
proof -
  obtain ps left where p: "pairs [] es = (ps, left)" by force
  have "map fst (scope_entries z es) = map ev_id (map fst ps @ left)"
    by (simp add: scope_entries_def p case_prod_unfold o_def)
  with pairs_openers [OF p] show ?thesis by simp
qed

section \<open>The whole map\<close>

definition scope_sorted :: "zone \<Rightarrow> alert_event list \<Rightarrow> ustring \<Rightarrow> alert_event list" where
  \<comment> \<open>the events of one scope, ascending\<close>
  "scope_sorted z evs k = js_sort (ascending_cmp z) (filter (\<lambda>e. incident_scope_key e = Some k) evs)"

lemma scoped_events_mem:
  "(k, xs) \<in> set (scoped_events evs) \<longleftrightarrow>
    (\<exists>e \<in> set evs. incident_scope_key e = Some k) \<and> xs = filter (\<lambda>e. incident_scope_key e = Some k) evs"
proof -
  have "filter (\<lambda>e. the (incident_scope_key e) = k) (filter (\<lambda>e. incident_scope_key e \<noteq> None) evs) =
      filter (\<lambda>e. incident_scope_key e = Some k) evs"
    by (auto intro!: filter_cong)
  then show ?thesis by (force simp: scoped_events_def in_buckets)
qed

lemma pairing_as_entries:
  "pair_incident_durations z evs =
    set_all (concat (map (\<lambda>(k, xs). scope_entries z (js_sort (ascending_cmp z) xs)) (scoped_events evs))) []"
  unfolding pair_incident_durations_def close_scope_entries by (rule set_all_concat)

lemma entries_distinct:
  assumes "distinct (map ev_id evs)"
  shows "distinct (map fst (concat (map (\<lambda>(k, xs). scope_entries z (js_sort (ascending_cmp z) xs)) (scoped_events evs))))"
proof -
  let ?b = "scoped_events evs"
  let ?ids = "\<lambda>xs. map ev_id (filter is_opener (js_sort (ascending_cmp z) xs))"
  have sub: "image_mset ev_id (filter_mset is_opener (mset (concat (map snd bs)))) =
      mset (concat (map (\<lambda>(k, xs). ?ids xs) bs))" for bs :: "(ustring \<times> alert_event list) list"
    by (induction bs) (auto simp: mset_filter)
  have "mset (concat (map snd ?b)) = mset (filter (\<lambda>e. incident_scope_key e \<noteq> None) evs)"
    by (simp add: scoped_events_def buckets_partition)
  then have "mset (concat (map (\<lambda>(k, xs). ?ids xs) ?b)) =
      mset (map ev_id (filter is_opener (filter (\<lambda>e. incident_scope_key e \<noteq> None) evs)))"
    by (simp add: sub [symmetric] flip: mset_filter)
  moreover have "distinct (map ev_id (filter is_opener (filter (\<lambda>e. incident_scope_key e \<noteq> None) evs)))"
    using assms by (simp add: distinct_map_filter)
  moreover have "map fst (concat (map (\<lambda>(k, xs). scope_entries z (js_sort (ascending_cmp z) xs)) ?b)) =
      concat (map (\<lambda>(k, xs). ?ids xs) ?b)"
    by (simp add: map_concat o_def case_prod_unfold scope_entries_keys)
  ultimately show ?thesis by (metis mset_eq_imp_distinct_iff)
qed

lemma pairing_lookup:
  assumes "distinct (map ev_id evs)"
  shows "map_of (pair_incident_durations z evs) i = Some d \<longleftrightarrow>
    (\<exists>k. (i, d) \<in> set (scope_entries z (scope_sorted z evs k)))"
proof -
  have e: "map_of (pair_incident_durations z evs) =
      map_of (concat (map (\<lambda>(k, xs). scope_entries z (js_sort (ascending_cmp z) xs)) (scoped_events evs)))"
    unfolding pairing_as_entries by (simp add: map_of_set_all [OF entries_distinct [OF assms]])
  have none: "scope_entries z (scope_sorted z evs k) = []" if "\<not> (\<exists>e \<in> set evs. incident_scope_key e = Some k)" for k
    using that by (auto simp: scope_sorted_def scope_entries_def filter_empty_conv [THEN iffD2])
  have "(i, d) \<in> set (concat (map (\<lambda>(k, xs). scope_entries z (js_sort (ascending_cmp z) xs)) (scoped_events evs))) \<longleftrightarrow>
      (\<exists>k xs. (k, xs) \<in> set (scoped_events evs) \<and> (i, d) \<in> set (scope_entries z (js_sort (ascending_cmp z) xs)))"
    by auto
  also have "\<dots> \<longleftrightarrow> (\<exists>k. (\<exists>e \<in> set evs. incident_scope_key e = Some k) \<and> (i, d) \<in> set (scope_entries z (scope_sorted z evs k)))"
    unfolding scoped_events_mem scope_sorted_def by blast
  also have "\<dots> \<longleftrightarrow> (\<exists>k. (i, d) \<in> set (scope_entries z (scope_sorted z evs k)))"
    using none by (metis empty_iff list.set(1))
  finally show ?thesis unfolding e map_of_eq_Some_iff [OF entries_distinct [OF assms]] .
qed

section \<open>Events with readable timestamps\<close>

definition timed :: "zone \<Rightarrow> alert_event \<Rightarrow> bool" where
  "timed z e \<longleftrightarrow> event_time z e \<noteq> None"

lemma ascending_timed: "timed z a \<Longrightarrow> timed z b \<Longrightarrow> ascending_cmp z a b =
    then_by (by_num (\<lambda>e. the (event_time z e))) (by_num (\<lambda>e. of_int (ev_id e))) a b"
  by (auto simp: timed_def ascending_cmp_def then_by_def by_num_def)

interpretation moments: comparator "timed z" "ascending_cmp z" for z
proof (rule comparator_cong)
  show "comparator (timed z) (then_by (by_num (\<lambda>e. the (event_time z e))) (by_num (\<lambda>e. of_int (ev_id e))))"
    by (intro comparator_then_by comparator_num)
qed (rule ascending_timed)

lemma ascending_le_time:
  "timed z a \<Longrightarrow> timed z b \<Longrightarrow> ascending_cmp z a b \<le> 0 \<Longrightarrow> the (event_time z a) \<le> the (event_time z b)"
  by (auto simp: ascending_timed by_num_def dest!: then_by_le)

lemma scope_sorted_mem: "e \<in> set (scope_sorted z evs k) \<longleftrightarrow> e \<in> set evs \<and> incident_scope_key e = Some k"
  by (auto simp: scope_sorted_def)

lemma scope_sorted_ascending:
  "list_all (timed z) evs \<Longrightarrow> sorted_wrt (\<lambda>a b. ascending_cmp z a b \<le> 0) (scope_sorted z evs k)"
  unfolding scope_sorted_def by (rule moments.sorted) (auto simp: list_all_iff)

definition scope_pairs :: "zone \<Rightarrow> alert_event list \<Rightarrow> ustring \<Rightarrow> (alert_event \<times> alert_event) list" where
  "scope_pairs z evs k = fst (pairs [] (scope_sorted z evs k))"

definition scope_left :: "zone \<Rightarrow> alert_event list \<Rightarrow> ustring \<Rightarrow> alert_event list" where
  "scope_left z evs k = snd (pairs [] (scope_sorted z evs k))"

lemma subseq_set: "subseq xs ys \<Longrightarrow> set xs \<subseteq> set ys"
  by (auto simp: subseq_conv_nths dest: in_set_nthsD)

lemma timed_event: "list_all (timed z) evs \<Longrightarrow> e \<in> set evs \<Longrightarrow> \<exists>s. event_time z e = Some s"
  by (simp add: list_all_iff timed_def)

lemma subseq_distinct: "subseq xs ys \<Longrightarrow> distinct ys \<Longrightarrow> distinct xs"
  by (auto simp: subseq_conv_nths)

lemma scope_split: "pairs [] (scope_sorted z evs k) = (scope_pairs z evs k, scope_left z evs k)"
  by (simp add: scope_pairs_def scope_left_def)

lemmas scope_openers = pairs_openers [OF scope_split, simplified]
  and scope_closers = pairs_closers [OF scope_split]

lemma scope_entries_iff:
  "(i, d) \<in> set (scope_entries z (scope_sorted z evs k)) \<longleftrightarrow>
    (\<exists>(o', c) \<in> set (scope_pairs z evs k). i = ev_id o' \<and> d = Paired (span_ms z o' c) (ev_id c)) \<or>
    (\<exists>o' \<in> set (scope_left z evs k). i = ev_id o' \<and> d = Ongoing)"
  by (auto simp: scope_entries_def scope_split)

lemma scope_opener_mem:
  "e \<in> fst ` set (scope_pairs z evs k) \<union> set (scope_left z evs k) \<longleftrightarrow>
    e \<in> set evs \<and> is_opener e \<and> incident_scope_key e = Some k"
  using arg_cong [OF scope_openers [of z evs k], of set] by (auto simp: scope_sorted_mem)

lemma scope_closer_mem:
  assumes "c \<in> snd ` set (scope_pairs z evs k)"
  shows "c \<in> set evs \<and> \<not> is_opener c \<and> incident_scope_key c = Some k"
proof -
  have "set (map snd (scope_pairs z evs k)) \<subseteq> set (filter (\<lambda>e. \<not> is_opener e) (scope_sorted z evs k))"
    by (rule subseq_set [OF scope_closers])
  with assms show ?thesis by (auto simp: scope_sorted_mem)
qed

lemma scope_pairs_ordered:
  "list_all (timed z) evs \<Longrightarrow> (o', c) \<in> set (scope_pairs z evs k) \<Longrightarrow> ascending_cmp z o' c \<le> 0"
  using pairs_ordered [OF scope_split, of "\<lambda>a b. ascending_cmp z a b \<le> 0"] scope_sorted_ascending by fastforce

lemma scope_closers_distinct:
  assumes "distinct (map ev_id evs)"
  shows "distinct (map snd (scope_pairs z evs k))"
proof -
  have "distinct evs" using assms by (simp add: distinct_map)
  then have "distinct (filter (\<lambda>e. incident_scope_key e = Some k) evs)" by simp
  then have "distinct (scope_sorted z evs k)"
    unfolding scope_sorted_def by (metis mset_eq_imp_distinct_iff mset_js_sort)
  then show ?thesis using subseq_distinct [OF scope_closers] by simp
qed

lemma same_event: "distinct (map ev_id evs) \<Longrightarrow> a \<in> set evs \<Longrightarrow> b \<in> set evs \<Longrightarrow> ev_id a = ev_id b \<Longrightarrow> a = b"
  by (auto simp: distinct_map dest: inj_onD)

lemma same_pair:
  assumes "distinct (map snd ps)" "(a, c) \<in> set ps" "(b, c) \<in> set ps"
  shows "a = b"
  using assms inj_onD [of snd "set ps" "(a, c)" "(b, c)"] by (simp add: distinct_map)

section \<open>Properties\<close>

text \<open>
  C37. Every outage in scope has one entry and nothing else has: it is paired with
  a recovery of the same scope that is not earlier, the duration is the time between
  the two, and no recovery closes two outages.
\<close>

theorem paired_outages_are_real:
  assumes "distinct (map ev_id evs)" "list_all (timed z) evs"
  shows "(map_of (pair_incident_durations z evs) i \<noteq> None \<longleftrightarrow>
      (\<exists>e \<in> set evs. ev_id e = i \<and> is_opener e \<and> incident_scope_key e \<noteq> None)) \<and>
    (\<forall>ms c. map_of (pair_incident_durations z evs) i = Some (Paired ms c) \<longrightarrow>
      (\<exists>e \<in> set evs. \<exists>x \<in> set evs. ev_id e = i \<and> ev_id x = c \<and> is_opener e \<and> \<not> is_opener x \<and>
        incident_scope_key e = incident_scope_key x \<and>
        (\<exists>s t. event_time z e = Some s \<and> event_time z x = Some t \<and> s \<le> t \<and> ms = Some (t - s)))) \<and>
    (\<forall>ms ms' c. map_of (pair_incident_durations z evs) i = Some (Paired ms c) \<and>
      map_of (pair_incident_durations z evs) j = Some (Paired ms' c) \<longrightarrow> i = j)"
proof (intro conjI allI impI)
  note look = pairing_lookup [OF assms(1)] scope_entries_iff
  have "map_of (pair_incident_durations z evs) i \<noteq> None \<longleftrightarrow>
      (\<exists>k. i \<in> set (map fst (scope_entries z (scope_sorted z evs k))))"
    unfolding not_None_eq pairing_lookup [OF assms(1)] by force
  then show "map_of (pair_incident_durations z evs) i \<noteq> None \<longleftrightarrow>
      (\<exists>e \<in> set evs. ev_id e = i \<and> is_opener e \<and> incident_scope_key e \<noteq> None)"
    unfolding scope_entries_keys by (auto simp: scope_sorted_mem image_iff)
  have pair: "\<exists>k e x. (e, x) \<in> set (scope_pairs z evs k) \<and> ev_id e = i' \<and> ev_id x = c \<and> ms = span_ms z e x"
    if "map_of (pair_incident_durations z evs) i' = Some (Paired ms c)" for i' ms c
    using that unfolding look by auto
  have mem: "e \<in> set evs \<and> is_opener e \<and> incident_scope_key e = Some k \<and> x \<in> set evs \<and> \<not> is_opener x \<and>
      incident_scope_key x = Some k" if "(e, x) \<in> set (scope_pairs z evs k)" for e x k
    using that scope_opener_mem [of e z evs k] scope_closer_mem [of x z evs k] by force
  show "\<exists>e \<in> set evs. \<exists>x \<in> set evs. ev_id e = i \<and> ev_id x = c \<and> is_opener e \<and> \<not> is_opener x \<and>
        incident_scope_key e = incident_scope_key x \<and>
        (\<exists>s t. event_time z e = Some s \<and> event_time z x = Some t \<and> s \<le> t \<and> ms = Some (t - s))"
    if m: "map_of (pair_incident_durations z evs) i = Some (Paired ms c)" for ms c
  proof -
    obtain k e x where p: "(e, x) \<in> set (scope_pairs z evs k)" "ev_id e = i" "ev_id x = c" "ms = span_ms z e x"
      using pair [OF m] by blast
    note in_scope = mem [OF p(1)]
    obtain s t where t: "event_time z e = Some s" "event_time z x = Some t"
      using timed_event [OF assms(2)] in_scope by meson
    have "s \<le> t" using ascending_le_time [OF _ _ scope_pairs_ordered [OF assms(2) p(1)]] t by (simp add: timed_def)
    with t p in_scope show ?thesis
      by (intro bexI [of _ e] bexI [of _ x]) (auto simp: span_ms_def max_def)
  qed
  show "i = j" if m: "map_of (pair_incident_durations z evs) i = Some (Paired ms c) \<and>
      map_of (pair_incident_durations z evs) j = Some (Paired ms' c)" for ms ms' c
  proof -
    obtain k e x where p: "(e, x) \<in> set (scope_pairs z evs k)" "ev_id e = i" "ev_id x = c" using pair m by blast
    obtain k' e' x' where p': "(e', x') \<in> set (scope_pairs z evs k')" "ev_id e' = j" "ev_id x' = c" using pair m by blast
    have "x = x'" using same_event [OF assms(1)] mem [OF p(1)] mem [OF p'(1)] p p' by simp
    then have "e = e'"
      using mem [OF p(1)] mem [OF p'(1)] p(1) p'(1) same_pair [OF scope_closers_distinct [OF assms(1)]] by simp
    with p p' show ?thesis by simp
  qed
qed

definition flat_zone :: zone where
  \<comment> \<open>timestamps are single digits, and every moment is the same civil time\<close>
  "flat_zone = \<lparr>zn_parse = (\<lambda>s. case s of [] \<Rightarrow> None | c # _ \<Rightarrow> Some (of_nat c)),
     zn_local = (\<lambda>_. \<lparr>cv_year = 2026, cv_month = 8, cv_day = 3, cv_hour = 0, cv_minute = 0, cv_second = 0\<rparr>),
     zn_date = (\<lambda>_ _ _. 0), zn_weekday = (\<lambda>_. 1)\<rparr>"

definition sample_event :: "int \<Rightarrow> string \<Rightarrow> string \<Rightarrow> alert_event" where
  "sample_event i kind t = \<lparr>ev_id = i, ev_endpoint = Some 7, ev_kind = kind, ev_message = [], ev_sent = True,
     ev_created = ascii t, ev_group = None, ev_campaign = None\<rparr>"

definition sample_outages :: "alert_event list" where
  "sample_outages = [sample_event 4 ''recovered'' ''5'', sample_event 2 ''down'' ''2'', sample_event 1 ''down'' ''1'']"

lemma sample_outages_ok: "distinct (map ev_id sample_outages)" "list_all (timed flat_zone) sample_outages"
  by (simp_all add: sample_outages_def sample_event_def timed_def event_time_def flat_zone_def ascii_def)

lemma paired_outages_are_real_witness:
  "map_of (pair_incident_durations flat_zone sample_outages) 1 \<noteq> None \<and>
   pair_incident_durations flat_zone sample_outages = [(1, Paired (Some 4) 4), (2, Ongoing)]"
proof
  show "pair_incident_durations flat_zone sample_outages = [(1, Paired (Some 4) 4), (2, Ongoing)]" by code_simp
  have "\<exists>e \<in> set sample_outages. ev_id e = 1 \<and> is_opener e \<and> incident_scope_key e \<noteq> None"
    by (simp add: sample_outages_def sample_event_def is_opener_def incident_scope_key_def)
  then show "map_of (pair_incident_durations flat_zone sample_outages) 1 \<noteq> None"
    using paired_outages_are_real [OF sample_outages_ok, THEN conjunct1, of 1] by blast
qed

text \<open>
  Pairing is first in, first out and independent of the order in which the
  events arrive: a permutation of the events gives the same durations, and when an
  outage stays open, every later outage of its scope stays open too.
\<close>

theorem pairing_is_fifo:
  assumes "distinct (map ev_id evs)" "list_all (timed z) evs"
  shows "(\<forall>evs'. mset evs' = mset evs \<longrightarrow>
      map_of (pair_incident_durations z evs') = map_of (pair_incident_durations z evs)) \<and>
    (\<forall>e \<in> set evs. \<forall>e' \<in> set evs. is_opener e \<and> is_opener e' \<and>
      incident_scope_key e \<noteq> None \<and> incident_scope_key e' = incident_scope_key e \<and> 0 < ascending_cmp z e' e \<and>
      map_of (pair_incident_durations z evs) (ev_id e) = Some Ongoing \<longrightarrow>
      map_of (pair_incident_durations z evs) (ev_id e') = Some Ongoing)"
proof (intro conjI allI ballI impI)
  fix evs'
  assume m: "mset evs' = mset evs"
  have d: "distinct (map ev_id evs')" using assms(1) m by (metis mset_eq_imp_distinct_iff mset_map)
  have "scope_sorted z evs' k = scope_sorted z evs k" for k
    unfolding scope_sorted_def
  proof (rule moments.order_free [symmetric])
    show "list_all (timed z) (filter (\<lambda>e. incident_scope_key e = Some k) evs)" using assms(2) by (auto simp: list_all_iff)
    show "mset (filter (\<lambda>e. incident_scope_key e = Some k) evs) = mset (filter (\<lambda>e. incident_scope_key e = Some k) evs')"
      using m by (simp add: mset_filter)
    show "a = b" if "a \<in> set (filter (\<lambda>e. incident_scope_key e = Some k) evs)"
      "b \<in> set (filter (\<lambda>e. incident_scope_key e = Some k) evs)" "ascending_cmp z a b = 0" for a b
      using that assms(2) by (intro same_event [OF assms(1)]) (auto simp: ascending_timed list_all_iff)
  qed
  then have "map_of (pair_incident_durations z evs') i = Some x \<longleftrightarrow> map_of (pair_incident_durations z evs) i = Some x" for i x
    by (simp only: pairing_lookup [OF d] pairing_lookup [OF assms(1)])
  then show "map_of (pair_incident_durations z evs') = map_of (pair_incident_durations z evs)"
    by (intro ext) (metis not_None_eq)
next
  fix e e'
  assume in_evs: "e \<in> set evs" "e' \<in> set evs"
    and a: "is_opener e \<and> is_opener e' \<and> incident_scope_key e \<noteq> None \<and> incident_scope_key e' = incident_scope_key e \<and>
      0 < ascending_cmp z e' e \<and> map_of (pair_incident_durations z evs) (ev_id e) = Some Ongoing"
  then obtain k where k: "incident_scope_key e = Some k" "incident_scope_key e' = Some k" by auto
  obtain k' where "(ev_id e, Ongoing) \<in> set (scope_entries z (scope_sorted z evs k'))"
    using a pairing_lookup [OF assms(1)] by blast
  then obtain o' where o': "o' \<in> set (scope_left z evs k')" "ev_id o' = ev_id e" unfolding scope_entries_iff by auto
  have "o' = e" using same_event [OF assms(1)] scope_opener_mem [of o' z evs k'] o' in_evs(1) by blast
  with o' k have e: "e \<in> set (scope_left z evs k)" using scope_opener_mem [of o' z evs k'] by simp
  have "e' \<in> set (scope_left z evs k)"
  proof (rule ccontr)
    assume "e' \<notin> set (scope_left z evs k)"
    then have e': "e' \<in> set (map fst (scope_pairs z evs k))" using scope_opener_mem [of e' z evs k] a in_evs k by auto
    have "sorted_wrt (\<lambda>a b. ascending_cmp z a b \<le> 0) (map fst (scope_pairs z evs k) @ scope_left z evs k)"
      unfolding scope_openers by (rule sorted_wrt_filter [OF scope_sorted_ascending [OF assms(2)]])
    with e e' have "ascending_cmp z e' e \<le> 0" unfolding sorted_wrt_append by blast
    with a show False by simp
  qed
  then show "map_of (pair_incident_durations z evs) (ev_id e') = Some Ongoing"
    unfolding pairing_lookup [OF assms(1)] scope_entries_iff by blast
qed

lemma pairing_is_fifo_witness:
  "map_of (pair_incident_durations flat_zone (rev sample_outages)) = map_of (pair_incident_durations flat_zone sample_outages)"
  by (rule pairing_is_fifo [OF sample_outages_ok, THEN conjunct1, rule_format]) simp

lemma concat_sections:
  assumes "\<And>k xs. (k, xs) \<in> set bs \<Longrightarrow> mset (flat (mk k xs)) = mset (concat (map inner xs))"
  shows "mset (concat (map flat (js_sort c (map (\<lambda>(k, xs). mk k xs) bs)))) =
    mset (concat (map inner (concat (map snd bs))))"
proof -
  have m: "mset (concat (map flat xs)) = (\<Sum>x \<in># mset xs. mset (flat x))" for xs by (induction xs) auto
  have "mset (concat (map flat (map (\<lambda>(k, xs). mk k xs) bs))) = mset (concat (map inner (concat (map snd bs))))"
    using assms by (induction bs) auto
  then show ?thesis unfolding m mset_js_sort .
qed

lemma concat_map_mset: "mset xs = mset ys \<Longrightarrow> mset (concat (map f xs)) = mset (concat (map f ys))"
  by (simp add: mset_concat flip: sum_mset_sum_list)

definition month_events :: "alert_month_group \<Rightarrow> alert_event list" where
  "month_events g = concat (map (\<lambda>w. concat (map dg_events (wg_days w))) (mg_weeks g))"

text \<open>
  The timeline shows every event once: flattening the months, weeks and days
  gives a permutation of the events with a readable timestamp, and every event stands in
  the day of its local date.
\<close>

theorem timeline_keeps_every_event:
  "mset (concat (map month_events (group_events_by_month_week_day z evs now))) =
     mset (filter (\<lambda>e. event_time z e \<noteq> None) evs) \<and>
   (\<forall>g \<in> set (group_events_by_date z evs now). \<forall>e \<in> set (dg_events g). dg_key g = local_day_key (event_day z e)) \<and>
   distinct (map dg_key (group_events_by_date z evs now))"
proof (intro conjI)
  let ?days = "group_events_by_date z evs now"
  let ?b = "buckets (\<lambda>e. local_day_key (event_day z e)) (filter (\<lambda>e. event_time z e \<noteq> None) evs)"
  let ?mk = "\<lambda>(k, xs). \<lparr>dg_key = k, dg_label = day_label z now k (event_day z (hd xs)), dg_events = xs\<rparr>"
  have weeks: "mset (concat (map (\<lambda>w. concat (map dg_events (wg_days w))) (weeks_of z ds))) =
      mset (concat (map dg_events ds))" for ds
  proof -
    have "mset (concat (map (\<lambda>w. concat (map dg_events (wg_days w))) (weeks_of z ds))) =
        mset (concat (map dg_events (concat (map snd (buckets (week_key z) ds)))))"
      unfolding weeks_of_def by (rule concat_sections) simp
    also have "\<dots> = mset (concat (map dg_events ds))" by (rule concat_map_mset [OF buckets_partition])
    finally show ?thesis .
  qed
  have "mset (concat (map month_events (group_events_by_month_week_day z evs now))) =
      mset (concat (map dg_events (concat (map snd (buckets month_key ?days)))))"
    unfolding group_events_by_month_week_day_def by (rule concat_sections) (simp add: month_events_def weeks)
  also have "\<dots> = mset (concat (map dg_events ?days))" by (rule concat_map_mset [OF buckets_partition])
  also have "\<dots> = mset (concat (map (\<lambda>e. [e]) (concat (map snd ?b))))"
    unfolding group_events_by_date_def by (rule concat_sections) simp
  also have "\<dots> = mset (filter (\<lambda>e. event_time z e \<noteq> None) evs)" by (simp only: concat_map_singleton list.map_ident buckets_partition)
  finally show "mset (concat (map month_events (group_events_by_month_week_day z evs now))) =
      mset (filter (\<lambda>e. event_time z e \<noteq> None) evs)" .
  show "\<forall>g \<in> set ?days. \<forall>e \<in> set (dg_events g). dg_key g = local_day_key (event_day z e)"
    by (auto simp: group_events_by_date_def in_buckets)
  have "mset (map dg_key ?days) = mset (map dg_key (map ?mk ?b))"
    using arg_cong [of "mset ?days" "mset (map ?mk ?b)" "image_mset dg_key"] by (simp add: group_events_by_date_def del: map_map)
  also have "map dg_key (map ?mk ?b) = map fst ?b" by (simp add: case_prod_unfold o_def)
  finally have "distinct (map dg_key ?days) \<longleftrightarrow> distinct (map fst ?b)" by (rule mset_eq_imp_distinct_iff)
  with distinct_buckets show "distinct (map dg_key ?days)" by blast
qed

text \<open>
  The filters survive the address bar: parsing the query of a filter gives
  the filter back, for a model name that is not empty and a known kind; the default
  view has an empty query; and whatever the query is, the parsed kind is a known one.
\<close>

theorem alert_filter_round_trip:
  assumes "af_model f \<noteq> Some []" "\<forall>k. af_kind f = Some k \<longrightarrow> k \<in> set alert_kinds"
  shows "parse_alerts_filter_query (alerts_filter_to_query f) = f \<and>
    (alerts_filter_to_query f = [] \<longleftrightarrow> f = alerts_filter_default) \<and>
    (\<forall>k. af_kind (parse_alerts_filter_query q) = Some k \<longrightarrow> k \<in> set alert_kinds)"
proof (intro conjI allI impI)
  have e: "[] \<notin> set alert_kinds" by (simp add: alert_kinds_def alert_kind_labels_def)
  obtain m k r where f: "f = \<lparr>af_model = m, af_kind = k, af_range = r\<rparr>" by (cases f)
  have ranges: "List.find (\<lambda>x. range_name x = range_name r) alert_time_ranges = Some r"
    by (cases r) (simp_all add: range_name_def alert_time_ranges_def)
  show "parse_alerts_filter_query (alerts_filter_to_query f) = f"
    using assms e ranges
    by (cases m; cases k; cases r) (auto simp: f parse_alerts_filter_query_def alerts_filter_to_query_def query_text_def
        field_def first_query_string_def alerts_filter_default_def Let_def)
  show "alerts_filter_to_query f = [] \<longleftrightarrow> f = alerts_filter_default"
    using assms e by (cases m; cases k) (auto simp: f alerts_filter_to_query_def query_text_def alerts_filter_default_def)
  show "k \<in> set alert_kinds" if "af_kind (parse_alerts_filter_query q) = Some k" for k
    using that by (auto simp: parse_alerts_filter_query_def Let_def split: option.splits if_splits)
qed

lemma alert_filter_round_trip_witness:
  "parse_alerts_filter_query (alerts_filter_to_query \<lparr>af_model = Some ''gpt'', af_kind = Some ''down'', af_range = Today\<rparr>) =
   \<lparr>af_model = Some ''gpt'', af_kind = Some ''down'', af_range = Today\<rparr>"
proof -
  let ?f = "\<lparr>af_model = Some ''gpt'', af_kind = Some ''down'', af_range = Today\<rparr>"
  have "''down'' \<in> set alert_kinds" by (simp add: alert_kinds_def alert_kind_labels_def)
  then have "af_model ?f \<noteq> Some []" "\<forall>k. af_kind ?f = Some k \<longrightarrow> k \<in> set alert_kinds" by simp_all
  from alert_filter_round_trip [OF this] show ?thesis by blast
qed

end
