(* ===== verification/Board_Math.thy ===== *)
theory Board_Math
  imports Model_List
begin

text \<open>
  The evaluation board: \<open>batchEta.ts\<close> (progress and remaining time of a batch),
  \<open>boardSort.ts\<close> and \<open>sortHeader.ts\<close> (the ranking), \<open>scoreTier.ts\<close> (bands, watermarks and
  tooltips of score cells), \<open>reportDrilldown.ts\<close> and \<open>batchSelect.ts\<close>
  (what a row opens). Absent optional fields are \<open>None\<close>.
\<close>

record report_cell =
  rc_suite :: ustring
  rc_status :: string
  rc_judged :: int
  rc_expected :: int
  rc_samples :: int
  rc_latency :: "rat option"
  rc_in_tokens :: "int option"
  rc_out_tokens :: "int option"

record report_row =
  rr_id :: int
  rr_model :: ustring
  rr_family :: ustring
  rr_total :: "rat option"
  rr_delta :: "rat option"
  rr_scores :: "(ustring \<times> rat option) list"
  rr_cells :: "report_cell list"
  rr_complete :: "bool option"
  rr_missing :: "int option"

section \<open>Progress and remaining time\<close>

definition unit_progress :: "report_row list \<Rightarrow> int \<times> int" where
  "unit_progress rows = fold (\<lambda>r acc. fold (\<lambda>c (j, x). (j + rc_judged c, x + rc_expected c)) (rr_cells r) acc) rows (0, 0)"

definition avg_step :: "report_cell \<Rightarrow> rat \<times> int \<Rightarrow> rat \<times> int" where
  "avg_step c acc = (case rc_latency c of
     Some l \<Rightarrow> if rc_judged c > 0 then (fst acc + l, snd acc + rc_judged c) else acc | None \<Rightarrow> acc)"

definition avg_unit_ms :: "report_row list \<Rightarrow> rat option" where
  "avg_unit_ms rows = (let (latency, judged) = fold (\<lambda>r. fold avg_step (rr_cells r)) rows (0, 0) in
     if judged > 0 then Some (latency / of_int judged) else None)"

definition cell_remaining_ms :: "report_cell \<Rightarrow> rat option \<Rightarrow> rat option" where
  "cell_remaining_ms c fallback =
    (if rc_status c = ''done'' \<or> rc_status c = ''failed'' then None
     else let remaining = rc_expected c - rc_judged c in
       if remaining \<le> 0 then None
       else let pace = (case rc_latency c of
             Some l \<Rightarrow> if rc_judged c > 0 then Some (l / of_int (rc_judged c)) else fallback | None \<Rightarrow> fallback)
         in map_option (\<lambda>p. of_int remaining * p) pace)"

definition row_remaining_ms :: "report_row \<Rightarrow> rat option \<Rightarrow> rat option" where
  "row_remaining_ms r fallback =
    (let (t, some) = fold (\<lambda>c acc. case cell_remaining_ms c fallback of
         Some x \<Rightarrow> (fst acc + x, True) | None \<Rightarrow> acc) (rr_cells r) (0, False)
     in if some then Some t else None)"

definition batch_remaining_ms :: "report_row list \<Rightarrow> rat \<Rightarrow> rat option" where
  "batch_remaining_ms rows concurrency = (case avg_unit_ms rows of
     None \<Rightarrow> None
   | Some fallback \<Rightarrow>
       let t = fold (\<lambda>r acc. fold (\<lambda>c acc. case cell_remaining_ms c (Some fallback) of
             Some x \<Rightarrow> acc + x | None \<Rightarrow> acc) (rr_cells r) acc) rows 0
       in if t \<le> 0 then None else Some (t / max 1 concurrency))"

section \<open>Ranking\<close>

definition next_sort_key :: "ustring \<Rightarrow> ustring \<Rightarrow> ustring" where
  "next_sort_key cur clicked = (if clicked = cur then ascii ''total'' else clicked)"

definition score_of :: "report_row \<Rightarrow> ustring \<Rightarrow> rat option" where
  "score_of r key = (if key = ascii ''total'' then rr_total r
     else case map_of (rr_scores r) key of Some s \<Rightarrow> s | None \<Rightarrow> None)"

definition row_cmp :: "ustring \<Rightarrow> report_row \<Rightarrow> report_row \<Rightarrow> rat" where
  "row_cmp key a b =
    (let ra = rr_complete a \<noteq> Some False; rb = rr_complete b \<noteq> Some False in
     if ra \<noteq> rb then (if ra then -1 else 1)
     else if \<not> ra then lex (rr_model a) (rr_model b)
     else case (score_of a key, score_of b key) of
       (None, None) \<Rightarrow> 0 | (None, Some _) \<Rightarrow> 1 | (Some _, None) \<Rightarrow> -1
     | (Some sa, Some sb) \<Rightarrow> if sa \<noteq> sb then sb - sa else lex (rr_model a) (rr_model b))"

definition sort_rows :: "report_row list \<Rightarrow> ustring \<Rightarrow> report_row list" where
  "sort_rows rows key = js_sort (row_cmp key) rows"

definition filter_rows_by_family :: "report_row list \<Rightarrow> ustring \<Rightarrow> report_row list" where
  "filter_rows_by_family rows family = (if family = [] then rows else filter (\<lambda>r. rr_family r = family) rows)"

definition family_options_of :: "report_row list \<Rightarrow> ustring list" where
  "family_options_of rows = js_sort lex (js_set (map rr_family rows))"

section \<open>Score cells\<close>

datatype score_band = Band_Success | Band_Warning | Band_Danger

definition score_band_of :: "rat \<Rightarrow> score_band" where
  "score_band_of s = (if s \<ge> 80 then Band_Success else if s \<ge> 50 then Band_Warning else Band_Danger)"

definition watermark_of :: "report_cell option \<Rightarrow> ustring" where
  "watermark_of cell = (case cell of None \<Rightarrow> []
     | Some c \<Rightarrow> if rc_status c \<noteq> ''done'' then []
         else if rc_expected c \<le> 0 \<or> rc_judged c \<ge> rc_expected c then []
         else [0x00B7] @ dec (rc_judged c) @ ascii ''/'' @ dec (rc_expected c))"

definition cell_cost_text :: "report_cell option \<Rightarrow> ustring" where
  "cell_cost_text cell = (case cell of None \<Rightarrow> []
     | Some c \<Rightarrow> (case rc_latency c of None \<Rightarrow> []
         | Some l \<Rightarrow> let tokens = (case rc_in_tokens c of None \<Rightarrow> 0 | Some n \<Rightarrow> n) + (case rc_out_tokens c of None \<Rightarrow> 0 | Some n \<Rightarrow> n)
             in ([0x8017, 0x65F6] @ ascii '' '') @ format_ms (Some l) @ (ascii '' '' @ [0x00B7] @ ascii '' Token '') @ format_tokens (Some (of_int tokens))))"

definition tooltip_of :: "ustring \<Rightarrow> rat \<Rightarrow> report_cell option \<Rightarrow> ustring" where
  "tooltip_of name score cell =
    (let head = name @ (ascii '' '' @ [0x00B7] @ ascii '' '') @ format_score (Some score) in
     case cell of None \<Rightarrow> head
     | Some c \<Rightarrow> if rc_judged c \<le> 0 then head
         else let base = head @ (ascii '' '' @ [0x00B7] @ ascii '' '' @ [0x5224, 0x5206] @ ascii '' '') @ dec (rc_judged c) @ ascii ''/'' @ dec (rc_expected c) @
                (ascii '' '' @ [0x9898] @ ascii '' '' @ [0x00B7] @ ascii '' '' @ [0x91C7, 0x6837] @ ascii '' '') @ dec (rc_samples c) @ (ascii '' '' @ [0x6B21]); cost = cell_cost_text cell
           in if cost = [] then base else base @ (ascii '' '' @ [0x00B7] @ ascii '' '') @ cost)"

definition live_rank_text :: "rat option \<Rightarrow> int \<Rightarrow> ustring" where
  "live_rank_text t index = (if t = None then [0x2013] else dec (index + 1))"

definition cell_status_text :: "report_cell option \<Rightarrow> ustring" where
  "cell_status_text cell = (case cell of None \<Rightarrow> [0x672A, 0x5224, 0x5206]
     | Some c \<Rightarrow> if rc_status c = ''pending'' then [0x7B49, 0x5F85, 0x4E2D] else if rc_status c = ''running'' then [0x8FD0, 0x884C, 0x4E2D]
         else if rc_status c = ''failed'' then [0x5931, 0x8D25] else [0x672A, 0x5224, 0x5206])"

definition live_cell_tooltip :: "ustring \<Rightarrow> report_cell option \<Rightarrow> ustring" where
  "live_cell_tooltip name cell =
    (let head = name @ (ascii '' '' @ [0x00B7] @ ascii '' '') @ cell_status_text cell in
     case cell of None \<Rightarrow> head
     | Some c \<Rightarrow> if rc_expected c \<le> 0 then head
         else head @ (ascii '' '' @ [0x00B7] @ ascii '' '' @ [0x5224, 0x5206] @ ascii '' '') @ dec (rc_judged c) @ ascii ''/'' @ dec (rc_expected c) @ (ascii '' '' @ [0x9898]))"

definition live_counts :: "report_cell list \<Rightarrow> int \<times> int" where
  \<comment> \<open>in flight and failed\<close>
  "live_counts cells = fold (\<lambda>c (n, f).
     if rc_status c = ''pending'' \<or> rc_status c = ''running'' then (n + 1, f)
     else if rc_status c = ''failed'' then (n, f + 1) else (n, f)) cells (0, 0)"

section \<open>Opening a batch or a run\<close>

definition row_drilldown_enabled :: "bool \<Rightarrow> bool" where
  "row_drilldown_enabled shared = (\<not> shared)"

definition cell_drilldown_enabled :: "bool \<Rightarrow> bool \<Rightarrow> bool \<Rightarrow> bool" where
  "cell_drilldown_enabled shared live selectable = (row_drilldown_enabled shared \<and> \<not> live \<and> selectable)"

record eval_run =
  er_id :: int
  er_suite :: int
  er_status :: string

definition resolve_suite_run_id :: "eval_run list \<Rightarrow> (ustring \<times> int) list \<Rightarrow> ustring \<Rightarrow> int option" where
  \<comment> \<open>the suites are their keys and ids in report order\<close>
  "resolve_suite_run_id runs suites key = (case map_of suites key of
     None \<Rightarrow> None
   | Some sid \<Rightarrow> let ms = filter (\<lambda>r. er_suite r = sid) runs in
       (case List.find (\<lambda>r. er_status r = ''done'') ms of
          Some r \<Rightarrow> Some (er_id r)
        | None \<Rightarrow> (case ms of r # _ \<Rightarrow> Some (er_id r) | [] \<Rightarrow> None)))"

definition resolve_initial_batch_id :: "(int \<times> string) list \<Rightarrow> int option \<Rightarrow> int option" where
  \<comment> \<open>campaigns as id and status, newest first; the fallback to the first done one is never reached\<close>
  "resolve_initial_batch_id cs requested =
    (if requested \<in> set (map (Some \<circ> fst) cs) then requested
     else case cs of c # _ \<Rightarrow> Some (fst c)
       | [] \<Rightarrow> map_option fst (List.find (\<lambda>c. snd c = ''done'') cs))"

section \<open>The ranking comparison\<close>

definition row_class :: "ustring \<Rightarrow> report_row \<Rightarrow> rat" where
  \<comment> \<open>complete and scored, complete and unscored, incomplete\<close>
  "row_class key r = (if rr_complete r = Some False then 2 else if score_of r key = None then 1 else 0)"

definition row_score :: "ustring \<Rightarrow> report_row \<Rightarrow> rat" where
  "row_score key r = (if row_class key r = 0 then - the (score_of r key) else 0)"

definition row_name :: "ustring \<Rightarrow> report_row \<Rightarrow> ustring" where
  "row_name key r = (if row_class key r = 1 then [] else rr_model r)"

lemma row_cmp_sign:
  "sgn (row_cmp key a b) = sgn (then_by (by_num (row_class key)) (then_by (by_num (row_score key)) (by_text (row_name key))) a b)"
  by (auto simp: row_cmp_def then_by_def by_num_def by_text_def row_class_def row_score_def row_name_def Let_def
      lex_def sgn_if split: option.split)

lemma comparator_sgn:
  assumes "comparator ok d" "\<And>a b. sgn (c a b) = sgn (d a b)"
  shows "comparator ok c"
proof
  have le: "c a b \<le> 0 \<longleftrightarrow> d a b \<le> 0" for a b using assms(2) [of a b] by (simp add: sgn_if split: if_splits)
  show "sgn (c b a) = - sgn (c a b)" if "ok a" "ok b" for a b
    using comparator.sign [OF assms(1) that] by (simp add: assms(2))
  show "c a e \<le> 0" if "ok a" "ok b" "ok e" "c a b \<le> 0" "c b e \<le> 0" for a b e
    using comparator.trans [OF assms(1) that(1-3)] that(4,5) unfolding le .
qed

interpretation ranking: comparator "\<lambda>_. True" "row_cmp key" for key
  by (rule comparator_sgn [OF _ row_cmp_sign]) (intro comparator_then_by comparator_num comparator_text)

lemma row_cmp_le:
  assumes "row_cmp key a b \<le> 0"
  shows "row_class key a \<le> row_class key b"
    and "row_class key a = 0 \<Longrightarrow> row_class key b = 0 \<Longrightarrow> the (score_of b key) \<le> the (score_of a key)"
    and "row_class key a = 0 \<Longrightarrow> row_class key b = 0 \<Longrightarrow> score_of a key = score_of b key \<Longrightarrow> rr_model a \<le> rr_model b"
    and "row_class key a = 2 \<Longrightarrow> row_class key b = 2 \<Longrightarrow> rr_model a \<le> rr_model b"
  using assms by (auto simp: row_cmp_def row_class_def Let_def lex_def split: if_splits option.splits)

section \<open>Sums of remaining time\<close>

lemma fold_cells:
  "fold (\<lambda>c acc. case f c of Some x \<Rightarrow> acc + x | None \<Rightarrow> acc) cs (a :: rat) =
    a + (\<Sum>c \<leftarrow> cs. case f c of Some x \<Rightarrow> x | None \<Rightarrow> 0)"
  by (induction cs arbitrary: a) (auto split: option.split)

lemma row_remaining_sum:
  "(case row_remaining_ms r fb of Some x \<Rightarrow> x | None \<Rightarrow> 0) = (\<Sum>c \<leftarrow> rr_cells r. case cell_remaining_ms c fb of Some x \<Rightarrow> x | None \<Rightarrow> 0)"
proof -
  have "fold (\<lambda>c acc. case cell_remaining_ms c fb of Some x \<Rightarrow> (fst acc + x, True) | None \<Rightarrow> acc) cs (a, s) =
      (a + (\<Sum>c \<leftarrow> cs. case cell_remaining_ms c fb of Some x \<Rightarrow> x | None \<Rightarrow> 0), s \<or> (\<exists>c \<in> set cs. cell_remaining_ms c fb \<noteq> None))" for a s cs
    by (induction cs arbitrary: a s) (auto split: option.split)
  moreover have "\<forall>c \<in> set cs. cell_remaining_ms c fb = None \<Longrightarrow> (\<Sum>c \<leftarrow> cs. case cell_remaining_ms c fb of Some x \<Rightarrow> x | None \<Rightarrow> 0) = 0" for cs
    by (induction cs) auto
  ultimately show ?thesis by (auto simp: row_remaining_ms_def)
qed

section \<open>Properties\<close>

text \<open>
  The ranking of the board: sorting keeps the rows; complete rows with a
  score in the column come first, complete rows without one next, incomplete rows
  last; scores descend inside the first class; equal scores and incomplete rows are in
  the order of their model.
\<close>

theorem ranking_is_gated:
  "mset (sort_rows rows key) = mset rows \<and>
   sorted_wrt (\<lambda>a b. row_class key a \<le> row_class key b \<and>
     (row_class key a = 0 \<and> row_class key b = 0 \<longrightarrow> the (score_of b key) \<le> the (score_of a key) \<and>
        (score_of a key = score_of b key \<longrightarrow> rr_model a \<le> rr_model b)) \<and>
     (row_class key a = 2 \<and> row_class key b = 2 \<longrightarrow> rr_model a \<le> rr_model b)) (sort_rows rows key)"
proof
  have "sorted_wrt (\<lambda>a b. row_cmp key a b \<le> 0) (sort_rows rows key)"
    unfolding sort_rows_def by (rule ranking.sorted) (simp add: list_all_iff)
  then show "sorted_wrt (\<lambda>a b. row_class key a \<le> row_class key b \<and>
     (row_class key a = 0 \<and> row_class key b = 0 \<longrightarrow> the (score_of b key) \<le> the (score_of a key) \<and>
        (score_of a key = score_of b key \<longrightarrow> rr_model a \<le> rr_model b)) \<and>
     (row_class key a = 2 \<and> row_class key b = 2 \<longrightarrow> rr_model a \<le> rr_model b)) (sort_rows rows key)"
    by (rule sorted_wrt_mono_rel [rotated]) (use row_cmp_le in blast)
qed (simp add: sort_rows_def)

definition sample_row :: "string \<Rightarrow> rat option \<Rightarrow> bool option \<Rightarrow> report_row" where
  "sample_row m t c = \<lparr>rr_id = 1, rr_model = ascii m, rr_family = [], rr_total = t, rr_delta = None, rr_scores = [], rr_cells = [],
     rr_complete = c, rr_missing = None\<rparr>"

lemma ranking_is_gated_witness:
  "mset (sort_rows [sample_row ''b'' (Some 9) (Some False), sample_row ''c'' None None, sample_row ''a'' (Some 5) None] (ascii ''total'')) =
   mset [sample_row ''b'' (Some 9) (Some False), sample_row ''c'' None None, sample_row ''a'' (Some 5) None] \<and>
   map rr_model (sort_rows [sample_row ''b'' (Some 9) (Some False), sample_row ''c'' None None, sample_row ''a'' (Some 5) None] (ascii ''total''))
     = [ascii ''a'', ascii ''c'', ascii ''b'']"
  using ranking_is_gated [of "[sample_row ''b'' (Some 9) (Some False), sample_row ''c'' None None, sample_row ''a'' (Some 5) None]" "ascii ''total''"]
  by (intro conjI, blast) code_simp

text \<open>
  The remaining time of a batch is the sum of the remaining times of its
  models spread over the workers; it is positive, no longer than the sum, and more
  workers never make it longer.
\<close>

theorem batch_eta_spreads_model_etas:
  assumes "batch_remaining_ms rows n = Some t" "n \<le> n'"
  shows "(\<exists>pace. avg_unit_ms rows = Some pace \<and>
      t * max 1 n = (\<Sum>r \<leftarrow> rows. case row_remaining_ms r (Some pace) of Some x \<Rightarrow> x | None \<Rightarrow> 0)) \<and>
    0 < t \<and> (\<exists>t'. batch_remaining_ms rows n' = Some t' \<and> 0 < t' \<and> t' \<le> t)"
proof -
  obtain pace where pace: "avg_unit_ms rows = Some pace"
    using assms(1) by (auto simp: batch_remaining_ms_def split: option.splits)
  define s where "s = (\<Sum>r \<leftarrow> rows. case row_remaining_ms r (Some pace) of Some x \<Rightarrow> x | None \<Rightarrow> 0)"
  have "fold (\<lambda>r acc. fold (\<lambda>c acc. case cell_remaining_ms c (Some pace) of Some x \<Rightarrow> acc + x | None \<Rightarrow> acc) (rr_cells r) acc) rs a =
      a + (\<Sum>r \<leftarrow> rs. case row_remaining_ms r (Some pace) of Some x \<Rightarrow> x | None \<Rightarrow> 0)" for rs a
    by (induction rs arbitrary: a) (simp_all add: fold_cells row_remaining_sum)
  then have b: "batch_remaining_ms rows k = (if s \<le> 0 then None else Some (s / max 1 k))" for k
    by (simp add: batch_remaining_ms_def pace s_def)
  then have s: "0 < s" and t: "t = s / max 1 n" using assms(1) by (auto split: if_splits)
  have pos: "0 < max 1 n" "0 < max 1 n'" "max 1 n \<le> max 1 n'" using assms(2) by auto
  have "s / max 1 n' \<le> t" unfolding t using s pos by (intro divide_left_mono) auto
  with s pos b pace t show ?thesis by (auto simp: s_def)
qed

definition sample_cells :: "report_cell list" where
  "sample_cells = [\<lparr>rc_suite = [], rc_status = ''running'', rc_judged = 2, rc_expected = 10, rc_samples = 1,
     rc_latency = Some 600, rc_in_tokens = None, rc_out_tokens = None\<rparr>]"

lemma batch_eta_spreads_model_etas_witness:
  "\<exists>t. batch_remaining_ms [(sample_row ''a'' None None)\<lparr>rr_cells := sample_cells\<rparr>] 8 = Some t \<and> 0 < t \<and> t \<le> 1200"
proof -
  let ?rows = "[(sample_row ''a'' None None)\<lparr>rr_cells := sample_cells\<rparr>]"
  have "batch_remaining_ms ?rows 2 = Some 1200" by code_simp
  from batch_eta_spreads_model_etas [OF this, of 8] show ?thesis by simp
qed

end
