(* ===== verification/Live_View.thy ===== *)
theory Live_View
  imports Web_Types
begin

text \<open>
  The moving parts of the pages: \<open>liveFeed.ts\<close> (merging pages of events),
  \<open>visibilityPoll.ts\<close> (a polling timer that follows the visibility of the tab, as a step
  relation), \<open>numberTween.ts\<close> (the values a gliding number shows) and
  \<open>truncate.ts\<close>. A tween is run on the list of the frame times.
\<close>

section \<open>The live feed\<close>

record feed_entry =
  fe_id :: int
  fe_model :: ustring
  fe_suite :: ustring
  fe_suite_name :: ustring
  fe_case :: int
  fe_prompt :: ustring
  fe_verdict :: string
  fe_score :: "rat option"
  fe_latency :: rat
  fe_created :: ustring

definition live_feed_cap :: nat where
  "live_feed_cap = 200"

definition live_feed_cursor :: "feed_entry list \<Rightarrow> int" where
  "live_feed_cursor es = (if es = [] then 0 else fe_id (last es))"

definition feed_push :: "feed_entry \<Rightarrow> feed_entry list \<times> int set \<Rightarrow> feed_entry list \<times> int set" where
  \<comment> \<open>one turn of the merge loop: the merged list and the ids seen\<close>
  "feed_push e acc = (if fe_id e \<in> snd acc then acc else (fst acc @ [e], insert (fe_id e) (snd acc)))"

definition merge_live_feed :: "feed_entry list \<Rightarrow> feed_entry list \<Rightarrow> nat \<Rightarrow> feed_entry list" where
  "merge_live_feed existing incoming cap =
    (if incoming = [] then existing
     else let merged = fst (fold feed_push incoming (existing, set (map fe_id existing))) in
       if length merged > cap then drop (length merged - cap) merged else merged)"

definition live_feed_display :: "feed_entry list \<Rightarrow> feed_entry list" where
  "live_feed_display es = rev es"

definition toggle_expansion :: "int list \<Rightarrow> int \<Rightarrow> int list" where
  \<comment> \<open>a set of ids in insertion order\<close>
  "toggle_expansion ids i = (if i \<in> set ids then filter (\<lambda>x. x \<noteq> i) ids else ids @ [i])"

definition verdict_type_label :: "string \<Rightarrow> ustring" where
  "verdict_type_label v = (if v = ''rule'' then [0x89C4, 0x5219] else if v = ''judge'' then [0x88C1, 0x5224] else ascii ''-'')"

definition is_judge_failure :: "feed_entry \<Rightarrow> bool" where
  "is_judge_failure e \<longleftrightarrow> fe_verdict e = ''judge'' \<and> fe_score e = None"

datatype feed_outcome = Correct | Wrong | Unscored

definition feed_outcome_label :: "feed_outcome \<Rightarrow> ustring" where
  "feed_outcome_label o' = (case o' of Correct \<Rightarrow> [0x6B63, 0x786E] | Wrong \<Rightarrow> [0x9519, 0x8BEF] | Unscored \<Rightarrow> [0x672A, 0x5224, 0x5206])"

record feed_filter =
  ff_model :: ustring
  ff_suite :: ustring
  ff_outcome :: "feed_outcome option"

definition filter_live_feed :: "feed_entry list \<Rightarrow> feed_filter \<Rightarrow> feed_entry list" where
  \<comment> \<open>an absent facet is the empty text\<close>
  "filter_live_feed es f = filter (\<lambda>e.
     if ff_model f \<noteq> [] \<and> fe_model e \<noteq> ff_model f then False
     else if ff_suite f \<noteq> [] \<and> fe_suite e \<noteq> ff_suite f then False
     else case ff_outcome f of
       Some Correct \<Rightarrow> fe_score e = Some 1
     | Some Wrong \<Rightarrow> (case fe_score e of Some s \<Rightarrow> s < 1 | None \<Rightarrow> False)
     | Some Unscored \<Rightarrow> fe_score e = None
     | None \<Rightarrow> True) es"

section \<open>Polling that follows visibility\<close>

record poll_options =
  po_interval :: int
  po_hidden :: int
  po_refresh :: bool

record poll_state =
  pl_timer :: "int option"
  pl_cleared :: bool
  pl_listening :: bool
  pl_hidden :: bool
  pl_ticks :: nat

definition poll_arm :: "poll_options \<Rightarrow> poll_state \<Rightarrow> poll_state" where
  \<comment> \<open>\<open>disarm\<close>, then a timer at the cadence of the current visibility\<close>
  "poll_arm opts s = (let ms = (if pl_hidden s then po_hidden opts else po_interval opts) in
     s\<lparr>pl_timer := (if ms > 0 then Some ms else None)\<rparr>)"

definition poll_create :: "poll_options \<Rightarrow> bool \<Rightarrow> poll_state" where
  "poll_create opts hidden = poll_arm opts
     \<lparr>pl_timer = None, pl_cleared = False, pl_listening = True, pl_hidden = hidden, pl_ticks = 0\<rparr>"

definition poll_clear :: "poll_state \<Rightarrow> poll_state" where
  "poll_clear s = (if pl_cleared s then s else s\<lparr>pl_cleared := True, pl_timer := None, pl_listening := False\<rparr>)"

definition poll_tick :: "bool \<Rightarrow> poll_state \<Rightarrow> poll_state" where
  \<comment> \<open>the consumer's callback, which may clear the handle\<close>
  "poll_tick clears s = (let s' = s\<lparr>pl_ticks := pl_ticks s + 1\<rparr> in if clears then poll_clear s' else s')"

definition poll_visibility_change :: "poll_options \<Rightarrow> bool \<Rightarrow> poll_state \<Rightarrow> poll_state" where
  "poll_visibility_change opts clears s =
    (if pl_cleared s then s
     else if pl_hidden s then poll_arm opts s
     else let s1 = s\<lparr>pl_timer := None\<rparr>;
              s2 = (if po_refresh opts then poll_tick clears s1 else s1)
       in if pl_cleared s2 then s2 else poll_arm opts s2)"

inductive poll_step :: "poll_options \<Rightarrow> poll_state \<Rightarrow> poll_state \<Rightarrow> bool" for opts where
  tick: "pl_timer s \<noteq> None \<Longrightarrow> poll_step opts s (poll_tick clears s)"
| visibility: "pl_listening s \<Longrightarrow> poll_step opts s (poll_visibility_change opts clears (s\<lparr>pl_hidden := h\<rparr>))"
| unheard: "\<not> pl_listening s \<Longrightarrow> poll_step opts s (s\<lparr>pl_hidden := h\<rparr>)"
| clear: "poll_step opts s (poll_clear s)"

inductive_cases poll_stepE: "poll_step opts s t"

inductive poll_reachable :: "poll_options \<Rightarrow> poll_state \<Rightarrow> bool" for opts where
  start: "poll_reachable opts (poll_create opts hidden)"
| step: "poll_reachable opts s \<Longrightarrow> poll_step opts s t \<Longrightarrow> poll_reachable opts t"

definition cadence :: "poll_options \<Rightarrow> bool \<Rightarrow> int option" where
  "cadence opts hidden = (let ms = (if hidden then po_hidden opts else po_interval opts) in if ms > 0 then Some ms else None)"

definition poll_ok :: "poll_options \<Rightarrow> poll_state \<Rightarrow> bool" where
  "poll_ok opts s \<longleftrightarrow> pl_listening s = (\<not> pl_cleared s) \<and>
     pl_timer s = (if pl_cleared s then None else cadence opts (pl_hidden s))"

lemmas poll_defs = poll_ok_def poll_arm_def poll_tick_def poll_clear_def poll_visibility_change_def cadence_def Let_def

lemma poll_step_ok: "poll_step opts s t \<Longrightarrow> poll_ok opts s \<Longrightarrow> poll_ok opts t"
  by (elim poll_stepE) (auto simp: poll_defs)

lemma poll_reachable_ok: "poll_reachable opts s \<Longrightarrow> poll_ok opts s"
proof (induction rule: poll_reachable.induct)
  case (start hidden)
  then show ?case by (auto simp: poll_create_def poll_defs)
qed (rule poll_step_ok)

section \<open>Gliding numbers\<close>

definition ease_out_cubic :: "rat \<Rightarrow> rat" where
  "ease_out_cubic t = 1 - (1 - t) ^ 3"

fun tween_frames :: "rat \<Rightarrow> rat \<Rightarrow> rat \<Rightarrow> rat \<Rightarrow> rat list \<Rightarrow> rat list" where
  \<comment> \<open>the frames from \<open>a\<close> to \<open>b\<close> over \<open>d\<close> milliseconds, started at \<open>s\<close>, at the given times\<close>
  "tween_frames a b d s [] = []"
| "tween_frames a b d s (now # later) =
    (let t = min 1 ((now - s) / d) in
     (if t \<ge> 1 then b else a + (b - a) * ease_out_cubic t) # (if t < 1 then tween_frames a b d s later else []))"

definition tween_number :: "rat \<Rightarrow> rat \<Rightarrow> rat \<Rightarrow> bool \<Rightarrow> rat \<Rightarrow> rat list \<Rightarrow> rat list" where
  \<comment> \<open>the values passed to \<open>onUpdate\<close>\<close>
  "tween_number a b d reduced s frames = (if reduced \<or> a = b \<or> d \<le> 0 then [b] else tween_frames a b d s frames)"

section \<open>Middle truncation\<close>

definition split_middle :: "ustring \<Rightarrow> nat \<Rightarrow> ustring \<times> ustring" where
  \<comment> \<open>for a positive number of kept units\<close>
  "split_middle name keep = (if length name \<le> keep + 1 then (name, [])
     else (take (length name - keep) name, drop (length name - keep) name))"

section \<open>Facts\<close>

definition merged_feed :: "feed_entry list \<Rightarrow> feed_entry list \<Rightarrow> feed_entry list" where
  \<comment> \<open>the merge before the cap\<close>
  "merged_feed existing incoming = fst (fold feed_push incoming (existing, set (map fe_id existing)))"

lemma merged_feed_simps:
  "merged_feed m [] = m"
  "merged_feed m (e # es) = merged_feed (if fe_id e \<in> set (map fe_id m) then m else m @ [e]) es"
  by (simp_all add: merged_feed_def feed_push_def)

lemma merged_feed_ids: "set (map fe_id (merged_feed m es)) = set (map fe_id m) \<union> set (map fe_id es)"
  by (induction es arbitrary: m) (auto simp: merged_feed_simps)

lemma merged_feed_ascending:
  assumes "sorted_wrt (<) (map fe_id m)" "sorted_wrt (<) (map fe_id es)"
    and "\<forall>e \<in> set es. fe_id e \<in> set (map fe_id m) \<or> (\<forall>x \<in> set m. fe_id x < fe_id e)"
  shows "sorted_wrt (<) (map fe_id (merged_feed m es))"
  using assms
proof (induction es arbitrary: m)
  case (Cons e es)
  show ?case
  proof (cases "fe_id e \<in> set (map fe_id m)")
    case True
    with Cons show ?thesis by (simp add: merged_feed_simps)
  next
    case False
    then have up: "\<forall>x \<in> set m. fe_id x < fe_id e" using Cons.prems(3) by auto
    have "fe_id y \<in> set (map fe_id (m @ [e])) \<or> (\<forall>x \<in> set (m @ [e]). fe_id x < fe_id y)" if "y \<in> set es" for y
    proof -
      have "fe_id e < fe_id y" using Cons.prems(2) that by simp
      moreover have "fe_id y \<in> set (map fe_id m) \<or> (\<forall>x \<in> set m. fe_id x < fe_id y)" using Cons.prems(3) that by simp
      ultimately show ?thesis by auto
    qed
    with False up Cons.prems Cons.IH [of "m @ [e]"] show ?thesis by (simp add: merged_feed_simps sorted_wrt_append)
  qed
qed (simp add: merged_feed_simps)

section \<open>Properties\<close>

text \<open>
  Merging a page that overlaps the feed keeps it ascending without
  duplicates and within the cap; every event of the feed and the page is in the
  result unless the cap is full of newer ones.
\<close>

theorem live_feed_merge_correct:
  assumes "sorted_wrt (<) (map fe_id existing)" "sorted_wrt (<) (map fe_id incoming)"
    and "\<forall>e \<in> set incoming. fe_id e \<in> set (map fe_id existing) \<or> (\<forall>x \<in> set existing. fe_id x < fe_id e)"
    and "length existing \<le> cap"
  shows "sorted_wrt (<) (map fe_id (merge_live_feed existing incoming cap)) \<and>
    length (merge_live_feed existing incoming cap) \<le> cap \<and>
    set (map fe_id (merge_live_feed existing incoming cap)) \<subseteq> set (map fe_id existing) \<union> set (map fe_id incoming) \<and>
    (\<forall>i \<in> set (map fe_id existing) \<union> set (map fe_id incoming).
      i \<in> set (map fe_id (merge_live_feed existing incoming cap)) \<or>
      (length (merge_live_feed existing incoming cap) = cap \<and>
       (\<forall>j \<in> set (map fe_id (merge_live_feed existing incoming cap)). i < j)))"
proof -
  define m where "m = merged_feed existing incoming"
  have asc: "sorted_wrt (<) (map fe_id m)" using merged_feed_ascending [OF assms(1-3)] by (simp add: m_def)
  have ids: "set (map fe_id m) = set (map fe_id existing) \<union> set (map fe_id incoming)"
    by (simp only: m_def merged_feed_ids)
  define n where "n = length m - cap"
  have r: "merge_live_feed existing incoming cap = drop n m"
    using assms(4) by (simp add: merge_live_feed_def m_def n_def merged_feed_def Let_def merged_feed_simps)
  have parts: "sorted_wrt (<) (map fe_id (take n m) @ map fe_id (drop n m))"
    using asc by (simp flip: map_append)
  have parts_set: "set m = set (take n m) \<union> set (drop n m)" by (metis append_take_drop_id set_append)
  have "i \<in> set (map fe_id (drop n m)) \<or> (length (drop n m) = cap \<and> (\<forall>j \<in> set (map fe_id (drop n m)). i < j))"
    if "i \<in> set (map fe_id m)" for i
  proof (cases "i \<in> set (map fe_id (drop n m))")
    case False
    then have t: "i \<in> set (map fe_id (take n m))"
      using that parts_set by auto
    then have "0 < n" by (cases n) auto
    then have "length (drop n m) = cap" by (auto simp: n_def)
    with parts t show ?thesis unfolding sorted_wrt_append by blast
  qed blast
  moreover have "length (drop n m) \<le> cap" by (auto simp: n_def)
  moreover have "set (map fe_id (drop n m)) \<subseteq> set (map fe_id m)" using set_drop_subset [of n m] by auto
  ultimately show ?thesis
    using parts unfolding r sorted_wrt_append ids by blast
qed

definition feed_at :: "int \<Rightarrow> feed_entry" where
  "feed_at i = \<lparr>fe_id = i, fe_model = [], fe_suite = [], fe_suite_name = [], fe_case = 1, fe_prompt = [],
     fe_verdict = ''rule'', fe_score = Some 1, fe_latency = 1, fe_created = []\<rparr>"

lemma live_feed_merge_correct_witness:
  "length (merge_live_feed [feed_at 1, feed_at 2] [feed_at 2, feed_at 3] 2) \<le> 2 \<and>
   map fe_id (merge_live_feed [feed_at 1, feed_at 2] [feed_at 2, feed_at 3] 2) = [2, 3]"
proof
  show "length (merge_live_feed [feed_at 1, feed_at 2] [feed_at 2, feed_at 3] 2) \<le> 2"
    by (rule live_feed_merge_correct [THEN conjunct2, THEN conjunct1]) (simp_all add: feed_at_def)
qed code_simp

text \<open>
  C40. In every state the poll can reach, the timer runs at the cadence of the
  current visibility, a cleared handle has no timer and hears no visibility change, and
  nothing resurrects it: it makes no further tick.
\<close>

theorem poll_follows_visibility:
  assumes "poll_reachable opts s"
  shows "pl_timer s = (if pl_cleared s then None else cadence opts (pl_hidden s)) \<and>
    (pl_cleared s \<longrightarrow> (\<forall>t. poll_step opts s t \<longrightarrow> pl_cleared t \<and> pl_timer t = None \<and> pl_ticks t = pl_ticks s))"
proof -
  have ok: "poll_ok opts s" using assms by (rule poll_reachable_ok)
  have "pl_cleared t \<and> pl_timer t = None \<and> pl_ticks t = pl_ticks s" if "pl_cleared s" "poll_step opts s t" for t
    using that(2,1) ok by (elim poll_stepE) (auto simp: poll_defs)
  with ok show ?thesis by (simp add: poll_ok_def)
qed

lemma poll_follows_visibility_witness:
  "pl_timer (poll_clear (poll_create \<lparr>po_interval = 1000, po_hidden = 0, po_refresh = True\<rparr> False)) = None"
proof -
  let ?o = "\<lparr>po_interval = 1000, po_hidden = 0, po_refresh = True\<rparr>"
  have "poll_reachable ?o (poll_clear (poll_create ?o False))"
    by (rule poll_reachable.step [OF poll_reachable.start poll_step.clear])
  from poll_follows_visibility [OF this] show ?thesis by (simp add: poll_clear_def poll_create_def poll_arm_def)
qed

end
