(* ===== verification/Latency_Chart.thy ===== *)
theory Latency_Chart
  imports Web_Types
begin

text \<open>
  \<open>probeLatencyChart.ts\<close> and \<open>sparklineBars.ts\<close>: from probe records to what is
  drawn. The line of successful probes with its gaps, the windows of failures, the
  vertical range, and the bars of a sparkline. The moment of a record is a number of
  milliseconds.
\<close>

record probe_record =
  pr_time :: rat
  pr_ok :: bool
  pr_latency :: rat

record latency_point =
  lp_time :: rat
  lp_latency :: "rat option"

record failure_window =
  fw_start :: rat
  fw_end :: rat
  fw_count :: nat
  fw_band_start :: rat
  fw_band_end :: rat

section \<open>References\<close>

definition min_y_range_ms :: rat where "min_y_range_ms = 1000"
definition y_headroom :: rat where "y_headroom = 125 / 100"
definition p99_min_samples :: nat where "p99_min_samples = 20"
definition gap_break_factor :: rat where "gap_break_factor = 3"
definition window_merge_factor :: rat where "window_merge_factor = 2"
definition min_interval_ms :: rat where "min_interval_ms = 60000"

definition ascending_rat :: "rat \<Rightarrow> rat \<Rightarrow> rat" where
  "ascending_rat a b = a - b"

definition gaps_of :: "rat list \<Rightarrow> rat list" where
  "gaps_of ts = map (\<lambda>i. ts ! i - ts ! (i - 1)) [1..<length ts]"

definition median_interval_ms :: "rat list \<Rightarrow> rat" where
  "median_interval_ms ts = (if length ts < 2 then min_interval_ms
     else let gaps = js_sort ascending_rat (gaps_of (js_sort ascending_rat ts))
       in max (gaps ! ((length gaps - 1) div 2)) min_interval_ms)"

definition range_reference_ms :: "rat list \<Rightarrow> rat" where
  "range_reference_ms ls = (if ls = [] then 0
     else let s = js_sort ascending_rat ls in
       if length s < p99_min_samples then s ! (length s - 1)
       else s ! (nat \<lceil>99 / 100 * (of_nat (length s) :: rat)\<rceil> - 1))"

section \<open>The series\<close>

fun latency_points :: "rat \<Rightarrow> rat option \<Rightarrow> probe_record list \<Rightarrow> latency_point list" where
  \<comment> \<open>the loop over the chronological records, with the time of the last success\<close>
  "latency_points median prev [] = []"
| "latency_points median prev (r # rs) =
    (if \<not> pr_ok r then latency_points median prev rs
     else (case prev of
         Some t \<Rightarrow> if pr_time r - t > gap_break_factor * median then [\<lparr>lp_time = pr_time r, lp_latency = None\<rparr>] else []
       | None \<Rightarrow> []) @
       \<lparr>lp_time = pr_time r, lp_latency = Some (pr_latency r)\<rparr> # latency_points median (Some (pr_time r)) rs)"

definition new_window :: "rat \<Rightarrow> failure_window" where
  "new_window t = \<lparr>fw_start = t, fw_end = t, fw_count = 1, fw_band_start = t, fw_band_end = t\<rparr>"

definition add_to_window :: "rat \<Rightarrow> rat \<Rightarrow> failure_window list \<Rightarrow> failure_window list" where
  "add_to_window median t ws =
    (if ws \<noteq> [] \<and> t - fw_end (last ws) \<le> window_merge_factor * median
     then butlast ws @ [(last ws)\<lparr>fw_end := t, fw_band_end := t, fw_count := fw_count (last ws) + 1\<rparr>]
     else ws @ [new_window t])"

definition failure_windows :: "rat \<Rightarrow> probe_record list \<Rightarrow> failure_window list" where
  "failure_windows median rs = fold (\<lambda>r ws. if pr_ok r then ws else add_to_window median (pr_time r) ws) rs []"

definition widen_window :: "rat \<Rightarrow> failure_window \<Rightarrow> failure_window" where
  "widen_window median w = (if fw_start w = fw_end w
     then w\<lparr>fw_band_start := fw_start w - median / 2, fw_band_end := fw_end w + median / 2\<rparr> else w)"

record latency_series =
  lse_points :: "latency_point list"
  lse_windows :: "failure_window list"
  lse_y_max :: rat

definition point_latencies :: "latency_point list \<Rightarrow> rat list" where
  "point_latencies ps = concat (map (\<lambda>p. case lp_latency p of None \<Rightarrow> [] | Some l \<Rightarrow> [l]) ps)"

definition build_probe_latency_series :: "probe_record list \<Rightarrow> latency_series" where
  \<comment> \<open>the records come newest first\<close>
  "build_probe_latency_series records =
    (let chronological = rev records;
         median = median_interval_ms (map pr_time chronological);
         points = latency_points median None chronological;
         windows = map (widen_window median) (failure_windows median chronological);
         ref = range_reference_ms (point_latencies points)
     in \<lparr>lse_points = points, lse_windows = windows, lse_y_max = max (ref * y_headroom) min_y_range_ms\<rparr>)"

section \<open>Sparkline bars\<close>

record spark_bar =
  sb_x :: rat
  sb_y :: rat
  sb_width :: rat
  sb_height :: rat

definition sparkline_bar_layout :: "rat option list \<Rightarrow> rat \<Rightarrow> rat \<Rightarrow> rat \<Rightarrow> spark_bar list option" where
  "sparkline_bar_layout values width height gap =
    (let n = length values; real = map the (filter (\<lambda>v. v \<noteq> None) values);
         most = (case real of [] \<Rightarrow> 0 | v # vs \<Rightarrow> fold max vs v)
     in if n = 0 \<or> most \<le> 0 then None
        else let slot = (width - (of_nat n - 1) * gap) / of_nat n in
          if slot \<le> 0 then None
          else Some (concat (map (\<lambda>(i, v). case v of None \<Rightarrow> []
            | Some q \<Rightarrow> if q \<le> 0 then []
                else let h = q / most * height in
                  [\<lparr>sb_x = of_nat i * (slot + gap), sb_y = height - h, sb_width = slot, sb_height = h\<rparr>])
            (zip [0..<n] values))))"

definition corner_radius :: "rat \<Rightarrow> rat \<Rightarrow> rat \<Rightarrow> rat" where
  \<comment> \<open>the clamp at the head of \<open>topRoundedBarPath\<close>\<close>
  "corner_radius width height radius = max 0 (min radius (min (width / 2) height))"

section \<open>Failures and their windows\<close>

lemma failure_windows_snoc:
  "failure_windows m (rs @ [r]) = (if pr_ok r then failure_windows m rs else add_to_window m (pr_time r) (failure_windows m rs))"
  by (simp add: failure_windows_def)

definition failure_times :: "probe_record list \<Rightarrow> rat list" where
  "failure_times rs = map pr_time (filter (\<lambda>r. \<not> pr_ok r) rs)"

definition windows_ok :: "rat \<Rightarrow> rat list \<Rightarrow> failure_window list \<Rightarrow> bool" where
  \<comment> \<open>what the windows owe to the failure times seen so far\<close>
  "windows_ok m ts ws \<longleftrightarrow>
    sum_list (map fw_count ws) = length ts \<and>
    (\<forall>w \<in> set ws. fw_start w \<le> fw_end w \<and> 0 < fw_count w \<and> fw_start w \<in> set ts \<and> fw_end w \<in> set ts) \<and>
    (\<forall>t \<in> set ts. \<exists>w \<in> set ws. fw_start w \<le> t \<and> t \<le> fw_end w) \<and>
    sorted_wrt (\<lambda>v w. fw_end v + window_merge_factor * m < fw_start w) ws \<and>
    (ts = [] \<longleftrightarrow> ws = []) \<and> (ts \<noteq> [] \<longrightarrow> fw_end (last ws) = last ts)"

lemma add_to_window_ok:
  assumes ok: "windows_ok m ts ws" and t: "\<forall>s \<in> set ts. s \<le> t" and m: "0 \<le> m"
  shows "windows_ok m (ts @ [t]) (add_to_window m t ws)"
proof (cases "ws \<noteq> [] \<and> t - fw_end (last ws) \<le> window_merge_factor * m")
  case True
  then obtain us w where ws: "ws = us @ [w]" by (metis append_butlast_last_id)
  with True have a: "add_to_window m t ws = us @ [w\<lparr>fw_end := t, fw_band_end := t, fw_count := fw_count w + 1\<rparr>]"
    by (simp add: add_to_window_def)
  have "ts \<noteq> []" using ok ws by (simp add: windows_ok_def)
  then have "fw_end w \<le> t" using ok t ws by (simp add: windows_ok_def)
  with ok t ws show ?thesis unfolding a windows_ok_def
    by (auto simp: sorted_wrt_append)
next
  case False
  then have a: "add_to_window m t ws = ws @ [new_window t]" by (auto simp: add_to_window_def)
  have far: "fw_end v + window_merge_factor * m < t" if "v \<in> set ws" for v
  proof -
    have ne: "ws \<noteq> []" using that by auto
    then obtain us w where ws: "ws = us @ [w]" by (metis append_butlast_last_id)
    have "window_merge_factor * m < t - fw_end w" using False ne ws by simp
    moreover have "fw_end v \<le> fw_end w"
    proof (cases "v = w")
      case False
      then have "v \<in> set us" using that ws by simp
      then have "fw_end v + window_merge_factor * m < fw_start w" using ok ws by (simp add: windows_ok_def sorted_wrt_append)
      moreover have "fw_start w \<le> fw_end w" using ok unfolding windows_ok_def ws by (metis in_set_conv_decomp)
      moreover have "0 \<le> window_merge_factor * m" using m by (simp add: window_merge_factor_def)
      ultimately show ?thesis by linarith
    qed simp
    ultimately show ?thesis by simp
  qed
  then show ?thesis using ok unfolding a windows_ok_def new_window_def by (auto simp: sorted_wrt_append)
qed

lemma failure_windows_ok:
  "0 \<le> m \<Longrightarrow> sorted_wrt (\<lambda>a b. pr_time a \<le> pr_time b) rs \<Longrightarrow> windows_ok m (failure_times rs) (failure_windows m rs)"
proof (induction rs rule: rev_induct)
  case Nil
  then show ?case by (simp add: windows_ok_def failure_times_def failure_windows_def)
next
  case (snoc r rs)
  then have ok: "windows_ok m (failure_times rs) (failure_windows m rs)" by (simp add: sorted_wrt_append)
  show ?case
  proof (cases "pr_ok r")
    case True
    with ok show ?thesis by (simp add: failure_windows_snoc failure_times_def)
  next
    case False
    have "\<forall>s \<in> set (failure_times rs). s \<le> pr_time r" using snoc.prems by (auto simp: sorted_wrt_append failure_times_def)
    with ok False show ?thesis
      using add_to_window_ok [of m "failure_times rs" "failure_windows m rs" "pr_time r"] snoc.prems(1)
      by (simp add: failure_windows_snoc failure_times_def)
  qed
qed

lemma point_latencies_of: "point_latencies (latency_points m prev rs) = map pr_latency (filter pr_ok rs)"
  by (induction m prev rs rule: latency_points.induct) (auto simp: point_latencies_def split: option.split)

lemma widen_simps [simp]:
  "fw_start (widen_window m w) = fw_start w" "fw_end (widen_window m w) = fw_end w" "fw_count (widen_window m w) = fw_count w"
  by (simp_all add: widen_window_def)

lemma median_floor: "min_interval_ms \<le> median_interval_ms ts"
  by (simp add: median_interval_ms_def Let_def)

section \<open>Properties\<close>

text \<open>
  The chart shows the records as they are: the line has exactly the latencies
  of the successful probes in order; the failure windows count every failure once, every
  failure lies within the true bounds of a window and those bounds are times of failures;
  two windows are more than two median intervals apart; and the vertical range is at least
  one second.
\<close>

theorem latency_chart_is_faithful:
  fixes records :: "probe_record list"
  defines "s \<equiv> build_probe_latency_series records"
    and "median \<equiv> median_interval_ms (map pr_time (rev records))"
  assumes "sorted_wrt (\<lambda>a b. pr_time b \<le> pr_time a) records"
  shows "point_latencies (lse_points s) = map pr_latency (filter pr_ok (rev records)) \<and>
    sum_list (map fw_count (lse_windows s)) = length (filter (\<lambda>r. \<not> pr_ok r) records) \<and>
    (\<forall>r \<in> set records. \<not> pr_ok r \<longrightarrow> (\<exists>w \<in> set (lse_windows s). fw_start w \<le> pr_time r \<and> pr_time r \<le> fw_end w)) \<and>
    (\<forall>w \<in> set (lse_windows s). fw_start w \<le> fw_end w \<and>
      (\<exists>r \<in> set records. \<not> pr_ok r \<and> pr_time r = fw_start w) \<and> (\<exists>r \<in> set records. \<not> pr_ok r \<and> pr_time r = fw_end w)) \<and>
    sorted_wrt (\<lambda>v w. fw_end v + 2 * median < fw_start w) (lse_windows s) \<and> 1000 \<le> lse_y_max s"
proof -
  have "sorted_wrt (\<lambda>a b. pr_time a \<le> pr_time b) (rev records)" using assms(3) by (simp add: sorted_wrt_rev)
  moreover have "0 \<le> median" using median_floor [of "map pr_time (rev records)"] by (simp add: median_def min_interval_ms_def)
  ultimately have ok': "windows_ok median (failure_times (rev records)) (failure_windows median (rev records))"
    by (intro failure_windows_ok)
  note ok = ok' [unfolded windows_ok_def]
  have w: "lse_windows s = map (widen_window median) (failure_windows median (rev records))"
    by (simp add: s_def median_def build_probe_latency_series_def Let_def)
  have p: "lse_points s = latency_points median None (rev records)"
    by (simp add: s_def median_def build_probe_latency_series_def Let_def)
  have y: "1000 \<le> lse_y_max s" by (simp add: s_def build_probe_latency_series_def Let_def min_y_range_ms_def)
  have c: "sum_list (map fw_count (lse_windows s)) = length (filter (\<lambda>r. \<not> pr_ok r) records)"
    using ok by (simp add: w o_def failure_times_def rev_filter [symmetric])
  have t: "set (failure_times (rev records)) = pr_time ` {r \<in> set records. \<not> pr_ok r}" by (auto simp: failure_times_def)
  have "sorted_wrt (\<lambda>v w. fw_end v + 2 * median < fw_start w) (lse_windows s)"
    using ok by (simp add: w sorted_wrt_map window_merge_factor_def)
  moreover have "\<forall>w \<in> set (lse_windows s). fw_start w \<le> fw_end w \<and>
      (\<exists>r \<in> set records. \<not> pr_ok r \<and> pr_time r = fw_start w) \<and> (\<exists>r \<in> set records. \<not> pr_ok r \<and> pr_time r = fw_end w)"
  proof
    fix v
    assume "v \<in> set (lse_windows s)"
    then obtain u where u: "u \<in> set (failure_windows median (rev records))" "v = widen_window median u" by (auto simp: w)
    have "fw_start u \<le> fw_end u" "fw_start u \<in> pr_time ` {r \<in> set records. \<not> pr_ok r}"
      "fw_end u \<in> pr_time ` {r \<in> set records. \<not> pr_ok r}" using ok u(1) unfolding t by blast+
    then show "fw_start v \<le> fw_end v \<and>
      (\<exists>r \<in> set records. \<not> pr_ok r \<and> pr_time r = fw_start v) \<and> (\<exists>r \<in> set records. \<not> pr_ok r \<and> pr_time r = fw_end v)"
      unfolding u(2) by auto
  qed
  moreover have "\<forall>r \<in> set records. \<not> pr_ok r \<longrightarrow> (\<exists>w \<in> set (lse_windows s). fw_start w \<le> pr_time r \<and> pr_time r \<le> fw_end w)"
  proof (intro ballI impI)
    fix r
    assume "r \<in> set records" "\<not> pr_ok r"
    then have "pr_time r \<in> set (failure_times (rev records))" unfolding t by blast
    with ok obtain u where "u \<in> set (failure_windows median (rev records))" "fw_start u \<le> pr_time r" "pr_time r \<le> fw_end u" by blast
    then show "\<exists>w \<in> set (lse_windows s). fw_start w \<le> pr_time r \<and> pr_time r \<le> fw_end w" by (auto simp: w)
  qed
  moreover have "point_latencies (lse_points s) = map pr_latency (filter pr_ok (rev records))"
    unfolding p by (rule point_latencies_of)
  ultimately show ?thesis using y c by blast
qed

definition probe_at :: "rat \<Rightarrow> bool \<Rightarrow> probe_record" where
  "probe_at t good = \<lparr>pr_time = t, pr_ok = good, pr_latency = 100\<rparr>"

lemma latency_chart_is_faithful_witness:
  "1000 \<le> lse_y_max (build_probe_latency_series [probe_at 240000 False, probe_at 180000 False, probe_at 60000 True]) \<and>
   map fw_count (lse_windows (build_probe_latency_series [probe_at 240000 False, probe_at 180000 False, probe_at 60000 True])) = [2]"
proof
  have "sorted_wrt (\<lambda>a b. pr_time b \<le> pr_time a) [probe_at 240000 False, probe_at 180000 False, probe_at 60000 True]"
    by (simp add: probe_at_def)
  from latency_chart_is_faithful [OF this]
  show "1000 \<le> lse_y_max (build_probe_latency_series [probe_at 240000 False, probe_at 180000 False, probe_at 60000 True])" by blast
qed code_simp

text \<open>
  The bars of a sparkline stay in their track: every bar is positive, as high as the
  track at most, stands on its floor and lies between its left and right ends.
\<close>

lemma fold_max_upper: "v \<le> fold max vs (v :: rat) \<and> (\<forall>x \<in> set vs. x \<le> fold max vs v)"
proof (induction vs arbitrary: v)
  case (Cons x vs)
  from Cons [of "max x v"] show ?case by auto
qed simp

theorem bars_stay_in_the_track:
  assumes "sparkline_bar_layout values width height gap = Some bars" "b \<in> set bars" "0 < height" "0 \<le> gap"
  shows "0 < sb_width b \<and> 0 < sb_height b \<and> sb_height b \<le> height \<and> sb_y b + sb_height b = height \<and>
    0 \<le> sb_x b \<and> sb_x b + sb_width b \<le> width"
proof -
  define real where "real = map the (filter (\<lambda>v. v \<noteq> None) values)"
  define most where "most = (case real of [] \<Rightarrow> 0 | v # vs \<Rightarrow> fold max vs v)"
  define n where "n = length values"
  define slot where "slot = (width - (of_nat n - 1) * gap) / of_nat n"
  have top: "q \<le> most" if "Some q \<in> set values" for q
  proof -
    have "q \<in> set real" using that by (force simp: real_def)
    then show ?thesis using fold_max_upper by (cases real) (auto simp: most_def)
  qed
  have pos: "0 < n" "0 < most" "0 < slot" and bars: "bars = concat (map (\<lambda>(i, v). case v of None \<Rightarrow> []
            | Some q \<Rightarrow> if q \<le> 0 then []
                else let h = q / most * height in
                  [\<lparr>sb_x = of_nat i * (slot + gap), sb_y = height - h, sb_width = slot, sb_height = h\<rparr>])
            (zip [0..<n] values))"
    using assms(1) unfolding sparkline_bar_layout_def Let_def real_def [symmetric] most_def [symmetric] n_def [symmetric] slot_def [symmetric]
    by (auto split: if_splits)
  obtain i q where q: "(i, Some q) \<in> set (zip [0..<n] values)" "0 < q"
    and b: "b = \<lparr>sb_x = of_nat i * (slot + gap), sb_y = height - q / most * height, sb_width = slot, sb_height = q / most * height\<rparr>"
    using assms(2) unfolding bars by (auto simp: Let_def not_le split: option.splits if_splits)
  have i: "i < n" and v: "Some q \<in> set values" using q(1) by (auto dest: set_zip_leftD set_zip_rightD)
  have h: "0 < q / most" "q / most \<le> 1" using q(2) pos(2) top [OF v] by simp_all
  have "of_nat n * slot = width - (of_nat n - 1) * gap" using pos(1) by (simp add: slot_def)
  then have wd: "width = of_nat n * (slot + gap) - gap" by (simp add: algebra_simps)
  have "(of_nat i + 1) * (slot + gap) \<le> of_nat n * (slot + gap)"
    using i pos(3) assms(4) by (intro mult_right_mono) (auto simp flip: of_nat_Suc)
  then have "of_nat i * (slot + gap) + slot \<le> width" unfolding wd by (simp add: algebra_simps)
  moreover have "q / most * height \<le> height" using mult_right_mono [OF h(2), of height] assms(3) by simp
  moreover have "0 < q / most * height" using h(1) assms(3) by (rule mult_pos_pos)
  ultimately show ?thesis using b pos(3) assms(4) by simp
qed

lemma bars_stay_in_the_track_witness:
  "\<exists>bars. sparkline_bar_layout [Some 1, None, Some 2] 16 8 2 = Some bars \<and> (\<forall>b \<in> set bars. sb_x b + sb_width b \<le> 16)"
proof -
  let ?bars = "[\<lparr>sb_x = 0, sb_y = 4, sb_width = 4, sb_height = 4\<rparr>, \<lparr>sb_x = 12, sb_y = 0, sb_width = 4, sb_height = 8\<rparr>]"
  have l: "sparkline_bar_layout [Some 1, None, Some 2] 16 8 2 = Some ?bars" by code_simp
  from bars_stay_in_the_track [OF l] have "\<forall>b \<in> set ?bars. sb_x b + sb_width b \<le> 16" by simp
  with l show ?thesis by blast
qed

end
