(* ===== verification/Spec2Isabelle.thy ===== *)
theory Spec2Isabelle
  imports Poll_Lanes Event_Validation Session_Store Source_Lock Event_Queue Live_Properties
    Commit_Properties Manual_Commit
    Wrap_Accept Accept_Run Template_Search Live_Inject
    Hook_Run Hook_Excludes
    Severity_Sort Status_Card Model_List Alert_Timeline Board_Math Live_View Latency_Chart
begin

text \<open>
  A verification library for three programs of the hubscope repository that are
  written in JavaScript and TypeScript.

  The first is the live mode of the impeccable skill, under
  \<open>.github/skills/impeccable/scripts\<close> (paths below are relative to it). A
  developer's browser and one or more coding agents talk to a local HTTP server:
  the browser posts events (generate variants, accept, discard, checkpoints, staged
  copy edits), the server journals them per session and queues them, agents
  long-poll the queue under leases and reply, and replies go back to the browser
  over an event stream. The second is the design hook of the same skill, which a coding
  agent's harness calls after each edit and at the end of a turn. The third is the logic
  of the HubScope web client, the utilities under \<open>src/web/src/utils\<close> that turn the
  server's payloads into what a page shows.

  \<^bold>\<open>Foundations.\<close> \<open>Prelude\<close> has the sum monad for code that throws and lists
  updated by key; \<open>Js_Value\<close> JavaScript values with coercions, equality and JSON
  normalization; \<open>Js_Path\<close> the POSIX part of \<open>node:path\<close>; \<open>Web_Sort\<close> the stable
  sort with a comparison function. Numbers are exact rationals with NaN and the
  infinities as extra values: rounding of doubles is not modelled.

  \<^bold>\<open>Live mode: the data.\<close> \<open>Vocabulary\<close> (\<open>live/vocabulary.mjs\<close>), \<open>Poll_Lanes\<close>
  (\<open>live/poll-lanes.mjs\<close>, \<open>live/completion.mjs\<close>) and \<open>Event_Validation\<close>
  (\<open>live/event-validation.mjs\<close>) give the protocol. \<open>Session_Snapshot\<close>,
  \<open>Session_Replay\<close>, \<open>Session_Log\<close> and \<open>Session_Store\<close> are
  \<open>live/session-store.mjs\<close>: the snapshot as a record, \<open>apply_event\<close> with every
  journal event, the replay, and the store with its cache, its snapshot files and
  its two directories. \<open>Store_Interface\<close> is the contract clients rely on, a locale
  interpreted on the store. An append is split at the write of the journal line
  (\<open>append_begin\<close>, \<open>append_end\<close>), so that appends of two processes can overlap.
  \<open>Source_Lock\<close> (\<open>live/source-lock.mjs\<close>) is a step relation over the single file
  operations of several acquisitions. \<open>Manual_Buffer\<close>
  (\<open>live/manual-edits-buffer.mjs\<close>) is the file of staged copy edits.

  \<^bold>\<open>Live mode: the server.\<close> \<open>Event_Queue\<close> is the queue of \<open>live-server.mjs\<close> with
  leases, parked polls, flushes, acknowledgements and timers; \<open>Queue_Sessions\<close>
  says which sessions its operations can create. \<open>Manual_Apply\<close> and
  \<open>Manual_Deferreds\<close> are \<open>live/manual-apply.mjs\<close>: batches, chunks, merging and
  validation of results, rollback, transactions, and the promises of dispatched
  events. \<open>Live_Server\<close> and \<open>Manual_Routes\<close> are the HTTP routes, one definition per
  route from the token check to the answer and the new state; \<open>Live_Run\<close> puts them
  behind one dispatch; \<open>Live_Promises\<close> has the reachable states as the inductive
  \<open>server_run\<close>; \<open>Live_Properties\<close> holds properties that span the parts.
  An exception that no handler catches is \<open>Inl\<close> (it ends the process).

  \<^bold>\<open>Live mode: applying copy edits.\<close> \<open>Edit_Evidence\<close>
  (\<open>live-manual-edit-evidence.mjs\<close>) collects the staged edits with the places of the
  sources they may come from. \<open>Js_Match\<close> has the fixed regular expressions and
  \<open>lib/is-generated.mjs\<close>; \<open>Copy_Agent\<close> (\<open>live-copy-edit-agent.mjs\<close>) one call of an agent
  and the checks of the files it touched. \<open>Commit_Verify\<close>, \<open>Commit_Rollback\<close> and
  \<open>Commit_Run\<close> are \<open>live-commit-manual-edits.mjs\<close>: whether an edit is to be found in
  the sources, snapshots and rollback, and the commit with its repair loop, whose
  world is the source tree and the buffer. \<open>Manual_Commit\<close> is the route around it,
  split where the handler waits: \<open>commit_begin\<close>, the commit, \<open>commit_end\<close>.

  \<^bold>\<open>Live mode: pages.\<close> \<open>Template_Search\<close> (\<open>live/source-search.mjs\<close>,
  \<open>lib/template-extensions.mjs\<close>) finds the file of a session or of an element.
  \<open>Live_Wrap\<close> (\<open>live-wrap.mjs\<close>) frames an element with the place for its variants;
  \<open>Live_Accept\<close> and \<open>Accept_Run\<close> (\<open>live-accept.mjs\<close>) put one variant or the original
  in the place of the frame, under a receipt, and \<open>Wrap_Accept\<close> relates the two.
  \<open>Tag_Scan\<close> has the text scanning they share. \<open>Inject_Tag\<close> and \<open>Inject_Csp\<close>
  (\<open>live/frameworks/tag-strategy.mjs\<close>, \<open>script-src.mjs\<close>) are the script block and the
  content security policy, \<open>Inject_Journal\<close> (\<open>live/frameworks/journal.mjs\<close>) the record
  of an injection and its healing, \<open>Inject_Config\<close> and \<open>Git_Ignore\<close> the configuration,
  patterns and ignore block, and \<open>Live_Inject\<close> the run of \<open>live-inject.mjs\<close> with the
  registry \<open>live/frameworks/index.mjs\<close>.

  \<^bold>\<open>Design hook.\<close> All of it is \<open>hook-lib.mjs\<close>. \<open>Hook_Config\<close> has the configuration and the
  normal forms of what is ignored, \<open>Hook_Filter\<close> the findings and files that count,
  \<open>Hook_Targets\<close> the event of each harness and the files it leads to, \<open>Hook_Scan\<close> the cache
  and the two scans, \<open>Hook_Report\<close> the texts and their budget, \<open>Hook_Run\<close> the runs with
  \<open>hook.mjs\<close> and the platform of \<open>context.mjs\<close>, \<open>Hook_Excludes\<close> the block in the exclude
  file. A scan is a fold over the files with the cache in its state.

  \<^bold>\<open>Web client.\<close> \<open>Web_Types\<close> is the overview payload; \<open>Severity_Sort\<close>,
  \<open>Status_Display\<close>, \<open>Web_Format\<close>, \<open>Overview_Metrics\<close>, \<open>Status_Card\<close> are the status
  vocabulary, texts and figures; \<open>Model_List\<close>, \<open>Alert_Timeline\<close>, \<open>Board_Math\<close>,
  \<open>Live_View\<close>, \<open>Latency_Chart\<close> are the pages' logic, one theory per page.

  \<^bold>\<open>What the lemmas show.\<close> Of the store: whatever processes did before, a reader
  gets the replay of the journal, an append is one event, progress is never undone.
  Of the queue: no duplicates, exclusive leases, no poll waits beside a matching
  event. Of the lock: mutual exclusion while no holder crashes. Of copy edits:
  splitting and merging lose nothing, rollback restores the sources, each promise
  is settled once, a late result is undone; a commit that reports a rollback has
  restored the files, clears only what it found in the sources, ends, and closes its
  transaction; a lost commit is undone by the next one. Of pages: discarding undoes
  wrapping up to empty lines, a session is accepted at most once, a run that answers
  that it did nothing did nothing, the search finds; a lost injection is healed, and
  healing touches only what carries its mark. Of the hook: what was reported is not
  reported again by the next edit, what was left for later comes at the end of the turn,
  a run looks only at the project, a report fits its budget. Of the routes: no effect without the
  token, no session out of nothing, confinement of file access, and exactly which
  events end the process. Of the web client: sorts are sorts independent of input
  order, sections partition, figures equal their reference definitions, charts show
  the records. Where the code falls short, the theorem states what it does do and
  the manifest's findings name it.

  \<^bold>\<open>Parameters.\<close> A \<open>host\<close> gives a process its clock, its reachable processes and the
  sizes of files; \<open>publishing\<close> gives the manifests and compile results a reply may
  name; date functions and \<open>localeCompare\<close> are arguments of the web definitions.
  What an agent answers, and what the files and the buffer are once it has, is
  \<open>ca_reply\<close>, a function of the number of the call and of the world before it; the
  parsers and scripts that check touched files are \<open>checkers\<close>, what git ignores is
  \<open>pj_ignored\<close>. What \<open>globSync\<close> lists, the adapter of a framework and the functions
  that undo patches are arguments of the injection; the detector, a possible failure of each
  of its calls included, is one of the hook, with the product file and the parser of JSON. \<open>scan_dir\<close> counts the eight levels the code descends.
  The fuel of \<open>flush_loop\<close> is the number of parked polls plus one: each
  round answers or claims for one parked poll and removes it, so the loop
  has ended by then; \<open>flush_serves_every_poll\<close> would be false with less.

  \<^bold>\<open>Not modelled.\<close> Of the live mode: the browser scripts (\<open>live-browser*.js\<close>), the
  adapters that rewrite framework sources (svelte, nuxt, tanstack) and the detection
  of a framework, component previews, \<open>live-insert.mjs\<close>, the design system and static script routes, CORS headers, start-up
  sweeps, the prompt for the copy-edit agent and the processes that run it, and the
  command line entries. The anti-pattern detector, whose rules work on what third-party
  parsers return, the audit log of the hook and the other command line tools of the skill; the HubScope server, which is Go; Vue components and fetch wrappers.
\<close>

end
